(* ===== verification/Prelude.thy ===== *)
theory Prelude
  imports Complex_Main "HOL-Library.AList" "HOL-Library.Char_ord"
begin

text \<open>
  Shared vocabulary of the development: the JavaScript values the backend works with and
  the generic lemmas the component theories use.

  Conventions.  A JavaScript number that counts, orders or measures time is an \<open>int\<close>
  (times are epoch milliseconds); a number that is an amount of money, a rate or a ratio is
  a \<open>rat\<close>, so arithmetic is exact and results hold for values on which the double
  arithmetic of the code does not round.  A value that may be absent (\<open>undefined\<close> or
  \<open>null\<close>) is an option.  A JavaScript \<open>Map\<close> is an association list in insertion order,
  because the code iterates over some of its maps.  The clock (\<open>Date.now()\<close>), random
  identifiers, hashes and signatures are arguments of the definitions that use them.
\<close>

section \<open>Collections of rewrite rules\<close>

named_theorems js_simps "rules of the JavaScript Map operations"

section \<open>Types of the model\<close>

type_synonym millis = int
type_synonym amount = rat
type_synonym ident = string

section \<open>JavaScript maps\<close>

type_synonym ('k, 'v) jsmap = "('k \<times> 'v) list"

definition js_get :: "('k, 'v) jsmap \<Rightarrow> 'k \<Rightarrow> 'v option" where
  "js_get m k = map_of m k"

definition js_set :: "'k \<Rightarrow> 'v \<Rightarrow> ('k, 'v) jsmap \<Rightarrow> ('k, 'v) jsmap" where
  "js_set k v m = AList.update k v m"

definition js_delete :: "'k \<Rightarrow> ('k, 'v) jsmap \<Rightarrow> ('k, 'v) jsmap" where
  "js_delete k m = AList.delete k m"

definition js_values :: "('k, 'v) jsmap \<Rightarrow> 'v list" where
  "js_values m = map snd m"

definition js_keys :: "('k, 'v) jsmap \<Rightarrow> 'k list" where
  "js_keys m = map fst m"

definition js_wf :: "('k, 'v) jsmap \<Rightarrow> bool" where
  "js_wf m \<longleftrightarrow> distinct (map fst m)"

lemma js_get_empty [simp, js_simps]: "js_get [] k = None"
  by (simp add: js_get_def)

lemma js_get_set [simp, js_simps]: "js_get (js_set k v m) k' = (if k' = k then Some v else js_get m k')"
  by (simp add: js_get_def js_set_def update_conv')

lemma js_get_delete [simp, js_simps]: "js_get (js_delete k m) k' = (if k' = k then None else js_get m k')"
  by (simp add: js_get_def js_delete_def delete_conv')

lemma js_wf_empty [simp, intro]: "js_wf []"
  by (simp add: js_wf_def)

lemma js_wf_set [simp, intro]: "js_wf m \<Longrightarrow> js_wf (js_set k v m)"
  by (simp add: js_wf_def js_set_def distinct_update)

lemma js_wf_delete [simp, intro]: "js_wf m \<Longrightarrow> js_wf (js_delete k m)"
  by (simp add: js_wf_def js_delete_def distinct_delete)

lemma js_keys_set: "set (js_keys (js_set k v m)) = insert k (set (js_keys m))"
  by (auto simp: js_keys_def js_set_def dom_update)

lemma js_get_in_keys: "js_get m k = Some v \<Longrightarrow> k \<in> set (js_keys m)"
  by (force simp: js_get_def js_keys_def dest: map_of_SomeD)

lemma js_get_None_iff: "js_get m k = None \<longleftrightarrow> k \<notin> set (js_keys m)"
  by (simp add: js_get_def js_keys_def map_of_eq_None_iff)

lemma js_get_values: "js_get m k = Some v \<Longrightarrow> v \<in> set (js_values m)"
  by (force simp: js_get_def js_values_def dest: map_of_SomeD)

lemma js_values_get: "js_wf m \<Longrightarrow> v \<in> set (js_values m) \<Longrightarrow> \<exists>k. js_get m k = Some v"
  by (force simp: js_get_def js_values_def js_wf_def intro: map_of_is_SomeI)

lemma js_set_fresh: "js_get m k = None \<Longrightarrow> js_set k v m = m @ [(k, v)]"
  by (induction m) (auto simp: js_get_def js_set_def split: if_splits)

text \<open>Updating a present key replaces its value in place; counting values by a predicate.\<close>

definition js_count :: "('v \<Rightarrow> bool) \<Rightarrow> ('k, 'v) jsmap \<Rightarrow> nat" where
  "js_count P m = length (filter P (js_values m))"

lemma js_count_empty [simp]: "js_count P [] = 0"
  by (simp add: js_count_def js_values_def)

lemma js_count_set_fresh:
  "js_get m k = None \<Longrightarrow> js_count P (js_set k v m) = js_count P m + (if P v then 1 else 0)"
  by (simp add: js_set_fresh js_count_def js_values_def)

lemma js_count_set_present:
  "js_get m k = Some w \<Longrightarrow>
     js_count P (js_set k v m) + (if P w then 1 else 0) = js_count P m + (if P v then 1 else 0)"
  by (induction m) (auto simp: js_get_def js_set_def js_count_def js_values_def split: if_splits)

text \<open>Removing every entry that fails a test, as a loop with \<open>delete\<close> over a \<open>Map\<close> does.\<close>

definition js_keep :: "('v \<Rightarrow> bool) \<Rightarrow> ('k, 'v) jsmap \<Rightarrow> ('k, 'v) jsmap" where
  "js_keep P m = filter (\<lambda>(k, v). P v) m"

lemma js_wf_keep [simp, intro]: "js_wf m \<Longrightarrow> js_wf (js_keep P m)"
  by (induction m) (auto simp: js_wf_def js_keep_def)

lemma js_get_keep [simp, js_simps]:
  "js_wf m \<Longrightarrow> js_get (js_keep P m) k = (case js_get m k of None \<Rightarrow> None | Some v \<Rightarrow> if P v then Some v else None)"
proof (induction m)
  case Nil
  show ?case by (simp add: js_keep_def)
next
  case (Cons a m)
  have "map_of (filter (\<lambda>(k, v). P v) m) (fst a) = None"
    using Cons.prems by (auto simp: js_wf_def map_of_eq_None_iff)
  then show ?case
    using Cons by (cases a) (auto simp: js_keep_def js_get_def js_wf_def split: option.splits)
qed

section \<open>Strings\<close>

text \<open>
  Strings are lists of 8-bit characters.  Only the ASCII letters have case here; the
  identifiers, methods and hexadecimal digests the code changes the case of are ASCII.
\<close>

definition code :: "char \<Rightarrow> nat" where
  "code c = of_char c"

definition upper_char :: "char \<Rightarrow> char" where
  "upper_char c = (if 97 \<le> code c \<and> code c \<le> 122 then char_of (code c - 32) else c)"

definition lower_char :: "char \<Rightarrow> char" where
  "lower_char c = (if 65 \<le> code c \<and> code c \<le> 90 then char_of (code c + 32) else c)"

definition toUpperCase :: "string \<Rightarrow> string" where
  "toUpperCase s = map upper_char s"

definition toLowerCase :: "string \<Rightarrow> string" where
  "toLowerCase s = map lower_char s"

definition is_space :: "char \<Rightarrow> bool" where
  "is_space c \<longleftrightarrow> code c \<in> {9, 10, 11, 12, 13, 32, 160}"

definition trim :: "string \<Rightarrow> string" where
  "trim s = rev (dropWhile is_space (rev (dropWhile is_space s)))"

definition startsWith :: "string \<Rightarrow> string \<Rightarrow> bool" where
  "startsWith s p \<longleftrightarrow> take (length p) s = p"

text \<open>\<open>s.includes(p)\<close>\<close>

fun str_includes :: "string \<Rightarrow> string \<Rightarrow> bool" where
  "str_includes [] p \<longleftrightarrow> p = []"
| "str_includes (c # s) p \<longleftrightarrow> startsWith (c # s) p \<or> str_includes s p"

definition slice :: "nat \<Rightarrow> nat \<Rightarrow> string \<Rightarrow> string" where
  "slice i j s = take (j - i) (drop i s)"

lemma code_char_of [simp]: "n < 256 \<Longrightarrow> code (char_of n) = n"
  by (simp add: code_def)

lemma code_eq_iff [simp]: "code c = code d \<longleftrightarrow> c = d"
  by (simp add: code_def)

lemma code_less [simp]: "code c < 256"
  by (simp add: code_def)

lemma code_char_of_minus [simp]: "code (char_of (code c - k)) = code c - k"
  by (rule code_char_of) (meson code_less diff_le_self order_le_less_trans)

lemma upper_char_idem [simp]: "upper_char (upper_char c) = upper_char c"
proof (cases "97 \<le> code c \<and> code c \<le> 122")
  case True
  then have "code (upper_char c) = code c - 32"
    by (simp add: upper_char_def)
  with True have "code (upper_char c) < 97" by arith
  then show ?thesis by (simp add: upper_char_def [of "upper_char c"])
qed (auto simp: upper_char_def)

lemma toUpperCase_idem [simp]: "toUpperCase (toUpperCase s) = toUpperCase s"
  by (simp add: toUpperCase_def)

lemma lower_char_idem [simp]: "lower_char (lower_char c) = lower_char c"
proof (cases "65 \<le> code c \<and> code c \<le> 90")
  case True
  then have "code (lower_char c) = code c + 32"
    by (simp add: lower_char_def)
  with True have "code (lower_char c) > 90" by arith
  then show ?thesis by (simp add: lower_char_def [of "lower_char c"])
qed (auto simp: lower_char_def)

lemma toLowerCase_idem [simp]: "toLowerCase (toLowerCase s) = toLowerCase s"
  by (simp add: toLowerCase_def)

lemma length_toLowerCase [simp]: "length (toLowerCase s) = length s"
  by (simp add: toLowerCase_def)

lemma startsWith_append [simp]: "startsWith (p @ s) p"
  by (simp add: startsWith_def)

lemma startsWithE: "startsWith s p \<Longrightarrow> \<exists>t. s = p @ t"
  by (metis startsWith_def append_take_drop_id)

text \<open>
  JavaScript truthiness of strings: an absent string and the empty string are both falsy,
  so \<open>s || d\<close> takes the default for both.
\<close>

definition truthy :: "string option \<Rightarrow> bool" where
  "truthy s \<longleftrightarrow> (case s of None \<Rightarrow> False | Some t \<Rightarrow> t \<noteq> [])"

definition str_or :: "string option \<Rightarrow> string \<Rightarrow> string" where
  "str_or s d = (case s of None \<Rightarrow> d | Some t \<Rightarrow> if t = [] then d else t)"

lemma truthy_simps [simp]: "\<not> truthy None" "truthy (Some s) \<longleftrightarrow> s \<noteq> []"
  by (simp_all add: truthy_def)

lemma str_or_simps [simp]: "str_or None d = d" "str_or (Some []) d = d" "s \<noteq> [] \<Longrightarrow> str_or (Some s) d = s"
  by (simp_all add: str_or_def)

text \<open>\<open>x ?? d\<close>: the default is taken for an absent value only.\<close>

definition nullish :: "'a option \<Rightarrow> 'a \<Rightarrow> 'a" where
  "nullish x d = (case x of None \<Rightarrow> d | Some v \<Rightarrow> v)"

lemma nullish_simps [simp]: "nullish None d = d" "nullish (Some v) d = v"
  by (simp_all add: nullish_def)

text \<open>The decimal rendering of an integer by \<open>String(n)\<close>.\<close>

fun show_nat :: "nat \<Rightarrow> string" where
  "show_nat n = (if n < 10 then [char_of (48 + n)] else show_nat (n div 10) @ [char_of (48 + n mod 10)])"

declare show_nat.simps [simp del]

definition show_int :: "int \<Rightarrow> string" where
  "show_int i = (if i < 0 then CHR ''-'' # show_nat (nat (- i)) else show_nat (nat i))"

lemma show_nat_digits: "c \<in> set (show_nat n) \<Longrightarrow> 48 \<le> code c \<and> code c \<le> 57"
proof (induction n rule: show_nat.induct)
  case (1 n)
  show ?case
  proof (cases "n < 10")
    case True
    with 1 show ?thesis by (auto simp: show_nat.simps [of n])
  next
    case False
    with 1 show ?thesis by (auto simp: show_nat.simps [of n])
  qed
qed

lemma show_nat_inj: "show_nat m = show_nat n \<Longrightarrow> m = n"
proof (induction m arbitrary: n rule: show_nat.induct)
  case (1 m)
  have ne: "show_nat k \<noteq> []" "[] \<noteq> show_nat k" for k by (simp_all add: show_nat.simps [of k])
  show ?case
  proof (cases "m < 10"; cases "n < 10")
    assume a: "m < 10" "n < 10"
    with "1.prems" have "code (char_of (48 + m)) = code (char_of (48 + n))"
      by (simp add: show_nat.simps [of m] show_nat.simps [of n] del: code_eq_iff)
    with a show ?thesis by simp
  next
    assume a: "\<not> m < 10" "\<not> n < 10"
    with "1.prems" have e: "show_nat (m div 10) = show_nat (n div 10)"
      and "code (char_of (48 + m mod 10)) = code (char_of (48 + n mod 10))"
      by (simp_all add: show_nat.simps [of m] show_nat.simps [of n] del: code_eq_iff)
    then have "m mod 10 = n mod 10" by simp
    moreover have "m div 10 = n div 10" using "1.IH" a e by blast
    ultimately show ?thesis by (metis div_mult_mod_eq)
  qed (use "1.prems" in \<open>auto simp: show_nat.simps [of m] show_nat.simps [of n] ne\<close>)
qed

section \<open>Hexadecimal\<close>

text \<open>
  \<open>Buffer.from(s, 'hex')\<close> decodes pairs of hexadecimal digits and stops, without an error,
  at the first pair that is not one; an odd trailing digit is dropped.
\<close>

definition hex_value :: "char \<Rightarrow> nat option" where
  "hex_value c = (let n = code c in
     if 48 \<le> n \<and> n \<le> 57 then Some (n - 48)
     else if 97 \<le> n \<and> n \<le> 102 then Some (n - 87)
     else if 65 \<le> n \<and> n \<le> 70 then Some (n - 55)
     else None)"

fun hex_decode :: "string \<Rightarrow> nat list" where
  "hex_decode (a # b # s) =
     (case (hex_value a, hex_value b) of
        (Some x, Some y) \<Rightarrow> (16 * x + y) # hex_decode s
      | _ \<Rightarrow> [])"
| "hex_decode _ = []"

definition is_hex :: "string \<Rightarrow> bool" where
  "is_hex s \<longleftrightarrow> list_all (\<lambda>c. hex_value c \<noteq> None) s"

definition timing_safe_hex_eq :: "string \<Rightarrow> string \<Rightarrow> bool" where
  "timing_safe_hex_eq a b \<longleftrightarrow> hex_decode a = hex_decode b"

lemma hex_value_lower [simp]: "hex_value (lower_char c) = hex_value c"
  by (auto simp: hex_value_def lower_char_def Let_def)

lemma hex_value_lower_inj:
  assumes "hex_value a = Some x" "hex_value b = Some x"
  shows "lower_char a = lower_char b"
proof -
  have h: "code (lower_char c) = (if x < 10 then 48 + x else 87 + x)" if "hex_value c = Some x" for c
    using that by (auto simp: hex_value_def lower_char_def Let_def split: if_splits)
  from h [OF assms(1)] h [OF assms(2)] have "code (lower_char a) = code (lower_char b)" by simp
  then show ?thesis by simp
qed

lemma hex_decode_lower [simp]: "hex_decode (toLowerCase s) = hex_decode s"
  by (induction s rule: hex_decode.induct) (auto simp: toLowerCase_def split: option.splits)

lemma hex_value_bound: "hex_value c = Some x \<Longrightarrow> x < 16"
  by (auto simp: hex_value_def Let_def split: if_splits)

text \<open>
  On well-formed digests of the same even length the comparison of the decoded bytes is
  equality up to the case of the letters.
\<close>

lemma hex_decode_inj:
  assumes "is_hex s" "is_hex t" "length s = length t" "even (length s)"
    and "hex_decode s = hex_decode t"
  shows "toLowerCase s = toLowerCase t"
  using assms
proof (induction s arbitrary: t rule: hex_decode.induct)
  case (1 a b s)
  then obtain c d u where t: "t = c # d # u"
    by (metis Suc_length_conv length_Cons)
  from 1 t obtain x y z w where v: "hex_value a = Some x" "hex_value b = Some y"
      "hex_value c = Some z" "hex_value d = Some w"
    by (auto simp: is_hex_def)
  with 1 t have e: "16 * x + y = 16 * z + w" "hex_decode s = hex_decode u" by auto
  have b: "y < 16" "w < 16" using v by (auto dest: hex_value_bound)
  with e have "(16 * x + y) div 16 = (16 * z + w) div 16" by simp
  with b have "x = z" by simp
  with e have "y = w" by simp
  with v \<open>x = z\<close> have "lower_char a = lower_char c" "lower_char b = lower_char d"
    by (auto intro: hex_value_lower_inj)
  moreover have "toLowerCase s = toLowerCase u"
    using 1 t v e by (intro "1.IH") (auto simp: is_hex_def)
  ultimately show ?case by (simp add: t toLowerCase_def)
qed (auto simp: toLowerCase_def)

section \<open>Lists and options\<close>

lemma find_Some_in: "List.find P xs = Some x \<Longrightarrow> x \<in> set xs \<and> P x"
  by (induction xs) (auto split: if_splits)

lemma find_None_all: "List.find P xs = None \<longleftrightarrow> (\<forall>x\<in>set xs. \<not> P x)"
  by (induction xs) auto

lemma sum_list_filter_split:
  "sum_list (map f (filter P xs)) + sum_list (map f (filter (\<lambda>x. \<not> P x) xs)) = (sum_list (map f xs) :: 'a::comm_monoid_add)"
  by (induction xs) (auto simp: ac_simps)

end
