(* ===== verification/PaymentState.thy ===== *)
theory PaymentState
  imports Prelude
begin

text \<open>
  The provider-independent payment state machine (\<open>backend/src/types/payment-state.ts\<close>).
  The states, the transition table, which the code keeps as strings of the form
  \<open>from->to\<close>, the classification helpers and the metadata table.  The lemmas relate the
  three: which states have successors, how long a payment can live, and that the metadata
  table and the helpers say the same.
\<close>

datatype payment_state = Pending | Authorized | Captured | Settled | Failed | Refunded

fun state_name :: "payment_state \<Rightarrow> string" where
  "state_name Pending = ''pending''"
| "state_name Authorized = ''authorized''"
| "state_name Captured = ''captured''"
| "state_name Settled = ''settled''"
| "state_name Failed = ''failed''"
| "state_name Refunded = ''refunded''"

definition all_states :: "payment_state list" where
  "all_states = [Pending, Authorized, Captured, Settled, Failed, Refunded]"

definition validTransitions :: "string list" where
  "validTransitions =
    [''pending->authorized'', ''pending->failed'', ''authorized->captured'',
     ''authorized->failed'', ''captured->settled'', ''captured->failed'',
     ''captured->refunded'', ''settled->refunded'']"

definition isValidTransition :: "payment_state \<Rightarrow> payment_state \<Rightarrow> bool" where
  "isValidTransition fr to = List.member validTransitions (state_name fr @ ''->'' @ state_name to)"

definition isTerminalState :: "payment_state \<Rightarrow> bool" where
  "isTerminalState s \<longleftrightarrow> s = Failed \<or> s = Refunded"

definition isSuccessfulState :: "payment_state \<Rightarrow> bool" where
  "isSuccessfulState s \<longleftrightarrow> s = Captured \<or> s = Settled"

definition isRefundableState :: "payment_state \<Rightarrow> bool" where
  "isRefundableState s \<longleftrightarrow> s = Captured \<or> s = Settled"

record state_metadata =
  md_state :: payment_state
  md_description :: string
  md_terminal :: bool
  md_successful :: bool
  md_refundable :: bool

fun getStateMetadata :: "payment_state \<Rightarrow> state_metadata" where
  "getStateMetadata Pending =
     \<lparr>md_state = Pending,
      md_description = ''Payment initiated, awaiting user action or provider confirmation'',
      md_terminal = False, md_successful = False, md_refundable = False\<rparr>"
| "getStateMetadata Authorized =
     \<lparr>md_state = Authorized, md_description = ''Payment method validated and funds reserved'',
      md_terminal = False, md_successful = False, md_refundable = False\<rparr>"
| "getStateMetadata Captured =
     \<lparr>md_state = Captured, md_description = ''Funds captured and in transit'',
      md_terminal = False, md_successful = True, md_refundable = True\<rparr>"
| "getStateMetadata Settled =
     \<lparr>md_state = Settled, md_description = ''Funds successfully transferred to merchant account'',
      md_terminal = False, md_successful = True, md_refundable = True\<rparr>"
| "getStateMetadata Failed =
     \<lparr>md_state = Failed, md_description = ''Payment failed'',
      md_terminal = True, md_successful = False, md_refundable = False\<rparr>"
| "getStateMetadata Refunded =
     \<lparr>md_state = Refunded, md_description = ''Payment was refunded'',
      md_terminal = True, md_successful = False, md_refundable = False\<rparr>"

section \<open>The transition table as a relation\<close>

text \<open>The transitions the comments of the file document, one rule each.\<close>

inductive payment_step :: "payment_state \<Rightarrow> payment_state \<Rightarrow> bool" where
  authorize: "payment_step Pending Authorized"
| reject: "payment_step Pending Failed"
| capture: "payment_step Authorized Captured"
| capture_failed: "payment_step Authorized Failed"
| settle: "payment_step Captured Settled"
| settlement_failed: "payment_step Captured Failed"
| early_refund: "payment_step Captured Refunded"
| refund: "payment_step Settled Refunded"

inductive_simps payment_step_simps:
  "payment_step Pending t" "payment_step Authorized t" "payment_step Captured t"
  "payment_step Settled t" "payment_step Failed t" "payment_step Refunded t"

lemma isValidTransition_step: "isValidTransition a b \<longleftrightarrow> payment_step a b"
  by (cases a; cases b) (simp_all add: isValidTransition_def validTransitions_def payment_step_simps)

text \<open>A history of a payment is a list of states in which consecutive ones are valid transitions.\<close>

fun valid_history :: "payment_state list \<Rightarrow> bool" where
  "valid_history [] = True"
| "valid_history [s] = True"
| "valid_history (a # b # ss) = (isValidTransition a b \<and> valid_history (b # ss))"

fun stage :: "payment_state \<Rightarrow> nat" where
  "stage Pending = 4"
| "stage Authorized = 3"
| "stage Captured = 2"
| "stage Settled = 1"
| "stage Failed = 0"
| "stage Refunded = 0"

lemma step_stage: "payment_step a b \<Longrightarrow> stage b < stage a"
  by (induction rule: payment_step.induct) simp_all

lemma valid_history_stage: "valid_history (s # ss) \<Longrightarrow> length ss \<le> stage s"
proof (induction ss arbitrary: s)
  case (Cons b ss)
  then have "stage b < stage s" "length ss \<le> stage b"
    by (auto simp: isValidTransition_step step_stage)
  then show ?case by simp
qed simp

lemma valid_history_append: "valid_history (xs @ ys) \<Longrightarrow> valid_history ys"
  by (induction xs rule: valid_history.induct) (auto, cases ys, auto)

lemma terminal_history: "valid_history (Failed # ss) \<Longrightarrow> ss = []" "valid_history (Refunded # ss) \<Longrightarrow> ss = []"
  by (auto dest: valid_history_stage)

lemma refunded_pred: "payment_step a Refunded \<Longrightarrow> isRefundableState a"
  by (auto simp: isRefundableState_def elim: payment_step.cases)

lemma settled_pred: "payment_step a Settled \<Longrightarrow> a = Captured"
  by (auto elim: payment_step.cases)

lemma history_reaches_capture:
  "valid_history (s # ss) \<Longrightarrow> s = Pending \<or> s = Authorized \<Longrightarrow> last (s # ss) \<in> {Captured, Settled, Refunded} \<Longrightarrow>
     Captured \<in> set ss"
proof (induction ss arbitrary: s)
  case (Cons b ss)
  then show ?case
    by (cases b) (auto simp: isValidTransition_step payment_step_simps split: if_splits dest: terminal_history)
qed auto

lemma valid_history_distinct: "valid_history ss \<Longrightarrow> sorted_wrt (\<lambda>a b. stage b < stage a) ss"
proof (induction ss rule: valid_history.induct)
  case (3 a b ss)
  then have "stage b < stage a" "sorted_wrt (\<lambda>a b. stage b < stage a) (b # ss)"
    by (auto simp: isValidTransition_step step_stage)
  then show ?case by (auto intro: less_trans)
qed simp_all

lemma stage_distinct: "sorted_wrt (\<lambda>a b. stage b < stage a) ss \<Longrightarrow> distinct ss"
  by (induction ss) auto

section \<open>Properties\<close>

text \<open>
  life of a payment.  A payment that starts pending and moves only along valid
  transitions never visits a state twice, so it makes at most four transitions; it stops once
  a terminal state is reached; and if it ends settled or refunded it has been captured.
\<close>

theorem payment_lifetime:
  assumes "valid_history (Pending # ss)"
  shows "distinct (Pending # ss) \<and> length ss \<le> 4 \<and>
    (\<forall>us t vs. Pending # ss = us @ t # vs \<and> isTerminalState t \<longrightarrow> vs = []) \<and>
    (last (Pending # ss) \<in> {Settled, Refunded} \<longrightarrow> Captured \<in> set ss)"
proof (intro conjI allI impI)
  show "distinct (Pending # ss)"
    using assms by (intro stage_distinct valid_history_distinct)
  show "length ss \<le> 4" using valid_history_stage [OF assms] by simp
  show "vs = []" if "Pending # ss = us @ t # vs \<and> isTerminalState t" for us t vs
    using that assms valid_history_append [of us "t # vs"] by (auto simp: isTerminalState_def dest: terminal_history)
  show "Captured \<in> set ss" if "last (Pending # ss) \<in> {Settled, Refunded}"
    using history_reaches_capture [OF assms] that by auto
qed

theorem payment_lifetime_witness:
  "Captured \<in> set [Authorized, Captured, Settled, Refunded] \<and> distinct [Pending, Authorized, Captured, Settled, Refunded]"
  using payment_lifetime [of "[Authorized, Captured, Settled, Refunded]"]
  by (simp add: isValidTransition_step payment_step_simps)

text \<open>
  the three descriptions of a state agree.  For every state the metadata table says what
  the classification helpers say; a state is terminal exactly when the transition table has no
  transition out of it, and refundable exactly when it has one to \<open>refunded\<close>.
\<close>

theorem state_tables_agree:
  "md_state (getStateMetadata s) = s \<and>
   (md_terminal (getStateMetadata s) \<longleftrightarrow> isTerminalState s) \<and>
   (md_successful (getStateMetadata s) \<longleftrightarrow> isSuccessfulState s) \<and>
   (md_refundable (getStateMetadata s) \<longleftrightarrow> isRefundableState s) \<and>
   (isTerminalState s \<longleftrightarrow> \<not> list_ex (isValidTransition s) all_states) \<and>
   (isRefundableState s \<longleftrightarrow> isValidTransition s Refunded)"
  by (cases s)
     (simp_all add: isTerminalState_def isSuccessfulState_def isRefundableState_def all_states_def
        isValidTransition_step payment_step_simps)

end
