(* ===== verification/SpendCap.thy ===== *)
theory SpendCap
  imports Prelude
begin

text \<open>
  Spend caps (\<open>backend/src/services/v3/spend-cap-service.ts\<close>): the local mirror of an
  agent's on-chain cap.  \<open>capCache\<close> is the map of records; the reasons of a refusal are the
  constructors of \<open>cap_refusal\<close>, which carry the values the messages print.
\<close>

datatype cap_status = Active | Suspended | Closed

record spend_cap =
  cardId :: string
  cap_agentId :: ident
  onChainCap :: amount
  consumedLocal :: amount
  lastSettledOnChainCap :: amount
  dailyLimit :: amount
  monthlyLimit :: amount
  cap_status :: cap_status
  cap_expiresAt :: int

type_synonym cap_cache = "(ident, spend_cap) jsmap"

datatype cap_refusal =
    No_cap_record ident
  | Cap_inactive cap_status
  | Cap_expired int
  | Cap_exceeded amount amount

record cap_check =
  can_transact :: bool
  remainingAllowance :: amount
  requiredAmount :: amount
  refusal :: "cap_refusal option"

definition setCap :: "spend_cap \<Rightarrow> cap_cache \<Rightarrow> cap_cache" where
  "setCap r m = js_set (cap_agentId r) r m"

definition getCap :: "cap_cache \<Rightarrow> ident \<Rightarrow> spend_cap option" where
  "getCap m a = js_get m a"

definition remaining :: "spend_cap \<Rightarrow> amount" where
  "remaining r = max 0 (onChainCap r - consumedLocal r)"

definition canTransact :: "cap_cache \<Rightarrow> ident \<Rightarrow> amount \<Rightarrow> int \<Rightarrow> cap_check" where
  "canTransact m a upper nowSec =
     (case js_get m a of
        None \<Rightarrow> \<lparr>can_transact = False, remainingAllowance = 0, requiredAmount = upper,
                 refusal = Some (No_cap_record a)\<rparr>
      | Some r \<Rightarrow>
          if cap_status r \<noteq> Active then
            \<lparr>can_transact = False, remainingAllowance = 0, requiredAmount = upper,
             refusal = Some (Cap_inactive (cap_status r))\<rparr>
          else if 0 < cap_expiresAt r \<and> cap_expiresAt r < nowSec then
            \<lparr>can_transact = False, remainingAllowance = 0, requiredAmount = upper,
             refusal = Some (Cap_expired (cap_expiresAt r))\<rparr>
          else if remaining r < upper then
            \<lparr>can_transact = False, remainingAllowance = remaining r, requiredAmount = upper,
             refusal = Some (Cap_exceeded upper (remaining r))\<rparr>
          else
            \<lparr>can_transact = True, remainingAllowance = remaining r, requiredAmount = upper,
             refusal = None\<rparr>)"

definition consumeLocal :: "ident \<Rightarrow> amount \<Rightarrow> cap_cache \<Rightarrow> bool \<times> cap_cache" where
  "consumeLocal a amt m =
     (case js_get m a of
        None \<Rightarrow> (False, m)
      | Some r \<Rightarrow> (True, js_set a (r\<lparr>consumedLocal := consumedLocal r + amt\<rparr>) m))"

definition reconcileSettlement ::
    "ident \<Rightarrow> amount \<Rightarrow> amount \<Rightarrow> cap_cache \<Rightarrow> spend_cap option \<times> cap_cache" where
  "reconcileSettlement a newCap settled m =
     (case js_get m a of
        None \<Rightarrow> (None, m)
      | Some r \<Rightarrow>
          let r' = r\<lparr>onChainCap := newCap, lastSettledOnChainCap := newCap,
                     consumedLocal := max 0 (consumedLocal r - settled)\<rparr>
          in (Some r', js_set a r' m))"

definition clearCaps :: "cap_cache \<Rightarrow> cap_cache" where
  "clearCaps m = []"

section \<open>Admission\<close>

lemma canTransact_iff:
  "can_transact (canTransact m a upper now) \<longleftrightarrow>
     (\<exists>r. js_get m a = Some r \<and> cap_status r = Active \<and>
          \<not> (0 < cap_expiresAt r \<and> cap_expiresAt r < now) \<and> upper \<le> remaining r)"
  by (auto simp: canTransact_def split: option.splits)

lemma canTransact_refusal_iff:
  "refusal (canTransact m a upper now) = None \<longleftrightarrow> can_transact (canTransact m a upper now)"
  by (auto simp: canTransact_def split: option.splits)

lemma canTransact_remaining_nonneg: "0 \<le> remainingAllowance (canTransact m a upper now)"
  by (auto simp: canTransact_def remaining_def split: option.splits)

text \<open>Within the cap: what has been consumed locally does not exceed the on-chain cap.\<close>

definition within_cap :: "spend_cap \<Rightarrow> bool" where
  "within_cap r \<longleftrightarrow> consumedLocal r \<le> onChainCap r"

definition caps_within :: "cap_cache \<Rightarrow> bool" where
  "caps_within m \<longleftrightarrow> (\<forall>a r. js_get m a = Some r \<longrightarrow> within_cap r)"

lemma caps_within_empty [simp]: "caps_within []"
  by (simp add: caps_within_def)

lemma consumeLocal_get:
  "js_get (snd (consumeLocal a amt m)) b =
     (if b = a then map_option (\<lambda>r. r\<lparr>consumedLocal := consumedLocal r + amt\<rparr>) (js_get m a)
      else js_get m b)"
  by (auto simp: consumeLocal_def split: option.splits)

text \<open>
  An admitted call that consumes at most the amount it was admitted for, and nothing else
  in between, stays within the cap; here the positive price is what turns the clamped
  allowance \<open>max 0 _\<close> into the real one.
\<close>

lemma consume_admitted_within:
  assumes "caps_within m" "can_transact (canTransact m a upper now)" "amt \<le> upper" "0 < upper"
  shows "caps_within (snd (consumeLocal a amt m))"
proof -
  from assms(2) obtain r where r: "js_get m a = Some r" and u: "upper \<le> remaining r"
    by (auto simp: canTransact_iff)
  from u assms(4) have "upper \<le> onChainCap r - consumedLocal r"
    by (simp add: remaining_def max_def split: if_splits)
  with assms(3) have "consumedLocal r + amt \<le> onChainCap r" by linarith
  with assms(1) r show ?thesis
    by (auto simp: caps_within_def within_cap_def consumeLocal_get split: if_splits)
qed

lemma reconcile_get:
  "js_get m a = Some r \<Longrightarrow>
   fst (reconcileSettlement a newCap settled m) =
     Some (r\<lparr>onChainCap := newCap, lastSettledOnChainCap := newCap,
             consumedLocal := max 0 (consumedLocal r - settled)\<rparr>)"
  by (simp add: reconcileSettlement_def Let_def)

text \<open>
  A settlement that moves exactly the settled amount off both sides of the ledger keeps the
  allowance: the on-chain cap falls by what left the local consumption.
\<close>

lemma reconcile_keeps_allowance:
  assumes "js_get m a = Some r" "settled \<le> consumedLocal r"
    and "reconcileSettlement a (onChainCap r - settled) settled m = (Some r', m')"
  shows "remaining r' = remaining r" "js_get m' a = Some r'"
  using assms by (auto simp: reconcileSettlement_def Let_def remaining_def)

lemma reconcile_other: "b \<noteq> a \<Longrightarrow> js_get (snd (reconcileSettlement a c s m)) b = js_get m b"
  by (auto simp: reconcileSettlement_def Let_def split: option.splits)

end
