(* ===== verification/Meter.thy ===== *)
theory Meter
  imports Prelude
begin

text \<open>
  The meter reservations of the gateway (\<open>MeterReservationTracker\<close> in
  \<open>backend/src/services/v3/gateway-lifecycle.ts\<close>).  Every reservation is \<open>reserved\<close> until it is
  committed or released, once; \<open>getStrandedCount\<close> counts those still open.  The random
  reservation id and the clock are arguments of \<open>reserve\<close>.
\<close>

datatype reservation_status = Reserved | Committed | Released

record reservation =
  reservationId :: ident
  res_agentId :: ident
  res_route :: string
  res_priceUpperBound :: amount
  reservedAt :: millis
  res_status :: reservation_status

type_synonym reservations = "(ident, reservation) jsmap"

definition reservation_key :: "string \<Rightarrow> ident" where
  "reservation_key randomHex = ''res_'' @ randomHex"

definition reserve :: "ident \<Rightarrow> millis \<Rightarrow> ident \<Rightarrow> string \<Rightarrow> amount \<Rightarrow> reservations \<Rightarrow> ident \<times> reservations" where
  "reserve randomHex now agentId route upper m =
     (let i = reservation_key randomHex
      in (i, js_set i \<lparr>reservationId = i, res_agentId = agentId, res_route = route,
                       res_priceUpperBound = upper, reservedAt = now, res_status = Reserved\<rparr> m))"

definition commit :: "ident \<Rightarrow> amount \<Rightarrow> reservations \<Rightarrow> bool \<times> reservations" where
  "commit i actualUsage m =
     (case js_get m i of
        None \<Rightarrow> (False, m)
      | Some r \<Rightarrow> if res_status r \<noteq> Reserved then (False, m)
                  else (True, js_set i (r\<lparr>res_status := Committed\<rparr>) m))"

definition release :: "ident \<Rightarrow> reservations \<Rightarrow> bool \<times> reservations" where
  "release i m =
     (case js_get m i of
        None \<Rightarrow> (False, m)
      | Some r \<Rightarrow> if res_status r \<noteq> Reserved then (False, m)
                  else (True, js_set i (r\<lparr>res_status := Released\<rparr>) m))"

definition getReservation :: "ident \<Rightarrow> reservations \<Rightarrow> reservation option" where
  "getReservation i m = js_get m i"

definition getStrandedCount :: "reservations \<Rightarrow> nat" where
  "getStrandedCount m = length (filter (\<lambda>r. res_status r = Reserved) (js_values m))"

definition clearReservations :: "reservations \<Rightarrow> reservations" where
  "clearReservations m = []"

abbreviation "is_open r \<equiv> res_status r = Reserved"

lemma stranded_count: "getStrandedCount m = js_count is_open m"
  by (simp add: getStrandedCount_def js_count_def)

lemma reserve_stranded:
  "js_get m (reservation_key rnd) = None \<Longrightarrow>
     getStrandedCount (snd (reserve rnd now a rt u m)) = getStrandedCount m + 1"
  using js_count_set_fresh [of m "reservation_key rnd" is_open]
  by (simp add: stranded_count reserve_def Let_def)

lemma reserve_get: "reserve rnd now a rt u m = (i, m') \<Longrightarrow>
    \<exists>r. js_get m' i = Some r \<and> is_open r \<and> res_agentId r = a \<and> res_priceUpperBound r = u"
  by (auto simp: reserve_def Let_def)

text \<open>An open reservation is closed, exactly once, by either operation.\<close>

lemma commit_open:
  assumes "js_get m i = Some r" "is_open r"
  shows "fst (commit i u m)" "getStrandedCount (snd (commit i u m)) + 1 = getStrandedCount m"
    "js_get (snd (commit i u m)) i = Some (r\<lparr>res_status := Committed\<rparr>)"
  using assms js_count_set_present [of m i r is_open "r\<lparr>res_status := Committed\<rparr>"]
  by (simp_all add: commit_def stranded_count)

lemma release_open:
  assumes "js_get m i = Some r" "is_open r"
  shows "fst (release i m)" "getStrandedCount (snd (release i m)) + 1 = getStrandedCount m"
    "js_get (snd (release i m)) i = Some (r\<lparr>res_status := Released\<rparr>)"
  using assms js_count_set_present [of m i r is_open "r\<lparr>res_status := Released\<rparr>"]
  by (simp_all add: release_def stranded_count)

lemma closed_noop:
  assumes "\<nexists>r. js_get m i = Some r \<and> is_open r"
  shows "commit i u m = (False, m)" "release i m = (False, m)"
  using assms by (auto simp: commit_def release_def split: option.splits)

lemma release_closed: "\<nexists>r. js_get (snd (release i m)) i = Some r \<and> is_open r"
  by (auto simp: release_def split: option.splits if_splits)

lemma commit_closed: "\<nexists>r. js_get (snd (commit i u m)) i = Some r \<and> is_open r"
  by (auto simp: commit_def split: option.splits if_splits)

lemma release_other: "j \<noteq> i \<Longrightarrow> js_get (snd (release i m)) j = js_get m j"
  by (auto simp: release_def split: option.splits)

lemma commit_other: "j \<noteq> i \<Longrightarrow> js_get (snd (commit i u m)) j = js_get m j"
  by (auto simp: commit_def split: option.splits)

lemma release_twice [simp]: "release i (snd (release i m)) = (False, snd (release i m))"
  using closed_noop(2) [OF release_closed] .

lemma commit_after_release [simp]: "commit i u (snd (release i m)) = (False, snd (release i m))"
  using closed_noop(1) [OF release_closed] .

lemma release_after_commit [simp]: "release i (snd (commit i u m)) = (False, snd (commit i u m))"
  using closed_noop(2) [OF commit_closed] .

text \<open>
  The interface the gateway relies on: a ticket that is opened once and closed once.  The
  count of open tickets returns to its value when every ticket opened has been closed.
\<close>

locale ticket_tracker =
  fixes open_t :: "'s \<Rightarrow> 'k \<Rightarrow> bool"
    and count_t :: "'s \<Rightarrow> nat"
    and close_t :: "'c \<Rightarrow> 'k \<Rightarrow> 's \<Rightarrow> bool \<times> 's"
  assumes close_success: "fst (close_t c k s) \<longleftrightarrow> open_t s k"
    and close_count: "open_t s k \<Longrightarrow> count_t (snd (close_t c k s)) + 1 = count_t s"
    and close_noop: "\<not> open_t s k \<Longrightarrow> snd (close_t c k s) = s"
    and close_closes: "\<not> open_t (snd (close_t c k s)) k"
    and close_frame: "j \<noteq> k \<Longrightarrow> open_t (snd (close_t c k s)) j = open_t s j"
begin

fun close_all :: "('c \<times> 'k) list \<Rightarrow> 's \<Rightarrow> bool list \<times> 's" where
  "close_all [] s = ([], s)"
| "close_all ((c, k) # cks) s =
     (let (b, s') = close_t c k s; (bs, t) = close_all cks s' in (b # bs, t))"

lemma close_all_count:
  "count_t (snd (close_all cks s)) + length (filter (\<lambda>b. b) (fst (close_all cks s))) = count_t s"
proof (induction cks arbitrary: s)
  case (Cons ck cks)
  obtain c k where [simp]: "ck = (c, k)" by (cases ck)
  have "fst (close_t c k s) \<Longrightarrow> count_t (snd (close_t c k s)) + 1 = count_t s"
    "\<not> fst (close_t c k s) \<Longrightarrow> snd (close_t c k s) = s"
    using close_count [of s k c] close_noop [of s k c] close_success [of c k s] by simp_all
  with Cons.IH [of "snd (close_t c k s)"] show ?case
    by (auto simp: split_def Let_def)
qed simp

lemma close_all_keeps_closed: "\<not> open_t s k \<Longrightarrow> \<not> open_t (snd (close_all cks s)) k"
proof (induction cks arbitrary: s)
  case (Cons ck cks)
  obtain c j where [simp]: "ck = (c, j)" by (cases ck)
  have "\<not> open_t (snd (close_t c j s)) k"
    using Cons.prems close_closes close_frame by (cases "k = j") auto
  with Cons.IH [of "snd (close_t c j s)"] show ?case by (simp add: split_def Let_def)
qed simp

text \<open>Among any number of attempts on one ticket at most one succeeds.\<close>

lemma close_all_once:
  assumes "\<forall>(c, j) \<in> set cks. j = k"
  shows "length (filter (\<lambda>b. b) (fst (close_all cks s))) \<le> (if open_t s k then 1 else 0)"
  using assms
proof (induction cks arbitrary: s)
  case (Cons ck cks)
  obtain c where [simp]: "ck = (c, k)" using Cons.prems by (cases ck) auto
  have "length (filter (\<lambda>b. b) (fst (close_all cks (snd (close_t c k s))))) \<le> 0"
    using Cons.IH [of "snd (close_t c k s)"] Cons.prems close_closes [of c k s] by auto
  then show ?case using close_success [of c k s] by (auto simp: split_def Let_def)
qed simp

end

datatype closing = Commit amount | Release

fun close_reservation :: "closing \<Rightarrow> ident \<Rightarrow> reservations \<Rightarrow> bool \<times> reservations" where
  "close_reservation (Commit u) i m = commit i u m"
| "close_reservation Release i m = release i m"

definition reservation_open :: "reservations \<Rightarrow> ident \<Rightarrow> bool" where
  "reservation_open m i \<longleftrightarrow> (case js_get m i of None \<Rightarrow> False | Some r \<Rightarrow> is_open r)"

lemma reservation_open_iff: "reservation_open m i \<longleftrightarrow> (\<exists>r. js_get m i = Some r \<and> is_open r)"
  by (auto simp: reservation_open_def split: option.splits)

interpretation meter: ticket_tracker reservation_open getStrandedCount close_reservation
proof (unfold_locales, goal_cases)
  case (1 c k s) show ?case by (cases c) (auto simp: reservation_open_def commit_def release_def split: option.splits)
next
  case (2 s k c) then show ?case by (cases c) (auto simp: reservation_open_iff dest: commit_open release_open)
next
  case (3 s k c) then show ?case by (cases c) (auto simp: reservation_open_iff closed_noop)
next
  case (4 c k s) show ?case
    using commit_closed release_closed by (cases c) (auto simp: reservation_open_iff)
next
  case (5 j k c s) then show ?case by (cases c) (simp_all add: reservation_open_def commit_other release_other)
qed

end
