(* ===== verification/Challenge.thy ===== *)
theory Challenge
  imports Prelude
begin

text \<open>
  The 402 challenge and the verification of payment proofs
  (\<open>backend/src/services/v3/payment-challenge-service.ts\<close>): the nonce store, the channel
  state store behind its interface, \<open>generatePaymentChallenge\<close>, \<open>parsePaymentProof\<close> and
  \<open>verifyPaymentProof\<close> with its seven checks in the order of the code.

  Node's \<open>crypto\<close>, \<open>Date\<close> parsing, number formatting and the base64/JSON decoding are
  arguments.  The code casts the parsed object to \<open>PaymentProof\<close> after testing five of its
  fields, so the balances of a proof are options here: a header may leave them out, and then
  they are \<open>undefined\<close>, which compares as neither smaller nor larger than anything.
\<close>

section \<open>Data\<close>

record challenge_details =
  challengeId :: ident
  scheme :: string
  chain :: string
  contract :: string
  channelAddress :: string
  settlementAsset :: string
  ch_amount :: string
  rate :: string
  ch_nonce :: string
  ch_expiresAt :: millis

record challenge_options =
  opt_settlementAsset :: "string option"
  opt_amount :: "string option"
  opt_rate :: "string option"
  opt_channelAddress :: "string option"
  opt_contract :: "string option"
  opt_chain :: "string option"
  opt_ttlSeconds :: "int option"

record payment_proof =
  channelId :: ident
  sequenceNumber :: int
  userBalance :: "amount option"
  executorBalance :: "amount option"
  totalDeposited :: "amount option"
  nonce :: string
  signature :: string
  payerAddress :: string
  expiresAt :: "string option"
  timestamp :: "int option"
  requestHash :: "string option"

record raw_proof =
  raw_channelId :: "string option"
  raw_sequenceNumber :: "int option"
  raw_userBalance :: "amount option"
  raw_executorBalance :: "amount option"
  raw_totalDeposited :: "amount option"
  raw_nonce :: "string option"
  raw_signature :: "string option"
  raw_payerAddress :: "string option"
  raw_expiresAt :: "string option"
  raw_timestamp :: "int option"
  raw_requestHash :: "string option"

record balances =
  bal_user :: "amount option"
  bal_executor :: "amount option"
  bal_deposited :: "amount option"

record members =
  mem_payer :: string
  mem_provider :: string

section \<open>The nonce store\<close>

record nonce_record =
  nr_nonce :: string
  nr_payer :: string
  recordedAt :: millis
  nr_expiresAt :: millis

type_synonym nonce_store = "(string, nonce_record) jsmap"

definition evictExpired :: "millis \<Rightarrow> nonce_store \<Rightarrow> nonce_store" where
  "evictExpired now m = js_keep (\<lambda>r. \<not> nr_expiresAt r < now) m"

definition recordNonce :: "string \<Rightarrow> string \<Rightarrow> int \<Rightarrow> millis \<Rightarrow> nonce_store \<Rightarrow> nonce_store" where
  "recordNonce n payer ttlMs now m =
     js_set n \<lparr>nr_nonce = n, nr_payer = payer, recordedAt = now, nr_expiresAt = now + ttlMs\<rparr>
       (evictExpired now m)"

definition hasNonce :: "string \<Rightarrow> millis \<Rightarrow> nonce_store \<Rightarrow> bool \<times> nonce_store" where
  "hasNonce n now m =
     (let m' = evictExpired now m
      in case js_get m' n of
           None \<Rightarrow> (False, m')
         | Some item \<Rightarrow> if nr_expiresAt item < now then (False, js_delete n m') else (True, m'))"

definition default_nonce_ttl :: int where
  "default_nonce_ttl = 300000"

section \<open>The channel state store\<close>

text \<open>The interface \<open>ChannelStateStore\<close>: one field per method, over an abstract store.\<close>

record 's channel_store_ops =
  getLatestSequence :: "'s \<Rightarrow> ident \<Rightarrow> int"
  setLatestSequence :: "ident \<Rightarrow> int \<Rightarrow> 's \<Rightarrow> 's"
  getChannelBalance :: "'s \<Rightarrow> ident \<Rightarrow> balances option"
  setChannel :: "ident \<Rightarrow> balances \<Rightarrow> 's \<Rightarrow> 's"
  getChannelMembers :: "'s \<Rightarrow> ident \<Rightarrow> members option"
  setChannelMembers :: "ident \<Rightarrow> members \<Rightarrow> 's \<Rightarrow> 's"

text \<open>Its implementation \<open>InMemoryChannelStateStore\<close>: three maps.\<close>

record mem_store =
  sequences :: "(ident, int) jsmap"
  states :: "(ident, balances) jsmap"
  st_members :: "(ident, members) jsmap"

definition mem_getLatestSequence :: "mem_store \<Rightarrow> ident \<Rightarrow> int" where
  "mem_getLatestSequence s c = nullish (js_get (sequences s) c) 0"

definition mem_setLatestSequence :: "ident \<Rightarrow> int \<Rightarrow> mem_store \<Rightarrow> mem_store" where
  "mem_setLatestSequence c n s = s\<lparr>sequences := js_set c n (sequences s)\<rparr>"

definition mem_getChannelBalance :: "mem_store \<Rightarrow> ident \<Rightarrow> balances option" where
  "mem_getChannelBalance s c = js_get (states s) c"

definition mem_setChannel :: "ident \<Rightarrow> balances \<Rightarrow> mem_store \<Rightarrow> mem_store" where
  "mem_setChannel c b s = s\<lparr>states := js_set c b (states s)\<rparr>"

definition mem_getChannelMembers :: "mem_store \<Rightarrow> ident \<Rightarrow> members option" where
  "mem_getChannelMembers s c = js_get (st_members s) c"

definition mem_setChannelMembers :: "ident \<Rightarrow> members \<Rightarrow> mem_store \<Rightarrow> mem_store" where
  "mem_setChannelMembers c ms s = s\<lparr>st_members := js_set c ms (st_members s)\<rparr>"

definition mem_clear :: "mem_store \<Rightarrow> mem_store" where
  "mem_clear s = \<lparr>sequences = [], states = [], st_members = []\<rparr>"

definition InMemoryChannelStateStore :: "mem_store channel_store_ops" where
  "InMemoryChannelStateStore =
     \<lparr>getLatestSequence = mem_getLatestSequence, setLatestSequence = mem_setLatestSequence,
      getChannelBalance = mem_getChannelBalance, setChannel = mem_setChannel,
      getChannelMembers = mem_getChannelMembers, setChannelMembers = mem_setChannelMembers\<rparr>"

lemmas mem_store_defs =
  mem_getLatestSequence_def mem_setLatestSequence_def mem_getChannelBalance_def mem_setChannel_def
  mem_getChannelMembers_def mem_setChannelMembers_def InMemoryChannelStateStore_def

section \<open>Challenges and the parsing of proofs\<close>

definition generatePaymentChallenge :: "string \<Rightarrow> string \<Rightarrow> millis \<Rightarrow> challenge_options \<Rightarrow> challenge_details" where
  "generatePaymentChallenge nonceHex idHex now opts =
     (let ttlSeconds = nullish (opt_ttlSeconds opts) 300
      in \<lparr>challengeId = ''chal_'' @ idHex,
          scheme = ''channel-state'',
          chain = str_or (opt_chain opts) ''stellar:testnet'',
          contract = str_or (opt_contract opts) ''CA_PAYMENT_CHANNEL_V3'',
          channelAddress = str_or (opt_channelAddress opts) ''G_PROVIDER_CHANNEL_DEFAULT'',
          settlementAsset = str_or (opt_settlementAsset opts)
             ''USDC:GA5ZSEJYB37JRC5AVCIA5MOP4RHTM335X2KGX3IHOJAPP5RE34K4KZVN'',
          ch_amount = str_or (opt_amount opts) ''100'',
          rate = str_or (opt_rate opts) ''100'',
          ch_nonce = ''ch_nonce_'' @ nonceHex,
          ch_expiresAt = now + ttlSeconds * 1000\<rparr>)"

text \<open>
  \<open>decode\<close> is base64 decoding followed by \<open>JSON.parse\<close>, read at the proof's fields; \<open>None\<close> is
  an exception of either or a value that is not an object.
\<close>

definition parsePaymentProof :: "(string \<Rightarrow> raw_proof option) \<Rightarrow> string \<Rightarrow> payment_proof option" where
  "parsePaymentProof decode headerValue =
     (case decode headerValue of
        None \<Rightarrow> None
      | Some r \<Rightarrow>
          if \<not> truthy (raw_channelId r) \<or> raw_sequenceNumber r = None \<or> \<not> truthy (raw_nonce r)
             \<or> \<not> truthy (raw_signature r) \<or> \<not> truthy (raw_payerAddress r)
          then None
          else Some \<lparr>channelId = the (raw_channelId r), sequenceNumber = the (raw_sequenceNumber r),
                     userBalance = raw_userBalance r, executorBalance = raw_executorBalance r,
                     totalDeposited = raw_totalDeposited r, nonce = the (raw_nonce r),
                     signature = the (raw_signature r), payerAddress = the (raw_payerAddress r),
                     expiresAt = raw_expiresAt r, timestamp = raw_timestamp r,
                     requestHash = raw_requestHash r\<rparr>)"

section \<open>Verification\<close>

definition PROOF_FRESHNESS_WINDOW_MS :: int where
  "PROOF_FRESHNESS_WINDOW_MS = 5 * 60 * 1000"

record challenge_env =
  hmac_sha256 :: "string \<Rightarrow> string \<Rightarrow> string"
  fmt_amount :: "amount option \<Rightarrow> string"
  parse_date :: "string \<Rightarrow> millis option"

datatype proof_code =
    REPLAYED_PROOF | EXPIRED_PROOF | INVALID_SIGNATURE | NOT_A_MEMBER | NONCE_NOT_MONOTONIC
  | INSUFFICIENT_BALANCE | INVALID_PROOF_STRUCTURE

datatype verification = Valid | Invalid proof_code

definition payloadToSign :: "challenge_env \<Rightarrow> payment_proof \<Rightarrow> string" where
  "payloadToSign env p =
     (let base = channelId p @ '':'' @ show_int (sequenceNumber p) @ '':''
                 @ fmt_amount env (userBalance p) @ '':'' @ fmt_amount env (executorBalance p) @ '':''
                 @ nonce p @ '':'' @ payerAddress p
      in if truthy (requestHash p) then base @ '':'' @ the (requestHash p) else base)"

definition signatureAccepted :: "challenge_env \<Rightarrow> string \<Rightarrow> payment_proof \<Rightarrow> bool" where
  "signatureAccepted env secret p =
     (let isHmacMatch = signature p = hmac_sha256 env secret (payloadToSign env p);
          isMockSignatureValid = startsWith (signature p) ''sig_valid_'' \<or> signature p = ''mock_valid_signature''
      in isHmacMatch \<or> isMockSignatureValid)"

text \<open>\<open>a < b\<close> where \<open>a\<close> may be \<open>undefined\<close>.\<close>

definition undef_less :: "amount option \<Rightarrow> amount \<Rightarrow> bool" where
  "undef_less x b = (case x of None \<Rightarrow> False | Some a \<Rightarrow> a < b)"

definition stale :: "millis \<Rightarrow> payment_proof \<Rightarrow> bool" where
  "stale now p = (case timestamp p of None \<Rightarrow> False | Some t \<Rightarrow> PROOF_FRESHNESS_WINDOW_MS < \<bar>now - t\<bar>)"

definition past_expiry :: "challenge_env \<Rightarrow> millis \<Rightarrow> payment_proof \<Rightarrow> bool" where
  "past_expiry env now p =
     (truthy (expiresAt p) \<and>
      (case parse_date env (the (expiresAt p)) of None \<Rightarrow> False | Some t \<Rightarrow> t < now))"

definition bindingFailure :: "string option \<Rightarrow> payment_proof \<Rightarrow> proof_code option" where
  "bindingFailure expectedRequestHash p =
     (case expectedRequestHash of
        None \<Rightarrow> None
      | Some e \<Rightarrow>
          if \<not> truthy (requestHash p) then Some INVALID_PROOF_STRUCTURE
          else if \<not> timing_safe_hex_eq (toLowerCase (the (requestHash p))) (toLowerCase e)
               then Some REPLAYED_PROOF else None)"

definition verifyPaymentProof ::
    "challenge_env \<Rightarrow> 's channel_store_ops \<Rightarrow> string \<Rightarrow> millis \<Rightarrow> millis \<Rightarrow> string option \<Rightarrow>
     payment_proof \<Rightarrow> amount \<Rightarrow> nonce_store \<times> 's \<Rightarrow> verification \<times> nonce_store \<times> 's" where
  "verifyPaymentProof env ops secret nowMs clock expectedRequestHash p expectedCost st =
     (let (ns, s) = st in
      if stale nowMs p then (Invalid EXPIRED_PROOF, ns, s)
      else if past_expiry env nowMs p then (Invalid EXPIRED_PROOF, ns, s)
      else case bindingFailure expectedRequestHash p of
        Some e \<Rightarrow> (Invalid e, ns, s)
      | None \<Rightarrow>
        (let (used, ns') = hasNonce (nonce p) clock ns in
         if used then (Invalid REPLAYED_PROOF, ns', s)
         else if (case getChannelMembers ops s (channelId p) of
                    None \<Rightarrow> False | Some ms \<Rightarrow> mem_payer ms \<noteq> payerAddress p)
         then (Invalid NOT_A_MEMBER, ns', s)
         else if sequenceNumber p \<le> getLatestSequence ops s (channelId p)
         then (Invalid NONCE_NOT_MONOTONIC, ns', s)
         else if \<not> signatureAccepted env secret p then (Invalid INVALID_SIGNATURE, ns', s)
         else if undef_less (userBalance p) 0 \<or> undef_less (userBalance p) expectedCost
         then (Invalid INSUFFICIENT_BALANCE, ns', s)
         else (Valid,
               recordNonce (nonce p) (payerAddress p) default_nonce_ttl clock ns',
               setChannel ops (channelId p)
                 \<lparr>bal_user = userBalance p, bal_executor = executorBalance p,
                  bal_deposited = totalDeposited p\<rparr>
                 (setLatestSequence ops (channelId p) (sequenceNumber p) s))))"

text \<open>A sequence of verifications against one pair of stores, in the order they happen.\<close>

record verify_request =
  vr_nowMs :: millis
  vr_clock :: millis
  vr_expectedHash :: "string option"
  vr_proof :: payment_proof
  vr_cost :: amount

fun verify_run ::
    "challenge_env \<Rightarrow> 's channel_store_ops \<Rightarrow> string \<Rightarrow> verify_request list \<Rightarrow> nonce_store \<times> 's \<Rightarrow>
     verification list \<times> nonce_store \<times> 's" where
  "verify_run env ops secret [] st = ([], st)"
| "verify_run env ops secret (q # qs) st =
     (let (v, st') = verifyPaymentProof env ops secret (vr_nowMs q) (vr_clock q) (vr_expectedHash q)
                       (vr_proof q) (vr_cost q) st;
          (vs, st'') = verify_run env ops secret qs st'
      in (v # vs, st''))"

text \<open>The proofs a run accepted, in order.\<close>

definition accepted :: "verify_request list \<Rightarrow> verification list \<Rightarrow> payment_proof list" where
  "accepted qs vs = map (vr_proof \<circ> fst) (filter (\<lambda>(q, v). v = Valid) (zip qs vs))"

definition accepted_sequences :: "ident \<Rightarrow> verify_request list \<Rightarrow> verification list \<Rightarrow> int list" where
  "accepted_sequences c qs vs = map sequenceNumber (filter (\<lambda>p. channelId p = c) (accepted qs vs))"

lemma accepted_Cons [simp]:
  "accepted (q # qs) (v # vs) = (if v = Valid then vr_proof q # accepted qs vs else accepted qs vs)"
  "accepted [] vs = []"
  by (simp_all add: accepted_def)

section \<open>The nonce store: lemmas\<close>

lemma evictExpired_get:
  "js_wf m \<Longrightarrow> js_get (evictExpired now m) n =
     (case js_get m n of None \<Rightarrow> None | Some r \<Rightarrow> if nr_expiresAt r < now then None else Some r)"
  by (auto simp: evictExpired_def split: option.splits)

lemma evictExpired_wf [intro, simp]: "js_wf m \<Longrightarrow> js_wf (evictExpired now m)"
  by (simp add: evictExpired_def)

lemma recordNonce_wf [intro, simp]: "js_wf m \<Longrightarrow> js_wf (recordNonce n p t now m)"
  by (simp add: recordNonce_def)

lemma hasNonce_wf [intro, simp]: "js_wf m \<Longrightarrow> js_wf (snd (hasNonce n now m))"
  by (auto simp: hasNonce_def Let_def split: option.splits)

lemma hasNonce_iff:
  "js_wf m \<Longrightarrow> fst (hasNonce n now m) \<longleftrightarrow> (\<exists>r. js_get m n = Some r \<and> now \<le> nr_expiresAt r)"
  by (auto simp: hasNonce_def Let_def evictExpired_get split: option.splits)

text \<open>The second expiry test of \<open>has\<close> is dead: eviction has already removed such an entry.\<close>

lemma hasNonce_snd [simp]: "js_wf m \<Longrightarrow> snd (hasNonce n now m) = evictExpired now m"
  by (auto simp: hasNonce_def Let_def evictExpired_get split: option.splits)

definition nonce_live :: "string \<Rightarrow> millis \<Rightarrow> nonce_store \<Rightarrow> bool" where
  "nonce_live n t m \<longleftrightarrow> (\<exists>r. js_get m n = Some r \<and> t \<le> nr_expiresAt r)"

lemma nonce_live_evict: "js_wf m \<Longrightarrow> nonce_live n t m \<Longrightarrow> clock \<le> t \<Longrightarrow> nonce_live n t (evictExpired clock m)"
  by (auto simp: nonce_live_def evictExpired_get)

lemma nonce_live_record: "js_wf m \<Longrightarrow> nonce_live n (now + ttl) (recordNonce n p ttl now m)"
  by (simp add: nonce_live_def recordNonce_def)

lemma nonce_live_record_other:
  "js_wf m \<Longrightarrow> nonce_live n t m \<Longrightarrow> clock \<le> t \<Longrightarrow> n' \<noteq> n \<Longrightarrow> nonce_live n t (recordNonce n' p ttl clock m)"
  using nonce_live_evict [of m n t clock] by (simp add: nonce_live_def recordNonce_def)

end
