(* ===== verification/Replay.thy ===== *)
theory Replay
  imports Challenge
begin

text \<open>
  What \<open>verifyPaymentProof\<close> guarantees and what it does not.  The laws of the interface
  \<open>ChannelStateStore\<close> are a locale; the run lemmas are proved in it once and hold for the
  in-memory store of the code through the interpretation at the end.
\<close>

section \<open>One verification\<close>

lemma verify_Valid_iff:
  "verifyPaymentProof env ops sec nw ck eh p cost (ns, s) = (Valid, st') \<longleftrightarrow>
     \<not> stale nw p \<and> \<not> past_expiry env nw p \<and> bindingFailure eh p = None \<and>
     \<not> fst (hasNonce (nonce p) ck ns) \<and>
     (\<forall>ms. getChannelMembers ops s (channelId p) = Some ms \<longrightarrow> mem_payer ms = payerAddress p) \<and>
     getLatestSequence ops s (channelId p) < sequenceNumber p \<and>
     signatureAccepted env sec p \<and>
     \<not> undef_less (userBalance p) 0 \<and> \<not> undef_less (userBalance p) cost \<and>
     st' = (recordNonce (nonce p) (payerAddress p) default_nonce_ttl ck (snd (hasNonce (nonce p) ck ns)),
            setChannel ops (channelId p)
              \<lparr>bal_user = userBalance p, bal_executor = executorBalance p, bal_deposited = totalDeposited p\<rparr>
              (setLatestSequence ops (channelId p) (sequenceNumber p) s))"
  by (auto simp: verifyPaymentProof_def Let_def split_def not_le split: option.splits)

lemma verify_Invalid:
  assumes "verifyPaymentProof env ops sec nw ck eh p cost (ns, s) = (Invalid e, ns', s')"
  shows "s' = s \<and> (ns' = ns \<or> ns' = snd (hasNonce (nonce p) ck ns))"
  using assms by (auto simp: verifyPaymentProof_def Let_def split_def split: option.splits if_splits)

lemma verify_cases:
  obtains (valid) st' where "verifyPaymentProof env ops sec nw ck eh p cost st = (Valid, st')"
  | (invalid) e ns' s' where "verifyPaymentProof env ops sec nw ck eh p cost st = (Invalid e, ns', s')"
  by (metis prod_cases3 verification.exhaust)

lemma verify_wf:
  "js_wf (fst st) \<Longrightarrow> js_wf (fst (snd (verifyPaymentProof env ops sec nw ck eh p cost st)))"
  by (auto simp: verifyPaymentProof_def Let_def split_def split: option.splits)

text \<open>A nonce that is live until \<open>t\<close> stays live across a verification at a clock up to \<open>t\<close>.\<close>

lemma verify_nonce_live:
  assumes "js_wf ns" "nonce_live n t ns" "ck \<le> t"
    and v: "verifyPaymentProof env ops sec nw ck eh p cost (ns, s) = (v, ns', s')"
  shows "nonce_live n t ns' \<and> (v = Valid \<longrightarrow> nonce p \<noteq> n)"
proof (cases v)
  case Valid
  with v have used: "\<not> fst (hasNonce (nonce p) ck ns)"
    and ns': "ns' = recordNonce (nonce p) (payerAddress p) default_nonce_ttl ck (evictExpired ck ns)"
    using assms(1) by (auto simp: verify_Valid_iff)
  have "nonce p \<noteq> n"
    using used assms by (auto simp: hasNonce_iff nonce_live_def intro: order_trans)
  with ns' assms show ?thesis
    by (auto intro: nonce_live_record_other nonce_live_evict)
next
  case (Invalid e)
  with v assms show ?thesis
    using verify_Invalid [of env ops sec nw ck eh p cost ns s e ns' s'] by (auto intro: nonce_live_evict)
qed

lemma run_nonce_live:
  "js_wf ns \<Longrightarrow> nonce_live n t ns \<Longrightarrow> \<forall>q\<in>set qs. vr_clock q \<le> t \<Longrightarrow>
   verify_run env ops sec qs (ns, s) = (vs, st') \<Longrightarrow> p \<in> set (accepted qs vs) \<Longrightarrow> nonce p \<noteq> n"
proof (induction qs arbitrary: ns s vs)
  case (Cons q qs)
  obtain v ns1 s1 where v: "verifyPaymentProof env ops sec (vr_nowMs q) (vr_clock q) (vr_expectedHash q)
      (vr_proof q) (vr_cost q) (ns, s) = (v, ns1, s1)"
    by (metis prod_cases3)
  obtain vs1 where vs1: "verify_run env ops sec qs (ns1, s1) = (vs1, st')" "vs = v # vs1"
    using Cons.prems(4) v by (auto split: prod.splits)
  have l: "nonce_live n t ns1" "v = Valid \<longrightarrow> nonce (vr_proof q) \<noteq> n"
    using verify_nonce_live [OF Cons.prems(1,2) _ v] Cons.prems(3) by auto
  have "js_wf ns1" using verify_wf [of "(ns, s)"] Cons.prems(1) v by (metis fst_conv snd_conv)
  with Cons l vs1 show ?case by (auto split: if_splits)
qed (simp add: accepted_def)

section \<open>The laws of the channel state store\<close>

locale channel_state_store =
  fixes ops :: "'s channel_store_ops"
  assumes seq_setSequence: "getLatestSequence ops (setLatestSequence ops c n s) d =
            (if d = c then n else getLatestSequence ops s d)"
    and seq_setChannel: "getLatestSequence ops (setChannel ops c b s) d = getLatestSequence ops s d"
    and seq_setMembers: "getLatestSequence ops (setChannelMembers ops c ms s) d = getLatestSequence ops s d"
    and members_setMembers: "getChannelMembers ops (setChannelMembers ops c ms s) d =
            (if d = c then Some ms else getChannelMembers ops s d)"
    and members_setSequence: "getChannelMembers ops (setLatestSequence ops c n s) d = getChannelMembers ops s d"
    and members_setChannel: "getChannelMembers ops (setChannel ops c b s) d = getChannelMembers ops s d"
    and balance_setChannel: "getChannelBalance ops (setChannel ops c b s) d =
            (if d = c then Some b else getChannelBalance ops s d)"
begin

lemma valid_sequence:
  assumes "verifyPaymentProof env ops sec nw ck eh p cost (ns, s) = (Valid, ns', s')"
  shows "getLatestSequence ops s' d =
           (if d = channelId p then sequenceNumber p else getLatestSequence ops s d)"
    and "getLatestSequence ops s (channelId p) < sequenceNumber p"
  using assms by (auto simp: verify_Valid_iff seq_setSequence seq_setChannel)

text \<open>
  Over a whole run the sequence numbers accepted on a channel are strictly increasing and
  start above the stored one; the store ends at the last one.
\<close>

lemma run_sequences:
  "verify_run env ops sec qs (ns, s) = (vs, ns', s') \<Longrightarrow>
     sorted_wrt (<) (getLatestSequence ops s c # accepted_sequences c qs vs) \<and>
     getLatestSequence ops s' c = last (getLatestSequence ops s c # accepted_sequences c qs vs)"
proof (induction qs arbitrary: ns s vs)
  case Nil
  then show ?case by (auto simp: accepted_sequences_def accepted_def)
next
  case (Cons q qs)
  obtain v ns1 s1 where v: "verifyPaymentProof env ops sec (vr_nowMs q) (vr_clock q) (vr_expectedHash q)
      (vr_proof q) (vr_cost q) (ns, s) = (v, ns1, s1)"
    by (metis prod_cases3)
  obtain vs1 where vs1: "verify_run env ops sec qs (ns1, s1) = (vs1, ns', s')" "vs = v # vs1"
    using Cons.prems v by (auto split: prod.splits)
  note IH = Cons.IH [OF vs1(1)]
  show ?case
  proof (cases v)
    case Valid
    note s1 = valid_sequence [OF v [unfolded Valid]]
    with IH Valid show ?thesis
      by (cases "channelId (vr_proof q) = c") (auto simp: vs1(2) accepted_sequences_def)
  next
    case (Invalid e)
    then have "s1 = s" using v verify_Invalid by metis
    with IH Invalid show ?thesis by (simp add: vs1(2) accepted_sequences_def)
  qed
qed

lemma run_members:
  "verify_run env ops sec qs (ns, s) = (vs, ns', s') \<Longrightarrow> getChannelMembers ops s' c = getChannelMembers ops s c"
proof (induction qs arbitrary: ns s vs)
  case (Cons q qs)
  obtain v ns1 s1 where v: "verifyPaymentProof env ops sec (vr_nowMs q) (vr_clock q) (vr_expectedHash q)
      (vr_proof q) (vr_cost q) (ns, s) = (v, ns1, s1)"
    by (metis prod_cases3)
  obtain vs1 where vs1: "verify_run env ops sec qs (ns1, s1) = (vs1, ns', s')"
    using Cons.prems v by (auto split: prod.splits)
  have "getChannelMembers ops s1 c = getChannelMembers ops s c"
    using v by (cases v) (auto simp: verify_Valid_iff members_setSequence members_setChannel dest: verify_Invalid)
  with Cons.IH [OF vs1] show ?case by simp
qed simp

text \<open>Only the registered payer of a channel gets a proof accepted on it.\<close>

lemma run_payer:
  assumes "verify_run env ops sec qs (ns, s) = (vs, ns', s')"
    and "getChannelMembers ops s c = Some ms" "p \<in> set (accepted qs vs)" "channelId p = c"
  shows "payerAddress p = mem_payer ms"
  using assms
proof (induction qs arbitrary: ns s vs)
  case (Cons q qs)
  obtain v ns1 s1 where v: "verifyPaymentProof env ops sec (vr_nowMs q) (vr_clock q) (vr_expectedHash q)
      (vr_proof q) (vr_cost q) (ns, s) = (v, ns1, s1)"
    by (metis prod_cases3)
  obtain vs1 where vs1: "verify_run env ops sec qs (ns1, s1) = (vs1, ns', s')" "vs = v # vs1"
    using Cons.prems(1) v by (auto split: prod.splits)
  have m: "getChannelMembers ops s1 c = Some ms"
    using run_members [of env sec "[q]" ns s] v Cons.prems(2) by simp
  show ?case
  proof (cases "p \<in> set (accepted qs vs1)")
    case True
    then show ?thesis using Cons.IH [OF vs1(1) m] Cons.prems(4) by blast
  next
    case False
    then have "v = Valid" "p = vr_proof q" using Cons.prems(3) vs1(2) by (auto split: if_splits)
    then show ?thesis using v Cons.prems(2,4) by (simp add: verify_Valid_iff)
  qed
qed (simp add: accepted_def)

end

interpretation mem: channel_state_store InMemoryChannelStateStore
  by unfold_locales (simp_all add: mem_store_defs)

section \<open>Concrete values for the examples\<close>

definition demo_env :: challenge_env where
  "demo_env = \<lparr>hmac_sha256 = (\<lambda>k m. ''mac:'' @ m), fmt_amount = (\<lambda>_. ''0''), parse_date = (\<lambda>_. None)\<rparr>"

definition sign_proof :: "challenge_env \<Rightarrow> string \<Rightarrow> payment_proof \<Rightarrow> payment_proof" where
  "sign_proof env secret p = p\<lparr>signature := hmac_sha256 env secret (payloadToSign env p)\<rparr>"

definition demo_proof :: "int \<Rightarrow> string \<Rightarrow> string option \<Rightarrow> payment_proof" where
  "demo_proof n nn rh = sign_proof demo_env ''k''
     \<lparr>channelId = ''c'', sequenceNumber = n, userBalance = Some 10, executorBalance = Some 0,
      totalDeposited = Some 10, nonce = nn, signature = [], payerAddress = ''P'',
      expiresAt = None, timestamp = None, requestHash = rh\<rparr>"

definition demo_request :: "millis \<Rightarrow> int \<Rightarrow> string \<Rightarrow> verify_request" where
  "demo_request t n nn = \<lparr>vr_nowMs = t, vr_clock = t, vr_expectedHash = None, vr_proof = demo_proof n nn None, vr_cost = 5\<rparr>"

definition empty_store :: mem_store where
  "empty_store = \<lparr>sequences = [], states = [], st_members = []\<rparr>"

definition demo_store :: mem_store where
  "demo_store = mem_setChannelMembers ''c'' \<lparr>mem_payer = ''P'', mem_provider = ''Q''\<rparr> empty_store"

definition demo_verify :: "millis \<Rightarrow> payment_proof \<Rightarrow> nonce_store \<times> mem_store \<Rightarrow> verification \<times> nonce_store \<times> mem_store" where
  "demo_verify t p st = verifyPaymentProof demo_env InMemoryChannelStateStore ''k'' t t None p 5 st"

section \<open>Properties\<close>

text \<open>
  C1: over any sequence of verifications against the in-memory store, in any order of clocks
  and whatever else the requests hold, the sequence numbers of the proofs accepted on a channel
  are strictly increasing, all above the number the store had at the start, and the store ends
  at the last one: no signed channel state is accepted twice, nor an older one after a newer.
\<close>

theorem accepted_sequences_increase:
  assumes "verify_run env InMemoryChannelStateStore sec qs (ns, s) = (vs, ns', s')"
  shows "sorted_wrt (<) (mem_getLatestSequence s c # accepted_sequences c qs vs) \<and>
         mem_getLatestSequence s' c = last (mem_getLatestSequence s c # accepted_sequences c qs vs)"
  using mem.run_sequences [OF assms, of c] by (simp add: InMemoryChannelStateStore_def)

theorem accepted_sequences_increase_witness:
  "accepted_sequences ''c'' [demo_request 0 1 ''a'', demo_request 1 1 ''b'', demo_request 2 3 ''d'']
     [Valid, Invalid NONCE_NOT_MONOTONIC, Valid] = [1, 3] \<and> sorted_wrt (<) [0, 1, 3 :: int]"
proof -
  let ?qs = "[demo_request 0 1 ''a'', demo_request 1 1 ''b'', demo_request 2 3 ''d'']"
  let ?r = "verify_run demo_env InMemoryChannelStateStore ''k'' ?qs ([], demo_store)"
  have v: "fst ?r = [Valid, Invalid NONCE_NOT_MONOTONIC, Valid]" by code_simp
  have z: "mem_getLatestSequence demo_store ''c'' = 0" by code_simp
  have a: "accepted_sequences ''c'' ?qs [Valid, Invalid NONCE_NOT_MONOTONIC, Valid] = [1, 3]" by code_simp
  obtain ns' s' where "?r = (fst ?r, ns', s')" by (metis prod.collapse)
  then have r: "?r = ([Valid, Invalid NONCE_NOT_MONOTONIC, Valid], ns', s')" by (simp only: v)
  show ?thesis using accepted_sequences_increase [OF r, of "''c''"] by (simp add: a z)
qed

text \<open>
  C2: a nonce accepted at clock \<open>t\<close> is rejected, for every channel and payer, by every later
  verification whose clock is at most \<open>t\<close> + 300000 ms, whatever happens in between.
\<close>

theorem nonce_single_use_within_ttl:
  assumes "js_wf ns"
    and "verifyPaymentProof env InMemoryChannelStateStore sec nw t eh p cost (ns, s) = (Valid, ns1, s1)"
    and "verify_run env InMemoryChannelStateStore sec qs (ns1, s1) = (vs, st')"
    and "\<forall>q\<in>set qs. vr_clock q \<le> t + 300000"
    and "p' \<in> set (accepted qs vs)"
  shows "nonce p' \<noteq> nonce p"
proof -
  have l: "nonce_live (nonce p) (t + 300000) ns1"
    using assms(1,2) nonce_live_record [of "evictExpired t ns" "nonce p" t 300000 "payerAddress p"]
    by (simp add: verify_Valid_iff default_nonce_ttl_def)
  have w: "js_wf ns1"
    using verify_wf [of "(ns, s)" env InMemoryChannelStateStore sec nw t eh p cost] assms(1,2) by simp
  show ?thesis by (rule run_nonce_live [OF w l assms(4,3,5)])
qed

theorem nonce_single_use_within_ttl_witness:
  "accepted [demo_request 300000 2 ''a'', demo_request 300000 3 ''b''] [Invalid REPLAYED_PROOF, Valid]
     = [demo_proof 3 ''b'' None] \<and> nonce (demo_proof 3 ''b'' None) \<noteq> nonce (demo_proof 1 ''a'' None)"
proof -
  let ?q = "[demo_request 300000 2 ''a'', demo_request 300000 3 ''b'']"
  let ?v = "verifyPaymentProof demo_env InMemoryChannelStateStore ''k'' 0 0 None (demo_proof 1 ''a'' None) 5 ([], demo_store)"
  let ?r = "verify_run demo_env InMemoryChannelStateStore ''k'' ?q (snd ?v)"
  have v: "fst ?v = Valid" by code_simp
  have r: "fst ?r = [Invalid REPLAYED_PROOF, Valid]" by code_simp
  have a: "accepted ?q [Invalid REPLAYED_PROOF, Valid] = [demo_proof 3 ''b'' None]"
    by (simp add: demo_request_def)
  have v': "?v = (Valid, fst (snd ?v), snd (snd ?v))" by (metis v prod.collapse)
  have r': "verify_run demo_env InMemoryChannelStateStore ''k'' ?q (fst (snd ?v), snd (snd ?v))
      = ([Invalid REPLAYED_PROOF, Valid], snd ?r)" by (metis r prod.collapse)
  have "nonce (demo_proof 3 ''b'' None) \<noteq> nonce (demo_proof 1 ''a'' None)"
    by (rule nonce_single_use_within_ttl [OF js_wf_empty v' r']) (unfold a, simp_all add: demo_request_def)
  with a show ?thesis by simp
qed

text \<open>
  on a channel whose members are registered, every proof a run accepts names the
  registered payer, and verification never changes the membership.
\<close>

theorem accepted_only_from_registered_payer:
  assumes "verify_run env InMemoryChannelStateStore sec qs (ns, s) = (vs, ns', s')"
    and "mem_getChannelMembers s c = Some ms"
  shows "(\<forall>p\<in>set (accepted qs vs). channelId p = c \<longrightarrow> payerAddress p = mem_payer ms) \<and>
         mem_getChannelMembers s' c = Some ms"
  using mem.run_payer [OF assms(1)] mem.run_members [OF assms(1), of c] assms(2)
  by (auto simp: InMemoryChannelStateStore_def)

theorem accepted_only_from_registered_payer_witness:
  "payerAddress (demo_proof 1 ''a'' None) = ''P''"
proof -
  let ?q = "[demo_request 0 1 ''a'']"
  let ?r = "verify_run demo_env InMemoryChannelStateStore ''k'' ?q ([], demo_store)"
  have v: "fst ?r = [Valid]" by code_simp
  have m: "mem_getChannelMembers demo_store ''c'' = Some \<lparr>mem_payer = ''P'', mem_provider = ''Q''\<rparr>" by code_simp
  have c: "channelId (demo_proof 1 ''a'' None) = ''c''" by (simp add: demo_proof_def sign_proof_def)
  have a: "accepted ?q [Valid] = [demo_proof 1 ''a'' None]" by (simp add: demo_request_def)
  have r: "?r = ([Valid], fst (snd ?r), snd (snd ?r))" by (metis v prod.collapse)
  show ?thesis using accepted_only_from_registered_payer [OF r m, unfolded a] c by simp
qed

definition strip_binding :: "payment_proof \<Rightarrow> payment_proof" where
  "strip_binding p = p\<lparr>payerAddress := payerAddress p @ '':'' @ the (requestHash p), requestHash := None\<rparr>"

lemma strip_binding_payload:
  "truthy (requestHash p) \<Longrightarrow> payloadToSign env (strip_binding p) = payloadToSign env p"
  by (simp add: payloadToSign_def strip_binding_def Let_def)

text \<open>
  the request binding can be removed from a signed proof.  The signed text joins its fields
  with colons and appends the request hash last, so the proof that carries
  \<open>payer:hash\<close> as its payer and no hash has the same signature; on a channel without
  registered members it is accepted for any request, since the gateway passes an expected
  hash only when the proof carries one.
\<close>

theorem stripped_binding_is_accepted:
  assumes "truthy (requestHash p)"
    and "verifyPaymentProof env ops sec nw ck (Some h) p cost (ns, s) = (Valid, st')"
    and "getChannelMembers ops s (channelId p) = None"
    and "\<not> startsWith (signature p) ''sig_valid_''" and "signature p \<noteq> ''mock_valid_signature''"
  shows "fst (verifyPaymentProof env ops sec nw ck None (strip_binding p) cost (ns, s)) = Valid"
proof -
  have same: "stale nw (strip_binding p) = stale nw p" "past_expiry env nw (strip_binding p) = past_expiry env nw p"
    by (simp_all add: stale_def past_expiry_def strip_binding_def)
  have "signatureAccepted env sec (strip_binding p)"
    using assms strip_binding_payload [OF assms(1), of env]
    by (simp add: verify_Valid_iff signatureAccepted_def Let_def) (simp add: strip_binding_def)
  with assms same have "\<exists>st''. verifyPaymentProof env ops sec nw ck None (strip_binding p) cost (ns, s) = (Valid, st'')"
    by (simp add: verify_Valid_iff bindingFailure_def) (simp add: strip_binding_def)
  then show ?thesis by auto
qed

theorem stripped_binding_is_accepted_witness:
  "payerAddress (strip_binding (demo_proof 1 ''a'' (Some ''ab''))) = ''P:ab'' \<and>
   fst (verifyPaymentProof demo_env InMemoryChannelStateStore ''k'' 0 0 None
     (strip_binding (demo_proof 1 ''a'' (Some ''ab''))) 5 ([], empty_store)) = Valid"
proof -
  let ?p = "demo_proof 1 ''a'' (Some ''ab'')"
  let ?v = "verifyPaymentProof demo_env InMemoryChannelStateStore ''k'' 0 0 (Some ''AB'') ?p 5 ([], empty_store)"
  have v: "fst ?v = Valid" by code_simp
  have v': "?v = (Valid, snd ?v)" by (metis v prod.collapse)
  have "truthy (requestHash ?p)" "\<not> startsWith (signature ?p) ''sig_valid_''" "signature ?p \<noteq> ''mock_valid_signature''"
    "getChannelMembers InMemoryChannelStateStore empty_store (channelId ?p) = None"
    "payerAddress (strip_binding ?p) = ''P:ab''"
    by code_simp+
  with stripped_binding_is_accepted [OF _ v'] show ?thesis by simp
qed

text \<open>
  a proof whose header omits the user balance passes the balance check for every price:
  \<open>undefined\<close> is not smaller than the cost, and \<open>parsePaymentProof\<close> does not ask for the field.
\<close>

theorem missing_balance_is_sufficient:
  assumes "userBalance p = None"
  shows "fst (verifyPaymentProof env ops sec nw ck eh p cost (ns, s)) \<noteq> Invalid INSUFFICIENT_BALANCE \<and>
         (fst (verifyPaymentProof env ops sec nw ck eh p cost (ns, s)) = Valid \<longleftrightarrow>
          fst (verifyPaymentProof env ops sec nw ck eh p 0 (ns, s)) = Valid)"
  using assms by (auto simp: verifyPaymentProof_def Let_def split_def undef_less_def bindingFailure_def split: option.splits)

theorem missing_balance_is_sufficient_witness:
  "fst (demo_verify 0 (sign_proof demo_env ''k'' (demo_proof 1 ''a'' None\<lparr>userBalance := None\<rparr>)) ([], demo_store)) = Valid"
proof -
  let ?p = "sign_proof demo_env ''k'' (demo_proof 1 ''a'' None\<lparr>userBalance := None\<rparr>)"
  have n: "userBalance ?p = None" by (simp add: sign_proof_def)
  have z: "fst (verifyPaymentProof demo_env InMemoryChannelStateStore ''k'' 0 0 None ?p 0 ([], demo_store)) = Valid"
    by code_simp
  show ?thesis
    using missing_balance_is_sufficient [OF n, of demo_env InMemoryChannelStateStore "''k''" 0 0 None 5 "[]" demo_store] z
    by (simp add: demo_verify_def)
qed

end
