(* ===== verification/Gateway.thy ===== *)
theory Gateway
  imports SpendCap Meter Replay
begin

text \<open>
  The paid-request lifecycle (\<open>backend/src/services/v3/gateway-lifecycle.ts\<close>, mounted in the
  order of \<open>backend/src/routes/v3/gateway.ts\<close>): seven middlewares, each of which answers the
  request or hands the context on.  The world is the four singletons the middlewares share:
  the cap cache, the reservations, the nonce store and the channel state store.

  A middleware is a function from context and world to either a response (\<open>Inl\<close>) or the next
  context (\<open>Inr\<close>), with the new world.  Clocks, random bytes, SHA-256 and the decoding of
  the proof header are the fields of \<open>gw_env\<close>; the upstream provider is a \<open>upstream_call\<close>,
  which also says whether the client disconnects while the provider is awaited.
\<close>

section \<open>Data\<close>

record identity =
  id_agentId :: ident
  id_apiKey :: string
  id_scopes :: "string list"

record route_plan =
  rp_path :: string
  priceUpperBound :: amount
  actualPrice :: amount
  requiredScope :: string
  rp_providerId :: string

record receipt =
  rc_receiptId :: string
  rc_requestHash :: string
  rc_cost :: amount
  rc_issuedAt :: millis
  rc_providerSignature :: string

record gateway_ctx =
  cx_identity :: "identity option"
  cx_routePlan :: "route_plan option"
  cx_paymentProof :: "payment_proof option"
  cx_reservationId :: "ident option"
  cx_verifiedHash :: "string option"
  cx_receipt :: "receipt option"

record request =
  rq_method :: string
  rq_path :: string
  rq_body :: string
  rq_authorization :: "string option"
  rq_apiKeyHeader :: "string option"
  rq_paymentSignature :: "string option"
  rq_simulateError :: bool

record world =
  w_caps :: cap_cache
  w_reservations :: reservations
  w_nonces :: nonce_store
  w_channels :: mem_store

record gw_env =
  ge_challenge :: challenge_env
  sha256 :: "string \<Rightarrow> string"
  decode_header :: "string \<Rightarrow> raw_proof option"
  rnd_challenge_nonce :: string
  rnd_challenge_id :: string
  rnd_reservation :: string
  rnd_receipt :: string
  rnd_signature :: string
  now_admission :: millis
  now_reserve :: millis
  now_receipt :: millis

text \<open>
  The upstream: the simulated default, which is not awaited, or a provider whose \<open>forward\<close>
  is awaited and rejects with a message or resolves with a body.
\<close>

datatype upstream_call = Default_upstream | Provider (client_closes: bool) (outcome: "string + string")

datatype response =
    Unauthenticated challenge_details
  | Missing_scope string
  | Cap_refused cap_check
  | Payment_required challenge_details
  | Malformed_proof
  | Proof_refused proof_code
  | Integrity_violation
  | Bad_gateway string
  | Served string receipt

fun status :: "response \<Rightarrow> nat" where
  "status (Unauthenticated c) = 402"
| "status (Missing_scope s) = 403"
| "status (Cap_refused c) = 402"
| "status (Payment_required c) = 402"
| "status Malformed_proof = 402"
| "status (Proof_refused c) = 402"
| "status Integrity_violation = 400"
| "status (Bad_gateway m) = 502"
| "status (Served b r) = 200"

type_synonym step_result = "(response + gateway_ctx) \<times> world"

definition empty_ctx :: gateway_ctx where
  "empty_ctx = \<lparr>cx_identity = None, cx_routePlan = None, cx_paymentProof = None, cx_reservationId = None,
                cx_verifiedHash = None, cx_receipt = None\<rparr>"

definition no_options :: challenge_options where
  "no_options = \<lparr>opt_settlementAsset = None, opt_amount = None, opt_rate = None, opt_channelAddress = None,
                 opt_contract = None, opt_chain = None, opt_ttlSeconds = None\<rparr>"

section \<open>The middlewares\<close>

text \<open>\<open>replace(/^Bearer\s+/i, '')\<close>.\<close>

definition strip_bearer :: "string \<Rightarrow> string" where
  "strip_bearer s =
     (if toLowerCase (take 6 s) = ''bearer'' \<and> (case drop 6 s of [] \<Rightarrow> False | c # _ \<Rightarrow> is_space c)
      then dropWhile is_space (drop 6 s) else s)"

definition resolveAgentId :: "string \<Rightarrow> ident" where
  "resolveAgentId apiKey = (if startsWith apiKey ''agent_'' then apiKey else ''agent_'' @ slice 0 10 apiKey)"

definition resolveIdentity :: "gw_env \<Rightarrow> request \<Rightarrow> gateway_ctx \<Rightarrow> world \<Rightarrow> step_result" where
  "resolveIdentity env req ctx w =
     (let authHeader = (if truthy (rq_authorization req) then rq_authorization req else rq_apiKeyHeader req);
          apiKey = map_option strip_bearer authHeader
      in if \<not> truthy apiKey then
           (Inl (Unauthenticated (generatePaymentChallenge (rnd_challenge_nonce env) (rnd_challenge_id env)
              (now_admission env) (no_options\<lparr>opt_amount := Some ''100'', opt_rate := Some ''100''\<rparr>))), w)
         else
           (Inr (ctx\<lparr>cx_identity := Some \<lparr>id_agentId = resolveAgentId (the apiKey), id_apiKey = the apiKey,
                                          id_scopes = [''llm:call'', ''compute:run'']\<rparr>\<rparr>), w))"

definition resolveRouteAndPrice :: "request \<Rightarrow> gateway_ctx \<Rightarrow> world \<Rightarrow> step_result" where
  "resolveRouteAndPrice req ctx w =
     (Inr (ctx\<lparr>cx_routePlan := Some \<lparr>rp_path = rq_path req, priceUpperBound = 10, actualPrice = 8,
               requiredScope = ''llm:call'', rp_providerId = ''provider_testnet_1''\<rparr>\<rparr>), w)"

definition checkScope :: "gateway_ctx \<Rightarrow> world \<Rightarrow> step_result" where
  "checkScope ctx w =
     (let scope = requiredScope (the (cx_routePlan ctx));
          hasScope = (case cx_identity ctx of None \<Rightarrow> False | Some i \<Rightarrow> List.member (id_scopes i) scope)
      in if \<not> hasScope then (Inl (Missing_scope scope), w) else (Inr ctx, w))"

definition checkCap :: "gw_env \<Rightarrow> gateway_ctx \<Rightarrow> world \<Rightarrow> step_result" where
  "checkCap env ctx w =
     (let capCheck = canTransact (w_caps w) (id_agentId (the (cx_identity ctx)))
                       (priceUpperBound (the (cx_routePlan ctx))) (now_admission env div 1000)
      in if \<not> can_transact capCheck then (Inl (Cap_refused capCheck), w) else (Inr ctx, w))"

definition requestMaterial :: "request \<Rightarrow> string" where
  "requestMaterial req = toUpperCase (rq_method req) @ [CHR 0x00] @ rq_path req @ [CHR 0x00] @ rq_body req"

text \<open>
  The number of the price bound, as \<open>String(10)\<close>, is written out; the secret is the default
  \<open>dev-channel-secret\<close>, since the call passes none.
\<close>

definition expectedBinding :: "gw_env \<Rightarrow> request \<Rightarrow> payment_proof \<Rightarrow> string option" where
  "expectedBinding env req proof =
     (if truthy (requestHash proof) then Some (sha256 env (requestMaterial req)) else None)"

definition verifyPayment :: "gw_env \<Rightarrow> request \<Rightarrow> gateway_ctx \<Rightarrow> world \<Rightarrow> step_result" where
  "verifyPayment env req ctx w =
     (if \<not> truthy (rq_paymentSignature req) then
        (Inl (Payment_required (generatePaymentChallenge (rnd_challenge_nonce env) (rnd_challenge_id env)
           (now_admission env) (no_options\<lparr>opt_amount := Some (show_int \<lfloor>priceUpperBound (the (cx_routePlan ctx))\<rfloor>)\<rparr>))), w)
      else case parsePaymentProof (decode_header env) (the (rq_paymentSignature req)) of
        None \<Rightarrow> (Inl Malformed_proof, w)
      | Some proof \<Rightarrow>
          (let expectedRequestHash = sha256 env (requestMaterial req);
               (v, ns, cs) = verifyPaymentProof (ge_challenge env) InMemoryChannelStateStore ''dev-channel-secret''
                  (now_admission env) (now_admission env) (expectedBinding env req proof) proof
                  (priceUpperBound (the (cx_routePlan ctx))) (w_nonces w, w_channels w);
               w' = w\<lparr>w_nonces := ns, w_channels := cs\<rparr>
           in case v of
                Invalid c \<Rightarrow> (Inl (Proof_refused c), w')
              | Valid \<Rightarrow> (Inr (ctx\<lparr>cx_paymentProof := Some proof, cx_verifiedHash := Some expectedRequestHash\<rparr>), w')))"

definition reserveMeter :: "gw_env \<Rightarrow> gateway_ctx \<Rightarrow> world \<Rightarrow> step_result" where
  "reserveMeter env ctx w =
     (let plan = the (cx_routePlan ctx);
          (i, rs) = reserve (rnd_reservation env) (now_reserve env) (id_agentId (the (cx_identity ctx)))
                      (rp_path plan) (priceUpperBound plan) (w_reservations w)
      in (Inr (ctx\<lparr>cx_reservationId := Some i\<rparr>), w\<lparr>w_reservations := rs\<rparr>))"

text \<open>The \<open>close\<close> listener that \<open>reserveMeter\<close> registers, fired before the response has ended.\<close>

definition onClientClose :: "gateway_ctx \<Rightarrow> world \<Rightarrow> world" where
  "onClientClose ctx w =
     (case cx_reservationId ctx of
        None \<Rightarrow> w
      | Some i \<Rightarrow> w\<lparr>w_reservations := snd (release i (w_reservations w))\<rparr>)"

definition releaseReservation :: "gateway_ctx \<Rightarrow> world \<Rightarrow> world" where
  "releaseReservation ctx w =
     w\<lparr>w_reservations := snd (release (the (cx_reservationId ctx)) (w_reservations w))\<rparr>"

definition commitAndReceipt :: "gw_env \<Rightarrow> string \<Rightarrow> string \<Rightarrow> gateway_ctx \<Rightarrow> world \<Rightarrow> response \<times> world" where
  "commitAndReceipt env postHash upstreamResult ctx w =
     (let usage = actualPrice (the (cx_routePlan ctx));
          rs = snd (commit (the (cx_reservationId ctx)) usage (w_reservations w));
          caps = snd (consumeLocal (id_agentId (the (cx_identity ctx))) usage (w_caps w));
          rc = \<lparr>rc_receiptId = ''rcpt_'' @ rnd_receipt env, rc_requestHash = postHash, rc_cost = usage,
                rc_issuedAt = now_receipt env, rc_providerSignature = ''sig_prov_'' @ rnd_signature env\<rparr>
      in (Served upstreamResult rc, w\<lparr>w_reservations := rs, w_caps := caps\<rparr>))"

definition proxyAndCommit :: "gw_env \<Rightarrow> upstream_call \<Rightarrow> request \<Rightarrow> gateway_ctx \<Rightarrow> world \<Rightarrow> response \<times> world" where
  "proxyAndCommit env up req ctx w =
     (let postVerificationHash = sha256 env (requestMaterial req)
      in if truthy (cx_verifiedHash ctx) \<and> postVerificationHash \<noteq> the (cx_verifiedHash ctx) then
           (Integrity_violation, releaseReservation ctx w)
         else case up of
           Default_upstream \<Rightarrow>
             if rq_simulateError req then
               (Bad_gateway ''Upstream provider error simulated'', releaseReservation ctx w)
             else commitAndReceipt env postVerificationHash ''Hello from Upstream Agent API'' ctx w
         | Provider closes res \<Rightarrow>
             (let w1 = (if closes then onClientClose ctx w else w)
              in case res of
                   Inl e \<Rightarrow> (Bad_gateway e, releaseReservation ctx w1)
                 | Inr body \<Rightarrow> commitAndReceipt env postVerificationHash body ctx w1))"

section \<open>The route\<close>

definition and_then :: "step_result \<Rightarrow> (gateway_ctx \<Rightarrow> world \<Rightarrow> step_result) \<Rightarrow> step_result" where
  "and_then r f = (case r of (Inl resp, w) \<Rightarrow> (Inl resp, w) | (Inr ctx, w) \<Rightarrow> f ctx w)"

text \<open>The six middlewares before the proxy, and the whole \<open>POST /proxy\<close>.\<close>

definition admission :: "gw_env \<Rightarrow> request \<Rightarrow> world \<Rightarrow> step_result" where
  "admission env req w =
     and_then (and_then (and_then (and_then
       (resolveIdentity env req empty_ctx w)
       (resolveRouteAndPrice req))
       checkScope)
       (checkCap env))
       (verifyPayment env req)"

text \<open>
  \<open>req'\<close> is the request as the last middleware reads it: the code re-hashes it to detect a
  change after verification.
\<close>

definition postProxy :: "gw_env \<Rightarrow> upstream_call \<Rightarrow> request \<Rightarrow> request \<Rightarrow> world \<Rightarrow> response \<times> world" where
  "postProxy env up req req' w =
     (case and_then (admission env req w) (reserveMeter env) of
        (Inl resp, w') \<Rightarrow> (resp, w')
      | (Inr ctx, w') \<Rightarrow> proxyAndCommit env up req' ctx w')"

definition getChallenge :: "gw_env \<Rightarrow> challenge_options \<Rightarrow> challenge_details" where
  "getChallenge env opts =
     generatePaymentChallenge (rnd_challenge_nonce env) (rnd_challenge_id env) (now_admission env) opts"

record call =
  ca_env :: gw_env
  ca_upstream :: upstream_call
  ca_request :: request
  ca_seen :: request

fun serve_all :: "call list \<Rightarrow> world \<Rightarrow> response list \<times> world" where
  "serve_all [] w = ([], w)"
| "serve_all (c # cs) w =
     (let (r, w') = postProxy (ca_env c) (ca_upstream c) (ca_request c) (ca_seen c) w;
          (rs, w'') = serve_all cs w'
      in (r # rs, w''))"

section \<open>What admission establishes\<close>

text \<open>The agent the request resolves to, when it carries a key.\<close>

definition request_agent :: "request \<Rightarrow> ident option" where
  "request_agent req =
     (let h = (if truthy (rq_authorization req) then rq_authorization req else rq_apiKeyHeader req);
          k = map_option strip_bearer h
      in if truthy k then Some (resolveAgentId (the k)) else None)"

lemma and_then_Inr:
  "and_then r f = (Inr c, w) \<longleftrightarrow> (\<exists>c1 w1. r = (Inr c1, w1) \<and> f c1 w1 = (Inr c, w))"
  by (auto simp: and_then_def split: prod.splits sum.splits)

lemma and_then_Inl:
  "and_then r f = (Inl x, w) \<longleftrightarrow> r = (Inl x, w) \<or> (\<exists>c1 w1. r = (Inr c1, w1) \<and> f c1 w1 = (Inl x, w))"
  by (auto simp: and_then_def split: prod.splits sum.splits)

lemma resolveIdentity_Inr:
  "resolveIdentity env req c w = (Inr ctx, w') \<Longrightarrow> w' = w \<and>
     (\<exists>a k. request_agent req = Some a \<and>
       ctx = c\<lparr>cx_identity := Some \<lparr>id_agentId = a, id_apiKey = k, id_scopes = [''llm:call'', ''compute:run'']\<rparr>\<rparr>)"
  by (auto simp: resolveIdentity_def request_agent_def Let_def simp del: append.simps split: if_splits)

lemma checkCap_Inr:
  "checkCap env c w = (Inr ctx, w') \<longleftrightarrow> ctx = c \<and> w' = w \<and>
     can_transact (canTransact (w_caps w) (id_agentId (the (cx_identity c)))
       (priceUpperBound (the (cx_routePlan c))) (now_admission env div 1000))"
  by (auto simp: checkCap_def Let_def)

lemma checkScope_Inr: "checkScope c w = (Inr ctx, w') \<Longrightarrow> ctx = c \<and> w' = w"
  by (auto simp: checkScope_def Let_def split: if_splits)

lemma verifyPayment_Inr:
  assumes "verifyPayment env req c w = (Inr ctx, w')"
  shows "\<exists>pf. parsePaymentProof (decode_header env) (the (rq_paymentSignature req)) = Some pf \<and>
     ctx = c\<lparr>cx_paymentProof := Some pf, cx_verifiedHash := Some (sha256 env (requestMaterial req))\<rparr> \<and>
     verifyPaymentProof (ge_challenge env) InMemoryChannelStateStore ''dev-channel-secret'' (now_admission env)
       (now_admission env) (expectedBinding env req pf)
       pf (priceUpperBound (the (cx_routePlan c))) (w_nonces w, w_channels w) = (Valid, w_nonces w', w_channels w') \<and>
     w_caps w' = w_caps w \<and> w_reservations w' = w_reservations w"
proof -
  from assms have t: "truthy (rq_paymentSignature req)"
    by (simp add: verifyPayment_def split: if_splits)
  from assms t obtain pf where p: "parsePaymentProof (decode_header env) (the (rq_paymentSignature req)) = Some pf"
    by (cases "parsePaymentProof (decode_header env) (the (rq_paymentSignature req))") (simp_all add: verifyPayment_def)
  obtain v ns cs where v: "verifyPaymentProof (ge_challenge env) InMemoryChannelStateStore ''dev-channel-secret'' (now_admission env)
       (now_admission env) (expectedBinding env req pf) pf
       (priceUpperBound (the (cx_routePlan c))) (w_nonces w, w_channels w) = (v, ns, cs)"
    by (metis prod_cases3)
  show ?thesis
  proof (cases v)
    case Valid
    with assms t p v show ?thesis by (intro exI [of _ pf]) (auto simp: verifyPayment_def)
  qed (use assms t p v in \<open>simp add: verifyPayment_def\<close>)
qed

lemma verifyPayment_Inl:
  "verifyPayment env req c w = (Inl resp, w') \<Longrightarrow>
     w_caps w' = w_caps w \<and> w_reservations w' = w_reservations w \<and> status resp = 402"
  by (auto simp: verifyPayment_def Let_def split: if_splits option.splits prod.splits verification.splits)

lemma admission_Inr:
  assumes "admission env req w = (Inr ctx, w')"
  shows "\<exists>a pf. request_agent req = Some a \<and>
     (\<exists>k. cx_identity ctx = Some \<lparr>id_agentId = a, id_apiKey = k, id_scopes = [''llm:call'', ''compute:run'']\<rparr>) \<and>
     cx_routePlan ctx = Some \<lparr>rp_path = rq_path req, priceUpperBound = 10, actualPrice = 8,
               requiredScope = ''llm:call'', rp_providerId = ''provider_testnet_1''\<rparr> \<and>
     can_transact (canTransact (w_caps w) a 10 (now_admission env div 1000)) \<and>
     cx_verifiedHash ctx = Some (sha256 env (requestMaterial req)) \<and>
     parsePaymentProof (decode_header env) (the (rq_paymentSignature req)) = Some pf \<and>
     verifyPaymentProof (ge_challenge env) InMemoryChannelStateStore ''dev-channel-secret'' (now_admission env)
       (now_admission env) (expectedBinding env req pf)
       pf 10 (w_nonces w, w_channels w) = (Valid, w_nonces w', w_channels w') \<and>
     w_caps w' = w_caps w \<and> w_reservations w' = w_reservations w"
proof -
  from assms obtain c1 w1 c2 w2 c3 w3 c4 w4 where
      i: "resolveIdentity env req empty_ctx w = (Inr c1, w1)" and r: "resolveRouteAndPrice req c1 w1 = (Inr c2, w2)"
      and s: "checkScope c2 w2 = (Inr c3, w3)" and c: "checkCap env c3 w3 = (Inr c4, w4)"
      and v: "verifyPayment env req c4 w4 = (Inr ctx, w')"
    by (auto simp: admission_def and_then_Inr)
  from verifyPayment_Inr [OF v] obtain pf where p:
      "parsePaymentProof (decode_header env) (the (rq_paymentSignature req)) = Some pf"
      "ctx = c4\<lparr>cx_paymentProof := Some pf, cx_verifiedHash := Some (sha256 env (requestMaterial req))\<rparr>"
      "verifyPaymentProof (ge_challenge env) InMemoryChannelStateStore ''dev-channel-secret'' (now_admission env)
       (now_admission env) (expectedBinding env req pf)
       pf (priceUpperBound (the (cx_routePlan c4))) (w_nonces w4, w_channels w4) = (Valid, w_nonces w', w_channels w')"
      "w_caps w' = w_caps w4" "w_reservations w' = w_reservations w4"
    by blast
  with resolveIdentity_Inr [OF i] r checkScope_Inr [OF s] c show ?thesis
    by (auto simp: resolveRouteAndPrice_def checkCap_Inr)
qed

lemma admission_Inl:
  assumes "admission env req w = (Inl resp, w')"
  shows "w_caps w' = w_caps w \<and> w_reservations w' = w_reservations w \<and> status resp \<in> {402, 403}"
  using assms
  by (auto simp: admission_def and_then_Inl and_then_Inr checkCap_Inr resolveRouteAndPrice_def
        dest!: resolveIdentity_Inr checkScope_Inr verifyPayment_Inl)
     (auto simp: resolveIdentity_def checkScope_def checkCap_def Let_def split: if_splits)

lemma postProxy_cases:
  obtains (refused) resp w' where "admission env req w = (Inl resp, w')"
      "postProxy env up req req' w = (resp, w')"
  | (admitted) ctx w1 where "admission env req w = (Inr ctx, w1)"
      "postProxy env up req req' w = proxyAndCommit env up req'
         (ctx\<lparr>cx_reservationId := Some (reservation_key (rnd_reservation env))\<rparr>)
         (w1\<lparr>w_reservations := snd (reserve (rnd_reservation env) (now_reserve env) (id_agentId (the (cx_identity ctx)))
              (rp_path (the (cx_routePlan ctx))) (priceUpperBound (the (cx_routePlan ctx))) (w_reservations w1))\<rparr>)"
proof (cases "admission env req w")
  case (Pair r w1)
  show ?thesis
  proof (cases r)
    case (Inl resp)
    with Pair show ?thesis by (intro refused [of resp w1]) (simp_all add: postProxy_def and_then_def)
  next
    case (Inr ctx)
    with Pair show ?thesis
      by (intro admitted [of ctx w1]) (simp_all add: postProxy_def and_then_def reserveMeter_def reserve_def Let_def)
  qed
qed

section \<open>What the proxy does with the reservation and the cap\<close>

text \<open>
  Whatever the outcome, the reservation of the request ends closed, and it is closed once: the
  reservations afterwards are those before with this one committed or released.
\<close>

lemma proxy_reservations:
  assumes "cx_reservationId ctx = Some i" "proxyAndCommit env up req ctx w = (resp, w')"
  shows "\<exists>c. w_reservations w' = snd (close_reservation c i (w_reservations w))"
proof -
  have r: "\<exists>c. x = snd (close_reservation c i m)"
    if "x = snd (release i m) \<or> (\<exists>u. x = snd (commit i u m))" for x m
    using that by (metis close_reservation.simps)
  show ?thesis
    using assms
    by (intro r) (auto simp: proxyAndCommit_def releaseReservation_def commitAndReceipt_def onClientClose_def Let_def
         split: if_splits upstream_call.splits sum.splits)
qed

lemma proxy_caps:
  assumes "cx_identity ctx = Some ident" "cx_routePlan ctx = Some plan" "proxyAndCommit env up req ctx w = (resp, w')"
  shows "w_caps w' = (if status resp = 200 then snd (consumeLocal (id_agentId ident) (actualPrice plan) (w_caps w)) else w_caps w)
    \<and> status resp \<in> {200, 400, 502}"
  using assms
  by (auto simp: proxyAndCommit_def releaseReservation_def commitAndReceipt_def onClientClose_def Let_def
         split: if_splits upstream_call.splits sum.splits option.splits)

lemma proxy_status: "proxyAndCommit env up req ctx w = (resp, w') \<Longrightarrow> status resp \<in> {200, 400, 502}"
  by (auto simp: proxyAndCommit_def commitAndReceipt_def Let_def split: if_splits upstream_call.splits sum.splits)

lemma reserve_then_close_count:
  assumes "js_get m (reservation_key rnd) = None"
  shows "getStrandedCount (snd (close_reservation c (reservation_key rnd) (snd (reserve rnd now a rt u m)))) = getStrandedCount m"
proof -
  let ?m = "snd (reserve rnd now a rt u m)"
  have o: "reservation_open ?m (reservation_key rnd)" by (simp add: reservation_open_def reserve_def Let_def)
  have "getStrandedCount (snd (close_reservation c (reservation_key rnd) ?m)) + 1 = getStrandedCount ?m"
    by (rule meter.close_count [OF o])
  with reserve_stranded [OF assms] show ?thesis by simp
qed

lemma postProxy_stranded:
  assumes "js_get (w_reservations w) (reservation_key (rnd_reservation env)) = None"
    and "postProxy env up req req' w = (resp, w')"
  shows "getStrandedCount (w_reservations w') = getStrandedCount (w_reservations w)"
proof (cases rule: postProxy_cases [of env req w up req'])
  case (refused resp w1)
  with assms(2) admission_Inl [OF refused(1)] show ?thesis by simp
next
  case (admitted ctx w1)
  have "w_reservations w1 = w_reservations w" using admission_Inr [OF admitted(1)] by blast
  with assms admitted(2) show ?thesis
    by (auto dest!: proxy_reservations [rotated] simp: reserve_then_close_count)
qed

lemma postProxy_caps:
  assumes "postProxy env up req req' w = (resp, w')"
  shows "if status resp = 200
    then \<exists>a. request_agent req = Some a \<and> can_transact (canTransact (w_caps w) a 10 (now_admission env div 1000)) \<and>
             w_caps w' = snd (consumeLocal a 8 (w_caps w))
    else w_caps w' = w_caps w"
proof (cases rule: postProxy_cases [of env req w up req'])
  case (refused resp w1)
  with assms admission_Inl [OF refused(1)] show ?thesis by auto
next
  case (admitted ctx w1)
  obtain a k where a: "request_agent req = Some a" "w_caps w1 = w_caps w"
      "can_transact (canTransact (w_caps w) a 10 (now_admission env div 1000))"
      "cx_identity ctx = Some \<lparr>id_agentId = a, id_apiKey = k, id_scopes = [''llm:call'', ''compute:run'']\<rparr>"
      "cx_routePlan ctx = Some \<lparr>rp_path = rq_path req, priceUpperBound = 10, actualPrice = 8,
               requiredScope = ''llm:call'', rp_providerId = ''provider_testnet_1''\<rparr>"
    using admission_Inr [OF admitted(1)] by blast
  with proxy_caps [OF _ _ trans [OF sym [OF admitted(2)] assms]] show ?thesis
    by simp
qed

lemma postProxy_within:
  assumes "caps_within (w_caps w)" "postProxy env up req req' w = (resp, w')"
  shows "caps_within (w_caps w')"
proof (cases "status resp = 200")
  case True
  then obtain a where "can_transact (canTransact (w_caps w) a 10 (now_admission env div 1000))"
      "w_caps w' = snd (consumeLocal a 8 (w_caps w))"
    using postProxy_caps [OF assms(2)] by auto
  with consume_admitted_within [OF assms(1), of a 10 _ 8] show ?thesis by simp
qed (use postProxy_caps [OF assms(2)] assms(1) in simp)

end
