(* ===== verification/GatewayProps.thy ===== *)
theory GatewayProps
  imports Gateway
begin

text \<open>
  Properties of the paid-request lifecycle: what a request can cost, when, and how often.
\<close>

section \<open>Concrete values for the examples\<close>

definition demo_raw :: "int \<Rightarrow> string \<Rightarrow> raw_proof" where
  "demo_raw n nn =
     \<lparr>raw_channelId = Some ''c'', raw_sequenceNumber = Some n, raw_userBalance = Some 50,
      raw_executorBalance = Some 0, raw_totalDeposited = Some 50, raw_nonce = Some nn,
      raw_signature = Some ''mock_valid_signature'', raw_payerAddress = Some ''P'',
      raw_expiresAt = None, raw_timestamp = None, raw_requestHash = None\<rparr>"

definition demo_gw :: "int \<Rightarrow> string \<Rightarrow> gw_env" where
  "demo_gw n nn =
     \<lparr>ge_challenge = demo_env, sha256 = (\<lambda>m. ''h'' @ m), decode_header = (\<lambda>_. Some (demo_raw n nn)),
      rnd_challenge_nonce = ''0'', rnd_challenge_id = ''1'', rnd_reservation = nn, rnd_receipt = nn,
      rnd_signature = nn, now_admission = 1000, now_reserve = 1001, now_receipt = 1002\<rparr>"

definition demo_req :: request where
  "demo_req = \<lparr>rq_method = ''post'', rq_path = ''/proxy'', rq_body = ''{}'',
     rq_authorization = Some ''Bearer agent_7'', rq_apiKeyHeader = None,
     rq_paymentSignature = Some ''proof'', rq_simulateError = False\<rparr>"

definition demo_cap :: "amount \<Rightarrow> spend_cap" where
  "demo_cap cap = \<lparr>cardId = ''card'', cap_agentId = ''agent_7'', onChainCap = cap, consumedLocal = 0,
     lastSettledOnChainCap = cap, dailyLimit = 0, monthlyLimit = 0, cap_status = Active, cap_expiresAt = 0\<rparr>"

definition demo_world :: "amount \<Rightarrow> world" where
  "demo_world cap = \<lparr>w_caps = setCap (demo_cap cap) [], w_reservations = [], w_nonces = [], w_channels = empty_store\<rparr>"

definition demo_call :: "int \<Rightarrow> string \<Rightarrow> upstream_call \<Rightarrow> call" where
  "demo_call n nn up = \<lparr>ca_env = demo_gw n nn, ca_upstream = up, ca_request = demo_req, ca_seen = demo_req\<rparr>"

section \<open>Runs of requests\<close>

lemma reservation_key_inj [simp]: "reservation_key a = reservation_key b \<longleftrightarrow> a = b"
  by (simp add: reservation_key_def)

lemma close_reservation_other: "j \<noteq> i \<Longrightarrow> js_get (snd (close_reservation c i m)) j = js_get m j"
  by (cases c) (simp_all add: commit_other release_other)

lemma postProxy_reservation_frame:
  assumes "postProxy env up req req' w = (resp, w')" "k \<noteq> reservation_key (rnd_reservation env)"
  shows "js_get (w_reservations w') k = js_get (w_reservations w) k"
proof (cases rule: postProxy_cases [of env req w up req'])
  case (refused resp w1)
  with assms(1) admission_Inl [OF refused(1)] show ?thesis by simp
next
  case (admitted ctx w1)
  have "w_reservations w1 = w_reservations w" using admission_Inr [OF admitted(1)] by blast
  with assms admitted(2) show ?thesis
    by (auto dest!: proxy_reservations [rotated] simp: close_reservation_other) (simp add: reserve_def Let_def)
qed

abbreviation call_key :: "call \<Rightarrow> ident" where
  "call_key c \<equiv> reservation_key (rnd_reservation (ca_env c))"

lemma serve_all_stranded:
  "distinct (map call_key cs) \<Longrightarrow> \<forall>c\<in>set cs. js_get (w_reservations w) (call_key c) = None \<Longrightarrow>
   getStrandedCount (w_reservations (snd (serve_all cs w))) = getStrandedCount (w_reservations w)"
proof (induction cs arbitrary: w)
  case (Cons c cs)
  obtain r w1 where p: "postProxy (ca_env c) (ca_upstream c) (ca_request c) (ca_seen c) w = (r, w1)"
    by (metis prod.exhaust)
  have "\<forall>d\<in>set cs. js_get (w_reservations w1) (call_key d) = None"
  proof
    fix d assume d: "d \<in> set cs"
    have "call_key c \<notin> call_key ` set cs" using Cons.prems(1) by simp
    with d have "call_key d \<noteq> call_key c" by (metis image_eqI)
    with postProxy_reservation_frame [OF p, of "call_key d"] d Cons.prems(2)
    show "js_get (w_reservations w1) (call_key d) = None" by simp
  qed
  moreover have "getStrandedCount (w_reservations w1) = getStrandedCount (w_reservations w)"
    using postProxy_stranded [OF _ p] Cons.prems(2) by simp
  ultimately show ?case using Cons.IH [of w1] Cons.prems(1) by (simp add: p split_def Let_def)
qed simp

lemma serve_all_within: "caps_within (w_caps w) \<Longrightarrow> caps_within (w_caps (snd (serve_all cs w)))"
proof (induction cs arbitrary: w)
  case (Cons c cs)
  obtain r w1 where p: "postProxy (ca_env c) (ca_upstream c) (ca_request c) (ca_seen c) w = (r, w1)"
    by (metis prod.exhaust)
  from Cons.IH [OF postProxy_within [OF Cons.prems p]] show ?case by (simp add: p split_def Let_def)
qed simp

text \<open>What the served requests of an agent cost it, over a run.\<close>

definition served_count :: "ident \<Rightarrow> call list \<Rightarrow> response list \<Rightarrow> nat" where
  "served_count a cs rs =
     length (filter (\<lambda>(c, r). status r = 200 \<and> request_agent (ca_request c) = Some a) (zip cs rs))"

lemma postProxy_consumed:
  assumes "postProxy env up req req' w = (resp, w')" "js_get (w_caps w) a = Some r"
  shows "\<exists>r'. js_get (w_caps w') a = Some r' \<and> onChainCap r' = onChainCap r \<and>
    consumedLocal r' = consumedLocal r + (if status resp = 200 \<and> request_agent req = Some a then 8 else 0)"
  using postProxy_caps [OF assms(1)] assms(2) by (auto simp: consumeLocal_get split: if_splits)

lemma serve_all_consumed:
  "js_get (w_caps w) a = Some r \<Longrightarrow> serve_all cs w = (rs, w') \<Longrightarrow>
   \<exists>r'. js_get (w_caps w') a = Some r' \<and> onChainCap r' = onChainCap r \<and>
     consumedLocal r' = consumedLocal r + 8 * of_nat (served_count a cs rs)"
proof (induction cs arbitrary: w r rs)
  case (Cons c cs)
  obtain x w1 where p: "postProxy (ca_env c) (ca_upstream c) (ca_request c) (ca_seen c) w = (x, w1)"
    by (metis prod.exhaust)
  obtain rs1 where q: "serve_all cs w1 = (rs1, w')" "rs = x # rs1"
    using Cons.prems(2) p by (auto split: prod.splits)
  obtain r1 where r1: "js_get (w_caps w1) a = Some r1" "onChainCap r1 = onChainCap r"
      "consumedLocal r1 = consumedLocal r + (if status x = 200 \<and> request_agent (ca_request c) = Some a then 8 else 0)"
    using postProxy_consumed [OF p Cons.prems(1)] by blast
  from Cons.IH [OF r1(1) q(1)] r1(2,3) q(2) show ?case
    by (auto simp: served_count_def algebra_simps)
qed (simp add: served_count_def)

section \<open>Properties\<close>

text \<open>
  C5: no reservation is left open.  Over any run of requests with fresh reservation ids, with
  any upstream outcome, client disconnect, altered request or refusal, the number of open
  reservations at the end is the number at the start.
\<close>

theorem no_stranded_reservation:
  assumes "distinct (map call_key cs)" and "\<forall>c\<in>set cs. js_get (w_reservations w) (call_key c) = None"
  shows "getStrandedCount (w_reservations (snd (serve_all cs w))) = getStrandedCount (w_reservations w)"
  using assms by (rule serve_all_stranded)

theorem no_stranded_reservation_witness:
  "getStrandedCount (w_reservations (snd (serve_all
     [demo_call 1 ''a'' (Provider True (Inl ''reset'')), demo_call 2 ''b'' Default_upstream] (demo_world 20)))) = 0 \<and>
   map status (fst (serve_all [demo_call 1 ''a'' (Provider True (Inl ''reset'')), demo_call 2 ''b'' Default_upstream]
     (demo_world 20))) = [502, 200]"
proof -
  let ?cs = "[demo_call 1 ''a'' (Provider True (Inl ''reset'')), demo_call 2 ''b'' Default_upstream]"
  have "distinct (map call_key ?cs)" by (simp add: demo_call_def demo_gw_def)
  moreover have "\<forall>c\<in>set ?cs. js_get (w_reservations (demo_world 20)) (call_key c) = None"
    by (simp add: demo_world_def)
  moreover have "getStrandedCount (w_reservations (demo_world 20)) = 0" by code_simp
  ultimately have "getStrandedCount (w_reservations (snd (serve_all ?cs (demo_world 20)))) = 0"
    using no_stranded_reservation by metis
  moreover have "map status (fst (serve_all ?cs (demo_world 20))) = [502, 200]" by code_simp
  ultimately show ?thesis by blast
qed

text \<open>
  C6: requests handled one after another never push an agent's local consumption over its
  on-chain cap, and each served request, and no other, costs its agent the fixed price 8.
\<close>

theorem sequential_spend_within_cap:
  assumes "caps_within (w_caps w)" and "serve_all cs w = (rs, w')" and "js_get (w_caps w) a = Some r"
  shows "\<exists>r'. js_get (w_caps w') a = Some r' \<and>
     consumedLocal r' = consumedLocal r + 8 * of_nat (served_count a cs rs) \<and> consumedLocal r' \<le> onChainCap r"
proof -
  obtain r' where r': "js_get (w_caps w') a = Some r'" "onChainCap r' = onChainCap r"
      "consumedLocal r' = consumedLocal r + 8 * of_nat (served_count a cs rs)"
    using serve_all_consumed [OF assms(3,2)] by blast
  moreover have "caps_within (w_caps w')" using serve_all_within [OF assms(1), of cs] assms(2) by simp
  then have "consumedLocal r' \<le> onChainCap r'"
    using r'(1) unfolding caps_within_def within_cap_def by blast
  ultimately show ?thesis by simp
qed

theorem sequential_spend_within_cap_witness:
  "served_count ''agent_7'' [demo_call 1 ''a'' Default_upstream, demo_call 2 ''b'' Default_upstream]
     (fst (serve_all [demo_call 1 ''a'' Default_upstream, demo_call 2 ''b'' Default_upstream] (demo_world 15))) = 1 \<and>
   (0 :: amount) + 8 * of_nat (Suc 0) \<le> 15"
proof -
  let ?cs = "[demo_call 1 ''a'' Default_upstream, demo_call 2 ''b'' Default_upstream]"
  let ?r = "serve_all ?cs (demo_world 15)"
  have c: "served_count ''agent_7'' ?cs (fst ?r) = 1" by code_simp
  have w: "caps_within (w_caps (demo_world 15))"
    by (auto simp: caps_within_def demo_world_def setCap_def demo_cap_def within_cap_def split: if_splits)
  have g: "js_get (w_caps (demo_world 15)) ''agent_7'' = Some (demo_cap 15)"
    by (simp add: demo_world_def setCap_def demo_cap_def)
  from sequential_spend_within_cap [OF w prod.collapse [symmetric] g] c show ?thesis
    by (simp add: demo_cap_def)
qed

text \<open>
  C11: a served request was admitted: it carried a key, the cap of the agent admitted the price
  bound 10, and its proof verified against the stores; its receipt carries the hash of the
  request that was verified, even though the request is read again before the upstream call.
\<close>

theorem served_only_if_admitted:
  assumes "postProxy env up req req' w = (Served body rc, w')" and "\<forall>m. sha256 env m \<noteq> []"
  shows "(\<exists>a pf st. request_agent req = Some a \<and>
            can_transact (canTransact (w_caps w) a 10 (now_admission env div 1000)) \<and>
            parsePaymentProof (decode_header env) (the (rq_paymentSignature req)) = Some pf \<and>
            verifyPaymentProof (ge_challenge env) InMemoryChannelStateStore ''dev-channel-secret''
              (now_admission env) (now_admission env) (expectedBinding env req pf) pf 10
              (w_nonces w, w_channels w) = (Valid, st)) \<and>
         rc_requestHash rc = sha256 env (requestMaterial req) \<and> rc_cost rc = 8"
proof (cases rule: postProxy_cases [of env req w up req'])
  case (refused resp w1)
  with assms(1) admission_Inl [OF refused(1)] show ?thesis by simp
next
  case (admitted ctx w1)
  let ?c = "ctx\<lparr>cx_reservationId := Some (reservation_key (rnd_reservation env))\<rparr>"
  obtain w2 where p: "proxyAndCommit env up req' ?c w2 = (Served body rc, w')"
    using admitted(2) assms(1) by metis
  have v: "cx_verifiedHash ctx = Some (sha256 env (requestMaterial req))" "actualPrice (the (cx_routePlan ctx)) = 8"
    using admission_Inr [OF admitted(1)] by auto
  have "rc_requestHash rc = sha256 env (requestMaterial req) \<and> rc_cost rc = 8"
    using p v assms(2)
    by (auto simp: proxyAndCommit_def commitAndReceipt_def Let_def split: if_splits upstream_call.splits sum.splits)
  with admission_Inr [OF admitted(1)] show ?thesis by blast
qed

theorem served_only_if_admitted_witness:
  "\<exists>a. request_agent demo_req = Some a \<and> can_transact (canTransact (w_caps (demo_world 20)) a 10 1)"
proof -
  let ?r = "postProxy (demo_gw 1 ''a'') Default_upstream demo_req demo_req (demo_world 20)"
  have "status (fst ?r) = 200" by code_simp
  then obtain b rc where f: "fst ?r = Served b rc" by (cases "fst ?r") auto
  have r: "?r = (Served b rc, snd ?r)" by (metis f prod.collapse)
  have "\<forall>m. sha256 (demo_gw 1 ''a'') m \<noteq> []" by (simp add: demo_gw_def)
  from served_only_if_admitted [OF r this] have "\<exists>a. request_agent demo_req = Some a \<and>
      can_transact (canTransact (w_caps (demo_world 20)) a 10 (now_admission (demo_gw 1 ''a'') div 1000))" by blast
  then show ?thesis by (simp add: demo_gw_def)
qed

text \<open>
  a request that is not served costs nothing: every answer but 200 leaves the caps as they
  were, and an answer of the admission steps (402, 403) leaves the reservations as they were,
  so no reservation is made before admission has passed.
\<close>

theorem unserved_requests_cost_nothing:
  assumes "postProxy env up req req' w = (resp, w')"
  shows "(status resp \<noteq> 200 \<longrightarrow> w_caps w' = w_caps w) \<and>
         (status resp \<in> {402, 403} \<longrightarrow> w_reservations w' = w_reservations w) \<and>
         status resp \<in> {200, 400, 402, 403, 502}"
proof (cases rule: postProxy_cases [of env req w up req'])
  case (refused r w1)
  with assms admission_Inl [OF refused(1)] show ?thesis by auto
next
  case (admitted ctx w1)
  then obtain w2 where "proxyAndCommit env up req'
      (ctx\<lparr>cx_reservationId := Some (reservation_key (rnd_reservation env))\<rparr>) w2 = (resp, w')"
    using assms by metis
  then have "status resp \<in> {200, 400, 502}" by (rule proxy_status)
  with postProxy_caps [OF assms] show ?thesis by auto
qed

theorem unserved_requests_cost_nothing_witness:
  "status (fst (postProxy (demo_gw 1 ''a'') Default_upstream demo_req demo_req (demo_world 9))) = 402 \<and>
   w_caps (snd (postProxy (demo_gw 1 ''a'') Default_upstream demo_req demo_req (demo_world 9))) = w_caps (demo_world 9)"
proof -
  let ?r = "postProxy (demo_gw 1 ''a'') Default_upstream demo_req demo_req (demo_world 9)"
  have "status (fst ?r) = 402" by code_simp
  with unserved_requests_cost_nothing [OF prod.collapse [symmetric], of "demo_gw 1 ''a''" Default_upstream demo_req demo_req "demo_world 9"]
  show ?thesis by simp
qed

text \<open>
  when the client disconnects while the provider is awaited and the provider then answers,
  the reservation ends released, yet the price is consumed and a receipt is issued: the
  failure of \<open>commit\<close> is ignored.
\<close>

theorem disconnected_call_is_still_charged:
  assumes "admission env req w = (Inr ctx, w1)" and "js_get (w_caps w) (id_agentId (the (cx_identity ctx))) = Some r"
    and "postProxy env (Provider True (Inr body)) req req w = (resp, w')"
  shows "status resp = 200 \<and>
     (\<exists>x. js_get (w_reservations w') (reservation_key (rnd_reservation env)) = Some x \<and> res_status x = Released) \<and>
     js_get (w_caps w') (id_agentId (the (cx_identity ctx))) = Some (r\<lparr>consumedLocal := consumedLocal r + 8\<rparr>)"
proof -
  have a: "w_caps w1 = w_caps w" "cx_verifiedHash ctx = Some (sha256 env (requestMaterial req))"
      "actualPrice (the (cx_routePlan ctx)) = 8"
    using admission_Inr [OF assms(1)] by auto
  let ?k = "reservation_key (rnd_reservation env)"
  let ?a = "id_agentId (the (cx_identity ctx))"
  define rs where "rs = snd (reserve (rnd_reservation env) (now_reserve env) ?a
     (rp_path (the (cx_routePlan ctx))) (priceUpperBound (the (cx_routePlan ctx))) (w_reservations w1))"
  define c w2 where "c = ctx\<lparr>cx_reservationId := Some ?k\<rparr>" and "w2 = w1\<lparr>w_reservations := rs\<rparr>"
  have s: "and_then (admission env req w) (reserveMeter env) = (Inr c, w2)"
    unfolding assms(1) and_then_def c_def w2_def rs_def
    by (simp add: reserveMeter_def reserve_def Let_def)
  have "proxyAndCommit env (Provider True (Inr body)) req c w2 =
      commitAndReceipt env (sha256 env (requestMaterial req)) body c (onClientClose c w2)"
    using a(2) by (simp add: proxyAndCommit_def c_def)
  with s assms(3) have p: "commitAndReceipt env (sha256 env (requestMaterial req)) body c (onClientClose c w2) = (resp, w')"
    by (simp add: postProxy_def)
  obtain x where x: "js_get rs ?k = Some x" "is_open x" by (simp add: rs_def reserve_def Let_def)
  have "js_get (w_reservations w') ?k = Some (x\<lparr>res_status := Released\<rparr>)" "status resp = 200"
    "w_caps w' = snd (consumeLocal ?a 8 (w_caps w))"
    using p release_open(3) [OF x] by (auto simp: commitAndReceipt_def onClientClose_def c_def w2_def a Let_def)
  with assms(2) show ?thesis by (auto simp: consumeLocal_get)
qed

theorem disconnected_call_is_still_charged_witness:
  "\<exists>x. js_get (w_reservations (snd (postProxy (demo_gw 1 ''a'') (Provider True (Inr ''ok'')) demo_req demo_req (demo_world 20))))
        ''res_a'' = Some x \<and> res_status x = Released"
proof -
  let ?a = "admission (demo_gw 1 ''a'') demo_req (demo_world 20)"
  let ?p = "postProxy (demo_gw 1 ''a'') (Provider True (Inr ''ok'')) demo_req demo_req (demo_world 20)"
  have "projl (fst ?a) = projl (fst ?a) \<and> (case fst ?a of Inl x \<Rightarrow> False | Inr ctx \<Rightarrow> id_agentId (the (cx_identity ctx)) = ''agent_7'')"
    by code_simp
  then obtain ctx where c: "fst ?a = Inr ctx" "id_agentId (the (cx_identity ctx)) = ''agent_7''"
    by (cases "fst ?a") auto
  have a: "?a = (Inr ctx, snd ?a)" by (metis c(1) prod.collapse)
  have g: "js_get (w_caps (demo_world 20)) (id_agentId (the (cx_identity ctx))) = Some (demo_cap 20)"
    by (simp add: c demo_world_def setCap_def demo_cap_def)
  have "reservation_key (rnd_reservation (demo_gw 1 ''a'')) = ''res_a''"
    by (simp add: reservation_key_def demo_gw_def)
  with disconnected_call_is_still_charged [OF a g prod.collapse [symmetric]] show ?thesis by metis
qed

text \<open>
  two different API keys with the same first ten characters, neither starting with
  \<open>agent_\<close>, resolve to one agent and so share its cap.
\<close>

theorem api_keys_share_agent:
  assumes "take 10 k1 = take 10 k2" "\<not> startsWith k1 ''agent_''" "\<not> startsWith k2 ''agent_''"
  shows "resolveAgentId k1 = resolveAgentId k2"
  using assms by (simp add: resolveAgentId_def slice_def)

theorem api_keys_share_agent_witness:
  "resolveAgentId ''sk_live_00AAAA'' = resolveAgentId ''sk_live_00BBBB'' \<and> ''sk_live_00AAAA'' \<noteq> ''sk_live_00BBBB''"
  using api_keys_share_agent [of "''sk_live_00AAAA''" "''sk_live_00BBBB''"] by (simp add: startsWith_def)

text \<open>
  admission does not hold the amount it admits.  If what is left of an agent's cap covers
  the price bound 10 once but the price 8 not twice, two requests whose cap checks both run
  before either consumes are both admitted, and after both have been charged the consumption
  is above the cap.
\<close>

theorem interleaved_calls_exceed_cap:
  assumes "js_get m a = Some r" "cap_status r = Active" "cap_expiresAt r = 0"
    and "consumedLocal r + 10 \<le> onChainCap r" "onChainCap r < consumedLocal r + 16"
  shows "can_transact (canTransact m a 10 t1) \<and> can_transact (canTransact m a 10 t2) \<and>
    (case js_get (snd (consumeLocal a 8 (snd (consumeLocal a 8 m)))) a of
       None \<Rightarrow> False | Some r' \<Rightarrow> onChainCap r' < consumedLocal r')"
  using assms by (simp add: canTransact_def remaining_def consumeLocal_def)

theorem interleaved_calls_exceed_cap_witness:
  "can_transact (canTransact (w_caps (demo_world 10)) ''agent_7'' 10 1) \<and>
   (case js_get (snd (consumeLocal ''agent_7'' 8 (snd (consumeLocal ''agent_7'' 8 (w_caps (demo_world 10)))))) ''agent_7'' of
       None \<Rightarrow> False | Some r' \<Rightarrow> onChainCap r' < consumedLocal r')"
proof -
  have g: "js_get (w_caps (demo_world 10)) ''agent_7'' = Some (demo_cap 10)"
    by (simp add: demo_world_def setCap_def demo_cap_def)
  have "cap_status (demo_cap 10) = Active" "cap_expiresAt (demo_cap 10) = 0"
    "consumedLocal (demo_cap 10) + 10 \<le> onChainCap (demo_cap 10)" "onChainCap (demo_cap 10) < consumedLocal (demo_cap 10) + 16"
    by (simp_all add: demo_cap_def)
  from interleaved_calls_exceed_cap [OF g this, of 1 1] show ?thesis by blast
qed

end
