(* ===== verification/ScopeEnforcer.thy ===== *)
theory ScopeEnforcer
  imports Prelude
begin

text \<open>
  Scope checks against the agent registry (\<open>backend/src/v3/scope-enforcer.ts\<close>, with the
  types of \<open>backend/src/v3/types.ts\<close> and the in-memory registry of
  \<open>backend/src/v3/gateway-service.ts\<close>).

  A check reads the clock when it starts (\<open>nowMs\<close>) and again when it validates the grant
  (\<open>nowV\<close>); the registry may reject, which is the \<open>Inl\<close> of its result.  Dates are text that
  \<open>Date.parse\<close> (\<open>parse_date\<close>) may fail to read: the comparison with \<open>NaN\<close> is then false.
\<close>

record grant =
  g_agentId :: ident
  g_scopes :: "string list"
  g_expiresAt :: "string option"
  g_revokedAt :: "string option"

datatype rejection_code = Missing_scope_code | Grant_expired | Grant_revoked | Registry_unavailable

record cache_entry =
  ce_grant :: grant
  cachedAtMs :: millis
  hardExpiryMs :: millis
  softExpiryMs :: millis

type_synonym scope_cache = "(ident, cache_entry) jsmap"

record enforcer_options =
  cacheTtlMs :: int
  cacheSoftTtlMs :: int

definition enforcerOptions :: "int option \<Rightarrow> int option \<Rightarrow> enforcer_options" where
  "enforcerOptions ttl soft = \<lparr>cacheTtlMs = nullish ttl 5000, cacheSoftTtlMs = nullish soft 2500\<rparr>"

section \<open>The check\<close>

definition past :: "(string \<Rightarrow> millis option) \<Rightarrow> millis \<Rightarrow> string option \<Rightarrow> bool" where
  "past parse_date now d \<longleftrightarrow>
     truthy d \<and> (case parse_date (the d) of None \<Rightarrow> False | Some t \<Rightarrow> t \<le> now)"

definition validateGrant :: "(string \<Rightarrow> millis option) \<Rightarrow> millis \<Rightarrow> grant \<Rightarrow> string \<Rightarrow> rejection_code + unit" where
  "validateGrant parse_date now g routeScope =
     (if past parse_date now (g_revokedAt g) then Inl Grant_revoked
      else if past parse_date now (g_expiresAt g) then Inl Grant_expired
      else if \<not> List.member (g_scopes g) routeScope then Inl Missing_scope_code
      else Inr ())"

text \<open>
  The \<open>try\<close> block covers the refresh and the validation of the refreshed grant; the cache is
  written between the two.  Both branches of the handler raise the same code.
\<close>

definition assertAllowed ::
  "enforcer_options \<Rightarrow> (string \<Rightarrow> millis option) \<Rightarrow> (ident \<Rightarrow> 'e + grant) \<Rightarrow> millis \<Rightarrow> millis \<Rightarrow>
   ident \<Rightarrow> string \<Rightarrow> scope_cache \<Rightarrow> (rejection_code + unit) \<times> scope_cache" where
  "assertAllowed opts parse_date getGrant nowMs nowV agentId routeScope cache =
     (case js_get cache agentId of
        Some e \<Rightarrow>
          if nowMs < softExpiryMs e then (validateGrant parse_date nowV (ce_grant e) routeScope, cache)
          else (case getGrant agentId of
              Inl err \<Rightarrow> (Inl Registry_unavailable, cache)
            | Inr fresh \<Rightarrow>
               (let cache' = js_set agentId \<lparr>ce_grant = fresh, cachedAtMs = nowMs,
                       hardExpiryMs = nowMs + cacheTtlMs opts, softExpiryMs = nowMs + cacheSoftTtlMs opts\<rparr> cache
                in (case validateGrant parse_date nowV fresh routeScope of
                      Inl _ \<Rightarrow> (Inl Registry_unavailable, cache')
                    | Inr _ \<Rightarrow> (Inr (), cache'))))
      | None \<Rightarrow>
          (case getGrant agentId of
              Inl err \<Rightarrow> (Inl Registry_unavailable, cache)
            | Inr fresh \<Rightarrow>
               (let cache' = js_set agentId \<lparr>ce_grant = fresh, cachedAtMs = nowMs,
                       hardExpiryMs = nowMs + cacheTtlMs opts, softExpiryMs = nowMs + cacheSoftTtlMs opts\<rparr> cache
                in (case validateGrant parse_date nowV fresh routeScope of
                      Inl _ \<Rightarrow> (Inl Registry_unavailable, cache')
                    | Inr _ \<Rightarrow> (Inr (), cache')))))"

definition cached_fresh :: "scope_cache \<Rightarrow> ident \<Rightarrow> millis \<Rightarrow> bool" where
  "cached_fresh cache a t \<longleftrightarrow> (case js_get cache a of None \<Rightarrow> False | Some e \<Rightarrow> t < softExpiryMs e)"

lemma assert_cached:
  "js_get cache a = Some e \<Longrightarrow> t < softExpiryMs e \<Longrightarrow>
     assertAllowed opts pd rd t v a sc cache = (validateGrant pd v (ce_grant e) sc, cache)"
  by (simp add: assertAllowed_def)

lemma assert_refresh:
  "\<not> cached_fresh cache a t \<Longrightarrow> rd a = Inr g \<Longrightarrow>
     assertAllowed opts pd rd t v a sc cache =
       ((case validateGrant pd v g sc of Inl _ \<Rightarrow> Inl Registry_unavailable | Inr _ \<Rightarrow> Inr ()),
        js_set a \<lparr>ce_grant = g, cachedAtMs = t, hardExpiryMs = t + cacheTtlMs opts,
                  softExpiryMs = t + cacheSoftTtlMs opts\<rparr> cache)"
  by (auto simp: assertAllowed_def cached_fresh_def Let_def split: option.splits sum.splits)

lemma assert_unavailable:
  "\<not> cached_fresh cache a t \<Longrightarrow> rd a = Inl err \<Longrightarrow>
     assertAllowed opts pd rd t v a sc cache = (Inl Registry_unavailable, cache)"
  by (auto simp: assertAllowed_def cached_fresh_def split: option.splits)

lemmas assert_cases = assert_cached assert_refresh assert_unavailable

lemma assert_other:
  "b \<noteq> a \<Longrightarrow> js_get (snd (assertAllowed opts pd rd t v a sc cache)) b = js_get cache b"
  by (auto simp: assertAllowed_def Let_def split: option.splits sum.splits)

section \<open>The registry\<close>

text \<open>\<open>InMemoryAgentRegistryReader\<close>.\<close>

type_synonym registry = "(ident, grant) jsmap"

definition setGrant :: "grant \<Rightarrow> registry \<Rightarrow> registry" where
  "setGrant g r = js_set (g_agentId g) g r"

definition getGrant :: "registry \<Rightarrow> ident \<Rightarrow> string + grant" where
  "getGrant r a = (case js_get r a of None \<Rightarrow> Inl ''grant not found'' | Some g \<Rightarrow> Inr g)"

text \<open>
  What the enforcer's callers rely on: the registry returns the grant last set for an agent.
  A history of the two components is a list of events, each at its own clock.
\<close>

datatype scope_event =
    Set_grant grant
  | Check (ev_now: millis) (ev_nowV: millis) (ev_agent: ident) (ev_scope: string)

locale agent_registry =
  fixes get :: "'r \<Rightarrow> ident \<Rightarrow> 'e + grant"
    and set_g :: "grant \<Rightarrow> 'r \<Rightarrow> 'r"
  assumes get_set: "get (set_g g r) (g_agentId g) = Inr g"
    and get_other: "a \<noteq> g_agentId g \<Longrightarrow> get (set_g g r) a = get r a"
begin

fun run :: "enforcer_options \<Rightarrow> (string \<Rightarrow> millis option) \<Rightarrow> scope_event list \<Rightarrow> 'r \<times> scope_cache \<Rightarrow> 'r \<times> scope_cache" where
  "run opts pd [] s = s"
| "run opts pd (Set_grant g # es) (r, c) = run opts pd es (set_g g r, c)"
| "run opts pd (Check t v a sc # es) (r, c) = run opts pd es (r, snd (assertAllowed opts pd (get r) t v a sc c))"

text \<open>
  From the moment \<open>T\<close> at which \<open>g\<close> is set, what the cache holds for its agent is \<open>g\<close> or
  goes stale by \<open>T\<close> plus the soft lifetime.
\<close>

definition settled :: "enforcer_options \<Rightarrow> grant \<Rightarrow> millis \<Rightarrow> 'r \<times> scope_cache \<Rightarrow> bool" where
  "settled opts g T s \<longleftrightarrow> get (fst s) (g_agentId g) = Inr g \<and>
     (\<forall>e. js_get (snd s) (g_agentId g) = Some e \<longrightarrow> ce_grant e = g \<or> softExpiryMs e \<le> T + cacheSoftTtlMs opts)"

lemma settled_run:
  assumes "settled opts g T s"
    and "\<forall>e\<in>set es. \<forall>g'. e = Set_grant g' \<longrightarrow> g_agentId g' \<noteq> g_agentId g"
  shows "settled opts g T (run opts pd es s)"
  using assms
proof (induction opts pd es s rule: run.induct)
  case (2 opts pd g' es r c)
  have "g_agentId g \<noteq> g_agentId g'" using 2(3) by auto
  then have "settled opts g T (set_g g' r, c)"
    using 2(2) get_other [of "g_agentId g" g' r] unfolding settled_def fst_conv snd_conv by simp
  then show ?case using 2(1,3) unfolding run.simps by simp
next
  case (3 opts pd t v a sc es r c)
  have "settled opts g T (r, snd (assertAllowed opts pd (get r) t v a sc c))"
  proof (cases "a = g_agentId g")
    case True
    show ?thesis
    proof (cases "cached_fresh c a t")
      case True
      then obtain e where "js_get c a = Some e" "t < softExpiryMs e"
        by (auto simp: cached_fresh_def split: option.splits)
      with 3(2) show ?thesis by (simp add: assert_cached)
    next
      case False
      have r: "get r a = Inr g" using 3(2) \<open>a = g_agentId g\<close> by (simp add: settled_def)
      from assert_refresh [where rd = "get r", OF False r, of opts pd v sc] r \<open>a = g_agentId g\<close> show ?thesis
        unfolding settled_def by (simp only: fst_conv snd_conv js_get_set) simp
    qed
  qed (use 3(2) in \<open>simp add: settled_def assert_other\<close>)
  then show ?case using 3(1,3) unfolding run.simps by simp
qed simp

lemma settled_check:
  assumes "settled opts g T (r, c)" "T + cacheSoftTtlMs opts \<le> t"
  shows "fst (assertAllowed opts pd (get r) t v (g_agentId g) sc c) = Inr () \<longleftrightarrow> validateGrant pd v g sc = Inr ()"
proof (cases "cached_fresh c (g_agentId g) t")
  case True
  then obtain e where e: "js_get c (g_agentId g) = Some e" "t < softExpiryMs e"
    by (auto simp: cached_fresh_def split: option.splits)
  with assms have "ce_grant e = g" by (auto simp: settled_def)
  with e show ?thesis by (simp add: assert_cached)
next
  case False
  with assms show ?thesis
    by (auto simp: settled_def assert_refresh split: sum.splits)
qed

lemma effective_after_soft_ttl:
  assumes "\<forall>e. js_get c (g_agentId g) = Some e \<longrightarrow> softExpiryMs e \<le> T + cacheSoftTtlMs opts"
    and "\<forall>e\<in>set es. \<forall>g'. e = Set_grant g' \<longrightarrow> g_agentId g' \<noteq> g_agentId g"
    and "run opts pd es (set_g g r, c) = (r', c')" "T + cacheSoftTtlMs opts \<le> t"
  shows "fst (assertAllowed opts pd (get r') t v (g_agentId g) sc c') = Inr () \<longleftrightarrow> validateGrant pd v g sc = Inr ()"
proof -
  have "settled opts g T (set_g g r, c)"
    using assms(1) by (simp add: settled_def get_set)
  from settled_run [OF this assms(2), of pd] assms(3,4) show ?thesis
    by (simp add: settled_check)
qed

end

interpretation registry: agent_registry getGrant setGrant
  by unfold_locales (simp_all add: getGrant_def setGrant_def)

text \<open>The same runs as a function of the model.\<close>

fun scope_run :: "enforcer_options \<Rightarrow> (string \<Rightarrow> millis option) \<Rightarrow> scope_event list \<Rightarrow> registry \<times> scope_cache \<Rightarrow> registry \<times> scope_cache" where
  "scope_run opts pd [] s = s"
| "scope_run opts pd (Set_grant g # es) (r, c) = scope_run opts pd es (setGrant g r, c)"
| "scope_run opts pd (Check t v a sc # es) (r, c) = scope_run opts pd es (r, snd (assertAllowed opts pd (getGrant r) t v a sc c))"

lemma registry_run: "registry.run opts pd es s = scope_run opts pd es s"
  by (induction opts pd es s rule: scope_run.induct) simp_all

text \<open>Entries written by the enforcer before \<open>T\<close> go stale by \<open>T\<close> plus the soft lifetime.\<close>

definition cache_before :: "enforcer_options \<Rightarrow> millis \<Rightarrow> scope_cache \<Rightarrow> bool" where
  "cache_before opts T c \<longleftrightarrow> (\<forall>a. case js_get c a of None \<Rightarrow> True | Some e \<Rightarrow> softExpiryMs e \<le> T + cacheSoftTtlMs opts)"

lemma cache_before_run:
  "cache_before opts T (snd s) \<Longrightarrow> \<forall>e\<in>set es. \<forall>t v a sc. e = Check t v a sc \<longrightarrow> t \<le> T \<Longrightarrow>
     cache_before opts T (snd (scope_run opts pd es s))"
proof (induction opts pd es s rule: scope_run.induct)
  case (3 opts pd t v a sc es r c)
  have "cache_before opts T (snd (assertAllowed opts pd (getGrant r) t v a sc c))"
    unfolding cache_before_def
  proof
    fix b
    show "case js_get (snd (assertAllowed opts pd (getGrant r) t v a sc c)) b of None \<Rightarrow> True
        | Some e \<Rightarrow> softExpiryMs e \<le> T + cacheSoftTtlMs opts"
      using 3(2,3) by (auto simp: cache_before_def assertAllowed_def Let_def split: option.splits sum.splits)
  qed
  then show ?case using 3(1,3) unfolding scope_run.simps by simp
qed simp_all

section \<open>Properties\<close>

definition demo_grant :: grant where
  "demo_grant = \<lparr>g_agentId = ''a'', g_scopes = [''GET:/x''], g_expiresAt = None, g_revokedAt = Some ''t0''\<rparr>"

definition demo_dates :: "string \<Rightarrow> millis option" where
  "demo_dates s = (if s = ''t0'' then Some 0 else None)"

text \<open>
  C14: a change of a grant takes effect within the soft lifetime of the cache.  Let the
  enforcer run from an empty cache up to \<open>T\<close>, let a grant be set for an agent at \<open>T\<close>, and
  let any checks and any changes for other agents follow.  Then every check of that agent at
  least the soft lifetime after \<open>T\<close> decides by the new grant: it allows the call exactly when
  the new grant is valid for the scope, so a revocation can no longer be outlived.
\<close>

theorem grant_change_effective:
  assumes "\<forall>e\<in>set es0. \<forall>t' v' a' sc'. e = Check t' v' a' sc' \<longrightarrow> t' \<le> T"
    and "scope_run opts pd es0 (r0, []) = (r1, c1)"
    and "\<forall>e\<in>set es. \<forall>g'. e = Set_grant g' \<longrightarrow> g_agentId g' \<noteq> g_agentId g"
    and "scope_run opts pd es (setGrant g r1, c1) = (r2, c2)"
    and "T + cacheSoftTtlMs opts \<le> t"
  shows "fst (assertAllowed opts pd (getGrant r2) t v (g_agentId g) sc c2) = Inr () \<longleftrightarrow>
    validateGrant pd v g sc = Inr ()"
proof -
  have "cache_before opts T (snd (r0, []))" by (simp add: cache_before_def)
  from cache_before_run [OF this assms(1), of pd] assms(2) have "cache_before opts T c1" by simp
  then have "\<forall>e. js_get c1 (g_agentId g) = Some e \<longrightarrow> softExpiryMs e \<le> T + cacheSoftTtlMs opts"
    by (auto simp: cache_before_def split: option.splits)
  from registry.effective_after_soft_ttl [OF this assms(3) _ assms(5)] assms(4) show ?thesis
    by (simp add: registry_run)
qed

theorem grant_change_effective_witness:
  "fst (assertAllowed (enforcerOptions None None) demo_dates (getGrant (setGrant demo_grant [])) 4000 4000 ''a'' ''GET:/x''
     (snd (scope_run (enforcerOptions None None) demo_dates [Check 1000 1000 ''a'' ''GET:/x'']
             (setGrant (demo_grant\<lparr>g_revokedAt := None\<rparr>) [], [])))) \<noteq> Inr ()"
proof -
  let ?o = "enforcerOptions None None"
  let ?s = "scope_run ?o demo_dates [Check 1000 1000 ''a'' ''GET:/x''] (setGrant (demo_grant\<lparr>g_revokedAt := None\<rparr>) [], [])"
  have "scope_run ?o demo_dates [] (setGrant demo_grant (fst ?s), snd ?s) = (setGrant demo_grant [], snd ?s)"
    by (simp add: setGrant_def demo_grant_def js_set_def)
  then show ?thesis
    using grant_change_effective [of "[Check 1000 1000 ''a'' ''GET:/x'']" 1000 ?o demo_dates
        "setGrant (demo_grant\<lparr>g_revokedAt := None\<rparr>) []" "fst ?s" "snd ?s" "[]" demo_grant _ _ 4000 4000 "''GET:/x''"]
    by (simp add: enforcerOptions_def validateGrant_def past_def demo_grant_def demo_dates_def)
qed

text \<open>
  the enforcer fails closed, but loses the reason.  A call is allowed only on a grant that
  the cache or the registry returned and that is valid for the scope at the clock of the
  check; and whenever the check had to ask the registry, every refusal, also one because the
  grant is revoked, expired or lacks the scope, is reported as \<open>registry_unavailable\<close>.
\<close>

theorem scope_check_fails_closed:
  "(fst (assertAllowed opts pd rd t v a sc cache) = Inr () \<longrightarrow>
      (\<exists>g. validateGrant pd v g sc = Inr () \<and> (rd a = Inr g \<or> (\<exists>e. js_get cache a = Some e \<and> ce_grant e = g)))) \<and>
   (\<not> cached_fresh cache a t \<and> fst (assertAllowed opts pd rd t v a sc cache) = Inl err \<longrightarrow> err = Registry_unavailable)"
  by (auto simp: assertAllowed_def cached_fresh_def Let_def split: option.splits sum.splits if_splits)

theorem scope_check_fails_closed_witness:
  "fst (assertAllowed (enforcerOptions None None) demo_dates (getGrant (setGrant demo_grant [])) 5 5 ''a'' ''GET:/x'' [])
     = Inl Registry_unavailable \<and> validateGrant demo_dates 5 demo_grant ''GET:/x'' = Inl Grant_revoked"
proof -
  have v: "validateGrant demo_dates 5 demo_grant ''GET:/x'' = Inl Grant_revoked"
    by (simp add: validateGrant_def past_def demo_grant_def demo_dates_def)
  obtain err where "fst (assertAllowed (enforcerOptions None None) demo_dates (getGrant (setGrant demo_grant [])) 5 5 ''a'' ''GET:/x'' []) = Inl err"
    using v by (auto simp: assertAllowed_def getGrant_def setGrant_def demo_grant_def split: sum.splits)
  with v show ?thesis
    using scope_check_fails_closed [of "enforcerOptions None None" demo_dates "getGrant (setGrant demo_grant [])" 5 5 "''a''" "''GET:/x''" "[]" err]
    by (simp add: cached_fresh_def)
qed

end
