(* ===== verification/ProviderStore.thy ===== *)
theory ProviderStore
  imports Prelude
begin

text \<open>
  Providers and their routes (\<open>backend/src/v3/provider-store.ts\<close>, types of
  \<open>backend/src/v3/types.ts\<close>).  Random ids and the clock are arguments.  A provider record is
  mutated only by the gateway, which saves it at once.

  \<open>pathMatchesPattern\<close> builds a regular expression from the pattern.  The first \<open>replace\<close>
  escapes every special character except the star; the second turns a backslash followed by
  a star into a dot and a star, which after the escaping is a literal dot repeated.  So a star
  stays what it is in a regular expression, a repetition of the character before it, and a
  star with nothing to repeat is a \<open>SyntaxError\<close>.  \<open>compile_pattern\<close> gives the sequence of
  (repeated, character) pairs of that expression.
\<close>

datatype provider_mode = Staging | Production

record provider =
  pr_providerId :: ident
  pr_identity :: string
  pr_payoutAddress :: string
  pr_upstreamBaseUrl :: string
  pr_agreementTerms :: string
  pr_mode :: provider_mode
  pr_payoutVerified :: bool
  pr_payoutChallenge :: "string option"
  pr_createdAt :: millis
  pr_updatedAt :: millis

record registered_route =
  rr_routeId :: ident
  rr_providerId :: ident
  rr_pathPattern :: string
  rr_method :: string
  rr_unit :: string
  rr_price :: amount
  rr_quantityExtractor :: string
  rr_scopeKey :: string
  rr_createdAt :: millis

record register_provider_input =
  ip_identity :: string
  ip_payoutAddress :: string
  ip_upstreamBaseUrl :: string
  ip_agreementTerms :: string
  ip_mode :: provider_mode

record register_route_input =
  ir_providerId :: ident
  ir_pathPattern :: string
  ir_method :: string
  ir_unit :: string
  ir_price :: amount
  ir_quantityExtractor :: string

record provider_store =
  ps_providers :: "(ident, provider) jsmap"
  ps_routes :: "(ident, registered_route) jsmap"

definition empty_providers :: provider_store where
  "empty_providers = \<lparr>ps_providers = [], ps_routes = []\<rparr>"

definition normalizeMethod :: "string \<Rightarrow> string" where
  "normalizeMethod m = toUpperCase (trim m)"

definition buildScopeKey :: "string \<Rightarrow> string \<Rightarrow> string" where
  "buildScopeKey m pathPattern = normalizeMethod m @ '':'' @ pathPattern"

definition registerProvider :: "ident \<Rightarrow> millis \<Rightarrow> register_provider_input \<Rightarrow> provider_store \<Rightarrow> provider \<times> provider_store" where
  "registerProvider uuid now i st =
     (let rec = \<lparr>pr_providerId = uuid, pr_identity = ip_identity i, pr_payoutAddress = ip_payoutAddress i,
                 pr_upstreamBaseUrl = ip_upstreamBaseUrl i, pr_agreementTerms = ip_agreementTerms i,
                 pr_mode = ip_mode i, pr_payoutVerified = False, pr_payoutChallenge = None,
                 pr_createdAt = now, pr_updatedAt = now\<rparr>
      in (rec, st\<lparr>ps_providers := js_set uuid rec (ps_providers st)\<rparr>))"

definition getProvider :: "provider_store \<Rightarrow> ident \<Rightarrow> provider option" where
  "getProvider st i = js_get (ps_providers st) i"

definition saveProvider :: "millis \<Rightarrow> provider \<Rightarrow> provider_store \<Rightarrow> provider_store" where
  "saveProvider now p st =
     st\<lparr>ps_providers := js_set (pr_providerId p) (p\<lparr>pr_updatedAt := now\<rparr>) (ps_providers st)\<rparr>"

definition registerRoute_store :: "ident \<Rightarrow> millis \<Rightarrow> register_route_input \<Rightarrow> provider_store \<Rightarrow> registered_route \<times> provider_store" where
  "registerRoute_store uuid now i st =
     (let rt = \<lparr>rr_routeId = uuid, rr_providerId = ir_providerId i, rr_pathPattern = ir_pathPattern i,
                rr_method = normalizeMethod (ir_method i), rr_unit = ir_unit i, rr_price = ir_price i,
                rr_quantityExtractor = ir_quantityExtractor i,
                rr_scopeKey = buildScopeKey (ir_method i) (ir_pathPattern i), rr_createdAt = now\<rparr>
      in (rt, st\<lparr>ps_routes := js_set uuid rt (ps_routes st)\<rparr>))"

section \<open>Route patterns\<close>

type_synonym regex = "(bool \<times> char) list"

text \<open>One character of the pattern with the star after it, if there is one; a second star is an error.\<close>

fun compile_pattern :: "string \<Rightarrow> regex option" where
  "compile_pattern [] = Some []"
| "compile_pattern [c] = (if c = CHR ''*'' then None else Some [(False, c)])"
| "compile_pattern (c # d # p) =
     (if c = CHR ''*'' then None
      else if d = CHR ''*'' then
        map_option ((#) (True, if c = CHR 0x5C then CHR ''.'' else c)) (compile_pattern p)
      else map_option ((#) (False, c)) (compile_pattern (d # p)))"

function regex_match :: "regex \<Rightarrow> string \<Rightarrow> bool" where
  "regex_match [] s = (s = [])"
| "regex_match ((False, c) # ts) [] = False"
| "regex_match ((False, c) # ts) (d # s) = (c = d \<and> regex_match ts s)"
| "regex_match ((True, c) # ts) [] = regex_match ts []"
| "regex_match ((True, c) # ts) (d # s) = (regex_match ts (d # s) \<or> (c = d \<and> regex_match ((True, c) # ts) s))"
  by pat_completeness auto
termination by (relation "measure (\<lambda>(ts, s). length ts + length s)") auto

text \<open>\<open>None\<close>: constructing the expression throws.\<close>

definition pathMatchesPattern :: "string \<Rightarrow> string \<Rightarrow> bool option" where
  "pathMatchesPattern path pattern = map_option (\<lambda>re. regex_match re path) (compile_pattern pattern)"

fun first_matching :: "string \<Rightarrow> registered_route list \<Rightarrow> registered_route option option" where
  "first_matching path [] = Some None"
| "first_matching path (r # rs) =
     (case pathMatchesPattern path (rr_pathPattern r) of
        None \<Rightarrow> None
      | Some b \<Rightarrow> if b then Some (Some r) else first_matching path rs)"

definition findRoute :: "provider_store \<Rightarrow> ident \<Rightarrow> string \<Rightarrow> string \<Rightarrow> registered_route option option" where
  "findRoute st p m path =
     first_matching path (filter (\<lambda>r. rr_providerId r = p \<and> rr_method r = normalizeMethod m) (js_values (ps_routes st)))"

section \<open>Lemmas\<close>

lemma js_get_saveProvider: "getProvider (saveProvider now p st) i = (if i = pr_providerId p then Some (p\<lparr>pr_updatedAt := now\<rparr>) else getProvider st i)"
  by (simp add: getProvider_def saveProvider_def)

lemma compile_star_free: "CHR ''*'' \<notin> set p \<Longrightarrow> compile_pattern p = Some (map (Pair False) p)"
  by (induction p rule: compile_pattern.induct) auto

lemma regex_match_literal: "regex_match (map (Pair False) p) s \<longleftrightarrow> p = s"
proof (induction p arbitrary: s)
  case (Cons c p)
  then show ?case by (cases s) auto
qed auto

lemma regex_match_append_literal: "regex_match (map (Pair False) p @ ts) s \<longleftrightarrow> (\<exists>u. s = p @ u \<and> regex_match ts u)"
proof (induction p arbitrary: s)
  case (Cons c p)
  then show ?case by (cases s) auto
qed simp

lemma regex_match_star: "regex_match [(True, c)] s \<longleftrightarrow> set s \<subseteq> {c}"
  by (induction s) auto

lemma compile_trailing_star:
  assumes "CHR ''*'' \<notin> set p" "c \<noteq> CHR ''*''" "c \<noteq> CHR 0x5C"
  shows "compile_pattern (p @ [c, CHR ''*'']) = Some (map (Pair False) p @ [(True, c)])"
  using assms by (induction p rule: compile_pattern.induct) auto

lemma first_matching_Some:
  "first_matching path rs = Some (Some r) \<Longrightarrow> r \<in> set rs \<and> pathMatchesPattern path (rr_pathPattern r) = Some True"
  by (induction rs) (auto split: option.splits if_splits)

lemma findRoute_Some:
  "findRoute st p m path = Some (Some r) \<Longrightarrow>
     r \<in> set (js_values (ps_routes st)) \<and> rr_providerId r = p \<and> rr_method r = normalizeMethod m \<and>
     pathMatchesPattern path (rr_pathPattern r) = Some True"
  by (auto simp: findRoute_def dest!: first_matching_Some)

text \<open>Every stored route carries the scope key of its own method and pattern.\<close>

definition routes_keyed :: "provider_store \<Rightarrow> bool" where
  "routes_keyed st \<longleftrightarrow> (\<forall>r\<in>set (js_values (ps_routes st)). rr_scopeKey r = rr_method r @ '':'' @ rr_pathPattern r)"

lemma js_values_set: "set (js_values (js_set k v m)) \<subseteq> insert v (set (js_values m))"
  by (induction m) (auto simp: js_values_def js_set_def)

lemma routes_keyed_empty [simp]: "routes_keyed empty_providers"
  by (simp add: routes_keyed_def empty_providers_def js_values_def)

lemma routes_keyed_register [intro]:
  "routes_keyed st \<Longrightarrow> routes_keyed (snd (registerRoute_store uuid now i st))"
  using js_values_set [of uuid] by (fastforce simp: routes_keyed_def registerRoute_store_def Let_def buildScopeKey_def)

lemma routes_keyed_save [simp]: "routes_keyed (saveProvider now p st) = routes_keyed st"
  by (simp add: routes_keyed_def saveProvider_def)

lemma routes_keyed_provider [simp]: "routes_keyed (snd (registerProvider uuid now i st)) = routes_keyed st"
  by (simp add: routes_keyed_def registerProvider_def Let_def)

section \<open>Properties\<close>

text \<open>
  C15: what a route pattern matches.  A pattern without a star matches its own text and nothing
  else; a star after an ordinary character is not a wildcard: \<open>p c *\<close> matches exactly \<open>p\<close>
  followed by any number of \<open>c\<close>; and a pattern that starts with a star makes the
  construction of the expression throw.
\<close>

theorem route_pattern_language:
  "(CHR ''*'' \<notin> set p \<longrightarrow> pathMatchesPattern path p = Some (path = p)) \<and>
   (CHR ''*'' \<notin> set p \<and> c \<noteq> CHR ''*'' \<and> c \<noteq> CHR 0x5C \<longrightarrow>
      pathMatchesPattern path (p @ [c, CHR ''*'']) = Some (\<exists>u. path = p @ u \<and> set u \<subseteq> {c})) \<and>
   pathMatchesPattern path (CHR ''*'' # p) = None"
proof (intro conjI impI)
  show "pathMatchesPattern path p = Some (path = p)" if "CHR ''*'' \<notin> set p"
    using that by (auto simp: pathMatchesPattern_def compile_star_free regex_match_literal)
  show "pathMatchesPattern path (p @ [c, CHR ''*'']) = Some (\<exists>u. path = p @ u \<and> set u \<subseteq> {c})"
    if "CHR ''*'' \<notin> set p \<and> c \<noteq> CHR ''*'' \<and> c \<noteq> CHR 0x5C"
    using that by (simp add: pathMatchesPattern_def compile_trailing_star regex_match_append_literal regex_match_star)
  show "pathMatchesPattern path (CHR ''*'' # p) = None"
    by (cases p) (simp_all add: pathMatchesPattern_def)
qed

theorem route_pattern_language_witness:
  "pathMatchesPattern ''/v1/chat'' ''/v1/*'' = Some False \<and> pathMatchesPattern ''/v1'' ''/v1/*'' = Some True \<and>
   pathMatchesPattern ''/v1/chat'' ''/v1/chat'' = Some True"
  using route_pattern_language [of "''/v1''" "''/v1/chat''" "CHR ''/''"] route_pattern_language [of "''/v1''" "''/v1''" "CHR ''/''"]
    route_pattern_language [of "''/v1/chat''" "''/v1/chat''"]
  by simp

end
