(* ===== verification/Json.thy ===== *)
theory Json
  imports Prelude "HOL-Library.Multiset"
begin

text \<open>
  JSON values and their canonical text.  Three files build a canonical text of an object
  before they sign or hash it: \<open>stableStringify\<close> (\<open>backend/src/v3/receipt-service.ts\<close>),
  \<open>canonicalize\<close> followed by \<open>JSON.stringify\<close> (\<open>backend/src/services/audit-chain.ts\<close>) and
  \<open>canonicalizeJson\<close> (\<open>sdk/src/v3/paid-fetch.ts\<close>).  They differ in the order of the keys and in
  whether they sort a copy or sort while printing; here both are related to one
  normal form.

  Objects are association lists in insertion order with keys that are not array indices; the
  text of a number is an argument (\<open>num\<close>), strings are quoted as \<open>JSON.stringify\<close> does for
  8-bit characters.
\<close>

datatype json = JNull | JBool bool | JNum amount | JStr string | JArr "json list" | JObj "(string \<times> json) list"

section \<open>Sorting with a given order\<close>

fun insert_by :: "('a \<Rightarrow> 'a \<Rightarrow> bool) \<Rightarrow> 'a \<times> 'b \<Rightarrow> ('a \<times> 'b) list \<Rightarrow> ('a \<times> 'b) list" where
  "insert_by le x [] = [x]"
| "insert_by le x (y # ys) = (if le (fst x) (fst y) then x # y # ys else y # insert_by le x ys)"

fun sort_by :: "('a \<Rightarrow> 'a \<Rightarrow> bool) \<Rightarrow> ('a \<times> 'b) list \<Rightarrow> ('a \<times> 'b) list" where
  "sort_by le [] = []"
| "sort_by le (x # xs) = insert_by le x (sort_by le xs)"

definition total_order :: "('a \<Rightarrow> 'a \<Rightarrow> bool) \<Rightarrow> bool" where
  "total_order le \<longleftrightarrow> (\<forall>x y. le x y \<or> le y x) \<and> (\<forall>x y. le x y \<and> le y x \<longrightarrow> x = y) \<and>
     (\<forall>x y z. le x y \<and> le y z \<longrightarrow> le x z)"

lemma mset_insert_by [simp]: "mset (insert_by le x ys) = add_mset x (mset ys)"
  by (induction ys) auto

lemma mset_sort_by [simp]: "mset (sort_by le xs) = mset xs"
  by (induction xs) auto

lemma set_sort_by [simp]: "set (sort_by le xs) = set xs"
  by (rule mset_eq_setD) simp

abbreviation sorted_by :: "('a \<Rightarrow> 'a \<Rightarrow> bool) \<Rightarrow> ('a \<times> 'b) list \<Rightarrow> bool" where
  "sorted_by le xs \<equiv> sorted_wrt (\<lambda>x y. le (fst x) (fst y)) xs"

lemma set_insert_by [simp]: "set (insert_by le x ys) = insert x (set ys)"
  by (induction ys) auto

lemma total_orderD:
  assumes "total_order le"
  shows "le x y \<or> le y x" "le x y \<Longrightarrow> le y x \<Longrightarrow> x = y" "le x y \<Longrightarrow> le y z \<Longrightarrow> le x z"
  using assms unfolding total_order_def by blast+

lemma sorted_insert_by:
  assumes t: "total_order le"
  shows "sorted_by le ys \<Longrightarrow> sorted_by le (insert_by le x ys)"
proof (induction ys)
  case (Cons y ys)
  show ?case
  proof (cases "le (fst x) (fst y)")
    case True
    then have "\<forall>z\<in>set ys. le (fst x) (fst z)"
      using Cons.prems total_orderD(3) [OF t] by fastforce
    with True Cons.prems show ?thesis by simp
  next
    case False
    then have "le (fst y) (fst x)" using total_orderD(1) [OF t] by blast
    with False Cons show ?thesis by simp
  qed
qed simp

lemma sorted_sort_by: "total_order le \<Longrightarrow> sorted_by le (sort_by le xs)"
  by (induction xs) (simp_all add: sorted_insert_by)

lemma sort_by_sorted: "sorted_by le xs \<Longrightarrow> sort_by le xs = xs"
proof (induction xs)
  case (Cons x xs)
  then show ?case by (cases xs) auto
qed simp

lemma sort_by_idem: "total_order le \<Longrightarrow> sort_by le (sort_by le xs) = sort_by le xs"
  by (simp add: sort_by_sorted sorted_sort_by)

lemma map_insert_by: "(\<And>p. fst (f p) = fst p) \<Longrightarrow> map f (insert_by le x ys) = insert_by le (f x) (map f ys)"
  by (induction ys) auto

lemma map_sort_by: "(\<And>p. fst (f p) = fst p) \<Longrightarrow> map f (sort_by le xs) = sort_by le (map f xs)"
  by (induction xs) (auto simp: map_insert_by)

text \<open>Two sorted lists with the same elements and distinct keys are equal.\<close>

lemma sorted_by_unique:
  assumes t: "total_order le"
  shows "sorted_by le xs \<Longrightarrow> sorted_by le ys \<Longrightarrow> mset xs = mset ys \<Longrightarrow> distinct (map fst xs) \<Longrightarrow> xs = ys"
proof (induction xs arbitrary: ys)
  case (Cons x xs)
  from Cons.prems(3) obtain y ys' where ys: "ys = y # ys'"
    by (cases ys) auto
  have m: "set (x # xs) = set ys" using Cons.prems(3) by (rule mset_eq_setD)
  have xin: "x \<in> set ys" and yin: "y \<in> set (x # xs)"
    unfolding m [symmetric] by simp (simp only: m ys list.set_intros)
  have "x = y"
  proof (rule ccontr)
    assume "x \<noteq> y"
    with xin yin ys have "y \<in> set xs" "x \<in> set ys'" by auto
    with Cons.prems(1,2) ys have "le (fst x) (fst y)" "le (fst y) (fst x)" by auto
    then have "fst x = fst y" by (rule total_orderD(2) [OF t])
    with \<open>y \<in> set xs\<close> have "fst x \<in> fst ` set xs" by (simp add: image_iff) blast
    with Cons.prems(4) show False by simp
  qed
  with Cons ys show ?case by auto
qed auto

lemma sort_by_perm:
  assumes t: "total_order le" and m: "mset xs = mset ys" and d: "distinct (map fst xs)"
  shows "sort_by le xs = sort_by le ys"
proof (rule sorted_by_unique [OF t])
  show "sorted_by le (sort_by le xs)" "sorted_by le (sort_by le ys)"
    using t by (auto intro: sorted_sort_by)
  show "mset (sort_by le xs) = mset (sort_by le ys)" using m by simp
  have "mset (map fst (sort_by le xs)) = mset (map fst xs)" by (simp add: mset_map)
  then show "distinct (map fst (sort_by le xs))"
    using d mset_eq_imp_distinct_iff by blast
qed

text \<open>\<open>Array.prototype.sort\<close> without a comparator orders strings by their code units.\<close>

fun code_unit_le :: "string \<Rightarrow> string \<Rightarrow> bool" where
  "code_unit_le [] t = True"
| "code_unit_le (a # s) [] = False"
| "code_unit_le (a # s) (b # t) = (code a < code b \<or> (a = b \<and> code_unit_le s t))"

lemma code_unit_total: "total_order code_unit_le"
proof -
  have "code_unit_le x y \<or> code_unit_le y x" for x y
    by (induction x y rule: code_unit_le.induct) (auto simp: not_less le_less)
  moreover have "code_unit_le x y \<Longrightarrow> code_unit_le y x \<Longrightarrow> x = y" for x y
  proof (induction x y rule: code_unit_le.induct)
    case (1 t)
    then show ?case by (cases t) auto
  qed auto
  moreover have "code_unit_le x y \<Longrightarrow> code_unit_le y z \<Longrightarrow> code_unit_le x z" for x y z
  proof (induction x y arbitrary: z rule: code_unit_le.induct)
    case (3 a s b t)
    then show ?case by (cases z) auto
  qed auto
  ultimately show ?thesis unfolding total_order_def by blast
qed

section \<open>Text of a JSON value\<close>

definition hex_digit :: "nat \<Rightarrow> char" where
  "hex_digit n = (if n < 10 then char_of (48 + n) else char_of (87 + n))"

definition quote_char :: "char \<Rightarrow> string" where
  "quote_char c =
     (let n = code c in
      if n = 34 then [char_of (92::nat), char_of (34::nat)]
      else if n = 92 then [char_of (92::nat), char_of (92::nat)]
      else if n = 8 then [char_of (92::nat), CHR ''b'']
      else if n = 9 then [char_of (92::nat), CHR ''t'']
      else if n = 10 then [char_of (92::nat), CHR ''n'']
      else if n = 12 then [char_of (92::nat), CHR ''f'']
      else if n = 13 then [char_of (92::nat), CHR ''r'']
      else if n < 32 then [char_of (92::nat), CHR ''u'', CHR ''0'', CHR ''0'', hex_digit (n div 16), hex_digit (n mod 16)]
      else [c])"

definition quote :: "string \<Rightarrow> string" where
  "quote s = [CHR 0x22] @ concat (map quote_char s) @ [CHR 0x22]"

fun join :: "string \<Rightarrow> string list \<Rightarrow> string" where
  "join sep [] = []"
| "join sep [x] = x"
| "join sep (x # y # xs) = x @ sep @ join sep (y # xs)"

definition field_text :: "string \<times> string \<Rightarrow> string" where
  "field_text p = quote (fst p) @ '':'' @ snd p"

text \<open>\<open>JSON.stringify\<close>: the fields of an object in insertion order.\<close>

fun json_stringify :: "(amount \<Rightarrow> string) \<Rightarrow> json \<Rightarrow> string" where
  "json_stringify num JNull = ''null''"
| "json_stringify num (JBool b) = (if b then ''true'' else ''false'')"
| "json_stringify num (JNum n) = num n"
| "json_stringify num (JStr s) = quote s"
| "json_stringify num (JArr xs) = ''['' @ join '','' (map (json_stringify num) xs) @ '']''"
| "json_stringify num (JObj kvs) =
     ''{'' @ join '','' (map field_text (map (\<lambda>(k, v). (k, json_stringify num v)) kvs)) @ ''}''"

text \<open>Sorting while printing (\<open>stableStringify\<close> with its key order, \<open>canonicalizeJson\<close>).\<close>

fun stableStringify :: "(string \<Rightarrow> string \<Rightarrow> bool) \<Rightarrow> (amount \<Rightarrow> string) \<Rightarrow> json \<Rightarrow> string" where
  "stableStringify le num (JArr xs) = ''['' @ join '','' (map (stableStringify le num) xs) @ '']''"
| "stableStringify le num (JObj kvs) =
     ''{'' @ join '','' (map field_text (sort_by le (map (\<lambda>(k, v). (k, stableStringify le num v)) kvs))) @ ''}''"
| "stableStringify le num v = json_stringify num v"

text \<open>Sorting a copy (\<open>canonicalize\<close>).\<close>

fun canonicalize :: "(string \<Rightarrow> string \<Rightarrow> bool) \<Rightarrow> json \<Rightarrow> json" where
  "canonicalize le (JArr xs) = JArr (map (canonicalize le) xs)"
| "canonicalize le (JObj kvs) = JObj (sort_by le (map (\<lambda>(k, v). (k, canonicalize le v)) kvs))"
| "canonicalize le v = v"

lemma stable_is_canonical: "stableStringify le num v = json_stringify num (canonicalize le v)"
proof (induction le num v rule: stableStringify.induct)
  case (2 le num kvs)
  have e: "map (\<lambda>(k, v). (k, stableStringify le num v)) kvs =
      map (\<lambda>(k, v). (k, json_stringify num v)) (map (\<lambda>(k, v). (k, canonicalize le v)) kvs)"
    using 2 by auto
  have "map (\<lambda>(k, v). (k, json_stringify num v)) (sort_by le xs) =
      sort_by le (map (\<lambda>(k, v). (k, json_stringify num v)) xs)" for xs
    by (rule map_sort_by) auto
  then show ?case
    by (simp only: stableStringify.simps canonicalize.simps json_stringify.simps e)
qed (auto cong: map_cong)

lemma canonicalize_idem: "total_order le \<Longrightarrow> canonicalize le (canonicalize le v) = canonicalize le v"
proof (induction le v rule: canonicalize.induct)
  case (2 le kvs)
  let ?c = "\<lambda>(k, v). (k, canonicalize le v)"
  have "\<forall>(k, v) \<in> set kvs. canonicalize le (canonicalize le v) = canonicalize le v"
    using 2 by blast
  then have "map ?c (map ?c kvs) = map ?c kvs" by auto
  moreover have "map ?c (sort_by le xs) = sort_by le (map ?c xs)" for xs
    by (rule map_sort_by) auto
  ultimately have "map ?c (sort_by le (map ?c kvs)) = sort_by le (map ?c kvs)"
    by (simp only:)
  then show ?case using 2(2) by (simp only: canonicalize.simps sort_by_idem)
qed (auto cong: map_cong)

text \<open>The canonical text does not depend on the order in which an object's keys were inserted.\<close>

lemma canonicalize_perm:
  assumes "total_order le" "mset kvs = mset kvs'" "distinct (map fst kvs)"
  shows "canonicalize le (JObj kvs) = canonicalize le (JObj kvs')"
proof -
  let ?c = "\<lambda>(k, v). (k, canonicalize le v)"
  have "map fst (map ?c kvs) = map fst kvs" by auto
  then have "sort_by le (map ?c kvs) = sort_by le (map ?c kvs')"
    using assms by (intro sort_by_perm) (simp_all only: mset_map)
  then show ?thesis by (simp only: canonicalize.simps)
qed

end
