(* ===== verification/Receipts.thy ===== *)
theory Receipts
  imports Json
begin

text \<open>
  Receipts of paid calls (\<open>backend/src/v3/receipt-service.ts\<close>).  SHA-256, the Ed25519
  signature with the service's key, the collation of \<open>localeCompare\<close>, the text of a number
  and of a date are the fields of \<open>receipt_env\<close>; the base64url encoding is written out.  The
  request query is a list of members, in the order the request has them.
\<close>

record receipt_env =
  re_sha256 :: "string \<Rightarrow> string"
  re_sign :: "string \<Rightarrow> string"
  re_publicKeyPem :: string
  re_collate :: "string \<Rightarrow> string \<Rightarrow> bool"
  re_number :: "amount \<Rightarrow> string"
  re_iso :: "millis \<Rightarrow> string"

record issue_input =
  ii_receiptId :: ident
  ii_route :: string
  ii_unit :: string
  ii_quantity :: amount
  ii_amount :: amount
  ii_rateCardVersion :: string
  ii_exchangeRate :: "amount option"
  ii_channelId :: ident
  ii_stateNonce :: int
  ii_requestMethod :: string
  ii_requestPath :: string
  ii_requestQuery :: "(string \<times> json) list"

record receipt_payload =
  pp_receiptId :: ident
  pp_requestHash :: string
  pp_route :: string
  pp_unit :: string
  pp_quantity :: amount
  pp_amount :: amount
  pp_rateCardVersion :: string
  pp_exchangeRate :: "amount option"
  pp_channelId :: ident
  pp_stateNonce :: int
  pp_timestamp :: string
  pp_signerPublicKey :: string

record paid_receipt = receipt_payload +
  pp_signature :: string

type_synonym receipt_book = "(ident, paid_receipt) jsmap"

definition receiptRequestHash :: "receipt_env \<Rightarrow> string \<Rightarrow> string \<Rightarrow> (string \<times> json) list \<Rightarrow> string" where
  "receiptRequestHash env m path query =
     re_sha256 env (stableStringify (re_collate env) (re_number env)
       (JObj [(''method'', JStr (toUpperCase m)), (''path'', JStr path), (''query'', JObj query)]))"

definition payload_fields :: "'a receipt_payload_scheme \<Rightarrow> (string \<times> json) list" where
  "payload_fields p =
     [(''receiptId'', JStr (pp_receiptId p)), (''requestHash'', JStr (pp_requestHash p)),
      (''route'', JStr (pp_route p)), (''unit'', JStr (pp_unit p)),
      (''quantity'', JNum (pp_quantity p)), (''amount'', JNum (pp_amount p)),
      (''rateCardVersion'', JStr (pp_rateCardVersion p)),
      (''exchangeRate'', (case pp_exchangeRate p of None \<Rightarrow> JNull | Some x \<Rightarrow> JNum x)),
      (''channelId'', JStr (pp_channelId p)), (''stateNonce'', JNum (of_int (pp_stateNonce p))),
      (''timestamp'', JStr (pp_timestamp p)), (''signerPublicKey'', JStr (pp_signerPublicKey p))]"

definition payloadMessage :: "receipt_env \<Rightarrow> 'a receipt_payload_scheme \<Rightarrow> string" where
  "payloadMessage env p = stableStringify (re_collate env) (re_number env) (JObj (payload_fields p))"

definition issueReceipt :: "receipt_env \<Rightarrow> millis \<Rightarrow> issue_input \<Rightarrow> receipt_book \<Rightarrow> paid_receipt \<times> receipt_book" where
  "issueReceipt env now i book =
     (let p = \<lparr>pp_receiptId = ii_receiptId i,
               pp_requestHash = receiptRequestHash env (ii_requestMethod i) (ii_requestPath i) (ii_requestQuery i),
               pp_route = ii_route i, pp_unit = ii_unit i, pp_quantity = ii_quantity i, pp_amount = ii_amount i,
               pp_rateCardVersion = ii_rateCardVersion i, pp_exchangeRate = ii_exchangeRate i,
               pp_channelId = ii_channelId i, pp_stateNonce = ii_stateNonce i,
               pp_timestamp = re_iso env now, pp_signerPublicKey = re_publicKeyPem env\<rparr> :: receipt_payload;
          r = receipt_payload.extend p \<lparr>pp_signature = re_sign env (payloadMessage env p)\<rparr>
      in (r, js_set (pp_receiptId r) r book))"

definition getReceipt :: "receipt_book \<Rightarrow> ident \<Rightarrow> paid_receipt option" where
  "getReceipt book i = js_get book i"

section \<open>The inline header\<close>

definition b64url_digit :: "nat \<Rightarrow> char" where
  "b64url_digit n =
     (if n < 26 then char_of (65 + n) else if n < 52 then char_of (71 + n)
      else if n < 62 then char_of (n - 4) else if n = 62 then CHR ''-'' else CHR ''_'')"

fun base64url :: "nat list \<Rightarrow> string" where
  "base64url (a # b # c # bs) =
     [b64url_digit (a div 4), b64url_digit (a mod 4 * 16 + b div 16),
      b64url_digit (b mod 16 * 4 + c div 64), b64url_digit (c mod 64)] @ base64url bs"
| "base64url [a, b] = [b64url_digit (a div 4), b64url_digit (a mod 4 * 16 + b div 16), b64url_digit (b mod 16 * 4)]"
| "base64url [a] = [b64url_digit (a div 4), b64url_digit (a mod 4 * 16)]"
| "base64url [] = []"

definition encodeHeaderValue :: "receipt_env \<Rightarrow> paid_receipt \<Rightarrow> string" where
  "encodeHeaderValue env r =
     base64url (map code (json_stringify (re_number env) (JObj (payload_fields r @ [(''signature'', JStr (pp_signature r))]))))"

definition headerFitsInline :: "receipt_env \<Rightarrow> paid_receipt \<Rightarrow> nat \<Rightarrow> bool" where
  "headerFitsInline env r maxBytes \<longleftrightarrow> length (encodeHeaderValue env r) \<le> maxBytes"

section \<open>Lemmas\<close>

lemma length_base64url: "length (base64url bs) = (4 * length bs + 2) div 3"
  by (induction bs rule: base64url.induct) auto

lemma header_fits: "headerFitsInline env r 1024 \<longleftrightarrow>
    length (json_stringify (re_number env) (JObj (payload_fields r @ [(''signature'', JStr (pp_signature r))]))) \<le> 768"
  by (auto simp: headerFitsInline_def encodeHeaderValue_def length_base64url)

lemma b64url_digit_code: "n < 64 \<Longrightarrow> code (b64url_digit n) =
    (if n < 26 then 65 + n else if n < 52 then 71 + n else if n < 62 then n - 4 else if n = 62 then 45 else 95)"
  by (simp add: b64url_digit_def) (simp add: code_def)

lemma b64url_digit_inj: "m < 64 \<Longrightarrow> n < 64 \<Longrightarrow> b64url_digit m = b64url_digit n \<longleftrightarrow> m = n"
proof
  assume a: "m < 64" "n < 64" "b64url_digit m = b64url_digit n"
  then have "code (b64url_digit m) = code (b64url_digit n)" by simp
  with a(1,2) show "m = n" by (auto simp: b64url_digit_code split: if_splits)
qed simp

text \<open>The header value determines the bytes it encodes.\<close>

lemma mixed_radix:
  assumes "x < k" "x' < k" "p * k + x = p' * k + x'"
  shows "p = p' \<and> x = (x'::nat)"
proof -
  have "(p * k + x) div k = p" "(p' * k + x') div k = p'" using assms(1,2) by simp_all
  then have "p = p'" using assms(3) by metis
  then show ?thesis using assms(3) by simp
qed

lemma div_mod_eq: "c div k = c' div k \<Longrightarrow> c mod k = c' mod k \<Longrightarrow> c = (c'::nat)"
  by (metis div_mult_mod_eq)

lemma div_lt: "a < 256 \<Longrightarrow> a div 16 < (16::nat)" "a < 256 \<Longrightarrow> a div 64 < (4::nat)" "a < 256 \<Longrightarrow> a div 4 < (64::nat)"
  by auto

lemma pack_lt: "x < 16 \<Longrightarrow> a mod 4 * 16 + x < (64::nat)" "x < 4 \<Longrightarrow> b mod 16 * 4 + x < (64::nat)"
proof -
  show "a mod 4 * 16 + x < 64" if "x < 16" for x
    using that mod_less_divisor [of 4 a] by linarith
  show "b mod 16 * 4 + x < 64" if "x < 4" for x
    using that mod_less_divisor [of 16 b] by linarith
qed

lemma pack_inj:
  "x < 16 \<Longrightarrow> x' < 16 \<Longrightarrow> b64url_digit (a mod 4 * 16 + x) = b64url_digit (a' mod 4 * 16 + x') \<Longrightarrow> a mod 4 = a' mod 4 \<and> x = x'"
  "y < 4 \<Longrightarrow> y' < 4 \<Longrightarrow> b64url_digit (b mod 16 * 4 + y) = b64url_digit (b' mod 16 * 4 + y') \<Longrightarrow> b mod 16 = b' mod 16 \<and> y = y'"
  using b64url_digit_inj [OF pack_lt(1) pack_lt(1)] b64url_digit_inj [OF pack_lt(2) pack_lt(2)]
    mixed_radix [of x 16 x' "a mod 4" "a' mod 4"] mixed_radix [of y 4 y' "b mod 16" "b' mod 16"]
  by blast+

lemma base64url_inj:
  "base64url bs = base64url cs \<Longrightarrow> \<forall>b\<in>set bs. b < 256 \<Longrightarrow> \<forall>c\<in>set cs. c < 256 \<Longrightarrow> bs = cs"
proof (induction bs arbitrary: cs rule: base64url.induct)
  case (1 a b c bs)
  then obtain a' b' c' cs' where cs: "cs = a' # b' # c' # cs'"
    by (cases cs rule: base64url.cases) auto
  have bd: "a < 256" "b < 256" "c < 256" "a' < 256" "b' < 256" "c' < 256"
    using "1.prems"(2,3) by (simp_all add: cs)
  have q: "b64url_digit (a div 4) = b64url_digit (a' div 4)"
    "b64url_digit (a mod 4 * 16 + b div 16) = b64url_digit (a' mod 4 * 16 + b' div 16)"
    "b64url_digit (b mod 16 * 4 + c div 64) = b64url_digit (b' mod 16 * 4 + c' div 64)"
    "b64url_digit (c mod 64) = b64url_digit (c' mod 64)" "base64url bs = base64url cs'"
    using "1.prems"(1) by (simp_all add: cs)
  have "a div 4 = a' div 4" using q(1) b64url_digit_inj [OF div_lt(3) div_lt(3)] bd by blast
  moreover have "a mod 4 = a' mod 4 \<and> b div 16 = b' div 16" using pack_inj(1) [OF div_lt(1) div_lt(1) q(2)] bd by blast
  moreover have "b mod 16 = b' mod 16 \<and> c div 64 = c' div 64" using pack_inj(2) [OF div_lt(2) div_lt(2) q(3)] bd by blast
  moreover have "c mod 64 = c' mod 64" using q(4) b64url_digit_inj [of "c mod 64" "c' mod 64"] by simp
  ultimately have "a = a'" "b = b'" "c = c'" by (blast intro: div_mod_eq)+
  moreover have "bs = cs'" using q(5) "1.prems"(2,3) by (intro "1.IH") (simp_all add: cs)
  ultimately show ?case by (simp add: cs)
next
  case (2 a b)
  then obtain a' b' where cs: "cs = [a', b']"
    by (cases cs rule: base64url.cases) (auto dest: arg_cong [where f = length])
  have bd: "a < 256" "b < 256" "a' < 256" "b' < 256" using "2.prems"(2,3) by (simp_all add: cs)
  have q: "b64url_digit (a div 4) = b64url_digit (a' div 4)"
    "b64url_digit (a mod 4 * 16 + b div 16) = b64url_digit (a' mod 4 * 16 + b' div 16)"
    "b64url_digit (b mod 16 * 4 + 0) = b64url_digit (b' mod 16 * 4 + 0)"
    using "2.prems"(1) by (simp_all add: cs)
  have "a div 4 = a' div 4" using q(1) b64url_digit_inj [OF div_lt(3) div_lt(3)] bd by blast
  moreover have "a mod 4 = a' mod 4 \<and> b div 16 = b' div 16" using pack_inj(1) [OF div_lt(1) div_lt(1) q(2)] bd by blast
  moreover have "b mod 16 = b' mod 16" using pack_inj(2) [OF _ _ q(3)] by simp
  ultimately have "a = a'" "b = b'" by (blast intro: div_mod_eq)+
  then show ?case by (simp add: cs)
next
  case (3 a)
  then obtain a' where cs: "cs = [a']"
    by (cases cs rule: base64url.cases) (auto dest: arg_cong [where f = length])
  have bd: "a < 256" "a' < 256" using "3.prems"(2,3) by (simp_all add: cs)
  have q: "b64url_digit (a div 4) = b64url_digit (a' div 4)"
    "b64url_digit (a mod 4 * 16 + 0) = b64url_digit (a' mod 4 * 16 + 0)"
    using "3.prems"(1) by (simp_all add: cs)
  have "a div 4 = a' div 4" using q(1) b64url_digit_inj [OF div_lt(3) div_lt(3)] bd by blast
  moreover have "a mod 4 = a' mod 4" using pack_inj(1) [OF _ _ q(2)] by simp
  ultimately have "a = a'" by (blast intro: div_mod_eq)
  then show ?case by (simp add: cs)
next
  case 4
  then show ?case by (cases cs rule: base64url.cases) auto
qed

text \<open>The hash of a request does not depend on the case of the method or the order of the query.\<close>

lemma canonicalize_obj_cong:
  "map (\<lambda>(k, v). (k, canonicalize le v)) xs = map (\<lambda>(k, v). (k, canonicalize le v)) ys \<Longrightarrow>
     canonicalize le (JObj xs) = canonicalize le (JObj ys)"
  by (simp only: canonicalize.simps)

lemma receiptRequestHash_cong:
  assumes "total_order (re_collate env)" "toUpperCase m = toUpperCase m'" "mset q = mset q'" "distinct (map fst q)"
  shows "receiptRequestHash env m path q = receiptRequestHash env m' path q'"
proof -
  have "canonicalize (re_collate env) (JObj q) = canonicalize (re_collate env) (JObj q')"
    using assms by (intro canonicalize_perm)
  then have "canonicalize (re_collate env) (JObj [(''method'', JStr (toUpperCase m)), (''path'', JStr path), (''query'', JObj q)]) =
     canonicalize (re_collate env) (JObj [(''method'', JStr (toUpperCase m')), (''path'', JStr path), (''query'', JObj q')])"
    using assms(2) by (intro canonicalize_obj_cong) simp
  then show ?thesis by (simp only: receiptRequestHash_def stable_is_canonical)
qed

lemma issue_get: "issueReceipt env now i book = (r, book') \<Longrightarrow>
    getReceipt book' (ii_receiptId i) = Some r \<and> pp_receiptId r = ii_receiptId i \<and>
    pp_route r = ii_route i \<and> pp_amount r = ii_amount i \<and> pp_quantity r = ii_quantity i \<and>
    pp_channelId r = ii_channelId i \<and> pp_stateNonce r = ii_stateNonce i \<and>
    pp_requestHash r = receiptRequestHash env (ii_requestMethod i) (ii_requestPath i) (ii_requestQuery i)"
  by (auto simp: issueReceipt_def getReceipt_def Let_def receipt_payload.defs)

lemma payloadMessage_extend [simp]:
  "payloadMessage env (receipt_payload.extend p x) = payloadMessage env p"
  by (simp add: payloadMessage_def payload_fields_def receipt_payload.defs)

lemma issue_signed: "issueReceipt env now i book = (r, book') \<Longrightarrow> pp_signature r = re_sign env (payloadMessage env r)"
  by (auto simp: issueReceipt_def Let_def) (simp add: receipt_payload.defs)

section \<open>Properties\<close>

definition demo_receipt_env :: receipt_env where
  "demo_receipt_env = \<lparr>re_sha256 = (\<lambda>s. s), re_sign = (\<lambda>s. s), re_publicKeyPem = ''pk'', re_collate = code_unit_le,
     re_number = (\<lambda>n. show_int \<lfloor>n\<rfloor>), re_iso = show_int\<rparr>"

text \<open>
  the request hash identifies the request and not its spelling.  If the collation is a
  total order, two requests with the same path, the same method up to case and the same
  query members in any order have the same hash, hence receipts issued for them carry the same
  hash.
\<close>

theorem receipt_hash_order_independent:
  assumes "total_order (re_collate env)" "distinct (map fst (ii_requestQuery i))"
    and "toUpperCase (ii_requestMethod j) = toUpperCase (ii_requestMethod i)"
    and "ii_requestPath j = ii_requestPath i" "mset (ii_requestQuery j) = mset (ii_requestQuery i)"
  shows "pp_requestHash (fst (issueReceipt env now i book)) = pp_requestHash (fst (issueReceipt env now' j book'))"
proof -
  have h: "pp_requestHash (fst (issueReceipt env t k b)) =
      receiptRequestHash env (ii_requestMethod k) (ii_requestPath k) (ii_requestQuery k)" for t k b
    using issue_get [of env t k b "fst (issueReceipt env t k b)" "snd (issueReceipt env t k b)"] by simp
  show ?thesis
    unfolding h assms(4)
    by (rule receiptRequestHash_cong [OF assms(1) _ _ assms(2)]) (simp_all add: assms)
qed

definition demo_input :: issue_input where
  "demo_input = \<lparr>ii_receiptId = ''r'', ii_route = ''GET:/x'', ii_unit = ''request'', ii_quantity = 1, ii_amount = 3,
     ii_rateCardVersion = ''v1'', ii_exchangeRate = None, ii_channelId = ''ch'', ii_stateNonce = 1,
     ii_requestMethod = ''get'', ii_requestPath = ''/x'', ii_requestQuery = [(''b'', JStr ''1''), (''a'', JNull)]\<rparr>"

theorem receipt_hash_order_independent_witness:
  "pp_requestHash (fst (issueReceipt demo_receipt_env 0 demo_input [])) =
   pp_requestHash (fst (issueReceipt demo_receipt_env 7
      (demo_input\<lparr>ii_requestMethod := ''GET'', ii_requestQuery := [(''a'', JNull), (''b'', JStr ''1'')]\<rparr>) []))"
proof (rule receipt_hash_order_independent)
  show "toUpperCase (ii_requestMethod (demo_input\<lparr>ii_requestMethod := ''GET'', ii_requestQuery := [(''a'', JNull), (''b'', JStr ''1'')]\<rparr>)) =
      toUpperCase (ii_requestMethod demo_input)"
    by code_simp
qed (simp_all add: demo_receipt_env_def code_unit_total demo_input_def add_mset_commute)

definition receipt_text :: "receipt_env \<Rightarrow> paid_receipt \<Rightarrow> string" where
  "receipt_text env r = json_stringify (re_number env) (JObj (payload_fields r @ [(''signature'', JStr (pp_signature r))]))"

text \<open>
  the inline receipt header.  The header is sent exactly when the JSON text of the receipt
  has at most 768 characters, and two receipts with the same header have the same JSON text:
  the base64url encoding loses nothing.
\<close>

theorem inline_header_faithful:
  "(headerFitsInline env r 1024 \<longleftrightarrow> length (receipt_text env r) \<le> 768) \<and>
   (encodeHeaderValue env r = encodeHeaderValue env r' \<longrightarrow> receipt_text env r = receipt_text env r')"
proof (intro conjI impI)
  show "headerFitsInline env r 1024 \<longleftrightarrow> length (receipt_text env r) \<le> 768"
    by (simp add: header_fits receipt_text_def)
  assume "encodeHeaderValue env r = encodeHeaderValue env r'"
  then have "map code (receipt_text env r) = map code (receipt_text env r')"
    by (intro base64url_inj) (simp_all add: encodeHeaderValue_def receipt_text_def)
  then show "receipt_text env r = receipt_text env r'"
    by (rule map_injective) (simp add: inj_def)
qed

theorem inline_header_faithful_witness:
  "headerFitsInline demo_receipt_env (fst (issueReceipt demo_receipt_env 0 demo_input [])) 1024 \<longleftrightarrow>
     length (receipt_text demo_receipt_env (fst (issueReceipt demo_receipt_env 0 demo_input []))) \<le> 768"
  using inline_header_faithful [of demo_receipt_env "fst (issueReceipt demo_receipt_env 0 demo_input [])"] by blast

end
