(* ===== verification/V3Gateway.thy ===== *)
theory V3Gateway
  imports ScopeEnforcer ProviderStore Receipts
begin

text \<open>
  The provider marketplace gateway (\<open>backend/src/v3/gateway-service.ts\<close>): payout verification,
  route registration and paid calls, over the provider store, the scope enforcer with the
  in-memory registry, and the receipt service.  The verification of a Stellar key's signature
  and the upstream call are fields of \<open>v3_env\<close>; both may throw.  A paid call also returns
  the upstream calls it made, so that the theorems can speak of calls that were not made.
\<close>

datatype v3_error =
    Provider_not_found
  | Challenge_not_created
  | Key_error
  | Invalid_payout_signature
  | Payout_unverified_for_route
  | Payout_unverified_for_call
  | Requires_mainnet
  | Pattern_error
  | Route_not_registered
  | Scope_rejected rejection_code
  | Upstream_failed string

record upstream_args =
  ua_baseUrl :: string
  ua_method :: string
  ua_path :: string
  ua_body :: json

record upstream_result =
  ur_status :: nat
  ur_body :: json

record paid_call_input =
  pc_providerId :: ident
  pc_method :: string
  pc_path :: string
  pc_body :: json
  pc_query :: "(string \<times> json) list"
  pc_agentId :: ident
  pc_quantity :: "amount option"
  pc_exchangeRate :: "amount option"
  pc_channelId :: ident
  pc_stateNonce :: int
  pc_rateCardVersion :: string

record paid_call_result =
  pcr_upstream :: upstream_result
  pcr_receipt :: paid_receipt
  pcr_route :: registered_route
  pcr_inlineHeader :: "string option"

record v3_env =
  ve_receipts :: receipt_env
  ve_options :: enforcer_options
  ve_parseDate :: "string \<Rightarrow> millis option"
  ve_network :: "string option"
  ve_keyVerify :: "string \<Rightarrow> string \<Rightarrow> string \<Rightarrow> bool option"
  ve_upstream :: "upstream_args \<Rightarrow> string + upstream_result"

record v3_state =
  vs_store :: provider_store
  vs_registry :: registry
  vs_cache :: scope_cache
  vs_receipts :: receipt_book

definition initial_v3 :: v3_state where
  "initial_v3 = \<lparr>vs_store = empty_providers, vs_registry = [], vs_cache = [], vs_receipts = []\<rparr>"

section \<open>Operations\<close>

definition registerProvider_v3 :: "ident \<Rightarrow> millis \<Rightarrow> register_provider_input \<Rightarrow> v3_state \<Rightarrow> provider \<times> v3_state" where
  "registerProvider_v3 uuid now i s =
     (let (p, st) = registerProvider uuid now i (vs_store s) in (p, s\<lparr>vs_store := st\<rparr>))"

definition payout_challenge_text :: "ident \<Rightarrow> string \<Rightarrow> string" where
  "payout_challenge_text p uuid = ''syncro-payout:'' @ p @ '':'' @ uuid"

definition createPayoutChallenge :: "string \<Rightarrow> millis \<Rightarrow> ident \<Rightarrow> v3_state \<Rightarrow> (v3_error + string) \<times> v3_state" where
  "createPayoutChallenge uuid now i s =
     (case getProvider (vs_store s) i of
        None \<Rightarrow> (Inl Provider_not_found, s)
      | Some p \<Rightarrow>
         (let challenge = payout_challenge_text (pr_providerId p) uuid
          in (Inr challenge, s\<lparr>vs_store := saveProvider now (p\<lparr>pr_payoutChallenge := Some challenge\<rparr>) (vs_store s)\<rparr>)))"

definition verifyPayoutChallenge :: "v3_env \<Rightarrow> millis \<Rightarrow> ident \<Rightarrow> string \<Rightarrow> v3_state \<Rightarrow> (v3_error + provider) \<times> v3_state" where
  "verifyPayoutChallenge env now i sig s =
     (case getProvider (vs_store s) i of
        None \<Rightarrow> (Inl Provider_not_found, s)
      | Some p \<Rightarrow>
         if \<not> truthy (pr_payoutChallenge p) then (Inl Challenge_not_created, s)
         else (case ve_keyVerify env (pr_payoutAddress p) (the (pr_payoutChallenge p)) sig of
             None \<Rightarrow> (Inl Key_error, s)
           | Some verified \<Rightarrow>
              if \<not> verified then (Inl Invalid_payout_signature, s)
              else (let p' = p\<lparr>pr_payoutVerified := True, pr_payoutChallenge := None\<rparr>
                    in (Inr (p'\<lparr>pr_updatedAt := now\<rparr>), s\<lparr>vs_store := saveProvider now p' (vs_store s)\<rparr>))))"

definition registerRoute_v3 :: "ident \<Rightarrow> millis \<Rightarrow> register_route_input \<Rightarrow> v3_state \<Rightarrow> (v3_error + registered_route) \<times> v3_state" where
  "registerRoute_v3 uuid now i s =
     (case getProvider (vs_store s) (ir_providerId i) of
        None \<Rightarrow> (Inl Provider_not_found, s)
      | Some p \<Rightarrow>
         if \<not> pr_payoutVerified p then (Inl Payout_unverified_for_route, s)
         else (let (rt, st) = registerRoute_store uuid now i (vs_store s) in (Inr rt, s\<lparr>vs_store := st\<rparr>)))"

text \<open>The part of a paid call before the upstream is called: the provider, the route, the scope.\<close>

definition authorizePaidCall :: "v3_env \<Rightarrow> millis \<Rightarrow> millis \<Rightarrow> paid_call_input \<Rightarrow> v3_state \<Rightarrow>
    (v3_error + provider \<times> registered_route) \<times> v3_state" where
  "authorizePaidCall env nowMs nowV i s =
     (case getProvider (vs_store s) (pc_providerId i) of
        None \<Rightarrow> (Inl Provider_not_found, s)
      | Some p \<Rightarrow>
         if \<not> pr_payoutVerified p then (Inl Payout_unverified_for_call, s)
         else if pr_mode p = Production \<and> ve_network env \<noteq> Some ''mainnet'' then (Inl Requires_mainnet, s)
         else (case findRoute (vs_store s) (pc_providerId i) (pc_method i) (pc_path i) of
             None \<Rightarrow> (Inl Pattern_error, s)
           | Some None \<Rightarrow> (Inl Route_not_registered, s)
           | Some (Some rt) \<Rightarrow>
              (let (ok, cache) = assertAllowed (ve_options env) (ve_parseDate env) (getGrant (vs_registry s))
                                   nowMs nowV (pc_agentId i) (rr_scopeKey rt) (vs_cache s);
                   s' = s\<lparr>vs_cache := cache\<rparr>
               in (case ok of Inl rc \<Rightarrow> (Inl (Scope_rejected rc), s') | Inr _ \<Rightarrow> (Inr (p, rt), s')))))"

definition upstreamArgs :: "provider \<Rightarrow> paid_call_input \<Rightarrow> upstream_args" where
  "upstreamArgs p i = \<lparr>ua_baseUrl = pr_upstreamBaseUrl p, ua_method = pc_method i, ua_path = pc_path i, ua_body = pc_body i\<rparr>"

definition receiptInput :: "ident \<Rightarrow> paid_call_input \<Rightarrow> registered_route \<Rightarrow> issue_input" where
  "receiptInput uuid i rt =
     (let quantity = nullish (pc_quantity i) 1
      in \<lparr>ii_receiptId = uuid, ii_route = rr_scopeKey rt, ii_unit = rr_unit rt, ii_quantity = quantity,
          ii_amount = rr_price rt * quantity, ii_rateCardVersion = pc_rateCardVersion i,
          ii_exchangeRate = pc_exchangeRate i, ii_channelId = pc_channelId i,
          ii_stateNonce = pc_stateNonce i, ii_requestMethod = pc_method i,
          ii_requestPath = pc_path i, ii_requestQuery = pc_query i\<rparr>)"

definition processPaidCall :: "v3_env \<Rightarrow> ident \<Rightarrow> millis \<Rightarrow> millis \<Rightarrow> millis \<Rightarrow> paid_call_input \<Rightarrow> v3_state \<Rightarrow>
    (v3_error + paid_call_result) \<times> upstream_args list \<times> v3_state" where
  "processPaidCall env uuid nowMs nowV nowR i s =
     (case authorizePaidCall env nowMs nowV i s of
        (Inl e, s') \<Rightarrow> (Inl e, [], s')
      | (Inr (p, rt), s') \<Rightarrow>
         (let args = upstreamArgs p i in
          case ve_upstream env args of
            Inl msg \<Rightarrow> (Inl (Upstream_failed msg), [args], s')
          | Inr up \<Rightarrow>
             (let (r, book) = issueReceipt (ve_receipts env) nowR (receiptInput uuid i rt) (vs_receipts s')
              in (Inr \<lparr>pcr_upstream = up, pcr_receipt = r, pcr_route = rt,
                       pcr_inlineHeader = (if headerFitsInline (ve_receipts env) r 1024
                                           then Some (encodeHeaderValue (ve_receipts env) r) else None)\<rparr>,
                  [args], s'\<lparr>vs_receipts := book\<rparr>))))"

definition getReceipt_v3 :: "v3_state \<Rightarrow> ident \<Rightarrow> paid_receipt option" where
  "getReceipt_v3 s i = getReceipt (vs_receipts s) i"

definition isScopeError :: "v3_error \<Rightarrow> bool" where
  "isScopeError e = (case e of Scope_rejected _ \<Rightarrow> True | _ \<Rightarrow> False)"

text \<open>A history of the service.\<close>

datatype v3_op =
    Register_provider ident millis register_provider_input
  | Create_challenge string millis ident
  | Verify_challenge millis ident string
  | Register_route ident millis register_route_input
  | Seed_grant grant
  | Paid_call ident millis millis millis paid_call_input

fun v3_step :: "v3_env \<Rightarrow> v3_op \<Rightarrow> v3_state \<Rightarrow> v3_state" where
  "v3_step env (Register_provider u t i) s = snd (registerProvider_v3 u t i s)"
| "v3_step env (Create_challenge u t p) s = snd (createPayoutChallenge u t p s)"
| "v3_step env (Verify_challenge t p sig) s = snd (verifyPayoutChallenge env t p sig s)"
| "v3_step env (Register_route u t i) s = snd (registerRoute_v3 u t i s)"
| "v3_step env (Seed_grant g) s = s\<lparr>vs_registry := setGrant g (vs_registry s)\<rparr>"
| "v3_step env (Paid_call u t v r i) s = snd (snd (processPaidCall env u t v r i s))"

fun v3_run :: "v3_env \<Rightarrow> v3_op list \<Rightarrow> v3_state \<Rightarrow> v3_state" where
  "v3_run env [] s = s"
| "v3_run env (x # xs) s = v3_run env xs (v3_step env x s)"

text \<open>The ids a history gives to new providers are new.\<close>

fun fresh_ids :: "v3_env \<Rightarrow> v3_op list \<Rightarrow> v3_state \<Rightarrow> bool" where
  "fresh_ids env [] s = True"
| "fresh_ids env (x # xs) s =
     ((case x of Register_provider u t i \<Rightarrow> getProvider (vs_store s) u = None | _ \<Rightarrow> True) \<and>
      fresh_ids env xs (v3_step env x s))"

section \<open>The store of a history\<close>

text \<open>
  Providers are stored under their own id, every route belongs to a verified provider and is
  keyed by its method and pattern.
\<close>

definition store_ok :: "provider_store \<Rightarrow> bool" where
  "store_ok st \<longleftrightarrow>
     (\<forall>i p. getProvider st i = Some p \<longrightarrow> pr_providerId p = i) \<and>
     (\<forall>r\<in>set (js_values (ps_routes st)). \<exists>p. getProvider st (rr_providerId r) = Some p \<and> pr_payoutVerified p) \<and>
     routes_keyed st"

lemma store_ok_save:
  assumes "store_ok st" "getProvider st i = Some p" "pr_providerId q = pr_providerId p"
    and "pr_payoutVerified p \<longrightarrow> pr_payoutVerified q"
  shows "store_ok (saveProvider now q st)"
proof -
  have "pr_providerId p = i" "ps_routes (saveProvider now q st) = ps_routes st"
    using assms by (auto simp: store_ok_def saveProvider_def)
  then have r: "\<exists>p'. getProvider (saveProvider now q st) (rr_providerId r) = Some p' \<and> pr_payoutVerified p'"
    if "r \<in> set (js_values (ps_routes (saveProvider now q st)))" for r
    using that assms by (cases "rr_providerId r = i") (auto simp: store_ok_def js_get_saveProvider)
  have "pr_providerId p' = j" if "getProvider (saveProvider now q st) j = Some p'" for j p'
    using that assms by (auto simp: store_ok_def js_get_saveProvider split: if_splits)
  with r assms(1) show ?thesis by (simp add: store_ok_def)
qed

lemma v3_step_ok:
  assumes ok: "store_ok (vs_store s)"
    and fresh: "case x of Register_provider u t i \<Rightarrow> getProvider (vs_store s) u = None | _ \<Rightarrow> True"
  shows "store_ok (vs_store (v3_step env x s))"
proof (cases x)
  case (Register_provider u t i)
  then show ?thesis using ok fresh
    by (fastforce simp: registerProvider_v3_def registerProvider_def Let_def store_ok_def getProvider_def routes_keyed_def)
next
  case (Create_challenge u t p)
  then show ?thesis using ok
    by (auto simp: createPayoutChallenge_def Let_def intro!: store_ok_save [where i = p] split: option.splits)
next
  case (Verify_challenge t p sig)
  then show ?thesis using ok
    by (auto simp: verifyPayoutChallenge_def Let_def intro!: store_ok_save [where i = p] split: option.splits)
next
  case (Register_route u t i)
  show ?thesis
  proof (cases "getProvider (vs_store s) (ir_providerId i)")
    case (Some p)
    have rk: "routes_keyed (snd (registerRoute_store u t i (vs_store s)))" using ok by (auto simp: store_ok_def)
    show ?thesis
    proof (cases "pr_payoutVerified p")
      case True
      have "store_ok (snd (registerRoute_store u t i (vs_store s)))"
        using ok Some True rk js_values_set [of u]
        by (fastforce simp: store_ok_def registerRoute_store_def Let_def getProvider_def)
      then show ?thesis using Some True Register_route by (simp add: registerRoute_v3_def split_def Let_def)
    qed (use ok Some Register_route in \<open>simp add: registerRoute_v3_def\<close>)
  qed (use ok Register_route in \<open>simp add: registerRoute_v3_def\<close>)
next
  case (Paid_call u t v r i)
  have "vs_store (snd (snd (processPaidCall env u t v r i s))) = vs_store s"
    by (auto simp: processPaidCall_def authorizePaidCall_def Let_def split_def split: option.splits sum.splits)
  with Paid_call ok show ?thesis by simp
qed (use ok in simp)

lemma v3_run_ok: "store_ok (vs_store s) \<Longrightarrow> fresh_ids env xs s \<Longrightarrow> store_ok (vs_store (v3_run env xs s))"
proof (induction xs arbitrary: s)
  case (Cons x xs)
  then have "store_ok (vs_store (v3_step env x s))" by (intro v3_step_ok) simp_all
  with Cons show ?case by simp
qed simp

lemma initial_ok [simp]: "store_ok (vs_store initial_v3)"
  by (simp add: store_ok_def initial_v3_def empty_providers_def getProvider_def routes_keyed_def js_values_def)

lemma v3_run_append: "v3_run env (xs @ ys) s = v3_run env ys (v3_run env xs s)"
  by (induction xs arbitrary: s) simp_all

section \<open>Authorization of a paid call\<close>

lemma authorize_Inr:
  assumes "authorizePaidCall env t v i s = (Inr (p, rt), s')"
  shows "getProvider (vs_store s) (pc_providerId i) = Some p" "pr_payoutVerified p"
    "pr_mode p = Production \<longrightarrow> ve_network env = Some ''mainnet''"
    "findRoute (vs_store s) (pc_providerId i) (pc_method i) (pc_path i) = Some (Some rt)"
    "fst (assertAllowed (ve_options env) (ve_parseDate env) (getGrant (vs_registry s)) t v (pc_agentId i) (rr_scopeKey rt) (vs_cache s)) = Inr ()"
    "vs_receipts s' = vs_receipts s"
  using assms by (auto simp: authorizePaidCall_def Let_def split_def split: option.splits sum.splits if_splits)

lemma authorize_receipts: "vs_receipts (snd (authorizePaidCall env t v i s)) = vs_receipts s"
  by (auto simp: authorizePaidCall_def Let_def split_def split: option.splits sum.splits)

lemma paid_call_cases:
  obtains (refused) e where "authorizePaidCall env t v i s = (Inl e, snd (authorizePaidCall env t v i s))"
      "processPaidCall env u t v r i s = (Inl e, [], snd (authorizePaidCall env t v i s))"
  | (failed) p rt s' m where "authorizePaidCall env t v i s = (Inr (p, rt), s')"
      "processPaidCall env u t v r i s = (Inl (Upstream_failed m), [upstreamArgs p i], s')"
  | (paid) p rt s' up rc book where "authorizePaidCall env t v i s = (Inr (p, rt), s')"
      "issueReceipt (ve_receipts env) r (receiptInput u i rt) (vs_receipts s') = (rc, book)"
      "ve_upstream env (upstreamArgs p i) = Inr up"
      "processPaidCall env u t v r i s = (Inr \<lparr>pcr_upstream = up, pcr_receipt = rc, pcr_route = rt,
           pcr_inlineHeader = (if headerFitsInline (ve_receipts env) rc 1024
                               then Some (encodeHeaderValue (ve_receipts env) rc) else None)\<rparr>,
         [upstreamArgs p i], s'\<lparr>vs_receipts := book\<rparr>)"
proof (cases "authorizePaidCall env t v i s")
  case (Pair a s')
  show ?thesis
  proof (cases a)
    case (Inl e)
    with Pair show ?thesis by (intro refused [of e]) (simp_all add: processPaidCall_def)
  next
    case (Inr prt)
    obtain p rt where [simp]: "prt = (p, rt)" by (cases prt)
    show ?thesis
    proof (cases "ve_upstream env (upstreamArgs p i)")
      case (Inl m)
      with Inr Pair show ?thesis by (intro failed [of p rt s' m]) (simp_all add: processPaidCall_def)
    next
      case (Inr up)
      obtain rc book where "issueReceipt (ve_receipts env) r (receiptInput u i rt) (vs_receipts s') = (rc, book)"
        by (cases "issueReceipt (ve_receipts env) r (receiptInput u i rt) (vs_receipts s')")
      with Inr \<open>a = Inr prt\<close> Pair show ?thesis
        by (intro paid [of p rt s' rc book up]) (simp_all add: processPaidCall_def)
    qed
  qed
qed

section \<open>Properties\<close>

text \<open>
  C13: only verified providers are routed to.  In every history of the service from its start,
  with new ids for new providers, each registered route belongs to a provider whose payout
  address is verified, carries the scope key of its own method and pattern, and providers are
  found under their own id.
\<close>

theorem routes_have_verified_providers:
  assumes "fresh_ids env ops initial_v3"
  shows "store_ok (vs_store (v3_run env ops initial_v3))"
  using assms by (intro v3_run_ok) simp_all

definition demo_v3_env :: v3_env where
  "demo_v3_env = \<lparr>ve_receipts = demo_receipt_env, ve_options = enforcerOptions None None, ve_parseDate = (\<lambda>_. None),
     ve_network = None, ve_keyVerify = (\<lambda>k m sig. Some (sig = k)), ve_upstream = (\<lambda>_. Inr \<lparr>ur_status = 200, ur_body = JNull\<rparr>)\<rparr>"

definition demo_ops :: "v3_op list" where
  "demo_ops =
     [Register_provider ''p'' 0 \<lparr>ip_identity = ''i'', ip_payoutAddress = ''G'', ip_upstreamBaseUrl = ''u'',
                                 ip_agreementTerms = ''t'', ip_mode = Staging\<rparr>,
      Create_challenge ''c'' 1 ''p'', Verify_challenge 2 ''p'' ''G'',
      Register_route ''r'' 3 \<lparr>ir_providerId = ''p'', ir_pathPattern = ''/x'', ir_method = '' get'', ir_unit = ''request'',
                              ir_price = 3, ir_quantityExtractor = ''constant:1''\<rparr>,
      Seed_grant \<lparr>g_agentId = ''a'', g_scopes = [''GET:/x''], g_expiresAt = None, g_revokedAt = None\<rparr>]"

definition demo_call :: paid_call_input where
  "demo_call = \<lparr>pc_providerId = ''p'', pc_method = ''GET'', pc_path = ''/x'', pc_body = JNull, pc_query = [],
     pc_agentId = ''a'', pc_quantity = Some 2, pc_exchangeRate = None, pc_channelId = ''ch'', pc_stateNonce = 1,
     pc_rateCardVersion = ''v1''\<rparr>"

lemmas demo_eval = demo_ops_def demo_v3_env_def initial_v3_def empty_providers_def registerProvider_v3_def registerProvider_def
  createPayoutChallenge_def verifyPayoutChallenge_def registerRoute_v3_def registerRoute_store_def getProvider_def saveProvider_def
  Let_def payout_challenge_text_def js_set_def js_get_def

theorem routes_have_verified_providers_witness:
  "store_ok (vs_store (v3_run demo_v3_env demo_ops initial_v3))"
  by (rule routes_have_verified_providers) (simp add: demo_eval)


definition demo_v3_state :: v3_state where
  "demo_v3_state =
     \<lparr>vs_store = \<lparr>ps_providers = [(''p'', \<lparr>pr_providerId = ''p'', pr_identity = ''i'', pr_payoutAddress = ''G'',
          pr_upstreamBaseUrl = ''u'', pr_agreementTerms = ''t'', pr_mode = Staging, pr_payoutVerified = True,
          pr_payoutChallenge = None, pr_createdAt = 0, pr_updatedAt = 2\<rparr>)],
        ps_routes = [(''r'', \<lparr>rr_routeId = ''r'', rr_providerId = ''p'', rr_pathPattern = ''/x'', rr_method = ''GET'',
          rr_unit = ''request'', rr_price = 3, rr_quantityExtractor = ''constant:1'', rr_scopeKey = ''GET:/x'', rr_createdAt = 3\<rparr>)]\<rparr>,
      vs_registry = [(''a'', \<lparr>g_agentId = ''a'', g_scopes = [''GET:/x''], g_expiresAt = None, g_revokedAt = None\<rparr>)],
      vs_cache = [], vs_receipts = []\<rparr>"

lemma demo_method: "normalizeMethod ''GET'' = ''GET''" "normalizeMethod '' get'' = ''GET''"
  by code_simp+

lemma demo_state: "v3_run demo_v3_env demo_ops initial_v3 = demo_v3_state"
  by (simp add: demo_eval setGrant_def buildScopeKey_def demo_method demo_v3_state_def)


end
