(* ===== verification/AuditChain.thy ===== *)
theory AuditChain
  imports Json
begin

text \<open>
  The hash chain of the audit log (\<open>backend/src/services/audit-chain.ts\<close>): the canonical
  payload of a row, its hash, and the walk that verifies a run of rows.  SHA-256, the text of a
  number and \<open>Date\<close> parsing are the fields of \<open>audit_env\<close>.  A nullable column is an option;
  the optional argument \<open>expectedPrevHash\<close> is an option of an option (\<open>None\<close> for
  \<open>undefined\<close>).  The human-readable messages of the issues are left out.
\<close>

record audit_env =
  au_hash :: "string \<Rightarrow> string"
  au_number :: "amount \<Rightarrow> string"
  au_parseDate :: "string \<Rightarrow> millis option"

record chained_fields =
  cf_sequence :: int
  cf_userId :: "string option"
  cf_action :: string
  cf_resourceType :: string
  cf_resourceId :: "string option"
  cf_metadata :: "json option"
  cf_ipAddress :: "string option"
  cf_userAgent :: "string option"
  cf_createdAt :: string
  cf_prevHash :: "string option"

definition json_string :: "string option \<Rightarrow> json" where
  "json_string s = (case s of None \<Rightarrow> JNull | Some t \<Rightarrow> JStr t)"

definition canonicalTimestamp :: "audit_env \<Rightarrow> string \<Rightarrow> json" where
  "canonicalTimestamp env ts = (case au_parseDate env ts of None \<Rightarrow> JNull | Some t \<Rightarrow> JNum (of_int t))"

definition canonicalId :: "string option \<Rightarrow> string option" where
  "canonicalId i = (if truthy i then Some (toLowerCase (the i)) else None)"

definition payload_values :: "audit_env \<Rightarrow> chained_fields \<Rightarrow> json list" where
  "payload_values env f =
     [JNum (of_int (cf_sequence f)), json_string (canonicalId (cf_userId f)), JStr (cf_action f),
      JStr (cf_resourceType f), json_string (cf_resourceId f),
      canonicalize code_unit_le (nullish (cf_metadata f) JNull),
      json_string (cf_ipAddress f), json_string (cf_userAgent f),
      canonicalTimestamp env (cf_createdAt f), json_string (cf_prevHash f)]"

definition canonicalPayload :: "audit_env \<Rightarrow> chained_fields \<Rightarrow> string" where
  "canonicalPayload env f = json_stringify (au_number env) (JArr (payload_values env f))"

definition computeEntryHash :: "audit_env \<Rightarrow> chained_fields \<Rightarrow> string" where
  "computeEntryHash env f = au_hash env (canonicalPayload env f)"

record audit_row =
  ar_id :: "string option"
  ar_sequence :: "int option"
  ar_user_id :: "string option"
  ar_action :: "string option"
  ar_resource_type :: "string option"
  ar_resource_id :: "string option"
  ar_metadata :: "json option"
  ar_ip_address :: "string option"
  ar_user_agent :: "string option"
  ar_created_at :: "string option"
  ar_entry_hash :: "string option"
  ar_prev_hash :: "string option"

definition row_fields :: "audit_row \<Rightarrow> chained_fields" where
  "row_fields r =
     \<lparr>cf_sequence = nullish (ar_sequence r) 0, cf_userId = ar_user_id r,
      cf_action = nullish (ar_action r) [], cf_resourceType = nullish (ar_resource_type r) [],
      cf_resourceId = ar_resource_id r, cf_metadata = ar_metadata r,
      cf_ipAddress = ar_ip_address r, cf_userAgent = ar_user_agent r,
      cf_createdAt = nullish (ar_created_at r) [], cf_prevHash = ar_prev_hash r\<rparr>"

definition hashForRow :: "audit_env \<Rightarrow> audit_row \<Rightarrow> string" where
  "hashForRow env r = computeEntryHash env (row_fields r)"

datatype chain_issue =
    Unchained "int option" "string option"
  | Missing_entry int "string option" (expected_seq: int)
  | Hash_mismatch int "string option" (recomputed_hash: string) (stored_hash: string)
  | Broken_link int "string option" (expected_link: "string option") (actual_link: "string option")

fun is_unchained_issue :: "chain_issue \<Rightarrow> bool" where
  "is_unchained_issue (Unchained s i) = True"
| "is_unchained_issue _ = False"

record chain_verification =
  cv_valid :: bool
  cv_entriesChecked :: nat
  cv_firstSequence :: "int option"
  cv_lastSequence :: "int option"
  cv_legacyEntries :: nat
  cv_issues :: "chain_issue list"

section \<open>The walk\<close>

record walk =
  wk_issues :: "chain_issue list"
  wk_legacy :: nat
  wk_checked :: nat
  wk_previous :: "audit_row option"
  wk_first :: "int option"
  wk_last :: "int option"

definition is_chained :: "audit_row \<Rightarrow> bool" where
  "is_chained r \<longleftrightarrow> truthy (ar_entry_hash r) \<and> ar_sequence r \<noteq> None"

definition gap_issue :: "walk \<Rightarrow> audit_row \<Rightarrow> chain_issue list" where
  "gap_issue w r =
     (case wk_last w of
        None \<Rightarrow> []
      | Some l \<Rightarrow> if the (ar_sequence r) \<noteq> l + 1 then [Missing_entry (the (ar_sequence r)) (ar_id r) (l + 1)] else [])"

definition hash_issue :: "audit_env \<Rightarrow> audit_row \<Rightarrow> chain_issue list" where
  "hash_issue env r =
     (let recomputed = hashForRow env r
      in if recomputed \<noteq> the (ar_entry_hash r)
         then [Hash_mismatch (the (ar_sequence r)) (ar_id r) recomputed (the (ar_entry_hash r))] else [])"

definition link_issue :: "string option option \<Rightarrow> walk \<Rightarrow> audit_row \<Rightarrow> chain_issue list" where
  "link_issue expectedPrevHash w r =
     (let linkTarget = (case wk_previous w of Some p \<Rightarrow> Some (ar_entry_hash p) | None \<Rightarrow> expectedPrevHash)
      in case linkTarget of
           None \<Rightarrow> []
         | Some t \<Rightarrow> if ar_prev_hash r \<noteq> t then [Broken_link (the (ar_sequence r)) (ar_id r) t (ar_prev_hash r)] else [])"

definition walk_row :: "audit_env \<Rightarrow> string option option \<Rightarrow> audit_row \<Rightarrow> walk \<Rightarrow> walk" where
  "walk_row env expectedPrevHash r w =
     (if \<not> is_chained r then
        w\<lparr>wk_legacy := wk_legacy w + 1, wk_issues := wk_issues w @ [Unchained (ar_sequence r) (ar_id r)]\<rparr>
      else
        w\<lparr>wk_first := (case wk_first w of None \<Rightarrow> ar_sequence r | Some f \<Rightarrow> Some f),
          wk_issues := wk_issues w @ gap_issue w r @ hash_issue env r @ link_issue expectedPrevHash w r,
          wk_previous := Some r, wk_last := ar_sequence r, wk_checked := wk_checked w + 1\<rparr>)"

definition start_walk :: walk where
  "start_walk = \<lparr>wk_issues = [], wk_legacy = 0, wk_checked = 0, wk_previous = None, wk_first = None, wk_last = None\<rparr>"

definition verifyChainRows :: "audit_env \<Rightarrow> audit_row list \<Rightarrow> string option option \<Rightarrow> chain_verification" where
  "verifyChainRows env rows expectedPrevHash =
     (let w = fold (walk_row env expectedPrevHash) rows start_walk
      in \<lparr>cv_valid = list_all is_unchained_issue (wk_issues w), cv_entriesChecked = wk_checked w,
          cv_firstSequence = wk_first w, cv_lastSequence = wk_last w,
          cv_legacyEntries = wk_legacy w, cv_issues = wk_issues w\<rparr>)"

section \<open>What a valid run is\<close>

text \<open>
  The run is valid when each chained row is, with respect to the chained row before it:
  \<open>anchor\<close> is what the first row has to link to (\<open>None\<close>: anything), \<open>prior\<close> the sequence
  number before it.
\<close>

fun rows_valid :: "audit_env \<Rightarrow> string option option \<Rightarrow> int option \<Rightarrow> audit_row list \<Rightarrow> bool" where
  "rows_valid env anchor prior [] = True"
| "rows_valid env anchor prior (r # rs) =
     (if \<not> is_chained r then rows_valid env anchor prior rs
      else hashForRow env r = the (ar_entry_hash r) \<and>
           (case prior of None \<Rightarrow> True | Some l \<Rightarrow> the (ar_sequence r) = l + 1) \<and>
           (case anchor of None \<Rightarrow> True | Some t \<Rightarrow> ar_prev_hash r = t) \<and>
           rows_valid env (Some (ar_entry_hash r)) (ar_sequence r) rs)"

lemma fold_walk_valid:
  "list_all is_unchained_issue (wk_issues (fold (walk_row env e) rows w)) \<longleftrightarrow>
     list_all is_unchained_issue (wk_issues w) \<and>
     rows_valid env (case wk_previous w of Some p \<Rightarrow> Some (ar_entry_hash p) | None \<Rightarrow> e) (wk_last w) rows"
proof (induction rows arbitrary: w)
  case (Cons r rs)
  show ?case
  proof (cases "is_chained r")
    case True
    have "list_all is_unchained_issue (wk_issues (walk_row env e r w)) \<longleftrightarrow>
        list_all is_unchained_issue (wk_issues w) \<and> hashForRow env r = the (ar_entry_hash r) \<and>
        (case wk_last w of None \<Rightarrow> True | Some l \<Rightarrow> the (ar_sequence r) = l + 1) \<and>
        (case (case wk_previous w of Some p \<Rightarrow> Some (ar_entry_hash p) | None \<Rightarrow> e) of
           None \<Rightarrow> True | Some t \<Rightarrow> ar_prev_hash r = t)"
      using True
      by (auto simp: walk_row_def gap_issue_def hash_issue_def link_issue_def Let_def split: option.splits)
    moreover have "wk_previous (walk_row env e r w) = Some r" "wk_last (walk_row env e r w) = ar_sequence r"
      using True by (simp_all add: walk_row_def)
    ultimately show ?thesis using True by (simp add: Cons.IH)
  next
    case False
    then have "wk_previous (walk_row env e r w) = wk_previous w" "wk_last (walk_row env e r w) = wk_last w"
      "list_all is_unchained_issue (wk_issues (walk_row env e r w)) = list_all is_unchained_issue (wk_issues w)"
      by (simp_all add: walk_row_def)
    with False show ?thesis by (simp add: Cons.IH)
  qed
qed simp

lemma verify_valid_iff: "cv_valid (verifyChainRows env rows e) \<longleftrightarrow> rows_valid env e None rows"
  by (simp add: verifyChainRows_def Let_def fold_walk_valid) (simp add: start_walk_def)

lemma fold_walk_checked:
  "wk_checked (fold (walk_row env e) rows w) = wk_checked w + length (filter is_chained rows) \<and>
   wk_legacy (fold (walk_row env e) rows w) = wk_legacy w + length (filter (\<lambda>r. \<not> is_chained r) rows)"
  by (induction rows arbitrary: w) (auto simp: walk_row_def)

lemma verify_counts:
  "cv_entriesChecked (verifyChainRows env rows e) = length (filter is_chained rows)"
  "cv_legacyEntries (verifyChainRows env rows e) = length (filter (\<lambda>r. \<not> is_chained r) rows)"
  by (simp_all add: verifyChainRows_def Let_def fold_walk_checked start_walk_def)

lemma rows_valid_append:
  "rows_valid env a l (xs @ ys) \<longleftrightarrow> rows_valid env a l xs \<and>
     (case filter is_chained xs of [] \<Rightarrow> rows_valid env a l ys
      | c # cs \<Rightarrow> rows_valid env (Some (ar_entry_hash (last (c # cs)))) (ar_sequence (last (c # cs))) ys)"
proof (induction xs arbitrary: a l)
  case (Cons x xs)
  then show ?case by (cases "filter is_chained xs") auto
qed simp

lemma rows_valid_unchained: "list_all (\<lambda>r. \<not> is_chained r) ys \<Longrightarrow> rows_valid env a l ys"
  by (induction ys) auto

text \<open>Where a run ends in a chained row, that row's hash is the hash of its own payload.\<close>

lemma rows_valid_hash: "rows_valid env a l rows \<Longrightarrow> r \<in> set rows \<Longrightarrow> is_chained r \<Longrightarrow> ar_entry_hash r = Some (hashForRow env r)"
proof (induction rows arbitrary: a l)
  case (Cons x xs)
  then show ?case by (cases "is_chained x") (auto simp: is_chained_def truthy_def split: option.splits)
qed simp

section \<open>The payload determines the link\<close>

lemma join_snoc: "xs \<noteq> [] \<Longrightarrow> join sep (xs @ [x]) = join sep xs @ sep @ x"
proof (induction sep xs rule: join.induct)
  case (3 sep x y xs)
  then show ?case by simp
qed simp_all

lemma last_split: "xs @ c # ys = us @ c # vs \<Longrightarrow> c \<notin> set ys \<Longrightarrow> c \<notin> set vs \<Longrightarrow> ys = vs \<and> xs = us"
proof (induction xs arbitrary: us)
  case Nil
  then show ?case by (cases us) auto
next
  case (Cons x xs)
  then show ?case by (cases us) auto
qed

definition link_text :: "string option \<Rightarrow> string" where
  "link_text h = (case h of None \<Rightarrow> ''null'' | Some s \<Rightarrow> quote s)"

lemma hex_code: "hex_value c \<noteq> None \<Longrightarrow> 48 \<le> code c \<and> code c \<le> 102 \<and> code c \<noteq> 92"
  by (auto simp: hex_value_def Let_def split: if_splits)

lemma quote_hex: "is_hex s \<Longrightarrow> quote s = [CHR 0x22] @ s @ [CHR 0x22]"
proof -
  have "quote_char c = [c]" if "hex_value c \<noteq> None" for c
    using hex_code [OF that] by (simp add: quote_char_def Let_def)
  then have "is_hex s \<Longrightarrow> concat (map quote_char s) = s"
    by (induction s) (auto simp: is_hex_def)
  then show "is_hex s \<Longrightarrow> quote s = [CHR 0x22] @ s @ [CHR 0x22]" by (simp add: quote_def)
qed

lemma hex_no_comma: "is_hex s \<Longrightarrow> CHR '','' \<notin> set s"
proof -
  have "hex_value (CHR '','') = None" by code_simp
  then show "is_hex s \<Longrightarrow> CHR '','' \<notin> set s" by (auto simp: is_hex_def list_all_iff)
qed

lemma link_text_inj:
  assumes "\<forall>s. h = Some s \<longrightarrow> is_hex s" "\<forall>s. h' = Some s \<longrightarrow> is_hex s" "link_text h = link_text h'"
  shows "h = h'"
  using assms by (cases h; cases h') (auto simp: link_text_def quote_hex)

lemma link_text_no_comma: "\<forall>s. h = Some s \<longrightarrow> is_hex s \<Longrightarrow> CHR '','' \<notin> set (link_text h)"
  by (cases h) (auto simp: link_text_def quote_hex hex_no_comma)

definition payload_front :: "audit_env \<Rightarrow> chained_fields \<Rightarrow> string" where
  "payload_front env f = ''['' @ join '','' (map (json_stringify (au_number env)) (butlast (payload_values env f)))"

lemma payload_shape: "canonicalPayload env f = payload_front env f @ CHR '','' # (link_text (cf_prevHash f) @ '']'')"
proof -
  let ?t = "map (json_stringify (au_number env))"
  have "?t (payload_values env f) = ?t (butlast (payload_values env f)) @ [link_text (cf_prevHash f)]"
    by (simp add: payload_values_def json_string_def link_text_def split: option.splits)
  moreover have "?t (butlast (payload_values env f)) \<noteq> []" by (simp add: payload_values_def)
  ultimately show ?thesis by (simp add: canonicalPayload_def payload_front_def join_snoc)
qed

lemma payload_link:
  assumes "canonicalPayload env f = canonicalPayload env g"
    and "\<forall>s. cf_prevHash f = Some s \<longrightarrow> is_hex s" "\<forall>s. cf_prevHash g = Some s \<longrightarrow> is_hex s"
  shows "cf_prevHash f = cf_prevHash g"
proof -
  have "link_text (cf_prevHash f) @ '']'' = link_text (cf_prevHash g) @ '']''"
    using assms(1) unfolding payload_shape
    by (rule last_split [THEN conjunct1]) (use link_text_no_comma [OF assms(2)] link_text_no_comma [OF assms(3)] in auto)
  then show ?thesis using assms(2,3) by (intro link_text_inj) simp_all
qed

text \<open>Two valid, fully chained runs that end in the same hash hash the same payloads throughout.\<close>

lemma rows_valid_snoc:
  assumes "list_all is_chained xs" "is_chained x"
  shows "rows_valid env a l (xs @ [x]) \<longleftrightarrow> rows_valid env a l xs \<and> hashForRow env x = the (ar_entry_hash x) \<and>
     (if xs = [] then rows_valid env a l [x]
      else the (ar_sequence x) = the (ar_sequence (last xs)) + 1 \<and> ar_prev_hash x = ar_entry_hash (last xs))"
proof -
  have f: "filter is_chained xs = xs" using assms(1) by (simp add: list_all_iff)
  have "xs \<noteq> [] \<Longrightarrow> ar_sequence (last xs) \<noteq> None"
    using assms(1) last_in_set [of xs] by (auto simp: list_all_iff is_chained_def)
  then have "xs \<noteq> [] \<Longrightarrow> ar_sequence (last xs) = Some (the (ar_sequence (last xs)))" by simp
  then show ?thesis using assms f
    by (cases "xs = []") (auto simp: rows_valid_append neq_Nil_conv split: list.splits option.splits)
qed

lemma chained_hash: "is_chained r \<Longrightarrow> ar_entry_hash r = Some (the (ar_entry_hash r))"
  by (cases "ar_entry_hash r") (simp_all add: is_chained_def)

lemma same_end_same_payloads:
  assumes hex: "\<And>s. is_hex (au_hash env s)"
  shows "length xs = length ys \<Longrightarrow> rows_valid env a l xs \<Longrightarrow> rows_valid env a' l' ys \<Longrightarrow>
    list_all is_chained xs \<Longrightarrow> list_all is_chained ys \<Longrightarrow>
    inj_on (au_hash env) ((canonicalPayload env \<circ> row_fields) ` (set xs \<union> set ys)) \<Longrightarrow>
    (xs \<noteq> [] \<Longrightarrow> ar_entry_hash (last xs) = ar_entry_hash (last ys)) \<Longrightarrow>
    map (canonicalPayload env \<circ> row_fields) xs = map (canonicalPayload env \<circ> row_fields) ys"
proof (induction xs arbitrary: ys rule: rev_induct)
  case (snoc x xs)
  obtain ys' y where ys: "ys = ys' @ [y]"
  proof (cases ys rule: rev_cases)
    case Nil
    with snoc.prems(1) show thesis by simp
  qed
  note P = snoc.prems [unfolded ys]
  have ch: "list_all is_chained xs" "is_chained x" "list_all is_chained ys'" "is_chained y"
    using P(4,5) by simp_all
  have vx: "rows_valid env a l xs" "hashForRow env x = the (ar_entry_hash x)"
      "xs \<noteq> [] \<Longrightarrow> ar_prev_hash x = ar_entry_hash (last xs)"
    using P(2) unfolding rows_valid_snoc [OF ch(1,2)] by (simp_all split: if_splits)
  have vy: "rows_valid env a' l' ys'" "hashForRow env y = the (ar_entry_hash y)"
      "ys' \<noteq> [] \<Longrightarrow> ar_prev_hash y = ar_entry_hash (last ys')"
    using P(3) unfolding rows_valid_snoc [OF ch(3,4)] by (simp_all split: if_splits)
  have "hashForRow env x = hashForRow env y" using vx(2) vy(2) P(7) by simp
  then have pay: "canonicalPayload env (row_fields x) = canonicalPayload env (row_fields y)"
    unfolding hashForRow_def computeEntryHash_def by (rule inj_onD [OF P(6)]) simp_all
  have end_eq: "ar_entry_hash (last xs) = ar_entry_hash (last ys')" if ne: "xs \<noteq> []"
  proof -
    have ne': "ys' \<noteq> []" using ne P(1) by auto
    have hexh: "\<forall>s. ar_entry_hash r = Some s \<longrightarrow> is_hex s" if "r \<in> set zs" "list_all is_chained zs" "rows_valid env b m zs" for r zs b m
      using rows_valid_hash [OF that(3,1)] that(1,2) hex by (auto simp: list_all_iff hashForRow_def computeEntryHash_def)
    have "cf_prevHash (row_fields x) = cf_prevHash (row_fields y)"
      using pay by (rule payload_link)
        (use hexh [OF last_in_set [OF ne] ch(1) vx(1)] hexh [OF last_in_set [OF ne'] ch(3) vy(1)] vx(3) [OF ne] vy(3) [OF ne']
         in \<open>simp_all add: row_fields_def\<close>)
    then show ?thesis using vx(3) [OF ne] vy(3) [OF ne'] by (simp add: row_fields_def)
  qed
  have "map (canonicalPayload env \<circ> row_fields) xs = map (canonicalPayload env \<circ> row_fields) ys'"
    using P(1,6) vx(1) vy(1) ch end_eq by (intro snoc.IH) (auto intro: inj_on_subset)
  then show ?case using pay by (simp add: ys comp_def)
qed simp

end
