(* ===== verification/AuditService.thy ===== *)
theory AuditService
  imports AuditChain
begin

text \<open>
  The audit service (\<open>backend/src/services/audit-service.ts\<close>): the entries the events of the
  backend write, appending entries to the hash chain against a database that other processes
  write to as well, and the verification of a window of the chain.

  The members of an entry's metadata are JavaScript properties: a member may be
  \<open>undefined\<close> (\<open>None\<close>), which the hash reads as \<open>null\<close> and which \<open>JSON.stringify\<close> leaves
  out of the stored document.  Columns may give back another spelling of what was stored (the
  key order of a JSONB document, the format of a timestamp, the case of a UUID); that is the
  record \<open>columns\<close>.  The unique index on \<open>sequence\<close> is the one of the migration
  \<open>20260725000000_audit_log_hash_chain.sql\<close>.
\<close>

type_synonym metadata = "(string \<times> json option) list"

record audit_entry =
  en_userId :: "string option"
  en_action :: string
  en_resourceType :: string
  en_resourceId :: "string option"
  en_metadata :: "metadata option"
  en_ipAddress :: "string option"
  en_userAgent :: "string option"

section \<open>The entries of the events\<close>

definition js_str :: "string option \<Rightarrow> json option" where
  "js_str s = map_option JStr s"

definition or_null :: "json option \<Rightarrow> json option" where
  "or_null v = Some (nullish v JNull)"

record security_meta =
  sm_severity :: string
  sm_actorId :: "string option"
  sm_resourceType :: string
  sm_resourceId :: "string option"
  sm_ipAddress :: "string option"
  sm_userAgent :: "string option"
  sm_reason :: "string option"
  sm_details :: "json option"

definition emitSecurityEvent :: "string option \<Rightarrow> string \<Rightarrow> security_meta \<Rightarrow> audit_entry" where
  "emitSecurityEvent requestId eventType m =
     \<lparr>en_userId = sm_actorId m, en_action = eventType, en_resourceType = ''security.'' @ sm_resourceType m,
      en_resourceId = sm_resourceId m,
      en_metadata = Some [(''severity'', Some (JStr (sm_severity m))), (''correlationId'', js_str requestId),
                          (''reason'', js_str (sm_reason m)), (''details'', or_null (sm_details m))],
      en_ipAddress = sm_ipAddress m, en_userAgent = sm_userAgent m\<rparr>"

record api_key_meta =
  km_keyId :: "string option"
  km_keyName :: "string option"
  km_scopes :: "string list option"
  km_ipAddress :: "string option"
  km_userAgent :: "string option"
  km_reason :: "string option"

definition auditApiKeyEvent :: "string option \<Rightarrow> string \<Rightarrow> string option \<Rightarrow> api_key_meta \<Rightarrow> audit_entry" where
  "auditApiKeyEvent requestId event actorId m =
     \<lparr>en_userId = actorId, en_action = event, en_resourceType = ''api_key'', en_resourceId = km_keyId m,
      en_metadata = Some [(''keyName'', js_str (km_keyName m)),
                          (''scopes'', map_option (\<lambda>ss. JArr (map JStr ss)) (km_scopes m)),
                          (''correlationId'', js_str requestId), (''reason'', js_str (km_reason m))],
      en_ipAddress = km_ipAddress m, en_userAgent = km_userAgent m\<rparr>"

text \<open>
  What the metadata types of the remaining events have in common: \<open>ipAddress\<close>, \<open>userAgent\<close>,
  \<open>before\<close>, \<open>after\<close>, \<open>correlationId\<close> and \<open>sourceAddress\<close>, all optional.
\<close>

record event_meta =
  em_ipAddress :: "string option"
  em_userAgent :: "string option"
  em_before :: "json option"
  em_after :: "json option"
  em_correlationId :: "string option"
  em_sourceAddress :: "string option"

definition correlation :: "string option \<Rightarrow> event_meta \<Rightarrow> string \<times> json option" where
  "correlation requestId m =
     (''correlationId'', js_str (case em_correlationId m of None \<Rightarrow> requestId | Some c \<Rightarrow> Some c))"

definition change_of :: "event_meta \<Rightarrow> metadata" where
  "change_of m = [(''before'', or_null (em_before m)), (''after'', or_null (em_after m)),
                  (''sourceAddress'', js_str (em_sourceAddress m))]"

definition event_entry :: "string \<Rightarrow> string \<Rightarrow> string \<Rightarrow> string option \<Rightarrow> metadata \<Rightarrow> event_meta \<Rightarrow> audit_entry" where
  "event_entry actorId action resourceType resourceId meta m =
     \<lparr>en_userId = Some actorId, en_action = action, en_resourceType = resourceType, en_resourceId = resourceId,
      en_metadata = Some meta, en_ipAddress = em_ipAddress m, en_userAgent = em_userAgent m\<rparr>"

definition auditAgentRegistered :: "string option \<Rightarrow> string \<Rightarrow> string \<Rightarrow> event_meta \<Rightarrow> audit_entry" where
  "auditAgentRegistered requestId actorId agentId m =
     event_entry actorId ''agent.registered'' ''agent'' (Some agentId) (correlation requestId m # change_of m) m"

definition auditAgentScopeGranted :: "string option \<Rightarrow> string \<Rightarrow> string \<Rightarrow> string \<Rightarrow> event_meta \<Rightarrow> audit_entry" where
  "auditAgentScopeGranted requestId actorId agentId scope m =
     event_entry actorId ''agent.scope_granted'' ''agent'' (Some agentId)
       (correlation requestId m # (''scope'', Some (JStr scope)) # change_of m) m"

definition auditAgentScopeRevoked :: "string option \<Rightarrow> string \<Rightarrow> string \<Rightarrow> string \<Rightarrow> event_meta \<Rightarrow> audit_entry" where
  "auditAgentScopeRevoked requestId actorId agentId scope m =
     event_entry actorId ''agent.scope_revoked'' ''agent'' (Some agentId)
       (correlation requestId m # (''scope'', Some (JStr scope)) # change_of m) m"

definition auditAgentCapIssued :: "string option \<Rightarrow> string \<Rightarrow> string \<Rightarrow> string \<Rightarrow> json \<Rightarrow> event_meta \<Rightarrow> audit_entry" where
  "auditAgentCapIssued requestId actorId agentId cap v m =
     event_entry actorId ''agent.cap_issued'' ''agent'' (Some agentId)
       (correlation requestId m # (''cap'', Some (JStr cap)) # (''value'', Some v) # change_of m) m"

definition auditAgentCapChanged ::
    "string option \<Rightarrow> string \<Rightarrow> string \<Rightarrow> string \<Rightarrow> json \<Rightarrow> json \<Rightarrow> event_meta \<Rightarrow> audit_entry" where
  "auditAgentCapChanged requestId actorId agentId cap oldValue newValue m =
     event_entry actorId ''agent.cap_changed'' ''agent'' (Some agentId)
       (correlation requestId m # (''cap'', Some (JStr cap)) # (''oldValue'', Some oldValue) #
        (''newValue'', Some newValue) # change_of m) m"

definition auditChannelOpened :: "string option \<Rightarrow> string \<Rightarrow> string \<Rightarrow> string \<Rightarrow> json \<Rightarrow> event_meta \<Rightarrow> audit_entry" where
  "auditChannelOpened requestId actorId channelId counterparty depositAmount m =
     event_entry actorId ''channel.opened'' ''payment_channel'' (Some channelId)
       (correlation requestId m # (''counterparty'', Some (JStr counterparty)) #
        (''depositAmount'', Some depositAmount) # change_of m) m"

definition auditChannelCloseInitiated :: "string option \<Rightarrow> string \<Rightarrow> string \<Rightarrow> bool \<Rightarrow> event_meta \<Rightarrow> audit_entry" where
  "auditChannelCloseInitiated requestId actorId channelId unilateral m =
     event_entry actorId ''channel.close_initiated'' ''payment_channel'' (Some channelId)
       (correlation requestId m # (''unilateral'', Some (JBool unilateral)) # change_of m) m"

definition auditChannelDisputed :: "string option \<Rightarrow> string \<Rightarrow> string \<Rightarrow> event_meta \<Rightarrow> audit_entry" where
  "auditChannelDisputed requestId actorId channelId m =
     event_entry actorId ''channel.disputed'' ''payment_channel'' (Some channelId) (correlation requestId m # change_of m) m"

definition auditChannelFinalized :: "string option \<Rightarrow> string \<Rightarrow> string \<Rightarrow> event_meta \<Rightarrow> audit_entry" where
  "auditChannelFinalized requestId actorId channelId m =
     event_entry actorId ''channel.finalized'' ''payment_channel'' (Some channelId) (correlation requestId m # change_of m) m"

definition auditKeyIssued :: "string option \<Rightarrow> string \<Rightarrow> string \<Rightarrow> string \<Rightarrow> event_meta \<Rightarrow> audit_entry" where
  "auditKeyIssued requestId actorId keyId keyType m =
     event_entry actorId ''key.issued'' ''key'' (Some keyId)
       (correlation requestId m # (''keyType'', Some (JStr keyType)) # change_of m) m"

definition auditKeyRevoked :: "string option \<Rightarrow> string \<Rightarrow> string \<Rightarrow> string \<Rightarrow> string option \<Rightarrow> event_meta \<Rightarrow> audit_entry" where
  "auditKeyRevoked requestId actorId keyId keyType reason m =
     event_entry actorId ''key.revoked'' ''key'' (Some keyId)
       (correlation requestId m # (''keyType'', Some (JStr keyType)) # (''reason'', js_str reason) # change_of m) m"

definition auditRateCardChanged :: "string option \<Rightarrow> string \<Rightarrow> string \<Rightarrow> event_meta \<Rightarrow> audit_entry" where
  "auditRateCardChanged requestId actorId rateCardId m =
     event_entry actorId ''rate_card.changed'' ''rate_card'' (Some rateCardId) (correlation requestId m # change_of m) m"

definition auditProviderPayoutAddressChanged :: "string option \<Rightarrow> string \<Rightarrow> string \<Rightarrow> event_meta \<Rightarrow> audit_entry" where
  "auditProviderPayoutAddressChanged requestId actorId providerId m =
     event_entry actorId ''provider.payout_address_changed'' ''provider'' (Some providerId)
       (correlation requestId m # change_of m) m"

definition auditOperatorOverride ::
    "string option \<Rightarrow> string \<Rightarrow> string \<Rightarrow> string \<Rightarrow> string \<Rightarrow> string \<Rightarrow> event_meta \<Rightarrow> audit_entry" where
  "auditOperatorOverride requestId actorId overrideType targetType targetId reason m =
     event_entry actorId ''operator.override'' targetType (Some targetId)
       (correlation requestId m # (''overrideType'', Some (JStr overrideType)) #
        (''reason'', Some (JStr reason)) # change_of m) m"

definition auditDegradedMode :: "string option \<Rightarrow> string \<Rightarrow> json option \<Rightarrow> event_meta \<Rightarrow> audit_entry" where
  "auditDegradedMode requestId actorId details m =
     event_entry actorId ''system.degraded_mode'' ''system'' (Some ''system'')
       (correlation requestId m # change_of m @ [(''details'', or_null details)]) m"

definition auditReconciliationAdjusted :: "string option \<Rightarrow> string \<Rightarrow> json option \<Rightarrow> event_meta \<Rightarrow> audit_entry" where
  "auditReconciliationAdjusted requestId actorId details m =
     event_entry actorId ''reconciliation.adjusted'' ''reconciliation'' (em_correlationId m)
       (correlation requestId m # change_of m @ [(''details'', or_null details)]) m"

section \<open>The table\<close>

type_synonym audit_table = "audit_row list"

record columns =
  col_uuid :: "string \<Rightarrow> string"
  col_jsonb :: "json \<Rightarrow> json"
  col_timestamp :: "string \<Rightarrow> string"

text \<open>What the code relies on: the canonical form of a column does not change in storage.\<close>

definition columns_ok :: "audit_env \<Rightarrow> columns \<Rightarrow> bool" where
  "columns_ok env col \<longleftrightarrow>
     (\<forall>s. toLowerCase (col_uuid col s) = toLowerCase s \<and> (col_uuid col s = [] \<longleftrightarrow> s = [])) \<and>
     (\<forall>v. canonicalize code_unit_le (col_jsonb col v) = canonicalize code_unit_le v) \<and>
     (\<forall>t. au_parseDate env (col_timestamp col t) = au_parseDate env t)"

definition stored :: "columns \<Rightarrow> audit_row \<Rightarrow> audit_row" where
  "stored col r =
     r\<lparr>ar_user_id := map_option (col_uuid col) (ar_user_id r),
       ar_metadata := map_option (col_jsonb col) (ar_metadata r),
       ar_created_at := map_option (col_timestamp col) (ar_created_at r)\<rparr>"

section \<open>Appending\<close>

record chain_tip =
  tip_sequence :: int
  tip_hash :: "string option"

definition max_row :: "audit_row option \<Rightarrow> audit_row \<Rightarrow> audit_row option" where
  "max_row best r =
     (case ar_sequence r of
        None \<Rightarrow> best
      | Some n \<Rightarrow> (case best of None \<Rightarrow> Some r | Some b \<Rightarrow> if the (ar_sequence b) < n then Some r else Some b))"

definition readChainTip :: "audit_table \<Rightarrow> chain_tip" where
  "readChainTip t =
     (case fold (\<lambda>r b. max_row b r) t None of
        None \<Rightarrow> \<lparr>tip_sequence = 0, tip_hash = None\<rparr>
      | Some r \<Rightarrow> \<lparr>tip_sequence = the (ar_sequence r), tip_hash = ar_entry_hash r\<rparr>)"

text \<open>The metadata the hash sees and the metadata the row stores.\<close>

definition hashed_metadata :: "metadata option \<Rightarrow> json option" where
  "hashed_metadata m = map_option (\<lambda>kvs. JObj (map (\<lambda>(k, v). (k, nullish v JNull)) kvs)) m"

definition stored_metadata :: "metadata option \<Rightarrow> json option" where
  "stored_metadata m = map_option (\<lambda>kvs. JObj (map (\<lambda>(k, v). (k, the v)) (filter (\<lambda>(k, v). v \<noteq> None) kvs))) m"

text \<open>\<open>v || null\<close> for a string.\<close>

definition or_null_string :: "string option \<Rightarrow> string option" where
  "or_null_string s = (if truthy s then s else None)"

definition entry_fields :: "string \<Rightarrow> audit_entry \<Rightarrow> int \<Rightarrow> string option \<Rightarrow> chained_fields" where
  "entry_fields createdAt e sequence prevHash =
     \<lparr>cf_sequence = sequence, cf_userId = en_userId e, cf_action = en_action e,
      cf_resourceType = en_resourceType e, cf_resourceId = en_resourceId e,
      cf_metadata = hashed_metadata (en_metadata e), cf_ipAddress = en_ipAddress e,
      cf_userAgent = en_userAgent e, cf_createdAt = createdAt, cf_prevHash = prevHash\<rparr>"

definition entry_row :: "audit_env \<Rightarrow> string \<Rightarrow> audit_entry \<Rightarrow> int \<Rightarrow> string option \<Rightarrow> audit_row" where
  "entry_row env createdAt e sequence prevHash =
     \<lparr>ar_id = None, ar_sequence = Some sequence, ar_user_id = or_null_string (en_userId e),
      ar_action = Some (en_action e), ar_resource_type = Some (en_resourceType e),
      ar_resource_id = or_null_string (en_resourceId e), ar_metadata = stored_metadata (en_metadata e),
      ar_ip_address = or_null_string (en_ipAddress e), ar_user_agent = or_null_string (en_userAgent e),
      ar_created_at = Some createdAt,
      ar_entry_hash = Some (computeEntryHash env (entry_fields createdAt e sequence prevHash)),
      ar_prev_hash = prevHash\<rparr>"

text \<open>\<open>buildChainedRows\<close>: \<open>stamp i\<close> is the clock read for the \<open>i\<close>-th entry.\<close>

fun build_rows :: "audit_env \<Rightarrow> (nat \<Rightarrow> string) \<Rightarrow> nat \<Rightarrow> audit_entry list \<Rightarrow> int \<Rightarrow> string option \<Rightarrow> audit_row list" where
  "build_rows env stamp i [] s h = []"
| "build_rows env stamp i (e # es) s h =
     (let r = entry_row env (stamp i) e (s + 1) h
      in r # build_rows env stamp (i + 1) es (s + 1) (ar_entry_hash r))"

definition buildChainedRows :: "audit_env \<Rightarrow> (nat \<Rightarrow> string) \<Rightarrow> audit_entry list \<Rightarrow> chain_tip \<Rightarrow> audit_row list" where
  "buildChainedRows env stamp es tip = build_rows env stamp 0 es (tip_sequence tip) (tip_hash tip)"

datatype db_error = Unique_violation | Db_error string

definition sequences :: "audit_table \<Rightarrow> int set" where
  "sequences t = {n. \<exists>r\<in>set t. ar_sequence r = Some n}"

definition clashes :: "audit_row list \<Rightarrow> audit_table \<Rightarrow> bool" where
  "clashes rows t \<longleftrightarrow> list_ex (\<lambda>r. list_ex (\<lambda>q. ar_sequence q = ar_sequence r \<and> ar_sequence r \<noteq> None) t) rows"

type_synonym insert_op = "audit_row list \<Rightarrow> audit_table \<Rightarrow> db_error option \<times> audit_table"

text \<open>
  What the code relies on from an insert statement: it stores all rows or none, and the unique
  index lets it store them only if no sequence number is taken.
\<close>

definition insert_ok :: "columns \<Rightarrow> insert_op \<Rightarrow> bool" where
  "insert_ok col f \<longleftrightarrow> (\<forall>rows t. case f rows t of
      (None, t') \<Rightarrow> \<not> clashes rows t \<and> t' = t @ map (stored col) rows
    | (Some e, t') \<Rightarrow> t' = t)"

text \<open>
  What can happen around one attempt: the read of the tip fails, other processes append
  batches after the tip was read; \<open>at_insert\<close> is what the database does with the insert.
\<close>

record attempt =
  at_readFailure :: "string option"
  at_stamp :: "nat \<Rightarrow> string"
  at_others :: "((nat \<Rightarrow> string) \<times> audit_entry list) list"
  at_insert :: insert_op

definition append_batch :: "audit_env \<Rightarrow> columns \<Rightarrow> (nat \<Rightarrow> string) \<times> audit_entry list \<Rightarrow> audit_table \<Rightarrow> audit_table" where
  "append_batch env col b t = t @ map (stored col) (buildChainedRows env (fst b) (snd b) (readChainTip t))"

fun append_attempts :: "audit_env \<Rightarrow> columns \<Rightarrow> audit_entry list \<Rightarrow> attempt list \<Rightarrow> db_error \<Rightarrow> audit_table \<Rightarrow>
    (db_error + nat) \<times> audit_table" where
  "append_attempts env col es [] lastError t = (Inl lastError, t)"
| "append_attempts env col es (a # as) lastError t =
     (case at_readFailure a of
        Some m \<Rightarrow> (Inl (Db_error m), t)
      | None \<Rightarrow>
         (let rows = buildChainedRows env (at_stamp a) es (readChainTip t);
              t1 = fold (append_batch env col) (at_others a) t
          in case at_insert a rows t1 of
               (None, t2) \<Rightarrow> (Inr (length rows), t2)
             | (Some Unique_violation, t2) \<Rightarrow> append_attempts env col es as Unique_violation t2
             | (Some (Db_error m), t2) \<Rightarrow> (Inl (Db_error m), t2)))"

definition CHAIN_WRITE_RETRIES :: nat where
  "CHAIN_WRITE_RETRIES = 3"

definition appendChained :: "audit_env \<Rightarrow> columns \<Rightarrow> audit_entry list \<Rightarrow> (nat \<Rightarrow> attempt) \<Rightarrow> audit_table \<Rightarrow>
    (db_error + nat) \<times> audit_table" where
  "appendChained env col es att t = append_attempts env col es (map att [0..<CHAIN_WRITE_RETRIES]) (Db_error []) t"

datatype entry_problem = Action_required | Resource_type_required

definition validateEntry :: "audit_entry \<Rightarrow> entry_problem option" where
  "validateEntry e =
     (if en_action e = [] then Some Action_required
      else if en_resourceType e = [] then Some Resource_type_required else None)"

datatype insert_outcome = Inserted | Invalid_entry entry_problem | Insert_failed db_error

definition insertEntry :: "audit_env \<Rightarrow> columns \<Rightarrow> audit_entry \<Rightarrow> (nat \<Rightarrow> attempt) \<Rightarrow> audit_table \<Rightarrow> insert_outcome \<times> audit_table" where
  "insertEntry env col e att t =
     (case validateEntry e of
        Some p \<Rightarrow> (Invalid_entry p, t)
      | None \<Rightarrow> (case appendChained env col [e] att t of
                  (Inr n, t') \<Rightarrow> (Inserted, t') | (Inl err, t') \<Rightarrow> (Insert_failed err, t')))"

record batch_outcome =
  bo_success :: bool
  bo_inserted :: nat
  bo_failed :: nat
  bo_errors :: "(entry_problem + db_error) list"

definition insertBatch :: "audit_env \<Rightarrow> columns \<Rightarrow> audit_entry list \<Rightarrow> (nat \<Rightarrow> attempt) \<Rightarrow> audit_table \<Rightarrow> batch_outcome \<times> audit_table" where
  "insertBatch env col entries att t =
     (let problems = List.map_filter validateEntry entries;
          validEntries = filter (\<lambda>e. validateEntry e = None) entries
      in if validEntries = [] then
           (\<lparr>bo_success = False, bo_inserted = 0, bo_failed = length problems, bo_errors = map Inl problems\<rparr>, t)
         else (case appendChained env col validEntries att t of
             (Inr n, t') \<Rightarrow>
               (\<lparr>bo_success = True, bo_inserted = (if n = 0 then length validEntries else n),
                 bo_failed = length problems, bo_errors = map Inl problems\<rparr>, t')
           | (Inl err, t') \<Rightarrow>
               (\<lparr>bo_success = False, bo_inserted = 0, bo_failed = length entries,
                 bo_errors = map Inl problems @ [Inr err]\<rparr>, t')))"

section \<open>Verification of a window\<close>

record window_options =
  wo_startSequence :: "int option"
  wo_endSequence :: "int option"
  wo_limit :: "nat option"

definition in_window :: "window_options \<Rightarrow> audit_row \<Rightarrow> bool" where
  "in_window o' r \<longleftrightarrow>
     (case ar_sequence r of
        None \<Rightarrow> False
      | Some n \<Rightarrow> (case wo_startSequence o' of None \<Rightarrow> True | Some s \<Rightarrow> s \<le> n) \<and>
                  (case wo_endSequence o' of None \<Rightarrow> True | Some e \<Rightarrow> n \<le> e))"

definition select_window :: "window_options \<Rightarrow> audit_table \<Rightarrow> audit_row list" where
  "select_window o' t =
     take (min (nullish (wo_limit o') 1000) 10000)
       (sort_key (\<lambda>r. the (ar_sequence r)) (filter (in_window o') t))"

definition anchor_for :: "audit_row list \<Rightarrow> audit_table \<Rightarrow> string option option" where
  "anchor_for rows t =
     (case (case rows of [] \<Rightarrow> None | r # _ \<Rightarrow> ar_sequence r) of
        None \<Rightarrow> None
      | Some n \<Rightarrow>
          if 1 < n then map_option ar_entry_hash (List.find (\<lambda>q. ar_sequence q = Some (n - 1)) t)
          else if n = 1 then Some None else None)"

definition verifyChain :: "audit_env \<Rightarrow> window_options \<Rightarrow> audit_table \<Rightarrow> chain_verification" where
  "verifyChain env o' t =
     (let rows = select_window o' t in verifyChainRows env rows (anchor_for rows t))"

section \<open>Queries\<close>

record log_query =
  lq_userId :: "string option"
  lq_action :: "string option"
  lq_resourceType :: "string option"
  lq_startDate :: "string option"
  lq_endDate :: "string option"
  lq_limit :: "nat option"
  lq_offset :: "nat option"

definition filter_opt :: "string option \<Rightarrow> string option \<Rightarrow> bool" where
  "filter_opt want have_v \<longleftrightarrow> (if truthy want then have_v = want else True)"

definition row_time :: "audit_env \<Rightarrow> audit_row \<Rightarrow> int" where
  "row_time env r = nullish (au_parseDate env (nullish (ar_created_at r) [])) 0"

definition date_bound :: "audit_env \<Rightarrow> string option \<Rightarrow> (int \<Rightarrow> bool) \<Rightarrow> bool" where
  "date_bound env d P \<longleftrightarrow> (if truthy d then (case au_parseDate env (the d) of None \<Rightarrow> False | Some b \<Rightarrow> P b) else True)"

definition matches_query :: "audit_env \<Rightarrow> log_query \<Rightarrow> audit_row \<Rightarrow> bool" where
  "matches_query env q r \<longleftrightarrow>
     filter_opt (lq_action q) (ar_action r) \<and> filter_opt (lq_resourceType q) (ar_resource_type r) \<and>
     filter_opt (lq_userId q) (ar_user_id r) \<and>
     date_bound env (lq_startDate q) (\<lambda>b. b \<le> row_time env r) \<and>
     date_bound env (lq_endDate q) (\<lambda>b. row_time env r \<le> b)"

text \<open>\<open>options?.limit || 100\<close>: a limit of 0 means the default.\<close>

definition page :: "log_query \<Rightarrow> audit_row list \<Rightarrow> audit_row list" where
  "page q rows =
     (let limit = (case lq_limit q of None \<Rightarrow> 100 | Some n \<Rightarrow> if n = 0 then 100 else n)
      in take limit (drop (nullish (lq_offset q) 0) rows))"

definition newest_first :: "audit_env \<Rightarrow> audit_row list \<Rightarrow> audit_row list" where
  "newest_first env rows = sort_key (\<lambda>r. - row_time env r) rows"

definition getAllLogs :: "audit_env \<Rightarrow> bool \<Rightarrow> log_query \<Rightarrow> audit_table \<Rightarrow> audit_row list" where
  "getAllLogs env failed q t =
     (if failed then [] else page q (newest_first env (filter (matches_query env q) t)))"

definition getUserLogs :: "audit_env \<Rightarrow> bool \<Rightarrow> string \<Rightarrow> log_query \<Rightarrow> audit_table \<Rightarrow> audit_row list" where
  "getUserLogs env failed userId q t =
     (if failed then []
      else page q (newest_first env (filter (\<lambda>r. ar_user_id r = Some userId \<and>
             filter_opt (lq_action q) (ar_action r) \<and> filter_opt (lq_resourceType q) (ar_resource_type r)) t)))"

definition getLogsCount :: "audit_env \<Rightarrow> bool \<Rightarrow> log_query \<Rightarrow> audit_table \<Rightarrow> nat" where
  "getLogsCount env failed q t =
     (if failed then 0
      else length (filter (\<lambda>r. filter_opt (lq_action q) (ar_action r) \<and>
             filter_opt (lq_resourceType q) (ar_resource_type r) \<and> filter_opt (lq_userId q) (ar_user_id r)) t))"

end
