(* ===== verification/AuditProps.thy ===== *)
theory AuditProps
  imports AuditService
begin

text \<open>
  Correctness of the audit log: appends keep the chain, the verifier accepts every window of
  a chain, a chain cannot be rewritten without changing its last hash, and the two ways in
  which the code falls short of that.
\<close>

section \<open>Linked tables\<close>

fun linked :: "audit_env \<Rightarrow> int \<Rightarrow> string option \<Rightarrow> audit_row list \<Rightarrow> bool" where
  "linked env s h [] = True"
| "linked env s h (r # rs) =
     (ar_sequence r = Some (s + 1) \<and> ar_prev_hash r = h \<and> ar_entry_hash r = Some (hashForRow env r) \<and>
      hashForRow env r \<noteq> [] \<and> linked env (s + 1) (ar_entry_hash r) rs)"

definition sequenced :: "audit_table \<Rightarrow> audit_row list" where
  "sequenced t = filter (\<lambda>r. ar_sequence r \<noteq> None) t"

definition chain_ok :: "audit_env \<Rightarrow> audit_table \<Rightarrow> bool" where
  "chain_ok env t \<longleftrightarrow> linked env 0 None (sequenced t)"

definition end_hash :: "string option \<Rightarrow> audit_row list \<Rightarrow> string option" where
  "end_hash h xs = (if xs = [] then h else ar_entry_hash (last xs))"

lemma sequenced_append [simp]: "sequenced (t @ u) = sequenced t @ sequenced u"
  by (simp add: sequenced_def)

lemma linked_append:
  "linked env s h (xs @ ys) \<longleftrightarrow> linked env s h xs \<and> linked env (s + int (length xs)) (end_hash h xs) ys"
proof (induction xs arbitrary: s h)
  case (Cons x xs)
  have "end_hash h (x # xs) = end_hash (ar_entry_hash x) xs" by (simp add: end_hash_def)
  moreover have "s + int (length (x # xs)) = s + 1 + int (length xs)" by simp
  ultimately show ?case by (simp only: append_Cons linked.simps Cons.IH) blast
qed (simp add: end_hash_def)

lemma linked_nth: "linked env s h xs \<Longrightarrow> k < length xs \<Longrightarrow> ar_sequence (xs ! k) = Some (s + 1 + int k)"
proof (induction xs arbitrary: s h k)
  case (Cons x xs)
  then show ?case by (cases k) (auto simp: algebra_simps)
qed simp

lemma linked_sequence: "linked env s h xs \<Longrightarrow> r \<in> set xs \<Longrightarrow> ar_sequence r \<noteq> None"
  by (induction xs arbitrary: s h) auto

lemma linked_last: "linked env s h xs \<Longrightarrow> xs \<noteq> [] \<Longrightarrow> ar_sequence (last xs) = Some (s + int (length xs))"
  by (auto simp: last_conv_nth linked_nth Suc_le_eq of_nat_diff)

lemma linked_unique:
  assumes "linked env s h xs" "p \<in> set xs" "q \<in> set xs" "ar_sequence p = ar_sequence q"
  shows "p = q"
proof -
  obtain i j where "i < length xs" "xs ! i = p" "j < length xs" "xs ! j = q"
    using assms(2,3) by (auto simp: in_set_conv_nth)
  with assms(4) linked_nth [OF assms(1), of i] linked_nth [OF assms(1), of j] show ?thesis by auto
qed

lemma sequenced_linked: "linked env s h xs \<Longrightarrow> sequenced xs = xs"
  by (auto simp: sequenced_def filter_id_conv dest: linked_sequence)

lemma fold_tip:
  "chain_ok env t \<Longrightarrow>
     fold (\<lambda>r b. max_row b r) t None = (if sequenced t = [] then None else Some (last (sequenced t)))"
proof (induction t rule: rev_induct)
  case (snoc r t)
  have ok: "chain_ok env t" using snoc.prems by (auto simp: chain_ok_def linked_append)
  show ?case
  proof (cases "ar_sequence r")
    case None
    then show ?thesis using snoc.IH [OF ok] by (simp add: max_row_def sequenced_def)
  next
    case (Some n)
    then have sr: "sequenced [r] = [r]" by (simp add: sequenced_def)
    then have n: "n = int (length (sequenced t)) + 1"
      using snoc.prems Some by (simp add: chain_ok_def linked_append)
    show ?thesis
    proof (cases "sequenced t = []")
      case False
      then have "ar_sequence (last (sequenced t)) = Some (int (length (sequenced t)))"
        using linked_last [of env 0 None "sequenced t"] ok by (simp add: chain_ok_def)
      then show ?thesis using snoc.IH [OF ok] Some n sr False by (simp add: max_row_def)
    qed (use snoc.IH [OF ok] Some sr in \<open>simp add: max_row_def\<close>)
  qed
qed (simp add: sequenced_def)

lemma tip_of_chain:
  "chain_ok env t \<Longrightarrow>
     readChainTip t = \<lparr>tip_sequence = int (length (sequenced t)), tip_hash = end_hash None (sequenced t)\<rparr>"
  using linked_last [of env 0 None "sequenced t"]
  by (auto simp: readChainTip_def fold_tip end_hash_def chain_ok_def)

section \<open>Storage keeps the hash of faithful entries\<close>

text \<open>
  An entry the table can hold as it was hashed: no empty string where the row writes \<open>null\<close>, no
  member of the metadata \<open>undefined\<close>.
\<close>

definition faithful_entry :: "audit_entry \<Rightarrow> bool" where
  "faithful_entry e \<longleftrightarrow> en_resourceId e \<noteq> Some [] \<and> en_ipAddress e \<noteq> Some [] \<and> en_userAgent e \<noteq> Some [] \<and>
     (case en_metadata e of None \<Rightarrow> True | Some kvs \<Rightarrow> list_all (\<lambda>(k, v). v \<noteq> None) kvs)"

lemma or_null_faithful: "s \<noteq> Some [] \<Longrightarrow> or_null_string s = s"
  by (cases s) (simp_all add: or_null_string_def)

lemma stored_sel [simp]:
  "ar_sequence (stored col r) = ar_sequence r" "ar_entry_hash (stored col r) = ar_entry_hash r"
  "ar_prev_hash (stored col r) = ar_prev_hash r"
  by (simp_all add: stored_def)

lemma faithful_metadata:
  "list_all (\<lambda>(k, v). v \<noteq> None) kvs \<Longrightarrow> stored_metadata (Some kvs) = hashed_metadata (Some kvs)"
proof -
  assume a: "list_all (\<lambda>(k, v). v \<noteq> None) kvs"
  then have "filter (\<lambda>(k, v). v \<noteq> None) kvs = kvs" by (simp add: list_all_iff)
  moreover have "map (\<lambda>(k, v). (k, the v)) kvs = map (\<lambda>(k, v). (k, nullish v JNull)) kvs"
    using a by (auto simp: list_all_iff)
  ultimately show ?thesis by (simp add: stored_metadata_def hashed_metadata_def)
qed

lemma canonicalId_stored:
  "columns_ok env col \<Longrightarrow> canonicalId (map_option (col_uuid col) (or_null_string u)) = canonicalId u"
  by (cases u) (auto simp: canonicalId_def or_null_string_def columns_ok_def)

lemma metadata_stored:
  assumes "columns_ok env col" "m = None \<or> list_all (\<lambda>(k, v). v \<noteq> None) (the m)"
  shows "canonicalize code_unit_le (nullish (map_option (col_jsonb col) (stored_metadata m)) JNull) =
         canonicalize code_unit_le (nullish (hashed_metadata m) JNull)"
proof (cases m)
  case (Some kvs)
  with assms(2) have "stored_metadata m = hashed_metadata m" by (simp add: faithful_metadata)
  then show ?thesis using assms(1) Some by (simp add: hashed_metadata_def columns_ok_def)
qed (simp add: stored_metadata_def hashed_metadata_def)

lemma payload_values_stored:
  assumes "columns_ok env col" "or_null_string (en_resourceId e) = en_resourceId e"
    "or_null_string (en_ipAddress e) = en_ipAddress e" "or_null_string (en_userAgent e) = en_userAgent e"
  shows "payload_values env (row_fields (stored col (entry_row env c e s h))) =
    (payload_values env (entry_fields c e s h))
      [5 := canonicalize code_unit_le (nullish (map_option (col_jsonb col) (stored_metadata (en_metadata e))) JNull)]"
  using assms canonicalId_stored [OF assms(1), of "en_userId e"]
  by (simp add: payload_values_def row_fields_def stored_def entry_row_def entry_fields_def canonicalTimestamp_def
       columns_ok_def numeral_eq_Suc)

lemma stored_hash:
  assumes "columns_ok env col" "faithful_entry e"
  shows "hashForRow env (stored col (entry_row env c e s h)) = computeEntryHash env (entry_fields c e s h)"
proof -
  have "canonicalize code_unit_le (nullish (map_option (col_jsonb col) (stored_metadata (en_metadata e))) JNull) =
      payload_values env (entry_fields c e s h) ! 5"
    using metadata_stored [OF assms(1), of "en_metadata e"] assms(2)
    by (auto simp: payload_values_def entry_fields_def faithful_entry_def split: option.splits)
  then have "payload_values env (row_fields (stored col (entry_row env c e s h))) = payload_values env (entry_fields c e s h)"
    using payload_values_stored [OF assms(1), of e c s h] assms(2)
    by (simp add: faithful_entry_def or_null_faithful)
  then show ?thesis by (simp add: hashForRow_def computeEntryHash_def canonicalPayload_def)
qed

section \<open>Appending keeps the chain\<close>

lemma build_rows_linked:
  assumes "columns_ok env col" "\<And>s. au_hash env s \<noteq> []"
  shows "list_all faithful_entry es \<Longrightarrow> linked env s h (map (stored col) (build_rows env stamp i es s h))"
proof (induction es arbitrary: s h i)
  case (Cons e es)
  have h: "hashForRow env (stored col (entry_row env (stamp i) e (s + 1) h)) =
      computeEntryHash env (entry_fields (stamp i) e (s + 1) h)"
    using Cons.prems by (intro stored_hash [OF assms(1)]) simp
  have "ar_entry_hash (entry_row env (stamp i) e (s + 1) h) = Some (computeEntryHash env (entry_fields (stamp i) e (s + 1) h))"
    "ar_sequence (entry_row env (stamp i) e (s + 1) h) = Some (s + 1)"
    "ar_prev_hash (entry_row env (stamp i) e (s + 1) h) = h"
    by (simp_all add: entry_row_def)
  with Cons h assms(2) show ?case by (simp add: Let_def computeEntryHash_def)
qed simp

lemma append_batch_ok:
  assumes "columns_ok env col" "\<And>s. au_hash env s \<noteq> []" "chain_ok env t" "list_all faithful_entry es"
  shows "chain_ok env (t @ map (stored col) (buildChainedRows env stamp es (readChainTip t)))"
proof -
  let ?new = "map (stored col) (build_rows env stamp 0 es (int (length (sequenced t))) (end_hash None (sequenced t)))"
  have "linked env (int (length (sequenced t))) (end_hash None (sequenced t)) ?new"
    using assms by (intro build_rows_linked)
  moreover from this have "sequenced ?new = ?new" by (rule sequenced_linked)
  ultimately show ?thesis
    using assms(3) tip_of_chain [OF assms(3)] by (simp add: chain_ok_def linked_append buildChainedRows_def)
qed

lemma others_ok:
  assumes "columns_ok env col" "\<And>s. au_hash env s \<noteq> []"
  shows "chain_ok env t \<Longrightarrow> list_all (\<lambda>b. list_all faithful_entry (snd b)) bs \<Longrightarrow>
    chain_ok env (fold (append_batch env col) bs t) \<and> (\<exists>u. fold (append_batch env col) bs t = t @ u)"
proof (induction bs arbitrary: t)
  case (Cons b bs)
  have "chain_ok env (append_batch env col b t)"
    using Cons.prems append_batch_ok [OF assms] by (simp add: append_batch_def)
  then have "chain_ok env (fold (append_batch env col) bs (append_batch env col b t)) \<and>
      (\<exists>u. fold (append_batch env col) bs (append_batch env col b t) = append_batch env col b t @ u)"
    using Cons.prems(2) by (intro Cons.IH) simp_all
  moreover obtain v where "append_batch env col b t = t @ v" by (simp add: append_batch_def)
  ultimately show ?case by auto
qed simp

lemma build_rows_first: "build_rows env stamp i es s h \<noteq> [] \<Longrightarrow> ar_sequence (hd (build_rows env stamp i es s h)) = Some (s + 1)"
  by (cases es) (simp_all add: Let_def entry_row_def)

text \<open>If the insert did not clash, nobody took the sequence numbers in between.\<close>

lemma no_clash_same_tip:
  assumes "chain_ok env t" "chain_ok env (t @ u)" "rows = buildChainedRows env stamp es (readChainTip t)"
    and "\<not> clashes rows (t @ u)"
  shows "rows = [] \<or> readChainTip (t @ u) = readChainTip t"
proof (cases "sequenced u = []")
  case True
  then show ?thesis using assms(1,2) by (simp add: tip_of_chain)
next
  case False
  let ?n = "length (sequenced t)"
  have "?n < length (sequenced (t @ u))" using False by simp
  then have "ar_sequence (sequenced (t @ u) ! ?n) = Some (int ?n + 1)" "sequenced (t @ u) ! ?n \<in> set (t @ u)"
    using linked_nth [of env 0 None "sequenced (t @ u)" ?n] assms(2) nth_mem [of ?n "sequenced (t @ u)"]
    by (auto simp: chain_ok_def sequenced_def)
  then obtain q where q: "q \<in> set (t @ u)" "ar_sequence q = Some (int ?n + 1)" by blast
  have "clashes rows (t @ u)" if ne: "rows \<noteq> []"
  proof -
    have "ar_sequence (hd rows) = Some (int ?n + 1)"
      using build_rows_first [of env stamp 0 es] ne assms(3) tip_of_chain [OF assms(1)] by (simp add: buildChainedRows_def)
    with q hd_in_set [OF ne] show ?thesis unfolding clashes_def list_ex_iff by (metis option.distinct(1))
  qed
  with assms(4) show ?thesis by blast
qed

definition faithful_attempt :: "columns \<Rightarrow> attempt \<Rightarrow> bool" where
  "faithful_attempt col a \<longleftrightarrow> insert_ok col (at_insert a) \<and> list_all (\<lambda>b. list_all faithful_entry (snd b)) (at_others a)"

lemma attempts_ok:
  assumes "columns_ok env col" "\<And>s. au_hash env s \<noteq> []" "list_all faithful_entry es"
  shows "chain_ok env t \<Longrightarrow> list_all (faithful_attempt col) as \<Longrightarrow>
    chain_ok env (snd (append_attempts env col es as err t)) \<and> (\<exists>u. snd (append_attempts env col es as err t) = t @ u)"
proof (induction as arbitrary: t err)
  case (Cons a as)
  let ?rows = "buildChainedRows env (at_stamp a) es (readChainTip t)"
  let ?t1 = "fold (append_batch env col) (at_others a) t"
  obtain u where u: "?t1 = t @ u" and ok: "chain_ok env ?t1"
    using others_ok [OF assms(1,2) Cons.prems(1), of "at_others a"] Cons.prems(2) by (auto simp: faithful_attempt_def)
  have new: "chain_ok env (?t1 @ map (stored col) ?rows)" if "\<not> clashes ?rows ?t1"
    using no_clash_same_tip [OF Cons.prems(1) ok [unfolded u] refl, of "at_stamp a" es] that
      append_batch_ok [OF assms(1,2) ok assms(3), of "at_stamp a"] ok by (auto simp: u)
  have rest: "chain_ok env (snd (append_attempts env col es as Unique_violation ?t1)) \<and>
      (\<exists>v. snd (append_attempts env col es as Unique_violation ?t1) = ?t1 @ v)"
    using Cons.prems(2) by (intro Cons.IH ok) simp
  have ins: "case at_insert a ?rows ?t1 of (None, t') \<Rightarrow> \<not> clashes ?rows ?t1 \<and> t' = ?t1 @ map (stored col) ?rows
      | (Some e, t') \<Rightarrow> t' = ?t1"
    using Cons.prems(2) by (simp add: faithful_attempt_def insert_ok_def)
  show ?case
  proof (cases "at_readFailure a")
    case None
    obtain r t2 where r: "at_insert a ?rows ?t1 = (r, t2)" by (cases "at_insert a ?rows ?t1")
    show ?thesis
    proof (cases r)
      case None
      then show ?thesis using \<open>at_readFailure a = None\<close> new ins r u by (auto simp: Let_def)
    next
      case (Some e)
      then show ?thesis using \<open>at_readFailure a = None\<close> ok rest ins r u by (cases e) (auto simp: Let_def)
    qed
  qed (use Cons.prems(1) in simp)
qed simp

lemma appendChained_ok:
  assumes "columns_ok env col" "\<And>s. au_hash env s \<noteq> []" "list_all faithful_entry es" "chain_ok env t"
    and "\<And>k. faithful_attempt col (att k)"
  shows "chain_ok env (snd (appendChained env col es att t)) \<and> (\<exists>u. snd (appendChained env col es att t) = t @ u)"
  unfolding appendChained_def using assms by (intro attempts_ok) (simp_all add: list_all_iff)

lemma insertBatch_ok:
  assumes "columns_ok env col" "\<And>s. au_hash env s \<noteq> []" "list_all faithful_entry es" "chain_ok env t"
    and "\<And>k. faithful_attempt col (att k)"
  shows "chain_ok env (snd (insertBatch env col es att t)) \<and> (\<exists>u. snd (insertBatch env col es att t) = t @ u)"
proof -
  let ?v = "filter (\<lambda>e. validateEntry e = None) es"
  have "chain_ok env (snd (appendChained env col ?v att t)) \<and> (\<exists>u. snd (appendChained env col ?v att t) = t @ u)"
    using assms by (intro appendChained_ok) (auto simp: list_all_iff)
  then show ?thesis using assms(4)
    by (auto simp: insertBatch_def Let_def split_def split: sum.splits)
qed

section \<open>Windows of a chain verify\<close>

lemma rows_valid_weaken:
  "rows_valid env (Some h) (Some s) xs \<Longrightarrow> a \<in> {None, Some h} \<Longrightarrow> l \<in> {None, Some s} \<Longrightarrow> rows_valid env a l xs"
  by (induction xs) auto

lemma window_tail:
  "linked env s h xs \<Longrightarrow> case wo_startSequence w of None \<Rightarrow> True | Some b \<Rightarrow> b \<le> s + 1 \<Longrightarrow>
     rows_valid env (Some h) (Some s) (take n (filter (in_window w) xs))"
proof (induction xs arbitrary: s h n)
  case (Cons r rs)
  note l = Cons.prems(1)
  show ?case
  proof (cases "in_window w r")
    case True
    have "rows_valid env (Some (ar_entry_hash r)) (Some (s + 1)) (take (n - 1) (filter (in_window w) rs))"
      using l Cons.prems(2) by (intro Cons.IH) (auto split: option.splits)
    then show ?thesis using True l by (cases n) (auto simp: is_chained_def)
  next
    case False
    then obtain e where e: "wo_endSequence w = Some e" "e < s + 1"
      using l Cons.prems(2) by (auto simp: in_window_def split: option.splits)
    have "\<not> in_window w q" if qin: "q \<in> set rs" for q
    proof -
      obtain k where "k < length rs" "rs ! k = q" using qin by (auto simp: in_set_conv_nth)
      moreover have "linked env (s + 1) (ar_entry_hash r) rs" using l unfolding linked.simps by blast
      ultimately have "ar_sequence q = Some (s + 1 + 1 + int k)" using linked_nth by blast
      then show ?thesis using e by (simp add: in_window_def)
    qed
    then have "filter (in_window w) rs = []" by (simp add: filter_empty_conv)
    then show ?thesis using False by simp
  qed
qed simp

lemma linked_sorted: "linked env s h xs \<Longrightarrow> sorted (map (\<lambda>r. the (ar_sequence r)) xs)"
  by (auto simp: sorted_iff_nth_mono linked_nth)

lemma window_of_chain:
  assumes "chain_ok env t"
  shows "select_window w t = take (min (nullish (wo_limit w) 1000) 10000) (filter (in_window w) (sequenced t))"
proof -
  have f: "filter (in_window w) t = filter (in_window w) (sequenced t)"
    by (auto simp: sequenced_def in_window_def intro!: filter_cong split: option.splits)
  have "sorted (map (\<lambda>r. the (ar_sequence r)) (filter (in_window w) (sequenced t)))"
    using linked_sorted [of env 0 None "sequenced t"] assms by (auto simp: chain_ok_def intro: sorted_filter)
  then show ?thesis by (simp add: select_window_def f sort_key_id_if_sorted)
qed

lemma find_sequence:
  assumes "chain_ok env t" "q \<in> set (sequenced t)" "ar_sequence q = Some n"
  shows "List.find (\<lambda>p. ar_sequence p = Some n) t = Some q"
proof -
  have qt: "q \<in> set t" using assms(2) by (auto simp: sequenced_def)
  then obtain p where p: "List.find (\<lambda>p. ar_sequence p = Some n) t = Some p"
    using assms(3) by (cases "List.find (\<lambda>p. ar_sequence p = Some n) t") (auto simp: find_None_all)
  then have "p \<in> set (sequenced t)" "ar_sequence p = Some n"
    using find_Some_in [OF p] by (auto simp: sequenced_def)
  then have "p = q" using assms linked_unique [of env 0 None "sequenced t" p q] by (simp add: chain_ok_def)
  with p show ?thesis by simp
qed

lemma verify_window:
  assumes ok: "chain_ok env t"
  shows "cv_valid (verifyChain env w t)"
proof (cases "filter (in_window w) (sequenced t)")
  case Nil
  then show ?thesis by (simp add: verifyChain_def window_of_chain [OF ok] Let_def verify_valid_iff)
next
  case (Cons r zs)
  then obtain us vs where split: "sequenced t = us @ r # vs" "\<forall>u\<in>set us. \<not> in_window w u" "in_window w r"
    by (auto simp: filter_eq_Cons_iff)
  let ?m = "min (nullish (wo_limit w) 1000) 10000"
  let ?h = "end_hash None us"
  have l: "linked env 0 None us" "linked env (int (length us)) ?h (r # vs)"
    using ok by (auto simp: chain_ok_def split linked_append)
  have sr: "ar_sequence r = Some (int (length us) + 1)" using l(2) by simp
  have "filter (in_window w) (sequenced t) = filter (in_window w) (r # vs)" using split by (simp add: filter_empty_conv)
  moreover have "rows_valid env (Some ?h) (Some (int (length us))) (take ?m (filter (in_window w) (r # vs)))"
    using l(2) split(3) sr by (intro window_tail) (auto simp: in_window_def split: option.splits)
  ultimately have v: "rows_valid env (Some ?h) (Some (int (length us))) (select_window w t)"
    by (simp add: window_of_chain [OF ok])
  have "anchor_for (select_window w t) t \<in> {None, Some ?h}"
  proof (cases "select_window w t")
    case (Cons r' rs')
    then have r': "r' = r" using \<open>filter (in_window w) (sequenced t) = r # zs\<close>
      by (cases ?m) (auto simp: window_of_chain [OF ok])
    show ?thesis
    proof (cases "us = []")
      case False
      then have "ar_sequence (last us) = Some (int (length us))" using linked_last [OF l(1)] by simp
      moreover have "last us \<in> set (sequenced t)" using False by (simp add: split)
      ultimately have "List.find (\<lambda>p. ar_sequence p = Some (int (length us))) t = Some (last us)"
        by (intro find_sequence [OF ok])
      then show ?thesis using Cons r' sr False by (simp add: anchor_for_def end_hash_def)
    qed (use Cons r' sr in \<open>simp add: anchor_for_def end_hash_def\<close>)
  qed (simp add: anchor_for_def)
  then show ?thesis
    using rows_valid_weaken [OF v] by (simp add: verifyChain_def Let_def verify_valid_iff)
qed

section \<open>Properties\<close>

fun run_batches :: "audit_env \<Rightarrow> columns \<Rightarrow> (audit_entry list \<times> (nat \<Rightarrow> attempt)) list \<Rightarrow> audit_table \<Rightarrow> audit_table" where
  "run_batches env col [] t = t"
| "run_batches env col ((es, att) # bs) t = run_batches env col bs (snd (insertBatch env col es att t))"

lemma run_batches_ok:
  assumes "columns_ok env col" "\<And>s. au_hash env s \<noteq> []"
  shows "chain_ok env t \<Longrightarrow> \<forall>(es, att)\<in>set bs. list_all faithful_entry es \<and> (\<forall>k. faithful_attempt col (att k)) \<Longrightarrow>
    chain_ok env (run_batches env col bs t) \<and> (\<exists>u. run_batches env col bs t = t @ u)"
proof (induction bs arbitrary: t)
  case (Cons b bs)
  obtain es att where b: "b = (es, att)" by (cases b)
  have i: "chain_ok env (snd (insertBatch env col es att t)) \<and> (\<exists>u. snd (insertBatch env col es att t) = t @ u)"
    using Cons.prems by (intro insertBatch_ok [OF assms]) (auto simp: b)
  then have "chain_ok env (run_batches env col bs (snd (insertBatch env col es att t))) \<and>
      (\<exists>u. run_batches env col bs (snd (insertBatch env col es att t)) = snd (insertBatch env col es att t) @ u)"
    using Cons.prems(2) by (intro Cons.IH) auto
  with i show ?case by (auto simp: b)
qed simp


definition demo_audit_env :: audit_env where
  "demo_audit_env = \<lparr>au_hash = (\<lambda>s. show_nat (length s)), au_number = (\<lambda>n. show_int \<lfloor>n\<rfloor>), au_parseDate = (\<lambda>_. None)\<rparr>"

definition plain_columns :: columns where
  "plain_columns = \<lparr>col_uuid = (\<lambda>s. s), col_jsonb = (\<lambda>v. v), col_timestamp = (\<lambda>s. s)\<rparr>"

definition demo_entry :: "string \<Rightarrow> audit_entry" where
  "demo_entry a = \<lparr>en_userId = Some ''U1'', en_action = a, en_resourceType = ''key'', en_resourceId = Some ''k'',
     en_metadata = Some [(''b'', Some (JBool True)), (''a'', Some JNull)], en_ipAddress = None, en_userAgent = None\<rparr>"

definition plain_insert :: "insert_op" where
  "plain_insert rows t = (if clashes rows t then (Some Unique_violation, t) else (None, t @ map (stored plain_columns) rows))"

lemma plain_insert_ok: "insert_ok plain_columns plain_insert"
  by (simp add: insert_ok_def plain_insert_def)

definition demo_attempt :: "nat \<Rightarrow> attempt" where
  "demo_attempt k = \<lparr>at_readFailure = None, at_stamp = (\<lambda>_. ''t''), at_others = (if k = 0 then [((\<lambda>_. ''t''), [demo_entry ''other''])] else []),
     at_insert = plain_insert\<rparr>"

lemma plain_columns_ok: "columns_ok demo_audit_env plain_columns"
  by (simp add: columns_ok_def plain_columns_def)

lemma demo_hash: "au_hash demo_audit_env s \<noteq> []" "is_hex (au_hash demo_audit_env s)"
proof -
  show "au_hash demo_audit_env s \<noteq> []" by (simp add: demo_audit_env_def show_nat.simps [of "length s"])
  have "hex_value c \<noteq> None" if "c \<in> set (show_nat n)" for c n
    using show_nat_digits [OF that] by (simp add: hex_value_def Let_def)
  then show "is_hex (au_hash demo_audit_env s)" by (simp add: is_hex_def list_all_iff demo_audit_env_def)
qed

lemma demo_faithful: "faithful_entry (demo_entry a)" "faithful_attempt plain_columns (demo_attempt k)"
  by (simp_all add: faithful_entry_def demo_entry_def faithful_attempt_def demo_attempt_def plain_insert_ok)


text \<open>
  C10: a chain cannot be rewritten.  Take two runs of rows of the same length that both verify,
  whatever they are expected to link to, with every row chained, and ending in the same hash.
  If the hash function gives hexadecimal text and has no collision among the payloads of the
  two runs, the two runs have the same payload in every position: an edit of any row, even one
  that recomputes the hashes after it, shows in the last hash.
\<close>

theorem audit_history_binding:
  assumes "\<forall>s. is_hex (au_hash env s)" "length xs = length ys" "xs \<noteq> []"
    and "cv_valid (verifyChainRows env xs e)" "cv_valid (verifyChainRows env ys e')"
    and "list_all is_chained xs" "list_all is_chained ys"
    and "inj_on (au_hash env) ((canonicalPayload env \<circ> row_fields) ` (set xs \<union> set ys))"
    and "ar_entry_hash (last xs) = ar_entry_hash (last ys)"
  shows "map (canonicalPayload env \<circ> row_fields) xs = map (canonicalPayload env \<circ> row_fields) ys"
  using assms by (intro same_end_same_payloads) (auto simp: verify_valid_iff)

definition demo_row :: audit_row where
  "demo_row = stored plain_columns (entry_row demo_audit_env ''t'' (demo_entry ''x'') 1 None)"

lemma demo_row_valid: "rows_valid demo_audit_env None None [demo_row]" "is_chained demo_row"
proof -
  have "hashForRow demo_audit_env demo_row = computeEntryHash demo_audit_env (entry_fields ''t'' (demo_entry ''x'') 1 None)"
    unfolding demo_row_def by (rule stored_hash [OF plain_columns_ok demo_faithful(1)])
  moreover have "ar_entry_hash demo_row = Some (computeEntryHash demo_audit_env (entry_fields ''t'' (demo_entry ''x'') 1 None))"
    "ar_sequence demo_row = Some 1"
    by (simp_all add: demo_row_def entry_row_def)
  ultimately show "rows_valid demo_audit_env None None [demo_row]" "is_chained demo_row"
    by (simp_all add: is_chained_def computeEntryHash_def demo_hash)
qed

theorem audit_history_binding_witness:
  "map (canonicalPayload demo_audit_env \<circ> row_fields) [demo_row] = map (canonicalPayload demo_audit_env \<circ> row_fields) [demo_row]"
  using demo_row_valid
  by (intro audit_history_binding [of demo_audit_env "[demo_row]" "[demo_row]" None None])
     (simp_all add: demo_hash verify_valid_iff)

text \<open>
  clearing hashes at the end of the log goes unnoticed.  Whatever rows replace a suffix of a
  verifying run, the result still verifies if they have no entry hash: the verifier counts them
  as entries from before the chain existed, so recent entries can be edited or replaced.
\<close>

theorem cleared_tail_accepted:
  assumes "cv_valid (verifyChainRows env rows e)" "\<forall>r\<in>set forged. ar_entry_hash r = None"
  shows "cv_valid (verifyChainRows env (take k rows @ forged) e)"
proof -
  have "rows_valid env e None (take k rows @ drop k rows)" using assms(1) by (simp add: verify_valid_iff)
  then have "rows_valid env e None (take k rows)" unfolding rows_valid_append by simp
  moreover have "list_all (\<lambda>r. \<not> is_chained r) forged" using assms(2) by (simp add: list_all_iff is_chained_def)
  ultimately show ?thesis
    by (auto simp: verify_valid_iff rows_valid_append intro: rows_valid_unchained split: list.splits)
qed

theorem cleared_tail_accepted_witness:
  "cv_valid (verifyChainRows demo_audit_env [demo_row\<lparr>ar_action := Some ''forged'', ar_entry_hash := None\<rparr>] None)"
  using cleared_tail_accepted [of demo_audit_env "[demo_row]" None "[demo_row\<lparr>ar_action := Some ''forged'', ar_entry_hash := None\<rparr>]" 0]
    demo_row_valid(1)
  by (simp add: verify_valid_iff)

section \<open>Undefined members\<close>

lemma length_join: "length (join sep xs) = sum_list (map length xs) + (length xs - 1) * length sep"
  by (induction sep xs rule: join.induct) auto

lemma length_sort_by [simp]: "length (sort_by le xs) = length xs"
  by (metis mset_sort_by size_mset)

lemma sum_sort_by: "sum_list (map f (sort_by le xs)) = sum_list (map f xs :: nat list)"
  by (metis mset_map mset_sort_by sum_mset_sum_list)

definition canonical_length :: "audit_env \<Rightarrow> json \<Rightarrow> nat" where
  "canonical_length env v = length (json_stringify (au_number env) (canonicalize code_unit_le v))"

lemma canonical_length_obj:
  "canonical_length env (JObj kvs) =
     2 + sum_list (map (\<lambda>(k, v). length (quote k) + 1 + canonical_length env v) kvs) + (length kvs - 1)"
proof -
  let ?c = "\<lambda>(k, v). (k, canonicalize code_unit_le v)"
  let ?f = "\<lambda>p. length (field_text (fst p, json_stringify (au_number env) (snd p)))"
  have "canonical_length env (JObj kvs) = 2 + sum_list (map ?f (sort_by code_unit_le (map ?c kvs))) + (length kvs - 1)"
    by (simp add: canonical_length_def length_join comp_def split_def)
  also have "sum_list (map ?f (sort_by code_unit_le (map ?c kvs))) = sum_list (map ?f (map ?c kvs))"
    by (rule sum_sort_by)
  also have "map ?f (map ?c kvs) = map (\<lambda>(k, v). length (quote k) + 1 + canonical_length env v) kvs"
    by (auto simp: field_text_def canonical_length_def)
  finally show ?thesis .
qed

lemma sum_filter_less:
  fixes f :: "'a \<Rightarrow> nat"
  assumes "0 < f x" "x \<in> set xs" "\<not> P x"
  shows "sum_list (map f (filter P xs)) < sum_list (map f xs)"
proof -
  have le: "sum_list (map f (filter P ys)) \<le> sum_list (map f ys)" for ys by (induction ys) auto
  obtain us vs where "xs = us @ x # vs" using assms(2) by (meson split_list)
  then show ?thesis using assms(1,3) le [of us] le [of vs] by simp
qed

lemma absent_member_shorter:
  assumes "(k, None) \<in> set kvs"
  shows "canonical_length env (the (stored_metadata (Some kvs))) < canonical_length env (the (hashed_metadata (Some kvs)))"
proof -
  let ?g = "\<lambda>(k, v). length (quote k) + 1 + canonical_length env v"
  let ?f = "\<lambda>(k, v). length (quote k) + 1 + canonical_length env (nullish v JNull)"
  let ?P = "\<lambda>(k, v). v \<noteq> (None :: json option)"
  have "map ?g (map (\<lambda>(k, v). (k, the v)) (filter ?P kvs)) = map ?f (filter ?P kvs)" by auto
  then have a: "canonical_length env (the (stored_metadata (Some kvs))) =
      2 + sum_list (map ?f (filter ?P kvs)) + (length (filter ?P kvs) - 1)"
    by (simp only: stored_metadata_def option.map option.sel canonical_length_obj length_map)
  have "map ?g (map (\<lambda>(k, v). (k, nullish v JNull)) kvs) = map ?f kvs" by auto
  then have b: "canonical_length env (the (hashed_metadata (Some kvs))) = 2 + sum_list (map ?f kvs) + (length kvs - 1)"
    by (simp only: hashed_metadata_def option.map option.sel canonical_length_obj length_map)
  have "sum_list (map ?f (filter ?P kvs)) < sum_list (map ?f kvs)"
    by (rule sum_filter_less [OF _ assms]) simp_all
  moreover have "length (filter ?P kvs) - 1 \<le> length kvs - 1" by (intro diff_le_mono) simp
  ultimately show ?thesis unfolding a b by linarith
qed

text \<open>
  an entry with an undefined metadata member is later reported as tampered with.  The hash is
  computed with the member as \<open>null\<close>, the stored document does not have it.  Appending such an
  entry, with everything else in order, succeeds, and the row it leaves fails verification,
  unless the hash function has a collision on exactly the two payloads.  Nearly every event
  function passes \<open>sourceAddress\<close> on without a default.
\<close>

theorem undefined_member_flagged:
  assumes "columns_ok env col" "\<forall>s. au_hash env s \<noteq> []" "en_metadata e = Some kvs" "(k, None) \<in> set kvs"
    and "validateEntry e = None" "or_null_string (en_resourceId e) = en_resourceId e"
    and "or_null_string (en_ipAddress e) = en_ipAddress e" "or_null_string (en_userAgent e) = en_userAgent e"
    and "at_readFailure (att 0) = None" "at_others (att 0) = []" "insert_ok col (at_insert (att 0))"
    and "fst (at_insert (att 0) (buildChainedRows env (at_stamp (att 0)) [e] (readChainTip t)) t) = None"
    and "row = stored col (entry_row env (at_stamp (att 0) 0) e (tip_sequence (readChainTip t) + 1) (tip_hash (readChainTip t)))"
    and "inj_on (au_hash env) {canonicalPayload env (row_fields row),
           canonicalPayload env (entry_fields (at_stamp (att 0) 0) e (tip_sequence (readChainTip t) + 1) (tip_hash (readChainTip t)))}"
  shows "insertEntry env col e att t = (Inserted, t @ [row]) \<and> \<not> cv_valid (verifyChainRows env [row] a)"
proof
  let ?s = "tip_sequence (readChainTip t) + 1" and ?h = "tip_hash (readChainTip t)" and ?c = "at_stamp (att 0) 0"
  let ?new = "buildChainedRows env (at_stamp (att 0)) [e] (readChainTip t)"
  have new: "?new = [entry_row env ?c e ?s ?h]" by (simp add: buildChainedRows_def)
  have "at_insert (att 0) ?new t = (None, t @ map (stored col) ?new)"
  proof -
    have "case at_insert (att 0) ?new t of (None, t') \<Rightarrow> \<not> clashes ?new t \<and> t' = t @ map (stored col) ?new
        | (Some e, t') \<Rightarrow> t' = t"
      by (rule spec [OF spec [OF assms(11) [unfolded insert_ok_def]]])
    then show ?thesis using assms(12) by (cases "at_insert (att 0) ?new t") auto
  qed
  moreover have "[0..<CHAIN_WRITE_RETRIES] = [0, 1, 2]" by (simp add: CHAIN_WRITE_RETRIES_def upt_conv_Cons)
  ultimately show "insertEntry env col e att t = (Inserted, t @ [row])"
    using assms(5,9,10,13) by (simp add: insertEntry_def appendChained_def Let_def new)
  let ?vs = "payload_values env (entry_fields ?c e ?s ?h)"
  let ?m = "canonicalize code_unit_le (col_jsonb col (the (stored_metadata (en_metadata e))))"
  have pv: "payload_values env (row_fields row) = ?vs[5 := ?m]"
    using payload_values_stored [OF assms(1) assms(6-8), of ?c ?s ?h] assms(3,13) by (simp add: stored_metadata_def)
  have "?vs ! 5 = canonicalize code_unit_le (the (hashed_metadata (en_metadata e)))"
    using assms(3) by (simp add: payload_values_def entry_fields_def hashed_metadata_def)
  moreover have "?m = canonicalize code_unit_le (the (stored_metadata (en_metadata e)))"
    using assms(1) by (simp add: columns_ok_def)
  ultimately have lt: "length (json_stringify (au_number env) ?m) < length (json_stringify (au_number env) (?vs ! 5))"
    using absent_member_shorter [OF assms(4), of env] assms(3) by (simp add: canonical_length_def)
  have "canonicalPayload env (row_fields row) \<noteq> canonicalPayload env (entry_fields ?c e ?s ?h)"
  proof
    assume eq: "canonicalPayload env (row_fields row) = canonicalPayload env (entry_fields ?c e ?s ?h)"
    have "length (canonicalPayload env (row_fields row)) < length (canonicalPayload env (entry_fields ?c e ?s ?h))"
      using lt by (simp add: canonicalPayload_def pv length_join) (simp add: payload_values_def numeral_eq_Suc)
    with eq show False by simp
  qed
  then have "hashForRow env row \<noteq> computeEntryHash env (entry_fields ?c e ?s ?h)"
    using assms(14) by (auto simp: hashForRow_def computeEntryHash_def inj_on_def)
  moreover have "ar_entry_hash row = Some (computeEntryHash env (entry_fields ?c e ?s ?h))" "ar_sequence row = Some ?s"
    using assms(13) by (simp_all add: entry_row_def)
  ultimately show "\<not> cv_valid (verifyChainRows env [row] a)"
    using assms(2) by (simp add: verify_valid_iff is_chained_def computeEntryHash_def)
qed

theorem undefined_member_flagged_witness:
  "let e = auditAgentRegistered (Some ''q'') ''u'' ''a''
             \<lparr>em_ipAddress = None, em_userAgent = None, em_before = None, em_after = None,
              em_correlationId = None, em_sourceAddress = None\<rparr>;
       att = (\<lambda>_. \<lparr>at_readFailure = None, at_stamp = (\<lambda>_. ''t''), at_others = [], at_insert = plain_insert\<rparr>);
       row = stored plain_columns (entry_row demo_audit_env ''t'' e 1 None)
   in insertEntry demo_audit_env plain_columns e att [] = (Inserted, [row]) \<and> \<not> cv_valid (verifyChainRows demo_audit_env [row] None)"
proof -
  let ?m = "\<lparr>em_ipAddress = None, em_userAgent = None, em_before = None, em_after = None,
              em_correlationId = None, em_sourceAddress = None\<rparr> :: event_meta"
  let ?e = "auditAgentRegistered (Some ''q'') ''u'' ''a'' ?m"
  let ?att = "(\<lambda>_. \<lparr>at_readFailure = None, at_stamp = (\<lambda>_. ''t''), at_others = [], at_insert = plain_insert\<rparr>) :: nat \<Rightarrow> attempt"
  let ?row = "stored plain_columns (entry_row demo_audit_env ''t'' ?e 1 None)"
  have tip: "readChainTip [] = \<lparr>tip_sequence = 0, tip_hash = None\<rparr>" by (simp add: readChainTip_def)
  have meta: "en_metadata ?e = Some (correlation (Some ''q'') ?m # change_of ?m)"
    by (simp add: auditAgentRegistered_def event_entry_def)
  have mem: "(''sourceAddress'', None) \<in> set (correlation (Some ''q'') ?m # change_of ?m)"
    by (simp add: change_of_def js_str_def)
  have plain: "validateEntry ?e = None" "or_null_string (en_resourceId ?e) = en_resourceId ?e"
    "or_null_string (en_ipAddress ?e) = en_ipAddress ?e" "or_null_string (en_userAgent ?e) = en_userAgent ?e"
    by (simp_all add: validateEntry_def auditAgentRegistered_def event_entry_def or_null_string_def)
  have ins: "fst (plain_insert rows []) = None" for rows
    by (simp add: plain_insert_def clashes_def list_ex_iff)
  have "length (canonicalPayload demo_audit_env (row_fields ?row)) \<noteq> length (canonicalPayload demo_audit_env (entry_fields ''t'' ?e 1 None))"
    by code_simp
  then have inj: "inj_on (au_hash demo_audit_env) {canonicalPayload demo_audit_env (row_fields ?row),
      canonicalPayload demo_audit_env (entry_fields ''t'' ?e 1 None)}"
    by (auto simp: inj_on_def demo_audit_env_def dest: show_nat_inj)
  show ?thesis
    using undefined_member_flagged [OF plain_columns_ok _ meta mem plain, of ?att "[]" ?row None] inj ins
    by (simp add: demo_hash tip plain_insert_ok Let_def)
qed

end
