(* ===== verification/ProofVerifier.thy ===== *)
theory ProofVerifier
  imports Prelude
begin

text \<open>
  The verifier of off-chain payment proofs (\<open>backend/src/services/payment-proof-verifier.ts\<close>):
  the set of seen nonces, the canonical request hash, the signed material and \<open>verify\<close>.
  SHA-256, HMAC and the texts of a number and of a date are fields of \<open>proof_env\<close>.  \<open>verify\<close> reads the
  clock for the freshness check, in \<open>has\<close> and when it records the nonce; the three readings
  are the fields of \<open>proof_clock\<close>.
\<close>

definition proof_freshness_ms :: int where
  "proof_freshness_ms = 5 * 60 * 1000"

definition NONCE_TTL_MS :: int where
  "NONCE_TTL_MS = proof_freshness_ms * 2"

record gateway_proof =
  gp_channelId :: string
  gp_requestHash :: string
  gp_nonce :: string
  gp_timestamp :: millis
  gp_amount :: amount
  gp_signature :: string

datatype proof_error_code =
    PROOF_INVALID_STRUCTURE | PROOF_INVALID_REQUEST_HASH | PROOF_INVALID_AMOUNT | PROOF_EXPIRED
  | PROOF_ALREADY_USED | PROOF_INVALID_SIGNATURE | PROOF_CHANNEL_MISMATCH

section \<open>The set of seen nonces\<close>

type_synonym seen_nonces = "(string, millis) jsmap"

definition nonce_key :: "string \<Rightarrow> string \<Rightarrow> string" where
  "nonce_key channelId n = channelId @ '':'' @ n"

definition seen_has :: "string \<Rightarrow> millis \<Rightarrow> seen_nonces \<Rightarrow> bool \<times> seen_nonces" where
  "seen_has k now m =
     (case js_get m k of
        None \<Rightarrow> (False, m)
      | Some e \<Rightarrow> if e < now then (False, js_delete k m) else (True, m))"

definition seen_put :: "string \<Rightarrow> millis \<Rightarrow> seen_nonces \<Rightarrow> seen_nonces" where
  "seen_put k now m = js_set k (now + NONCE_TTL_MS) m"

definition seen_record :: "string \<Rightarrow> millis \<Rightarrow> millis \<Rightarrow> seen_nonces \<Rightarrow> bool \<times> seen_nonces" where
  "seen_record k nowHas nowPut m =
     (case seen_has k nowHas m of (True, m') \<Rightarrow> (False, m') | (False, m') \<Rightarrow> (True, seen_put k nowPut m'))"

definition purgeExpired :: "millis \<Rightarrow> seen_nonces \<Rightarrow> seen_nonces" where
  "purgeExpired now m = js_keep (\<lambda>e. \<not> e < now) m"

text \<open>
  The contract of a set of seen nonces, as the verifier uses it: what is recorded is held for
  the lifetime, and holding survives looking up, recording and purging at clocks within it.
\<close>

locale seen_set =
  fixes has :: "'k \<Rightarrow> millis \<Rightarrow> 's \<Rightarrow> bool \<times> 's"
    and put :: "'k \<Rightarrow> millis \<Rightarrow> 's \<Rightarrow> 's"
    and purge :: "millis \<Rightarrow> 's \<Rightarrow> 's"
    and held :: "'k \<Rightarrow> millis \<Rightarrow> 's \<Rightarrow> bool"
    and ok :: "'s \<Rightarrow> bool"
    and ttl :: int
  assumes put_held: "ok s \<Longrightarrow> held k (now + ttl) (put k now s)"
    and put_keeps: "held k T s \<Longrightarrow> T \<le> now + ttl \<Longrightarrow> held k T (put k' now s)"
    and has_held: "held k T s \<Longrightarrow> now \<le> T \<Longrightarrow> fst (has k now s)"
    and has_keeps: "held k T s \<Longrightarrow> now \<le> T \<Longrightarrow> held k T (snd (has k' now s))"
    and purge_keeps: "held k T s \<Longrightarrow> now \<le> T \<Longrightarrow> held k T (purge now s)"
    and ok_put: "ok s \<Longrightarrow> ok (put k now s)"
    and ok_has: "ok s \<Longrightarrow> ok (snd (has k now s))"
    and ok_purge: "ok s \<Longrightarrow> ok (purge now s)"
begin

text \<open>Looking up and recording in one go, as the verifier does.\<close>

definition record_k :: "'k \<Rightarrow> millis \<Rightarrow> millis \<Rightarrow> 's \<Rightarrow> bool \<times> 's" where
  "record_k k nowHas nowPut s =
     (case has k nowHas s of (True, s') \<Rightarrow> (False, s') | (False, s') \<Rightarrow> (True, put k nowPut s'))"

lemma record_refuses: "held k T s \<Longrightarrow> nowHas \<le> T \<Longrightarrow> \<not> fst (record_k k nowHas nowPut s)"
  using has_held [of k T s nowHas] by (auto simp: record_k_def split: prod.splits bool.splits)

lemma record_held: "ok s \<Longrightarrow> fst (record_k k nowHas nowPut s) \<Longrightarrow> held k (nowPut + ttl) (snd (record_k k nowHas nowPut s))"
  using ok_has [of s k nowHas] by (auto simp: record_k_def intro: put_held split: prod.splits bool.splits)

lemma record_keeps:
  "held k T s \<Longrightarrow> nowHas \<le> T \<Longrightarrow> T \<le> nowPut + ttl \<Longrightarrow> held k T (snd (record_k k' nowHas nowPut s))"
  using has_keeps [of k T s nowHas k'] by (auto simp: record_k_def intro: put_keeps split: prod.splits bool.splits)

lemma record_ok: "ok s \<Longrightarrow> ok (snd (record_k k nowHas nowPut s))"
  using ok_has [of s k nowHas] by (auto simp: record_k_def intro: ok_put split: prod.splits bool.splits)

end

definition seen_held :: "string \<Rightarrow> millis \<Rightarrow> seen_nonces \<Rightarrow> bool" where
  "seen_held k T m \<longleftrightarrow> js_wf m \<and> (case js_get m k of None \<Rightarrow> False | Some e \<Rightarrow> T \<le> e)"

interpretation seen: seen_set seen_has seen_put purgeExpired seen_held js_wf NONCE_TTL_MS
  by unfold_locales
     (auto simp: seen_held_def seen_put_def seen_has_def purgeExpired_def split: option.splits if_splits)

lemma seen_record_eq: "seen_record = seen.record_k"
  by (simp add: fun_eq_iff seen_record_def seen.record_k_def)

section \<open>The proof\<close>

record proof_env =
  pe_sha256 :: "string \<Rightarrow> string"
  pe_hmac :: "string \<Rightarrow> string \<Rightarrow> string"
  pe_number :: "amount \<Rightarrow> string"
  pe_iso :: "millis \<Rightarrow> string"
  pe_secret :: string

record proof_clock =
  clk_fresh :: millis
  clk_has :: millis
  clk_put :: millis

definition computeRequestHash :: "proof_env \<Rightarrow> string \<Rightarrow> string \<Rightarrow> string \<Rightarrow> string" where
  "computeRequestHash env m path body =
     pe_sha256 env (toUpperCase m @ [CHR 0x00] @ path @ [CHR 0x00] @ body)"

definition buildSignedMaterial :: "proof_env \<Rightarrow> gateway_proof \<Rightarrow> string" where
  "buildSignedMaterial env p =
     gp_channelId p @ '':'' @ gp_requestHash p @ '':'' @ gp_nonce p @ '':'' @
     show_int (gp_timestamp p) @ '':'' @ pe_number env (gp_amount p)"

definition computeExpectedSig :: "proof_env \<Rightarrow> string \<Rightarrow> string" where
  "computeExpectedSig env material = pe_hmac env (pe_secret env) material"

definition verify_proof ::
    "proof_env \<Rightarrow> proof_clock \<Rightarrow> gateway_proof \<Rightarrow> string \<Rightarrow> string \<Rightarrow> seen_nonces \<Rightarrow>
     (proof_error_code + unit) \<times> seen_nonces" where
  "verify_proof env clk p expectedChannelId expectedRequestHash m =
     (if gp_channelId p = [] \<or> gp_requestHash p = [] \<or> gp_nonce p = [] \<or> gp_timestamp p = 0 \<or> gp_signature p = []
        then (Inl PROOF_INVALID_STRUCTURE, m)
      else if gp_amount p \<le> 0 then (Inl PROOF_INVALID_AMOUNT, m)
      else if \<not> (is_hex (gp_requestHash p) \<and> length (gp_requestHash p) = 64) then (Inl PROOF_INVALID_REQUEST_HASH, m)
      else if gp_channelId p \<noteq> expectedChannelId then (Inl PROOF_CHANNEL_MISMATCH, m)
      else if \<not> timing_safe_hex_eq (toLowerCase (gp_requestHash p)) (toLowerCase expectedRequestHash)
        then (Inl PROOF_INVALID_REQUEST_HASH, m)
      else if proof_freshness_ms < \<bar>clk_fresh clk - gp_timestamp p\<bar> then (Inl PROOF_EXPIRED, m)
      else if \<not> timing_safe_hex_eq (gp_signature p) (computeExpectedSig env (buildSignedMaterial env p))
        then (Inl PROOF_INVALID_SIGNATURE, m)
      else (case seen_record (nonce_key (gp_channelId p) (gp_nonce p)) (clk_has clk) (clk_put clk) m of
              (True, m') \<Rightarrow> (Inr (), m') | (False, m') \<Rightarrow> (Inl PROOF_ALREADY_USED, m')))"

definition proof_key :: "gateway_proof \<Rightarrow> string" where
  "proof_key p = nonce_key (gp_channelId p) (gp_nonce p)"

lemma verify_Inr:
  assumes "verify_proof env clk p ch rh m = (Inr x, m')"
  shows "gp_channelId p = ch" "hex_decode (gp_requestHash p) = hex_decode rh" "0 < gp_amount p"
    "\<bar>clk_fresh clk - gp_timestamp p\<bar> \<le> proof_freshness_ms"
    "hex_decode (gp_signature p) = hex_decode (computeExpectedSig env (buildSignedMaterial env p))"
    "seen_record (proof_key p) (clk_has clk) (clk_put clk) m = (True, m')"
  using assms
  by (auto simp: verify_proof_def timing_safe_hex_eq_def proof_key_def split: if_splits prod.splits bool.splits)

text \<open>
  A history of the verifier: verifications and purges.  With one clock reading per call it is a
  run of uses of the nonce set, as far as the set is concerned.
\<close>

datatype verifier_event =
    Verify (ve_clock: proof_clock) (ve_proof: gateway_proof) (ve_channel: string) (ve_hash: string)
  | Purge (ve_now: millis)

fun verifier_step :: "proof_env \<Rightarrow> verifier_event \<Rightarrow> seen_nonces \<Rightarrow> bool \<times> seen_nonces" where
  "verifier_step env (Verify clk p ch rh) m =
     (case verify_proof env clk p ch rh m of (Inr _, m') \<Rightarrow> (True, m') | (Inl _, m') \<Rightarrow> (False, m'))"
| "verifier_step env (Purge now) m = (False, purgeExpired now m)"

fun verifier_run :: "proof_env \<Rightarrow> verifier_event list \<Rightarrow> seen_nonces \<Rightarrow> bool list \<times> seen_nonces" where
  "verifier_run env [] m = ([], m)"
| "verifier_run env (e # es) m =
     (let (b, m1) = verifier_step env e m; (bs, m2) = verifier_run env es m1 in (b # bs, m2))"

fun event_time :: "verifier_event \<Rightarrow> millis" where
  "event_time (Verify clk p ch rh) = clk_fresh clk"
| "event_time (Purge now) = now"

fun steady :: "verifier_event \<Rightarrow> bool" where
  "steady (Verify clk p ch rh) = (clk_has clk = clk_fresh clk \<and> clk_put clk = clk_fresh clk)"
| "steady (Purge now) = True"

lemma verify_keeps:
  assumes "seen_held k T m" "clk_has clk \<le> T" "T \<le> clk_put clk + NONCE_TTL_MS"
  shows "seen_held k T (snd (verify_proof env clk p ch rh m))"
  using seen.record_keeps [OF assms, of "proof_key p"] assms(1)
  by (auto simp: verify_proof_def seen_record_eq proof_key_def split: prod.splits bool.splits)

lemma verifier_step_eq:
  "verifier_step env (Verify clk p ch rh) m =
     (\<not> isl (fst (verify_proof env clk p ch rh m)), snd (verify_proof env clk p ch rh m))"
  by (auto split: prod.splits sum.splits)

lemma step_accepted:
  "fst (verifier_step env (Verify clk p ch rh) m) \<longleftrightarrow> (\<exists>x m'. verify_proof env clk p ch rh m = (Inr x, m'))"
  by (auto split: prod.splits sum.splits)

lemma verifier_step_keeps:
  assumes "steady e" "seen_held k T m" "event_time e \<le> T" "T \<le> event_time e + NONCE_TTL_MS"
  shows "seen_held k T (snd (verifier_step env e m))"
proof (cases e)
  case (Verify clk p ch rh)
  have "seen_held k T (snd (verify_proof env clk p ch rh m))"
    using assms Verify by (intro verify_keeps) simp_all
  then show ?thesis unfolding Verify verifier_step_eq by simp
qed (use assms seen.purge_keeps in simp)

lemma held_refuses:
  assumes "seen_held (proof_key p) T m" "clk_has clk \<le> T"
  shows "\<not> fst (verifier_step env (Verify clk p ch rh) m)"
  using seen.record_refuses [OF assms, of "clk_put clk"]
  by (auto simp only: step_accepted seen_record_eq dest!: verify_Inr(6)) simp

lemma run_Cons: "fst (verifier_run env (e # es) m) ! Suc i = fst (verifier_run env es (snd (verifier_step env e m))) ! i"
  "fst (verifier_run env (e # es) m) ! 0 = fst (verifier_step env e m)"
  by (simp_all add: split_def Let_def)

lemma run_refuses:
  "seen_held (proof_key p) T m \<Longrightarrow>
   \<forall>k\<le>i. steady (es ! k) \<and> event_time (es ! k) \<le> T \<and> T \<le> event_time (es ! k) + NONCE_TTL_MS \<Longrightarrow>
     i < length es \<Longrightarrow> es ! i = Verify clk p ch rh \<Longrightarrow> \<not> fst (verifier_run env es m) ! i"
proof (induction es arbitrary: m i)
  case (Cons e es)
  have e: "steady e" "event_time e \<le> T" "T \<le> event_time e + NONCE_TTL_MS" using Cons.prems(2) by auto
  show ?case
  proof (cases i)
    case 0
    have "clk_has clk \<le> T" using Cons.prems(4) e 0 by simp
    then have "\<not> fst (verifier_step env e m)" using held_refuses [OF Cons.prems(1)] Cons.prems(4) 0 by simp
    then show ?thesis unfolding 0 run_Cons .
  next
    case (Suc j)
    have "seen_held (proof_key p) T (snd (verifier_step env e m))"
      using Cons.prems(1) e by (intro verifier_step_keeps)
    then have "\<not> fst (verifier_run env es (snd (verifier_step env e m))) ! j"
      using Cons.prems(2-4) Suc by (intro Cons.IH) auto
    then show ?thesis unfolding Suc run_Cons .
  qed
qed simp

lemma run_answer: "i < length es \<Longrightarrow> \<exists>s. fst (verifier_run env es m) ! i = fst (verifier_step env (es ! i) s)"
proof (induction es arbitrary: m i)
  case (Cons e es)
  show ?case
  proof (cases i)
    case (Suc j)
    then obtain s where "fst (verifier_run env es (snd (verifier_step env e m))) ! j = fst (verifier_step env (es ! j) s)"
      using Cons by auto
    then show ?thesis unfolding Suc run_Cons by auto
  qed (auto simp only: run_Cons nth_Cons_0)
qed simp

lemma accepted_held:
  assumes "fst (verifier_step env (Verify clk p ch rh) m)" "js_wf m"
  shows "seen_held (proof_key p) (clk_put clk + NONCE_TTL_MS) (snd (verifier_step env (Verify clk p ch rh) m))"
proof -
  obtain x m' where v: "verify_proof env clk p ch rh m = (Inr x, m')"
    using assms(1) unfolding step_accepted by blast
  from seen.record_held [OF assms(2), of "proof_key p" "clk_has clk" "clk_put clk"] verify_Inr(6) [OF v]
  have "seen_held (proof_key p) (clk_put clk + NONCE_TTL_MS) m'" by (simp add: seen_record_eq)
  then show ?thesis unfolding verifier_step_eq v by simp
qed

lemma verifier_step_wf: "js_wf m \<Longrightarrow> js_wf (snd (verifier_step env e m))"
proof (cases e)
  case (Verify clk p ch rh)
  assume "js_wf m"
  then have "js_wf (snd (verify_proof env clk p ch rh m))"
    using seen.record_ok [of m "proof_key p" "clk_has clk" "clk_put clk"]
    by (auto simp: verify_proof_def seen_record_eq proof_key_def split: prod.splits bool.splits)
  then show ?thesis unfolding Verify verifier_step_eq by simp
qed (simp add: purgeExpired_def)

section \<open>Properties\<close>

text \<open>
  C4: a payment proof is accepted at most once.  In any history of verifications and purges with
  a clock that does not run backwards and does not tick within a call, two accepted
  verifications never share the channel, the nonce and the time stamp: while the proof is fresh
  its nonce is still in the set, and afterwards it is stale.
\<close>

theorem proof_accepted_once:
  assumes "js_wf m" "sorted (map event_time es)" "\<forall>e\<in>set es. steady e"
    and "i < j" "j < length es" "es ! i = Verify clk p ch rh" "es ! j = Verify clk' p' ch' rh'"
    and "gp_channelId p' = gp_channelId p" "gp_nonce p' = gp_nonce p" "gp_timestamp p' = gp_timestamp p"
    and "fst (verifier_run env es m) ! i"
  shows "\<not> fst (verifier_run env es m) ! j"
proof -
  have step: "\<not> fst (verifier_run env es m) ! j"
    if "js_wf m" "sorted (map event_time es)" "\<forall>e\<in>set es. steady e" "i < j" "j < length es"
      "es ! i = Verify clk p ch rh" "es ! j = Verify clk' p' ch' rh'" "fst (verifier_run env es m) ! i" for es m i j
    using that
  proof (induction es arbitrary: m i j)
    case (Cons e es)
    obtain j' where j: "j = Suc j'" using Cons.prems(4) by (cases j) auto
    let ?m = "snd (verifier_step env e m)"
    have wf: "js_wf ?m" using Cons.prems(1) by (rule verifier_step_wf)
    show ?case
    proof (cases i)
      case (Suc i')
      have "fst (verifier_run env es ?m) ! i'" using Cons.prems(8) unfolding Suc run_Cons .
      then have "\<not> fst (verifier_run env es ?m) ! j'"
        using Cons.prems wf by (intro Cons.IH [where i = i']) (simp_all add: j Suc)
      then show ?thesis unfolding j run_Cons .
    next
      case 0
      have e: "e = Verify clk p ch rh" using Cons.prems(6) 0 by simp
      have acc: "fst (verifier_step env e m)" using Cons.prems(8) unfolding 0 run_Cons .
      have ej: "es ! j' = Verify clk' p' ch' rh'" "j' < length es" using Cons.prems(5,7) by (simp_all add: j)
      let ?T = "clk_fresh clk + NONCE_TTL_MS"
      have held: "seen_held (proof_key p') ?T ?m"
        using accepted_held [of env clk p ch rh m] acc e Cons.prems(1,3) assms(8,9) by (simp add: proof_key_def)
      obtain x m1 where "verify_proof env clk p ch rh m = (Inr x, m1)" using acc unfolding e step_accepted by blast
      then have fresh: "\<bar>clk_fresh clk - gp_timestamp p\<bar> \<le> proof_freshness_ms" by (rule verify_Inr(4))
      have "\<not> fst (verifier_run env es ?m) ! j'"
      proof (cases "clk_fresh clk' \<le> ?T")
        case True
        have "steady (es ! k) \<and> event_time (es ! k) \<le> ?T \<and> ?T \<le> event_time (es ! k) + NONCE_TTL_MS" if k: "k \<le> j'" for k
        proof -
          have "event_time (es ! k) \<le> event_time (es ! j')"
            using Cons.prems(2) k ej(2) sorted_nth_mono [of "map event_time es" k j'] by simp
          moreover have "es ! k \<in> set es" using k ej(2) by simp
          then have "event_time e \<le> event_time (es ! k)" "steady (es ! k)" using Cons.prems(2,3) by auto
          ultimately show ?thesis using True ej(1) e by simp
        qed
        then show ?thesis using run_refuses [OF held, of j' es clk' ch' rh' env] ej by blast
      next
        case False
        have stale: "proof_freshness_ms < \<bar>clk_fresh clk' - gp_timestamp p'\<bar>"
          using False fresh assms(10) by (simp add: NONCE_TTL_MS_def)
        have "\<not> fst (verifier_step env (Verify clk' p' ch' rh') s)" for s
          using stale unfolding step_accepted by (auto dest!: verify_Inr(4))
        then show ?thesis using ej run_answer by metis
      qed
      then show ?thesis unfolding j run_Cons .
    qed
  qed simp
  show ?thesis by (rule step [OF assms(1-7,11)])
qed

definition demo_proof_env :: proof_env where
  "demo_proof_env = \<lparr>pe_sha256 = (\<lambda>s. s), pe_hmac = (\<lambda>k m. ''ab''), pe_number = (\<lambda>n. ''1''), pe_iso = (\<lambda>t. ''t''), pe_secret = ''k''\<rparr>"

definition demo_gateway_proof :: gateway_proof where
  "demo_gateway_proof = \<lparr>gp_channelId = ''c'', gp_requestHash = replicate 64 (CHR ''0''), gp_nonce = ''n'',
     gp_timestamp = 900, gp_amount = 1, gp_signature = ''AB''\<rparr>"

definition demo_verification :: "millis \<Rightarrow> verifier_event" where
  "demo_verification t = Verify \<lparr>clk_fresh = t, clk_has = t, clk_put = t\<rparr> demo_gateway_proof ''c'' (replicate 64 (CHR ''0''))"

theorem proof_accepted_once_witness:
  "fst (verifier_run demo_proof_env [demo_verification 1000, Purge 1500, demo_verification 300900] []) ! 0 \<and>
   \<not> fst (verifier_run demo_proof_env [demo_verification 1000, Purge 1500, demo_verification 300900] []) ! 2"
proof -
  let ?es = "[demo_verification 1000, Purge 1500, demo_verification 300900]"
  have "fst (verifier_run demo_proof_env ?es []) ! 0" by code_simp
  then show ?thesis
    using proof_accepted_once [of "[]" ?es 0 2 _ demo_gateway_proof _ _ _ demo_gateway_proof]
    by (simp add: demo_verification_def)
qed

end
