(* ===== verification/PaymentChannel.thy ===== *)
theory PaymentChannel
  imports AuditService ProofVerifier
begin

text \<open>
  Payment channels (\<open>backend/src/services/payment-channel-service.ts\<close>): opening, off-chain
  renewals, top-ups and closing.  The table \<open>payment_channels\<close> is behind the record
  \<open>channel_db\<close>, one field per kind of statement the code sends; what the code relies on is
  \<open>channel_db_ok\<close>.  Each handler returns its result, the database and the effects it caused
  in order: entries handed to the audit service and notifications that were dispatched.

  Balances are numbers; the column \<open>balance\<close>, which the record shows as text and the code
  reads back with \<open>Number\<close>, is kept as a number.
\<close>

datatype channel_status = Active_channel | Closing | Closed_channel | Dispute

fun status_name :: "channel_status \<Rightarrow> string" where
  "status_name Active_channel = ''active''"
| "status_name Closing = ''closing''"
| "status_name Closed_channel = ''closed''"
| "status_name Dispute = ''dispute''"

record watchtower =
  wt_address :: string
  wt_bounty :: amount
  wt_registeredAt :: millis

record channel_state =
  st_sequenceNumber :: int
  st_userBalance :: amount
  st_executorBalance :: amount
  st_totalDeposited :: amount
  st_watchtowers :: "watchtower list option"
  st_bountyPaid :: "amount option"
  st_closeInitiatedAt :: "millis option"
  st_challengeEndsAt :: "millis option"

record channel_row =
  ch_id :: ident
  ch_userId :: ident
  ch_counterparty :: string
  ch_depositAmount :: amount
  ch_balance :: "amount option"
  ch_status :: channel_status
  ch_state :: "channel_state option"
  ch_stateSignature :: "string option"
  ch_expiry :: "millis option"
  ch_lastSettlementAt :: "millis option"
  ch_onChainId :: "string option"
  ch_updatedAt :: millis

text \<open>\<open>PaymentChannelRecord\<close> and \<open>toRecord\<close>.\<close>

record channel_record =
  cr_id :: ident
  cr_userId :: ident
  cr_counterparty :: string
  cr_balance :: amount
  cr_status :: channel_status
  cr_lastUpdated :: millis
  cr_expiry :: "millis option"
  cr_challengeEndsAt :: "millis option"
  cr_state :: "channel_state option"
  cr_onChainId :: "string option"

definition toRecord :: "channel_row \<Rightarrow> channel_record" where
  "toRecord r =
     \<lparr>cr_id = ch_id r, cr_userId = ch_userId r, cr_counterparty = ch_counterparty r,
      cr_balance = nullish (ch_balance r) 0, cr_status = ch_status r, cr_lastUpdated = ch_updatedAt r,
      cr_expiry = ch_expiry r,
      cr_challengeEndsAt = (case ch_state r of None \<Rightarrow> None | Some s \<Rightarrow> st_challengeEndsAt s),
      cr_state = ch_state r, cr_onChainId = ch_onChainId r\<rparr>"

section \<open>The database\<close>

text \<open>
  \<open>db_row\<close> is the row with an id.  \<open>db_single\<close> is a select by id and user with \<open>single()\<close>, whose
  error and missing row the code treats alike.  \<open>db_update\<close> is an update of the row with that
  id and user, given as the function that sets the columns, followed by \<open>single()\<close>; \<open>db_patch\<close> is one
  without, which is no error when no row matches.  \<open>db_list\<close> is the select of all
  channels of a user, newest first, \<open>db_all\<close> the select by a condition on the status.
\<close>

record 'd channel_db =
  db_row :: "'d \<Rightarrow> ident \<Rightarrow> channel_row option"
  db_single :: "'d \<Rightarrow> ident \<Rightarrow> ident \<Rightarrow> channel_row option"
  db_update :: "'d \<Rightarrow> ident \<Rightarrow> ident \<Rightarrow> (channel_row \<Rightarrow> channel_row) \<Rightarrow> (string + channel_row) \<times> 'd"
  db_patch :: "'d \<Rightarrow> ident \<Rightarrow> ident \<Rightarrow> (channel_row \<Rightarrow> channel_row) \<Rightarrow> string option \<times> 'd"
  db_insert :: "'d \<Rightarrow> channel_row \<Rightarrow> (string + channel_row) \<times> 'd"
  db_list :: "'d \<Rightarrow> ident \<Rightarrow> string + channel_row list"
  db_all :: "'d \<Rightarrow> channel_status list \<Rightarrow> string + channel_row list"

definition single_law :: "'d channel_db \<Rightarrow> bool" where
  "single_law ops \<longleftrightarrow> (\<forall>d u i r. db_single ops d u i = Some r \<longrightarrow> db_row ops d i = Some r \<and> ch_userId r = u)"

definition update_law :: "'d channel_db \<Rightarrow> bool" where
  "update_law ops \<longleftrightarrow> (\<forall>d u i f. case db_update ops d u i f of
      (Inr r, d') \<Rightarrow> (case db_row ops d i of
          None \<Rightarrow> False
        | Some r0 \<Rightarrow> ch_userId r0 = u \<and> r = f r0 \<and> db_row ops d' = (db_row ops d)(i \<mapsto> f r0))
    | (Inl e, d') \<Rightarrow> db_row ops d' = db_row ops d)"

definition patch_law :: "'d channel_db \<Rightarrow> bool" where
  "patch_law ops \<longleftrightarrow> (\<forall>d u i f. case db_patch ops d u i f of
      (None, d') \<Rightarrow> db_row ops d' = (case db_row ops d i of
          None \<Rightarrow> db_row ops d
        | Some r \<Rightarrow> if ch_userId r = u then (db_row ops d)(i \<mapsto> f r) else db_row ops d)
    | (Some e, d') \<Rightarrow> db_row ops d' = db_row ops d)"

definition insert_law :: "'d channel_db \<Rightarrow> bool" where
  "insert_law ops \<longleftrightarrow> (\<forall>d row. case db_insert ops d row of
      (Inr r, d') \<Rightarrow> db_row ops d (ch_id r) = None \<and> r = row\<lparr>ch_id := ch_id r\<rparr> \<and> db_row ops d' = (db_row ops d)(ch_id r \<mapsto> r)
    | (Inl e, d') \<Rightarrow> db_row ops d' = db_row ops d)"

definition select_law :: "'d channel_db \<Rightarrow> bool" where
  "select_law ops \<longleftrightarrow>
     (\<forall>d u rs r. db_list ops d u = Inr rs \<and> r \<in> set rs \<longrightarrow> db_row ops d (ch_id r) = Some r \<and> ch_userId r = u) \<and>
     (\<forall>d ss rs r. db_all ops d ss = Inr rs \<and> r \<in> set rs \<longrightarrow> db_row ops d (ch_id r) = Some r \<and> ch_status r \<in> set ss)"

definition channel_db_ok :: "'d channel_db \<Rightarrow> bool" where
  "channel_db_ok ops \<longleftrightarrow> single_law ops \<and> update_law ops \<and> patch_law ops \<and> insert_law ops \<and> select_law ops"

lemma db_singleD:
  assumes "channel_db_ok ops" "db_single ops d u i = Some r"
  shows "db_row ops d i = Some r" "ch_userId r = u"
proof -
  have "db_single ops d u i = Some r \<longrightarrow> db_row ops d i = Some r \<and> ch_userId r = u"
    by (rule spec [OF spec [OF spec [OF spec [OF assms(1) [unfolded channel_db_ok_def, THEN conjunct1, unfolded single_law_def]]]]])
  with assms(2) show "db_row ops d i = Some r" "ch_userId r = u" by blast+
qed

lemma update_cases:
  assumes "channel_db_ok ops"
  obtains (updated) r0 d' where "db_update ops d u i f = (Inr (f r0), d')" "db_row ops d i = Some r0" "ch_userId r0 = u"
      "db_row ops d' = (db_row ops d)(i \<mapsto> f r0)"
  | (failed) e d' where "db_update ops d u i f = (Inl e, d')" "db_row ops d' = db_row ops d"
proof -
  have law: "case db_update ops d u i f of
      (Inr r, d') \<Rightarrow> (case db_row ops d i of
          None \<Rightarrow> False
        | Some r0 \<Rightarrow> ch_userId r0 = u \<and> r = f r0 \<and> db_row ops d' = (db_row ops d)(i \<mapsto> f r0))
    | (Inl e, d') \<Rightarrow> db_row ops d' = db_row ops d"
    by (rule spec [OF spec [OF spec [OF spec [OF assms [unfolded channel_db_ok_def, THEN conjunct2, THEN conjunct1, unfolded update_law_def]]]]])
  obtain r d' where u: "db_update ops d u i f = (r, d')" by (cases "db_update ops d u i f")
  show thesis
  proof (cases r)
    case (Inl e)
    with law u show thesis by (intro failed [of e d']) simp_all
  next
    case (Inr r1)
    with law u show thesis by (cases "db_row ops d i") (auto intro: updated)
  qed
qed

lemma patch_cases:
  assumes "channel_db_ok ops"
  obtains (patched) r0 d' where "db_patch ops d u i f = (None, d')" "db_row ops d i = Some r0" "ch_userId r0 = u"
      "db_row ops d' = (db_row ops d)(i \<mapsto> f r0)"
  | (unchanged) e d' where "db_patch ops d u i f = (e, d')" "db_row ops d' = db_row ops d"
proof -
  have law: "case db_patch ops d u i f of
      (None, d') \<Rightarrow> db_row ops d' = (case db_row ops d i of
          None \<Rightarrow> db_row ops d
        | Some r \<Rightarrow> if ch_userId r = u then (db_row ops d)(i \<mapsto> f r) else db_row ops d)
    | (Some e, d') \<Rightarrow> db_row ops d' = db_row ops d"
    by (rule spec [OF spec [OF spec [OF spec [OF assms [unfolded channel_db_ok_def, THEN conjunct2, THEN conjunct2, THEN conjunct1, unfolded patch_law_def]]]]])
  obtain e d' where p: "db_patch ops d u i f = (e, d')" by (cases "db_patch ops d u i f")
  show thesis
  proof (cases e)
    case None
    with law p show thesis by (auto split: option.splits if_splits intro: patched unchanged)
  qed (use law p unchanged in auto)
qed

lemma insert_cases:
  assumes "channel_db_ok ops"
  obtains (inserted) r d' where "db_insert ops d row = (Inr r, d')" "db_row ops d (ch_id r) = None"
      "r = row\<lparr>ch_id := ch_id r\<rparr>" "db_row ops d' = (db_row ops d)(ch_id r \<mapsto> r)"
  | (failed) e d' where "db_insert ops d row = (Inl e, d')" "db_row ops d' = db_row ops d"
proof -
  have law: "case db_insert ops d row of
      (Inr r, d') \<Rightarrow> db_row ops d (ch_id r) = None \<and> r = row\<lparr>ch_id := ch_id r\<rparr> \<and> db_row ops d' = (db_row ops d)(ch_id r \<mapsto> r)
    | (Inl e, d') \<Rightarrow> db_row ops d' = db_row ops d"
    by (rule spec [OF spec [OF assms [unfolded channel_db_ok_def, THEN conjunct2, THEN conjunct2, THEN conjunct2, THEN conjunct1, unfolded insert_law_def]]])
  obtain r d' where i: "db_insert ops d row = (r, d')" by (cases "db_insert ops d row")
  show thesis
  proof (cases r)
    case (Inl e)
    with law i show thesis by (intro failed [of e d']) simp_all
  next
    case (Inr r1)
    with law i show thesis by (intro inserted [of r1 d']) simp_all
  qed
qed

section \<open>Handlers\<close>

datatype channel_error =
    Channel_db_error string
  | Not_found_or_inactive
  | Insufficient_balance
  | Proof_rejected proof_error_code
  | Type_error string

datatype notification =
    Channel_close_initiated ident ident bool amount
  | Dispute_detected ident ident int string amount

datatype effect = Audit audit_entry | Notify notification

record channel_env =
  ce_proof :: proof_env
  ce_requestId :: "string option"
  ce_now :: millis
  ce_clock :: proof_clock

definition CHALLENGE_PERIOD_MS :: int where
  "CHALLENGE_PERIOD_MS = 24 * 60 * 60 * 1000"

definition opt_field :: "string \<Rightarrow> json option \<Rightarrow> (string \<times> json) list" where
  "opt_field k v = (case v of None \<Rightarrow> [] | Some j \<Rightarrow> [(k, j)])"

definition watchtower_json :: "proof_env \<Rightarrow> watchtower \<Rightarrow> json" where
  "watchtower_json env w = JObj [(''address'', JStr (wt_address w)), (''bounty'', JNum (wt_bounty w)),
                             (''registeredAt'', JStr (pe_iso env (wt_registeredAt w)))]"

text \<open>
  \<open>signState\<close>, with the members in the order of the interface and dates, which the state holds as
  text, rendered by \<open>pe_iso\<close>.
\<close>

definition signState :: "proof_env \<Rightarrow> channel_state \<Rightarrow> ident \<Rightarrow> string" where
  "signState env s channelId =
     pe_hmac env (pe_secret env) (json_stringify (pe_number env) (JObj
       ([(''channelId'', JStr channelId), (''sequenceNumber'', JNum (of_int (st_sequenceNumber s))),
         (''userBalance'', JNum (st_userBalance s)), (''executorBalance'', JNum (st_executorBalance s)),
         (''totalDeposited'', JNum (st_totalDeposited s))] @
        opt_field ''watchtowers'' (map_option (\<lambda>ws. JArr (map (watchtower_json env) ws)) (st_watchtowers s)) @
        opt_field ''watchtowerBountyPaid'' (map_option JNum (st_bountyPaid s)) @
        opt_field ''closeInitiatedAt'' (map_option (\<lambda>t. JStr (pe_iso env t)) (st_closeInitiatedAt s)) @
        opt_field ''challengePeriodEndsAt'' (map_option (\<lambda>t. JStr (pe_iso env t)) (st_challengeEndsAt s)))))"

definition listChannels :: "'d channel_db \<Rightarrow> ident \<Rightarrow> 'd \<Rightarrow> channel_error + channel_record list" where
  "listChannels ops u d = (case db_list ops d u of Inl e \<Rightarrow> Inl (Channel_db_error e) | Inr rs \<Rightarrow> Inr (map toRecord rs))"

definition getChannel :: "'d channel_db \<Rightarrow> ident \<Rightarrow> ident \<Rightarrow> 'd \<Rightarrow> channel_record option" where
  "getChannel ops u i d = map_option toRecord (db_single ops d u i)"

definition no_event_meta :: event_meta where
  "no_event_meta = \<lparr>em_ipAddress = None, em_userAgent = None, em_before = None, em_after = None,
                    em_correlationId = None, em_sourceAddress = None\<rparr>"

definition status_json :: "channel_status option \<Rightarrow> json" where
  "status_json s = JObj (opt_field ''state'' (map_option (\<lambda>x. JStr (status_name x)) s))"

definition openChannel :: "'d channel_db \<Rightarrow> channel_env \<Rightarrow> ident \<Rightarrow> amount \<Rightarrow> string \<Rightarrow> millis \<Rightarrow> 'd \<Rightarrow>
    (channel_error + channel_record) \<times> 'd \<times> effect list" where
  "openChannel ops env userId depositAmount counterparty expiry d =
     (let s = \<lparr>st_sequenceNumber = 0, st_userBalance = depositAmount, st_executorBalance = 0,
               st_totalDeposited = depositAmount, st_watchtowers = None, st_bountyPaid = None,
               st_closeInitiatedAt = None, st_challengeEndsAt = None\<rparr>;
          row = \<lparr>ch_id = [], ch_userId = userId, ch_counterparty = counterparty, ch_depositAmount = depositAmount,
                 ch_balance = Some depositAmount, ch_status = Active_channel, ch_state = Some s,
                 ch_stateSignature = Some (signState (ce_proof env) s ''pending''), ch_expiry = Some expiry,
                 ch_lastSettlementAt = None, ch_onChainId = None, ch_updatedAt = ce_now env\<rparr>
      in case db_insert ops d row of
           (Inl e, d') \<Rightarrow> (Inl (Channel_db_error e), d', [])
         | (Inr r, d') \<Rightarrow>
             (Inr (toRecord r), d',
              [Audit (auditChannelOpened (ce_requestId env) userId (ch_id r) counterparty (JNum depositAmount)
                 (no_event_meta\<lparr>em_after := Some (JObj [(''state'', JStr ''active''),
                    (''depositAmount'', JNum depositAmount), (''counterparty'', JStr counterparty)])\<rparr>))]))"

text \<open>The update all state changes send: balance, state, signature and time.\<close>

definition write_state :: "channel_env \<Rightarrow> ident \<Rightarrow> channel_state \<Rightarrow> channel_row \<Rightarrow> channel_row" where
  "write_state env channelId s r =
     r\<lparr>ch_balance := Some (st_userBalance s), ch_state := Some s,
       ch_stateSignature := Some (signState (ce_proof env) s channelId), ch_updatedAt := ce_now env\<rparr>"

definition renewed_state :: "amount \<Rightarrow> channel_state \<Rightarrow> channel_state" where
  "renewed_state amt s =
     s\<lparr>st_sequenceNumber := st_sequenceNumber s + 1, st_userBalance := st_userBalance s - amt,
       st_executorBalance := st_executorBalance s + amt, st_totalDeposited := st_totalDeposited s\<rparr>"

definition send_update :: "'d channel_db \<Rightarrow> ident \<Rightarrow> ident \<Rightarrow> (channel_row \<Rightarrow> channel_row) \<Rightarrow> 'd \<Rightarrow>
    (channel_error + channel_record) \<times> 'd" where
  "send_update ops u i f d =
     (case db_update ops d u i f of (Inl e, d') \<Rightarrow> (Inl (Channel_db_error e), d') | (Inr r, d') \<Rightarrow> (Inr (toRecord r), d'))"

text \<open>
  A renewal in two steps, since another request can run between the select and the update:
  what to write is computed from the row read.
\<close>

definition renewal_read :: "'d channel_db \<Rightarrow> ident \<Rightarrow> ident \<Rightarrow> amount \<Rightarrow> 'd \<Rightarrow> channel_error + channel_state" where
  "renewal_read ops channelId userId amt d =
     (case getChannel ops userId channelId d of
        None \<Rightarrow> Inl Not_found_or_inactive
      | Some c \<Rightarrow>
         if cr_status c \<noteq> Active_channel then Inl Not_found_or_inactive
         else (case cr_state c of
             None \<Rightarrow> Inl (Type_error ''userBalance'')
           | Some s \<Rightarrow> if st_userBalance s < amt then Inl Insufficient_balance else Inr (renewed_state amt s)))"

text \<open>The proof is optional: a caller that passes fewer arguments leaves it \<open>undefined\<close>.\<close>

definition applyOffChainRenewal ::
    "'d channel_db \<Rightarrow> channel_env \<Rightarrow> ident \<Rightarrow> ident \<Rightarrow> amount \<Rightarrow> gateway_proof option \<Rightarrow> string \<Rightarrow> 'd \<times> seen_nonces \<Rightarrow>
     (channel_error + channel_record) \<times> 'd \<times> seen_nonces" where
  "applyOffChainRenewal ops env channelId userId amt prf reqHash st =
     (let (d, m) = st in
      case prf of
        None \<Rightarrow> (Inl (Type_error ''channelId''), d, m)
      | Some p \<Rightarrow>
         (case verify_proof (ce_proof env) (ce_clock env) p channelId reqHash m of
            (Inl code', m') \<Rightarrow> (Inl (Proof_rejected code'), d, m')
          | (Inr _, m') \<Rightarrow>
             (case renewal_read ops channelId userId amt d of
                Inl e \<Rightarrow> (Inl e, d, m')
              | Inr s \<Rightarrow> (let (r, d') = send_update ops userId channelId (write_state env channelId s) d in (r, d', m')))))"

definition topUp :: "'d channel_db \<Rightarrow> channel_env \<Rightarrow> ident \<Rightarrow> ident \<Rightarrow> amount \<Rightarrow> 'd \<Rightarrow> (channel_error + channel_record) \<times> 'd" where
  "topUp ops env userId channelId amt d =
     (case getChannel ops userId channelId d of
        None \<Rightarrow> (Inl Not_found_or_inactive, d)
      | Some c \<Rightarrow>
         if cr_status c \<noteq> Active_channel then (Inl Not_found_or_inactive, d)
         else (case cr_state c of
             None \<Rightarrow> (Inl (Type_error ''sequenceNumber''), d)
           | Some s \<Rightarrow>
              send_update ops userId channelId (write_state env channelId
                (s\<lparr>st_sequenceNumber := st_sequenceNumber s + 1, st_userBalance := st_userBalance s + amt,
                   st_executorBalance := st_executorBalance s, st_totalDeposited := st_totalDeposited s + amt\<rparr>)) d))"

text \<open>The state a channel without one is given: its balance, all of it the user's.\<close>

definition default_state :: "amount \<Rightarrow> channel_state" where
  "default_state b = \<lparr>st_sequenceNumber = 0, st_userBalance = b, st_executorBalance = 0, st_totalDeposited = b,
                      st_watchtowers = None, st_bountyPaid = None, st_closeInitiatedAt = None, st_challengeEndsAt = None\<rparr>"

definition initiateClose :: "'d channel_db \<Rightarrow> channel_env \<Rightarrow> ident \<Rightarrow> ident \<Rightarrow> bool \<Rightarrow> 'd \<Rightarrow>
    (channel_error + channel_record) \<times> 'd \<times> effect list" where
  "initiateClose ops env userId channelId unilateral d =
     (case getChannel ops userId channelId d of
        None \<Rightarrow> (Inl Not_found_or_inactive, d, [])
      | Some c \<Rightarrow>
         if cr_status c \<noteq> Active_channel then (Inl Not_found_or_inactive, d, [])
         else
          (let s = (nullish (cr_state c) (default_state (cr_balance c)))
                     \<lparr>st_closeInitiatedAt := Some (ce_now env), st_challengeEndsAt := Some (ce_now env + CHALLENGE_PERIOD_MS)\<rparr>;
               (r, d') = send_update ops userId channelId
                 (\<lambda>row. row\<lparr>ch_status := (if unilateral then Dispute else Closing), ch_state := Some s, ch_updatedAt := ce_now env\<rparr>) d;
               before = Some (status_json (Some (cr_status c)));
               audit = (if unilateral
                 then auditChannelDisputed (ce_requestId env) userId channelId
                        (no_event_meta\<lparr>em_before := before, em_after := Some (status_json (Some Dispute))\<rparr>)
                 else auditChannelCloseInitiated (ce_requestId env) userId channelId False
                        (no_event_meta\<lparr>em_before := before, em_after := Some (status_json (Some Closing))\<rparr>))
           in case r of
                Inl e \<Rightarrow> (Inl e, d', [])
              | Inr rec \<Rightarrow>
                 (Inr rec, d',
                  [Audit audit, Notify (Channel_close_initiated userId channelId unilateral (cr_balance c))] @
                  (if unilateral
                   then [Notify (Dispute_detected channelId userId
                          (case cr_state c of None \<Rightarrow> 0 | Some s \<Rightarrow> st_sequenceNumber s) ''unilateral_close'' (cr_balance c))]
                   else []))))"

definition finalizeClose :: "'d channel_db \<Rightarrow> channel_env \<Rightarrow> ident \<Rightarrow> ident \<Rightarrow> 'd \<Rightarrow>
    (channel_error + channel_record) \<times> 'd \<times> effect list" where
  "finalizeClose ops env userId channelId d =
     (let c = getChannel ops userId channelId d;
          (r, d') = send_update ops userId channelId (\<lambda>row. row\<lparr>ch_status := Closed_channel, ch_updatedAt := ce_now env\<rparr>) d
      in case r of
           Inl e \<Rightarrow> (Inl e, d', [])
         | Inr rec \<Rightarrow>
            (Inr rec, d',
             [Audit (auditChannelFinalized (ce_requestId env) userId channelId
                (no_event_meta\<lparr>em_before := Some (status_json (map_option cr_status c)),
                              em_after := Some (status_json (Some Closed_channel))\<rparr>))]))"

definition getLocalStorageKey :: "ident \<Rightarrow> string" where
  "getLocalStorageKey channelId = ''syncro:channel:'' @ channelId"

end
