(* ===== verification/ChannelOps.thy ===== *)
theory ChannelOps
  imports PaymentChannel
begin

text \<open>
  Channel maintenance (\<open>backend/src/services/channel-state.ts\<close>): health and expiry alerts, the
  channel a renewal is paid from, settlement candidates, preferences, and watchtowers, which may
  submit a newer state while a channel is closing.  The tables \<open>subscriptions\<close>, \<open>profiles\<close> and
  \<open>channel_payments\<close> are arguments: the prices read, the profile row, the log.
\<close>

datatype watchtower_code = NOT_WATCHTOWER | STALE_STATE | INVALID_STATE | BOUNTY_EXCEEDS_CAP | WATCHTOWER_IS_PARTY

datatype ops_error = Channel_err channel_error | Channel_not_found | Watchtower_err watchtower_code

definition MAX_WATCHTOWER_BOUNTY :: amount where
  "MAX_WATCHTOWER_BOUNTY = 10000"

definition DAY_MS :: int where
  "DAY_MS = 24 * 60 * 60 * 1000"

section \<open>Health\<close>

definition getAverageRenewalAmount :: "amount list \<Rightarrow> amount" where
  "getAverageRenewalAmount prices =
     (let ps = filter (\<lambda>p. 0 < p) prices in if ps = [] then 10 else sum_list ps / of_nat (length ps))"

record channel_health =
  hc_channelId :: ident
  hc_userId :: ident
  hc_expiryDays :: "int option"
  hc_renewals :: "amount option"
  hc_expired :: bool

definition off_chain_balance :: "channel_record \<Rightarrow> amount" where
  "off_chain_balance c = (case cr_state c of None \<Rightarrow> cr_balance c | Some s \<Rightarrow> st_userBalance s)"

definition assessChannel :: "millis \<Rightarrow> channel_record \<Rightarrow> amount \<Rightarrow> channel_health" where
  "assessChannel now c avgRenewal =
     (let days = map_option (\<lambda>e. \<lceil>rat_of_int (e - now) / of_int DAY_MS\<rceil>) (cr_expiry c)
      in \<lparr>hc_channelId = cr_id c, hc_userId = cr_userId c, hc_expiryDays = days,
          hc_renewals = (if 0 < avgRenewal then Some (off_chain_balance c / avgRenewal) else None),
          hc_expired = (case days of None \<Rightarrow> False | Some n \<Rightarrow> n \<le> 0)\<rparr>)"

definition expiryThresholds :: "int list" where
  "expiryThresholds = [7, 3, 1]"

definition getExpiryAlertThreshold :: "int option \<Rightarrow> int option" where
  "getExpiryAlertThreshold daysRemaining =
     (case daysRemaining of
        None \<Rightarrow> None
      | Some d \<Rightarrow> if d < 0 then None
                  else fold (\<lambda>threshold m. if d \<le> threshold then Some threshold else m) expiryThresholds None)"

definition isLowBalance :: "amount option \<Rightarrow> bool" where
  "isLowBalance renewalsRemaining = (case renewalsRemaining of None \<Rightarrow> False | Some r \<Rightarrow> r < 2)"

definition plain_record :: "channel_row \<Rightarrow> channel_record" where
  "plain_record r = (toRecord r)\<lparr>cr_challengeEndsAt := None\<rparr>"

definition listActiveChannels :: "'d channel_db \<Rightarrow> 'd \<Rightarrow> ops_error + channel_record list" where
  "listActiveChannels ops d =
     (case db_all ops d [Active_channel] of
        Inl e \<Rightarrow> Inl (Channel_err (Channel_db_error e))
      | Inr rs \<Rightarrow> Inr (map (\<lambda>r. (plain_record r)\<lparr>cr_onChainId := None\<rparr>) rs))"

section \<open>Preferences\<close>

record profile =
  pf_autoTopUp :: "bool option"
  pf_autoTopUpAmount :: "amount option"
  pf_settlementSchedule :: "string option"

definition getChannelPreferences :: "profile option \<Rightarrow> bool \<times> amount option" where
  "getChannelPreferences p =
     (case p of
        None \<Rightarrow> (False, None)
      | Some r \<Rightarrow> (nullish (pf_autoTopUp r) False,
                   (case pf_autoTopUpAmount r of None \<Rightarrow> None | Some a \<Rightarrow> if a = 0 then None else Some a)))"

text \<open>The two members are \<open>undefined\<close> (outer \<open>None\<close>) when they are not to be changed.\<close>

definition setChannelPreferences :: "bool option \<Rightarrow> amount option option \<Rightarrow> profile \<Rightarrow> profile" where
  "setChannelPreferences autoTopUp amt p =
     (let p1 = (case autoTopUp of None \<Rightarrow> p | Some b \<Rightarrow> p\<lparr>pf_autoTopUp := Some b\<rparr>)
      in case amt of None \<Rightarrow> p1 | Some a \<Rightarrow> p1\<lparr>pf_autoTopUpAmount := a\<rparr>)"

datatype settlement_schedule = Monthly | Quarterly

definition getSettlementSchedule :: "profile option \<Rightarrow> settlement_schedule" where
  "getSettlementSchedule p =
     (case p of None \<Rightarrow> Monthly
      | Some r \<Rightarrow> if pf_settlementSchedule r = Some ''quarterly'' then Quarterly else Monthly)"

section \<open>Paying and settling\<close>

definition closeExpiredChannel :: "'d channel_db \<Rightarrow> channel_env \<Rightarrow> channel_env \<Rightarrow> ident \<Rightarrow> ident \<Rightarrow> 'd \<Rightarrow>
    (channel_error + unit) \<times> 'd \<times> effect list" where
  "closeExpiredChannel ops env1 env2 userId channelId d =
     (case initiateClose ops env1 userId channelId False d of
        (Inl e, d1, fx) \<Rightarrow> (Inl e, d1, fx)
      | (Inr _, d1, fx) \<Rightarrow>
          (case finalizeClose ops env2 userId channelId d1 of
             (Inl e, d2, fx2) \<Rightarrow> (Inl e, d2, fx @ fx2) | (Inr _, d2, fx2) \<Rightarrow> (Inr (), d2, fx @ fx2)))"

fun first_payable :: "amount \<Rightarrow> channel_record list \<Rightarrow> channel_record option" where
  "first_payable amt [] = None"
| "first_payable amt (c # cs) =
     (if cr_status c \<noteq> Active_channel then first_payable amt cs
      else if amt \<le> off_chain_balance c then Some c else first_payable amt cs)"

definition findPayableChannel :: "'d channel_db \<Rightarrow> ident \<Rightarrow> amount \<Rightarrow> 'd \<Rightarrow> channel_error + channel_record option" where
  "findPayableChannel ops userId amt d =
     (case listChannels ops userId d of Inl e \<Rightarrow> Inl e | Inr cs \<Rightarrow> Inr (first_payable amt cs))"

record payment_log =
  pl_channelId :: ident
  pl_userId :: ident
  pl_subscriptionId :: ident
  pl_amount :: amount
  pl_sequenceNumber :: int

text \<open>A failing insert into the log is only warned about.\<close>

definition logChannelPayment :: "bool \<Rightarrow> payment_log \<Rightarrow> payment_log list \<Rightarrow> payment_log list" where
  "logChannelPayment fails p lg = (if fails then lg else lg @ [p])"

text \<open>The call passes three of the five arguments: the proof and the request hash are \<open>undefined\<close>.\<close>

definition applyRenewalPayment ::
    "'d channel_db \<Rightarrow> channel_env \<Rightarrow> bool \<Rightarrow> ident \<Rightarrow> ident \<Rightarrow> ident \<Rightarrow> amount \<Rightarrow> 'd \<times> seen_nonces \<Rightarrow> payment_log list \<Rightarrow>
     (channel_error + channel_record) \<times> ('d \<times> seen_nonces) \<times> payment_log list" where
  "applyRenewalPayment ops env logFails channelId userId subscriptionId amt st lg =
     (case applyOffChainRenewal ops env channelId userId amt None [] st of
        (Inl e, st') \<Rightarrow> (Inl e, st', lg)
      | (Inr updated, st') \<Rightarrow>
          (Inr updated, st',
           logChannelPayment logFails \<lparr>pl_channelId = channelId, pl_userId = userId, pl_subscriptionId = subscriptionId,
             pl_amount = amt, pl_sequenceNumber = (case cr_state updated of None \<Rightarrow> 0 | Some s \<Rightarrow> st_sequenceNumber s)\<rparr> lg))"

record settlement_candidate =
  sc_channelId :: ident
  sc_userId :: ident
  sc_executorBalance :: amount

definition settlement_interval :: "settlement_schedule \<Rightarrow> int" where
  "settlement_interval s = (case s of Quarterly \<Rightarrow> 90 * DAY_MS | Monthly \<Rightarrow> 30 * DAY_MS)"

definition due_candidate :: "(ident \<Rightarrow> profile option) \<Rightarrow> millis \<Rightarrow> channel_row \<Rightarrow> settlement_candidate option" where
  "due_candidate profiles now r =
     (let executorBalance = (case ch_state r of None \<Rightarrow> 0 | Some s \<Rightarrow> st_executorBalance s)
      in if executorBalance \<le> 0 then None
         else if settlement_interval (getSettlementSchedule (profiles (ch_userId r))) \<le> now - nullish (ch_lastSettlementAt r) 0
         then Some \<lparr>sc_channelId = ch_id r, sc_userId = ch_userId r, sc_executorBalance = executorBalance\<rparr>
         else None)"

definition getChannelsDueForSettlement ::
    "'d channel_db \<Rightarrow> (ident \<Rightarrow> profile option) \<Rightarrow> millis \<Rightarrow> 'd \<Rightarrow> ops_error + settlement_candidate list" where
  "getChannelsDueForSettlement ops profiles now d =
     (case db_all ops d [Active_channel] of
        Inl e \<Rightarrow> Inl (Channel_err (Channel_db_error e))
      | Inr rs \<Rightarrow> Inr (List.map_filter (due_candidate profiles now) rs))"

definition patch_result :: "string option \<times> 'd \<Rightarrow> (ops_error + unit) \<times> 'd" where
  "patch_result p = (case p of (Some e, d) \<Rightarrow> (Inl (Channel_err (Channel_db_error e)), d) | (None, d) \<Rightarrow> (Inr (), d))"

definition markChannelSettled :: "'d channel_db \<Rightarrow> millis \<Rightarrow> ident \<Rightarrow> ident \<Rightarrow> 'd \<Rightarrow> (ops_error + unit) \<times> 'd" where
  "markChannelSettled ops now channelId userId d =
     patch_result (db_patch ops d userId channelId (\<lambda>r. r\<lparr>ch_lastSettlementAt := Some now, ch_updatedAt := now\<rparr>))"

section \<open>Watchtowers\<close>

definition watchtowersOf :: "channel_record \<Rightarrow> watchtower list" where
  "watchtowersOf c = (case cr_state c of None \<Rightarrow> [] | Some s \<Rightarrow> nullish (st_watchtowers s) [])"

definition listWatchtowers :: "'d channel_db \<Rightarrow> ident \<Rightarrow> ident \<Rightarrow> 'd \<Rightarrow> ops_error + watchtower list" where
  "listWatchtowers ops userId channelId d =
     (case getChannel ops userId channelId d of None \<Rightarrow> Inl Channel_not_found | Some c \<Rightarrow> Inr (watchtowersOf c))"

definition persistWatchtowers :: "'d channel_db \<Rightarrow> millis \<Rightarrow> ident \<Rightarrow> ident \<Rightarrow> channel_record \<Rightarrow> watchtower list \<Rightarrow> 'd \<Rightarrow>
    (ops_error + unit) \<times> 'd" where
  "persistWatchtowers ops now userId channelId c ws d =
     patch_result (db_patch ops d userId channelId
       (\<lambda>r. r\<lparr>ch_state := Some ((nullish (cr_state c) (default_state (cr_balance c)))\<lparr>st_watchtowers := Some ws\<rparr>),
              ch_updatedAt := now\<rparr>))"

definition registerWatchtower :: "'d channel_db \<Rightarrow> millis \<Rightarrow> ident \<Rightarrow> ident \<Rightarrow> string \<Rightarrow> amount \<Rightarrow> 'd \<Rightarrow>
    (ops_error + watchtower list) \<times> 'd" where
  "registerWatchtower ops now userId channelId tower bounty d =
     (case getChannel ops userId channelId d of
        None \<Rightarrow> (Inl Channel_not_found, d)
      | Some c \<Rightarrow>
         if cr_status c \<noteq> Active_channel then (Inl (Watchtower_err INVALID_STATE), d)
         else if tower = cr_userId c \<or> tower = cr_counterparty c then (Inl (Watchtower_err WATCHTOWER_IS_PARTY), d)
         else if bounty < 0 then (Inl (Watchtower_err BOUNTY_EXCEEDS_CAP), d)
         else if MAX_WATCHTOWER_BOUNTY < bounty then (Inl (Watchtower_err BOUNTY_EXCEEDS_CAP), d)
         else (let existing = watchtowersOf c in
           if list_ex (\<lambda>w. wt_address w = tower) existing then (Inr existing, d)
           else (let next' = existing @ [\<lparr>wt_address = tower, wt_bounty = bounty, wt_registeredAt = now\<rparr>]
                 in case persistWatchtowers ops now userId channelId c next' d of
                      (Inl e, d') \<Rightarrow> (Inl e, d') | (Inr _, d') \<Rightarrow> (Inr next', d'))))"

definition deregisterWatchtower :: "'d channel_db \<Rightarrow> millis \<Rightarrow> ident \<Rightarrow> ident \<Rightarrow> string \<Rightarrow> 'd \<Rightarrow>
    (ops_error + watchtower list) \<times> 'd" where
  "deregisterWatchtower ops now userId channelId tower d =
     (case getChannel ops userId channelId d of
        None \<Rightarrow> (Inl Channel_not_found, d)
      | Some c \<Rightarrow>
         if cr_status c \<noteq> Active_channel then (Inl (Watchtower_err INVALID_STATE), d)
         else (let existing = watchtowersOf c in
           if \<not> list_ex (\<lambda>w. wt_address w = tower) existing then (Inl (Watchtower_err NOT_WATCHTOWER), d)
           else (let next' = filter (\<lambda>w. wt_address w \<noteq> tower) existing
                 in case persistWatchtowers ops now userId channelId c next' d of
                      (Inl e, d') \<Rightarrow> (Inl e, d') | (Inr _, d') \<Rightarrow> (Inr next', d'))))"

record watchtower_submission =
  ws_channelId :: ident
  ws_userId :: ident
  ws_watchtower :: string
  ws_balanceA :: amount
  ws_balanceB :: amount
  ws_sequenceNumber :: int

definition submitted_state :: "watchtower_submission \<Rightarrow> channel_record \<Rightarrow> watchtower \<Rightarrow> channel_state" where
  "submitted_state i c tower =
     \<lparr>st_sequenceNumber = ws_sequenceNumber i, st_userBalance = ws_balanceA i, st_executorBalance = ws_balanceB i,
      st_totalDeposited = (case cr_state c of None \<Rightarrow> ws_balanceA i + ws_balanceB i | Some s \<Rightarrow> st_totalDeposited s),
      st_watchtowers = Some (watchtowersOf c), st_bountyPaid = Some (wt_bounty tower),
      st_closeInitiatedAt = None, st_challengeEndsAt = None\<rparr>"

definition current_sequence :: "channel_record \<Rightarrow> int" where
  "current_sequence c = (case cr_state c of None \<Rightarrow> 0 | Some s \<Rightarrow> st_sequenceNumber s)"

definition submitWatchtowerState :: "'d channel_db \<Rightarrow> millis \<Rightarrow> watchtower_submission \<Rightarrow> 'd \<Rightarrow>
    (ops_error + channel_record) \<times> 'd \<times> effect list" where
  "submitWatchtowerState ops now i d =
     (case getChannel ops (ws_userId i) (ws_channelId i) d of
        None \<Rightarrow> (Inl Channel_not_found, d, [])
      | Some c \<Rightarrow>
         if cr_status c \<noteq> Closing \<and> cr_status c \<noteq> Dispute then (Inl (Watchtower_err INVALID_STATE), d, [])
         else (case List.find (\<lambda>w. wt_address w = ws_watchtower i) (watchtowersOf c) of
             None \<Rightarrow> (Inl (Watchtower_err NOT_WATCHTOWER), d, [])
           | Some tower \<Rightarrow>
              if ws_sequenceNumber i \<le> current_sequence c then (Inl (Watchtower_err STALE_STATE), d, [])
              else (case db_update ops d (ws_userId i) (ws_channelId i)
                       (\<lambda>r. r\<lparr>ch_status := Dispute, ch_balance := Some (ws_balanceA i),
                              ch_state := Some (submitted_state i c tower), ch_updatedAt := now\<rparr>) of
                  (Inl e, d') \<Rightarrow> (Inl (Channel_err (Channel_db_error e)), d', [])
                | (Inr r, d') \<Rightarrow>
                   (Inr (plain_record r), d',
                    [Notify (Dispute_detected (ws_channelId i) (ws_userId i) (ws_sequenceNumber i)
                       (if current_sequence c + 1 < ws_sequenceNumber i then ''state_mismatch'' else ''watchtower_challenge'')
                       (nullish (ch_balance r) 0))]))))"

definition getChannelsNeedingWatchtower :: "'d channel_db \<Rightarrow> 'd \<Rightarrow> ops_error + (channel_record \<times> watchtower list) list" where
  "getChannelsNeedingWatchtower ops d =
     (case db_all ops d [Closing, Dispute] of
        Inl e \<Rightarrow> Inl (Channel_err (Channel_db_error e))
      | Inr rs \<Rightarrow> Inr (filter (\<lambda>(c, ws). ws \<noteq> []) (map (\<lambda>r. (plain_record r, watchtowersOf (plain_record r))) rs)))"

end
