(* ===== verification/ChannelProps.thy ===== *)
theory ChannelProps
  imports ChannelOps
begin

text \<open>
  The state machine of a payment channel, and that the handlers implement it.  A row changes
  only by the rules of \<open>row_change\<close>; the invariants are proved once, by cases on these rules,
  and carried over to every history of handler calls.
\<close>

section \<open>The state machine of a row\<close>

datatype row_event =
    Opened amount
  | Renewed amount
  | Topped_up amount
  | Close_started
  | Finalized
  | Settled_at millis
  | Watchtowers_set "watchtower list"
  | Submitted watchtower_submission

definition row_state :: "channel_row \<Rightarrow> channel_state" where
  "row_state r = nullish (ch_state r) (default_state (nullish (ch_balance r) 0))"

definition row_towers :: "channel_row \<Rightarrow> watchtower list" where
  "row_towers r = (case ch_state r of None \<Rightarrow> [] | Some s \<Rightarrow> nullish (st_watchtowers s) [])"

definition admissible_tower :: "channel_row \<Rightarrow> watchtower \<Rightarrow> bool" where
  "admissible_tower r w \<longleftrightarrow> 0 \<le> wt_bounty w \<and> wt_bounty w \<le> MAX_WATCHTOWER_BOUNTY \<and>
     wt_address w \<noteq> ch_userId r \<and> wt_address w \<noteq> ch_counterparty r"

inductive row_change :: "row_event \<Rightarrow> channel_row option \<Rightarrow> channel_row \<Rightarrow> bool" where
  opened: "ch_status r = Active_channel \<Longrightarrow> ch_state r = Some (default_state dep) \<Longrightarrow> ch_balance r = Some dep \<Longrightarrow>
    row_change (Opened dep) None r"
| renewed: "ch_status r = Active_channel \<Longrightarrow> ch_state r = Some s \<Longrightarrow> amt \<le> st_userBalance s \<Longrightarrow>
    row_change (Renewed amt) (Some r) (write_state env i (renewed_state amt s) r)"
| topped_up: "ch_status r = Active_channel \<Longrightarrow> ch_state r = Some s \<Longrightarrow>
    row_change (Topped_up amt) (Some r) (write_state env i
      (s\<lparr>st_sequenceNumber := st_sequenceNumber s + 1, st_userBalance := st_userBalance s + amt,
         st_totalDeposited := st_totalDeposited s + amt\<rparr>) r)"
| close_started: "ch_status r = Active_channel \<Longrightarrow> status' = Closing \<or> status' = Dispute \<Longrightarrow>
    row_change Close_started (Some r) (r\<lparr>ch_status := status',
      ch_state := Some ((row_state r)\<lparr>st_closeInitiatedAt := c, st_challengeEndsAt := e\<rparr>), ch_updatedAt := t\<rparr>)"
| finalized: "row_change Finalized (Some r) (r\<lparr>ch_status := Closed_channel, ch_updatedAt := t\<rparr>)"
| settled: "row_change (Settled_at t) (Some r) (r\<lparr>ch_lastSettlementAt := Some t, ch_updatedAt := t\<rparr>)"
| towers: "ch_status r = Active_channel \<Longrightarrow> \<forall>w\<in>set ws. w \<in> set (row_towers r) \<or> admissible_tower r w \<Longrightarrow>
    row_change (Watchtowers_set ws) (Some r)
      (r\<lparr>ch_state := Some ((row_state r)\<lparr>st_watchtowers := Some ws\<rparr>), ch_updatedAt := t\<rparr>)"
| submitted: "ch_status r = Closing \<or> ch_status r = Dispute \<Longrightarrow> w \<in> set (row_towers r) \<Longrightarrow>
    wt_address w = ws_watchtower i \<Longrightarrow> current_sequence (toRecord r) < ws_sequenceNumber i \<Longrightarrow>
    row_change (Submitted i) (Some r) (r\<lparr>ch_status := Dispute, ch_balance := Some (ws_balanceA i),
      ch_state := Some (submitted_state i (toRecord r) w), ch_updatedAt := t\<rparr>)"

inductive_cases row_change_openedE: "row_change (Opened dep) o' r"
inductive_cases row_change_submittedE: "row_change (Submitted i) o' r"

section \<open>The handlers as steps\<close>

datatype channel_op =
    Open channel_env ident amount string millis
  | Renew channel_env ident ident amount "gateway_proof option" string
  | Top_up channel_env ident ident amount
  | Start_close channel_env ident ident bool
  | Finalize channel_env ident ident
  | Mark_settled millis ident ident
  | Register_tower millis ident ident string amount
  | Deregister_tower millis ident ident string
  | Submit_state millis watchtower_submission

fun channel_step :: "'d channel_db \<Rightarrow> channel_op \<Rightarrow> 'd \<times> seen_nonces \<Rightarrow> 'd \<times> seen_nonces" where
  "channel_step ops (Open env u dep c e) (d, m) = (fst (snd (openChannel ops env u dep c e d)), m)"
| "channel_step ops (Renew env i u amt p h) (d, m) = snd (applyOffChainRenewal ops env i u amt p h (d, m))"
| "channel_step ops (Top_up env u i amt) (d, m) = (snd (topUp ops env u i amt d), m)"
| "channel_step ops (Start_close env u i b) (d, m) = (fst (snd (initiateClose ops env u i b d)), m)"
| "channel_step ops (Finalize env u i) (d, m) = (fst (snd (finalizeClose ops env u i d)), m)"
| "channel_step ops (Mark_settled t i u) (d, m) = (snd (markChannelSettled ops t i u d), m)"
| "channel_step ops (Register_tower t u i w b) (d, m) = (snd (registerWatchtower ops t u i w b d), m)"
| "channel_step ops (Deregister_tower t u i w) (d, m) = (snd (deregisterWatchtower ops t u i w d), m)"
| "channel_step ops (Submit_state t s) (d, m) = (fst (snd (submitWatchtowerState ops t s d)), m)"

text \<open>The events a handler can cause.\<close>

fun event_of :: "channel_op \<Rightarrow> row_event \<Rightarrow> bool" where
  "event_of (Open env u dep c e) ev = (ev = Opened dep)"
| "event_of (Renew env i u amt p h) ev = (ev = Renewed amt)"
| "event_of (Top_up env u i amt) ev = (ev = Topped_up amt)"
| "event_of (Start_close env u i b) ev = (ev = Close_started)"
| "event_of (Finalize env u i) ev = (ev = Finalized)"
| "event_of (Mark_settled t i u) ev = (ev = Settled_at t)"
| "event_of (Register_tower t u i w b) ev = (\<exists>ws. ev = Watchtowers_set ws)"
| "event_of (Deregister_tower t u i w) ev = (\<exists>ws. ev = Watchtowers_set ws)"
| "event_of (Submit_state t s) ev = (ev = Submitted s)"

definition changed_by :: "(ident \<Rightarrow> channel_row option) \<Rightarrow> (ident \<Rightarrow> channel_row option) \<Rightarrow> channel_op \<Rightarrow> bool" where
  "changed_by rows rows' op \<longleftrightarrow> rows' = rows \<or>
     (\<exists>i r' ev. rows' = rows(i \<mapsto> r') \<and> event_of op ev \<and> row_change ev (rows i) r')"

lemma unchanged [simp, intro]: "changed_by rows rows op"
  by (simp add: changed_by_def)

lemma changed_byI: "rows' = rows(i \<mapsto> r') \<Longrightarrow> event_of op ev \<Longrightarrow> row_change ev (rows i) r' \<Longrightarrow> changed_by rows rows' op"
  by (auto simp: changed_by_def)

lemma send_update_cases:
  assumes "channel_db_ok ops"
  obtains (updated) r0 d' where "send_update ops u i f d = (Inr (toRecord (f r0)), d')" "db_row ops d i = Some r0"
      "db_row ops d' = (db_row ops d)(i \<mapsto> f r0)"
  | (failed) e d' where "send_update ops u i f d = (Inl e, d')" "db_row ops d' = db_row ops d"
  by (rule update_cases [OF assms, of d u i f]) (auto simp: send_update_def)

lemma getChannel_row:
  assumes "channel_db_ok ops" "getChannel ops u i d = Some c"
  obtains r where "db_row ops d i = Some r" "c = toRecord r" "ch_userId r = u"
  using assms db_singleD [OF assms(1)] by (auto simp: getChannel_def)

lemma toRecord_sel [simp]:
  "cr_status (toRecord r) = ch_status r" "cr_state (toRecord r) = ch_state r"
  "cr_balance (toRecord r) = nullish (ch_balance r) 0" "cr_userId (toRecord r) = ch_userId r"
  "cr_counterparty (toRecord r) = ch_counterparty r"
  by (simp_all add: toRecord_def)

lemma open_step:
  assumes "channel_db_ok ops"
  shows "changed_by (db_row ops d) (db_row ops (fst (snd (openChannel ops env u dep c e d)))) (Open env u dep c e)"
proof -
  let ?s = "default_state dep"
  let ?row = "\<lparr>ch_id = [], ch_userId = u, ch_counterparty = c, ch_depositAmount = dep,
                 ch_balance = Some dep, ch_status = Active_channel, ch_state = Some ?s,
                 ch_stateSignature = Some (signState (ce_proof env) ?s ''pending''), ch_expiry = Some e,
                 ch_lastSettlementAt = None, ch_onChainId = None, ch_updatedAt = ce_now env\<rparr>"
  have o: "fst (snd (openChannel ops env u dep c e d)) = snd (db_insert ops d ?row)"
    by (auto simp: openChannel_def Let_def default_state_def split: prod.splits sum.splits)
  show ?thesis
  proof (rule insert_cases [OF assms, of d ?row])
    fix r d' assume i: "db_insert ops d ?row = (Inr r, d')" "db_row ops d (ch_id r) = None" "r = ?row\<lparr>ch_id := ch_id r\<rparr>"
      "db_row ops d' = (db_row ops d)(ch_id r \<mapsto> r)"
    have "ch_status r = Active_channel" "ch_state r = Some ?s" "ch_balance r = Some dep"
      by (subst i(3), simp)+
    with i show ?thesis unfolding o by (intro changed_byI [of _ _ "ch_id r" r _ "Opened dep"]) (auto intro: opened)
  next
    fix er d' assume "db_insert ops d ?row = (Inl er, d')" "db_row ops d' = db_row ops d"
    then show ?thesis unfolding o by simp
  qed
qed

lemma renew_step:
  assumes "channel_db_ok ops"
  shows "changed_by (db_row ops d) (db_row ops (fst (snd (applyOffChainRenewal ops env i u amt p h (d, m))))) (Renew env i u amt p h)"
proof (cases "renewal_read ops i u amt d")
  case (Inl e)
  then show ?thesis by (auto simp: applyOffChainRenewal_def split: option.splits prod.splits sum.splits)
next
  case (Inr s)
  then obtain c s0 where c: "getChannel ops u i d = Some c" "cr_status c = Active_channel" "cr_state c = Some s0"
      "amt \<le> st_userBalance s0" "s = renewed_state amt s0"
    by (auto simp: renewal_read_def split: option.splits if_splits)
  obtain r where r: "db_row ops d i = Some r" "c = toRecord r" by (rule getChannel_row [OF assms c(1)])
  have d: "fst (snd (applyOffChainRenewal ops env i u amt p h (d, m))) = d \<or>
      fst (snd (applyOffChainRenewal ops env i u amt p h (d, m))) = snd (send_update ops u i (write_state env i s) d)"
    using Inr by (auto simp: applyOffChainRenewal_def split: option.splits prod.splits sum.splits)
  show ?thesis
  proof (rule send_update_cases [OF assms, of u i "write_state env i s" d])
    fix r0 d' assume a: "send_update ops u i (write_state env i s) d = (Inr (toRecord (write_state env i s r0)), d')"
      "db_row ops d i = Some r0" "db_row ops d' = (db_row ops d)(i \<mapsto> write_state env i s r0)"
    have "row_change (Renewed amt) (Some r) (write_state env i s r)"
      unfolding c(5) using c r by (intro renewed) auto
    then have "changed_by (db_row ops d) (db_row ops d') (Renew env i u amt p h)"
      using a r by (intro changed_byI [of _ _ i _ _ "Renewed amt"]) auto
    with a(1) d show ?thesis by auto
  next
    fix e d' assume "send_update ops u i (write_state env i s) d = (Inl e, d')" "db_row ops d' = db_row ops d"
    with d show ?thesis by auto
  qed
qed

lemma topUp_step:
  assumes "channel_db_ok ops"
  shows "changed_by (db_row ops d) (db_row ops (snd (topUp ops env u i amt d))) (Top_up env u i amt)"
proof (cases "\<exists>c s. getChannel ops u i d = Some c \<and> cr_status c = Active_channel \<and> cr_state c = Some s")
  case False
  then show ?thesis by (auto simp: topUp_def split: option.splits)
next
  case True
  then obtain c s where c: "getChannel ops u i d = Some c" "cr_status c = Active_channel" "cr_state c = Some s" by blast
  obtain r where r: "db_row ops d i = Some r" "c = toRecord r" by (rule getChannel_row [OF assms c(1)])
  let ?s = "s\<lparr>st_sequenceNumber := st_sequenceNumber s + 1, st_userBalance := st_userBalance s + amt,
         st_totalDeposited := st_totalDeposited s + amt\<rparr>"
  have d: "topUp ops env u i amt d = send_update ops u i (write_state env i ?s) d"
    using c by (simp add: topUp_def)
  show ?thesis
  proof (rule send_update_cases [OF assms, of u i "write_state env i ?s" d])
    fix r0 d' assume a: "send_update ops u i (write_state env i ?s) d = (Inr (toRecord (write_state env i ?s r0)), d')"
      "db_row ops d i = Some r0" "db_row ops d' = (db_row ops d)(i \<mapsto> write_state env i ?s r0)"
    have "row_change (Topped_up amt) (Some r) (write_state env i ?s r)"
      using c r by (intro topped_up) auto
    with a r d show ?thesis by (auto intro!: changed_byI [of _ _ i _ _ "Topped_up amt"])
  next
    fix e d' assume "send_update ops u i (write_state env i ?s) d = (Inl e, d')" "db_row ops d' = db_row ops d"
    with d show ?thesis by auto
  qed
qed

lemma close_step:
  assumes "channel_db_ok ops"
  shows "changed_by (db_row ops d) (db_row ops (fst (snd (initiateClose ops env u i b d)))) (Start_close env u i b)"
proof (cases "\<exists>c. getChannel ops u i d = Some c \<and> cr_status c = Active_channel")
  case False
  then show ?thesis by (auto simp: initiateClose_def split: option.splits)
next
  case True
  then obtain c where c: "getChannel ops u i d = Some c" "cr_status c = Active_channel" by blast
  obtain r where r: "db_row ops d i = Some r" "c = toRecord r" by (rule getChannel_row [OF assms c(1)])
  define f where "f = (\<lambda>row. row\<lparr>ch_status := (if b then Dispute else Closing),
     ch_state := Some ((nullish (cr_state c) (default_state (cr_balance c)))
        \<lparr>st_closeInitiatedAt := Some (ce_now env), st_challengeEndsAt := Some (ce_now env + CHALLENGE_PERIOD_MS)\<rparr>),
     ch_updatedAt := ce_now env\<rparr> :: channel_row)"
  have d: "fst (snd (initiateClose ops env u i b d)) = snd (send_update ops u i f d)"
    using c unfolding f_def by (auto simp: initiateClose_def Let_def split_def split: sum.splits)
  show ?thesis
  proof (rule send_update_cases [OF assms, of u i f d])
    fix r0 d' assume a: "send_update ops u i f d = (Inr (toRecord (f r0)), d')"
      "db_row ops d i = Some r0" "db_row ops d' = (db_row ops d)(i \<mapsto> f r0)"
    have "nullish (cr_state c) (default_state (cr_balance c)) = row_state r" by (simp add: r row_state_def)
    then have "row_change Close_started (Some r) (f r)"
      using c r unfolding f_def by (auto intro: close_started)
    with a r d show ?thesis by (auto intro!: changed_byI [of _ _ i _ _ Close_started])
  next
    fix e d' assume "send_update ops u i f d = (Inl e, d')" "db_row ops d' = db_row ops d"
    with d show ?thesis by auto
  qed
qed

lemma finalize_step:
  assumes "channel_db_ok ops"
  shows "changed_by (db_row ops d) (db_row ops (fst (snd (finalizeClose ops env u i d)))) (Finalize env u i)"
proof -
  define f where "f = (\<lambda>row. row\<lparr>ch_status := Closed_channel, ch_updatedAt := ce_now env\<rparr> :: channel_row)"
  have d: "fst (snd (finalizeClose ops env u i d)) = snd (send_update ops u i f d)"
    unfolding f_def by (auto simp: finalizeClose_def Let_def split_def split: sum.splits)
  show ?thesis
  proof (rule send_update_cases [OF assms, of u i f d])
    fix r0 d' assume a: "send_update ops u i f d = (Inr (toRecord (f r0)), d')"
      "db_row ops d i = Some r0" "db_row ops d' = (db_row ops d)(i \<mapsto> f r0)"
    have "row_change Finalized (Some r0) (f r0)" unfolding f_def by (rule finalized)
    with a d show ?thesis by (auto intro!: changed_byI [of _ _ i _ _ Finalized])
  next
    fix e d' assume "send_update ops u i f d = (Inl e, d')" "db_row ops d' = db_row ops d"
    with d show ?thesis by auto
  qed
qed

lemma patch_result_snd: "snd (patch_result p) = snd p"
  by (auto simp: patch_result_def split: prod.splits option.splits)

lemma settle_step:
  assumes "channel_db_ok ops"
  shows "changed_by (db_row ops d) (db_row ops (snd (markChannelSettled ops t i u d))) (Mark_settled t i u)"
proof (rule patch_cases [OF assms, of d u i "\<lambda>r. r\<lparr>ch_lastSettlementAt := Some t, ch_updatedAt := t\<rparr>"])
  fix r0 d' assume a: "db_patch ops d u i (\<lambda>r. r\<lparr>ch_lastSettlementAt := Some t, ch_updatedAt := t\<rparr>) = (None, d')"
    "db_row ops d i = Some r0" "db_row ops d' = (db_row ops d)(i \<mapsto> r0\<lparr>ch_lastSettlementAt := Some t, ch_updatedAt := t\<rparr>)"
  then show ?thesis
    by (auto simp: markChannelSettled_def patch_result_snd intro!: changed_byI [of _ _ i _ _ "Settled_at t"] settled)
next
  fix e d' assume "db_patch ops d u i (\<lambda>r. r\<lparr>ch_lastSettlementAt := Some t, ch_updatedAt := t\<rparr>) = (e, d')" "db_row ops d' = db_row ops d"
  then show ?thesis by (simp add: markChannelSettled_def patch_result_snd)
qed

lemma persist_step:
  assumes "channel_db_ok ops" "db_row ops d i = Some r" "ch_status r = Active_channel" "\<And>ws. event_of op (Watchtowers_set ws)"
    and "\<forall>w\<in>set ws. w \<in> set (row_towers r) \<or> admissible_tower r w"
  shows "changed_by (db_row ops d) (db_row ops (snd (persistWatchtowers ops t u i (toRecord r) ws d))) op"
proof -
  define f where "f = (\<lambda>q. q\<lparr>ch_state := Some ((nullish (cr_state (toRecord r)) (default_state (cr_balance (toRecord r))))
      \<lparr>st_watchtowers := Some ws\<rparr>), ch_updatedAt := t\<rparr> :: channel_row)"
  have d: "snd (persistWatchtowers ops t u i (toRecord r) ws d) = snd (db_patch ops d u i f)"
    by (simp add: persistWatchtowers_def f_def patch_result_snd)
  show ?thesis
  proof (rule patch_cases [OF assms(1), of d u i f])
    fix r0 d' assume a: "db_patch ops d u i f = (None, d')" "db_row ops d i = Some r0" "db_row ops d' = (db_row ops d)(i \<mapsto> f r0)"
    have "row_change (Watchtowers_set ws) (Some r) (f r)"
      using towers [OF assms(3,5), of t] by (simp add: f_def row_state_def)
    with a assms(2) show ?thesis unfolding d by (intro changed_byI [of _ _ i _ _ "Watchtowers_set ws"] assms(4)) auto
  next
    fix e d' assume "db_patch ops d u i f = (e, d')" "db_row ops d' = db_row ops d"
    then show ?thesis unfolding d by simp
  qed
qed

lemma towers_of_record [simp]: "watchtowersOf (toRecord r) = row_towers r"
  by (simp add: watchtowersOf_def row_towers_def)

lemma persist_state: "snd (case persistWatchtowers ops t u i c ws d of (Inl e, d') \<Rightarrow> (Inl e, d') | (Inr x, d') \<Rightarrow> (Inr y, d')) =
    snd (persistWatchtowers ops t u i c ws d)"
  by (simp split: prod.splits sum.splits)

lemma register_step:
  assumes "channel_db_ok ops"
  shows "changed_by (db_row ops d) (db_row ops (snd (registerWatchtower ops t u i w b d))) (Register_tower t u i w b)"
proof (cases "getChannel ops u i d")
  case (Some c)
  obtain r where r: "db_row ops d i = Some r" "c = toRecord r" by (rule getChannel_row [OF assms Some])
  let ?new = "\<lparr>wt_address = w, wt_bounty = b, wt_registeredAt = t\<rparr>"
  show ?thesis
  proof (cases "ch_status r = Active_channel \<and> admissible_tower r ?new \<and> \<not> list_ex (\<lambda>w'. wt_address w' = w) (row_towers r)")
    case True
    then have "snd (registerWatchtower ops t u i w b d) = snd (persistWatchtowers ops t u i (toRecord r) (row_towers r @ [?new]) d)"
      using Some r by (simp add: registerWatchtower_def admissible_tower_def Let_def persist_state)
    moreover have "changed_by (db_row ops d) (db_row ops (snd (persistWatchtowers ops t u i (toRecord r) (row_towers r @ [?new]) d)))
        (Register_tower t u i w b)"
      using True r by (intro persist_step [OF assms r(1)]) auto
    ultimately show ?thesis by simp
  next
    case False
    then have "snd (registerWatchtower ops t u i w b d) = d"
      using Some r by (auto simp: registerWatchtower_def admissible_tower_def Let_def)
    then show ?thesis by simp
  qed
qed (simp add: registerWatchtower_def)

lemma deregister_step:
  assumes "channel_db_ok ops"
  shows "changed_by (db_row ops d) (db_row ops (snd (deregisterWatchtower ops t u i w d))) (Deregister_tower t u i w)"
proof (cases "getChannel ops u i d")
  case (Some c)
  obtain r where r: "db_row ops d i = Some r" "c = toRecord r" by (rule getChannel_row [OF assms Some])
  let ?ws = "filter (\<lambda>w'. wt_address w' \<noteq> w) (row_towers r)"
  show ?thesis
  proof (cases "ch_status r = Active_channel \<and> list_ex (\<lambda>w'. wt_address w' = w) (row_towers r)")
    case True
    then have "snd (deregisterWatchtower ops t u i w d) = snd (persistWatchtowers ops t u i (toRecord r) ?ws d)"
      using Some r by (simp add: deregisterWatchtower_def Let_def persist_state)
    moreover have "changed_by (db_row ops d) (db_row ops (snd (persistWatchtowers ops t u i (toRecord r) ?ws d))) (Deregister_tower t u i w)"
      using True r by (intro persist_step [OF assms r(1)]) auto
    ultimately show ?thesis by simp
  next
    case False
    then have "snd (deregisterWatchtower ops t u i w d) = d"
      using Some r by (auto simp: deregisterWatchtower_def Let_def)
    then show ?thesis by simp
  qed
qed (simp add: deregisterWatchtower_def)

lemma submit_step:
  assumes "channel_db_ok ops"
  shows "changed_by (db_row ops d) (db_row ops (fst (snd (submitWatchtowerState ops t s d)))) (Submit_state t s)"
proof (cases "getChannel ops (ws_userId s) (ws_channelId s) d")
  case (Some c)
  let ?i = "ws_channelId s"
  obtain r where r: "db_row ops d ?i = Some r" "c = toRecord r" by (rule getChannel_row [OF assms Some])
  show ?thesis
  proof (cases "(ch_status r = Closing \<or> ch_status r = Dispute) \<and> current_sequence c < ws_sequenceNumber s \<and>
      (\<exists>w. List.find (\<lambda>w. wt_address w = ws_watchtower s) (row_towers r) = Some w)")
    case True
    then obtain w where w: "List.find (\<lambda>w. wt_address w = ws_watchtower s) (row_towers r) = Some w" by blast
    define f where "f = (\<lambda>q. q\<lparr>ch_status := Dispute, ch_balance := Some (ws_balanceA s),
        ch_state := Some (submitted_state s c w), ch_updatedAt := t\<rparr> :: channel_row)"
    have d: "fst (snd (submitWatchtowerState ops t s d)) = snd (db_update ops d (ws_userId s) ?i f)"
      using Some True w r by (auto simp: submitWatchtowerState_def f_def not_le split: prod.splits sum.splits)
    have w': "w \<in> set (row_towers r)" "wt_address w = ws_watchtower s" using find_Some_in [OF w] by auto
    show ?thesis
    proof (rule update_cases [OF assms, of d "ws_userId s" ?i f])
      fix r0 d' assume a: "db_update ops d (ws_userId s) ?i f = (Inr (f r0), d')" "db_row ops d ?i = Some r0"
        "db_row ops d' = (db_row ops d)(?i \<mapsto> f r0)"
      have "row_change (Submitted s) (Some r) (f r)"
        using True w' r unfolding f_def r(2) by (intro submitted) auto
      with a r show ?thesis unfolding d by (intro changed_byI [of _ _ ?i _ _ "Submitted s"]) auto
    next
      fix e d' assume "db_update ops d (ws_userId s) ?i f = (Inl e, d')" "db_row ops d' = db_row ops d"
      then show ?thesis unfolding d by simp
    qed
  next
    case False
    then have "fst (snd (submitWatchtowerState ops t s d)) = d"
      using Some r by (auto simp: submitWatchtowerState_def not_le split: option.splits)
    then show ?thesis by simp
  qed
qed (simp add: submitWatchtowerState_def)

lemmas handler_steps = open_step renew_step topUp_step close_step finalize_step settle_step register_step deregister_step submit_step

lemma channel_step_refines:
  "channel_db_ok ops \<Longrightarrow> changed_by (db_row ops (fst st)) (db_row ops (fst (channel_step ops op st))) op"
  by (cases st; cases op) (simp_all add: handler_steps)

section \<open>Histories\<close>

fun channel_run :: "'d channel_db \<Rightarrow> channel_op list \<Rightarrow> 'd \<times> seen_nonces \<Rightarrow> 'd \<times> seen_nonces" where
  "channel_run ops [] st = st"
| "channel_run ops (x # xs) st = channel_run ops xs (channel_step ops x st)"

definition all_rows :: "(channel_row \<Rightarrow> bool) \<Rightarrow> (ident \<Rightarrow> channel_row option) \<Rightarrow> bool" where
  "all_rows Q rows \<longleftrightarrow> (\<forall>i r. rows i = Some r \<longrightarrow> Q r)"

text \<open>A predicate that every change keeps holds of all rows of a history.\<close>

lemma changed_invariant:
  assumes "changed_by rows rows' x" "all_rows Q rows"
    and keep: "\<And>ev old new. event_of x ev \<Longrightarrow> row_change ev old new \<Longrightarrow> (\<And>r. old = Some r \<Longrightarrow> Q r) \<Longrightarrow> Q new"
  shows "all_rows Q rows'"
proof (cases "rows' = rows")
  case False
  then obtain i r' ev where c: "rows' = rows(i \<mapsto> r')" "event_of x ev" "row_change ev (rows i) r'"
    using assms(1) by (auto simp: changed_by_def)
  have "Q r" if "rows i = Some r" for r using assms(2) that by (simp add: all_rows_def)
  then have "Q r'" using keep [OF c(2,3)] by blast
  then show ?thesis using assms(2) by (simp add: all_rows_def c(1))
qed (use assms(2) in simp)

lemma run_invariant:
  assumes ok: "channel_db_ok ops"
  shows "all_rows Q (db_row ops (fst st)) \<Longrightarrow>
    (\<And>x ev old new. x \<in> set xs \<Longrightarrow> event_of x ev \<Longrightarrow> row_change ev old new \<Longrightarrow>
        (\<And>r. old = Some r \<Longrightarrow> Q r) \<Longrightarrow> Q new) \<Longrightarrow>
    all_rows Q (db_row ops (fst (channel_run ops xs st)))"
proof (induction xs arbitrary: st)
  case (Cons x xs)
  have "all_rows Q (db_row ops (fst (channel_step ops x st)))"
    by (rule changed_invariant [OF channel_step_refines [OF ok] Cons.prems(1)]) (rule Cons.prems(2), simp_all)
  then have "all_rows Q (db_row ops (fst (channel_run ops xs (channel_step ops x st))))"
    by (rule Cons.IH) (rule Cons.prems(2), simp_all)
  then show ?case by simp
qed simp

text \<open>A relation that every change of a row respects holds between a row and what becomes of it.\<close>

definition related :: "(channel_row \<Rightarrow> channel_row \<Rightarrow> bool) \<Rightarrow> (ident \<Rightarrow> channel_row option) \<Rightarrow> (ident \<Rightarrow> channel_row option) \<Rightarrow> bool" where
  "related R rows rows' \<longleftrightarrow> (\<forall>i r. rows i = Some r \<longrightarrow> (case rows' i of None \<Rightarrow> False | Some r' \<Rightarrow> R r r'))"

lemma changed_related:
  assumes "changed_by rows rows' x" and refl: "\<And>r. R r r"
    and step: "\<And>ev r r'. row_change ev (Some r) r' \<Longrightarrow> R r r'"
  shows "related R rows rows'"
proof (cases "rows' = rows")
  case False
  then obtain i r' ev where c: "rows' = rows(i \<mapsto> r')" "row_change ev (rows i) r'"
    using assms(1) by (auto simp: changed_by_def)
  have "R r r'" if "rows i = Some r" for r using step c(2) that by simp
  then show ?thesis using refl by (simp add: related_def c(1))
qed (use refl in \<open>simp add: related_def\<close>)

lemma related_trans:
  assumes "related R a b" "related R b c" and trans: "\<And>a b c. R a b \<Longrightarrow> R b c \<Longrightarrow> R a c"
  shows "related R a c"
  unfolding related_def
proof (intro allI impI)
  fix i r assume "a i = Some r"
  then obtain r1 where "b i = Some r1" "R r r1" using assms(1) by (auto simp: related_def split: option.splits)
  moreover from this obtain r2 where "c i = Some r2" "R r1 r2" using assms(2) by (auto simp: related_def split: option.splits)
  ultimately show "case c i of None \<Rightarrow> False | Some r' \<Rightarrow> R r r'" using trans by simp
qed

lemma run_related:
  assumes ok: "channel_db_ok ops" and refl: "\<And>r. R r r" and trans: "\<And>a b c. R a b \<Longrightarrow> R b c \<Longrightarrow> R a c"
    and step: "\<And>ev r r'. row_change ev (Some r) r' \<Longrightarrow> R r r'"
  shows "related R (db_row ops (fst st)) (db_row ops (fst (channel_run ops xs st)))"
proof (induction xs arbitrary: st)
  case Nil
  show ?case using refl by (simp add: related_def)
next
  case (Cons x xs)
  have "related R (db_row ops (fst st)) (db_row ops (fst (channel_step ops x st)))"
    using channel_step_refines [OF ok] refl step by (rule changed_related)
  then show ?case using Cons.IH [of "channel_step ops x st"] trans unfolding channel_run.simps by (rule related_trans)
qed

section \<open>Invariants of the rules\<close>

definition conserved :: "channel_row \<Rightarrow> bool" where
  "conserved r \<longleftrightarrow> (case ch_state r of
      None \<Rightarrow> 0 \<le> nullish (ch_balance r) 0
    | Some s \<Rightarrow> st_userBalance s + st_executorBalance s = st_totalDeposited s \<and> 0 \<le> st_userBalance s \<and> 0 \<le> st_executorBalance s)"

fun fair_op :: "channel_op \<Rightarrow> bool" where
  "fair_op (Open env u dep c e) = (0 \<le> dep)"
| "fair_op (Renew env i u amt p h) = (0 \<le> amt)"
| "fair_op (Top_up env u i amt) = (0 \<le> amt)"
| "fair_op (Submit_state t s) = False"
| "fair_op _ = True"

fun fair_event :: "row_event \<Rightarrow> bool" where
  "fair_event (Opened dep) = (0 \<le> dep)"
| "fair_event (Renewed amt) = (0 \<le> amt)"
| "fair_event (Topped_up amt) = (0 \<le> amt)"
| "fair_event (Submitted s) = False"
| "fair_event _ = True"

lemma fair_op_event: "fair_op x \<Longrightarrow> event_of x ev \<Longrightarrow> fair_event ev"
  by (cases x) auto

lemma conserved_step:
  "row_change ev old new \<Longrightarrow> fair_event ev \<Longrightarrow> (\<And>r. old = Some r \<Longrightarrow> conserved r) \<Longrightarrow> conserved new"
proof (induction rule: row_change.induct)
  case (close_started r status' c e t)
  then show ?case by (cases "ch_state r") (auto simp: conserved_def row_state_def default_state_def)
next
  case (towers r ws t)
  then show ?case by (cases "ch_state r") (auto simp: conserved_def row_state_def default_state_def)
qed (auto simp: conserved_def default_state_def write_state_def renewed_state_def split: option.splits)

definition row_sequence :: "channel_row \<Rightarrow> int" where
  "row_sequence r = st_sequenceNumber (row_state r)"

definition advances :: "channel_row \<Rightarrow> channel_row \<Rightarrow> bool" where
  "advances r r' \<longleftrightarrow> row_sequence r \<le> row_sequence r' \<and> (ch_status r = Closed_channel \<longrightarrow> ch_status r' = Closed_channel) \<and>
     (ch_status r \<noteq> Active_channel \<longrightarrow> ch_status r' \<noteq> Active_channel) \<and>
     ch_userId r' = ch_userId r \<and> ch_counterparty r' = ch_counterparty r"

lemma advances_refl: "advances r r"
  by (simp add: advances_def)

lemma advances_trans: "advances a b \<Longrightarrow> advances b c \<Longrightarrow> advances a c"
  by (auto simp: advances_def)

lemma current_sequence_row: "current_sequence (toRecord r) = row_sequence r"
  by (simp add: current_sequence_def row_sequence_def row_state_def default_state_def split: option.splits)

lemma advances_step: "row_change ev (Some r) r' \<Longrightarrow> advances r r'"
proof (induction ev "Some r" r' rule: row_change.induct)
  case (submitted w i t)
  then show ?case
    by (auto simp: advances_def current_sequence_row) (simp_all add: row_sequence_def row_state_def submitted_state_def)
qed (auto simp: advances_def row_sequence_def row_state_def write_state_def renewed_state_def)

definition towers_ok :: "channel_row \<Rightarrow> bool" where
  "towers_ok r \<longleftrightarrow> (\<forall>w\<in>set (row_towers r). admissible_tower r w)"

lemma row_towers_closing:
  "row_towers (r\<lparr>ch_status := s', ch_state := Some (row_state r\<lparr>st_closeInitiatedAt := c, st_challengeEndsAt := e\<rparr>), ch_updatedAt := t\<rparr>)
     = row_towers r"
  by (cases "ch_state r") (simp_all add: row_towers_def row_state_def default_state_def)

lemma row_towers_submitted:
  "row_towers (r\<lparr>ch_status := s', ch_balance := b, ch_state := Some (submitted_state i (toRecord r) w), ch_updatedAt := t\<rparr>) = row_towers r"
  by (simp add: row_towers_def submitted_state_def watchtowersOf_def)

lemma towers_ok_step: "row_change ev old new \<Longrightarrow> (\<And>r. old = Some r \<Longrightarrow> towers_ok r) \<Longrightarrow> towers_ok new"
proof (induction rule: row_change.induct)
  case close_started
  then show ?case by (simp add: towers_ok_def admissible_tower_def row_towers_closing)
next
  case submitted
  then show ?case by (simp add: towers_ok_def admissible_tower_def row_towers_submitted)
qed (auto simp: towers_ok_def row_towers_def default_state_def write_state_def renewed_state_def admissible_tower_def)

section \<open>A database\<close>

text \<open>A table in memory that satisfies what the code relies on, for the witnesses.\<close>

type_synonym table = "(ident \<times> channel_row) list"

definition table_single :: "table \<Rightarrow> ident \<Rightarrow> ident \<Rightarrow> channel_row option" where
  "table_single d u i = (case map_of d i of None \<Rightarrow> None | Some r \<Rightarrow> if ch_userId r = u then Some r else None)"

definition fresh_key :: "table \<Rightarrow> ident" where
  "fresh_key d = CHR ''k'' # concat (map fst d)"

definition table_db :: "table channel_db" where
  "table_db = \<lparr>db_row = map_of, db_single = table_single,
     db_update = (\<lambda>d u i f. case table_single d u i of None \<Rightarrow> (Inl ''no row'', d) | Some r \<Rightarrow> (Inr (f r), AList.update i (f r) d)),
     db_patch = (\<lambda>d u i f. (None, case table_single d u i of None \<Rightarrow> d | Some r \<Rightarrow> AList.update i (f r) d)),
     db_insert = (\<lambda>d row. (Inr (row\<lparr>ch_id := fresh_key d\<rparr>), (fresh_key d, row\<lparr>ch_id := fresh_key d\<rparr>) # d)),
     db_list = (\<lambda>d u. Inr (filter (\<lambda>r. map_of d (ch_id r) = Some r \<and> ch_userId r = u) (map snd d))),
     db_all = (\<lambda>d ss. Inr (filter (\<lambda>r. map_of d (ch_id r) = Some r \<and> List.member ss (ch_status r)) (map snd d)))\<rparr>"

lemma fresh_key: "map_of d (fresh_key d) = None"
proof -
  have "length (fst p) \<le> length (concat (map fst d))" if "p \<in> set d" for p
    using that by (induction d) auto
  then have "fresh_key d \<notin> fst ` set d" by (force simp: fresh_key_def)
  then show ?thesis by (simp add: map_of_eq_None_iff)
qed

lemma table_db_row [simp]: "db_row table_db = map_of"
  by (simp add: table_db_def)

lemma table_db_ok: "channel_db_ok table_db"
  unfolding channel_db_ok_def
proof (intro conjI)
  show "single_law table_db"
    by (simp add: single_law_def table_db_def table_single_def split: option.splits)
  show "update_law table_db"
    by (simp add: update_law_def table_db_def table_single_def update_conv' split: option.splits)
  show "patch_law table_db"
    by (simp add: patch_law_def table_db_def table_single_def update_conv' split: option.splits)
  show "insert_law table_db"
    by (simp add: insert_law_def table_db_def fresh_key)
  show "select_law table_db"
    by (auto simp: select_law_def table_db_def)
qed

definition demo_channel_env :: channel_env where
  "demo_channel_env = \<lparr>ce_proof = demo_proof_env, ce_requestId = None, ce_now = 1000,
     ce_clock = \<lparr>clk_fresh = 1000, clk_has = 1000, clk_put = 1000\<rparr>\<rparr>"

definition demo_channel :: "channel_status \<Rightarrow> channel_row" where
  "demo_channel st = \<lparr>ch_id = ''c'', ch_userId = ''u'', ch_counterparty = ''x'', ch_depositAmount = 10,
     ch_balance = Some 10, ch_status = st, ch_state = Some ((default_state 10)\<lparr>st_watchtowers :=
        Some [\<lparr>wt_address = ''w'', wt_bounty = 1, wt_registeredAt = 0\<rparr>]\<rparr>), ch_stateSignature = None, ch_expiry = None,
     ch_lastSettlementAt = None, ch_onChainId = None, ch_updatedAt = 0\<rparr>"

definition demo_table :: "channel_status \<Rightarrow> table" where
  "demo_table st = [(''c'', demo_channel st)]"

lemma demo_table_rows: "all_rows Q (map_of (demo_table st)) \<longleftrightarrow> Q (demo_channel st)"
  by (auto simp: all_rows_def demo_table_def split: if_splits)

lemma all_rows_empty [simp]: "all_rows Q (\<lambda>x. None)"
  by (simp add: all_rows_def)

section \<open>Properties\<close>



text \<open>
  C8: value is conserved.  Over any history without watchtower submissions, with deposits,
  renewals and top-ups of nonnegative amounts, the user's and the executor's balance of every
  channel add up to what was deposited, and neither is ever negative.
\<close>

theorem channel_value_conserved:
  assumes "channel_db_ok ops" "all_rows conserved (db_row ops (fst st))" "\<forall>x\<in>set xs. fair_op x"
  shows "all_rows conserved (db_row ops (fst (channel_run ops xs st)))"
  using assms(1,2)
proof (rule run_invariant)
  fix x ev old new
  assume "x \<in> set xs" "event_of x ev" "row_change ev old new" "\<And>r. old = Some r \<Longrightarrow> conserved r"
  then show "conserved new" using assms(3) by (intro conserved_step [of ev old new]) (auto dest: fair_op_event)
qed

theorem channel_value_conserved_witness:
  "all_rows conserved (map_of (fst (channel_run table_db
     [Open demo_channel_env ''u'' 10 ''x'' 99, Top_up demo_channel_env ''u'' ''k'' 5, Start_close demo_channel_env ''u'' ''k'' True] ([], []))))"
  using channel_value_conserved [OF table_db_ok, of "([], [])"
      "[Open demo_channel_env ''u'' 10 ''x'' 99, Top_up demo_channel_env ''u'' ''k'' 5, Start_close demo_channel_env ''u'' ''k'' True]"]
  by (simp del: channel_run.simps channel_step.simps)



text \<open>
  watchtowers stay within their bounds.  Over any history every registered watchtower of
  every channel has a bounty between 0 and the cap and is neither of the two parties.
\<close>

theorem watchtowers_bounded:
  assumes "channel_db_ok ops" "all_rows towers_ok (db_row ops (fst st))"
  shows "all_rows towers_ok (db_row ops (fst (channel_run ops xs st)))"
  using assms by (rule run_invariant) (rule towers_ok_step)

theorem watchtowers_bounded_witness:
  "all_rows towers_ok (map_of (fst (channel_run table_db [Register_tower 5 ''u'' ''c'' ''v'' 20000] (demo_table Active_channel, []))))"
  using watchtowers_bounded [OF table_db_ok, of "(demo_table Active_channel, [])" "[Register_tower 5 ''u'' ''c'' ''v'' 20000]"]
  by (simp add: demo_table_rows towers_ok_def row_towers_def demo_channel_def admissible_tower_def
      MAX_WATCHTOWER_BOUNTY_def default_state_def del: channel_run.simps channel_step.simps)

section \<open>Where the code falls short\<close>

text \<open>
  a watchtower decides the balances.  Every submission that is accepted replaces both
  balances by the two numbers of the request and keeps the total, so value is conserved after it
  only if the watchtower chose numbers that add up; nothing signed by the parties is checked.
\<close>

theorem watchtower_sets_balances:
  assumes "channel_db_ok ops" "db_row ops d (ws_channelId i) = Some r" "ch_state r = Some s"
    and "submitWatchtowerState ops t i d = (Inr c, d', fx)"
  shows "\<exists>r' s'. db_row ops d' (ws_channelId i) = Some r' \<and> ch_state r' = Some s' \<and>
      st_userBalance s' = ws_balanceA i \<and> st_executorBalance s' = ws_balanceB i \<and>
      (conserved r' \<longleftrightarrow> ws_balanceA i + ws_balanceB i = st_totalDeposited s \<and> 0 \<le> ws_balanceA i \<and> 0 \<le> ws_balanceB i)"
proof -
  obtain c0 where c0: "getChannel ops (ws_userId i) (ws_channelId i) d = Some c0"
    using assms(4) by (cases "getChannel ops (ws_userId i) (ws_channelId i) d") (simp_all add: submitWatchtowerState_def)
  obtain r1 where r1: "db_row ops d (ws_channelId i) = Some r1" "c0 = toRecord r1" by (rule getChannel_row [OF assms(1) c0])
  then have c0r: "c0 = toRecord r" using assms(2) by simp
  obtain w q where u: "db_update ops d (ws_userId i) (ws_channelId i)
      (\<lambda>r. r\<lparr>ch_status := Dispute, ch_balance := Some (ws_balanceA i),
          ch_state := Some (submitted_state i c0 w), ch_updatedAt := t\<rparr>) = (Inr q, d')"
    using assms(4) c0 by (auto simp: submitWatchtowerState_def split: if_splits option.splits prod.splits sum.splits)
  define f where w: "f = (\<lambda>q. q\<lparr>ch_status := Dispute, ch_balance := Some (ws_balanceA i),
        ch_state := Some (submitted_state i c0 w), ch_updatedAt := t\<rparr> :: channel_row)"
  show ?thesis
  proof (rule update_cases [OF assms(1), of d "ws_userId i" "ws_channelId i" f])
    fix r0 d1 assume "db_update ops d (ws_userId i) (ws_channelId i) f = (Inr (f r0), d1)"
      "db_row ops d1 = (db_row ops d)(ws_channelId i \<mapsto> f r0)"
    then show ?thesis using u assms(3)
      by (auto simp: w c0r submitted_state_def conserved_def)
  qed (use u in \<open>simp add: w\<close>)
qed

theorem watchtower_sets_balances_witness:
  "\<exists>r. map_of (fst (snd (submitWatchtowerState table_db 5 \<lparr>ws_channelId = ''c'', ws_userId = ''u'', ws_watchtower = ''w'',
        ws_balanceA = 100, ws_balanceB = 0, ws_sequenceNumber = 1\<rparr> (demo_table Closing)))) ''c'' = Some r \<and> \<not> conserved r"
proof -
  let ?i = "\<lparr>ws_channelId = ''c'', ws_userId = ''u'', ws_watchtower = ''w'', ws_balanceA = 100, ws_balanceB = 0,
      ws_sequenceNumber = 1\<rparr> :: watchtower_submission"
  let ?o = "submitWatchtowerState table_db 5 ?i (demo_table Closing)"
  have "\<exists>c. fst ?o = Inr c"
    by (simp add: submitWatchtowerState_def table_db_def table_single_def getChannel_def demo_table_def demo_channel_def
        toRecord_def watchtowersOf_def current_sequence_def default_state_def)
  then obtain c where o: "?o = (Inr c, fst (snd ?o), snd (snd ?o))" by (metis prod.collapse)
  let ?s = "(default_state 10)\<lparr>st_watchtowers := Some [\<lparr>wt_address = ''w'', wt_bounty = 1, wt_registeredAt = 0\<rparr>]\<rparr>"
  have s: "ch_state (demo_channel Closing) = Some ?s" by (simp add: demo_channel_def)
  obtain r s' where "map_of (fst (snd ?o)) ''c'' = Some r"
      "conserved r \<longleftrightarrow> ws_balanceA ?i + ws_balanceB ?i = st_totalDeposited ?s \<and> 0 \<le> ws_balanceA ?i \<and> 0 \<le> ws_balanceB ?i"
    using watchtower_sets_balances [OF table_db_ok _ s o] by (auto simp: demo_table_def)
  then show ?thesis by (simp add: default_state_def)
qed

text \<open>
  renewals that overlap are lost.  When two renewals of a channel read it before either
  writes, and both writes succeed, both callers are told their payment was applied, but the row
  holds only the second debit and its sequence number went up by one.
\<close>

theorem overlapping_renewals_lose_one:
  assumes "channel_db_ok ops" "db_row ops d i = Some r" "ch_state r = Some s"
    and "renewal_read ops i u a d = Inr s1" "renewal_read ops i u b d = Inr s2"
    and "send_update ops u i (write_state env i s1) d = (Inr c1, d1)"
    and "send_update ops u i (write_state env' i s2) d1 = (Inr c2, d2)"
  shows "\<exists>r'. db_row ops d2 i = Some r' \<and> ch_balance r' = Some (st_userBalance s - b) \<and>
      (\<exists>s'. ch_state r' = Some s' \<and> st_sequenceNumber s' = st_sequenceNumber s + 1 \<and>
        st_userBalance s' = st_userBalance s - b \<and> st_executorBalance s' = st_executorBalance s + b)"
proof -
  have s2: "s2 = renewed_state b s"
    using assms(2,3,5) by (auto simp: renewal_read_def split: option.splits if_splits elim!: getChannel_row [OF assms(1)])
  show ?thesis
  proof (rule send_update_cases [OF assms(1), of u i "write_state env' i s2" d1])
    fix r0 d' assume "send_update ops u i (write_state env' i s2) d1 = (Inr (toRecord (write_state env' i s2 r0)), d')"
      "db_row ops d' = (db_row ops d1)(i \<mapsto> write_state env' i s2 r0)"
    then show ?thesis using assms(7) by (auto simp: s2 write_state_def renewed_state_def)
  qed (use assms(7) in simp)
qed

theorem overlapping_renewals_lose_one_witness:
  "\<exists>r'. map_of (snd (send_update table_db ''u'' ''c'' (write_state demo_channel_env ''c'' (renewed_state 3 (the (ch_state (demo_channel Active_channel)))))
      (snd (send_update table_db ''u'' ''c'' (write_state demo_channel_env ''c'' (renewed_state 4 (the (ch_state (demo_channel Active_channel)))))
        (demo_table Active_channel))))) ''c'' = Some r' \<and> ch_balance r' = Some 7"
proof -
  let ?s = "the (ch_state (demo_channel Active_channel))"
  let ?f = "\<lambda>x. write_state demo_channel_env ''c'' (renewed_state x ?s)"
  have r: "map_of (demo_table Active_channel) ''c'' = Some (demo_channel Active_channel)" by (simp add: demo_table_def)
  have s: "ch_state (demo_channel Active_channel) = Some ?s" "st_userBalance ?s = 10" "ch_userId (demo_channel Active_channel) = ''u''"
    by (simp_all add: demo_channel_def default_state_def)
  have rd: "renewal_read table_db ''c'' ''u'' x (demo_table Active_channel) = Inr (renewed_state x ?s)" if "x \<le> 10" for x
    using that s by (simp add: renewal_read_def getChannel_def table_db_def table_single_def r toRecord_def) (simp add: demo_channel_def)
  have w: "\<exists>c. fst (send_update table_db ''u'' ''c'' f d) = Inr c" if "map_of d ''c'' = Some q" "ch_userId q = ''u''" for f d q
    using that by (simp add: send_update_def table_db_def table_single_def)
  let ?o1 = "send_update table_db ''u'' ''c'' (?f 4) (demo_table Active_channel)"
  have d1: "map_of (snd ?o1) ''c'' = Some (?f 4 (demo_channel Active_channel))"
    using s by (simp add: send_update_def table_db_def table_single_def r update_conv')
  obtain c1 where o1: "?o1 = (Inr c1, snd ?o1)" using w [OF r s(3)] by (metis prod.collapse)
  let ?o2 = "send_update table_db ''u'' ''c'' (?f 3) (snd ?o1)"
  have "ch_userId (?f 4 (demo_channel Active_channel)) = ''u''" using s by (simp add: write_state_def)
  then obtain c2 where o2: "?o2 = (Inr c2, snd ?o2)" using w [OF d1] by (metis prod.collapse)
  show ?thesis
    using overlapping_renewals_lose_one [OF table_db_ok _ s(1) rd rd o1 o2] r s(2) by auto
qed

text \<open>
  an off-chain renewal is applied only on a verified proof and debits exactly its argument.
  If it succeeds, the proof was accepted for this channel and request and its nonce recorded; the
  channel was active and the amount within its balance; the row then holds the debited balance
  with the next sequence number, signed, and nothing else changed but the time.
\<close>

theorem renewal_debits:
  assumes "channel_db_ok ops" "applyOffChainRenewal ops env i u amt prf h (d, m) = (Inr c, d', m')"
  shows "\<exists>p r s. prf = Some p \<and> verify_proof (ce_proof env) (ce_clock env) p i h m = (Inr (), m') \<and>
      db_row ops d i = Some r \<and> ch_userId r = u \<and> ch_status r = Active_channel \<and> ch_state r = Some s \<and> amt \<le> st_userBalance s \<and>
      db_row ops d' = (db_row ops d)(i \<mapsto> write_state env i (renewed_state amt s) r) \<and>
      c = toRecord (write_state env i (renewed_state amt s) r)"
proof -
  obtain p where p: "prf = Some p" "verify_proof (ce_proof env) (ce_clock env) p i h m = (Inr (), m')"
      and "\<exists>s. renewal_read ops i u amt d = Inr s \<and> send_update ops u i (write_state env i s) d = (Inr c, d')"
    using assms(2) by (auto simp: applyOffChainRenewal_def split: option.splits prod.splits sum.splits)
  then obtain s1 where s1: "renewal_read ops i u amt d = Inr s1" "send_update ops u i (write_state env i s1) d = (Inr c, d')"
    by blast
  obtain c0 s where c0: "getChannel ops u i d = Some c0" "cr_status c0 = Active_channel" "cr_state c0 = Some s"
      "amt \<le> st_userBalance s" "s1 = renewed_state amt s"
    using s1(1) by (auto simp: renewal_read_def split: option.splits if_splits)
  obtain r where r: "db_row ops d i = Some r" "c0 = toRecord r" "ch_userId r = u" by (rule getChannel_row [OF assms(1) c0(1)])
  show ?thesis
  proof (rule send_update_cases [OF assms(1), of u i "write_state env i s1" d])
    fix r0 d1 assume a: "send_update ops u i (write_state env i s1) d = (Inr (toRecord (write_state env i s1 r0)), d1)"
      "db_row ops d i = Some r0" "db_row ops d1 = (db_row ops d)(i \<mapsto> write_state env i s1 r0)"
    then have "r0 = r" "d1 = d'" "c = toRecord (write_state env i s1 r)" using s1(2) r(1) by auto
    with a p c0 r show ?thesis by (intro exI [of _ p] exI [of _ r] exI [of _ s]) simp
  qed (use s1(2) in simp)
qed

definition demo_renewal :: "gateway_proof option \<Rightarrow> (channel_error + channel_record) \<times> table \<times> seen_nonces" where
  "demo_renewal prf = applyOffChainRenewal table_db demo_channel_env ''c'' ''u'' 5 prf (replicate 64 (CHR ''0''))
     (demo_table Active_channel, [])"

theorem renewal_debits_witness:
  "\<exists>r s. ch_state (demo_channel Active_channel) = Some s \<and> map_of (fst (snd (demo_renewal (Some demo_gateway_proof)))) ''c'' = Some r \<and>
     ch_state r = Some (renewed_state 5 s) \<and> gp_amount demo_gateway_proof = 1"
proof -
  have v: "verify_proof demo_proof_env \<lparr>clk_fresh = 1000, clk_has = 1000, clk_put = 1000\<rparr> demo_gateway_proof ''c''
      (replicate 64 (CHR ''0'')) [] = (Inr (), [(proof_key demo_gateway_proof, 1000 + NONCE_TTL_MS)])"
    by code_simp
  have "\<exists>c. fst (demo_renewal (Some demo_gateway_proof)) = Inr c"
    by (simp add: demo_renewal_def applyOffChainRenewal_def demo_channel_env_def v renewal_read_def getChannel_def table_db_def
        table_single_def demo_table_def demo_channel_def toRecord_def default_state_def send_update_def)
  then obtain c d' m' where o: "demo_renewal (Some demo_gateway_proof) = (Inr c, d', m')" by (metis prod.collapse)
  show ?thesis
    using renewal_debits [OF table_db_ok o [unfolded demo_renewal_def]] o
    by (auto simp: demo_table_def write_state_def demo_gateway_proof_def)
qed

text \<open>
  a renewal is never paid from a channel.  \<open>applyRenewalPayment\<close> hands its three
  arguments to a function that takes five; the missing proof is dereferenced first, so every call
  ends in a \<open>TypeError\<close> and neither the channel nor the log changes.
\<close>

theorem renewal_never_applies:
  "applyRenewalPayment ops env fails i u sub amt st lg = (Inl (Type_error ''channelId''), st, lg)"
  by (simp add: applyRenewalPayment_def applyOffChainRenewal_def split_def)

end
