(* ===== verification/GiftCardLedger.thy ===== *)
theory GiftCardLedger
  imports Prelude "HOL-Library.Multiset"
begin

text \<open>
  The gift card ledger (\<open>backend/src/services/gift-card-ledger-service.ts\<close>) and the job that
  checks it (\<open>gift-card-ledger-verifier.ts\<close>).  Every movement of money is a transaction whose
  postings sum to zero; a balance is the sum of an account's postings.

  The tables are behind the record \<open>ledger_db\<close>, one field per kind of statement, and
  \<open>ledger_db_ok\<close> says what the code relies on.  Row ids of postings and creation times, which
  the database fills in, are left out.  \<open>executeTransaction\<close> holds the lock of the account from
  its first read to its last write, so it is one function.
\<close>

datatype reason_code = PURCHASE | REDEMPTION | EXPIRY | ADJUSTMENT | REVERSAL | TOP_UP | DEDUCTION

record posting =
  po_transaction_id :: ident
  po_account_id :: string
  po_user_id :: "ident option"
  po_subscription_id :: "ident option"
  po_gift_card_id :: "ident option"
  po_amount :: amount
  po_reason_code :: reason_code

record ledger_tx =
  tx_id :: ident
  tx_user_id :: ident
  tx_reason_code :: reason_code
  tx_description :: "string option"
  tx_reference_id :: "string option"
  tx_reversal_of :: "ident option"

datatype ledger_error =
    Ledger_db string
  | Sum_not_zero amount
  | Insufficient_gift_balance amount amount
  | Amount_not_positive
  | Amount_is_zero
  | Already_reversed ident
  | Original_not_found ident
  | No_postings_found ident

text \<open>\<open>Math.round(x * 100) / 100\<close>; \<open>Math.round\<close> rounds halves up.\<close>

definition round2 :: "amount \<Rightarrow> amount" where
  "round2 x = of_int \<lfloor>x * 100 + 1 / 2\<rfloor> / 100"

section \<open>The tables\<close>

text \<open>
  \<open>all_postings\<close> and \<open>tx_row\<close> are the contents.  \<open>select_postings\<close> is a select with a filter,
  \<open>select_tx\<close> by id with \<open>single()\<close>, \<open>select_reversal\<close> by the reversed id with
  \<open>maybeSingle()\<close>, whose error the code ignores.  \<open>checkpoint\<close> is the latest checkpoint of an
  account and \<open>latest_checkpoint\<close> the select of it, whose error is ignored as well.
\<close>

record 'd ledger_db =
  all_postings :: "'d \<Rightarrow> posting multiset"
  tx_row :: "'d \<Rightarrow> ident \<Rightarrow> ledger_tx option"
  checkpoint :: "'d \<Rightarrow> string \<Rightarrow> amount option"
  select_postings :: "'d \<Rightarrow> (posting \<Rightarrow> bool) \<Rightarrow> string + posting list"
  select_tx :: "'d \<Rightarrow> ident \<Rightarrow> ledger_tx option"
  select_reversal :: "'d \<Rightarrow> ident \<Rightarrow> ledger_tx option"
  insert_tx :: "'d \<Rightarrow> ledger_tx \<Rightarrow> (string + ledger_tx) \<times> 'd"
  insert_postings :: "'d \<Rightarrow> posting list \<Rightarrow> (string + posting list) \<times> 'd"
  latest_checkpoint :: "'d \<Rightarrow> string \<Rightarrow> amount option"
  insert_checkpoint :: "'d \<Rightarrow> string \<Rightarrow> amount \<Rightarrow> bool \<Rightarrow> 'd"

section \<open>The service\<close>

definition user_account :: "ident \<Rightarrow> string" where
  "user_account u = ''user:gift_card:'' @ u"

definition belongs_to :: "ident \<Rightarrow> posting \<Rightarrow> bool" where
  "belongs_to u p \<longleftrightarrow> po_account_id p = user_account u \<or> po_account_id p = ''user:'' @ u"

definition getBalance :: "'d ledger_db \<Rightarrow> ident \<Rightarrow> 'd \<Rightarrow> ledger_error + amount" where
  "getBalance db u d =
     (case select_postings db d (belongs_to u) of
        Inl e \<Rightarrow> Inl (Ledger_db e)
      | Inr rows \<Rightarrow> Inr (round2 (fold (\<lambda>row acc. acc + po_amount row) rows 0)))"

text \<open>
  The postings a transaction is asked for: account, user, subscription, card, amount.  The outer
  option of the user is whether the member is there at all.
\<close>

record posting_input =
  pi_account_id :: string
  pi_user_id :: "ident option option"
  pi_subscription_id :: "ident option"
  pi_gift_card_id :: "ident option"
  pi_amount :: amount

definition or_empty :: "ident option \<Rightarrow> ident \<Rightarrow> ident" where
  "or_empty x y = (case x of None \<Rightarrow> y | Some s \<Rightarrow> if s = [] then y else s)"

definition net_change :: "ident \<Rightarrow> posting_input \<Rightarrow> (ident, amount) jsmap \<Rightarrow> (ident, amount) jsmap" where
  "net_change userId p m =
     (if startsWith (pi_account_id p) ''user:gift_card:'' \<or> startsWith (pi_account_id p) ''user:''
      then (let uId = or_empty (case pi_user_id p of None \<Rightarrow> None | Some x \<Rightarrow> x) userId
            in js_set uId ((case js_get m uId of None \<Rightarrow> 0 | Some x \<Rightarrow> x) + pi_amount p) m)
      else m)"

fun check_overdraft :: "'d ledger_db \<Rightarrow> 'd \<Rightarrow> (ident \<times> amount) list \<Rightarrow> ledger_error option" where
  "check_overdraft db d [] = None"
| "check_overdraft db d ((uId, netChange) # es) =
     (case getBalance db uId d of
        Inl e \<Rightarrow> Some e
      | Inr currentBalance \<Rightarrow>
          if round2 (currentBalance + netChange) < 0 then Some (Insufficient_gift_balance currentBalance \<bar>netChange\<bar>)
          else check_overdraft db d es)"

definition posting_insert :: "ident \<Rightarrow> ident \<Rightarrow> reason_code \<Rightarrow> posting_input \<Rightarrow> posting" where
  "posting_insert txId userId reason p =
     \<lparr>po_transaction_id = txId, po_account_id = pi_account_id p,
      po_user_id = (case pi_user_id p of None \<Rightarrow> Some userId | Some x \<Rightarrow> x),
      po_subscription_id = pi_subscription_id p, po_gift_card_id = pi_gift_card_id p,
      po_amount = round2 (pi_amount p), po_reason_code = reason\<rparr>"

definition executeTransaction ::
    "'d ledger_db \<Rightarrow> ledger_tx \<Rightarrow> posting_input list \<Rightarrow> 'd \<Rightarrow> (ledger_error + ledger_tx \<times> posting list) \<times> 'd" where
  "executeTransaction db hdr ps d =
     (let roundedSum = round2 (fold (\<lambda>p s. s + pi_amount p) ps 0)
      in if 1 / 10000 < \<bar>roundedSum\<bar> then (Inl (Sum_not_zero roundedSum), d)
         else (case check_overdraft db d (fold (net_change (tx_user_id hdr)) ps []) of
             Some e \<Rightarrow> (Inl e, d)
           | None \<Rightarrow>
               (case insert_tx db d hdr of
                  (Inl e, d1) \<Rightarrow> (Inl (Ledger_db e), d1)
                | (Inr tx, d1) \<Rightarrow>
                    (case insert_postings db d1 (map (posting_insert (tx_id tx) (tx_user_id hdr) (tx_reason_code hdr)) ps) of
                       (Inl e, d2) \<Rightarrow> (Inl (Ledger_db e), d2)
                     | (Inr rows, d2) \<Rightarrow> (Inr (tx, rows), d2)))))"

definition header :: "ident \<Rightarrow> reason_code \<Rightarrow> string option \<Rightarrow> string option \<Rightarrow> ident option \<Rightarrow> ledger_tx" where
  "header userId reason description referenceId reversalOf =
     \<lparr>tx_id = [], tx_user_id = userId, tx_reason_code = reason, tx_description = description,
      tx_reference_id = referenceId, tx_reversal_of = reversalOf\<rparr>"

definition user_posting :: "ident \<Rightarrow> ident option \<Rightarrow> amount \<Rightarrow> posting_input" where
  "user_posting u sub a = \<lparr>pi_account_id = user_account u, pi_user_id = Some (Some u), pi_subscription_id = sub,
                          pi_gift_card_id = None, pi_amount = a\<rparr>"

definition system_posting :: "string \<Rightarrow> ident option \<Rightarrow> amount \<Rightarrow> posting_input" where
  "system_posting acct sub a = \<lparr>pi_account_id = acct, pi_user_id = Some None, pi_subscription_id = sub,
                               pi_gift_card_id = None, pi_amount = a\<rparr>"

definition topUp_card :: "'d ledger_db \<Rightarrow> ident \<Rightarrow> amount \<Rightarrow> string option \<Rightarrow> string option \<Rightarrow> 'd \<Rightarrow>
    (ledger_error + ledger_tx \<times> posting list) \<times> 'd" where
  "topUp_card db u amt description referenceId d =
     (if amt \<le> 0 then (Inl Amount_not_positive, d)
      else executeTransaction db (header u TOP_UP (Some (case description of None \<Rightarrow> ''Gift card top-up'' | Some s \<Rightarrow> s)) referenceId None)
             [user_posting u None amt, system_posting ''system:liability:gift_card'' None (- amt)] d)"

definition deduct :: "'d ledger_db \<Rightarrow> ident \<Rightarrow> ident \<Rightarrow> amount \<Rightarrow> string option \<Rightarrow> string option \<Rightarrow> 'd \<Rightarrow>
    (ledger_error + ledger_tx \<times> posting list) \<times> 'd" where
  "deduct db u sub amt description referenceId d =
     (if amt \<le> 0 then (Inl Amount_not_positive, d)
      else executeTransaction db (header u DEDUCTION (Some (case description of None \<Rightarrow> ''Subscription deduction'' | Some s \<Rightarrow> s)) referenceId None)
             [user_posting u (Some sub) (- amt), system_posting ''system:revenue:subscription'' (Some sub) amt] d)"

definition expireBalance :: "'d ledger_db \<Rightarrow> ident \<Rightarrow> amount \<Rightarrow> string option \<Rightarrow> 'd \<Rightarrow>
    (ledger_error + ledger_tx \<times> posting list) \<times> 'd" where
  "expireBalance db u amt description d =
     (if amt \<le> 0 then (Inl Amount_not_positive, d)
      else executeTransaction db (header u EXPIRY (Some (case description of None \<Rightarrow> ''Gift card balance expiry'' | Some s \<Rightarrow> s)) None None)
             [user_posting u None (- amt), system_posting ''system:expense:expiry'' None amt] d)"

definition adjustBalance :: "'d ledger_db \<Rightarrow> ident \<Rightarrow> amount \<Rightarrow> string option \<Rightarrow> 'd \<Rightarrow>
    (ledger_error + ledger_tx \<times> posting list) \<times> 'd" where
  "adjustBalance db u amt description d =
     (if amt = 0 then (Inl Amount_is_zero, d)
      else executeTransaction db (header u ADJUSTMENT (Some (case description of None \<Rightarrow> ''Manual balance adjustment'' | Some s \<Rightarrow> s)) None None)
             [user_posting u None amt, system_posting ''system:equity:adjustment'' None (- amt)] d)"

definition compensating :: "posting \<Rightarrow> posting_input" where
  "compensating p = \<lparr>pi_account_id = po_account_id p, pi_user_id = Some (po_user_id p), pi_subscription_id = po_subscription_id p,
                    pi_gift_card_id = po_gift_card_id p, pi_amount = - po_amount p\<rparr>"

definition reverseTransaction :: "'d ledger_db \<Rightarrow> ident \<Rightarrow> ident \<Rightarrow> string option \<Rightarrow> 'd \<Rightarrow>
    (ledger_error + ledger_tx \<times> posting list) \<times> 'd" where
  "reverseTransaction db u orig description d =
     (if select_reversal db d orig \<noteq> None then (Inl (Already_reversed orig), d)
      else if select_tx db d orig = None then (Inl (Original_not_found orig), d)
      else (case select_postings db d (\<lambda>p. po_transaction_id p = orig) of
          Inl e \<Rightarrow> (Inl (No_postings_found orig), d)
        | Inr [] \<Rightarrow> (Inl (No_postings_found orig), d)
        | Inr rows \<Rightarrow>
            executeTransaction db
              (header u REVERSAL (Some (case description of None \<Rightarrow> ''Reversal of transaction '' @ orig | Some s \<Rightarrow> s)) None (Some orig))
              (map compensating rows) d))"

definition getHistory :: "'d ledger_db \<Rightarrow> (posting list \<Rightarrow> posting list) \<Rightarrow> ident \<Rightarrow> nat \<Rightarrow> 'd \<Rightarrow> ledger_error + posting list" where
  "getHistory db newest_first u limit d =
     (case select_postings db d (\<lambda>p. po_account_id p = user_account u \<or> po_user_id p = Some u) of
        Inl e \<Rightarrow> Inl (Ledger_db e) | Inr rows \<Rightarrow> Inr (take limit (newest_first rows)))"

section \<open>The verifier\<close>

datatype mismatch_note = Postings_not_zero_sum | Negative_account | Checkpoint_mismatch

record mismatch =
  mm_account_id :: string
  mm_derived_balance :: amount
  mm_expected_balance :: "amount option"
  mm_note :: mismatch_note

record verification_summary =
  vs_success :: bool
  vs_accounts_checked :: nat
  vs_transactions_checked :: nat
  vs_mismatches :: "mismatch list"

text \<open>A running sum per key, rounded after every posting.\<close>

definition add_rounded :: "(posting \<Rightarrow> string) \<Rightarrow> posting \<Rightarrow> (string, amount) jsmap \<Rightarrow> (string, amount) jsmap" where
  "add_rounded key p m = js_set (key p) (round2 ((case js_get m (key p) of None \<Rightarrow> 0 | Some x \<Rightarrow> x) + po_amount p)) m"

definition unbalanced_txs :: "(string, amount) jsmap \<Rightarrow> mismatch list" where
  "unbalanced_txs txSums =
     map (\<lambda>(txId, s). \<lparr>mm_account_id = ''tx:'' @ txId, mm_derived_balance = s, mm_expected_balance = Some 0, mm_note = Postings_not_zero_sum\<rparr>)
       (filter (\<lambda>(txId, s). 1 / 1000 < \<bar>s\<bar>) txSums)"

definition check_account :: "'d ledger_db \<Rightarrow> 'd \<Rightarrow> string \<Rightarrow> amount \<Rightarrow> mismatch list \<Rightarrow> mismatch list \<times> bool" where
  "check_account db d accountId derived ms =
     (let ms1 = (if startsWith accountId ''user:gift_card:'' \<and> derived < 0
                 then ms @ [\<lparr>mm_account_id = accountId, mm_derived_balance = derived, mm_expected_balance = None, mm_note = Negative_account\<rparr>]
                 else ms);
          isValid = list_all (\<lambda>m. mm_account_id m \<noteq> accountId) ms1
      in case latest_checkpoint db d accountId of
           None \<Rightarrow> (ms1, isValid)
         | Some expected \<Rightarrow>
             if 1 / 1000 < \<bar>derived - expected\<bar>
             then (ms1 @ [\<lparr>mm_account_id = accountId, mm_derived_balance = derived, mm_expected_balance = Some expected, mm_note = Checkpoint_mismatch\<rparr>], False)
             else (ms1, isValid))"

fun check_accounts :: "'d ledger_db \<Rightarrow> (string \<times> amount) list \<Rightarrow> mismatch list \<Rightarrow> 'd \<Rightarrow> mismatch list \<times> 'd" where
  "check_accounts db [] ms d = (ms, d)"
| "check_accounts db ((accountId, derived) # es) ms d =
     (case check_account db d accountId derived ms of
        (ms', isValid) \<Rightarrow> check_accounts db es ms' (insert_checkpoint db d accountId derived isValid))"

definition verifyLedger :: "'d ledger_db \<Rightarrow> 'd \<Rightarrow> (ledger_error + verification_summary) \<times> 'd" where
  "verifyLedger db d =
     (case select_postings db d (\<lambda>p. True) of
        Inl e \<Rightarrow> (Inl (Ledger_db e), d)
      | Inr txPostings \<Rightarrow>
          (let txSums = fold (add_rounded po_transaction_id) txPostings []
           in case select_postings db d (\<lambda>p. True) of
                Inl e \<Rightarrow> (Inl (Ledger_db e), d)
              | Inr postings \<Rightarrow>
                  (let balances = fold (add_rounded po_account_id) postings [];
                       (ms, d') = check_accounts db balances (unbalanced_txs txSums) d
                   in (Inr \<lparr>vs_success = (ms = []), vs_accounts_checked = length balances,
                           vs_transactions_checked = length txSums, vs_mismatches = ms\<rparr>, d'))))"

section \<open>What the code relies on\<close>

definition select_ok :: "'d ledger_db \<Rightarrow> bool" where
  "select_ok db \<longleftrightarrow>
     (\<forall>d P rows. select_postings db d P = Inr rows \<longrightarrow> mset rows = filter_mset P (all_postings db d)) \<and>
     (\<forall>d i t. select_tx db d i = Some t \<longrightarrow> tx_row db d i = Some t) \<and>
     (\<forall>d i t. select_reversal db d i = Some t \<longrightarrow> tx_row db d (tx_id t) = Some t \<and> tx_reversal_of t = Some i)"

text \<open>A posting refers to a transaction that is there.\<close>

definition foreign_key :: "'d ledger_db \<Rightarrow> bool" where
  "foreign_key db \<longleftrightarrow> (\<forall>d. \<forall>p\<in>#all_postings db d. tx_row db d (po_transaction_id p) \<noteq> None)"

definition insert_tx_ok :: "'d ledger_db \<Rightarrow> bool" where
  "insert_tx_ok db \<longleftrightarrow> (\<forall>d t. case insert_tx db d t of
      (Inl e, d') \<Rightarrow> all_postings db d' = all_postings db d \<and> tx_row db d' = tx_row db d \<and> checkpoint db d' = checkpoint db d
    | (Inr t', d') \<Rightarrow> all_postings db d' = all_postings db d \<and> tx_row db d (tx_id t') = None \<and> t' = t\<lparr>tx_id := tx_id t'\<rparr> \<and>
        tx_row db d' = (tx_row db d)(tx_id t' \<mapsto> t') \<and> checkpoint db d' = checkpoint db d)"

definition insert_postings_ok :: "'d ledger_db \<Rightarrow> bool" where
  "insert_postings_ok db \<longleftrightarrow> (\<forall>d ps. case insert_postings db d ps of
      (Inl e, d') \<Rightarrow> all_postings db d' = all_postings db d \<and> tx_row db d' = tx_row db d \<and> checkpoint db d' = checkpoint db d
    | (Inr rows, d') \<Rightarrow> rows = ps \<and> all_postings db d' = all_postings db d + mset ps \<and> tx_row db d' = tx_row db d \<and>
        checkpoint db d' = checkpoint db d)"

definition checkpoint_ok :: "'d ledger_db \<Rightarrow> bool" where
  "checkpoint_ok db \<longleftrightarrow>
     (\<forall>d a x. latest_checkpoint db d a = Some x \<longrightarrow> checkpoint db d a = Some x) \<and>
     (\<forall>d a x v. all_postings db (insert_checkpoint db d a x v) = all_postings db d \<and>
        tx_row db (insert_checkpoint db d a x v) = tx_row db d \<and>
        (checkpoint db (insert_checkpoint db d a x v) = checkpoint db d \<or>
         checkpoint db (insert_checkpoint db d a x v) = (checkpoint db d)(a \<mapsto> x)))"

definition ledger_db_ok :: "'d ledger_db \<Rightarrow> bool" where
  "ledger_db_ok db \<longleftrightarrow> select_ok db \<and> foreign_key db \<and> insert_tx_ok db \<and> insert_postings_ok db \<and> checkpoint_ok db"

end
