(* ===== verification/LedgerProps.thy ===== *)
theory LedgerProps
  imports GiftCardLedger
begin

text \<open>
  The gift card ledger keeps its two promises, balances that are never negative and transactions
  that sum to zero, over any history of operations; a reversal undoes a transaction; the
  verifier accepts what the service writes, and where both go wrong.
\<close>

section \<open>Whole cents\<close>

definition cents :: "amount \<Rightarrow> bool" where
  "cents x \<longleftrightarrow> round2 x = x"

lemma round2_int [simp]: "round2 (of_int k / 100) = of_int k / 100"
proof -
  have "\<lfloor>(of_int k :: rat) + 1 / 2\<rfloor> = k" by linarith
  then show ?thesis by (simp add: round2_def)
qed

lemma cents_iff: "cents x \<longleftrightarrow> (\<exists>k. x = of_int k / 100)"
proof
  assume "cents x"
  then show "\<exists>k. x = of_int k / 100" unfolding cents_def round2_def by metis
next
  assume "\<exists>k. x = of_int k / 100"
  then obtain k where "x = of_int k / 100" by blast
  then show "cents x" unfolding cents_def by (simp only: round2_int)
qed

lemma cents_round2 [simp, intro]: "cents (round2 x)"
  unfolding cents_iff round2_def by blast

lemma cents_0 [simp, intro]: "cents 0"
  unfolding cents_iff by (intro exI [of _ 0]) simp

lemma cents_add [intro]: "cents x \<Longrightarrow> cents y \<Longrightarrow> cents (x + y)"
proof -
  assume "cents x" "cents y"
  then obtain i j where "x = of_int i / 100" "y = of_int j / 100" unfolding cents_iff by blast
  then have "x + y = of_int (i + j) / 100" by (simp add: add_divide_distrib)
  then show ?thesis unfolding cents_iff by blast
qed

lemma cents_minus [simp]: "cents (- x) \<longleftrightarrow> cents x"
proof -
  have "cents (- y)" if "cents y" for y
  proof -
    obtain i where "y = of_int i / 100" using \<open>cents y\<close> unfolding cents_iff by blast
    then have "- y = of_int (- i) / 100" by simp
    then show ?thesis unfolding cents_iff by blast
  qed
  from this [of x] this [of "- x"] show ?thesis by auto
qed

lemma round2_add: "cents x \<Longrightarrow> round2 (x + y) = x + round2 y"
proof -
  assume "cents x"
  then obtain k where x: "x = of_int k / 100" unfolding cents_iff by blast
  have "(x + y) * 100 + 1 / 2 = (y * 100 + 1 / 2) + of_int k" by (simp add: x ring_distribs)
  then have "\<lfloor>(x + y) * 100 + 1 / 2\<rfloor> = \<lfloor>y * 100 + 1 / 2\<rfloor> + k" by (simp only: floor_add_int)
  then show ?thesis by (simp add: round2_def x add_divide_distrib add.commute)
qed

lemma cents_small: "cents x \<Longrightarrow> \<bar>x\<bar> < 1 / 100 \<Longrightarrow> x = 0"
proof -
  assume "cents x" "\<bar>x\<bar> < 1 / 100"
  then obtain k where x: "x = of_int k / 100" unfolding cents_iff by blast
  have "\<bar>of_int k :: rat\<bar> < 1" using \<open>\<bar>x\<bar> < 1 / 100\<close> by (simp add: x abs_divide)
  then have "k = 0" by linarith
  then show ?thesis by (simp add: x)
qed

lemma cents_sum_list [intro]: "(\<And>x. x \<in> set xs \<Longrightarrow> cents x) \<Longrightarrow> cents (sum_list xs)"
  by (induction xs) auto

section \<open>Sums of postings\<close>

definition total :: "(posting \<Rightarrow> bool) \<Rightarrow> posting multiset \<Rightarrow> amount" where
  "total P M = sum_mset (image_mset po_amount (filter_mset P M))"

definition ptotal :: "(posting \<Rightarrow> bool) \<Rightarrow> posting list \<Rightarrow> amount" where
  "ptotal P ps = sum_list (map po_amount (filter P ps))"

lemma total_mset: "total P (mset ps) = ptotal P ps"
  by (simp add: total_def ptotal_def mset_filter [symmetric] mset_map [symmetric] sum_mset_sum_list del: mset_filter mset_map)

lemma total_union [simp]: "total P (M + N) = total P M + total P N"
  by (simp add: total_def)

lemma total_none: "\<forall>p\<in>#M. \<not> P p \<Longrightarrow> total P M = 0"
  by (simp add: total_def filter_mset_False cong: filter_mset_cong)

lemma total_cong: "(\<And>p. p \<in># M \<Longrightarrow> P p = Q p) \<Longrightarrow> total P M = total Q M"
  by (simp add: total_def cong: filter_mset_cong)

lemma total_filter: "total P (filter_mset Q M) = total (\<lambda>p. P p \<and> Q p) M"
  by (simp add: total_def filter_filter_mset conj_commute)

lemma cents_total: "\<forall>p\<in>#M. cents (po_amount p) \<Longrightarrow> cents (total P M)"
proof -
  assume c: "\<forall>p\<in>#M. cents (po_amount p)"
  obtain ps where "M = mset ps" by (metis ex_mset)
  with c show ?thesis unfolding \<open>M = mset ps\<close> total_mset ptotal_def by (intro cents_sum_list) auto
qed

lemma fold_amount: "fold (\<lambda>row acc. acc + po_amount row) rows x = x + ptotal (\<lambda>p. True) rows"
  by (induction rows arbitrary: x) (simp_all add: ptotal_def)

lemma fold_inputs: "fold (\<lambda>p s. s + pi_amount p) ps x = x + sum_list (map pi_amount ps)"
  by (induction ps arbitrary: x) simp_all

section \<open>Users and accounts\<close>

text \<open>
  A user's identifier is not empty and does not start with the prefix of a gift card account;
  identifiers are UUIDs.
\<close>

definition proper :: "ident \<Rightarrow> bool" where
  "proper u \<longleftrightarrow> u \<noteq> [] \<and> \<not> startsWith u ''gift_card:''"

definition attributed :: "posting \<Rightarrow> bool" where
  "attributed p \<longleftrightarrow> (startsWith (po_account_id p) ''user:'' \<longrightarrow>
     (\<exists>u. proper u \<and> po_account_id p = user_account u \<and> po_user_id p = Some u))"

definition well_posted :: "posting multiset \<Rightarrow> bool" where
  "well_posted M \<longleftrightarrow> (\<forall>p\<in>#M. cents (po_amount p) \<and> attributed p)"

abbreviation on_account :: "string \<Rightarrow> posting \<Rightarrow> bool" where
  "on_account a p \<equiv> po_account_id p = a"

abbreviation in_tx :: "ident \<Rightarrow> posting \<Rightarrow> bool" where
  "in_tx t p \<equiv> po_transaction_id p = t"

definition never_negative :: "posting multiset \<Rightarrow> bool" where
  "never_negative M \<longleftrightarrow> (\<forall>u. proper u \<longrightarrow> 0 \<le> total (on_account (user_account u)) M)"

definition balanced :: "posting multiset \<Rightarrow> bool" where
  "balanced M \<longleftrightarrow> (\<forall>t. total (in_tx t) M = 0)"

lemma user_account_inject [simp]: "user_account u = user_account v \<longleftrightarrow> u = v"
  by (simp add: user_account_def)

lemma user_account_prefix [simp]: "startsWith (user_account u) ''user:''" "startsWith (user_account u) ''user:gift_card:''"
  by (simp_all add: user_account_def startsWith_def)

lemma belongs_iff: "proper u \<Longrightarrow> attributed p \<Longrightarrow> belongs_to u p \<longleftrightarrow> on_account (user_account u) p"
  by (auto simp: belongs_to_def attributed_def proper_def user_account_def startsWith_def)

lemma getBalance_total:
  assumes "ledger_db_ok db" "well_posted (all_postings db d)" "proper u" "getBalance db u d = Inr b"
  shows "b = total (on_account (user_account u)) (all_postings db d)"
proof -
  obtain rows where rows: "select_postings db d (belongs_to u) = Inr rows" "b = round2 (ptotal (\<lambda>p. True) rows)"
    using assms(4) by (auto simp: getBalance_def fold_amount split: sum.splits)
  let ?M = "all_postings db d"
  have m: "mset rows = filter_mset (belongs_to u) ?M"
    using assms(1) rows(1) by (simp add: ledger_db_ok_def select_ok_def)
  have "ptotal (\<lambda>p. True) rows = total (\<lambda>p. True) (filter_mset (belongs_to u) ?M)"
    by (simp add: total_mset [symmetric] m)
  also have "\<dots> = total (belongs_to u) ?M" by (simp add: total_filter)
  also have "\<dots> = total (on_account (user_account u)) ?M"
    using assms(2,3) by (intro total_cong) (simp add: well_posted_def belongs_iff)
  finally show ?thesis using rows(2) cents_total [of ?M] assms(2) by (simp add: well_posted_def cents_def)
qed

section \<open>The overdraft check\<close>

definition input_ok :: "posting_input \<Rightarrow> bool" where
  "input_ok p \<longleftrightarrow> (startsWith (pi_account_id p) ''user:'' \<longrightarrow>
     (\<exists>u. proper u \<and> pi_account_id p = user_account u \<and> pi_user_id p = Some (Some u)))"

definition asked :: "ident \<Rightarrow> posting_input list \<Rightarrow> posting_input list" where
  "asked u ps = filter (\<lambda>p. pi_account_id p = user_account u) ps"

definition held_for :: "(ident, amount) jsmap \<Rightarrow> ident \<Rightarrow> amount" where
  "held_for m u = (case js_get m u of None \<Rightarrow> 0 | Some x \<Rightarrow> x)"

lemma startsWith_prefix: "startsWith s (p @ q) \<Longrightarrow> startsWith s p"
proof -
  assume "startsWith s (p @ q)"
  then have "take (length (p @ q)) s = p @ q" by (simp add: startsWith_def)
  then have "take (length p) (take (length (p @ q)) s) = p" by simp
  then show ?thesis by (simp add: startsWith_def min_def)
qed

lemma net_change_get:
  assumes "input_ok p"
  shows "held_for (net_change w p m) u = held_for m u + sum_list (map pi_amount (asked u [p]))"
    "js_get (net_change w p m) u = None \<longleftrightarrow> js_get m u = None \<and> asked u [p] = []"
proof -
  have user: "net_change w p m = js_set v (held_for m v + pi_amount p) m \<and> (asked u [p] = (if u = v then [p] else []))"
    if "proper v" "pi_account_id p = user_account v" "pi_user_id p = Some (Some v)" for v
    using that by (auto simp: net_change_def asked_def held_for_def or_empty_def proper_def)
  have other: "net_change w p m = m \<and> asked u [p] = []" if "\<not> startsWith (pi_account_id p) ''user:''"
  proof -
    have "\<not> startsWith (pi_account_id p) ''user:gift_card:''"
      using that startsWith_prefix [of "pi_account_id p" "''user:''" "''gift_card:''"] by auto
    moreover have "pi_account_id p \<noteq> user_account u" using that by auto
    ultimately show ?thesis using that by (simp add: net_change_def asked_def)
  qed
  have "held_for (net_change w p m) u = held_for m u + sum_list (map pi_amount (asked u [p])) \<and>
    (js_get (net_change w p m) u = None \<longleftrightarrow> js_get m u = None \<and> asked u [p] = [])"
  proof (cases "startsWith (pi_account_id p) ''user:''")
    case True
    then obtain v where "proper v" "pi_account_id p = user_account v" "pi_user_id p = Some (Some v)"
      using assms unfolding input_ok_def by blast
    from user [OF this] show ?thesis by (simp add: held_for_def)
  next
    case False
    from other [OF this] show ?thesis by simp
  qed
  then show "held_for (net_change w p m) u = held_for m u + sum_list (map pi_amount (asked u [p]))"
    "js_get (net_change w p m) u = None \<longleftrightarrow> js_get m u = None \<and> asked u [p] = []" by blast+
qed

lemma net_changes:
  assumes "\<forall>p\<in>set ps. input_ok p"
  shows "held_for (fold (net_change w) ps m) u = held_for m u + sum_list (map pi_amount (asked u ps))"
    "js_get (fold (net_change w) ps m) u = None \<longleftrightarrow> js_get m u = None \<and> asked u ps = []"
  using assms
proof (induction ps arbitrary: m)
  case (Cons p ps)
  have a: "asked u (p # ps) = asked u [p] @ asked u ps" by (simp add: asked_def)
  { case 1 then show ?case using Cons.IH(1) [of "net_change w p m"] net_change_get(1) [of p w m u] by (simp add: a) }
  { case 2 then show ?case using Cons.IH(2) [of "net_change w p m"] net_change_get(2) [of p w m u] by (simp add: a) }
qed (simp_all add: asked_def)

lemma check_overdraft_None:
  "check_overdraft db d es = None \<Longrightarrow> (u, n) \<in> set es \<Longrightarrow> \<exists>b. getBalance db u d = Inr b \<and> 0 \<le> round2 (b + n)"
  by (induction db d es rule: check_overdraft.induct) (auto split: sum.splits if_splits)

lemma overdraft_checked:
  assumes "check_overdraft db d (fold (net_change w) ps []) = None" "\<forall>p\<in>set ps. input_ok p" "asked u ps \<noteq> []"
  obtains b where "getBalance db u d = Inr b" "0 \<le> round2 (b + sum_list (map pi_amount (asked u ps)))"
proof -
  let ?m = "fold (net_change w) ps []"
  have "js_get ?m u \<noteq> None" using net_changes(2) [OF assms(2), of w "[]" u] assms(3) by simp
  then obtain n where n: "js_get ?m u = Some n" by blast
  then have "(u, n) \<in> set ?m" by (simp add: js_get_def map_of_SomeD)
  moreover have "n = sum_list (map pi_amount (asked u ps))"
    using net_changes(1) [OF assms(2), of w "[]" u] n by (simp add: held_for_def)
  ultimately show thesis using check_overdraft_None [OF assms(1)] that by blast
qed

section \<open>A transaction\<close>

lemma insert_tx_cases:
  assumes "ledger_db_ok db"
  obtains (inserted) t' d' where "insert_tx db d t = (Inr t', d')" "all_postings db d' = all_postings db d"
      "tx_row db d (tx_id t') = None" "t' = t\<lparr>tx_id := tx_id t'\<rparr>"
  | (failed) e d' where "insert_tx db d t = (Inl e, d')" "all_postings db d' = all_postings db d"
proof -
  have law: "case insert_tx db d t of
      (Inl e, d') \<Rightarrow> all_postings db d' = all_postings db d \<and> tx_row db d' = tx_row db d \<and> checkpoint db d' = checkpoint db d
    | (Inr t', d') \<Rightarrow> all_postings db d' = all_postings db d \<and> tx_row db d (tx_id t') = None \<and> t' = t\<lparr>tx_id := tx_id t'\<rparr> \<and>
        tx_row db d' = (tx_row db d)(tx_id t' \<mapsto> t') \<and> checkpoint db d' = checkpoint db d"
    by (rule spec [OF spec [OF assms [unfolded ledger_db_ok_def, THEN conjunct2, THEN conjunct2, THEN conjunct1, unfolded insert_tx_ok_def]]])
  obtain r d' where i: "insert_tx db d t = (r, d')" by (cases "insert_tx db d t")
  show thesis
  proof (cases r)
    case (Inl e) with law i show thesis by (intro failed [of e d']) simp_all
  next
    case (Inr t') with law i show thesis by (intro inserted [of t' d']) simp_all
  qed
qed

lemma insert_postings_cases:
  assumes "ledger_db_ok db"
  obtains (inserted) d' where "insert_postings db d ps = (Inr ps, d')" "all_postings db d' = all_postings db d + mset ps"
  | (failed) e d' where "insert_postings db d ps = (Inl e, d')" "all_postings db d' = all_postings db d"
proof -
  have law: "case insert_postings db d ps of
      (Inl e, d') \<Rightarrow> all_postings db d' = all_postings db d \<and> tx_row db d' = tx_row db d \<and> checkpoint db d' = checkpoint db d
    | (Inr rows, d') \<Rightarrow> rows = ps \<and> all_postings db d' = all_postings db d + mset ps \<and> tx_row db d' = tx_row db d \<and>
        checkpoint db d' = checkpoint db d"
    by (rule spec [OF spec [OF assms [unfolded ledger_db_ok_def, THEN conjunct2, THEN conjunct2, THEN conjunct2, THEN conjunct1,
          unfolded insert_postings_ok_def]]])
  obtain r d' where i: "insert_postings db d ps = (r, d')" by (cases "insert_postings db d ps")
  show thesis
  proof (cases r)
    case (Inl e) with law i show thesis by (intro failed [of e d']) simp_all
  next
    case (Inr t') with law i show thesis by (intro inserted [of d']) simp_all
  qed
qed

text \<open>
  A transaction either leaves the postings alone, or has passed both checks and adds its
  postings, all of a transaction id that had none.
\<close>

lemma execute_cases:
  assumes "ledger_db_ok db"
  obtains (nothing) e d' where "executeTransaction db hdr ps d = (Inl e, d')" "all_postings db d' = all_postings db d"
  | (posted) t d' rows where "executeTransaction db hdr ps d = (Inr (t, rows), d')"
      "\<bar>round2 (sum_list (map pi_amount ps))\<bar> \<le> 1 / 10000"
      "check_overdraft db d (fold (net_change (tx_user_id hdr)) ps []) = None"
      "\<forall>p\<in>#all_postings db d. po_transaction_id p \<noteq> tx_id t"
      "t = hdr\<lparr>tx_id := tx_id t\<rparr>"
      "rows = map (posting_insert (tx_id t) (tx_user_id hdr) (tx_reason_code hdr)) ps"
      "all_postings db d' = all_postings db d + mset rows"
proof -
  let ?sum = "round2 (sum_list (map pi_amount ps))"
  let ?chk = "check_overdraft db d (fold (net_change (tx_user_id hdr)) ps [])"
  have fk: "\<forall>p\<in>#all_postings db d. tx_row db d (po_transaction_id p) \<noteq> None"
    using assms by (simp add: ledger_db_ok_def foreign_key_def)
  consider "1 / 10000 < \<bar>?sum\<bar>" | e where "\<bar>?sum\<bar> \<le> 1 / 10000" "?chk = Some e" | "\<bar>?sum\<bar> \<le> 1 / 10000" "?chk = None"
    by (metis not_less option.exhaust)
  then show thesis
  proof cases
    case 1
    then have "executeTransaction db hdr ps d = (Inl (Sum_not_zero ?sum), d)" by (simp add: executeTransaction_def fold_inputs)
    then show thesis by (rule nothing) simp
  next
    case 2
    then have "executeTransaction db hdr ps d = (Inl e, d)" by (simp add: executeTransaction_def fold_inputs)
    then show thesis by (rule nothing) simp
  next
    case 3
    show thesis
    proof (rule insert_tx_cases [OF assms, of d hdr])
      fix e d' assume "insert_tx db d hdr = (Inl e, d')" "all_postings db d' = all_postings db d"
      with 3 have "executeTransaction db hdr ps d = (Inl (Ledger_db e), d')" "all_postings db d' = all_postings db d"
        by (simp_all add: executeTransaction_def fold_inputs)
      then show thesis by (rule nothing)
    next
      fix t d1 assume t: "insert_tx db d hdr = (Inr t, d1)" "all_postings db d1 = all_postings db d"
        "tx_row db d (tx_id t) = None" "t = hdr\<lparr>tx_id := tx_id t\<rparr>"
      let ?rows = "map (posting_insert (tx_id t) (tx_user_id hdr) (tx_reason_code hdr)) ps"
      have new: "\<forall>p\<in>#all_postings db d. po_transaction_id p \<noteq> tx_id t" using fk t(3) by auto
      show thesis
      proof (rule insert_postings_cases [OF assms, of d1 ?rows])
        fix d2 assume "insert_postings db d1 ?rows = (Inr ?rows, d2)" "all_postings db d2 = all_postings db d1 + mset ?rows"
        with 3 t new have "executeTransaction db hdr ps d = (Inr (t, ?rows), d2)" "all_postings db d2 = all_postings db d + mset ?rows"
          by (simp_all add: executeTransaction_def fold_inputs)
        then show thesis using 3 new t(4) by (intro posted [of t ?rows d2] refl)
      next
        fix e d2 assume "insert_postings db d1 ?rows = (Inl e, d2)" "all_postings db d2 = all_postings db d1"
        with 3 t have "executeTransaction db hdr ps d = (Inl (Ledger_db e), d2)" "all_postings db d2 = all_postings db d"
          by (simp_all add: executeTransaction_def fold_inputs)
        then show thesis by (rule nothing)
      qed
    qed
  qed
qed

definition tidy :: "posting_input list \<Rightarrow> bool" where
  "tidy ps \<longleftrightarrow> (\<forall>u. round2 (sum_list (map pi_amount (asked u ps))) = sum_list (map (\<lambda>p. round2 (pi_amount p)) (asked u ps)))"

lemma round2_cents [simp]: "cents x \<Longrightarrow> round2 x = x"
  by (simp add: cents_def)

lemma tidy_cents: "\<forall>p\<in>set ps. cents (pi_amount p) \<Longrightarrow> tidy ps"
proof -
  assume c: "\<forall>p\<in>set ps. cents (pi_amount p)"
  have e: "map (\<lambda>p. round2 (pi_amount p)) (asked u ps) = map pi_amount (asked u ps)" for u using c by (simp add: asked_def)
  have "cents (sum_list (map pi_amount (asked u ps)))" for u using c by (intro cents_sum_list) (auto simp: asked_def)
  then show ?thesis unfolding tidy_def e by simp
qed

lemma tidy_pair: "\<not> startsWith a ''user:'' \<Longrightarrow> tidy [user_posting u s x, system_posting a s' y]"
  by (auto simp: tidy_def asked_def user_posting_def system_posting_def)

lemma inserted_on_account:
  "total (on_account (user_account u)) (mset (map (posting_insert t w r) ps)) = sum_list (map (\<lambda>p. round2 (pi_amount p)) (asked u ps))"
  unfolding total_mset by (simp add: ptotal_def filter_map comp_def posting_insert_def asked_def)

lemma inserted_in_tx:
  "total (in_tx t') (mset (map (posting_insert t w r) ps)) = (if t' = t then sum_list (map (\<lambda>p. round2 (pi_amount p)) ps) else 0)"
  unfolding total_mset by (simp add: ptotal_def filter_map comp_def posting_insert_def)

lemma execute_sound:
  assumes "ledger_db_ok db" "well_posted (all_postings db d)" "never_negative (all_postings db d)"
    and "\<forall>p\<in>set ps. input_ok p" "tidy ps"
  shows "well_posted (all_postings db (snd (executeTransaction db hdr ps d)))"
    "never_negative (all_postings db (snd (executeTransaction db hdr ps d)))"
proof -
  let ?M = "all_postings db d" and ?M' = "all_postings db (snd (executeTransaction db hdr ps d))"
  have "well_posted ?M' \<and> never_negative ?M'"
  proof (rule execute_cases [OF assms(1), of hdr ps d])
    fix t d' rows
    assume ex: "executeTransaction db hdr ps d = (Inr (t, rows), d')"
      "check_overdraft db d (fold (net_change (tx_user_id hdr)) ps []) = None"
      "rows = map (posting_insert (tx_id t) (tx_user_id hdr) (tx_reason_code hdr)) ps"
      "all_postings db d' = ?M + mset rows"
    have M': "?M' = ?M + mset rows" using ex by simp
    have "cents (po_amount q) \<and> attributed q" if "q \<in> set rows" for q
    proof -
      obtain p where p: "p \<in> set ps" "q = posting_insert (tx_id t) (tx_user_id hdr) (tx_reason_code hdr) p" using \<open>q \<in> set rows\<close> ex(3) by auto
      with assms(4) have "input_ok p" by blast
      then show ?thesis by (auto simp: p(2) posting_insert_def attributed_def input_ok_def)
    qed
    then have wp: "well_posted ?M'" using assms(2) by (auto simp: M' well_posted_def)
    have "0 \<le> total (on_account (user_account u)) ?M'" if u: "proper u" for u
    proof (cases "asked u ps = []")
      case True
      then show ?thesis using assms(3) u unfolding M' total_union ex(3) inserted_on_account by (simp add: never_negative_def)
    next
      case False
      obtain b where b: "getBalance db u d = Inr b" "0 \<le> round2 (b + sum_list (map pi_amount (asked u ps)))"
        by (rule overdraft_checked [OF ex(2) assms(4) False])
      have bt: "b = total (on_account (user_account u)) ?M" by (rule getBalance_total [OF assms(1,2) u b(1)])
      have "cents b" unfolding bt using assms(2) by (intro cents_total) (simp add: well_posted_def)
      then have "0 \<le> b + sum_list (map (\<lambda>p. round2 (pi_amount p)) (asked u ps))"
        using b(2) assms(5) by (simp add: round2_add tidy_def)
      then show ?thesis unfolding M' total_union ex(3) inserted_on_account bt .
    qed
    then show ?thesis using wp by (simp add: never_negative_def)
  qed (use assms(2,3) in simp)
  then show "well_posted ?M'" "never_negative ?M'" by blast+
qed

lemma execute_balanced:
  assumes "ledger_db_ok db" "balanced (all_postings db d)" "\<forall>p\<in>set ps. cents (pi_amount p)"
  shows "balanced (all_postings db (snd (executeTransaction db hdr ps d)))"
proof (rule execute_cases [OF assms(1), of hdr ps d])
  fix t d' rows
  assume ex: "executeTransaction db hdr ps d = (Inr (t, rows), d')"
    "\<bar>round2 (sum_list (map pi_amount ps))\<bar> \<le> 1 / 10000"
    "rows = map (posting_insert (tx_id t) (tx_user_id hdr) (tx_reason_code hdr)) ps"
    "all_postings db d' = all_postings db d + mset rows"
  have e: "map (\<lambda>p. round2 (pi_amount p)) ps = map pi_amount ps" using assms(3) by simp
  have "sum_list (map pi_amount ps) = 0"
  proof (rule cents_small)
    show c: "cents (sum_list (map pi_amount ps))" using assms(3) by (intro cents_sum_list) auto
    show "\<bar>sum_list (map pi_amount ps)\<bar> < 1 / 100" using ex(2) c by simp
  qed
  then have "total (in_tx t') (mset rows) = 0" for t' unfolding ex(3) inserted_in_tx e by simp
  then show ?thesis using assms(2) ex by (simp add: balanced_def)
qed (use assms(2) in simp)

section \<open>Histories\<close>

datatype ledger_op =
    Top_up_card ident amount "string option" "string option"
  | Deduct_card ident ident amount "string option" "string option"
  | Expire_card ident amount "string option"
  | Adjust_card ident amount "string option"
  | Reverse_tx ident ident "string option"
  | Verify_ledger

fun ledger_step :: "'d ledger_db \<Rightarrow> ledger_op \<Rightarrow> 'd \<Rightarrow> 'd" where
  "ledger_step db (Top_up_card u a t r) d = snd (topUp_card db u a t r d)"
| "ledger_step db (Deduct_card u i a t r) d = snd (deduct db u i a t r d)"
| "ledger_step db (Expire_card u a t) d = snd (expireBalance db u a t d)"
| "ledger_step db (Adjust_card u a t) d = snd (adjustBalance db u a t d)"
| "ledger_step db (Reverse_tx u i t) d = snd (reverseTransaction db u i t d)"
| "ledger_step db Verify_ledger d = snd (verifyLedger db d)"

definition ledger_run :: "'d ledger_db \<Rightarrow> ledger_op list \<Rightarrow> 'd \<Rightarrow> 'd" where
  "ledger_run db xs d = fold (ledger_step db) xs d"

fun proper_op :: "ledger_op \<Rightarrow> bool" where
  "proper_op (Top_up_card u a t r) = proper u"
| "proper_op (Deduct_card u i a t r) = proper u"
| "proper_op (Expire_card u a t) = proper u"
| "proper_op (Adjust_card u a t) = proper u"
| "proper_op _ = True"

fun cents_op :: "ledger_op \<Rightarrow> bool" where
  "cents_op (Top_up_card u a t r) = cents a"
| "cents_op (Deduct_card u i a t r) = cents a"
| "cents_op (Expire_card u a t) = cents a"
| "cents_op (Adjust_card u a t) = cents a"
| "cents_op _ = True"

lemma pair_ok:
  "proper u \<Longrightarrow> \<not> startsWith a ''user:'' \<Longrightarrow> \<forall>p\<in>set [user_posting u s x, system_posting a s' y]. input_ok p"
  by (simp add: input_ok_def user_posting_def system_posting_def)

lemma insert_checkpoint_ok:
  assumes "ledger_db_ok db"
  shows "all_postings db (insert_checkpoint db d a x v) = all_postings db d"
    "checkpoint db (insert_checkpoint db d a x v) = checkpoint db d \<or>
     checkpoint db (insert_checkpoint db d a x v) = (checkpoint db d)(a \<mapsto> x)"
proof -
  have "all_postings db (insert_checkpoint db d a x v) = all_postings db d \<and>
        tx_row db (insert_checkpoint db d a x v) = tx_row db d \<and>
        (checkpoint db (insert_checkpoint db d a x v) = checkpoint db d \<or>
         checkpoint db (insert_checkpoint db d a x v) = (checkpoint db d)(a \<mapsto> x))"
    by (rule spec [OF spec [OF spec [OF spec [OF assms [unfolded ledger_db_ok_def, THEN conjunct2, THEN conjunct2, THEN conjunct2,
          THEN conjunct2, unfolded checkpoint_ok_def, THEN conjunct2]]]]])
  then show "all_postings db (insert_checkpoint db d a x v) = all_postings db d"
    "checkpoint db (insert_checkpoint db d a x v) = checkpoint db d \<or>
     checkpoint db (insert_checkpoint db d a x v) = (checkpoint db d)(a \<mapsto> x)" by blast+
qed

lemma check_accounts_postings:
  "ledger_db_ok db \<Longrightarrow> all_postings db (snd (check_accounts db es ms d)) = all_postings db d"
  by (induction db es ms d rule: check_accounts.induct) (simp_all add: insert_checkpoint_ok(1) split: prod.split)

lemma ledger_verify_cases:
  obtains (failed) e where "verifyLedger db d = (Inl e, d)"
  | (checked) rows rows' where "select_postings db d (\<lambda>p. True) = Inr rows" "select_postings db d (\<lambda>p. True) = Inr rows'"
      "verifyLedger db d =
        (let sums1 = fold (add_rounded po_transaction_id) rows []; balances = fold (add_rounded po_account_id) rows' [];
             r = check_accounts db balances (unbalanced_txs sums1) d
         in (Inr \<lparr>vs_success = (fst r = []), vs_accounts_checked = length balances, vs_transactions_checked = length sums1,
                 vs_mismatches = fst r\<rparr>, snd r))"
proof (cases "select_postings db d (\<lambda>p. True)")
  case (Inl e)
  then show thesis by (intro failed) (simp add: verifyLedger_def)
next
  case (Inr rows)
  then show thesis by (intro checked [of rows rows]) (simp_all add: verifyLedger_def split_def Let_def)
qed

lemma verify_postings: "ledger_db_ok db \<Longrightarrow> all_postings db (snd (verifyLedger db d)) = all_postings db d"
  by (rule ledger_verify_cases [of db d]) (simp_all add: check_accounts_postings Let_def)

lemma selected_rows:
  "ledger_db_ok db \<Longrightarrow> select_postings db d P = Inr rows \<Longrightarrow> mset rows = filter_mset P (all_postings db d)"
  by (simp add: ledger_db_ok_def select_ok_def)

lemma compensating_ok: "attributed p \<Longrightarrow> input_ok (compensating p)"
  by (auto simp: attributed_def input_ok_def compensating_def)

lemma selected_in: "ledger_db_ok db \<Longrightarrow> select_postings db d P = Inr rows \<Longrightarrow> p \<in> set rows \<Longrightarrow> p \<in># all_postings db d"
  using selected_rows [of db d P rows] by (metis filter_mset_eq_conv mset_subset_eqD set_mset_mset multiset_filter_subset)

lemma reverse_cases:
  assumes "ledger_db_ok db"
  obtains (refused) e where "reverseTransaction db u i t d = (Inl e, d)"
  | (executed) rows hdr where "select_postings db d (in_tx i) = Inr rows" "rows \<noteq> []"
      "select_reversal db d i = None" "tx_reversal_of hdr = Some i"
      "reverseTransaction db u i t d = executeTransaction db hdr (map compensating rows) d"
proof (cases "select_reversal db d i = None \<and> select_tx db d i \<noteq> None \<and> (\<exists>q qs. select_postings db d (in_tx i) = Inr (q # qs))")
  case True
  then obtain q qs y where q: "select_postings db d (in_tx i) = Inr (q # qs)" "select_tx db d i = Some y" "select_reversal db d i = None"
    by blast
  show thesis
    by (rule executed [OF q(1) _ q(3), of "header u REVERSAL (Some (case t of None \<Rightarrow> ''Reversal of transaction '' @ i | Some s \<Rightarrow> s)) None (Some i)"])
       (simp_all add: reverseTransaction_def header_def q)
next
  case False
  then have "\<exists>e. reverseTransaction db u i t d = (Inl e, d)"
    by (auto simp: reverseTransaction_def neq_Nil_conv split: sum.splits list.splits)
  then show thesis using refused by blast
qed

lemma step_sound:
  assumes db: "ledger_db_ok db" and wp: "well_posted (all_postings db d)" "never_negative (all_postings db d)" and op: "proper_op x"
  shows "well_posted (all_postings db (ledger_step db x d)) \<and> never_negative (all_postings db (ledger_step db x d))"
proof -
  have pair: "well_posted (all_postings db (snd (executeTransaction db hdr [user_posting u s a, system_posting acct s b] d))) \<and>
      never_negative (all_postings db (snd (executeTransaction db hdr [user_posting u s a, system_posting acct s b] d)))"
    if "proper u" "\<not> startsWith acct ''user:''" for hdr u s a acct b
    using execute_sound [OF db wp pair_ok [OF that] tidy_pair [OF that(2)]] by blast
  show ?thesis
  proof (cases x)
    case (Reverse_tx u i t)
    show ?thesis
    proof (rule reverse_cases [OF db, of u i t d])
      fix rows hdr assume r: "select_postings db d (in_tx i) = Inr rows"
        "reverseTransaction db u i t d = executeTransaction db hdr (map compensating rows) d"
      have q: "cents (po_amount q) \<and> attributed q" if "q \<in> set rows" for q
        using selected_in [OF db r(1) that] wp(1) by (simp add: well_posted_def)
      have "\<forall>p\<in>set (map compensating rows). input_ok p" "\<forall>p\<in>set (map compensating rows). cents (pi_amount p)"
        using q by (simp_all add: compensating_ok) (simp add: compensating_def)
      then show ?thesis using execute_sound [OF db wp _ tidy_cents, of "map compensating rows" hdr] by (simp add: Reverse_tx r(2))
    qed (use wp in \<open>simp add: Reverse_tx\<close>)
  next
    case Verify_ledger
    then show ?thesis using wp verify_postings [OF db] by simp
  qed (use op wp pair in \<open>simp_all add: topUp_card_def deduct_def expireBalance_def adjustBalance_def startsWith_def\<close>)
qed

lemma step_balanced:
  assumes db: "ledger_db_ok db" and wp: "well_posted (all_postings db d)" "balanced (all_postings db d)" and op: "cents_op x"
  shows "balanced (all_postings db (ledger_step db x d))"
proof -
  have pair: "balanced (all_postings db (snd (executeTransaction db hdr [user_posting u s a, system_posting acct s b] d)))"
    if "cents a" "cents b" for hdr u s a acct b
    using that by (intro execute_balanced [OF db wp(2)]) (simp add: user_posting_def system_posting_def)
  show ?thesis
  proof (cases x)
    case (Reverse_tx u i t)
    show ?thesis
    proof (rule reverse_cases [OF db, of u i t d])
      fix rows hdr assume r: "select_postings db d (in_tx i) = Inr rows"
        "reverseTransaction db u i t d = executeTransaction db hdr (map compensating rows) d"
      have "\<forall>p\<in>set (map compensating rows). cents (pi_amount p)"
        using selected_in [OF db r(1)] wp(1) by (simp add: compensating_def well_posted_def)
      then show ?thesis using execute_balanced [OF db wp(2)] by (simp add: Reverse_tx r(2))
    qed (use wp in \<open>simp add: Reverse_tx\<close>)
  next
    case Verify_ledger
    then show ?thesis using wp verify_postings [OF db] by simp
  qed (use op wp pair in \<open>simp_all add: topUp_card_def deduct_def expireBalance_def adjustBalance_def\<close>)
qed

section \<open>The verifier on what the service wrote\<close>

definition sum_for :: "(string, amount) jsmap \<Rightarrow> string \<Rightarrow> amount" where
  "sum_for m k = (case js_get m k of None \<Rightarrow> 0 | Some x \<Rightarrow> x)"

lemma add_rounded_fold:
  assumes "\<forall>p\<in>set rows. cents (po_amount p)" "js_wf m" "\<And>k. cents (sum_for m k)"
  shows "js_wf (fold (add_rounded key) rows m) \<and>
    sum_for (fold (add_rounded key) rows m) k = sum_for m k + ptotal (\<lambda>p. key p = k) rows \<and>
    set (js_keys (fold (add_rounded key) rows m)) = set (js_keys m) \<union> key ` set rows"
  using assms
proof (induction rows arbitrary: m)
  case (Cons p rows)
  let ?m = "add_rounded key p m"
  have c: "cents (sum_for m (key p) + po_amount p)" using Cons.prems(1,3) by auto
  have m: "?m = js_set (key p) (sum_for m (key p) + po_amount p) m"
    using round2_cents [OF c] by (simp add: add_rounded_def sum_for_def)
  have s: "sum_for ?m j = sum_for m j + (if key p = j then po_amount p else 0)" for j
    by (auto simp: m sum_for_def)
  have "cents (sum_for ?m j)" for j using Cons.prems(1,3) by (auto simp: s)
  then have "js_wf (fold (add_rounded key) rows ?m) \<and>
    sum_for (fold (add_rounded key) rows ?m) k = sum_for ?m k + ptotal (\<lambda>p. key p = k) rows \<and>
    set (js_keys (fold (add_rounded key) rows ?m)) = set (js_keys ?m) \<union> key ` set rows"
    using Cons.prems(1,2) by (intro Cons.IH) (auto simp: m)
  then show ?case by (simp add: s ptotal_def) (simp add: m js_keys_set Un_commute)
qed (simp add: ptotal_def)

lemma rounded_sums:
  assumes "ledger_db_ok db" "well_posted (all_postings db d)" "select_postings db d (\<lambda>p. True) = Inr rows"
  shows "js_wf (fold (add_rounded key) rows [])"
    "(k, x) \<in> set (fold (add_rounded key) rows []) \<Longrightarrow>
       x = total (\<lambda>p. key p = k) (all_postings db d) \<and> (\<exists>p\<in>#all_postings db d. key p = k)"
    "p \<in># all_postings db d \<Longrightarrow> (key p, total (\<lambda>q. key q = key p) (all_postings db d)) \<in> set (fold (add_rounded key) rows [])"
proof -
  let ?S = "fold (add_rounded key) rows []"
  have M: "all_postings db d = mset rows" using selected_rows [OF assms(1,3)] by simp
  have c: "\<forall>p\<in>set rows. cents (po_amount p)" using assms(2) by (simp add: M well_posted_def)
  note fold = add_rounded_fold [OF c js_wf_empty, of key, unfolded sum_for_def, simplified, folded sum_for_def]
  show wf: "js_wf ?S" using fold by blast
  have val: "sum_for ?S k = total (\<lambda>p. key p = k) (all_postings db d)" for k
    using fold by (simp add: M total_mset)
  have keys: "set (js_keys ?S) = key ` set rows" using fold by (simp add: js_keys_def)
  have get: "js_get ?S k = Some x \<longleftrightarrow> (k, x) \<in> set ?S" for k x
    using wf by (simp add: js_get_def js_wf_def)
  show "x = total (\<lambda>p. key p = k) (all_postings db d) \<and> (\<exists>p\<in>#all_postings db d. key p = k)" if "(k, x) \<in> set ?S"
  proof
    show "x = total (\<lambda>p. key p = k) (all_postings db d)" using that val [of k] by (simp add: get [symmetric] sum_for_def)
    have "k \<in> key ` set rows" using that keys by (force simp: js_keys_def)
    then show "\<exists>p\<in>#all_postings db d. key p = k" by (auto simp: M)
  qed
  show "(key p, total (\<lambda>q. key q = key p) (all_postings db d)) \<in> set ?S" if "p \<in># all_postings db d"
  proof -
    have "key p \<in> set (js_keys ?S)" using that keys by (simp add: M)
    then obtain x where x: "js_get ?S (key p) = Some x" using js_get_None_iff by fastforce
    then show ?thesis using val [of "key p"] by (simp add: get [symmetric] sum_for_def)
  qed
qed

text \<open>The checkpoints hold the balances.\<close>

definition checkpoints_agree :: "'d ledger_db \<Rightarrow> 'd \<Rightarrow> bool" where
  "checkpoints_agree db d \<longleftrightarrow> (\<forall>a x. checkpoint db d a = Some x \<longrightarrow> x = total (on_account a) (all_postings db d))"

lemma latest_is_checkpoint: "ledger_db_ok db \<Longrightarrow> latest_checkpoint db d a = Some x \<Longrightarrow> checkpoint db d a = Some x"
  by (simp add: ledger_db_ok_def checkpoint_ok_def)

lemma check_account_passes:
  assumes "ledger_db_ok db" "checkpoints_agree db d" "b = total (on_account a) (all_postings db d)"
    and "startsWith a ''user:gift_card:'' \<Longrightarrow> 0 \<le> b"
  shows "check_account db d a b [] = ([], True)"
  using assms latest_is_checkpoint [OF assms(1), of d a]
  by (auto simp: check_account_def checkpoints_agree_def split: option.splits)

lemma check_accounts_pass:
  assumes "ledger_db_ok db" "checkpoints_agree db d"
    and "\<forall>(a, b)\<in>set es. b = total (on_account a) (all_postings db d) \<and> (startsWith a ''user:gift_card:'' \<longrightarrow> 0 \<le> b)"
  shows "fst (check_accounts db es [] d) = [] \<and> checkpoints_agree db (snd (check_accounts db es [] d))"
  using assms(2,3)
proof (induction es arbitrary: d)
  case (Cons e es)
  obtain a b where e: "e = (a, b)" by (cases e)
  let ?d = "insert_checkpoint db d a b True"
  have p: "all_postings db ?d = all_postings db d" by (rule insert_checkpoint_ok(1) [OF assms(1)])
  have "check_account db d a b [] = ([], True)"
    using Cons.prems by (intro check_account_passes [OF assms(1)]) (auto simp: e)
  moreover have "checkpoints_agree db ?d"
    unfolding checkpoints_agree_def p using insert_checkpoint_ok(2) [OF assms(1), of d a b True] Cons.prems
    by (fastforce simp: checkpoints_agree_def e split: if_splits)
  then have "fst (check_accounts db es [] ?d) = [] \<and> checkpoints_agree db (snd (check_accounts db es [] ?d))"
    using Cons.prems(2) by (intro Cons.IH) (auto simp: p)
  ultimately show ?case by (simp add: e)
qed simp

lemma check_account_grows: "\<exists>xs. fst (check_account db d a b ms) = ms @ xs"
  by (simp add: check_account_def Let_def split: option.split)

lemma check_accounts_grows: "\<exists>xs. fst (check_accounts db es ms d) = ms @ xs"
proof (induction db es ms d rule: check_accounts.induct)
  case (2 db a b es ms d)
  obtain ms' v where c: "check_account db d a b ms = (ms', v)" by (cases "check_account db d a b ms")
  with check_account_grows [of db d a b ms] 2 [OF c [symmetric]] show ?case by auto
qed simp

lemma check_accounts_fail:
  assumes "ledger_db_ok db" "\<And>d a. latest_checkpoint db d a = checkpoint db d a"
    and "(a, b) \<in> set es" "distinct (map fst es)" "checkpoint db d a = Some x" "1 / 1000 < \<bar>b - x\<bar>"
  shows "fst (check_accounts db es ms d) \<noteq> []"
  using assms(3-5)
proof (induction es arbitrary: ms d)
  case (Cons e es)
  obtain a' b' where e: "e = (a', b')" by (cases e)
  obtain ms' v where c: "check_account db d a' b' ms = (ms', v)" by (cases "check_account db d a' b' ms")
  let ?d = "insert_checkpoint db d a' b' v"
  have step: "check_accounts db (e # es) ms d = check_accounts db es ms' ?d" by (simp add: e c)
  show ?case
  proof (cases "a' = a")
    case True
    then have "b' = b" using Cons.prems(1,2) e by force
    then have "ms' \<noteq> []" using c Cons.prems(3) assms(2,6) True by (auto simp: check_account_def Let_def split: if_splits)
    then show ?thesis using check_accounts_grows [of db es ms' ?d] unfolding step by auto
  next
    case False
    then have "checkpoint db ?d a = Some x" using insert_checkpoint_ok(2) [OF assms(1), of d a' b' v] Cons.prems(3) by auto
    then have "fst (check_accounts db es ms' ?d) \<noteq> []" using Cons.prems(1,2) False e by (intro Cons.IH) auto
    then show ?thesis unfolding step .
  qed
qed simp

lemma run_sound:
  assumes "ledger_db_ok db" "well_posted (all_postings db d)" "never_negative (all_postings db d)" "\<forall>x\<in>set xs. proper_op x"
  shows "well_posted (all_postings db (ledger_run db xs d)) \<and> never_negative (all_postings db (ledger_run db xs d))"
  unfolding ledger_run_def using assms(2-4)
  by (induction xs arbitrary: d) (auto dest: step_sound [OF assms(1)])

section \<open>A ledger in memory\<close>

record mem_ledger =
  ml_postings :: "posting list"
  ml_txs :: "(ident \<times> ledger_tx) list"
  ml_checkpoints :: "(string \<times> amount) list"

definition mem_rows :: "mem_ledger \<Rightarrow> posting list" where
  "mem_rows d = filter (\<lambda>p. map_of (ml_txs d) (po_transaction_id p) \<noteq> None) (ml_postings d)"

definition next_tx_id :: "mem_ledger \<Rightarrow> ident" where
  "next_tx_id d = CHR ''t'' # concat (map fst (ml_txs d) @ map po_transaction_id (ml_postings d))"

definition mem_ledger_db :: "mem_ledger ledger_db" where
  "mem_ledger_db = \<lparr>all_postings = (\<lambda>d. mset (mem_rows d)), tx_row = (\<lambda>d. map_of (ml_txs d)), checkpoint = (\<lambda>d. map_of (ml_checkpoints d)),
     select_postings = (\<lambda>d P. Inr (filter P (mem_rows d))), select_tx = (\<lambda>d. map_of (ml_txs d)),
     select_reversal = (\<lambda>d i. List.find (\<lambda>t. map_of (ml_txs d) (tx_id t) = Some t \<and> tx_reversal_of t = Some i) (map snd (ml_txs d))),
     insert_tx = (\<lambda>d t. let t' = t\<lparr>tx_id := next_tx_id d\<rparr> in (Inr t', d\<lparr>ml_txs := (next_tx_id d, t') # ml_txs d\<rparr>)),
     insert_postings = (\<lambda>d ps. if list_all (\<lambda>p. map_of (ml_txs d) (po_transaction_id p) \<noteq> None) ps
        then (Inr ps, d\<lparr>ml_postings := ml_postings d @ ps\<rparr>) else (Inl ''foreign key'', d)),
     latest_checkpoint = (\<lambda>d. map_of (ml_checkpoints d)),
     insert_checkpoint = (\<lambda>d a x v. d\<lparr>ml_checkpoints := (a, x) # ml_checkpoints d\<rparr>)\<rparr>"

lemma next_tx_id_fresh: "map_of (ml_txs d) (next_tx_id d) = None" "p \<in> set (ml_postings d) \<Longrightarrow> po_transaction_id p \<noteq> next_tx_id d"
proof -
  have len: "length x \<le> length (concat xs)" if "x \<in> set xs" for x :: ident and xs
    using that by (induction xs) auto
  have "x \<noteq> next_tx_id d" if "x \<in> set (map fst (ml_txs d) @ map po_transaction_id (ml_postings d))" for x
    using len [OF that] by (auto simp: next_tx_id_def)
  then show "map_of (ml_txs d) (next_tx_id d) = None" "p \<in> set (ml_postings d) \<Longrightarrow> po_transaction_id p \<noteq> next_tx_id d"
    by (force simp: map_of_eq_None_iff)+
qed

lemma mem_ledger_ok: "ledger_db_ok mem_ledger_db"
  unfolding ledger_db_ok_def
proof (intro conjI)
  show "select_ok mem_ledger_db"
    by (auto simp: select_ok_def mem_ledger_db_def find_Some_iff)
  show "foreign_key mem_ledger_db"
    by (simp add: foreign_key_def mem_ledger_db_def mem_rows_def)
  have rows: "mem_rows (d\<lparr>ml_txs := (next_tx_id d, t') # ml_txs d\<rparr>) = mem_rows d" for d t'
    using next_tx_id_fresh [where d = d] by (auto simp: mem_rows_def intro!: filter_cong)
  show "insert_tx_ok mem_ledger_db"
    by (simp add: insert_tx_ok_def mem_ledger_db_def rows Let_def next_tx_id_fresh)
  have added: "mem_rows (d\<lparr>ml_postings := ml_postings d @ ps\<rparr>) = mem_rows d @ ps"
    if "list_all (\<lambda>p. map_of (ml_txs d) (po_transaction_id p) \<noteq> None) ps" for d ps
    using that by (simp add: mem_rows_def list_all_iff)
  show "insert_postings_ok mem_ledger_db"
    by (simp add: insert_postings_ok_def mem_ledger_db_def added)
  show "checkpoint_ok mem_ledger_db"
    by (auto simp: checkpoint_ok_def mem_ledger_db_def mem_rows_def)
qed

definition empty_ledger :: mem_ledger where
  "empty_ledger = \<lparr>ml_postings = [], ml_txs = [], ml_checkpoints = []\<rparr>"

lemma empty_ledger_sound [simp]:
  "well_posted (all_postings mem_ledger_db empty_ledger)" "never_negative (all_postings mem_ledger_db empty_ledger)"
  "balanced (all_postings mem_ledger_db empty_ledger)" "checkpoints_agree mem_ledger_db empty_ledger"
  by (simp_all add: mem_ledger_db_def mem_rows_def empty_ledger_def well_posted_def never_negative_def balanced_def
      checkpoints_agree_def total_def)

lemma proper_example: "proper ''u''"
  by (simp add: proper_def startsWith_def)

definition demo_ledger_ops :: "ledger_op list" where
  "demo_ledger_ops = [Top_up_card ''u'' 10 None None, Deduct_card ''u'' ''s'' 4 None None, Reverse_tx ''u'' ''t'' None,
     Deduct_card ''u'' ''s'' 7 None None]"

section \<open>Properties\<close>



text \<open>
  C17: the ledger stays in balance.  If the amounts of a history of operations are whole cents,
  every transaction's postings sum to zero after it, whatever fails: a transaction whose
  postings were not stored has none.
\<close>

theorem ledger_stays_balanced:
  assumes "ledger_db_ok db" "well_posted (all_postings db d)" "never_negative (all_postings db d)" "balanced (all_postings db d)"
    and "\<forall>x\<in>set xs. proper_op x \<and> cents_op x"
  shows "total (in_tx t) (all_postings db (ledger_run db xs d)) = 0"
proof -
  have "balanced (all_postings db (ledger_run db xs d))"
    unfolding ledger_run_def using assms(2-5)
  proof (induction xs arbitrary: d)
    case (Cons x xs)
    then show ?case using step_sound [OF assms(1)] step_balanced [OF assms(1)] by simp
  qed simp
  then show ?thesis by (simp add: balanced_def)
qed

lemma cents_of_int: "cents (of_int k)"
  unfolding cents_iff by (intro exI [of _ "k * 100"]) simp

theorem ledger_stays_balanced_witness:
  "total (in_tx ''t'') (all_postings mem_ledger_db (ledger_run mem_ledger_db demo_ledger_ops empty_ledger)) = 0"
  using cents_of_int [of 10] cents_of_int [of 4] cents_of_int [of 7]
  by (intro ledger_stays_balanced [OF mem_ledger_ok]) (simp_all add: demo_ledger_ops_def proper_example)

text \<open>
  a reversal undoes its transaction and nothing else.  When it succeeds, no reversal of the
  transaction had been found, the new transaction names the one it reverses, and every account
  holds what it held before less what the reversed transaction had brought it.
\<close>

theorem reversal_undoes:
  assumes "ledger_db_ok db" "well_posted (all_postings db d)" "reverseTransaction db u i descr d = (Inr (t, rows), d')"
  shows "select_reversal db d i = None \<and> tx_reversal_of t = Some i \<and>
    total (on_account a) (all_postings db d') =
       total (on_account a) (all_postings db d) - total (\<lambda>p. on_account a p \<and> in_tx i p) (all_postings db d)"
proof -
  let ?M = "all_postings db d"
  show ?thesis
  proof (rule reverse_cases [OF assms(1), of u i descr d])
    fix old hdr assume old: "select_postings db d (in_tx i) = Inr old" "select_reversal db d i = None" "tx_reversal_of hdr = Some i"
      "reverseTransaction db u i descr d = executeTransaction db hdr (map compensating old) d"
    have c: "\<forall>p\<in>set old. cents (po_amount p)" using selected_in [OF assms(1) old(1)] assms(2) by (simp add: well_posted_def)
    have M: "mset old = filter_mset (in_tx i) ?M" by (rule selected_rows [OF assms(1) old(1)])
    have neg: "ptotal (on_account a) (map (posting_insert j w r \<circ> compensating) old) = - ptotal (on_account a) old" for j w r
      using c by (induction old) (simp_all add: ptotal_def posting_insert_def compensating_def)
    have old_total: "ptotal (on_account a) old = total (\<lambda>p. on_account a p \<and> in_tx i p) ?M"
      by (simp add: total_mset [symmetric] M total_filter)
    show ?thesis
    proof (rule execute_cases [OF assms(1), of hdr "map compensating old" d])
      fix t1 d1 rows1 assume "executeTransaction db hdr (map compensating old) d = (Inr (t1, rows1), d1)"
        "t1 = hdr\<lparr>tx_id := tx_id t1\<rparr>"
        "rows1 = map (posting_insert (tx_id t1) (tx_user_id hdr) (tx_reason_code hdr)) (map compensating old)"
        "all_postings db d1 = ?M + mset rows1"
      moreover from this(2) have "tx_reversal_of t1 = Some i" using old(3) by (metis ledger_tx.select_convs(6) ledger_tx.surjective ledger_tx.update_convs(1))
      ultimately show ?thesis using assms(3) old neg old_total by (auto simp: total_mset simp del: mset_map)
    qed (use assms(3) old in simp)
  qed (use assms(3) in simp)
qed

definition topped_up :: mem_ledger where
  "topped_up = ledger_run mem_ledger_db [Top_up_card ''u'' 10 None None] empty_ledger"

lemma topped_up_sound: "well_posted (all_postings mem_ledger_db topped_up) \<and> never_negative (all_postings mem_ledger_db topped_up) \<and>
    balanced (all_postings mem_ledger_db topped_up)"
  using step_sound [OF mem_ledger_ok, of empty_ledger "Top_up_card ''u'' 10 None None"]
    step_balanced [OF mem_ledger_ok, of empty_ledger "Top_up_card ''u'' 10 None None"] cents_of_int [of 10] proper_example
  by (simp add: topped_up_def ledger_run_def)

theorem reversal_undoes_witness:
  "\<exists>t rows d'. reverseTransaction mem_ledger_db ''u'' ''t'' None topped_up = (Inr (t, rows), d') \<and>
     total (on_account (user_account ''u'')) (all_postings mem_ledger_db d') =
       total (on_account (user_account ''u'')) (all_postings mem_ledger_db topped_up) -
       total (\<lambda>p. on_account (user_account ''u'') p \<and> in_tx ''t'' p) (all_postings mem_ledger_db topped_up)"
proof -
  let ?r = "reverseTransaction mem_ledger_db ''u'' ''t'' None topped_up"
  have "case fst ?r of Inl e \<Rightarrow> False | Inr x \<Rightarrow> True" by code_simp
  then obtain t rows where "fst ?r = Inr (t, rows)" by (cases "fst ?r") auto
  then have r: "?r = (Inr (t, rows), snd ?r)" by (simp add: prod_eq_iff)
  from reversal_undoes [OF mem_ledger_ok conjunct1 [OF topped_up_sound] this, of "user_account ''u''"] r show ?thesis by blast
qed



text \<open>
  any movement since the last verification is reported as a mismatch.  The verifier compares
  the current balance of an account with its last checkpoint; if the account has moved in
  between, by whatever valid transactions, the verification does not succeed.
\<close>

theorem moved_account_is_mismatch:
  assumes "ledger_db_ok db" "\<And>d a. latest_checkpoint db d a = checkpoint db d a" "well_posted (all_postings db d)"
    and "p \<in># all_postings db d" "checkpoint db d (po_account_id p) = Some x" "cents x"
    and "x \<noteq> total (on_account (po_account_id p)) (all_postings db d)" "verifyLedger db d = (Inr s, d')"
  shows "\<not> vs_success s"
proof (rule ledger_verify_cases [of db d])
  fix rows rows'
  assume r: "select_postings db d (\<lambda>p. True) = Inr rows" "select_postings db d (\<lambda>p. True) = Inr rows'"
  let ?tx = "fold (add_rounded po_transaction_id) rows []" and ?ac = "fold (add_rounded po_account_id) rows' []"
  let ?b = "total (on_account (po_account_id p)) (all_postings db d)"
  assume v: "verifyLedger db d = (let sums1 = ?tx; balances = ?ac; r = check_accounts db balances (unbalanced_txs sums1) d
         in (Inr \<lparr>vs_success = (fst r = []), vs_accounts_checked = length balances, vs_transactions_checked = length sums1,
                 vs_mismatches = fst r\<rparr>, snd r))"
  have "cents (?b - x)" using cents_total [of "all_postings db d" "on_account (po_account_id p)"] assms(3,6) cents_add [of ?b "- x"]
    by (simp add: well_posted_def)
  then have "1 / 1000 < \<bar>?b - x\<bar>" using cents_small [of "?b - x"] assms(7) by fastforce
  then have "fst (check_accounts db ?ac (unbalanced_txs ?tx) d) \<noteq> []"
    using rounded_sums(1,3) [OF assms(1,3) r(2), where key = po_account_id] assms(4)
    by (intro check_accounts_fail [OF assms(1,2) _ _ assms(5)]) (auto simp: js_wf_def)
  then show ?thesis using v assms(8) by (auto simp: Let_def)
qed (use assms(8) in simp)

definition moved_ledger :: mem_ledger where
  "moved_ledger = ledger_run mem_ledger_db [Verify_ledger, Top_up_card ''u'' 5 None None] topped_up"

theorem moved_account_is_mismatch_witness:
  "\<exists>s d'. verifyLedger mem_ledger_db moved_ledger = (Inr s, d') \<and> \<not> vs_success s"
proof -
  let ?r = "verifyLedger mem_ledger_db moved_ledger"
  let ?p = "hd (ml_postings moved_ledger)"
  have "(case fst ?r of Inl e \<Rightarrow> False | Inr x \<Rightarrow> True) \<and> map_of (ml_checkpoints moved_ledger) (po_account_id ?p) = Some 10 \<and>
      mem_rows moved_ledger = ml_postings moved_ledger \<and> ml_postings moved_ledger \<noteq> [] \<and>
      ptotal (on_account (po_account_id ?p)) (mem_rows moved_ledger) = 15"
    by code_simp
  then obtain s where s: "fst ?r = Inr s" and c: "map_of (ml_checkpoints moved_ledger) (po_account_id ?p) = Some 10"
      "?p \<in> set (mem_rows moved_ledger)" "ptotal (on_account (po_account_id ?p)) (mem_rows moved_ledger) = 15"
    by (cases "fst ?r") (auto simp: hd_in_set)
  then have r: "?r = (Inr s, snd ?r)" by (simp add: prod_eq_iff)
  have M: "all_postings mem_ledger_db = (\<lambda>d. mset (mem_rows d))" "checkpoint mem_ledger_db = (\<lambda>d. map_of (ml_checkpoints d))"
    "latest_checkpoint mem_ledger_db = (\<lambda>d. map_of (ml_checkpoints d))" by (simp_all add: mem_ledger_db_def)
  have "well_posted (all_postings mem_ledger_db moved_ledger)"
    using topped_up_sound proper_example run_sound [OF mem_ledger_ok, of topped_up "[Verify_ledger, Top_up_card ''u'' 5 None None]"]
    by (simp add: moved_ledger_def)
  then have "\<not> vs_success s"
    using c cents_of_int [of 10]
    by (intro moved_account_is_mismatch [OF mem_ledger_ok _ _ _ _ _ _ r, of ?p 10]) (simp_all add: M total_mset)
  with r show ?thesis by blast
qed

text \<open>
  half a cent breaks the zero sum.  \<open>Math.round\<close> rounds halves up, so a top-up by an amount
  that ends in half a cent is rounded up on the user's account and down on the other: the
  transaction passes the check, which adds the amounts before rounding, and its postings sum to
  one cent.
\<close>

theorem half_cent_unbalances:
  assumes "ledger_db_ok db" "amt = of_int k / 100 + 1 / 200" "topUp_card db u amt descr ref d = (Inr (t, rows), d')"
  shows "total (in_tx (tx_id t)) (all_postings db d') = 1 / 100"
proof -
  have up: "round2 amt = of_int (k + 1) / 100" "round2 (- amt) = of_int (- k) / 100"
  proof -
    have "amt * 100 + 1 / 2 = of_int (k + 1)" "- amt * 100 + 1 / 2 = of_int (- k)" by (simp_all add: assms(2) ring_distribs)
    then have "\<lfloor>amt * 100 + 1 / 2\<rfloor> = k + 1" "\<lfloor>- amt * 100 + 1 / 2\<rfloor> = - k" by (simp_all only: floor_of_int)
    then show "round2 amt = of_int (k + 1) / 100" "round2 (- amt) = of_int (- k) / 100" by (simp_all add: round2_def)
  qed
  let ?ps = "[user_posting u None amt, system_posting ''system:liability:gift_card'' None (- amt)]"
  define hdr where "hdr = header u TOP_UP (Some (case descr of None \<Rightarrow> ''Gift card top-up'' | Some s \<Rightarrow> s)) ref None"
  have ex: "executeTransaction db hdr ?ps d = (Inr (t, rows), d')"
    using assms(3) by (auto simp: topUp_card_def hdr_def split: if_splits)
  show ?thesis
  proof (rule execute_cases [OF assms(1), of hdr ?ps d])
    fix t1 d1 rows1
    assume "executeTransaction db hdr ?ps d = (Inr (t1, rows1), d1)" "\<forall>p\<in>#all_postings db d. po_transaction_id p \<noteq> tx_id t1"
      and rows1: "rows1 = map (posting_insert (tx_id t1) (tx_user_id hdr) (tx_reason_code hdr)) ?ps"
        "all_postings db d1 = all_postings db d + mset rows1"
    then have "t1 = t" "d1 = d'" "total (in_tx (tx_id t)) (all_postings db d) = 0" using ex by (auto intro: total_none)
    then have "total (in_tx (tx_id t)) (all_postings db d') = round2 amt + round2 (- amt)"
      using rows1(2) unfolding rows1(1) by (simp only: total_union inserted_in_tx) (simp add: user_posting_def system_posting_def)
    then show ?thesis using up by (simp add: diff_divide_distrib [symmetric])
  qed (use ex in simp)
qed

theorem half_cent_unbalances_witness:
  "\<exists>t rows d'. topUp_card mem_ledger_db ''u'' (1 / 8) None None empty_ledger = (Inr (t, rows), d') \<and>
     total (in_tx (tx_id t)) (all_postings mem_ledger_db d') = 1 / 100"
proof -
  let ?r = "topUp_card mem_ledger_db ''u'' (1 / 8) None None empty_ledger"
  have "case fst ?r of Inl e \<Rightarrow> False | Inr x \<Rightarrow> True" by code_simp
  then obtain t rows where "fst ?r = Inr (t, rows)" by (cases "fst ?r") auto
  then have r: "?r = (Inr (t, rows), snd ?r)" by (simp add: prod_eq_iff)
  from half_cent_unbalances [OF mem_ledger_ok _ this, of 12] r show ?thesis by fastforce
qed

end
