(* ===== verification/SdkClient.thy ===== *)
theory SdkClient
  imports Json
begin

text \<open>
  The client of the gateway in the SDK: error classes (\<open>sdk/src/generated/gateway-errors.ts\<close>),
  retries with an idempotency key (\<open>sdk/src/v3/retry.ts\<close>) and JSON calls
  (\<open>sdk/src/v3/gateway-client.ts\<close>).

  The world \<open>'w\<close> is what operations and sleeping change; the clock reads it.  The number and
  date readers of JavaScript are fields of \<open>header_env\<close>.
\<close>

section \<open>Gateway errors\<close>

datatype gateway_error_code =
    GATEWAY_PAYMENT_REQUIRED | GATEWAY_KEY_MISSING | GATEWAY_KEY_INVALID | GATEWAY_KEY_REVOKED | GATEWAY_SCOPE_DENIED
  | GATEWAY_GRANT_EXPIRED | GATEWAY_CAP_EXCEEDED | GATEWAY_CHANNEL_EXHAUSTED | GATEWAY_METER_INSUFFICIENT
  | GATEWAY_RATE_LIMITED | GATEWAY_UPSTREAM_UNAVAILABLE | GATEWAY_METER_DEGRADED | GATEWAY_BAD_REQUEST
  | GATEWAY_UNAUTHORIZED | GATEWAY_INTERNAL

record gateway_sdk_error =
  ge_code :: gateway_error_code
  ge_message :: json
  ge_status :: int
  ge_retryable :: bool
  ge_retryAfterMs :: "amount option"
  ge_action :: string

record error_class =
  ec_status :: int
  ec_action :: string
  ec_retryable :: bool
  ec_message :: string
  ec_retryAfterSeconds :: "amount option"

fun errorByCode :: "gateway_error_code \<Rightarrow> error_class" where
  "errorByCode GATEWAY_PAYMENT_REQUIRED = \<lparr>ec_status = 402, ec_action = ''provide_payment'', ec_retryable = False,
     ec_message = ''Valid payment authorization is required.'', ec_retryAfterSeconds = None\<rparr>"
| "errorByCode GATEWAY_KEY_MISSING = \<lparr>ec_status = 401, ec_action = ''provide_credentials'', ec_retryable = False,
     ec_message = ''Gateway credentials are required.'', ec_retryAfterSeconds = None\<rparr>"
| "errorByCode GATEWAY_KEY_INVALID = \<lparr>ec_status = 401, ec_action = ''refresh_credentials'', ec_retryable = False,
     ec_message = ''Gateway credentials are invalid.'', ec_retryAfterSeconds = None\<rparr>"
| "errorByCode GATEWAY_KEY_REVOKED = \<lparr>ec_status = 403, ec_action = ''refresh_credentials'', ec_retryable = False,
     ec_message = ''Provider key has been revoked.'', ec_retryAfterSeconds = None\<rparr>"
| "errorByCode GATEWAY_SCOPE_DENIED = \<lparr>ec_status = 403, ec_action = ''request_access'', ec_retryable = False,
     ec_message = ''The credential is not authorized for this scope.'', ec_retryAfterSeconds = None\<rparr>"
| "errorByCode GATEWAY_GRANT_EXPIRED = \<lparr>ec_status = 403, ec_action = ''refresh_grant'', ec_retryable = False,
     ec_message = ''The payment grant has expired.'', ec_retryAfterSeconds = None\<rparr>"
| "errorByCode GATEWAY_CAP_EXCEEDED = \<lparr>ec_status = 403, ec_action = ''request_cap_increase'', ec_retryable = False,
     ec_message = ''The credential spending cap has been exceeded.'', ec_retryAfterSeconds = None\<rparr>"
| "errorByCode GATEWAY_CHANNEL_EXHAUSTED = \<lparr>ec_status = 402, ec_action = ''fund_channel'', ec_retryable = False,
     ec_message = ''Payment channel balance is exhausted.'', ec_retryAfterSeconds = None\<rparr>"
| "errorByCode GATEWAY_METER_INSUFFICIENT = \<lparr>ec_status = 402, ec_action = ''fund_meter'', ec_retryable = False,
     ec_message = ''Meter balance is insufficient for this request.'', ec_retryAfterSeconds = None\<rparr>"
| "errorByCode GATEWAY_RATE_LIMITED = \<lparr>ec_status = 429, ec_action = ''wait'', ec_retryable = True,
     ec_message = ''Gateway rate limit exceeded.'', ec_retryAfterSeconds = Some 1\<rparr>"
| "errorByCode GATEWAY_UPSTREAM_UNAVAILABLE = \<lparr>ec_status = 503, ec_action = ''retry'', ec_retryable = True,
     ec_message = ''Gateway upstream is unavailable.'', ec_retryAfterSeconds = Some 5\<rparr>"
| "errorByCode GATEWAY_METER_DEGRADED = \<lparr>ec_status = 503, ec_action = ''retry'', ec_retryable = True,
     ec_message = ''Gateway metering is temporarily degraded.'', ec_retryAfterSeconds = Some 10\<rparr>"
| "errorByCode GATEWAY_BAD_REQUEST = \<lparr>ec_status = 400, ec_action = ''fix_request'', ec_retryable = False,
     ec_message = ''Gateway request is invalid.'', ec_retryAfterSeconds = None\<rparr>"
| "errorByCode GATEWAY_UNAUTHORIZED = \<lparr>ec_status = 401, ec_action = ''provide_credentials'', ec_retryable = False,
     ec_message = ''Gateway credentials are invalid.'', ec_retryAfterSeconds = None\<rparr>"
| "errorByCode GATEWAY_INTERNAL = \<lparr>ec_status = 500, ec_action = ''retry'', ec_retryable = True,
     ec_message = ''Gateway internal error.'', ec_retryAfterSeconds = Some 5\<rparr>"

definition gateway_codes :: "(string \<times> gateway_error_code) list" where
  "gateway_codes =
     [(''GATEWAY_PAYMENT_REQUIRED'', GATEWAY_PAYMENT_REQUIRED), (''GATEWAY_KEY_MISSING'', GATEWAY_KEY_MISSING),
      (''GATEWAY_KEY_INVALID'', GATEWAY_KEY_INVALID), (''GATEWAY_KEY_REVOKED'', GATEWAY_KEY_REVOKED),
      (''GATEWAY_SCOPE_DENIED'', GATEWAY_SCOPE_DENIED), (''GATEWAY_GRANT_EXPIRED'', GATEWAY_GRANT_EXPIRED),
      (''GATEWAY_CAP_EXCEEDED'', GATEWAY_CAP_EXCEEDED), (''GATEWAY_CHANNEL_EXHAUSTED'', GATEWAY_CHANNEL_EXHAUSTED),
      (''GATEWAY_METER_INSUFFICIENT'', GATEWAY_METER_INSUFFICIENT), (''GATEWAY_RATE_LIMITED'', GATEWAY_RATE_LIMITED),
      (''GATEWAY_UPSTREAM_UNAVAILABLE'', GATEWAY_UPSTREAM_UNAVAILABLE), (''GATEWAY_METER_DEGRADED'', GATEWAY_METER_DEGRADED),
      (''GATEWAY_BAD_REQUEST'', GATEWAY_BAD_REQUEST), (''GATEWAY_UNAUTHORIZED'', GATEWAY_UNAUTHORIZED),
      (''GATEWAY_INTERNAL'', GATEWAY_INTERNAL)]"

definition isGatewayErrorCode :: "string \<Rightarrow> bool" where
  "isGatewayErrorCode c \<longleftrightarrow> map_of gateway_codes c \<noteq> None"

text \<open>The details the client passes: message, status, delay.\<close>

record error_details =
  ed_message :: "json option"
  ed_status :: "int option"
  ed_retryAfterMs :: "amount option"

definition createGatewayErrorFromCode :: "gateway_error_code \<Rightarrow> error_details \<Rightarrow> gateway_sdk_error" where
  "createGatewayErrorFromCode c det =
     (let cls = errorByCode c
      in \<lparr>ge_code = c, ge_message = nullish (ed_message det) (JStr (ec_message cls)), ge_status = nullish (ed_status det) (ec_status cls),
          ge_retryable = ec_retryable cls,
          ge_retryAfterMs = (case ed_retryAfterMs det of Some ms \<Rightarrow> Some ms | None \<Rightarrow> map_option (\<lambda>s. s * 1000) (ec_retryAfterSeconds cls)),
          ge_action = ec_action cls\<rparr>)"

definition code_by_http_status :: "int \<Rightarrow> gateway_error_code option" where
  "code_by_http_status s =
     map_of [(400, GATEWAY_BAD_REQUEST), (401, GATEWAY_UNAUTHORIZED), (402, GATEWAY_PAYMENT_REQUIRED), (403, GATEWAY_SCOPE_DENIED),
             (429, GATEWAY_RATE_LIMITED), (500, GATEWAY_INTERNAL), (503, GATEWAY_UPSTREAM_UNAVAILABLE)] s"

definition createGatewayErrorFromHttpStatus :: "int \<Rightarrow> error_details \<Rightarrow> gateway_sdk_error option" where
  "createGatewayErrorFromHttpStatus s det =
     map_option (\<lambda>c. createGatewayErrorFromCode c (det\<lparr>ed_status := Some s\<rparr>)) (code_by_http_status s)"

datatype sdk_error = Gateway_error gateway_sdk_error | Key_reuse ident | Other_error string

section \<open>Retries\<close>

record retry_policy =
  rp_maxAttempts :: int
  rp_baseDelayMs :: amount
  rp_maxDelayMs :: amount
  rp_jitterRatio :: amount
  rp_maxTotalDurationMs :: amount

definition default_policy :: retry_policy where
  "default_policy = \<lparr>rp_maxAttempts = 4, rp_baseDelayMs = 100, rp_maxDelayMs = 2000, rp_jitterRatio = 1 / 5, rp_maxTotalDurationMs = 10000\<rparr>"

definition computeJitteredDelay :: "nat \<Rightarrow> retry_policy \<Rightarrow> amount \<Rightarrow> int" where
  "computeJitteredDelay attempt pol randomValue =
     (let base = min (rp_baseDelayMs pol * 2 ^ attempt) (rp_maxDelayMs pol); jitter = base * rp_jitterRatio pol * randomValue
      in \<lfloor>base + jitter + 1 / 2\<rfloor>)"

fun resolveRetryDelay :: "sdk_error \<Rightarrow> amount option" where
  "resolveRetryDelay (Gateway_error e) = (if \<not> ge_retryable e then None else ge_retryAfterMs e)"
| "resolveRetryDelay _ = None"

record 'w runtime =
  rt_now :: "'w \<Rightarrow> millis"
  rt_sleep :: "amount \<Rightarrow> 'w \<Rightarrow> 'w"

datatype retry_event = Attempt nat | Slept amount

text \<open>
  The loop of \<open>executeWithRetry\<close>: the result or the error that is thrown (\<open>undefined\<close> when there
  was no attempt), the world, and what was done.
\<close>

function retry_loop :: "retry_policy \<Rightarrow> 'w runtime \<Rightarrow> (nat \<Rightarrow> ident \<Rightarrow> 'w \<Rightarrow> (sdk_error + 'a) \<times> 'w) \<Rightarrow> ident \<Rightarrow> millis \<Rightarrow> nat \<Rightarrow>
    sdk_error option \<Rightarrow> 'w \<Rightarrow> (sdk_error option + 'a) \<times> 'w \<times> retry_event list" where
  "retry_loop pol rt operation key started attempt lastError w =
     (if int attempt < rp_maxAttempts pol then
        (case operation attempt key w of
           (Inr x, w1) \<Rightarrow> (Inr x, w1, [Attempt attempt])
         | (Inl e, w1) \<Rightarrow>
             if rp_maxAttempts pol - 1 \<le> int attempt then (Inl (Some e), w1, [Attempt attempt])
             else (case resolveRetryDelay e of
                 None \<Rightarrow> (Inl (Some e), w1, [Attempt attempt])
               | Some delay \<Rightarrow>
                   if rp_maxTotalDurationMs pol < of_int (rt_now rt w1 - started) + delay then (Inl (Some e), w1, [Attempt attempt])
                   else (let (r, w2, tr) = retry_loop pol rt operation key started (attempt + 1) (Some e) (rt_sleep rt delay w1)
                         in (r, w2, Attempt attempt # Slept delay # tr))))
      else (Inl lastError, w, []))"
  by pat_completeness auto

termination by (relation "measure (\<lambda>(pol, rt, operation, key, started, attempt, lastError, w). nat (rp_maxAttempts pol - int attempt))") auto

declare retry_loop.simps [simp del]

text \<open>\<open>LogicalCallManager\<close>: the keys used so far.  The random key is an argument.\<close>

definition beginLogicalCall :: "ident option \<Rightarrow> ident \<Rightarrow> ident set \<Rightarrow> (sdk_error + ident) \<times> ident set" where
  "beginLogicalCall opt uuid used =
     (let key = nullish opt uuid in if key \<in> used then (Inl (Key_reuse key), used) else (Inr key, insert key used))"

definition executeWithRetry :: "retry_policy \<Rightarrow> 'w runtime \<Rightarrow> (nat \<Rightarrow> ident \<Rightarrow> 'w \<Rightarrow> (sdk_error + 'a) \<times> 'w) \<Rightarrow> ident option \<Rightarrow> ident \<Rightarrow>
    ident set \<times> 'w \<Rightarrow> (sdk_error option + 'a) \<times> (ident set \<times> 'w) \<times> retry_event list" where
  "executeWithRetry pol rt operation opt uuid s =
     (case beginLogicalCall opt uuid (fst s) of
        (Inl e, used) \<Rightarrow> (Inl (Some e), (used, snd s), [])
      | (Inr key, used) \<Rightarrow>
          (let (r, w, tr) = retry_loop pol rt operation key (rt_now rt (snd s)) 0 None (snd s) in (r, (used, w), tr)))"

section \<open>The gateway client\<close>

record header_env =
  he_number :: "string \<Rightarrow> amount option"
  he_date :: "string \<Rightarrow> millis option"

type_synonym headers = "(string, string) jsmap"

record http_response =
  hr_status :: int
  hr_headers :: headers
  hr_json :: "json option"

record http_request =
  rq_url :: string
  rq_method :: string
  rq_headers :: headers
  rq_body :: string

definition parseRetryAfterMs :: "header_env \<Rightarrow> millis \<Rightarrow> headers \<Rightarrow> amount option" where
  "parseRetryAfterMs env now hs =
     (case js_get hs ''retry-after'' of
        None \<Rightarrow> None
      | Some s \<Rightarrow>
          if s = [] then None
          else (case he_number env s of
              Some n \<Rightarrow> Some (n * 1000)
            | None \<Rightarrow> (case he_date env s of None \<Rightarrow> None | Some t \<Rightarrow> Some (max 0 (of_int (t - now))))))"

text \<open>Reading a member of the error body; \<open>null\<close> has no members and reading one throws.\<close>

definition member :: "string \<Rightarrow> json \<Rightarrow> json option" where
  "member k j = (case j of JObj kvs \<Rightarrow> map_of kvs k | _ \<Rightarrow> None)"

definition non_null :: "json option \<Rightarrow> json option" where
  "non_null j = (case j of Some JNull \<Rightarrow> None | _ \<Rightarrow> j)"

definition known_code :: "json \<Rightarrow> gateway_error_code option" where
  "known_code payload = (case member ''code'' payload of Some (JStr c) \<Rightarrow> if c = [] then None else map_of gateway_codes c | _ \<Rightarrow> None)"

definition responded_message :: "(amount \<Rightarrow> string) \<Rightarrow> int \<Rightarrow> json" where
  "responded_message num s = JStr (''Gateway responded with status '' @ num (of_int s) @ ''.'')"

definition toGatewayError :: "header_env \<Rightarrow> (amount \<Rightarrow> string) \<Rightarrow> millis \<Rightarrow> http_response \<Rightarrow> sdk_error" where
  "toGatewayError env num now rsp =
     (let payload = nullish (hr_json rsp) (JObj []);
          retryAfterMs = parseRetryAfterMs env now (hr_headers rsp);
          message = non_null (member ''message'' payload);
          byStatus = \<lparr>ed_message = Some (nullish message (responded_message num (hr_status rsp))), ed_status = Some (hr_status rsp),
                      ed_retryAfterMs = retryAfterMs\<rparr>
      in if payload = JNull then Other_error ''TypeError''
         else (case known_code payload of
             Some c \<Rightarrow> Gateway_error (createGatewayErrorFromCode c
                 \<lparr>ed_message = message, ed_status = Some (hr_status rsp), ed_retryAfterMs = retryAfterMs\<rparr>)
           | None \<Rightarrow> Gateway_error (case createGatewayErrorFromHttpStatus (hr_status rsp) byStatus of
                 Some e \<Rightarrow> e | None \<Rightarrow> createGatewayErrorFromCode GATEWAY_INTERNAL byStatus)))"

record 'w gateway_client =
  gc_fetch :: "http_request \<Rightarrow> 'w \<Rightarrow> (string + http_response) \<times> 'w"
  gc_policy :: retry_policy
  gc_runtime :: "'w runtime"
  gc_baseHeaders :: "(string \<times> string) list"
  gc_env :: header_env
  gc_number :: "amount \<Rightarrow> string"

definition call_headers :: "(string \<times> string) list \<Rightarrow> ident \<Rightarrow> headers \<Rightarrow> headers" where
  "call_headers base key hs =
     js_set ''idempotency-key'' key (fold (\<lambda>(name, v) h. js_set (toLowerCase name) v h) base hs)"

definition call_once :: "'w gateway_client \<Rightarrow> http_request \<Rightarrow> nat \<Rightarrow> ident \<Rightarrow> 'w \<Rightarrow> (sdk_error + json) \<times> 'w" where
  "call_once gc req attempt key w =
     (case gc_fetch gc (req\<lparr>rq_headers := call_headers (gc_baseHeaders gc) key (rq_headers req)\<rparr>) w of
        (Inl e, w1) \<Rightarrow> (Inl (Other_error e), w1)
      | (Inr rsp, w1) \<Rightarrow>
          if \<not> (200 \<le> hr_status rsp \<and> hr_status rsp \<le> 299)
          then (Inl (toGatewayError (gc_env gc) (gc_number gc) (rt_now (gc_runtime gc) w1) rsp), w1)
          else (case hr_json rsp of None \<Rightarrow> (Inl (Other_error ''SyntaxError''), w1) | Some j \<Rightarrow> (Inr j, w1)))"

definition logicalCallJson :: "'w gateway_client \<Rightarrow> http_request \<Rightarrow> ident option \<Rightarrow> ident \<Rightarrow> ident set \<times> 'w \<Rightarrow>
    (sdk_error option + json) \<times> (ident set \<times> 'w) \<times> retry_event list" where
  "logicalCallJson gc req opt uuid s = executeWithRetry (gc_policy gc) (gc_runtime gc) (call_once gc req) opt uuid s"

end
