(* ===== verification/SdkClientProps.thy ===== *)
theory SdkClientProps
  imports SdkClient
begin

text \<open>
  The retry loop: how often it tries, how long it sleeps, when it succeeds, and that the requests
  of one logical call are the same request under a key that no other call uses.
\<close>

section \<open>Bounds\<close>

definition attempts :: "retry_event list \<Rightarrow> nat list" where
  "attempts tr = List.map_filter (\<lambda>e. case e of Attempt n \<Rightarrow> Some n | Slept d \<Rightarrow> None) tr"

definition total_sleep :: "retry_event list \<Rightarrow> amount" where
  "total_sleep tr = sum_list (map (\<lambda>e. case e of Attempt n \<Rightarrow> 0 | Slept d \<Rightarrow> d) tr)"

lemma trace_simps [simp]:
  "attempts [] = []" "attempts (Attempt n # tr) = n # attempts tr" "attempts (Slept d # tr) = attempts tr"
  "total_sleep [] = 0" "total_sleep (Attempt n # tr) = total_sleep tr" "total_sleep (Slept d # tr) = d + total_sleep tr"
  by (simp_all add: attempts_def total_sleep_def List.map_filter_def)

text \<open>The clock does not run backwards and sleeping takes at least as long as asked.\<close>

definition clock_ok :: "'w runtime \<Rightarrow> (nat \<Rightarrow> ident \<Rightarrow> 'w \<Rightarrow> (sdk_error + 'a) \<times> 'w) \<Rightarrow> bool" where
  "clock_ok rt operation \<longleftrightarrow>
     (\<forall>d w. of_int (rt_now rt w) + d \<le> of_int (rt_now rt (rt_sleep rt d w))) \<and>
     (\<forall>n key w. rt_now rt w \<le> rt_now rt (snd (operation n key w)))"

lemma retry_step_cases:
  obtains (stopped) "int attempt \<ge> rp_maxAttempts pol" "retry_loop pol rt operation key started attempt err w = (Inl err, w, [])"
  | (finished) r w1 where "int attempt < rp_maxAttempts pol" "operation attempt key w = (r, w1)"
      "retry_loop pol rt operation key started attempt err w = ((case r of Inl e \<Rightarrow> Inl (Some e) | Inr x \<Rightarrow> Inr x), w1, [Attempt attempt])"
  | (again) e w1 delay r w2 tr where "int attempt < rp_maxAttempts pol - 1" "operation attempt key w = (Inl e, w1)"
      "resolveRetryDelay e = Some delay" "of_int (rt_now rt w1 - started) + delay \<le> rp_maxTotalDurationMs pol"
      "retry_loop pol rt operation key started (attempt + 1) (Some e) (rt_sleep rt delay w1) = (r, w2, tr)"
      "retry_loop pol rt operation key started attempt err w = (r, w2, Attempt attempt # Slept delay # tr)"
proof (cases "int attempt < rp_maxAttempts pol")
  case False
  then show thesis by (intro stopped) (simp_all add: retry_loop.simps [of pol rt operation key started attempt])
next
  case True
  obtain r w1 where o: "operation attempt key w = (r, w1)" by (cases "operation attempt key w")
  show thesis
  proof (cases r)
    case (Inr x)
    with True o show thesis by (intro finished [of r w1]) (simp_all add: retry_loop.simps [of pol rt operation key started attempt])
  next
    case (Inl e)
    show thesis
    proof (cases "rp_maxAttempts pol - 1 \<le> int attempt \<or> resolveRetryDelay e = None \<or>
        (\<exists>d. resolveRetryDelay e = Some d \<and> rp_maxTotalDurationMs pol < of_int (rt_now rt w1 - started) + d)")
      case stop: True
      with True o Inl show thesis
        by (intro finished [of r w1]) (auto simp: retry_loop.simps [of pol rt operation key started attempt])
    next
      case False
      then obtain d where d: "int attempt < rp_maxAttempts pol - 1" "resolveRetryDelay e = Some d"
          "of_int (rt_now rt w1 - started) + d \<le> rp_maxTotalDurationMs pol"
        by (auto simp: not_le not_less)
      obtain r2 w2 tr where l: "retry_loop pol rt operation key started (attempt + 1) (Some e) (rt_sleep rt d w1) = (r2, w2, tr)"
        by (cases "retry_loop pol rt operation key started (attempt + 1) (Some e) (rt_sleep rt d w1)") auto
      have "retry_loop pol rt operation key started attempt err w = (r2, w2, Attempt attempt # Slept d # tr)"
        using True o Inl d l by (simp add: retry_loop.simps [of pol rt operation key started attempt])
      with d o Inl l show thesis by (intro again [of e w1 d r2 w2 tr]) simp_all
    qed
  qed
qed

lemma retry_attempts:
  "retry_loop pol rt operation key started attempt err w = (r, w', tr) \<Longrightarrow>
     attempts tr = [attempt..<attempt + length (attempts tr)] \<and> length (attempts tr) \<le> nat (rp_maxAttempts pol - int attempt)"
proof (induction "nat (rp_maxAttempts pol - int attempt)" arbitrary: attempt err w r w' tr rule: less_induct)
  case less
  show ?case
  proof (rule retry_step_cases [of pol attempt rt operation key started err w])
    fix e w1 delay r2 w2 tr2
    assume a: "int attempt < rp_maxAttempts pol - 1"
      "retry_loop pol rt operation key started (attempt + 1) (Some e) (rt_sleep rt delay w1) = (r2, w2, tr2)"
      "retry_loop pol rt operation key started attempt err w = (r2, w2, Attempt attempt # Slept delay # tr2)"
    have "attempts tr2 = [attempt + 1..<attempt + 1 + length (attempts tr2)] \<and>
        length (attempts tr2) \<le> nat (rp_maxAttempts pol - int (attempt + 1))"
      using a(1) by (intro less.hyps [OF _ a(2)]) simp
    then have ih: "attempts tr2 = [attempt + 1..<attempt + 1 + length (attempts tr2)]"
        "length (attempts tr2) \<le> nat (rp_maxAttempts pol - int (attempt + 1))" by blast+
    have tr: "attempts tr = attempt # attempts tr2" using a(3) less.prems by simp
    also have "\<dots> = attempt # [attempt + 1..<attempt + 1 + length (attempts tr2)]" using ih(1) by simp
    also have "\<dots> = [attempt..<attempt + length (attempts tr)]" by (simp add: tr upt_conv_Cons del: upt_Suc)
    finally show ?thesis using ih(2) a(1) by (simp add: tr)
  qed (use less.prems in auto)
qed

lemma retry_sleeps:
  "clock_ok rt operation \<Longrightarrow> retry_loop pol rt operation key started attempt err w = (r, w', tr) \<Longrightarrow>
     total_sleep tr = 0 \<or> of_int (rt_now rt w - started) + total_sleep tr \<le> rp_maxTotalDurationMs pol"
proof (induction "nat (rp_maxAttempts pol - int attempt)" arbitrary: attempt err w r w' tr rule: less_induct)
  case less
  show ?case
  proof (rule retry_step_cases [of pol attempt rt operation key started err w])
    fix e w1 delay r2 w2 tr2
    assume a: "int attempt < rp_maxAttempts pol - 1" "operation attempt key w = (Inl e, w1)"
      "of_int (rt_now rt w1 - started) + delay \<le> rp_maxTotalDurationMs pol"
      "retry_loop pol rt operation key started (attempt + 1) (Some e) (rt_sleep rt delay w1) = (r2, w2, tr2)"
      "retry_loop pol rt operation key started attempt err w = (r2, w2, Attempt attempt # Slept delay # tr2)"
    let ?w = "rt_sleep rt delay w1"
    have ih: "total_sleep tr2 = 0 \<or> of_int (rt_now rt ?w - started) + total_sleep tr2 \<le> rp_maxTotalDurationMs pol"
      using a(1) by (intro less.hyps [OF _ less.prems(1) a(4)]) simp
    have "rt_now rt w \<le> rt_now rt w1" using less.prems(1) a(2) unfolding clock_ok_def by (metis snd_conv)
    then have "(of_int (rt_now rt w) :: amount) \<le> of_int (rt_now rt w1)" by simp
    moreover have "of_int (rt_now rt w1) + delay \<le> (of_int (rt_now rt ?w) :: amount)" using less.prems(1) by (simp add: clock_ok_def)
    moreover have "total_sleep tr = delay + total_sleep tr2" using a(5) less.prems(2) by simp
    ultimately show ?thesis using ih a(3) by auto
  qed (use less.prems in auto)
qed

section \<open>Properties\<close>

text \<open>
  C19: the retry loop is bounded.  A logical call, which always returns, makes its attempts in
  order from the first, at most \<open>maxAttempts\<close> of them, and sleeps between them for at most
  \<open>maxTotalDurationMs\<close> in total, whatever delays the server asks for.
\<close>

theorem retry_bounded:
  assumes "clock_ok rt operation" "executeWithRetry pol rt operation opt uuid s = (r, s', tr)" "0 \<le> rp_maxTotalDurationMs pol"
  shows "attempts tr = [0..<length (attempts tr)] \<and> length (attempts tr) \<le> nat (rp_maxAttempts pol) \<and>
    total_sleep tr \<le> rp_maxTotalDurationMs pol"
proof (cases "beginLogicalCall opt uuid (fst s)")
  case (Pair b used)
  show ?thesis
  proof (cases b)
    case (Inl e)
    then show ?thesis using assms(2,3) Pair by (auto simp: executeWithRetry_def)
  next
    case (Inr key)
    then obtain w where l: "retry_loop pol rt operation key (rt_now rt (snd s)) 0 None (snd s) = (r, w, tr)"
      using assms(2) Pair by (auto simp: executeWithRetry_def split: prod.splits)
    show ?thesis using retry_attempts [OF l] retry_sleeps [OF assms(1) l] assms(3) by auto
  qed
qed

definition demo_runtime :: "amount runtime" where
  "demo_runtime = \<lparr>rt_now = (\<lambda>w. \<lceil>w\<rceil>), rt_sleep = (\<lambda>d w. of_int \<lceil>w\<rceil> + d)\<rparr>"

definition limited :: "nat \<Rightarrow> nat \<Rightarrow> ident \<Rightarrow> amount \<Rightarrow> (sdk_error + nat) \<times> amount" where
  "limited n k key w = (if k < n then Inl (Gateway_error (createGatewayErrorFromCode GATEWAY_RATE_LIMITED
      \<lparr>ed_message = None, ed_status = None, ed_retryAfterMs = None\<rparr>)) else Inr k, w)"

lemma demo_clock_ok: "clock_ok demo_runtime (limited n)"
  by (auto simp: clock_ok_def demo_runtime_def limited_def)

theorem retry_bounded_witness:
  "length (attempts (snd (snd (executeWithRetry default_policy demo_runtime (limited 9) None ''u'' ({}, 0))))) \<le> 4"
proof -
  obtain r s' tr where e: "executeWithRetry default_policy demo_runtime (limited 9) None ''u'' ({}, 0) = (r, s', tr)"
    by (cases "executeWithRetry default_policy demo_runtime (limited 9) None ''u'' ({}, 0)") auto
  from retry_bounded [OF demo_clock_ok e] show ?thesis unfolding e by (simp add: default_policy_def)
qed

text \<open>
  a call survives transient failures.  Suppose every attempt takes at most \<open>c\<close> milliseconds,
  the first \<open>n\<close> fail with a retryable error that asks for a delay of \<open>d\<close>, the next succeeds, and sleeping
  takes as long as asked.  If \<open>n\<close> is less than the maximal number of attempts and \<open>n\<close> rounds of
  attempt and delay fit into the time budget, the logical call returns the result of that attempt.
\<close>

theorem transient_failures_survived:
  assumes "\<And>w. of_int (rt_now rt (rt_sleep rt d w)) = (of_int (rt_now rt w) :: amount) + d"
    and "\<And>k key w. k < n \<Longrightarrow> \<exists>e. fst (operation k key w) = Inl e \<and> resolveRetryDelay e = Some d"
    and "\<And>k key w. of_int (rt_now rt (snd (operation k key w))) \<le> (of_int (rt_now rt w) :: amount) + c"
    and "\<And>key w. fst (operation n key w) = Inr x"
    and "int n < rp_maxAttempts pol" "of_nat n * (c + d) \<le> rp_maxTotalDurationMs pol" "0 \<le> c + d"
    and "nullish opt uuid \<notin> fst s"
  shows "fst (executeWithRetry pol rt operation opt uuid s) = Inr x"
proof -
  have loop: "fst (retry_loop pol rt operation key started k err w) = Inr x"
    if "k \<le> n" "of_int (rt_now rt w - started) \<le> of_nat k * (c + d)" for key started k err w
    using that
  proof (induction "n - k" arbitrary: k err w)
    case 0
    obtain w1 where "operation n key w = (Inr x, w1)" using assms(4) [of key w] by (cases "operation n key w") auto
    then show ?case using 0 assms(5) by (simp add: retry_loop.simps [of pol rt operation key started k])
  next
    case (Suc m)
    then have k: "k < n" by simp
    obtain e w1 where o: "operation k key w = (Inl e, w1)" and d: "resolveRetryDelay e = Some d"
      using assms(2) [OF k, of key w] by (cases "operation k key w") auto
    have "of_int (rt_now rt w1) \<le> (of_int (rt_now rt w) :: amount) + c" using assms(3) [of k key w] o by simp
    then have el: "of_int (rt_now rt w1 - started) + d \<le> of_nat (k + 1) * (c + d)" using Suc.prems(2) by (simp add: ring_distribs)
    have "of_nat (k + 1) * (c + d) \<le> of_nat n * (c + d)" using k assms(7) by (intro mult_right_mono) simp_all
    then have budget: "\<not> rp_maxTotalDurationMs pol < of_int (rt_now rt w1 - started) + d" using el assms(6) by linarith
    have "fst (retry_loop pol rt operation key started (k + 1) (Some e) (rt_sleep rt d w1)) = Inr x"
      using Suc.hyps(2) k el assms(1) [of w1] by (intro Suc.hyps(1)) simp_all
    then obtain w2 tr where "retry_loop pol rt operation key started (k + 1) (Some e) (rt_sleep rt d w1) = (Inr x, w2, tr)"
      by (cases "retry_loop pol rt operation key started (k + 1) (Some e) (rt_sleep rt d w1)") auto
    moreover have "\<not> rp_maxAttempts pol - 1 \<le> int k" "int k < rp_maxAttempts pol" using k assms(5) by simp_all
    ultimately show ?case using o d budget
      by (simp add: retry_loop.simps [of pol rt operation key started k])
  qed
  have "fst (retry_loop pol rt operation (nullish opt uuid) (rt_now rt (snd s)) 0 None (snd s)) = Inr x"
    by (rule loop) simp_all
  then show ?thesis using assms(8) by (auto simp: executeWithRetry_def beginLogicalCall_def Let_def split: prod.split)
qed

theorem transient_failures_survived_witness:
  "fst (executeWithRetry default_policy demo_runtime (limited 2) None ''u'' ({}, 0)) = Inr 2"
proof (rule transient_failures_survived [where d = 1000 and c = 1 and n = 2])
  show "of_int (rt_now demo_runtime (rt_sleep demo_runtime 1000 w)) = (of_int (rt_now demo_runtime w) :: amount) + 1000" for w
    by (simp add: demo_runtime_def)
  show "\<exists>e. fst (limited 2 k key w) = Inl e \<and> resolveRetryDelay e = Some 1000" if "k < 2" for k key w
    using that by (simp add: limited_def createGatewayErrorFromCode_def Let_def)
  show "of_int (rt_now demo_runtime (snd (limited 2 k key w))) \<le> (of_int (rt_now demo_runtime w) :: amount) + 1" for k key w
    by (simp add: limited_def)
qed (simp_all add: limited_def default_policy_def)

section \<open>Keys\<close>

text \<open>A client that also records the requests it sends.\<close>

definition recording :: "'w gateway_client \<Rightarrow> ('w \<times> http_request list) gateway_client" where
  "recording gc = \<lparr>gc_fetch = (\<lambda>r (w, l). let (x, w') = gc_fetch gc r w in (x, (w', l @ [r]))), gc_policy = gc_policy gc,
     gc_runtime = \<lparr>rt_now = (\<lambda>(w, l). rt_now (gc_runtime gc) w), rt_sleep = (\<lambda>d (w, l). (rt_sleep (gc_runtime gc) d w, l))\<rparr>,
     gc_baseHeaders = gc_baseHeaders gc, gc_env = gc_env gc, gc_number = gc_number gc\<rparr>"

lemma recording_policy [simp]: "gc_policy (recording gc) = gc_policy gc"
  by (simp add: recording_def)

text \<open>The requests of each call of a sequence.\<close>

fun sent_requests :: "'w gateway_client \<Rightarrow> (http_request \<times> ident option \<times> ident) list \<Rightarrow> ident set \<times> 'w \<Rightarrow> http_request list list" where
  "sent_requests gc [] s = []"
| "sent_requests gc ((req, opt, uuid) # cs) s =
     (case logicalCallJson (recording gc) req opt uuid (fst s, (snd s, [])) of
        (r, (used, (w, l)), tr) \<Rightarrow> l # sent_requests gc cs (used, w))"

lemma recording_once:
  "snd (snd (call_once (recording gc) req n key (w, l))) = l @ [req\<lparr>rq_headers := call_headers (gc_baseHeaders gc) key (rq_headers req)\<rparr>]"
  by (simp add: call_once_def recording_def Let_def split: prod.splits sum.splits option.splits)

lemma recording_loop:
  "retry_loop pol (gc_runtime (recording gc)) (call_once (recording gc) req) key started attempt err (w, l) = (r, (w', l'), tr) \<Longrightarrow>
     \<exists>n. l' = l @ replicate n (req\<lparr>rq_headers := call_headers (gc_baseHeaders gc) key (rq_headers req)\<rparr>)"
proof (induction "nat (rp_maxAttempts pol - int attempt)" arbitrary: attempt err w l r w' l' tr rule: less_induct)
  case less
  let ?q = "req\<lparr>rq_headers := call_headers (gc_baseHeaders gc) key (rq_headers req)\<rparr>"
  have one: "snd w1 = l @ [?q]" if "call_once (recording gc) req attempt key (w, l) = (x, w1)" for x w1
    using recording_once [of gc req attempt key w l] that by simp
  show ?case
  proof (rule retry_step_cases [of pol attempt "gc_runtime (recording gc)" "call_once (recording gc) req" key started err "(w, l)"])
    fix e w1 delay r2 w2 tr2
    assume a: "int attempt < rp_maxAttempts pol - 1" "call_once (recording gc) req attempt key (w, l) = (Inl e, w1)"
      "retry_loop pol (gc_runtime (recording gc)) (call_once (recording gc) req) key started (attempt + 1) (Some e)
         (rt_sleep (gc_runtime (recording gc)) delay w1) = (r2, w2, tr2)"
      "retry_loop pol (gc_runtime (recording gc)) (call_once (recording gc) req) key started attempt err (w, l) =
         (r2, w2, Attempt attempt # Slept delay # tr2)"
    obtain v where w1: "w1 = (v, l @ [?q])" using one [OF a(2)] by (cases w1) simp
    have sl: "rt_sleep (gc_runtime (recording gc)) delay w1 = (rt_sleep (gc_runtime gc) delay v, l @ [?q])" by (simp add: w1 recording_def)
    have w2: "w2 = (w', l')" using a(4) less.prems by simp
    have "\<exists>n. l' = (l @ [?q]) @ replicate n ?q"
      using a(1) by (intro less.hyps [OF _ a(3) [unfolded sl w2]]) simp
    then show ?thesis by (metis append.assoc append_Cons append_Nil replicate_Suc)
  next
    fix x w1 assume "call_once (recording gc) req attempt key (w, l) = (x, w1)"
      "retry_loop pol (gc_runtime (recording gc)) (call_once (recording gc) req) key started attempt err (w, l) =
        ((case x of Inl e \<Rightarrow> Inl (Some e) | Inr y \<Rightarrow> Inr y), w1, [Attempt attempt])"
    then show ?thesis using one less.prems by (intro exI [of _ 1]) auto
  qed (use less.prems in \<open>auto intro: exI [of _ 0]\<close>)
qed

definition request_key :: "http_request \<Rightarrow> ident option" where
  "request_key r = js_get (rq_headers r) ''idempotency-key''"

lemma logical_call_requests:
  assumes "logicalCallJson (recording gc) req opt uuid (used, (w, [])) = (r, (used', (w', l)), tr)"
  shows "used \<subseteq> used' \<and> (\<exists>q. set l \<subseteq> {q} \<and> (l \<noteq> [] \<longrightarrow> (\<exists>k. request_key q = Some k \<and> k \<notin> used \<and> k \<in> used')))"
proof (cases "nullish opt uuid \<in> used")
  case True
  then show ?thesis using assms by (auto simp: logicalCallJson_def executeWithRetry_def beginLogicalCall_def)
next
  case False
  let ?k = "nullish opt uuid"
  let ?q = "req\<lparr>rq_headers := call_headers (gc_baseHeaders gc) ?k (rq_headers req)\<rparr>"
  let ?loop = "retry_loop (gc_policy gc) (gc_runtime (recording gc)) (call_once (recording gc) req) ?k (rt_now (gc_runtime (recording gc)) (w, [])) 0 None (w, [])"
  obtain r1 w1 l1 tr1 where loop: "?loop = (r1, (w1, l1), tr1)" by (metis prod.collapse)
  have l: "l = l1 \<and> used' = insert ?k used"
    using assms False unfolding logicalCallJson_def executeWithRetry_def beginLogicalCall_def Let_def by (simp add: loop)
  obtain n where "l1 = [] @ replicate n ?q" using recording_loop [OF loop] by blast
  then have "l = replicate n ?q" using l by simp
  moreover have "request_key ?q = Some ?k" by (simp add: request_key_def call_headers_def)
  ultimately show ?thesis using l False by (intro conjI exI [of _ ?q]) auto
qed

lemma sent_keys_fresh:
  "l \<in> set (sent_requests gc cs (used, w)) \<Longrightarrow> q \<in> set l \<Longrightarrow> \<exists>k. request_key q = Some k \<and> k \<notin> used"
proof (induction cs arbitrary: used w)
  case (Cons c cs)
  obtain req opt uuid where c: "c = (req, opt, uuid)" by (cases c)
  obtain r used' w' l' tr where call: "logicalCallJson (recording gc) req opt uuid (used, (w, [])) = (r, (used', (w', l')), tr)"
    by (metis prod.collapse)
  note q = logical_call_requests [OF call]
  from Cons.prems(1) have "l = l' \<or> l \<in> set (sent_requests gc cs (used', w'))" by (simp add: c call)
  then show ?case
  proof
    assume "l = l'"
    then show ?thesis using q Cons.prems(2) by fastforce
  next
    assume "l \<in> set (sent_requests gc cs (used', w'))"
    then show ?thesis using Cons.IH Cons.prems(2) q by blast
  qed
qed simp

text \<open>
  an idempotency key identifies one call.  Over any sequence of calls of one client, all
  requests that a call sends, retries included, are one and the same request with an idempotency
  key, and no two calls share a key: a call that would reuse one sends nothing.
\<close>

theorem idempotency_key_per_call:
  assumes "i < length cs" "q \<in> set (sent_requests gc cs s ! i)" "q' \<in> set (sent_requests gc cs s ! i)"
  shows "q' = q \<and> request_key q \<noteq> None \<and>
    (\<forall>j p. j < length cs \<and> j \<noteq> i \<and> p \<in> set (sent_requests gc cs s ! j) \<longrightarrow> request_key p \<noteq> request_key q)"
proof -
  have len: "length (sent_requests gc cs s) = length cs" for cs s
  proof (induction cs arbitrary: s)
    case (Cons c cs)
    then show ?case by (cases c) (simp add: split_def)
  qed simp
  show ?thesis
    using assms
  proof (induction cs arbitrary: s i)
    case (Cons c cs)
    obtain req opt uuid where c: "c = (req, opt, uuid)" by (cases c)
    obtain used w where s: "s = (used, w)" by (cases s)
    obtain r used' w' l tr where call: "logicalCallJson (recording gc) req opt uuid (used, (w, [])) = (r, (used', (w', l)), tr)"
      by (metis prod.collapse)
    have sr: "sent_requests gc (c # cs) s = l # sent_requests gc cs (used', w')" by (simp add: c s call)
    have first: "\<exists>k. request_key x = Some k \<and> k \<in> used'" if "x \<in> set l" for x
      using logical_call_requests [OF call] that by fastforce
    have later: "\<exists>k. request_key x = Some k \<and> k \<notin> used'" if "j < length cs" "x \<in> set (sent_requests gc cs (used', w') ! j)" for j x
      using sent_keys_fresh [OF nth_mem that(2)] that(1) len [of cs "(used', w')"] by simp
    show ?case
    proof (cases i)
      case 0
      have "q' = q" using logical_call_requests [OF call] Cons.prems(2,3) by (auto simp: sr 0)
      moreover have "request_key p \<noteq> request_key q"
        if "j < length (c # cs)" "j \<noteq> i" "p \<in> set (sent_requests gc (c # cs) s ! j)" for j p
        using that first [of q] later [of "j - 1" p] Cons.prems(2) by (cases j) (auto simp: sr 0)
      ultimately show ?thesis using first [of q] Cons.prems(2) by (auto simp: sr 0)
    next
      case (Suc i')
      have ih: "q' = q \<and> request_key q \<noteq> None \<and>
        (\<forall>j p. j < length cs \<and> j \<noteq> i' \<and> p \<in> set (sent_requests gc cs (used', w') ! j) \<longrightarrow> request_key p \<noteq> request_key q)"
        using Cons.prems by (intro Cons.IH) (simp_all add: sr Suc)
      have "request_key p \<noteq> request_key q"
        if "j < length (c # cs)" "j \<noteq> i" "p \<in> set (sent_requests gc (c # cs) s ! j)" for j p
        using that ih first [of p] later [of i' q] Cons.prems(1,2) by (cases j) (auto simp: sr Suc)
      with ih show ?thesis by blast
    qed
  qed simp
qed

definition demo_client :: "amount gateway_client" where
  "demo_client = \<lparr>gc_fetch = (\<lambda>r w. (Inr \<lparr>hr_status = (if w < 500 then 429 else 200), hr_headers = [], hr_json = Some JNull\<rparr>, w)),
     gc_policy = default_policy, gc_runtime = demo_runtime, gc_baseHeaders = [], gc_env = \<lparr>he_number = (\<lambda>s. None), he_date = (\<lambda>s. None)\<rparr>,
     gc_number = (\<lambda>n. ''0'')\<rparr>"

definition demo_request :: http_request where
  "demo_request = \<lparr>rq_url = ''/'', rq_method = ''GET'', rq_headers = [], rq_body = []\<rparr>"

definition demo_sent :: "http_request list list" where
  "demo_sent = sent_requests demo_client [(demo_request, Some ''a'', ''u''), (demo_request, None, ''v'')] ({}, 600)"

theorem idempotency_key_per_call_witness:
  "length (demo_sent ! 0) = 1 \<and> length (demo_sent ! 1) = 1 \<and> request_key (demo_sent ! 1 ! 0) \<noteq> request_key (demo_sent ! 0 ! 0)"
proof -
  have l: "length (demo_sent ! 0) = 1" "length (demo_sent ! 1) = 1" by code_simp+
  then have m: "demo_sent ! 0 ! 0 \<in> set (demo_sent ! 0)" "demo_sent ! 1 ! 0 \<in> set (demo_sent ! 1)" by simp_all
  let ?cs = "[(demo_request, Some ''a'', ''u''), (demo_request, None, ''v'')]"
  have "\<forall>j p. j < length ?cs \<and> j \<noteq> 0 \<and> p \<in> set (sent_requests demo_client ?cs ({}, 600) ! j) \<longrightarrow> request_key p \<noteq> request_key (demo_sent ! 0 ! 0)"
    using idempotency_key_per_call [of 0 ?cs "demo_sent ! 0 ! 0" demo_client "({}, 600)" "demo_sent ! 0 ! 0"] m(1)
    unfolding demo_sent_def by blast
  from this [rule_format, of 1 "demo_sent ! 1 ! 0"] l m(2) show ?thesis unfolding demo_sent_def by simp
qed

end
