(* ===== verification/JsonText.thy ===== *)
theory JsonText
  imports Json
begin

text \<open>
  The text of a JSON value determines it: two values that print alike, followed by anything that
  does not continue a number, are equal.  What is signed or hashed as text therefore binds every
  member of what was printed.  How a number prints is an argument; the law \<open>numbers_ok\<close> says that
  numbers print differently and in the characters of a number.
\<close>

definition number_char :: "char \<Rightarrow> bool" where
  "number_char c \<longleftrightarrow> (let n = code c in (48 \<le> n \<and> n \<le> 57) \<or> n \<in> {43, 45, 46, 101})"

definition numbers_ok :: "(amount \<Rightarrow> string) \<Rightarrow> bool" where
  "numbers_ok num \<longleftrightarrow> inj num \<and> (\<forall>n. num n \<noteq> [] \<and> list_all number_char (num n))"

definition ends :: "string \<Rightarrow> bool" where
  "ends r \<longleftrightarrow> (case r of [] \<Rightarrow> True | c # s \<Rightarrow> \<not> number_char c)"

lemma ends_simps [simp]: "ends []" "ends (c # s) \<longleftrightarrow> \<not> number_char c"
  by (simp_all add: ends_def)

lemma not_number_chars [simp]:
  "\<not> number_char (CHR '','')" "\<not> number_char (CHR '']'')" "\<not> number_char (CHR ''}'')" "\<not> number_char (CHR ''['')"
  "\<not> number_char (CHR ''{'')" "\<not> number_char (CHR '':'')" "\<not> number_char (CHR 0x22)" "\<not> number_char (CHR ''n'')"
  "\<not> number_char (CHR ''t'')" "\<not> number_char (CHR ''f'')"
  by (simp_all add: number_char_def code_def)

section \<open>Quoted strings\<close>

lemma hex_digit_code: "n < 16 \<Longrightarrow> code (hex_digit n) = (if n < 10 then 48 + n else 87 + n)"
  by (simp add: hex_digit_def)

lemma hex_digit_inj: "m < 16 \<Longrightarrow> n < 16 \<Longrightarrow> hex_digit m = hex_digit n \<Longrightarrow> m = n"
proof -
  assume a: "m < 16" "n < 16" "hex_digit m = hex_digit n"
  from a(3) have "code (hex_digit m) = code (hex_digit n)" by simp
  with a(1,2) show ?thesis by (simp add: hex_digit_code split: if_splits)
qed

definition short_escape :: "char \<Rightarrow> char option" where
  "short_escape c = (let n = code c in
     if n = 34 then Some (char_of (34::nat)) else if n = 92 then Some (char_of (92::nat)) else if n = 8 then Some (CHR ''b'')
     else if n = 9 then Some (CHR ''t'') else if n = 10 then Some (CHR ''n'') else if n = 12 then Some (CHR ''f'')
     else if n = 13 then Some (CHR ''r'') else None)"

lemma escape_chars [simp]: "char_of (34::nat) = CHR 0x22" "char_of (92::nat) = CHR 0x5C"
  by code_simp+

lemma short_escape_inj: "short_escape c = Some x \<Longrightarrow> short_escape d = Some x \<Longrightarrow> c = d"
proof -
  define u where "u = (\<lambda>x. if x = CHR 0x22 then 34 else if x = CHR 0x5C then 92 else if x = CHR ''b'' then 8
    else if x = CHR ''t'' then 9 else if x = CHR ''n'' then 10 else if x = CHR ''f'' then 12 else (13::nat))"
  have "code e = u x" if "short_escape e = Some x" for e
    using that by (simp add: short_escape_def Let_def split: if_splits) (auto simp: u_def)
  then show "short_escape c = Some x \<Longrightarrow> short_escape d = Some x \<Longrightarrow> c = d" by (metis code_eq_iff)
qed

lemma short_escape_not_u: "short_escape c \<noteq> Some (CHR ''u'')"
  by (auto simp: short_escape_def Let_def split: if_splits)

lemma quote_char_cases:
  obtains (short) x where "short_escape c = Some x" "quote_char c = [CHR 0x5C, x]"
  | (unicode) "short_escape c = None" "code c < 32"
      "quote_char c = [CHR 0x5C, CHR ''u'', CHR ''0'', CHR ''0'', hex_digit (code c div 16), hex_digit (code c mod 16)]"
  | (plain) "c \<noteq> CHR 0x5C" "c \<noteq> CHR 0x22" "quote_char c = [c]"
proof (cases "short_escape c")
  case None
  then have n: "code c \<noteq> 34" "code c \<noteq> 92" "code c \<noteq> 8" "code c \<noteq> 9" "code c \<noteq> 10" "code c \<noteq> 12" "code c \<noteq> 13"
    by (simp_all add: short_escape_def Let_def split: if_splits)
  have c: "c \<noteq> CHR 0x5C" "c \<noteq> CHR 0x22" using n(1,2) by (auto simp: code_def)
  show thesis
  proof (cases "code c < 32")
    case True
    then show thesis using n None unicode by (simp add: quote_char_def Let_def)
  next
    case False
    then show thesis using n c plain by (simp add: quote_char_def Let_def)
  qed
next
  case (Some x)
  have "quote_char c = [CHR 0x5C, x]" using Some by (simp add: short_escape_def quote_char_def Let_def split: if_splits)
  with Some show thesis by (rule short)
qed

lemma quote_char_prefix: "quote_char c @ r = quote_char d @ s \<Longrightarrow> c = d \<and> r = s"
proof -
  assume eq: "quote_char c @ r = quote_char d @ s"
  have hex: "code c div 16 < 16" for c using code_less [of c] by (simp add: less_mult_imp_div_less)
  show ?thesis
  proof (rule quote_char_cases [of c]; rule quote_char_cases [of d])
    fix x y assume "short_escape c = Some x" "quote_char c = [CHR 0x5C, x]" "short_escape d = Some y" "quote_char d = [CHR 0x5C, y]"
    then show ?thesis using eq short_escape_inj by auto
  next
    assume u: "quote_char c = [CHR 0x5C, CHR ''u'', CHR ''0'', CHR ''0'', hex_digit (code c div 16), hex_digit (code c mod 16)]"
      "quote_char d = [CHR 0x5C, CHR ''u'', CHR ''0'', CHR ''0'', hex_digit (code d div 16), hex_digit (code d mod 16)]"
    then have "code c div 16 = code d div 16" "code c mod 16 = code d mod 16" "r = s"
      using eq hex by (auto intro!: hex_digit_inj)
    then have "code c = code d" by (metis div_mult_mod_eq)
    then show ?thesis using \<open>r = s\<close> by simp
  qed (use eq short_escape_not_u in auto)
qed

lemma quote_char_head: "quote_char c \<noteq> []" "hd (quote_char c) \<noteq> CHR 0x22"
  by (rule quote_char_cases [of c]; simp)+

lemma quoted_prefix:
  "concat (map quote_char s) @ CHR 0x22 # r = concat (map quote_char t) @ CHR 0x22 # q \<Longrightarrow> s = t \<and> r = q"
proof (induction s arbitrary: t)
  case Nil
  show ?case
  proof (cases t)
    case (Cons d t')
    then have "hd (quote_char d) = CHR 0x22" using Nil quote_char_head(1) [of d] by (cases "quote_char d") auto
    then show ?thesis using quote_char_head(2) by simp
  qed (use Nil in simp)
next
  case (Cons c s)
  show ?case
  proof (cases t)
    case Nil
    then have "hd (quote_char c) = CHR 0x22" using Cons.prems quote_char_head(1) [of c] by (cases "quote_char c") auto
    then show ?thesis using quote_char_head(2) by simp
  next
    case t: (Cons d t')
    then have "quote_char c @ (concat (map quote_char s) @ CHR 0x22 # r) = quote_char d @ (concat (map quote_char t') @ CHR 0x22 # q)"
      using Cons.prems by simp
    from quote_char_prefix [OF this] have "c = d" "concat (map quote_char s) @ CHR 0x22 # r = concat (map quote_char t') @ CHR 0x22 # q"
      by simp_all
    then show ?thesis using Cons.IH t by simp
  qed
qed

lemma quote_prefix: "quote s @ r = quote t @ q \<Longrightarrow> s = t \<and> r = q"
  using quoted_prefix [of s r t q] by (simp add: quote_def)

section \<open>Values\<close>

text \<open>The first character of a text tells what kind of value it is.\<close>

fun kind :: "json \<Rightarrow> nat" where
  "kind JNull = 0"
| "kind (JBool b) = (if b then 1 else 2)"
| "kind (JNum n) = 3"
| "kind (JStr s) = 4"
| "kind (JArr xs) = 5"
| "kind (JObj kvs) = 6"

definition kind_of_char :: "char \<Rightarrow> nat" where
  "kind_of_char c = (if c = CHR ''n'' then 0 else if c = CHR ''t'' then 1 else if c = CHR ''f'' then 2
     else if c = CHR 0x22 then 4 else if c = CHR ''['' then 5 else if c = CHR ''{'' then 6 else 3)"

lemma kind_head:
  assumes "numbers_ok num"
  obtains c t where "json_stringify num v = c # t" "kind_of_char c = kind v" "c \<noteq> CHR '']''" "c \<noteq> CHR ''}''"
proof -
  have n: "num x \<noteq> [] \<and> kind_of_char (hd (num x)) = 3 \<and> hd (num x) \<noteq> CHR '']'' \<and> hd (num x) \<noteq> CHR ''}''" for x
  proof -
    have ne: "num x \<noteq> []" and "\<forall>c\<in>set (num x). number_char c" using assms by (simp_all add: numbers_ok_def list_all_iff)
    then have x: "num x \<noteq> []" "number_char (hd (num x))" using hd_in_set [OF ne] by blast+
    then have "hd (num x) \<notin> {CHR ''n'', CHR ''t'', CHR ''f'', CHR 0x22, CHR ''['', CHR ''{'', CHR '']'', CHR ''}''}"
      by (metis insert_iff empty_iff not_number_chars)
    then show ?thesis using x(1) by (simp add: kind_of_char_def)
  qed
  have "\<exists>c t. json_stringify num v = c # t \<and> kind_of_char c = kind v \<and> c \<noteq> CHR '']'' \<and> c \<noteq> CHR ''}''"
  proof (cases v)
    case (JNum x)
    then show ?thesis using n [of x] by (cases "num x") auto
  qed (simp_all add: kind_of_char_def quote_def)
  then show thesis using that by blast
qed

lemma join_Cons: "join sep (x # xs) = x @ (if xs = [] then [] else sep @ join sep xs)"
  by (cases xs) simp_all

lemma join_prefix:
  assumes "\<And>x y r s. x \<in> set xs \<Longrightarrow> ends r \<Longrightarrow> ends s \<Longrightarrow> f x @ r = f y @ s \<Longrightarrow> x = y \<and> r = s"
    and "\<And>y. f y \<noteq> [] \<and> hd (f y) \<noteq> c" and "\<not> number_char c" "c \<noteq> CHR '',''"
    and "join '','' (map f xs) @ c # r = join '','' (map f ys) @ c # s"
  shows "xs = ys \<and> r = s"
  using assms(1,5)
proof (induction xs arbitrary: ys)
  case Nil
  show ?case
  proof (cases ys)
    case (Cons y ys')
    then have "hd (f y) = c" using Nil(2) assms(2) [of y] by (cases "f y") (auto simp: join_Cons)
    then show ?thesis using assms(2) by blast
  qed (use Nil in simp)
next
  case (Cons x xs)
  let ?more = "\<lambda>zs r. if zs = [] then c # r else CHR '','' # join '','' (map f zs) @ c # r"
  have j: "join '','' (map f (z # zs)) @ c # q = f z @ ?more zs q" for z zs q by (simp add: join_Cons)
  have m: "ends (?more zs q)" for zs q using assms(3) by simp
  show ?case
  proof (cases ys)
    case Nil
    then have "hd (f x) = c" using Cons.prems(2) assms(2) [of x] by (cases "f x") (auto simp: join_Cons)
    then show ?thesis using assms(2) by blast
  next
    case ys: (Cons y ys')
    have "x = y \<and> ?more xs r = ?more ys' s"
      by (rule Cons.prems(1) [OF _ m m]) (use Cons.prems(2) in \<open>simp_all only: ys j list.set insert_iff\<close>, simp)
    then have "x = y" and e: "?more xs r = ?more ys' s" by blast+
    have "xs = ys' \<and> r = s"
    proof (cases "xs = []")
      case True
      then show ?thesis using e assms(4) by (auto split: if_splits)
    next
      case False
      then have "join '','' (map f xs) @ c # r = join '','' (map f ys') @ c # s" "ys' \<noteq> []"
        using e assms(4) by (auto split: if_splits)
      then show ?thesis using Cons.prems(1) by (intro Cons.IH) auto
    qed
    then show ?thesis using \<open>x = y\<close> ys by simp
  qed
qed

lemma same_kind:
  assumes "numbers_ok num" "json_stringify num v @ r = json_stringify num w @ s"
  shows "kind v = kind w"
proof -
  obtain c t where v: "json_stringify num v = c # t" "kind_of_char c = kind v" by (rule kind_head [OF assms(1)])
  obtain c' t' where w: "json_stringify num w = c' # t'" "kind_of_char c' = kind w" by (rule kind_head [OF assms(1)])
  from assms(2) v w show ?thesis by simp
qed

lemma number_prefix:
  assumes "numbers_ok num" "num x @ r = num y @ s" "ends r" "ends s"
  shows "x = y \<and> r = s"
proof -
  have n: "takeWhile number_char (num z @ q) = num z" if "ends q" for z q
  proof -
    have "\<forall>c\<in>set (num z). number_char c" using assms(1) by (simp add: numbers_ok_def list_all_iff)
    moreover have "takeWhile number_char q = []" using that by (cases q) simp_all
    ultimately show ?thesis by (simp add: takeWhile_append2)
  qed
  have "num x = num y" using n [OF assms(3), of x] n [OF assms(4), of y] assms(2) by simp
  then show ?thesis using assms(1,2) by (auto simp: numbers_ok_def dest: injD)
qed

lemma json_prefix:
  "numbers_ok num \<Longrightarrow> json_stringify num v @ r = json_stringify num w @ s \<Longrightarrow> ends r \<Longrightarrow> ends s \<Longrightarrow> v = w \<and> r = s"
proof (induction num v arbitrary: w r s rule: json_stringify.induct)
  case (1 num)
  then have "kind w = 0" using same_kind [OF 1(1,2)] by simp
  then show ?case using 1(2) by (cases w) (auto split: if_splits)
next
  case (2 num b)
  have "kind w = (if b then 1 else 2)" using same_kind [OF 2(1,2)] by simp
  then show ?case using 2(2) by (cases w) (auto split: if_splits)
next
  case (3 num n)
  have "kind w = 3" using same_kind [OF 3(1,2)] by simp
  then obtain m where w: "w = JNum m" by (cases w) (auto split: if_splits)
  show ?case using number_prefix [OF 3(1), of n r m s] 3 by (simp add: w)
next
  case (4 num x)
  have "kind w = 4" using same_kind [OF 4(1,2)] by simp
  then obtain y where w: "w = JStr y" by (cases w) (auto split: if_splits)
  show ?case using quote_prefix [of x r y s] 4 by (simp add: w)
next
  case (5 num xs)
  have "kind w = 5" using same_kind [OF 5(2,3)] by simp
  then obtain ys where w: "w = JArr ys" by (cases w) (auto split: if_splits)
  have "xs = ys \<and> r = s"
  proof (rule join_prefix [where f = "json_stringify num" and c = "CHR '']''"])
    show "x = y \<and> r = s" if "x \<in> set xs" "ends r" "ends s" "json_stringify num x @ r = json_stringify num y @ s" for x y r s
      using 5(1) [OF that(1) 5(2) that(4,2,3)] .
    show "json_stringify num y \<noteq> [] \<and> hd (json_stringify num y) \<noteq> CHR '']''" for y
      by (rule kind_head [OF 5(2), of y]) simp
    show "join '','' (map (json_stringify num) xs) @ CHR '']'' # r = join '','' (map (json_stringify num) ys) @ CHR '']'' # s"
      using 5(3) by (simp add: w)
  qed simp_all
  then show ?case by (simp add: w)
next
  case (6 num kvs)
  have "kind w = 6" using same_kind [OF 6(2,3)] by simp
  then obtain lvs where w: "w = JObj lvs" by (cases w) (auto split: if_splits)
  let ?f = "\<lambda>p. field_text (fst p, json_stringify num (snd p))"
  have m: "map field_text (map (\<lambda>(k, v). (k, json_stringify num v)) xs) = map ?f xs" for xs
    by (simp add: split_def)
  have "kvs = lvs \<and> r = s"
  proof (rule join_prefix [where f = ?f and c = "CHR ''}''"])
    fix p q r s assume p: "p \<in> set kvs" and e: "ends r" "ends s" "?f p @ r = ?f q @ s"
    have k: "fst p = fst q \<and> CHR '':'' # json_stringify num (snd p) @ r = CHR '':'' # json_stringify num (snd q) @ s"
      using e(3) by (intro quote_prefix) (simp add: field_text_def)
    then have "json_stringify num (snd p) @ r = json_stringify num (snd q) @ s" by simp
    then have "snd p = snd q \<and> r = s" using 6(1) [of p "fst p" "snd p"] p 6(2) e by simp
    with k show "p = q \<and> r = s" by (simp add: prod_eq_iff)
  next
    show "?f y \<noteq> [] \<and> hd (?f y) \<noteq> CHR ''}''" for y by (simp add: field_text_def quote_def)
    show "join '','' (map ?f kvs) @ CHR ''}'' # r = join '','' (map ?f lvs) @ CHR ''}'' # s"
      using 6(3) by (simp only: w json_stringify.simps m append_assoc) simp
  qed simp_all
  then show ?case by (simp add: w)
qed

lemma json_stringify_inj: "numbers_ok num \<Longrightarrow> json_stringify num v = json_stringify num w \<Longrightarrow> v = w"
  using json_prefix [of num v "[]" w "[]"] by simp

text \<open>A rendering that keeps the law: the numerator and the denominator, for the witnesses.\<close>

definition fraction_text :: "amount \<Rightarrow> string" where
  "fraction_text x = show_int (fst (quotient_of x)) @ ''e'' @ show_nat (nat (snd (quotient_of x)))"

lemma show_nat_Nil [simp]: "show_nat n \<noteq> []"
  by (simp add: show_nat.simps [of n])

lemma show_int_inj: "show_int i = show_int j \<Longrightarrow> i = j"
proof -
  have "hd (show_nat n) \<noteq> CHR ''-''" for n using show_nat_digits [of "hd (show_nat n)" n] by (auto simp: code_def)
  then have neg: "CHR ''-'' # t \<noteq> show_nat n" "show_nat n \<noteq> CHR ''-'' # t" for t n by (metis list.sel(1))+
  assume "show_int i = show_int j"
  then show ?thesis by (auto simp: show_int_def neg split: if_splits dest!: show_nat_inj)
qed

lemma show_int_chars: "c \<in> set (show_int i) \<Longrightarrow> number_char c \<and> c \<noteq> CHR ''e''"
  using show_nat_digits [of c] by (auto simp: show_int_def number_char_def Let_def code_def split: if_splits)

lemma fraction_text_ok: "numbers_ok fraction_text"
  unfolding numbers_ok_def
proof (intro conjI allI)
  show "inj fraction_text"
  proof (rule injI)
    fix x y assume e: "fraction_text x = fraction_text y"
    have t: "takeWhile (\<lambda>c. c \<noteq> CHR ''e'') (fraction_text z) = show_int (fst (quotient_of z))" for z
      using show_int_chars by (simp add: fraction_text_def takeWhile_append2)
    have "show_int (fst (quotient_of x)) = show_int (fst (quotient_of y))" using t [of x] t [of y] e by simp
    then have f: "fst (quotient_of x) = fst (quotient_of y)" by (rule show_int_inj)
    then have "show_nat (nat (snd (quotient_of x))) = show_nat (nat (snd (quotient_of y)))" using e by (simp add: fraction_text_def)
    then have "nat (snd (quotient_of x)) = nat (snd (quotient_of y))" by (rule show_nat_inj)
    then have "snd (quotient_of x) = snd (quotient_of y)"
      using quotient_of_denom_pos' [of x] quotient_of_denom_pos' [of y] by simp
    with f show "x = y" by (intro quotient_of_inject) (simp add: prod_eq_iff)
  qed
  show "fraction_text n \<noteq> []" for n by (simp add: fraction_text_def)
  show "list_all number_char (fraction_text n)" for n
    using show_int_chars show_nat_digits by (auto simp: fraction_text_def list_all_iff number_char_def Let_def code_def)
qed

end
