(* ===== verification/SdkPay.thy ===== *)
theory SdkPay
  imports SdkClient JsonText
begin

text \<open>
  Receipts and paid calls in the SDK: the independent check of a provider's receipt
  (\<open>sdk/src/v3/receipt.ts\<close>) and the \<open>fetch\<close> that answers a 402 challenge with a signed payment
  (\<open>sdk/src/v3/paid-fetch.ts\<close>).  Signing, verifying, base64 and the texts of numbers are fields
  of \<open>pay_env\<close>; a signer or a parser that throws gives \<open>None\<close>.
\<close>

record pay_env =
  py_verify :: "string \<Rightarrow> string \<Rightarrow> string \<Rightarrow> bool"
  py_sign :: "string \<Rightarrow> string option"
  py_number :: "amount \<Rightarrow> string"
  py_btoa :: "string \<Rightarrow> string"
  py_decode :: "string \<Rightarrow> json option"

section \<open>Receipts\<close>

datatype receipt_unit = Per_second | Per_minute | Per_hour | Per_request

fun unit_name :: "receipt_unit \<Rightarrow> string" where
  "unit_name Per_second = ''second''"
| "unit_name Per_minute = ''minute''"
| "unit_name Per_hour = ''hour''"
| "unit_name Per_request = ''request''"

record independent_receipt =
  ir_providerId :: string
  ir_channelId :: string
  ir_nonce :: string
  ir_unit :: receipt_unit
  ir_quantity :: amount
  ir_exchangeRate :: amount
  ir_amountMinor :: amount
  ir_currency :: string
  ir_rateCard :: "(string, amount) jsmap"
  ir_issuedAt :: string
  ir_signature :: string

datatype receipt_failure =
    INVALID_SIGNATURE
  | AMOUNT_MISMATCH amount amount
  | CHANNEL_MISMATCH string string
  | NONCE_MISMATCH string string
  | MALFORMED_RECEIPT

definition receipt_json :: "independent_receipt \<Rightarrow> json" where
  "receipt_json r = JObj
     [(''providerId'', JStr (ir_providerId r)), (''channelId'', JStr (ir_channelId r)), (''nonce'', JStr (ir_nonce r)),
      (''unit'', JStr (unit_name (ir_unit r))), (''quantity'', JNum (ir_quantity r)), (''exchangeRate'', JNum (ir_exchangeRate r)),
      (''amountMinor'', JNum (ir_amountMinor r)), (''currency'', JStr (ir_currency r)), (''issuedAt'', JStr (ir_issuedAt r)),
      (''rateCard'', JObj (map (\<lambda>(k, v). (k, JNum v)) (sort_by code_unit_le (ir_rateCard r))))]"

definition canonicalizeReceiptForSigning :: "pay_env \<Rightarrow> independent_receipt \<Rightarrow> string" where
  "canonicalizeReceiptForSigning env r = json_stringify (py_number env) (receipt_json r)"

definition signReceiptForTests :: "pay_env \<Rightarrow> independent_receipt \<Rightarrow> string option" where
  "signReceiptForTests env r = py_sign env (canonicalizeReceiptForSigning env r)"

definition verifyDetachedSignature :: "pay_env \<Rightarrow> string \<Rightarrow> string \<Rightarrow> string \<Rightarrow> bool" where
  "verifyDetachedSignature env payload signatureHex publicKey = py_verify env publicKey payload signatureHex"

definition deriveAmountMinor :: "independent_receipt \<Rightarrow> amount option" where
  "deriveAmountMinor r =
     (case js_get (ir_rateCard r) (unit_name (ir_unit r)) of
        None \<Rightarrow> None
      | Some rate \<Rightarrow> Some (of_int \<lfloor>rate * ir_quantity r * ir_exchangeRate r + 1 / 2\<rfloor>))"

definition verifyReceipt :: "pay_env \<Rightarrow> independent_receipt \<Rightarrow> string \<Rightarrow> string \<Rightarrow> string \<Rightarrow> bool \<times> amount option \<times> receipt_failure list" where
  "verifyReceipt env r publicKey expectedChannelId expectedNonce =
     (let derived = deriveAmountMinor r;
          failures =
            (if derived = None then [MALFORMED_RECEIPT] else []) @
            (if ir_channelId r \<noteq> expectedChannelId then [CHANNEL_MISMATCH expectedChannelId (ir_channelId r)] else []) @
            (if ir_nonce r \<noteq> expectedNonce then [NONCE_MISMATCH expectedNonce (ir_nonce r)] else []) @
            (case derived of None \<Rightarrow> [] | Some a \<Rightarrow> if a \<noteq> ir_amountMinor r then [AMOUNT_MISMATCH a (ir_amountMinor r)] else []) @
            (if \<not> verifyDetachedSignature env (canonicalizeReceiptForSigning env r) (ir_signature r) publicKey then [INVALID_SIGNATURE] else [])
      in (failures = [], derived, failures))"

section \<open>Paid calls\<close>

text \<open>\<open>accepts[0]\<close>: of \<open>undefined\<close> and \<open>null\<close> there is no element to read and the access throws.\<close>

definition first_element :: "json option \<Rightarrow> (string + json option)" where
  "first_element j =
     (case j of
        None \<Rightarrow> Inl ''TypeError''
      | Some JNull \<Rightarrow> Inl ''TypeError''
      | Some (JArr (x # xs)) \<Rightarrow> Inr (Some x)
      | Some (JStr (c # s)) \<Rightarrow> Inr (Some (JStr [c]))
      | Some (JObj kvs) \<Rightarrow> Inr (map_of kvs ''0'')
      | _ \<Rightarrow> Inr None)"

definition falsy :: "json option \<Rightarrow> bool" where
  "falsy j \<longleftrightarrow> j \<in> {None, Some JNull, Some (JBool False), Some (JNum 0), Some (JStr [])}"

definition payment_proof :: "json \<Rightarrow> json" where
  "payment_proof accepted = JObj [(''x402Version'', JNum 2), (''accepted'', accepted), (''payload'', JObj [])]"

definition canonicalizeJson :: "pay_env \<Rightarrow> json \<Rightarrow> string" where
  "canonicalizeJson env = stableStringify code_unit_le (py_number env)"

definition signed_payload :: "json \<Rightarrow> string \<Rightarrow> json" where
  "signed_payload accepted signature =
     JObj [(''x402Version'', JNum 2), (''accepted'', accepted), (''payload'', JObj [(''signature'', JStr signature)])]"

definition parsePaymentRequiredHeader :: "pay_env \<Rightarrow> http_response \<Rightarrow> json option" where
  "parsePaymentRequiredHeader env rsp =
     (case js_get (hr_headers rsp) ''payment-required'' of
        None \<Rightarrow> None | Some h \<Rightarrow> if h = [] then None else py_decode env h)"

record payment_receipt =
  pr_success :: "json option"
  pr_transaction :: "json option"
  pr_network :: "json option"

definition extractReceipt :: "pay_env \<Rightarrow> http_response \<Rightarrow> payment_receipt option" where
  "extractReceipt env rsp =
     (case js_get (hr_headers rsp) ''payment-response'' of
        None \<Rightarrow> None
      | Some h \<Rightarrow>
          if h = [] then None
          else (case py_decode env h of
              None \<Rightarrow> None
            | Some JNull \<Rightarrow> None
            | Some j \<Rightarrow> Some \<lparr>pr_success = member ''success'' j, pr_transaction = member ''transaction'' j, pr_network = member ''network'' j\<rparr>))"

type_synonym 'w fetch = "http_request \<Rightarrow> 'w \<Rightarrow> (string + http_response) \<times> 'w"

text \<open>
  What is paid with: the signer is called once a challenge has been accepted.  The result is the
  response, with a receipt after a retry, or the exception.
\<close>

definition answer_challenge :: "pay_env \<Rightarrow> http_response \<Rightarrow> (string + string option)" where
  "answer_challenge env rsp =
     (case parsePaymentRequiredHeader env rsp of
        None \<Rightarrow> Inr None
      | Some paymentRequired \<Rightarrow>
          if falsy (Some paymentRequired) then Inr None
          else (case first_element (member ''accepts'' paymentRequired) of
              Inl e \<Rightarrow> Inl e
            | Inr accepted \<Rightarrow>
                if falsy accepted then Inr None
                else (case py_sign env (canonicalizeJson env (payment_proof (the accepted))) of
                    None \<Rightarrow> Inl ''signing failed''
                  | Some signature \<Rightarrow>
                      Inr (Some (py_btoa env (json_stringify (py_number env) (signed_payload (the accepted) signature)))))))"

definition paidFetch :: "pay_env \<Rightarrow> 'w fetch \<Rightarrow> http_request \<Rightarrow> 'w \<Rightarrow> (string + http_response \<times> payment_receipt option) \<times> 'w" where
  "paidFetch env fetch req w =
     (case fetch req w of
        (Inl e, w1) \<Rightarrow> (Inl e, w1)
      | (Inr rsp, w1) \<Rightarrow>
          if hr_status rsp \<noteq> 402 then (Inr (rsp, None), w1)
          else (case answer_challenge env rsp of
              Inl e \<Rightarrow> (Inl e, w1)
            | Inr None \<Rightarrow> (Inr (rsp, None), w1)
            | Inr (Some payment) \<Rightarrow>
                (case fetch (req\<lparr>rq_headers := js_set ''payment-signature'' payment (rq_headers req)\<rparr>) w1 of
                   (Inl e, w2) \<Rightarrow> (Inl e, w2)
                 | (Inr rsp2, w2) \<Rightarrow>
                     if hr_status rsp2 = 402 then (Inr (rsp2, None), w2) else (Inr (rsp2, extractReceipt env rsp2), w2))))"

definition createPaidFetch_ok :: "bool \<Rightarrow> bool \<Rightarrow> bool \<Rightarrow> bool" where
  "createPaidFetch_ok has_sign has_key in_browser \<longleftrightarrow> (has_sign \<or> has_key) \<and> \<not> (in_browser \<and> has_key)"

section \<open>Properties\<close>

text \<open>
  a receipt is accepted exactly if it says what was agreed and is signed.  The check succeeds
  if and only if the rate card has a rate for the unit, the amount is that rate times quantity and
  exchange rate, rounded, channel and nonce are the expected ones, and the signature verifies for
  the canonical text.
\<close>

theorem receipt_accepted_iff:
  "fst (verifyReceipt env r pk ch nonce) \<longleftrightarrow>
     (\<exists>rate. js_get (ir_rateCard r) (unit_name (ir_unit r)) = Some rate \<and>
        ir_amountMinor r = of_int \<lfloor>rate * ir_quantity r * ir_exchangeRate r + 1 / 2\<rfloor>) \<and>
     ir_channelId r = ch \<and> ir_nonce r = nonce \<and> py_verify env pk (canonicalizeReceiptForSigning env r) (ir_signature r)"
  by (auto simp: verifyReceipt_def Let_def deriveAmountMinor_def verifyDetachedSignature_def split: option.splits)

lemma unit_name_inj [simp]: "unit_name a = unit_name b \<longleftrightarrow> a = b"
  by (cases a; cases b) simp_all

text \<open>
  the text that is signed binds the whole receipt.  If numbers print unambiguously, two
  receipts with the same canonical text agree in every member except the signature; their rate
  cards are the same map, whatever the order of the units.
\<close>

theorem receipt_text_binds:
  assumes "numbers_ok (py_number env)" "canonicalizeReceiptForSigning env r = canonicalizeReceiptForSigning env r'"
    and "js_wf (ir_rateCard r)" "js_wf (ir_rateCard r')"
  shows "r' = r\<lparr>ir_rateCard := ir_rateCard r', ir_signature := ir_signature r'\<rparr> \<and> js_get (ir_rateCard r') = js_get (ir_rateCard r)"
proof -
  let ?s = "\<lambda>r. sort_by code_unit_le (ir_rateCard r)"
  have j: "receipt_json r = receipt_json r'"
    using assms(1,2) unfolding canonicalizeReceiptForSigning_def by (rule json_stringify_inj)
  then have cards: "map (\<lambda>(k, v). (k, JNum v)) (?s r) = map (\<lambda>(k, v). (k, JNum v)) (?s r')" by (simp add: receipt_json_def)
  have "inj (\<lambda>(k :: string, v). (k, JNum v))" by (auto simp: inj_def)
  then have "?s r = ?s r'" using cards by (metis inj_map_eq_map)
  then have "mset (ir_rateCard r) = mset (ir_rateCard r')" by (metis mset_sort_by)
  then have "map_of (ir_rateCard r) = map_of (ir_rateCard r')"
    using assms(3,4) by (intro map_of_inject_set [THEN iffD2]) (auto simp: js_wf_def dest: mset_eq_setD)
  moreover have "r' = r\<lparr>ir_rateCard := ir_rateCard r', ir_signature := ir_signature r'\<rparr>"
    using j by (simp add: receipt_json_def)
  ultimately show ?thesis by (simp add: js_get_def fun_eq_iff)
qed

definition demo_receipt :: "(string, amount) jsmap \<Rightarrow> string \<Rightarrow> independent_receipt" where
  "demo_receipt rates sig = \<lparr>ir_providerId = ''p'', ir_channelId = ''c'', ir_nonce = ''n'', ir_unit = Per_request, ir_quantity = 2,
     ir_exchangeRate = 1, ir_amountMinor = 6, ir_currency = ''USD'', ir_rateCard = rates, ir_issuedAt = ''t'', ir_signature = sig\<rparr>"

definition demo_pay_env :: pay_env where
  "demo_pay_env = \<lparr>py_verify = (\<lambda>k m s. True), py_sign = (\<lambda>m. Some m), py_number = fraction_text, py_btoa = (\<lambda>s. s), py_decode = (\<lambda>s. None)\<rparr>"

theorem receipt_text_binds_witness:
  "js_get [(''request'', 3 :: amount), (''hour'', 5)] = js_get [(''hour'', 5), (''request'', 3)]"
proof -
  let ?r = "demo_receipt [(''hour'', 5), (''request'', 3)] ''x''" and ?r' = "demo_receipt [(''request'', 3), (''hour'', 5)] ''y''"
  have "sort_by code_unit_le [(''hour'', 5 :: amount), (''request'', 3)] = sort_by code_unit_le [(''request'', 3), (''hour'', 5)]"
    by code_simp
  then have "canonicalizeReceiptForSigning demo_pay_env ?r = canonicalizeReceiptForSigning demo_pay_env ?r'"
    by (simp add: canonicalizeReceiptForSigning_def receipt_json_def demo_receipt_def)
  moreover have "numbers_ok (py_number demo_pay_env)" by (simp add: demo_pay_env_def fraction_text_ok)
  ultimately show ?thesis
    using receipt_text_binds [of demo_pay_env ?r ?r'] by (simp add: demo_receipt_def js_wf_def)
qed

text \<open>A \<open>fetch\<close> that records what it sends.\<close>

definition logged :: "'w fetch \<Rightarrow> ('w \<times> http_request list) fetch" where
  "logged fetch req = (\<lambda>(w, l). let (r, w') = fetch req w in (r, (w', l @ [req])))"


text \<open>
  the payment does not depend on the request.  Two answers that carry the same challenge are
  paid with the same signed payment, whatever was requested: the signed text holds the
  requirement and the version, but no nonce, time or resource.
\<close>

theorem payment_is_replayable:
  assumes "js_get (hr_headers rsp) ''payment-required'' = js_get (hr_headers rsp') ''payment-required''"
  shows "answer_challenge env rsp = answer_challenge env rsp'"
  using assms by (simp add: answer_challenge_def parsePaymentRequiredHeader_def)

theorem payment_is_replayable_witness:
  "answer_challenge demo_pay_env \<lparr>hr_status = 402, hr_headers = [(''payment-required'', ''x'')], hr_json = None\<rparr> =
   answer_challenge demo_pay_env \<lparr>hr_status = 402, hr_headers = [(''date'', ''later''), (''payment-required'', ''x'')], hr_json = None\<rparr>"
  by (rule payment_is_replayable) (simp add: js_get_def)

end
