(* ===== verification/SdkProvider.thy ===== *)
theory SdkProvider
  imports SdkPay
begin

text \<open>
  The provider side of the SDK: declared prices (\<open>sdk/src/provider/pricing.ts\<close>) and the
  middleware that charges for a call (\<open>sdk/src/provider/middleware.ts\<close>).  A declaration is the
  value the provider wrote down, as JSON; \<open>Number\<close> of a value is an argument, with \<open>None\<close> for
  \<open>NaN\<close>.  Paths start with a slash.
\<close>

section \<open>Prices\<close>

record pricing_rule =
  rule_price :: "amount option"
  rule_currency :: "string option"
  rule_description :: "string option"

record route_pricing =
  rp_defaultPrice :: amount
  rp_currency :: string
  rp_routes :: "(string, pricing_rule) jsmap"

definition entries_of :: "json \<Rightarrow> (string \<times> json) list" where
  "entries_of j = (case j of JObj kvs \<Rightarrow> kvs | JArr xs \<Rightarrow> zip (map show_nat [0..<length xs]) xs | _ \<Rightarrow> [])"

definition is_object :: "json \<Rightarrow> bool" where
  "is_object j \<longleftrightarrow> (case j of JObj kvs \<Rightarrow> True | JArr xs \<Rightarrow> True | _ \<Rightarrow> False)"

definition as_string :: "json option \<Rightarrow> string option" where
  "as_string j = (case j of Some (JStr s) \<Rightarrow> Some s | _ \<Rightarrow> None)"

definition route_rule :: "(json \<Rightarrow> amount option) \<Rightarrow> string \<Rightarrow> json \<Rightarrow> pricing_rule option" where
  "route_rule number defaultCurrency val =
     (case val of
        JNum n \<Rightarrow> Some \<lparr>rule_price = Some n, rule_currency = Some defaultCurrency, rule_description = None\<rparr>
      | JObj kvs \<Rightarrow>
          (case map_of kvs ''price'' of
             None \<Rightarrow> None
           | Some p \<Rightarrow> Some \<lparr>rule_price = number p,
               rule_currency = Some (nullish (as_string (map_of kvs ''currency'')) defaultCurrency),
               rule_description = as_string (map_of kvs ''description'')\<rparr>)
      | _ \<Rightarrow> None)"

definition add_route :: "(json \<Rightarrow> amount option) \<Rightarrow> string \<Rightarrow> string \<times> json \<Rightarrow> (string, pricing_rule) jsmap \<Rightarrow> (string, pricing_rule) jsmap" where
  "add_route number defaultCurrency kv m =
     (if fst kv = ''defaultPrice'' \<or> fst kv = ''currency'' then m
      else (case route_rule number defaultCurrency (snd kv) of
          None \<Rightarrow> m | Some rule \<Rightarrow> js_set (toUpperCase (trim (fst kv))) rule m))"

definition pricing :: "(json \<Rightarrow> amount option) \<Rightarrow> json \<Rightarrow> route_pricing" where
  "pricing number input =
     (case input of
        JNum n \<Rightarrow> \<lparr>rp_defaultPrice = n, rp_currency = ''USDC'', rp_routes = []\<rparr>
      | _ \<Rightarrow>
         (let defaultPrice = (case member ''defaultPrice'' input of Some (JNum n) \<Rightarrow> n | _ \<Rightarrow> 1 / 100);
              defaultCurrency = nullish (as_string (member ''currency'' input)) ''USDC'';
              rawRoutes = (case member ''routes'' input of Some j \<Rightarrow> if is_object j then j else input | None \<Rightarrow> input)
          in \<lparr>rp_defaultPrice = defaultPrice, rp_currency = defaultCurrency,
              rp_routes = fold (add_route number defaultCurrency) (entries_of rawRoutes) []\<rparr>))"

definition endsWith_star :: "string \<Rightarrow> bool" where
  "endsWith_star s \<longleftrightarrow> s \<noteq> [] \<and> List.last s = CHR ''*''"

definition matchPath :: "string \<Rightarrow> string \<Rightarrow> bool" where
  "matchPath pattern path \<longleftrightarrow>
     pattern = ''*'' \<or> pattern = ''/*'' \<or> pattern = path \<or> (endsWith_star pattern \<and> startsWith path (butlast pattern))"

text \<open>\<open>pattern.split(' ')\<close>.\<close>

fun split_space :: "string \<Rightarrow> string list" where
  "split_space [] = [[]]"
| "split_space (c # s) =
     (if c = CHR '' '' then [] # split_space s
      else (case split_space s of [] \<Rightarrow> [[c]] | p # ps \<Rightarrow> (c # p) # ps))"

definition pattern_applies :: "string \<Rightarrow> string \<Rightarrow> string \<Rightarrow> bool" where
  "pattern_applies upperMethod path pattern \<longleftrightarrow>
     (if CHR '' '' \<in> set pattern
      then (let parts = split_space pattern; patMethod = parts ! 0; patPath = parts ! 1
            in \<not> (patMethod \<noteq> [] \<and> patMethod \<noteq> ''*'' \<and> patMethod \<noteq> upperMethod) \<and> patPath \<noteq> [] \<and> matchPath patPath path)
      else matchPath pattern path)"

definition match_route :: "route_pricing \<Rightarrow> string \<Rightarrow> string \<Rightarrow> pricing_rule" where
  "match_route rp m path =
     (let upperMethod = toUpperCase m
      in case js_get (rp_routes rp) (upperMethod @ '' '' @ path) of
           Some rule \<Rightarrow> rule
         | None \<Rightarrow>
             (case js_get (rp_routes rp) path of
                Some rule \<Rightarrow> rule
              | None \<Rightarrow>
                  (case js_get (rp_routes rp) (upperMethod @ '' *'') of
                     Some rule \<Rightarrow> rule
                   | None \<Rightarrow>
                       (case List.find (\<lambda>(pattern, rule). pattern_applies upperMethod path pattern) (rp_routes rp) of
                          Some (pattern, rule) \<Rightarrow> rule
                        | None \<Rightarrow> \<lparr>rule_price = Some (rp_defaultPrice rp), rule_currency = Some (rp_currency rp), rule_description = None\<rparr>))))"

section \<open>The middleware\<close>

datatype receipt_status = Settled_receipt | Metered_receipt | Free_receipt

record syncro_receipt =
  sr_id :: string
  sr_timestamp :: string
  sr_route :: string
  sr_method :: string
  sr_amount :: "amount option"
  sr_currency :: string
  sr_payer :: "string option"
  sr_status :: receipt_status

datatype failure_mode = Serve_free | Reject | Failure_handler

text \<open>
  The options: \<open>verifyProof\<close> and \<open>meterCall\<close>, when given, may throw; a report through the SDK
  cannot, its errors are caught where they arise.
\<close>

record metered_options =
  mo_onFailure :: failure_mode
  mo_headerName :: string
  mo_verifyProof :: "(string option \<Rightarrow> pricing_rule \<Rightarrow> string + bool) option"
  mo_meterCall :: "(syncro_receipt \<Rightarrow> string option) option"

record provider_request =
  pq_method :: string
  pq_path :: string
  pq_headers :: headers

datatype metered_outcome =
    Next_with syncro_receipt
  | Payment_required_402 pricing_rule
  | Unavailable_503 string
  | Handled string

definition or_else :: "string option \<Rightarrow> string option \<Rightarrow> string option" where
  "or_else a b = (if truthy a then a else b)"

text \<open>\<open>replace(/^Bearer\s+/i, '')\<close>.\<close>

definition strip_bearer :: "string \<Rightarrow> string" where
  "strip_bearer s =
     (if toLowerCase (take 6 s) = ''bearer'' \<and> 6 < length s \<and> is_space (s ! 6) then dropWhile is_space (drop 6 s) else s)"

definition payment_proof_of :: "metered_options \<Rightarrow> provider_request \<Rightarrow> string option" where
  "payment_proof_of opt req =
     (let h = pq_headers req
      in or_else (or_else (or_else (js_get h (toLowerCase (mo_headerName opt))) (js_get h (mo_headerName opt)))
           (map_option strip_bearer (js_get h ''authorization''))) (js_get h ''payment-signature''))"

definition call_receipt :: "string \<Rightarrow> string \<Rightarrow> route_pricing \<Rightarrow> pricing_rule \<Rightarrow> provider_request \<Rightarrow> amount option \<Rightarrow> string option \<Rightarrow>
    receipt_status \<Rightarrow> syncro_receipt" where
  "call_receipt rid ts rp rule req amt payer st =
     \<lparr>sr_id = rid, sr_timestamp = ts, sr_route = pq_path req, sr_method = pq_method req, sr_amount = amt,
      sr_currency = str_or (rule_currency rule) (rp_currency rp), sr_payer = payer, sr_status = st\<rparr>"

definition check_proof :: "metered_options \<Rightarrow> string option \<Rightarrow> pricing_rule \<Rightarrow> string + bool" where
  "check_proof opt prf rule = (case mo_verifyProof opt of Some v \<Rightarrow> v prf rule | None \<Rightarrow> Inr (truthy prf))"

definition on_failure :: "string \<Rightarrow> string \<Rightarrow> route_pricing \<Rightarrow> metered_options \<Rightarrow> pricing_rule \<Rightarrow> provider_request \<Rightarrow> string \<Rightarrow> metered_outcome" where
  "on_failure rid ts rp opt rule req e =
     (case mo_onFailure opt of
        Failure_handler \<Rightarrow> Handled e
      | Serve_free \<Rightarrow> Next_with (call_receipt rid ts rp rule req (Some 0) None Free_receipt)
      | Reject \<Rightarrow> Unavailable_503 e)"

definition metered :: "route_pricing \<Rightarrow> metered_options \<Rightarrow> string \<Rightarrow> string \<Rightarrow> provider_request \<Rightarrow> metered_outcome" where
  "metered rp opt rid ts req =
     (let rule = match_route rp (pq_method req) (pq_path req)
      in if (case rule_price rule of None \<Rightarrow> False | Some p \<Rightarrow> p \<le> 0)
         then Next_with (call_receipt rid ts rp rule req (Some 0) None Free_receipt)
         else (let prf = payment_proof_of opt req
               in case check_proof opt prf rule of
                    Inl e \<Rightarrow> on_failure rid ts rp opt rule req e
                  | Inr False \<Rightarrow> Payment_required_402 rule
                  | Inr True \<Rightarrow>
                      (let receipt = call_receipt rid ts rp rule req (rule_price rule) prf Settled_receipt
                       in case mo_meterCall opt of
                            None \<Rightarrow> Next_with receipt
                          | Some mc \<Rightarrow> (case mc receipt of None \<Rightarrow> Next_with receipt | Some e \<Rightarrow> on_failure rid ts rp opt rule req e))))"

section \<open>Properties\<close>

text \<open>
  a priced call is served only for a verified payment, or free by choice.  If the middleware
  lets a call through, either its route costs nothing; or the proof was verified, the receipt
  names the declared price and the proof, and the metering call, if there is one, took it; or
  verification or metering threw and the provider chose to serve such calls free.
\<close>

theorem metered_call_paid_or_free:
  assumes "metered rp opt rid ts req = Next_with receipt"
  defines "rule \<equiv> match_route rp (pq_method req) (pq_path req)" and "prf \<equiv> payment_proof_of opt req"
  shows "sr_status receipt = Free_receipt \<and> sr_amount receipt = Some 0 \<and>
        ((\<exists>p. rule_price rule = Some p \<and> p \<le> 0) \<or>
         mo_onFailure opt = Serve_free \<and>
           ((\<exists>e. check_proof opt prf rule = Inl e) \<or>
            check_proof opt prf rule = Inr True \<and> (\<exists>mc r e. mo_meterCall opt = Some mc \<and> mc r = Some e))) \<or>
      sr_status receipt = Settled_receipt \<and> sr_amount receipt = rule_price rule \<and> sr_payer receipt = prf \<and>
        check_proof opt prf rule = Inr True \<and> (\<forall>mc. mo_meterCall opt = Some mc \<longrightarrow> mc receipt = None)"
proof -
  have free: "sr_status receipt = Free_receipt \<and> sr_amount receipt = Some 0 \<and> mo_onFailure opt = Serve_free"
    if "on_failure rid ts rp opt rule req e = Next_with receipt" for e
    using that by (auto simp: on_failure_def call_receipt_def split: failure_mode.splits)
  have m: "metered rp opt rid ts req = Next_with receipt" by (fact assms(1))
  show ?thesis
  proof (cases "case rule_price rule of None \<Rightarrow> False | Some p \<Rightarrow> p \<le> 0")
    case True
    then show ?thesis using m
      by (auto simp: metered_def rule_def [symmetric] call_receipt_def Let_def split: option.splits)
  next
    case False
    let ?paid = "call_receipt rid ts rp rule req (rule_price rule) prf Settled_receipt"
    have m': "(case check_proof opt prf rule of
                    Inl e \<Rightarrow> on_failure rid ts rp opt rule req e
                  | Inr False \<Rightarrow> Payment_required_402 rule
                  | Inr True \<Rightarrow> (case mo_meterCall opt of None \<Rightarrow> Next_with ?paid
                          | Some mc \<Rightarrow> (case mc ?paid of None \<Rightarrow> Next_with ?paid | Some e \<Rightarrow> on_failure rid ts rp opt rule req e))) = Next_with receipt"
      using m False unfolding metered_def rule_def [symmetric] prf_def [symmetric] Let_def by simp
    have paid: "sr_status ?paid = Settled_receipt \<and> sr_amount ?paid = rule_price rule \<and> sr_payer ?paid = prf"
      by (simp add: call_receipt_def)
    show ?thesis
    proof (cases "check_proof opt prf rule")
      case (Inl e)
      then show ?thesis using m' free [of e] by auto
    next
      case (Inr b)
      then have b: "b" using m' by (cases b) simp_all
      show ?thesis
      proof (cases "mo_meterCall opt")
        case None
        then show ?thesis using m' Inr b paid by auto
      next
        case (Some mc)
        then show ?thesis using m' Inr b paid free by (cases "mc ?paid") auto
      qed
    qed
  qed
qed

definition demo_options :: metered_options where
  "demo_options = \<lparr>mo_onFailure = Serve_free, mo_headerName = ''X-Syncro-Payment-Proof'', mo_verifyProof = None, mo_meterCall = None\<rparr>"

definition demo_call :: "headers \<Rightarrow> provider_request" where
  "demo_call hs = \<lparr>pq_method = ''get'', pq_path = ''/v1/data'', pq_headers = hs\<rparr>"

definition demo_pricing :: route_pricing where
  "demo_pricing = pricing (\<lambda>j. None) (JObj [(''defaultPrice'', JNum 2), (''GET /v1/data'', JNum 5)])"

theorem metered_call_paid_or_free_witness:
  "\<exists>r. metered demo_pricing demo_options ''i'' ''t'' (demo_call [(''payment-signature'', ''x'')]) = Next_with r \<and>
     sr_status r = Settled_receipt"
proof -
  let ?m = "metered demo_pricing demo_options ''i'' ''t'' (demo_call [(''payment-signature'', ''x'')])"
  have e: "case ?m of Next_with r \<Rightarrow> sr_amount r = Some 2 | _ \<Rightarrow> False" by code_simp
  then obtain r where r: "?m = Next_with r" by (cases ?m) auto
  from metered_call_paid_or_free [OF r] e show ?thesis by (auto simp: r)
qed

text \<open>
  without a verifier of its own a provider takes any text for a payment.  A request with any
  non-empty value in the proof header is served as settled at the full price.
\<close>

theorem any_text_pays:
  assumes "mo_verifyProof opt = None" "mo_meterCall opt = None" "truthy (payment_proof_of opt req)"
    and "\<And>p. rule_price (match_route rp (pq_method req) (pq_path req)) = Some p \<Longrightarrow> 0 < p"
  shows "\<exists>r. metered rp opt rid ts req = Next_with r \<and> sr_status r = Settled_receipt \<and>
    sr_amount r = rule_price (match_route rp (pq_method req) (pq_path req))"
proof -
  have "\<not> (case rule_price (match_route rp (pq_method req) (pq_path req)) of None \<Rightarrow> False | Some p \<Rightarrow> p \<le> 0)"
    using assms(4) by (auto split: option.splits simp: not_le)
  then show ?thesis using assms(1-3) by (simp add: metered_def check_proof_def Let_def) (simp add: call_receipt_def)
qed

theorem any_text_pays_witness:
  "\<exists>r. metered demo_pricing demo_options ''i'' ''t'' (demo_call [(''authorization'', ''Bearer hello'')]) = Next_with r \<and>
     sr_status r = Settled_receipt"
proof -
  have p: "rule_price (match_route demo_pricing ''get'' ''/v1/data'') = Some 2" by code_simp
  have t: "truthy (payment_proof_of demo_options (demo_call [(''authorization'', ''Bearer hello'')]))" by code_simp
  have "\<exists>r. metered demo_pricing demo_options ''i'' ''t'' (demo_call [(''authorization'', ''Bearer hello'')]) = Next_with r \<and>
     sr_status r = Settled_receipt \<and> sr_amount r = rule_price (match_route demo_pricing (pq_method (demo_call [(''authorization'', ''Bearer hello'')]))
       (pq_path (demo_call [(''authorization'', ''Bearer hello'')])))"
    using p t by (intro any_text_pays) (simp_all add: demo_options_def, simp add: demo_call_def)
  then show ?thesis by blast
qed

section \<open>Declared prices that never apply\<close>

lemma upper_list: "toUpperCase s = s \<longleftrightarrow> (\<forall>c\<in>set s. upper_char c = c)"
  by (induction s) (simp_all add: toUpperCase_def)

lemma js_set_in: "x \<in> set (js_set k v m) \<Longrightarrow> x = (k, v) \<or> x \<in> set m"
  by (induction m) (auto simp: js_set_def split: if_splits)

lemma routes_upper:
  "(\<And>k v. (k, v) \<in> set m \<Longrightarrow> toUpperCase k = k \<and> CHR ''*'' \<notin> set k) \<Longrightarrow>
   (\<And>k v. (k, v) \<in> set kvs \<Longrightarrow> CHR ''*'' \<notin> set k) \<Longrightarrow>
   (k, v) \<in> set (fold (add_route number cur) kvs m) \<Longrightarrow> toUpperCase k = k \<and> CHR ''*'' \<notin> set k"
proof (induction kvs arbitrary: m)
  case (Cons kv kvs)
  have star: "CHR ''*'' \<notin> set (toUpperCase (trim (fst kv)))"
  proof
    assume "CHR ''*'' \<in> set (toUpperCase (trim (fst kv)))"
    then obtain c where c: "c \<in> set (trim (fst kv))" "upper_char c = CHR ''*''" by (auto simp: toUpperCase_def)
    have "code (CHR ''*'') = 42" by (simp add: code_def)
    then have "c = CHR ''*''" using c(2) by (auto simp: upper_char_def split: if_splits dest: arg_cong [where f = code])
    moreover have "set (trim (fst kv)) \<subseteq> set (fst kv)" by (auto simp: trim_def dest!: set_dropWhileD)
    ultimately show False using Cons.prems(2) [of "fst kv" "snd kv"] c(1) by auto
  qed
  have "toUpperCase k = k \<and> CHR ''*'' \<notin> set k" if "(k, v) \<in> set (add_route number cur kv m)" for k v
    using that Cons.prems(1) star
    by (auto simp: add_route_def split: if_splits option.splits dest!: js_set_in)
  then show ?case using Cons.prems(2,3) by (intro Cons.IH) auto
qed simp

lemma split_space_parts: "p \<in> set (split_space s) \<Longrightarrow> set p \<subseteq> set s"
proof (induction s arbitrary: p)
  case (Cons c s)
  show ?case
  proof (cases "split_space s")
    case Nil
    then show ?thesis using Cons.prems by (auto split: if_splits)
  next
    case (Cons q qs)
    have "set q \<subseteq> set s" "\<forall>x\<in>set qs. set x \<subseteq> set s" using Cons.IH Cons by auto
    then show ?thesis using Cons.prems Cons by (auto split: if_splits)
  qed
qed simp

lemma split_space_two: "CHR '' '' \<in> set s \<Longrightarrow> 2 \<le> length (split_space s)"
proof (induction s)
  case (Cons c s)
  have "split_space s \<noteq> []" by (cases s) (auto split: list.splits)
  then have one: "1 \<le> length (split_space s)" by (cases "split_space s") auto
  show ?case
  proof (cases "c = CHR '' ''")
    case False
    then have "2 \<le> length (split_space s)" using Cons by simp
    then show ?thesis using False by (auto split: list.splits)
  qed (use one in simp)
qed simp

lemma matchPath_plain: "CHR ''*'' \<notin> set pattern \<Longrightarrow> matchPath pattern path \<longleftrightarrow> pattern = path"
proof -
  assume s: "CHR ''*'' \<notin> set pattern"
  then have "pattern \<noteq> ''*''" "pattern \<noteq> ''/*''" by auto
  moreover have "\<not> endsWith_star pattern" using s last_in_set unfolding endsWith_star_def by metis
  ultimately show ?thesis by (simp add: matchPath_def)
qed

lemma upper_pattern_applies:
  assumes "toUpperCase pattern = pattern" "CHR ''*'' \<notin> set pattern" "toUpperCase path \<noteq> path"
  shows "\<not> pattern_applies m path pattern"
proof (cases "CHR '' '' \<in> set pattern")
  case True
  have part: "set (split_space pattern ! 1) \<subseteq> set pattern"
    using split_space_two [OF True] by (intro split_space_parts nth_mem) simp
  then have "toUpperCase (split_space pattern ! 1) = split_space pattern ! 1" "CHR ''*'' \<notin> set (split_space pattern ! 1)"
    using assms(1,2) unfolding upper_list by blast+
  then show ?thesis using True assms(3) matchPath_plain [of "split_space pattern ! 1" path]
    by (auto simp: pattern_applies_def Let_def)
next
  case False
  then show ?thesis using assms matchPath_plain [of pattern path] by (auto simp: pattern_applies_def)
qed

text \<open>
  a price declared for a path with a small letter is ignored.  The declaration is stored in
  capital letters, path included, and looked up as the request spells it: unless some declared
  route contains a star, every request whose path has a small letter costs the default price.
\<close>

theorem declared_price_ignored:
  assumes "toUpperCase path \<noteq> path" "\<And>k v. (k, v) \<in> set kvs \<Longrightarrow> CHR ''*'' \<notin> set k" "member ''routes'' (JObj kvs) = None"
  shows "match_route (pricing number (JObj kvs)) m path =
    \<lparr>rule_price = Some (rp_defaultPrice (pricing number (JObj kvs))), rule_currency = Some (rp_currency (pricing number (JObj kvs))),
     rule_description = None\<rparr>"
proof -
  let ?rp = "pricing number (JObj kvs)"
  obtain cur where "rp_routes ?rp = fold (add_route number cur) kvs []"
    using assms(3) by (simp add: pricing_def Let_def entries_of_def)
  then have up: "toUpperCase k = k \<and> CHR ''*'' \<notin> set k" if "(k, v) \<in> set (rp_routes ?rp)" for k v
    using routes_upper [of "[]" kvs k v number cur] that assms(2) by auto
  have none: "js_get (rp_routes ?rp) k = None" if "toUpperCase k \<noteq> k \<or> CHR ''*'' \<in> set k" for k
  proof (cases "js_get (rp_routes ?rp) k")
    case (Some v)
    then have "(k, v) \<in> set (rp_routes ?rp)" by (simp add: js_get_def map_of_SomeD)
    from up [OF this] that show ?thesis by blast
  qed simp
  have "toUpperCase (toUpperCase m @ '' '' @ path) \<noteq> toUpperCase m @ '' '' @ path"
    using assms(1) unfolding upper_list by auto
  then have gets: "js_get (rp_routes ?rp) (toUpperCase m @ '' '' @ path) = None" "js_get (rp_routes ?rp) path = None"
    "js_get (rp_routes ?rp) (toUpperCase m @ '' *'') = None"
    using assms(1) by (auto intro!: none simp del: append.simps)
  have "List.find (\<lambda>(pattern, rule). pattern_applies (toUpperCase m) path pattern) (rp_routes ?rp) = None"
    using up upper_pattern_applies [OF _ _ assms(1)] by (auto simp: find_None_iff)
  then show ?thesis using gets by (simp add: match_route_def Let_def)
qed

theorem declared_price_ignored_witness:
  "rule_price (match_route (pricing (\<lambda>j. None) (JObj [(''GET /v1/data'', JNum 5)])) ''GET'' ''/v1/data'') = Some (1 / 100)"
proof -
  have "toUpperCase ''/v1/data'' \<noteq> ''/v1/data''" by code_simp
  then have "match_route (pricing (\<lambda>j. None) (JObj [(''GET /v1/data'', JNum 5)])) ''GET'' ''/v1/data'' =
    \<lparr>rule_price = Some (rp_defaultPrice (pricing (\<lambda>j. None) (JObj [(''GET /v1/data'', JNum 5)]))),
     rule_currency = Some (rp_currency (pricing (\<lambda>j. None) (JObj [(''GET /v1/data'', JNum 5)]))), rule_description = None\<rparr>"
    by (rule declared_price_ignored) (auto simp: member_def)
  then show ?thesis by (simp add: pricing_def member_def Let_def)
qed

end
