(* ===== verification/Leases.thy ===== *)
theory Leases
  imports Prelude
begin

text \<open>
  Exclusive leases.  The signer lease of a channel
  (\<open>backend/src/services/channel-signer-lease-service.ts\<close> over the database functions of
  \<open>supabase/migrations/20260902000000_create_channel_signer_lease.sql\<close>) lets one engine instance
  sign the states of a channel and hands out the numbers of the states; the renewal lock
  (\<open>backend/src/services/renewal-lock-service.ts\<close>) lets one worker renew a subscription.  Both keep
  the contract \<open>exclusive_lease\<close>: while a lease runs, nobody else gets it.
\<close>

section \<open>The contract\<close>

locale exclusive_lease =
  fixes acquire :: "'k \<Rightarrow> 'h \<Rightarrow> millis \<Rightarrow> millis \<Rightarrow> 's \<Rightarrow> bool \<times> 's"
    and held :: "'k \<Rightarrow> 'h \<Rightarrow> millis \<Rightarrow> 's \<Rightarrow> bool"
    and ok :: "'s \<Rightarrow> bool"
  assumes held_unique: "ok s \<Longrightarrow> held k h t s \<Longrightarrow> held k h' t s \<Longrightarrow> h' = h"
    and held_earlier: "held k h t s \<Longrightarrow> t' \<le> t \<Longrightarrow> held k h t' s"
    and acquire_holds: "ok s \<Longrightarrow> fst (acquire k h now dur s) \<Longrightarrow> 0 < dur \<Longrightarrow> held k h now (snd (acquire k h now dur s))"
    and acquire_refused: "ok s \<Longrightarrow> held k h t s \<Longrightarrow> now \<le> t \<Longrightarrow> h' \<noteq> h \<Longrightarrow> \<not> fst (acquire k h' now dur s)"
    and acquire_keeps: "ok s \<Longrightarrow> held k h t s \<Longrightarrow> now \<le> t \<Longrightarrow> k' \<noteq> k \<or> h' \<noteq> h \<Longrightarrow> held k h t (snd (acquire k' h' now dur s))"
    and acquire_ok: "ok s \<Longrightarrow> ok (snd (acquire k h now dur s))"
begin

fun attempts :: "('k \<times> 'h \<times> millis \<times> millis) list \<Rightarrow> 's \<Rightarrow> bool list \<times> 's" where
  "attempts [] s = ([], s)"
| "attempts ((k, h, now, dur) # as) s =
     (let (b, s1) = acquire k h now dur s; (bs, s2) = attempts as s1 in (b # bs, s2))"

text \<open>While a lease runs, all attempts of others on it fail and it goes on running.\<close>

lemma held_through:
  "ok s \<Longrightarrow> held k h t s \<Longrightarrow> \<forall>(k', h', now, dur)\<in>set as. now \<le> t \<and> (k' \<noteq> k \<or> h' \<noteq> h) \<Longrightarrow>
     held k h t (snd (attempts as s)) \<and>
     (\<forall>i<length as. fst (as ! i) = k \<longrightarrow> \<not> fst (attempts as s) ! i)"
proof (induction as arbitrary: s)
  case (Cons a as)
  obtain k' h' now dur where a: "a = (k', h', now, dur)" by (cases a)
  obtain b s1 where s1: "acquire k' h' now dur s = (b, s1)" by (cases "acquire k' h' now dur s")
  obtain bs s2 where s2: "attempts as s1 = (bs, s2)" by (cases "attempts as s1")
  have p: "now \<le> t" "k' \<noteq> k \<or> h' \<noteq> h" using Cons.prems(3) by (auto simp: a)
  have keep: "held k h t s1" using acquire_keeps [OF Cons.prems(1,2) p] s1 by (metis snd_conv)
  have "ok s1" using acquire_ok [OF Cons.prems(1), of k' h' now dur] s1 by simp
  then have ih: "held k h t (snd (attempts as s1)) \<and> (\<forall>i<length as. fst (as ! i) = k \<longrightarrow> \<not> fst (attempts as s1) ! i)"
    using keep Cons.prems(3) by (intro Cons.IH) (auto simp: a)
  have "\<not> b" if "k' = k"
    using acquire_refused [OF Cons.prems(1,2) p(1), of h' dur] p(2) that s1 by auto
  then show ?case using ih by (auto simp: a s1 s2 nth_Cons split: nat.split)
qed simp

end

section \<open>The signer lease: database functions\<close>

record signer_lease =
  sl_instance_id :: ident
  sl_lease_acquired_at :: millis
  sl_lease_expires_at :: millis
  sl_last_nonce_allocated :: int

type_synonym lease_table = "ident \<Rightarrow> signer_lease option"

definition acquire_channel_signer_lease ::
    "ident \<Rightarrow> ident \<Rightarrow> int \<Rightarrow> millis \<Rightarrow> lease_table \<Rightarrow> (bool \<times> int \<times> millis \<times> string) \<times> lease_table" where
  "acquire_channel_signer_lease ch inst seconds now t =
     (let expires = now + seconds * 1000
      in case t ch of
           Some l \<Rightarrow>
             if now < sl_lease_expires_at l
             then (if sl_instance_id l = inst
                   then ((True, sl_last_nonce_allocated l, expires, ''Lease renewed''), t(ch \<mapsto> l\<lparr>sl_lease_expires_at := expires\<rparr>))
                   else ((False, sl_last_nonce_allocated l, sl_lease_expires_at l, ''Lease held by another instance''), t))
             else ((True, sl_last_nonce_allocated l, expires, ''Expired lease acquired''),
                   t(ch \<mapsto> l\<lparr>sl_instance_id := inst, sl_lease_acquired_at := now, sl_lease_expires_at := expires\<rparr>))
         | None \<Rightarrow>
             ((True, 0, expires, ''New lease created''),
              t(ch \<mapsto> \<lparr>sl_instance_id = inst, sl_lease_acquired_at = now, sl_lease_expires_at = expires, sl_last_nonce_allocated = 0\<rparr>)))"

definition allocate_next_nonce :: "ident \<Rightarrow> ident \<Rightarrow> millis \<Rightarrow> lease_table \<Rightarrow> (bool \<times> int \<times> string) \<times> lease_table" where
  "allocate_next_nonce ch inst now t =
     (case t ch of
        None \<Rightarrow> ((False, 0, ''No lease exists for this channel''), t)
      | Some l \<Rightarrow>
          if sl_instance_id l \<noteq> inst then ((False, 0, ''Lease held by different instance''), t)
          else if sl_lease_expires_at l \<le> now then ((False, 0, ''Lease has expired''), t)
          else ((True, sl_last_nonce_allocated l + 1, ''Nonce allocated''),
                t(ch \<mapsto> l\<lparr>sl_last_nonce_allocated := sl_last_nonce_allocated l + 1\<rparr>)))"

definition release_channel_signer_lease :: "ident \<Rightarrow> ident \<Rightarrow> lease_table \<Rightarrow> bool \<times> lease_table" where
  "release_channel_signer_lease ch inst t =
     (case t ch of
        None \<Rightarrow> (False, t)
      | Some l \<Rightarrow> if sl_instance_id l \<noteq> inst then (False, t) else (True, t(ch := None)))"

section \<open>The signer lease: the service\<close>

text \<open>Each call may fail in the database or on the way; then it throws and nothing is changed.\<close>

definition acquireLease :: "string option \<Rightarrow> ident \<Rightarrow> ident \<Rightarrow> int \<Rightarrow> millis \<Rightarrow> lease_table \<Rightarrow> (string + bool \<times> int \<times> millis \<times> string) \<times> lease_table" where
  "acquireLease err inst ch seconds now t =
     (case err of Some e \<Rightarrow> (Inl e, t) | None \<Rightarrow> (let (r, t') = acquire_channel_signer_lease ch inst seconds now t in (Inr r, t')))"

definition allocateNonce :: "string option \<Rightarrow> ident \<Rightarrow> ident \<Rightarrow> millis \<Rightarrow> lease_table \<Rightarrow> (string + bool \<times> int \<times> string) \<times> lease_table" where
  "allocateNonce err inst ch now t =
     (case err of Some e \<Rightarrow> (Inl e, t) | None \<Rightarrow> (let (r, t') = allocate_next_nonce ch inst now t in (Inr r, t')))"

definition releaseLease :: "string option \<Rightarrow> ident \<Rightarrow> ident \<Rightarrow> lease_table \<Rightarrow> (string + bool) \<times> lease_table" where
  "releaseLease err inst ch t =
     (case err of Some e \<Rightarrow> (Inl e, t) | None \<Rightarrow> (let (r, t') = release_channel_signer_lease ch inst t in (Inr r, t')))"

definition defaultLeaseDurationSeconds :: int where
  "defaultLeaseDurationSeconds = 30"

text \<open>\<open>signWithLease\<close> up to the call of the signer; other instances may act between its two calls,
  so the table before the second is \<open>interfere\<close> of the table after the first.\<close>

definition signWithLease :: "string option \<Rightarrow> string option \<Rightarrow> ident \<Rightarrow> ident \<Rightarrow> millis \<Rightarrow> millis \<Rightarrow> (lease_table \<Rightarrow> lease_table) \<Rightarrow>
    (int \<Rightarrow> string + 'a) \<Rightarrow> lease_table \<Rightarrow> (string + 'a) \<times> lease_table" where
  "signWithLease err1 err2 inst ch now1 now2 interfere signFn t =
     (case acquireLease err1 inst ch defaultLeaseDurationSeconds now1 t of
        (Inl e, t1) \<Rightarrow> (Inl e, t1)
      | (Inr (success, _, _, message), t1) \<Rightarrow>
          if \<not> success then (Inl (''Cannot sign: '' @ message), t1)
          else (case allocateNonce err2 inst ch now2 (interfere t1) of
              (Inl e, t2) \<Rightarrow> (Inl e, t2)
            | (Inr (success2, nonce, message2), t2) \<Rightarrow>
                if \<not> success2 then (Inl (''Cannot allocate nonce: '' @ message2), t2) else (signFn nonce, t2)))"

definition holdsLease :: "bool \<Rightarrow> ident \<Rightarrow> ident \<Rightarrow> millis \<Rightarrow> lease_table \<Rightarrow> bool" where
  "holdsLease fails inst ch now t \<longleftrightarrow>
     \<not> fails \<and> (case t ch of None \<Rightarrow> False | Some l \<Rightarrow> sl_instance_id l = inst \<and> now < sl_lease_expires_at l)"

definition signer_acquire :: "ident \<Rightarrow> ident \<Rightarrow> millis \<Rightarrow> millis \<Rightarrow> lease_table \<Rightarrow> bool \<times> lease_table" where
  "signer_acquire ch inst now seconds t =
     (let (r, t') = acquire_channel_signer_lease ch inst seconds now t in (fst r, t'))"

definition signer_holds :: "ident \<Rightarrow> ident \<Rightarrow> millis \<Rightarrow> lease_table \<Rightarrow> bool" where
  "signer_holds ch inst now t \<longleftrightarrow> holdsLease False inst ch now t"

interpretation signer: exclusive_lease signer_acquire signer_holds "\<lambda>t. True"
  by unfold_locales
     (auto simp: signer_holds_def holdsLease_def signer_acquire_def acquire_channel_signer_lease_def Let_def
       split: option.splits if_splits)

section \<open>The renewal lock\<close>

datatype lock_status = Lock_active | Lock_released | Lock_expired

record renewal_lock =
  rl_subscription_id :: ident
  rl_cycle_id :: int
  rl_lock_holder :: ident
  rl_expires_at :: millis
  rl_status :: lock_status

definition is_active :: "ident \<times> int \<Rightarrow> renewal_lock \<Rightarrow> bool" where
  "is_active k l \<longleftrightarrow> rl_subscription_id l = fst k \<and> rl_cycle_id l = snd k \<and> rl_status l = Lock_active"

text \<open>The partial unique index: at most one active row for a subscription and cycle.\<close>

definition index_ok :: "renewal_lock list \<Rightarrow> bool" where
  "index_ok t \<longleftrightarrow> (\<forall>k. length (filter (is_active k) t) \<le> 1)"

definition releaseExpiredLocksForSubscription :: "ident \<times> int \<Rightarrow> millis \<Rightarrow> renewal_lock list \<Rightarrow> renewal_lock list" where
  "releaseExpiredLocksForSubscription k now t =
     map (\<lambda>l. if is_active k l \<and> rl_expires_at l < now then l\<lparr>rl_status := Lock_expired\<rparr> else l) t"

text \<open>The insert of an active row; \<open>None\<close> is the violation of the unique index.\<close>

definition insert_active :: "renewal_lock \<Rightarrow> renewal_lock list \<Rightarrow> renewal_lock list option" where
  "insert_active l t =
     (if list_ex (is_active (rl_subscription_id l, rl_cycle_id l)) t then None else Some (t @ [l]))"

text \<open>The result of the clean-up is not looked at, so it may fail silently (\<open>cleans\<close>); an insert that
  fails for a reason other than the index makes the call throw.\<close>

definition acquireLock :: "bool \<Rightarrow> string option \<Rightarrow> ident \<times> int \<Rightarrow> ident \<Rightarrow> millis \<Rightarrow> millis \<Rightarrow> renewal_lock list \<Rightarrow>
    (string + bool) \<times> renewal_lock list" where
  "acquireLock cleans err k holder now ttlMs t =
     (let t1 = (if cleans then releaseExpiredLocksForSubscription k now t else t)
      in case err of
           Some e \<Rightarrow> (Inl e, t1)
         | None \<Rightarrow>
             (case insert_active \<lparr>rl_subscription_id = fst k, rl_cycle_id = snd k, rl_lock_holder = holder,
                                   rl_expires_at = now + ttlMs, rl_status = Lock_active\<rparr> t1 of
                None \<Rightarrow> (Inr False, t1) | Some t2 \<Rightarrow> (Inr True, t2)))"

definition releaseLock :: "string option \<Rightarrow> ident \<times> int \<Rightarrow> renewal_lock list \<Rightarrow> (string + unit) \<times> renewal_lock list" where
  "releaseLock err k t =
     (case err of Some e \<Rightarrow> (Inl e, t)
      | None \<Rightarrow> (Inr (), map (\<lambda>l. if is_active k l then l\<lparr>rl_status := Lock_released\<rparr> else l) t))"

definition releaseExpiredLocks :: "string option \<Rightarrow> millis \<Rightarrow> renewal_lock list \<Rightarrow> (string + nat) \<times> renewal_lock list" where
  "releaseExpiredLocks err now t =
     (case err of Some e \<Rightarrow> (Inl e, t)
      | None \<Rightarrow>
          (Inr (length (filter (\<lambda>l. rl_status l = Lock_active \<and> rl_expires_at l < now) t)),
           map (\<lambda>l. if rl_status l = Lock_active \<and> rl_expires_at l < now then l\<lparr>rl_status := Lock_expired\<rparr> else l) t))"

definition isLocked :: "string option \<Rightarrow> ident \<Rightarrow> millis \<Rightarrow> renewal_lock list \<Rightarrow> string + bool" where
  "isLocked err sub now t =
     (case err of Some e \<Rightarrow> Inl e
      | None \<Rightarrow> Inr (list_ex (\<lambda>l. rl_subscription_id l = sub \<and> rl_status l = Lock_active \<and> now \<le> rl_expires_at l) t))"

definition lock_held :: "ident \<times> int \<Rightarrow> ident \<Rightarrow> millis \<Rightarrow> renewal_lock list \<Rightarrow> bool" where
  "lock_held k h now t \<longleftrightarrow> (\<exists>l\<in>set t. is_active k l \<and> rl_lock_holder l = h \<and> now \<le> rl_expires_at l)"

definition renewal_acquire :: "ident \<times> int \<Rightarrow> ident \<Rightarrow> millis \<Rightarrow> millis \<Rightarrow> renewal_lock list \<Rightarrow> bool \<times> renewal_lock list" where
  "renewal_acquire k h now ttlMs t = (let (r, t') = acquireLock True None k h now ttlMs t in (r = Inr True, t'))"

lemma active_after_cleaning:
  "is_active k' (if is_active k l \<and> rl_expires_at l < now then l\<lparr>rl_status := Lock_expired\<rparr> else l) \<longleftrightarrow>
     is_active k' l \<and> \<not> (is_active k l \<and> rl_expires_at l < now)"
  by (auto simp: is_active_def)

lemma active_cleaned_count:
  "length (filter (is_active k') (releaseExpiredLocksForSubscription k now t)) \<le> length (filter (is_active k') t)"
  unfolding releaseExpiredLocksForSubscription_def by (induction t) (auto simp: active_after_cleaning)

lemma index_ok_cleaned: "index_ok t \<Longrightarrow> index_ok (releaseExpiredLocksForSubscription k now t)"
  unfolding index_ok_def using active_cleaned_count order_trans by blast

lemma lock_held_cleaned: "lock_held k h u t \<Longrightarrow> now \<le> u \<Longrightarrow> lock_held k h u (releaseExpiredLocksForSubscription k' now t)"
  unfolding lock_held_def releaseExpiredLocksForSubscription_def by force

lemma lock_held_active: "lock_held k h u t \<Longrightarrow> list_ex (is_active k) t"
  unfolding lock_held_def list_ex_iff by blast

lemma single_active:
  assumes "length (filter P xs) \<le> 1" and "x \<in> set xs" and "y \<in> set xs" and "P x" and "P y"
  shows "x = y"
proof -
  have "x \<in> set (filter P xs)" "y \<in> set (filter P xs)" using assms by auto
  then show ?thesis using assms(1) by (cases "filter P xs") auto
qed

lemma index_ok_insert: "index_ok t \<Longrightarrow> insert_active l t = Some t' \<Longrightarrow> index_ok t'"
  unfolding index_ok_def insert_active_def is_active_def list_ex_iff
  by (auto split: if_splits simp: filter_empty_conv)

interpretation renewal: exclusive_lease renewal_acquire lock_held index_ok
proof unfold_locales
  fix s k h h' t
  assume "index_ok s" "lock_held k h t s" "lock_held k h' t s"
  then show "h' = h" unfolding index_ok_def lock_held_def by (metis single_active)
next
  fix k h t s t'
  assume "lock_held k h t s" "t' \<le> t"
  then show "lock_held k h t' s" unfolding lock_held_def by fastforce
next
  fix s k h now dur
  assume "index_ok s" "fst (renewal_acquire k h now dur s)" "0 < dur"
  then show "lock_held k h now (snd (renewal_acquire k h now dur s))"
    by (auto simp: renewal_acquire_def acquireLock_def Let_def insert_active_def lock_held_def is_active_def
        split: option.splits if_splits)
next
  fix s k h h' t now dur
  assume "lock_held k h t s" "now \<le> t"
  then have "list_ex (is_active k) (releaseExpiredLocksForSubscription k now s)"
    using lock_held_cleaned lock_held_active by blast
  then show "\<not> fst (renewal_acquire k h' now dur s)"
    by (simp add: renewal_acquire_def acquireLock_def Let_def insert_active_def)
next
  fix s k h k' h' t now dur
  assume "lock_held k h t s" "now \<le> t"
  then have "lock_held k h t (releaseExpiredLocksForSubscription k' now s)" by (rule lock_held_cleaned)
  then show "lock_held k h t (snd (renewal_acquire k' h' now dur s))"
    by (auto simp: renewal_acquire_def acquireLock_def Let_def insert_active_def lock_held_def split: option.splits)
next
  fix s k h now dur
  assume "index_ok s"
  then show "index_ok (snd (renewal_acquire k h now dur s))"
    by (auto simp: renewal_acquire_def acquireLock_def Let_def index_ok_cleaned
        split: option.splits intro: index_ok_insert [OF index_ok_cleaned])
qed

end
