(* ===== verification/LeaseProps.thy ===== *)
theory LeaseProps
  imports Leases
begin

text \<open>
  What the leases guarantee: histories of calls of the signer lease by several instances, the
  numbers they are given, and workers competing for the renewal lock.
\<close>

section \<open>Histories of the signer lease\<close>

datatype signer_call =
    Acquire_call ident ident int
  | Allocate_call ident ident
  | Release_call ident ident

fun call_channel :: "signer_call \<Rightarrow> ident" where
  "call_channel (Acquire_call ch _ _) = ch"
| "call_channel (Allocate_call ch _) = ch"
| "call_channel (Release_call ch _) = ch"

fun call_instance :: "signer_call \<Rightarrow> ident" where
  "call_instance (Acquire_call _ i _) = i"
| "call_instance (Allocate_call _ i) = i"
| "call_instance (Release_call _ i) = i"

definition is_release :: "signer_call \<Rightarrow> bool" where
  "is_release c \<longleftrightarrow> (case c of Release_call _ _ \<Rightarrow> True | _ \<Rightarrow> False)"

text \<open>One call at a time; the result is the number handed out, with its channel.\<close>

fun signer_step :: "signer_call \<times> millis \<Rightarrow> lease_table \<Rightarrow> (ident \<times> int) list \<times> lease_table" where
  "signer_step (Acquire_call ch i secs, now) t = ([], snd (acquireLease None i ch secs now t))"
| "signer_step (Allocate_call ch i, now) t =
     (case allocateNonce None i ch now t of
        (Inr (True, n, _), t') \<Rightarrow> ([(ch, n)], t')
      | (_, t') \<Rightarrow> ([], t'))"
| "signer_step (Release_call ch i, now) t = ([], snd (releaseLease None i ch t))"

fun signer_run :: "(signer_call \<times> millis) list \<Rightarrow> lease_table \<Rightarrow> (ident \<times> int) list \<times> lease_table" where
  "signer_run [] t = ([], t)"
| "signer_run (c # cs) t = (let (ns, t1) = signer_step c t; (ns', t2) = signer_run cs t1 in (ns @ ns', t2))"

definition numbers_of :: "ident \<Rightarrow> (ident \<times> int) list \<Rightarrow> int list" where
  "numbers_of ch ns = map snd (filter (\<lambda>p. fst p = ch) ns)"

lemma numbers_of_append [simp]: "numbers_of ch (xs @ ys) = numbers_of ch xs @ numbers_of ch ys"
  by (simp add: numbers_of_def)

definition last_number :: "ident \<Rightarrow> lease_table \<Rightarrow> int" where
  "last_number ch t = (case t ch of None \<Rightarrow> 0 | Some l \<Rightarrow> sl_last_nonce_allocated l)"

lemmas signer_defs = acquireLease_def allocateNonce_def releaseLease_def acquire_channel_signer_lease_def
  allocate_next_nonce_def release_channel_signer_lease_def

lemma signer_step_number:
  assumes "signer_step c t = (ns, t')" and "\<not> is_release (fst c)"
  shows "numbers_of ch ns = [] \<and> last_number ch t' = last_number ch t \<or>
     numbers_of ch ns = [last_number ch t + 1] \<and> last_number ch t' = last_number ch t + 1"
  using assms
  by (cases "(c, t)" rule: signer_step.cases)
     (auto simp: signer_defs last_number_def numbers_of_def is_release_def Let_def split: option.splits if_splits)

lemma signer_run_numbers:
  "\<forall>c\<in>set cs. \<not> is_release (fst c) \<Longrightarrow> signer_run cs t = (ns, t') \<Longrightarrow>
     numbers_of ch ns = map (\<lambda>i. last_number ch t + 1 + int i) [0..<length (numbers_of ch ns)] \<and>
     last_number ch t' = last_number ch t + int (length (numbers_of ch ns))"
proof (induction cs arbitrary: t ns)
  case Nil
  then show ?case by (simp add: numbers_of_def)
next
  case (Cons c cs)
  obtain n1 t1 where 1: "signer_step c t = (n1, t1)" by (cases "signer_step c t")
  obtain n2 t2 where 2: "signer_run cs t1 = (n2, t2)" by (cases "signer_run cs t1")
  have ns: "ns = n1 @ n2" "t' = t2" using Cons.prems(2) by (simp_all add: 1 2)
  have ih: "numbers_of ch n2 = map (\<lambda>i. last_number ch t1 + 1 + int i) [0..<length (numbers_of ch n2)]"
    "last_number ch t2 = last_number ch t1 + int (length (numbers_of ch n2))"
    using Cons.IH [of t1 n2] Cons.prems(1) 2 ns by auto
  have step: "numbers_of ch n1 = [] \<and> last_number ch t1 = last_number ch t \<or>
     numbers_of ch n1 = [last_number ch t + 1] \<and> last_number ch t1 = last_number ch t + 1"
    using signer_step_number [OF 1] Cons.prems(1) by simp
  have shift: "map (\<lambda>i. a + 1 + int i) [0..<Suc m] = (a + 1) # map (\<lambda>i. (a + 1) + 1 + int i) [0..<m]" for a m
    by (subst upt_conv_Cons) (auto simp: map_Suc_upt [symmetric] simp del: upt_Suc)
  from step show ?case
  proof
    assume "numbers_of ch n1 = [] \<and> last_number ch t1 = last_number ch t"
    then show ?thesis using ih by (simp add: ns)
  next
    assume b: "numbers_of ch n1 = [last_number ch t + 1] \<and> last_number ch t1 = last_number ch t + 1"
    have l: "length (numbers_of ch ns) = Suc (length (numbers_of ch n2))" using b by (simp add: ns)
    have "numbers_of ch ns = (last_number ch t + 1) # numbers_of ch n2" using b by (simp add: ns)
    also have "\<dots> = map (\<lambda>i. last_number ch t + 1 + int i) [0..<length (numbers_of ch ns)]"
      using ih(1) b unfolding l shift by simp
    finally show ?thesis using ih(2) b l ns(2) by simp
  qed
qed

text \<open>
  As long as no lease is released, the numbers handed out for the states of a channel are
  consecutive: whoever acquires, renews or takes over the lease and however the calls of the
  instances interleave, no number is given twice and none is left out.
\<close>

theorem signer_numbers_consecutive:
  assumes "\<forall>c\<in>set cs. \<not> is_release (fst c)"
  shows "numbers_of ch (fst (signer_run cs t)) =
     map (\<lambda>i. last_number ch t + 1 + int i) [0..<length (numbers_of ch (fst (signer_run cs t)))]"
  using signer_run_numbers [OF assms, of t "fst (signer_run cs t)" "snd (signer_run cs t)" ch] by simp

text \<open>The witness: instance b is refused, takes over after 30 seconds, and continues the numbering.\<close>

definition handover :: "(signer_call \<times> millis) list" where
  "handover = [(Acquire_call ''c'' ''a'' 30, 0), (Allocate_call ''c'' ''a'', 10), (Acquire_call ''c'' ''b'' 30, 20),
     (Allocate_call ''c'' ''b'', 30), (Allocate_call ''c'' ''a'', 40), (Acquire_call ''c'' ''b'' 30, 30000),
     (Allocate_call ''c'' ''a'', 30001), (Allocate_call ''c'' ''b'', 30002)]"

lemma handover_numbers: "fst (signer_run handover Map.empty) = [(''c'', 1), (''c'', 2), (''c'', 3)]"
  by code_simp

theorem signer_numbers_consecutive_witness:
  "numbers_of ''c'' (fst (signer_run handover Map.empty)) =
     map (\<lambda>i. last_number ''c'' Map.empty + 1 + int i) [0..<length (numbers_of ''c'' (fst (signer_run handover Map.empty)))]
   \<and> numbers_of ''c'' (fst (signer_run handover Map.empty)) = [1, 2, 3]"
proof
  show "numbers_of ''c'' (fst (signer_run handover Map.empty)) =
     map (\<lambda>i. last_number ''c'' Map.empty + 1 + int i) [0..<length (numbers_of ''c'' (fst (signer_run handover Map.empty)))]"
    by (rule signer_numbers_consecutive) (simp add: handover_def is_release_def)
  show "numbers_of ''c'' (fst (signer_run handover Map.empty)) = [1, 2, 3]"
    by (simp only: handover_numbers) (simp add: numbers_of_def)
qed

section \<open>Exclusion\<close>

lemma signer_step_excluded:
  assumes held: "holdsLease False i ch u t" and "now \<le> u" and "call_channel c = ch \<Longrightarrow> call_instance c \<noteq> i"
  shows "holdsLease False i ch u (snd (signer_step (c, now) t)) \<and> numbers_of ch (fst (signer_step (c, now) t)) = []"
proof (cases c)
  case (Acquire_call ch' i' secs)
  have "signer_holds ch i u (snd (signer_acquire ch' i' now secs t))"
    using assms by (intro signer.acquire_keeps) (auto simp: Acquire_call signer_holds_def)
  then show ?thesis
    by (simp add: Acquire_call numbers_of_def signer_holds_def signer_acquire_def acquireLease_def case_prod_beta Let_def)
next
  case (Allocate_call ch' i')
  then show ?thesis using assms
    by (auto simp: signer_defs holdsLease_def numbers_of_def split: option.splits)
next
  case (Release_call ch' i')
  then show ?thesis using assms
    by (auto simp: signer_defs holdsLease_def numbers_of_def split: option.splits)
qed

text \<open>
  C21: While an instance holds the signing lease of a channel, no other instance obtains a number
  for a state of that channel, whatever the others call and in whatever order, and at the end the
  holder still holds the lease.
\<close>

theorem signer_lease_exclusive:
  assumes "holdsLease False i ch u t"
    and "\<forall>(c, now)\<in>set cs. now \<le> u \<and> (call_channel c = ch \<longrightarrow> call_instance c \<noteq> i)"
  shows "numbers_of ch (fst (signer_run cs t)) = [] \<and> holdsLease False i ch u (snd (signer_run cs t))"
  using assms
proof (induction cs arbitrary: t)
  case (Cons c cs)
  obtain x now where c: "c = (x, now)" by (cases c)
  have s: "holdsLease False i ch u (snd (signer_step c t)) \<and> numbers_of ch (fst (signer_step c t)) = []"
    unfolding c using Cons.prems by (intro signer_step_excluded) (auto simp: c)
  then show ?case using Cons.IH [of "snd (signer_step c t)"] Cons.prems(2)
    by (simp add: case_prod_beta Let_def)
qed (simp add: numbers_of_def)

definition lease_of_a :: lease_table where
  "lease_of_a = [''c'' \<mapsto> \<lparr>sl_instance_id = ''a'', sl_lease_acquired_at = 0, sl_lease_expires_at = 30000, sl_last_nonce_allocated = 4\<rparr>]"

definition intruder :: "(signer_call \<times> millis) list" where
  "intruder = [(Acquire_call ''c'' ''b'' 60, 5), (Allocate_call ''c'' ''b'', 6), (Release_call ''c'' ''b'', 7)]"

theorem signer_lease_exclusive_witness:
  "numbers_of ''c'' (fst (signer_run intruder lease_of_a)) = [] \<and> holdsLease False ''a'' ''c'' 29999 (snd (signer_run intruder lease_of_a))"
  by (rule signer_lease_exclusive) (simp_all add: lease_of_a_def intruder_def holdsLease_def)

text \<open>
  Releasing a lease deletes its row and with it the last number: after the release the next
  instance that signs is given the number 1, for every channel and however many states have been
  signed before.
\<close>

theorem released_lease_repeats_number:
  assumes "t ch = Some l" and "now2 < now1 + 30000"
  shows "\<exists>t'. signWithLease None None j ch now1 now2 (\<lambda>t. t) signFn (snd (releaseLease None (sl_instance_id l) ch t)) = (signFn 1, t')"
  using assms
  by (simp add: signWithLease_def signer_defs defaultLeaseDurationSeconds_def Let_def)

theorem released_lease_repeats_number_witness:
  "\<exists>t'. signWithLease None None ''b'' ''c'' 100 101 (\<lambda>t. t) (\<lambda>n. Inr n)
      (snd (releaseLease None (sl_instance_id (the (lease_of_a ''c''))) ''c'' lease_of_a)) = (Inr 1 :: string + int, t')"
  by (rule released_lease_repeats_number) (simp_all add: lease_of_a_def)

section \<open>The renewal lock\<close>

text \<open>
  While a worker holds the lock on a subscription's cycle and the lock has not run out, every
  attempt of other workers on it fails, and after any sequence of attempts, on this cycle and on
  others, the worker still holds it.
\<close>

theorem renewal_lock_exclusive:
  assumes "index_ok t" and "lock_held k h u t"
    and "\<forall>(k', h', now, ttl)\<in>set as. now \<le> u \<and> (k' \<noteq> k \<or> h' \<noteq> h)"
  shows "lock_held k h u (snd (renewal.attempts as t)) \<and>
     (\<forall>i<length as. fst (as ! i) = k \<longrightarrow> \<not> fst (renewal.attempts as t) ! i)"
  by (rule renewal.held_through [OF assms])

definition one_lock :: "renewal_lock list" where
  "one_lock = [\<lparr>rl_subscription_id = ''s'', rl_cycle_id = 7, rl_lock_holder = ''w1'', rl_expires_at = 1000, rl_status = Lock_active\<rparr>]"

definition two_attempts :: "((ident \<times> int) \<times> ident \<times> millis \<times> millis) list" where
  "two_attempts = [((''s'', 7), ''w2'', 500, 60), ((''s'', 8), ''w1'', 800, 60)]"

theorem renewal_lock_exclusive_witness:
  "lock_held (''s'', 7) ''w1'' 900 (snd (renewal.attempts two_attempts one_lock)) \<and>
   \<not> fst (renewal.attempts two_attempts one_lock) ! 0"
proof -
  have "index_ok one_lock" by (simp add: index_ok_def one_lock_def)
  moreover have "lock_held (''s'', 7) ''w1'' 900 one_lock" by (simp add: lock_held_def one_lock_def is_active_def)
  moreover have "\<forall>(k', h', now, ttl)\<in>set two_attempts. now \<le> 900 \<and> (k' \<noteq> (''s'', 7) \<or> h' \<noteq> ''w1'')"
    by (simp add: two_attempts_def)
  ultimately have "lock_held (''s'', 7) ''w1'' 900 (snd (renewal.attempts two_attempts one_lock)) \<and>
     (\<forall>i<length two_attempts. fst (two_attempts ! i) = (''s'', 7) \<longrightarrow> \<not> fst (renewal.attempts two_attempts one_lock) ! i)"
    by (rule renewal_lock_exclusive)
  moreover have "0 < length two_attempts" "fst (two_attempts ! 0) = (''s'', 7)" by (simp_all add: two_attempts_def)
  ultimately show ?thesis by blast
qed

lemma acquire_free:
  "\<not> list_ex (is_active k) (releaseExpiredLocksForSubscription k now t) \<Longrightarrow>
     \<exists>t'. acquireLock True None k h now ttl t = (Inr True, t')"
  by (simp add: acquireLock_def insert_active_def Let_def)

lemma released_free: "\<not> list_ex (is_active k) (snd (releaseLock None k t))"
  by (auto simp: releaseLock_def list_ex_iff is_active_def)

lemma free_cleaned: "\<not> list_ex (is_active k) t \<Longrightarrow> \<not> list_ex (is_active k) (releaseExpiredLocksForSubscription k' now t)"
  unfolding releaseExpiredLocksForSubscription_def list_ex_iff by (auto simp: is_active_def split: if_splits)

text \<open>
  The release of a renewal lock does not look at the holder: a worker whose own lock ran out and
  was taken over ends, when it finishes, the lock of its successor, and a third worker gets in while
  the second is still at work.
\<close>

theorem late_release_frees_successor:
  assumes "\<not> list_ex (is_active k) (releaseExpiredLocksForSubscription k now1 t)"
  shows "\<exists>t1 t2 t3. acquireLock True None k w2 now1 ttl t = (Inr True, t1) \<and> releaseLock None k t1 = (Inr (), t2) \<and>
     acquireLock True None k w3 now2 ttl t2 = (Inr True, t3)"
proof -
  obtain t1 where 1: "acquireLock True None k w2 now1 ttl t = (Inr True, t1)" using acquire_free [OF assms] by blast
  obtain t3 where "acquireLock True None k w3 now2 ttl (snd (releaseLock None k t1)) = (Inr True, t3)"
    using acquire_free [OF free_cleaned [OF released_free]] by blast
  then show ?thesis using 1 by (auto simp: releaseLock_def)
qed

lemma one_lock_runs_out: "\<not> list_ex (is_active (''s'', 7)) (releaseExpiredLocksForSubscription (''s'', 7) 2000 one_lock)"
  by code_simp

theorem late_release_frees_successor_witness:
  "\<exists>t1 t2 t3. acquireLock True None (''s'', 7) ''w2'' 2000 60 one_lock = (Inr True, t1) \<and> releaseLock None (''s'', 7) t1 = (Inr (), t2) \<and>
     acquireLock True None (''s'', 7) ''w3'' 2001 60 t2 = (Inr True, t3)"
  by (rule late_release_frees_successor [OF one_lock_runs_out])

end
