(* ===== verification/ChainClient.thy ===== *)
theory ChainClient
  imports Prelude
begin

text \<open>
  The submission of contract calls to the ledger (\<open>ChainSubmissionClient\<close> in
  \<open>backend/src/blockchain/chain-submission-client.ts\<close>): sequence numbers of the source account,
  fees that are raised under congestion, the fate of a transaction after a timeout, and one
  execution per idempotency key.

  The RPC server, the clock and sleeping act on a state \<open>'w\<close> (\<open>chain_rpc\<close>); a failed call is its
  error message.  The loop that waits for a confirmation
  ends only when the clock does advance, so functions that wait return an option.
\<close>

section \<open>Configuration\<close>

record chain_config =
  cf_initialFee :: int
  cf_maxFee :: int
  cf_multiplier :: rat
  cf_timeoutMs :: int
  cf_maxRetries :: int

definition newChainClient :: "int option \<Rightarrow> int option \<Rightarrow> rat option \<Rightarrow> int option \<Rightarrow> int option \<Rightarrow> chain_config" where
  "newChainClient fee maxFee mult timeout retries =
     \<lparr>cf_initialFee = nullish fee 100, cf_maxFee = nullish maxFee 100000, cf_multiplier = nullish mult (3 / 2),
      cf_timeoutMs = nullish timeout 30000, cf_maxRetries = nullish retries 4\<rparr>"

section \<open>Transactions and errors\<close>

text \<open>The values of the contract interface the backend builds (\<open>xdr.ScVal\<close>).\<close>

datatype scval = Sc_string string | Sc_bytes string | Sc_u64 int | Sc_vec "scval list"

record submission_params =
  su_source :: string
  su_contract :: "string option"
  su_method :: string
  su_args :: "scval list"
  su_memo :: "string option"
  su_idempotencyKey :: "string option"

record chain_tx =
  ct_source :: string
  ct_call :: "(string \<times> string \<times> scval list) option"
  ct_memo :: "string option"
  ct_fee :: int
  ct_sequence :: int
  ct_timeoutSeconds :: int

record submission_result =
  sr_transactionHash :: string
  sr_status :: string
  sr_feePaidStroops :: int
  sr_sequenceNumber :: int
  sr_wasDuplicate :: bool

datatype chain_error = Max_fee_exceeded string | Ambiguous_timeout string string | Chain_failure string

fun chain_message :: "chain_error \<Rightarrow> string" where
  "chain_message (Max_fee_exceeded m) = m"
| "chain_message (Ambiguous_timeout m _) = m"
| "chain_message (Chain_failure m) = m"

definition isSequenceError :: "string \<Rightarrow> bool" where
  "isSequenceError m \<longleftrightarrow> list_ex (str_includes (toLowerCase m))
     [''bad_seq'', ''txbad_seq'', ''sequence_no_too_low'', ''sequence_no_too_high'', ''sequence'']"

definition isFeeError :: "string \<Rightarrow> bool" where
  "isFeeError m \<longleftrightarrow> list_ex (str_includes (toLowerCase m)) [''insufficient_fee'', ''txinsufficient_fee'', ''fee_too_low'', ''fee'']"

definition isCongestionError :: "string \<Rightarrow> bool" where
  "isCongestionError m \<longleftrightarrow> list_ex (str_includes (toLowerCase m)) [''congestion'', ''txtoo_late'', ''too_late'', ''busy'']"

fun isTimeoutError :: "chain_error \<Rightarrow> bool" where
  "isTimeoutError (Ambiguous_timeout _ _) \<longleftrightarrow> True"
| "isTimeoutError e \<longleftrightarrow> list_ex (str_includes (toLowerCase (chain_message e))) [''timeout'', ''etimedout'', ''econnreset'', ''504'', ''502'']"

definition bumpFee :: "chain_config \<Rightarrow> int \<Rightarrow> chain_error + int" where
  "bumpFee cf currentFee =
     (if cf_maxFee cf \<le> currentFee
      then Inl (Max_fee_exceeded (''Transaction fee of '' @ show_int currentFee @
             '' stroops has reached the maximum acceptable fee limit of '' @ show_int (cf_maxFee cf) @ '' stroops''))
      else (let nextFee = \<lceil>of_int currentFee * cf_multiplier cf\<rceil>
            in if cf_maxFee cf < nextFee then Inr (cf_maxFee cf) else Inr nextFee))"

section \<open>The RPC server\<close>

datatype tx_status = Tx_success | Tx_failed | Tx_not_found

datatype send_answer = Send_threw string | Send_error string | Send_ok "string option"

text \<open>\<open>rpc_simulate\<close> answers with the error of the simulation, or throws (\<open>Inl\<close>).\<close>

record 'w chain_rpc =
  rpc_getAccount :: "string \<Rightarrow> 'w \<Rightarrow> (string + int) \<times> 'w"
  rpc_simulate :: "chain_tx \<Rightarrow> 'w \<Rightarrow> (string + string option) \<times> 'w"
  rpc_send :: "chain_tx \<Rightarrow> 'w \<Rightarrow> send_answer \<times> 'w"
  rpc_getTransaction :: "string \<Rightarrow> 'w \<Rightarrow> (string + tx_status) \<times> 'w"
  rpc_now :: "'w \<Rightarrow> millis"
  rpc_sleep :: "int \<Rightarrow> 'w \<Rightarrow> 'w"
  rpc_hash :: "chain_tx \<Rightarrow> string"

record 'w chain_state =
  ch_sequences :: "(string, int) jsmap"
  ch_completed :: "(string, submission_result) jsmap"
  ch_world :: 'w

section \<open>Building a transaction\<close>

definition getOrFetchSequence :: "'w chain_rpc \<Rightarrow> string \<Rightarrow> 'w chain_state \<Rightarrow> (chain_error + int) \<times> 'w chain_state" where
  "getOrFetchSequence rpc pk st =
     (case js_get (ch_sequences st) pk of
        Some s \<Rightarrow> (Inr s, st)
      | None \<Rightarrow>
          (case rpc_getAccount rpc pk (ch_world st) of
             (Inl e, w) \<Rightarrow> (Inl (Chain_failure e), st\<lparr>ch_world := w\<rparr>)
           | (Inr s, w) \<Rightarrow> (Inr s, st\<lparr>ch_sequences := js_set pk s (ch_sequences st), ch_world := w\<rparr>)))"

definition invalidateSequence :: "string \<Rightarrow> 'w chain_state \<Rightarrow> 'w chain_state" where
  "invalidateSequence pk st = st\<lparr>ch_sequences := js_delete pk (ch_sequences st)\<rparr>"

text \<open>The section under the lock of the account.\<close>

definition build_transaction :: "chain_config \<Rightarrow> 'w chain_rpc \<Rightarrow> submission_params \<Rightarrow> int \<Rightarrow> 'w chain_state \<Rightarrow>
    (chain_error + chain_tx) \<times> 'w chain_state" where
  "build_transaction cf rpc p fee st =
     (case getOrFetchSequence rpc (su_source p) st of
        (Inl e, st1) \<Rightarrow> (Inl e, st1)
      | (Inr seq, st1) \<Rightarrow>
          (let tx = \<lparr>ct_source = su_source p, ct_call = (if truthy (su_contract p) then Some (the (su_contract p), su_method p, su_args p) else None),
                     ct_memo = (if truthy (su_memo p) then su_memo p else None), ct_fee = fee, ct_sequence = seq + 1,
                     ct_timeoutSeconds = cf_timeoutMs cf div 1000\<rparr>
           in case rpc_simulate rpc tx (ch_world st1) of
                (Inl e, w) \<Rightarrow> (Inl (Chain_failure e), st1\<lparr>ch_world := w\<rparr>)
              | (Inr (Some e), w) \<Rightarrow> (Inl (Chain_failure (''Simulation failed: '' @ e)), st1\<lparr>ch_world := w\<rparr>)
              | (Inr None, w) \<Rightarrow>
                  (Inr tx, st1\<lparr>ch_sequences := js_set (su_source p) (seq + 1) (ch_sequences st1), ch_world := w\<rparr>)))"

section \<open>The fate of a transaction\<close>

definition queryLedgerFate :: "'w chain_rpc \<Rightarrow> string \<Rightarrow> 'w \<Rightarrow> string option \<times> 'w" where
  "queryLedgerFate rpc h w =
     (case rpc_getTransaction rpc h w of
        (Inr Tx_success, w1) \<Rightarrow> (Some ''SUCCESS'', w1)
      | (Inr Tx_failed, w1) \<Rightarrow> (Some ''FAILED'', w1)
      | (_, w1) \<Rightarrow> (None, w1))"

partial_function (option) wait_loop :: "chain_config \<Rightarrow> 'w chain_rpc \<Rightarrow> string \<Rightarrow> millis \<Rightarrow> 'w \<Rightarrow> ((chain_error + string) \<times> 'w) option" where
  "wait_loop cf rpc h startTime w =
     (if rpc_now rpc w - startTime < cf_timeoutMs cf then
        (case rpc_getTransaction rpc h w of
           (Inl e, w1) \<Rightarrow> Some (Inl (Chain_failure e), w1)
         | (Inr Tx_success, w1) \<Rightarrow> Some (Inr ''SUCCESS'', w1)
         | (Inr Tx_failed, w1) \<Rightarrow> Some (Inl (Chain_failure (''Transaction failed on-chain: '' @ h)), w1)
         | (Inr Tx_not_found, w1) \<Rightarrow> wait_loop cf rpc h startTime (rpc_sleep rpc 500 w1))
      else Some (Inl (Ambiguous_timeout (''Timeout waiting for transaction confirmation: '' @ h) h), w))"

declare wait_loop.simps [code]

definition waitForConfirmation :: "chain_config \<Rightarrow> 'w chain_rpc \<Rightarrow> string \<Rightarrow> 'w \<Rightarrow> ((chain_error + string) \<times> 'w) option" where
  "waitForConfirmation cf rpc h w = wait_loop cf rpc h (rpc_now rpc w) w"

text \<open>After an error the ledger is asked when the error was a timeout.\<close>

definition fate_after :: "'w chain_rpc \<Rightarrow> string \<Rightarrow> chain_error \<Rightarrow> 'w \<Rightarrow> (chain_error + string) \<times> 'w" where
  "fate_after rpc h e w =
     (if isTimeoutError e
      then (case queryLedgerFate rpc h w of (Some status, w1) \<Rightarrow> (Inr status, w1) | (None, w1) \<Rightarrow> (Inl e, w1))
      else (Inl e, w))"

section \<open>One attempt\<close>

datatype attempt_outcome =
    Finished submission_result
  | Continue_with int
  | Threw chain_error

definition submission_result_of :: "chain_tx \<Rightarrow> string \<Rightarrow> string \<Rightarrow> submission_result" where
  "submission_result_of tx h status =
     \<lparr>sr_transactionHash = h, sr_status = status, sr_feePaidStroops = ct_fee tx, sr_sequenceNumber = ct_sequence tx, sr_wasDuplicate = False\<rparr>"

definition outcome_of :: "chain_tx \<Rightarrow> string \<Rightarrow> chain_error + string \<Rightarrow> attempt_outcome" where
  "outcome_of tx h r = (case r of Inl e \<Rightarrow> Threw e | Inr status \<Rightarrow> Finished (submission_result_of tx h status))"

text \<open>\<open>send_transaction\<close> is the part of the body after the lock.\<close>

definition send_transaction :: "chain_config \<Rightarrow> 'w chain_rpc \<Rightarrow> submission_params \<Rightarrow> chain_tx \<Rightarrow> 'w chain_state \<Rightarrow>
    (attempt_outcome \<times> 'w chain_state) option" where
  "send_transaction cf rpc p tx st =
     (case rpc_send rpc tx (ch_world st) of
        (Send_threw m, w) \<Rightarrow>
          (let (r, w1) = fate_after rpc (rpc_hash rpc tx) (Chain_failure m) w
           in Some (outcome_of tx (rpc_hash rpc tx) r, st\<lparr>ch_world := w1\<rparr>))
      | (Send_error m, w) \<Rightarrow>
          (let st1 = (if isSequenceError m then invalidateSequence (su_source p) (st\<lparr>ch_world := w\<rparr>) else st\<lparr>ch_world := w\<rparr>)
           in if isFeeError m \<or> isCongestionError m
              then (case bumpFee cf (ct_fee tx) of Inl e \<Rightarrow> Some (Threw e, st1) | Inr fee \<Rightarrow> Some (Continue_with fee, st1))
              else Some (Threw (Chain_failure (''Send transaction failed: '' @ m)), st1))
      | (Send_ok hash, w) \<Rightarrow>
          (let h = str_or hash (rpc_hash rpc tx)
           in case waitForConfirmation cf rpc h w of
                None \<Rightarrow> None
              | Some (Inr status, w1) \<Rightarrow> Some (Finished (submission_result_of tx h status), st\<lparr>ch_world := w1\<rparr>)
              | Some (Inl e, w1) \<Rightarrow>
                  (let (r, w2) = fate_after rpc h e w1 in Some (outcome_of tx h r, st\<lparr>ch_world := w2\<rparr>))))"

definition run_attempt :: "chain_config \<Rightarrow> 'w chain_rpc \<Rightarrow> submission_params \<Rightarrow> int \<Rightarrow> 'w chain_state \<Rightarrow>
    (attempt_outcome \<times> 'w chain_state \<times> chain_tx list) option" where
  "run_attempt cf rpc p fee st =
     (case build_transaction cf rpc p fee st of
        (Inl e, st1) \<Rightarrow> Some (Threw e, st1, [])
      | (Inr tx, st1) \<Rightarrow> map_option (\<lambda>(out, st2). (out, st2, [tx])) (send_transaction cf rpc p tx st1))"

section \<open>The loop\<close>

text \<open>What the handler of an exception decides: give up, or the fee and the state to go on with.\<close>

definition recover :: "chain_config \<Rightarrow> submission_params \<Rightarrow> int \<Rightarrow> chain_error \<Rightarrow> int \<Rightarrow> 'w chain_state \<Rightarrow>
    (chain_error + int) \<times> 'w chain_state" where
  "recover cf p attempt e fee st =
     (let m = chain_message e; final = (attempt = cf_maxRetries cf)
      in if isSequenceError m then (if final then Inl e else Inr fee, invalidateSequence (su_source p) st)
         else if isFeeError m \<or> isCongestionError m
         then (case bumpFee cf fee of Inl e' \<Rightarrow> (Inl e', st) | Inr fee' \<Rightarrow> (if final then Inl e else Inr fee', st))
         else (if final then Inl e else Inr fee, st))"

text \<open>The result, the state, and the transactions that were sent, in order.\<close>

function submission_loop :: "chain_config \<Rightarrow> 'w chain_rpc \<Rightarrow> submission_params \<Rightarrow> int \<Rightarrow> int \<Rightarrow> 'w chain_state \<Rightarrow>
    ((chain_error + submission_result) \<times> 'w chain_state \<times> chain_tx list) option" where
  "submission_loop cf rpc p attempt fee st =
     (if cf_maxRetries cf < attempt
      then Some (Inl (Chain_failure (''Chain submission failed after '' @ show_int (cf_maxRetries cf) @ '' attempts'')), st, [])
      else
        (case run_attempt cf rpc p fee st of
           None \<Rightarrow> None
         | Some (Finished r, st1, sent) \<Rightarrow> Some (Inr r, st1, sent)
         | Some (Continue_with fee', st1, sent) \<Rightarrow>
             map_option (\<lambda>(r, st2, sent2). (r, st2, sent @ sent2)) (submission_loop cf rpc p (attempt + 1) fee' st1)
         | Some (Threw e, st1, sent) \<Rightarrow>
             (case recover cf p attempt e fee st1 of
                (Inl e', st2) \<Rightarrow> Some (Inl e', st2, sent)
              | (Inr fee', st2) \<Rightarrow>
                  map_option (\<lambda>(r, st3, sent2). (r, st3, sent @ sent2))
                    (submission_loop cf rpc p (attempt + 1) fee'
                       (st2\<lparr>ch_world := rpc_sleep rpc (2 ^ nat attempt * 250) (ch_world st2)\<rparr>)))))"
  by pat_completeness auto

termination by (relation "measure (\<lambda>(cf, rpc, p, attempt, fee, st). nat (cf_maxRetries cf + 1 - attempt))") auto

declare submission_loop.simps [simp del]

definition executeSubmission :: "chain_config \<Rightarrow> 'w chain_rpc \<Rightarrow> submission_params \<Rightarrow> 'w chain_state \<Rightarrow>
    ((chain_error + submission_result) \<times> 'w chain_state \<times> chain_tx list) option" where
  "executeSubmission cf rpc p st = submission_loop cf rpc p 0 (cf_initialFee cf) st"

section \<open>Idempotency\<close>

text \<open>\<open>submit\<close> of one caller at a time.  An empty key is no key.\<close>

definition submit :: "chain_config \<Rightarrow> 'w chain_rpc \<Rightarrow> submission_params \<Rightarrow> 'w chain_state \<Rightarrow>
    ((chain_error + submission_result) \<times> 'w chain_state \<times> chain_tx list) option" where
  "submit cf rpc p st =
     (if truthy (su_idempotencyKey p) then
        (case js_get (ch_completed st) (the (su_idempotencyKey p)) of
           Some cached \<Rightarrow> Some (Inr (cached\<lparr>sr_wasDuplicate := True\<rparr>), st, [])
         | None \<Rightarrow>
             map_option (\<lambda>(r, st1, sent). case r of
                 Inl e \<Rightarrow> (Inl e, st1, sent)
               | Inr res \<Rightarrow> (Inr res, st1\<lparr>ch_completed := js_set (the (su_idempotencyKey p)) res (ch_completed st1)\<rparr>, sent))
               (executeSubmission cf rpc p st))
      else executeSubmission cf rpc p st)"

text \<open>
  Callers that overlap.  A caller with a key finds a completed result, joins the execution under
  way, or starts one; an execution ends with a result or an error.
\<close>

record flight_state =
  fl_inflight :: "string list"
  fl_completed :: "(string, submission_result) jsmap"

datatype flight_answer = Cached submission_result | Joined | Started

definition submit_begin :: "string \<Rightarrow> flight_state \<Rightarrow> flight_answer \<times> flight_state" where
  "submit_begin key s =
     (case js_get (fl_completed s) key of
        Some r \<Rightarrow> (Cached (r\<lparr>sr_wasDuplicate := True\<rparr>), s)
      | None \<Rightarrow> if List.member (fl_inflight s) key then (Joined, s) else (Started, s\<lparr>fl_inflight := key # fl_inflight s\<rparr>))"

definition submit_end :: "string \<Rightarrow> chain_error + submission_result \<Rightarrow> flight_state \<Rightarrow> flight_state" where
  "submit_end key r s =
     s\<lparr>fl_completed := (case r of Inl _ \<Rightarrow> fl_completed s | Inr res \<Rightarrow> js_set key res (fl_completed s)),
       fl_inflight := removeAll key (fl_inflight s)\<rparr>"

definition resetState :: "'w chain_state \<Rightarrow> 'w chain_state" where
  "resetState st = st\<lparr>ch_sequences := [], ch_completed := []\<rparr>"

end
