(* ===== verification/Memo.thy ===== *)
theory Memo
  imports Json
begin

text \<open>
  The memo of a ledger transaction (\<open>shared/src/logic/stellar/memo.ts\<close>): which operation a
  transaction performs and for which subscription, as \<open>S1:<type>:<first 12 hex digits of the SHA-256 of
  the id>\<close>.  The digest is an argument, the list of its bytes.
\<close>

datatype memo_operation =
    Create_op | Update_op | Delete_op | Cancel_op | Pause_op | Unpause_op | Reminder_op | Gift_card_op | Commitment_op

definition memo_type_code :: "memo_operation \<Rightarrow> char" where
  "memo_type_code op = (case op of
     Create_op \<Rightarrow> CHR ''c'' | Update_op \<Rightarrow> CHR ''u'' | Delete_op \<Rightarrow> CHR ''d'' | Cancel_op \<Rightarrow> CHR ''x'' | Pause_op \<Rightarrow> CHR ''p''
   | Unpause_op \<Rightarrow> CHR ''r'' | Reminder_op \<Rightarrow> CHR ''m'' | Gift_card_op \<Rightarrow> CHR ''g'' | Commitment_op \<Rightarrow> CHR ''k'')"

definition memo_type_codes :: string where
  "memo_type_codes = ''cudxprmgk''"

definition byte_hex :: "nat \<Rightarrow> string" where
  "byte_hex b = [hex_digit (b div 16), hex_digit (b mod 16)]"

definition hashSubscriptionId :: "(string \<Rightarrow> nat list) \<Rightarrow> string \<Rightarrow> string" where
  "hashSubscriptionId sha256 i = take 12 (concat (map byte_hex (sha256 i)))"

definition buildSyncroMemo :: "(string \<Rightarrow> nat list) \<Rightarrow> memo_operation \<Rightarrow> string \<Rightarrow> string + string" where
  "buildSyncroMemo sha256 op i =
     (if i = [] then Inl ''subscriptionId is required to build a SYNCRO memo''
      else Inr (''S1:'' @ [memo_type_code op] @ '':'' @ hashSubscriptionId sha256 i))"

record parsed_memo =
  pm_type :: char
  pm_subscriptionIdHash :: string
  pm_raw :: string
  pm_legacy :: bool

definition lower_hex_char :: "char \<Rightarrow> bool" where
  "lower_hex_char c \<longleftrightarrow> (48 \<le> code c \<and> code c \<le> 57) \<or> (97 \<le> code c \<and> code c \<le> 102)"

text \<open>The regular expression \<open>^S1:([cudxprmgk]):([a-f0-9]{12})$\<close>.\<close>

definition memo_match :: "string \<Rightarrow> (char \<times> string) option" where
  "memo_match s =
     (if length s = 17 \<and> take 3 s = ''S1:'' \<and> List.member memo_type_codes (s ! 3) \<and> s ! 4 = CHR '':'' \<and> list_all lower_hex_char (drop 5 s)
      then Some (s ! 3, drop 5 s) else None)"

definition parseSyncroMemo :: "string option \<Rightarrow> parsed_memo option" where
  "parseSyncroMemo memo =
     (if \<not> truthy memo then None
      else (let trimmed = trim (the memo)
            in case memo_match trimmed of
                 None \<Rightarrow> Some \<lparr>pm_type = CHR ''c'', pm_subscriptionIdHash = [], pm_raw = trimmed, pm_legacy = True\<rparr>
               | Some (t, h) \<Rightarrow> Some \<lparr>pm_type = t, pm_subscriptionIdHash = h, pm_raw = trimmed, pm_legacy = False\<rparr>))"

definition validateSyncroMemo :: "(string \<Rightarrow> nat list) \<Rightarrow> string option \<Rightarrow> memo_operation \<Rightarrow> string \<Rightarrow> bool" where
  "validateSyncroMemo sha256 memo op i =
     (case parseSyncroMemo memo of
        None \<Rightarrow> False
      | Some m \<Rightarrow> \<not> pm_legacy m \<and> pm_type m = memo_type_code op \<and> pm_subscriptionIdHash m = hashSubscriptionId sha256 i)"

definition verifyTransactionMemo :: "(string \<Rightarrow> nat list) \<Rightarrow> string option \<Rightarrow> bool option \<Rightarrow> memo_operation \<Rightarrow> string \<Rightarrow> bool" where
  "verifyTransactionMemo sha256 memo successful op i \<longleftrightarrow> successful \<noteq> Some False \<and> validateSyncroMemo sha256 memo op i"

definition resolveMemoOperationFromMethod :: "string \<Rightarrow> memo_operation option" where
  "resolveMemoOperationFromMethod m =
     (if str_includes m ''subscription_create'' then Some Create_op
      else if str_includes m ''subscription_update'' then Some Update_op
      else if str_includes m ''subscription_delete'' then Some Delete_op
      else if str_includes m ''subscription_cancel'' then Some Cancel_op
      else if str_includes m ''subscription_pause'' then Some Pause_op
      else if str_includes m ''subscription_unpause'' then Some Unpause_op
      else if str_includes m ''log_reminder'' then Some Reminder_op
      else if str_includes m ''gift_card_attached'' then Some Gift_card_op
      else if str_includes m ''record_commitment'' then Some Commitment_op
      else None)"

section \<open>What a memo binds\<close>

lemma memo_type_code_inj: "memo_type_code op = memo_type_code op' \<longleftrightarrow> op = op'"
  by (cases op; cases op') (simp_all add: memo_type_code_def)

lemma memo_type_code_member: "memo_type_code op \<in> set memo_type_codes"
  by (cases op) (simp_all add: memo_type_code_def memo_type_codes_def)

definition digest_ok :: "(string \<Rightarrow> nat list) \<Rightarrow> bool" where
  "digest_ok sha256 \<longleftrightarrow> (\<forall>i. length (sha256 i) = 32 \<and> list_all (\<lambda>b. b < 256) (sha256 i))"

lemma lower_hex_digit: "n < 16 \<Longrightarrow> lower_hex_char (hex_digit n)"
  by (auto simp: lower_hex_char_def hex_digit_def)

lemma hash_shape:
  assumes "digest_ok sha256"
  shows "length (hashSubscriptionId sha256 i) = 12 \<and> list_all lower_hex_char (hashSubscriptionId sha256 i)"
proof -
  have b: "\<forall>b\<in>set (sha256 i). b < 256" and l: "length (sha256 i) = 32"
    using assms by (auto simp: digest_ok_def list_all_iff)
  have "length (concat (map byte_hex bs)) = 2 * length bs" for bs by (induction bs) (simp_all add: byte_hex_def)
  moreover have "\<forall>c\<in>set (concat (map byte_hex (sha256 i))). lower_hex_char c"
    using b by (auto simp: byte_hex_def less_mult_imp_div_less intro!: lower_hex_digit)
  ultimately show ?thesis using l set_take_subset [of 12 "concat (map byte_hex (sha256 i))"]
    unfolding hashSubscriptionId_def list_all_iff by (simp add: subset_iff del: set_concat)
qed

lemma memo_match_built:
  "length h = 12 \<Longrightarrow> list_all lower_hex_char h \<Longrightarrow> memo_match (''S1:'' @ [memo_type_code op] @ '':'' @ h) = Some (memo_type_code op, h)"
  using memo_type_code_member by (simp add: memo_match_def)

lemma trim_tight:
  assumes "s \<noteq> []" and "\<not> is_space (hd s)" and "\<not> is_space (last s)"
  shows "trim s = s"
proof -
  have "dropWhile is_space s = s" "dropWhile is_space (rev s) = rev s"
    using assms by (simp_all add: dropWhile_eq_self_iff hd_rev)
  then show ?thesis by (simp add: trim_def)
qed

lemma not_space_lower_hex: "lower_hex_char c \<Longrightarrow> \<not> is_space c"
  by (auto simp: lower_hex_char_def is_space_def)

lemma trim_memo:
  assumes "length h = 12" and "list_all lower_hex_char h"
  shows "trim (''S1:'' @ [t] @ '':'' @ h) = ''S1:'' @ [t] @ '':'' @ h"
proof (rule trim_tight)
  have "h \<noteq> []" using assms(1) by auto
  then have "last h \<in> set h" by simp
  then show "\<not> is_space (last (''S1:'' @ [t] @ '':'' @ h))"
    using \<open>h \<noteq> []\<close> assms(2) not_space_lower_hex by (auto simp: list_all_iff)
qed (simp_all add: is_space_def code_def)

text \<open>
  A memo that was built for an operation on a subscription is read back with its operation and
  the digest of the subscription, and it validates for another operation and subscription exactly
  when the operation is the same and the digests, cut to twelve digits, agree.
\<close>

theorem memo_round_trip:
  assumes "digest_ok sha256" and "buildSyncroMemo sha256 op i = Inr memo"
  shows "parseSyncroMemo (Some memo) =
       Some \<lparr>pm_type = memo_type_code op, pm_subscriptionIdHash = hashSubscriptionId sha256 i, pm_raw = memo, pm_legacy = False\<rparr> \<and>
     (validateSyncroMemo sha256 (Some memo) op' i' \<longleftrightarrow> op' = op \<and> hashSubscriptionId sha256 i' = hashSubscriptionId sha256 i)"
proof -
  have memo: "memo = ''S1:'' @ [memo_type_code op] @ '':'' @ hashSubscriptionId sha256 i"
    using assms(2) by (simp add: buildSyncroMemo_def split: if_splits)
  have p: "parseSyncroMemo (Some memo) =
       Some \<lparr>pm_type = memo_type_code op, pm_subscriptionIdHash = hashSubscriptionId sha256 i, pm_raw = memo, pm_legacy = False\<rparr>"
    using trim_memo memo_match_built hash_shape [OF assms(1)] unfolding parseSyncroMemo_def memo by simp
  then show ?thesis by (auto simp: validateSyncroMemo_def memo_type_code_inj)
qed

text \<open>A stand-in for the digest, for the witness.\<close>

definition demo_digest :: "string \<Rightarrow> nat list" where
  "demo_digest s = map (\<lambda>k. (k + length s) mod 256) [0..<32]"

theorem memo_round_trip_witness:
  "parseSyncroMemo (Some ''S1:u:020304050607'') =
       Some \<lparr>pm_type = memo_type_code Update_op, pm_subscriptionIdHash = hashSubscriptionId demo_digest ''s1'',
             pm_raw = ''S1:u:020304050607'', pm_legacy = False\<rparr> \<and>
     (validateSyncroMemo demo_digest (Some ''S1:u:020304050607'') Cancel_op ''s1'' \<longleftrightarrow>
        Cancel_op = Update_op \<and> hashSubscriptionId demo_digest ''s1'' = hashSubscriptionId demo_digest ''s1'')"
proof (rule memo_round_trip)
  show "digest_ok demo_digest" by (simp add: digest_ok_def demo_digest_def list_all_iff)
  show "buildSyncroMemo demo_digest Update_op ''s1'' = Inr ''S1:u:020304050607''" by code_simp
qed

end
