(* ===== verification/ChainLog.thy ===== *)
theory ChainLog
  imports ChainClient Memo
begin

text \<open>
  The event log of the ledger (\<open>BlockchainService\<close> in \<open>backend/src/services/blockchain-service.ts\<close>,
  with the method names of \<open>backend/src/blockchain/backend-contract-bindings.ts\<close> and the checks of
  \<open>ttl-contract-helpers.ts\<close>).  Every event is a row of \<open>blockchain_logs\<close> first; then the contract is
  called, and the row is marked confirmed or failed.

  An insert into the log answers with an error or the id of the row; whether the later update of
  the row succeeds is an argument, its error is ignored.  Keys, digests and the rendering of
  numbers and dates are fields of the environment.
\<close>

datatype log_status = Log_pending | Log_confirmed | Log_failed | Log_dead_letter

record chain_log =
  cl_id :: ident
  cl_user :: ident
  cl_event_type :: string
  cl_event_data :: json
  cl_status :: log_status
  cl_transaction_hash :: "string option"
  cl_error_message :: "string option"

record 'w chain_service =
  cs_logs :: "chain_log list"
  cs_dlq :: "json list"
  cs_chain :: "'w chain_state"

text \<open>\<open>be_redis\<close>: there is no client, or pushing succeeds or throws.  \<open>be_deadLetterId\<close>: the row of the
  fallback, if its insert succeeds.\<close>

record 'w chain_service_env =
  be_contractAddress :: "string option"
  be_blockchainEnabled :: bool
  be_signer :: "string + string"
  be_config :: chain_config
  be_rpc :: "'w chain_rpc"
  be_sha256 :: "string \<Rightarrow> nat list"
  be_hmac :: "string \<Rightarrow> string"
  be_number :: "amount \<Rightarrow> string"
  be_iso :: "millis \<Rightarrow> string"
  be_now :: millis
  be_correlationId :: "string option"
  be_redis :: "bool option"
  be_deadLetterId :: "ident option"
  be_rpcUrl :: string
  be_maxAttempts :: int

section \<open>Contract methods\<close>

definition resolveSubscriptionMethod :: "memo_operation \<Rightarrow> string" where
  "resolveSubscriptionMethod op = (case op of
     Create_op \<Rightarrow> ''create_subscription'' | Update_op \<Rightarrow> ''update_subscription'' | Delete_op \<Rightarrow> ''cancel_subscription''
   | Cancel_op \<Rightarrow> ''cancel_subscription'' | Pause_op \<Rightarrow> ''cancel_subscription'' | Unpause_op \<Rightarrow> ''update_subscription'' | _ \<Rightarrow> [])"

definition operation_name :: "memo_operation \<Rightarrow> string" where
  "operation_name op = (case op of
     Create_op \<Rightarrow> ''create'' | Update_op \<Rightarrow> ''update'' | Delete_op \<Rightarrow> ''delete'' | Cancel_op \<Rightarrow> ''cancel'' | Pause_op \<Rightarrow> ''pause''
   | Unpause_op \<Rightarrow> ''unpause'' | Reminder_op \<Rightarrow> ''reminder'' | Gift_card_op \<Rightarrow> ''gift_card'' | Commitment_op \<Rightarrow> ''commitment'')"

section \<open>Calling the contract\<close>

fun scval_kind :: "scval \<Rightarrow> string" where
  "scval_kind (Sc_string _) = ''scvString''"
| "scval_kind (Sc_bytes _) = ''scvBytes''"
| "scval_kind (Sc_u64 _) = ''scvU64''"
| "scval_kind (Sc_vec _) = ''scvVec''"

definition previewArgs :: "'w chain_service_env \<Rightarrow> scval list \<Rightarrow> string" where
  "previewArgs env args = json_stringify (be_number env) (JArr (map (\<lambda>a. JStr (scval_kind a)) args))"

definition opt_str :: "string option \<Rightarrow> json" where
  "opt_str s = (case s of None \<Rightarrow> JNull | Some t \<Rightarrow> JStr t)"

definition dead_letter :: "'w chain_service_env \<Rightarrow> string \<Rightarrow> scval list \<Rightarrow> string \<Rightarrow> json" where
  "dead_letter env method args e = JObj
     [(''version'', JStr ''1.0''), (''eventType'', JStr method), (''payload'', JStr (previewArgs env args)),
      (''failedAt'', JStr (be_iso env (be_now env))), (''errorReason'', JStr e), (''retryCount'', JNum (of_int (be_maxAttempts env))),
      (''contractAddress'', opt_str (be_contractAddress env)), (''rpcUrl'', JStr (be_rpcUrl env)),
      (''correlationId'', opt_str (be_correlationId env))]"

definition enqueueDeadLetter :: "'w chain_service_env \<Rightarrow> json \<Rightarrow> 'w chain_service \<Rightarrow> 'w chain_service" where
  "enqueueDeadLetter env payload s =
     (if be_redis env = Some True then s\<lparr>cs_dlq := payload # cs_dlq s\<rparr>
      else (case be_deadLetterId env of
          None \<Rightarrow> s
        | Some i \<Rightarrow> s\<lparr>cs_logs := cs_logs s @ [\<lparr>cl_id = i, cl_user = ''system'', cl_event_type = ''blockchain_dead_letter'',
                        cl_event_data = payload, cl_status = Log_dead_letter, cl_transaction_hash = None, cl_error_message = None\<rparr>]\<rparr>))"

definition submission_for :: "'w chain_service_env \<Rightarrow> string \<Rightarrow> string \<Rightarrow> scval list \<Rightarrow> string option \<Rightarrow> submission_params" where
  "submission_for env signer method args subscriptionId =
     (let memoOperation = (if truthy subscriptionId then resolveMemoOperationFromMethod method else None)
      in \<lparr>su_source = signer, su_contract = be_contractAddress env, su_method = method, su_args = args,
          su_memo = (case memoOperation of
              None \<Rightarrow> None
            | Some op \<Rightarrow> (case buildSyncroMemo (be_sha256 env) op (the subscriptionId) of Inl _ \<Rightarrow> None | Inr m \<Rightarrow> Some m)),
          su_idempotencyKey = (if truthy subscriptionId then Some (the subscriptionId @ '':'' @ method) else None)\<rparr>)"

definition invokeContractWithRetry :: "'w chain_service_env \<Rightarrow> string \<Rightarrow> scval list \<Rightarrow> string option \<Rightarrow> 'w chain_service \<Rightarrow>
    ((string + string) \<times> 'w chain_service) option" where
  "invokeContractWithRetry env method args subscriptionId s =
     (if \<not> truthy (be_contractAddress env) then Some (Inl ''SOROBAN_CONTRACT_ADDRESS not configured'', s)
      else if \<not> be_blockchainEnabled env
      then Some (Inl (''[blockchain] On-chain write for \"'' @ method @ ''\" was blocked: ENABLE_BLOCKCHAIN is set to false.''), s)
      else (case be_signer env of
          Inl e \<Rightarrow> Some (Inl e, s)
        | Inr signer \<Rightarrow>
            map_option (\<lambda>(r, st, sent). case r of
                Inr res \<Rightarrow> (Inr (sr_transactionHash res), s\<lparr>cs_chain := st\<rparr>)
              | Inl e \<Rightarrow> (Inl (''Soroban transaction failed: '' @ chain_message e),
                          enqueueDeadLetter env (dead_letter env method args (chain_message e)) (s\<lparr>cs_chain := st\<rparr>)))
              (submit (be_config env) (be_rpc env) (submission_for env signer method args subscriptionId) (cs_chain s))))"

section \<open>Logging an event\<close>

record write_result =
  wr_success :: bool
  wr_transactionHash :: "string option"
  wr_error :: "string option"

definition insert_log :: "ident \<Rightarrow> ident \<Rightarrow> string \<Rightarrow> json \<Rightarrow> 'w chain_service \<Rightarrow> 'w chain_service" where
  "insert_log i userId etype data s =
     s\<lparr>cs_logs := cs_logs s @ [\<lparr>cl_id = i, cl_user = userId, cl_event_type = etype, cl_event_data = data, cl_status = Log_pending,
                               cl_transaction_hash = None, cl_error_message = None\<rparr>]\<rparr>"

definition update_log :: "bool \<Rightarrow> ident \<Rightarrow> (chain_log \<Rightarrow> chain_log) \<Rightarrow> 'w chain_service \<Rightarrow> 'w chain_service" where
  "update_log ok i f s = (if ok then s\<lparr>cs_logs := map (\<lambda>l. if cl_id l = i then f l else l) (cs_logs s)\<rparr> else s)"

text \<open>The frame the operations share: the row, the call, the mark on the row.\<close>

definition log_then_write :: "'w chain_service_env \<Rightarrow> string + ident \<Rightarrow> bool \<Rightarrow> ident \<Rightarrow> string \<Rightarrow> json \<Rightarrow>
    ('w chain_service \<Rightarrow> ((string + string) \<times> 'w chain_service) option) \<Rightarrow> 'w chain_service \<Rightarrow> (write_result \<times> 'w chain_service) option" where
  "log_then_write env ins updates userId etype data write s =
     (case ins of
        Inl e \<Rightarrow> Some (\<lparr>wr_success = False, wr_transactionHash = None, wr_error = Some e\<rparr>, s)
      | Inr i \<Rightarrow>
         (let s1 = insert_log i userId etype data s
          in if \<not> truthy (be_contractAddress env) then Some (\<lparr>wr_success = True, wr_transactionHash = None, wr_error = None\<rparr>, s1)
             else (case write s1 of
                 None \<Rightarrow> None
               | Some (Inr h, s2) \<Rightarrow>
                   Some (\<lparr>wr_success = True, wr_transactionHash = Some h, wr_error = None\<rparr>,
                         if h = [] then s2
                         else update_log updates i (\<lambda>l. l\<lparr>cl_transaction_hash := Some h, cl_status := Log_confirmed\<rparr>) s2)
               | Some (Inl e, s2) \<Rightarrow>
                   Some (\<lparr>wr_success = True, wr_transactionHash = None, wr_error = Some e\<rparr>,
                         update_log updates i (\<lambda>l. l\<lparr>cl_status := Log_failed, cl_error_message := Some e\<rparr>) s2))))"

definition computePedersenCommitment :: "'w chain_service_env \<Rightarrow> string \<Rightarrow> string \<Rightarrow> string" where
  "computePedersenCommitment env data userId = concat (map byte_hex (be_sha256 env (data @ '':'' @ be_hmac env userId)))"

definition getCoarsenedTimestamp :: "millis \<Rightarrow> int" where
  "getCoarsenedTimestamp t = t div (24 * 60 * 60 * 1000) * (24 * 60 * 60)"

text \<open>With the privacy feature only commitments to the user and the event are sent.\<close>

definition write_commitments :: "'w chain_service_env \<Rightarrow> ident \<Rightarrow> json \<Rightarrow> 'w chain_service \<Rightarrow> ((string + string) \<times> 'w chain_service) option" where
  "write_commitments env userId data s =
     invokeContractWithRetry env ''log_commitment''
       [Sc_bytes (computePedersenCommitment env userId userId),
        Sc_bytes (computePedersenCommitment env (json_stringify (be_number env) data) userId),
        Sc_u64 (getCoarsenedTimestamp (be_now env))] None s"

definition write_private_or :: "'w chain_service_env \<Rightarrow> string + bool \<Rightarrow> ident \<Rightarrow> json \<Rightarrow>
    ('w chain_service \<Rightarrow> ((string + string) \<times> 'w chain_service) option) \<Rightarrow> 'w chain_service \<Rightarrow> ((string + string) \<times> 'w chain_service) option" where
  "write_private_or env privacy userId data write s =
     (case privacy of Inl e \<Rightarrow> Some (Inl e, s) | Inr True \<Rightarrow> write_commitments env userId data s | Inr False \<Rightarrow> write s)"

text \<open>Members that are \<open>undefined\<close> are left out of the stored document.\<close>

definition defined_fields :: "(string \<times> json option) list \<Rightarrow> json" where
  "defined_fields kvs = JObj (List.map_filter (\<lambda>(k, v). map_option (Pair k) v) kvs)"

definition field :: "string \<Rightarrow> json \<Rightarrow> json option" where
  "field k j = (case j of JObj kvs \<Rightarrow> map_of kvs k | _ \<Rightarrow> None)"

definition text_or_empty :: "'w chain_service_env \<Rightarrow> json option \<Rightarrow> string" where
  "text_or_empty env v = (case v of None \<Rightarrow> [] | Some JNull \<Rightarrow> [] | Some (JStr s) \<Rightarrow> s | Some j \<Rightarrow> json_stringify (be_number env) j)"

definition stamp :: "'w chain_service_env \<Rightarrow> (string \<times> json option) list" where
  "stamp env = [(''correlationId'', map_option JStr (be_correlationId env)), (''timestamp'', Some (JStr (be_iso env (be_now env))))]"

definition subscription_event :: "'w chain_service_env \<Rightarrow> string \<Rightarrow> memo_operation \<Rightarrow> json \<Rightarrow> json" where
  "subscription_event env subscriptionId op data = defined_fields
     ([(''subscriptionId'', Some (JStr subscriptionId)), (''operation'', Some (JStr (operation_name op))),
       (''subscriptionName'', field ''name'' data), (''price'', field ''price'' data), (''billingCycle'', field ''billing_cycle'' data),
       (''status'', field ''status'' data)] @ stamp env)"

definition encodeSubscriptionArgs :: "'w chain_service_env \<Rightarrow> json \<Rightarrow> scval list" where
  "encodeSubscriptionArgs env ev = map (\<lambda>k. Sc_string (text_or_empty env (field k ev)))
     [''subscriptionId'', ''operation'', ''subscriptionName'', ''price'', ''billingCycle'', ''status'', ''timestamp'']"

definition writeSubscriptionToBlockchain :: "'w chain_service_env \<Rightarrow> memo_operation \<Rightarrow> json \<Rightarrow> 'w chain_service \<Rightarrow>
    ((string + string) \<times> 'w chain_service) option" where
  "writeSubscriptionToBlockchain env op ev s =
     invokeContractWithRetry env (resolveSubscriptionMethod op) (encodeSubscriptionArgs env ev)
       (Some (text_or_empty env (field ''subscriptionId'' ev))) s"

definition syncSubscription :: "'w chain_service_env \<Rightarrow> string + bool \<Rightarrow> string + ident \<Rightarrow> bool \<Rightarrow> ident \<Rightarrow> string \<Rightarrow> memo_operation \<Rightarrow> json \<Rightarrow>
    'w chain_service \<Rightarrow> (write_result \<times> 'w chain_service) option" where
  "syncSubscription env privacy ins updates userId subscriptionId op data s =
     (let ev = subscription_event env subscriptionId op data
      in log_then_write env ins updates userId (''subscription_'' @ operation_name op) ev
           (write_private_or env privacy userId ev (writeSubscriptionToBlockchain env op ev)) s)"

record reminder_payload =
  rp_subscription :: json
  rp_reminderType :: string
  rp_renewalDate :: string
  rp_daysBefore :: int

definition reminder_event :: "'w chain_service_env \<Rightarrow> reminder_payload \<Rightarrow> string list \<Rightarrow> json" where
  "reminder_event env p channels = defined_fields
     ([(''subscriptionId'', field ''id'' (rp_subscription p)), (''subscriptionName'', field ''name'' (rp_subscription p)),
       (''reminderType'', Some (JStr (rp_reminderType p))), (''renewalDate'', Some (JStr (rp_renewalDate p))),
       (''daysBefore'', Some (JNum (of_int (rp_daysBefore p)))), (''price'', field ''price'' (rp_subscription p)),
       (''billingCycle'', field ''billing_cycle'' (rp_subscription p)), (''deliveryChannels'', Some (JArr (map JStr channels)))] @ stamp env)"

definition encodeReminderArgs :: "'w chain_service_env \<Rightarrow> string list \<Rightarrow> json \<Rightarrow> scval list" where
  "encodeReminderArgs env channels ev =
     map (\<lambda>k. Sc_string (text_or_empty env (field k ev))) [''subscriptionId'', ''subscriptionName'', ''reminderType'', ''renewalDate''] @
     [Sc_vec (map Sc_string channels)] @
     map (\<lambda>k. Sc_string (text_or_empty env (field k ev))) [''billingCycle'', ''timestamp'']"

definition logReminderEvent :: "'w chain_service_env \<Rightarrow> string + bool \<Rightarrow> string + ident \<Rightarrow> bool \<Rightarrow> ident \<Rightarrow> reminder_payload \<Rightarrow> string list \<Rightarrow>
    'w chain_service \<Rightarrow> (write_result \<times> 'w chain_service) option" where
  "logReminderEvent env privacy ins updates userId p channels s =
     (let ev = reminder_event env p channels
      in log_then_write env ins updates userId ''reminder_sent'' ev
           (write_private_or env privacy userId ev
              (invokeContractWithRetry env ''record_log'' (encodeReminderArgs env channels ev)
                 (Some (text_or_empty env (field ''subscriptionId'' ev))))) s)"

definition gift_card_event :: "'w chain_service_env \<Rightarrow> string \<Rightarrow> string \<Rightarrow> string \<Rightarrow> json" where
  "gift_card_event env subscriptionId giftCardHash provider = defined_fields
     ([(''subscriptionId'', Some (JStr subscriptionId)), (''giftCardHash'', Some (JStr giftCardHash)), (''provider'', Some (JStr provider)),
       (''eventType'', Some (JStr ''gift_card_attached''))] @ stamp env)"

definition logGiftCardAttached :: "'w chain_service_env \<Rightarrow> string + ident \<Rightarrow> bool \<Rightarrow> ident \<Rightarrow> string \<Rightarrow> string \<Rightarrow> string \<Rightarrow>
    'w chain_service \<Rightarrow> (write_result \<times> 'w chain_service) option" where
  "logGiftCardAttached env ins updates userId subscriptionId giftCardHash provider s =
     log_then_write env ins updates userId ''gift_card_attached'' (gift_card_event env subscriptionId giftCardHash provider)
       (invokeContractWithRetry env ''record_log''
          [Sc_string subscriptionId, Sc_string giftCardHash, Sc_string provider, Sc_string (be_iso env (be_now env))] (Some subscriptionId)) s"

definition storeEncryptedSubscription :: "'w chain_service_env \<Rightarrow> string + ident \<Rightarrow> bool \<Rightarrow> ident \<Rightarrow> string \<Rightarrow> string \<Rightarrow>
    'w chain_service \<Rightarrow> (write_result \<times> 'w chain_service) option" where
  "storeEncryptedSubscription env ins updates userId subscriptionId blob s =
     log_then_write env ins updates userId ''subscription_encrypted_store''
       (defined_fields ([(''subscriptionId'', Some (JStr subscriptionId)), (''encryptedBlob'', Some (JStr blob))] @ stamp env))
       (invokeContractWithRetry env ''store_encrypted_subscription'' [Sc_string subscriptionId, Sc_string blob] None) s"

definition getUserLogs :: "ident \<Rightarrow> nat \<Rightarrow> 'w chain_service \<Rightarrow> chain_log list" where
  "getUserLogs userId limit s = take limit (rev (filter (\<lambda>l. cl_user l = userId) (cs_logs s)))"

text \<open>\<open>sim\<close>: the number the simulation of the call answers with, if any.\<close>

definition recordCommitment :: "'w chain_service_env \<Rightarrow> int option \<Rightarrow> string \<Rightarrow> 'w chain_service \<Rightarrow>
    ((int \<times> string option \<times> string option) \<times> 'w chain_service) option" where
  "recordCommitment env sim commitmentHash s =
     (if \<not> truthy (be_contractAddress env) then Some ((- 1, None, Some ''SOROBAN_CONTRACT_ADDRESS not configured''), s)
      else map_option (\<lambda>(r, s'). case r of
          Inr h \<Rightarrow> ((nullish sim (- 1), Some h, None), s')
        | Inl e \<Rightarrow> ((- 1, None, Some e), s')) (invokeContractWithRetry env ''record_commitment'' [Sc_bytes commitmentHash] None s))"

section \<open>Time to live of contract entries\<close>

definition without_0x :: "string \<Rightarrow> string" where
  "without_0x s = (if startsWith s ''0x'' then drop 2 s else s)"

definition validateEntryKey :: "string \<Rightarrow> bool" where
  "validateEntryKey k \<longleftrightarrow> is_hex (without_0x k) \<and> without_0x k \<noteq> [] \<and> even (length (without_0x k))"

definition validateTTL :: "amount \<Rightarrow> bool" where
  "validateTTL t \<longleftrightarrow> t \<in> \<int> \<and> 0 < t"

definition validateSnapshotHash :: "string \<Rightarrow> bool" where
  "validateSnapshotHash h \<longleftrightarrow> is_hex (without_0x h) \<and> length (without_0x h) = 64"

definition shouldSkipExtendTTL :: "int \<Rightarrow> int \<Rightarrow> bool" where
  "shouldSkipExtendTTL currentTtl newTtl \<longleftrightarrow> newTtl \<le> currentTtl"

text \<open>
  The methods read the name of the contract method from \<open>TTL_CONTRACT_HELPERS.TTL_CONTRACT_METHODS\<close>,
  which the helpers do not export under that name, so after the checks a \<open>TypeError\<close> is thrown.
\<close>

definition missing_member :: string where
  "missing_member = ''Cannot read properties of undefined''"

definition extendTTL :: "(amount \<Rightarrow> string) \<Rightarrow> string \<Rightarrow> amount \<Rightarrow> string + string" where
  "extendTTL num entryKey newTtl =
     (if \<not> validateEntryKey entryKey then Inl (''Invalid entry key: '' @ entryKey)
      else if \<not> validateTTL newTtl then Inl (''Invalid TTL value: '' @ num newTtl)
      else Inl missing_member)"

definition markArchived :: "string \<Rightarrow> string \<Rightarrow> string + string" where
  "markArchived entryKey snapshotHash =
     (if \<not> validateEntryKey entryKey then Inl (''Invalid entry key: '' @ entryKey)
      else if \<not> validateSnapshotHash snapshotHash then Inl (''Invalid snapshot hash: '' @ snapshotHash)
      else Inl missing_member)"

end
