(* ===== verification/ChainClientProps.thy ===== *)
theory ChainClientProps
  imports ChainClient
begin

text \<open>
  What the submission client guarantees: the fees it offers, that it returns, that a transaction
  that moves value lands once on a ledger that answers truthfully, and that an idempotency key
  is executed once.  And where it does not: a transaction that lands late.
\<close>

section \<open>Fees and attempts\<close>

lemma bumpFee_bounds:
  assumes "bumpFee cf fee = Inr fee'" and "1 \<le> cf_multiplier cf" and "0 \<le> fee"
  shows "fee \<le> fee' \<and> fee' \<le> cf_maxFee cf"
proof -
  have "of_int fee * 1 \<le> of_int fee * cf_multiplier cf" by (rule mult_left_mono) (use assms in auto)
  then have "fee \<le> \<lceil>of_int fee * cf_multiplier cf\<rceil>" by (simp add: le_ceiling_iff)
  then show ?thesis using assms(1) by (auto simp: bumpFee_def Let_def split: if_splits)
qed

lemma build_transaction_tx:
  "build_transaction cf rpc p fee st = (Inr tx, st') \<Longrightarrow>
     ct_fee tx = fee \<and> js_get (ch_sequences st') (su_source p) = Some (ct_sequence tx)"
  by (auto simp: build_transaction_def Let_def split: prod.splits sum.splits option.splits)

lemma send_transaction_fee:
  "send_transaction cf rpc p tx st = Some (Continue_with fee', st') \<Longrightarrow> bumpFee cf (ct_fee tx) = Inr fee'"
  by (auto simp: send_transaction_def outcome_of_def Let_def case_prod_beta split: send_answer.splits sum.splits option.splits if_splits)

lemma run_attempt_sent:
  assumes "run_attempt cf rpc p fee st = Some (out, st', sent)"
  shows "length sent \<le> 1 \<and> list_all (\<lambda>tx. ct_fee tx = fee) sent \<and> (\<forall>fee'. out = Continue_with fee' \<longrightarrow> bumpFee cf fee = Inr fee')"
proof -
  obtain r st1 where b: "build_transaction cf rpc p fee st = (r, st1)" by (cases "build_transaction cf rpc p fee st")
  show ?thesis
  proof (cases r)
    case (Inl e)
    then show ?thesis using assms b by (auto simp: run_attempt_def)
  next
    case (Inr tx)
    then have "ct_fee tx = fee" using build_transaction_tx b by metis
    then show ?thesis using assms b Inr send_transaction_fee by (fastforce simp: run_attempt_def)
  qed
qed

lemma recover_fee: "recover cf p a e fee st = (Inr fee', st') \<Longrightarrow> fee' = fee \<or> bumpFee cf fee = Inr fee'"
  by (auto simp: recover_def Let_def split: if_splits sum.splits)

definition within_fees :: "chain_config \<Rightarrow> int \<Rightarrow> chain_tx list \<Rightarrow> bool" where
  "within_fees cf fee sent \<longleftrightarrow> list_all (\<lambda>tx. fee \<le> ct_fee tx \<and> ct_fee tx \<le> cf_maxFee cf) sent \<and> sorted (map ct_fee sent)"

lemma within_fees_append:
  assumes "list_all (\<lambda>tx. ct_fee tx = fee) sent" and "length sent \<le> 1" and "within_fees cf fee' sent'" and "fee \<le> fee'" and "fee' \<le> cf_maxFee cf"
  shows "within_fees cf fee (sent @ sent')"
  using assms by (cases sent) (auto simp: within_fees_def list_all_iff)

text \<open>The loop, one attempt unfolded.\<close>

lemma loop_cases:
  assumes "submission_loop cf rpc p attempt fee st = Some (r, st', sent)"
  obtains (exhausted) "cf_maxRetries cf < attempt" "sent = []" "st' = st" "\<exists>e. r = Inl e"
  | (finished) res where "attempt \<le> cf_maxRetries cf" "run_attempt cf rpc p fee st = Some (Finished res, st', sent)" "r = Inr res"
  | (gave_up) e st1 e' where "attempt \<le> cf_maxRetries cf" "run_attempt cf rpc p fee st = Some (Threw e, st1, sent)"
      "recover cf p attempt e fee st1 = (Inl e', st')" "r = Inl e'"
  | (again) out st1 sent1 fee' st2 sent2 where "attempt \<le> cf_maxRetries cf" "run_attempt cf rpc p fee st = Some (out, st1, sent1)"
      "submission_loop cf rpc p (attempt + 1) fee' st2 = Some (r, st', sent2)" "sent = sent1 @ sent2"
      "out = Continue_with fee' \<and> st2 = st1 \<or>
       (\<exists>e st3. out = Threw e \<and> recover cf p attempt e fee st1 = (Inr fee', st3) \<and>
          st2 = st3\<lparr>ch_world := rpc_sleep rpc (2 ^ nat attempt * 250) (ch_world st3)\<rparr>)"
proof (cases "cf_maxRetries cf < attempt")
  case True
  then show thesis using assms exhausted by (auto simp: submission_loop.simps [of cf])
next
  case False
  with assms obtain out st1 sent1 where a: "run_attempt cf rpc p fee st = Some (out, st1, sent1)"
    by (cases "run_attempt cf rpc p fee st") (auto simp: submission_loop.simps [of cf])
  show thesis
  proof (cases out)
    case (Finished res)
    then show thesis using assms False a finished by (auto simp: submission_loop.simps [of cf _ _ attempt])
  next
    case (Continue_with fee')
    then show thesis using assms False a again [of out st1 sent1 fee' st1] by (auto simp: submission_loop.simps [of cf _ _ attempt])
  next
    case (Threw e)
    obtain q st3 where q: "recover cf p attempt e fee st1 = (q, st3)" by (cases "recover cf p attempt e fee st1")
    show thesis
    proof (cases q)
      case (Inl e')
      then show thesis using assms False a Threw q gave_up by (auto simp: submission_loop.simps [of cf _ _ attempt])
    next
      case (Inr fee')
      then show thesis
        using assms False a Threw q again [of out st1 sent1 fee' "st3\<lparr>ch_world := rpc_sleep rpc (2 ^ nat attempt * 250) (ch_world st3)\<rparr>"]
        by (auto simp: submission_loop.simps [of cf _ _ attempt])
    qed
  qed
qed

lemma loop_fees:
  assumes "submission_loop cf rpc p attempt fee st = Some (r, st', sent)"
    and "1 \<le> cf_multiplier cf" and "0 \<le> fee" and "fee \<le> cf_maxFee cf"
  shows "within_fees cf fee sent \<and> length sent \<le> nat (cf_maxRetries cf + 1 - attempt)"
  using assms
proof (induction "nat (cf_maxRetries cf + 1 - attempt)" arbitrary: attempt fee st sent)
  case 0
  from 0(2) show ?case by (cases rule: loop_cases) (use 0 in \<open>auto simp: within_fees_def\<close>)
next
  case (Suc n)
  have one: "within_fees cf fee s" if "list_all (\<lambda>tx. ct_fee tx = fee) s" "length s \<le> 1" for s
    using within_fees_append [OF that, of cf fee "[]"] Suc.prems(4) by (simp add: within_fees_def)
  from Suc.prems(1) show ?case
  proof (cases rule: loop_cases)
    case exhausted
    then show ?thesis by (simp add: within_fees_def)
  next
    case finished
    then show ?thesis using run_attempt_sent one by fastforce
  next
    case gave_up
    then show ?thesis using run_attempt_sent one by fastforce
  next
    case (again out st1 sent1 fee' st2 sent2)
    have s: "length sent1 \<le> 1" "list_all (\<lambda>tx. ct_fee tx = fee) sent1" using run_attempt_sent [OF again(2)] by simp_all
    have "fee' = fee \<or> bumpFee cf fee = Inr fee'" using again(5) run_attempt_sent [OF again(2)] recover_fee by blast
    then have f: "fee \<le> fee'" "fee' \<le> cf_maxFee cf" using bumpFee_bounds Suc.prems by auto
    have "within_fees cf fee' sent2 \<and> length sent2 \<le> nat (cf_maxRetries cf + 1 - (attempt + 1))"
      using Suc.hyps(2) f Suc.prems by (intro Suc.hyps(1) [OF _ again(3)]) auto
    then show ?thesis using within_fees_append [OF s(2,1)] f s(1) again(1,4) by auto
  qed
qed

lemma submit_executes:
  assumes "submit cf rpc p st = Some (r, st', sent)"
  obtains (cached) res where "js_get (ch_completed st) (the (su_idempotencyKey p)) = Some res" "sent = []" "st' = st"
      "r = Inr (res\<lparr>sr_wasDuplicate := True\<rparr>)"
  | (failed) e where "executeSubmission cf rpc p st = Some (Inl e, st', sent)" "r = Inl e"
  | (unkeyed) res where "executeSubmission cf rpc p st = Some (Inr res, st', sent)" "r = Inr res" "\<not> truthy (su_idempotencyKey p)"
  | (executed) res st1 where "executeSubmission cf rpc p st = Some (Inr res, st1, sent)" "r = Inr res"
      "js_get (ch_completed st) (the (su_idempotencyKey p)) = None"
      "st' = st1\<lparr>ch_completed := js_set (the (su_idempotencyKey p)) res (ch_completed st1)\<rparr>"
proof (cases "truthy (su_idempotencyKey p) \<and> js_get (ch_completed st) (the (su_idempotencyKey p)) \<noteq> None")
  case True
  then show thesis using assms cached by (fastforce simp: submit_def)
next
  case False
  then obtain q st1 x where e: "executeSubmission cf rpc p st = Some (q, st1, x)"
    using assms by (auto simp: submit_def split: if_splits)
  show thesis
  proof (cases q)
    case (Inl e')
    then show thesis using False assms e failed by (auto simp: submit_def split: if_splits)
  next
    case (Inr res)
    then show thesis using False assms e unkeyed executed by (auto simp: submit_def split: if_splits)
  qed
qed

text \<open>
  The fees offered for a call start at the configured fee, never fall, and never exceed the
  maximum that is acceptable; and at most one more transaction is sent than retries are allowed.
\<close>

theorem chain_fees_bounded:
  assumes "submit cf rpc p st = Some (r, st', sent)"
    and "1 \<le> cf_multiplier cf" and "0 \<le> cf_initialFee cf" and "cf_initialFee cf \<le> cf_maxFee cf"
  shows "list_all (\<lambda>tx. cf_initialFee cf \<le> ct_fee tx \<and> ct_fee tx \<le> cf_maxFee cf) sent \<and> sorted (map ct_fee sent) \<and>
     length sent \<le> nat (cf_maxRetries cf + 1)"
proof -
  have "within_fees cf (cf_initialFee cf) sent \<and> length sent \<le> nat (cf_maxRetries cf + 1 - 0)"
    if "executeSubmission cf rpc p st = Some (q, st1, sent)" for q st1
    using that assms(2,3,4) unfolding executeSubmission_def by (rule loop_fees)
  with assms(1) show ?thesis by (cases rule: submit_executes) (auto simp: within_fees_def)
qed

section \<open>Returning\<close>

text \<open>Sleeping advances the clock by at least the time asked for; waiting for an answer never turns it back.\<close>

definition rpc_clock_ok :: "'w chain_rpc \<Rightarrow> bool" where
  "rpc_clock_ok rpc \<longleftrightarrow> (\<forall>n w. 0 \<le> n \<longrightarrow> rpc_now rpc w + n \<le> rpc_now rpc (rpc_sleep rpc n w)) \<and>
     (\<forall>h w. rpc_now rpc w \<le> rpc_now rpc (snd (rpc_getTransaction rpc h w)))"

lemma wait_returns:
  assumes "rpc_clock_ok rpc"
  shows "\<exists>r. wait_loop cf rpc h t w = Some r"
proof (induction "nat (cf_timeoutMs cf - (rpc_now rpc w - t))" arbitrary: w rule: less_induct)
  case less
  obtain a w1 where g: "rpc_getTransaction rpc h w = (a, w1)" by (cases "rpc_getTransaction rpc h w")
  have "rpc_now rpc w \<le> rpc_now rpc w1" using assms g unfolding rpc_clock_ok_def by (metis snd_conv)
  moreover have "rpc_now rpc w1 + 500 \<le> rpc_now rpc (rpc_sleep rpc 500 w1)" using assms unfolding rpc_clock_ok_def by simp
  ultimately have "\<exists>r. wait_loop cf rpc h t (rpc_sleep rpc 500 w1) = Some r" if "rpc_now rpc w - t < cf_timeoutMs cf"
    using that by (intro less) linarith
  then show ?case by (subst wait_loop.simps) (auto simp: g split: sum.split tx_status.split)
qed

lemma confirmation_returns: "rpc_clock_ok rpc \<Longrightarrow> waitForConfirmation cf rpc h w \<noteq> None"
  using wait_returns [of rpc cf h "rpc_now rpc w" w] by (auto simp: waitForConfirmation_def)

lemma run_attempt_returns:
  assumes "rpc_clock_ok rpc"
  shows "run_attempt cf rpc p fee st \<noteq> None"
proof -
  have "send_transaction cf rpc p tx st1 \<noteq> None" for tx st1
  proof -
    obtain a w where a: "rpc_send rpc tx (ch_world st1) = (a, w)" by (cases "rpc_send rpc tx (ch_world st1)")
    show ?thesis
    proof (cases a)
      case (Send_ok h)
      obtain r w1 where "waitForConfirmation cf rpc (str_or h (rpc_hash rpc tx)) w = Some (r, w1)"
        using confirmation_returns [OF assms] by (metis option.exhaust prod.collapse)
      then show ?thesis using a Send_ok by (cases r) (simp_all add: send_transaction_def Let_def case_prod_beta)
    qed (auto simp: send_transaction_def a Let_def case_prod_beta split: sum.split)
  qed
  then show ?thesis by (auto simp: run_attempt_def split: sum.split prod.split)
qed

lemma loop_returns:
  assumes "rpc_clock_ok rpc"
  shows "submission_loop cf rpc p attempt fee st \<noteq> None"
proof (induction "nat (cf_maxRetries cf + 1 - attempt)" arbitrary: attempt fee st)
  case 0
  then show ?case by (simp add: submission_loop.simps [of cf])
next
  case (Suc n)
  then have "submission_loop cf rpc p (attempt + 1) f s \<noteq> None" for f s by (intro Suc.hyps) simp
  moreover have "run_attempt cf rpc p fee st \<noteq> None" using assms by (rule run_attempt_returns)
  ultimately show ?case
    by (subst submission_loop.simps) (auto split: attempt_outcome.splits prod.splits sum.splits)
qed

lemma submit_returns:
  assumes "rpc_clock_ok rpc"
  shows "\<exists>r st' sent. submit cf rpc p st = Some (r, st', sent)"
proof -
  obtain x where "executeSubmission cf rpc p st = Some x"
    using loop_returns [OF assms] unfolding executeSubmission_def by blast
  then show ?thesis by (cases x; cases "fst x") (auto simp: submit_def split: option.splits)
qed

text \<open>
  Submitting a call always returns, with a result or an error, when the clock advances while
  it sleeps: neither waiting for a confirmation nor retrying goes on forever.
\<close>

theorem submission_returns:
  assumes "rpc_clock_ok rpc"
  shows "\<exists>r st' sent. submit cf rpc p st = Some (r, st', sent)"
  by (rule submit_returns [OF assms])

section \<open>Landing once\<close>

text \<open>
  A ledger that answers truthfully and at once: \<open>landed\<close> are the hashes of the transactions that
  took effect.  A transaction takes effect when it is sent or never; when sending fails without a
  timeout it has not; and the server tells, without an error, whether a transaction took effect.
\<close>

definition quiet :: "('w \<Rightarrow> string set) \<Rightarrow> ('w \<Rightarrow> 'w) \<Rightarrow> bool" where
  "quiet landed f \<longleftrightarrow> (\<forall>w. landed (f w) = landed w)"

definition send_law :: "'w chain_rpc \<Rightarrow> ('w \<Rightarrow> string set) \<Rightarrow> bool" where
  "send_law rpc landed \<longleftrightarrow> (\<forall>tx w. case rpc_send rpc tx w of
      (Send_ok h, w') \<Rightarrow> str_or h (rpc_hash rpc tx) = rpc_hash rpc tx \<and>
         (landed w' = landed w \<or> landed w' = insert (rpc_hash rpc tx) (landed w))
    | (Send_error m, w') \<Rightarrow> landed w' = landed w
    | (Send_threw m, w') \<Rightarrow> landed w' = landed w \<or>
         isTimeoutError (Chain_failure m) \<and> landed w' = insert (rpc_hash rpc tx) (landed w))"

definition truthful_law :: "'w chain_rpc \<Rightarrow> ('w \<Rightarrow> string set) \<Rightarrow> bool" where
  "truthful_law rpc landed \<longleftrightarrow> (\<forall>h w. fst (rpc_getTransaction rpc h w) = Inr Tx_success \<longleftrightarrow> h \<in> landed w)"

definition prompt_ledger :: "'w chain_rpc \<Rightarrow> ('w \<Rightarrow> string set) \<Rightarrow> bool" where
  "prompt_ledger rpc landed \<longleftrightarrow>
     (\<forall>pk. quiet landed (\<lambda>w. snd (rpc_getAccount rpc pk w))) \<and> (\<forall>tx. quiet landed (\<lambda>w. snd (rpc_simulate rpc tx w))) \<and>
     (\<forall>n. quiet landed (rpc_sleep rpc n)) \<and> (\<forall>h. quiet landed (\<lambda>w. snd (rpc_getTransaction rpc h w))) \<and>
     send_law rpc landed \<and> truthful_law rpc landed"

lemma prompt_quiet:
  assumes "prompt_ledger rpc landed"
  shows "landed (snd (rpc_getAccount rpc pk w)) = landed w" "landed (snd (rpc_simulate rpc tx w)) = landed w"
    "landed (rpc_sleep rpc n w) = landed w" "landed (snd (rpc_getTransaction rpc h w)) = landed w"
  using assms unfolding prompt_ledger_def quiet_def by simp_all

lemma prompt_get:
  assumes "prompt_ledger rpc landed" and "rpc_getTransaction rpc h w = (a, w1)"
  shows "landed w1 = landed w \<and> (a = Inr Tx_success \<longleftrightarrow> h \<in> landed w)"
proof
  show "landed w1 = landed w" using prompt_quiet(4) [OF assms(1), of h w] assms(2) by simp
  have "truthful_law rpc landed" using assms(1) unfolding prompt_ledger_def by blast
  then show "a = Inr Tx_success \<longleftrightarrow> h \<in> landed w" using assms(2) unfolding truthful_law_def by (metis fst_conv)
qed

lemma build_quiet:
  assumes "prompt_ledger rpc landed"
  shows "landed (ch_world (snd (build_transaction cf rpc p fee st))) = landed (ch_world st)"
proof -
  have s: "landed (ch_world (snd (getOrFetchSequence rpc pk st'))) = landed (ch_world st')" for pk st'
  proof (cases "js_get (ch_sequences st') pk")
    case None
    obtain a w where "rpc_getAccount rpc pk (ch_world st') = (a, w)" by (cases "rpc_getAccount rpc pk (ch_world st')")
    then show ?thesis using None prompt_quiet(1) [OF assms, of pk "ch_world st'"]
      by (cases a) (simp_all add: getOrFetchSequence_def)
  qed (simp add: getOrFetchSequence_def)
  obtain r st1 where g: "getOrFetchSequence rpc (su_source p) st = (r, st1)" by (cases "getOrFetchSequence rpc (su_source p) st")
  have l: "landed (ch_world st1) = landed (ch_world st)" using s [of "su_source p" st] g by simp
  show ?thesis
  proof (cases r)
    case (Inl e)
    then show ?thesis using l unfolding build_transaction_def g by simp
  next
    case (Inr seq)
    define tx where "tx = \<lparr>ct_source = su_source p, ct_call = (if truthy (su_contract p) then Some (the (su_contract p), su_method p, su_args p) else None),
       ct_memo = (if truthy (su_memo p) then su_memo p else None), ct_fee = fee, ct_sequence = seq + 1, ct_timeoutSeconds = cf_timeoutMs cf div 1000\<rparr>"
    obtain a w where a: "rpc_simulate rpc tx (ch_world st1) = (a, w)" by (cases "rpc_simulate rpc tx (ch_world st1)")
    have "landed w = landed (ch_world st)" using prompt_quiet(2) [OF assms, of tx "ch_world st1"] l a by simp
    then show ?thesis unfolding build_transaction_def g Inr prod.case sum.case Let_def tx_def [symmetric] a
      by (auto split: sum.split option.split)
  qed
qed

lemma wait_verdict:
  assumes pl: "prompt_ledger rpc landed" and ret: "wait_loop cf rpc h t w = Some (r, w1)"
  shows "landed w1 = landed w \<and> (case r of Inr s \<Rightarrow> s = ''SUCCESS'' \<and> h \<in> landed w | Inl e \<Rightarrow> h \<in> landed w \<longrightarrow> isTimeoutError e)"
proof -
  have "rpc' = rpc \<longrightarrow> landed (snd x) = landed w \<and>
      (case fst x of Inr s \<Rightarrow> s = ''SUCCESS'' \<and> h \<in> landed w | Inl e \<Rightarrow> h \<in> landed w \<longrightarrow> isTimeoutError e)"
    if "wait_loop cf rpc' h t w = Some x" for rpc' x w
  proof (rule wait_loop.raw_induct [where P = "\<lambda>cf rpc' h t w x. rpc' = rpc \<longrightarrow> landed (snd x) = landed w \<and>
      (case fst x of Inr s \<Rightarrow> s = ''SUCCESS'' \<and> h \<in> landed w | Inl e \<Rightarrow> h \<in> landed w \<longrightarrow> isTimeoutError e)", OF _ that], rule impI)
    fix f cf rpc' h t w x
    assume IH: "\<And>cf rpc' h t w x. f cf rpc' h t w = Some x \<Longrightarrow> rpc' = rpc \<longrightarrow> landed (snd x) = landed w \<and>
      (case fst x of Inr s \<Rightarrow> s = ''SUCCESS'' \<and> h \<in> landed w | Inl e \<Rightarrow> h \<in> landed w \<longrightarrow> isTimeoutError e)"
      and eq: "(if rpc_now rpc' w - t < cf_timeoutMs cf then
        (case rpc_getTransaction rpc' h w of
           (Inl e, w1) \<Rightarrow> Some (Inl (Chain_failure e), w1)
         | (Inr Tx_success, w1) \<Rightarrow> Some (Inr ''SUCCESS'', w1)
         | (Inr Tx_failed, w1) \<Rightarrow> Some (Inl (Chain_failure (''Transaction failed on-chain: '' @ h)), w1)
         | (Inr Tx_not_found, w1) \<Rightarrow> f cf rpc' h t (rpc_sleep rpc' 500 w1))
      else Some (Inl (Ambiguous_timeout (''Timeout waiting for transaction confirmation: '' @ h) h), w)) = Some x"
      and r: "rpc' = rpc"
    obtain a w1 where g: "rpc_getTransaction rpc h w = (a, w1)" by (cases "rpc_getTransaction rpc h w")
    note v = prompt_get [OF pl g] and z = prompt_quiet(3) [OF pl, of 500 w1]
    show "landed (snd x) = landed w \<and>
      (case fst x of Inr s \<Rightarrow> s = ''SUCCESS'' \<and> h \<in> landed w | Inl e \<Rightarrow> h \<in> landed w \<longrightarrow> isTimeoutError e)"
    proof (cases "rpc_now rpc w - t < cf_timeoutMs cf")
      case False
      then show ?thesis using eq by (auto simp: r)
    next
      case True
      note eq1 = eq [unfolded r if_P [OF True] g prod.case]
      show ?thesis
      proof (cases a)
        case (Inl e)
        then have "x = (Inl (Chain_failure e), w1)" using eq1 by simp
        then show ?thesis using v Inl by simp
      next
        case (Inr s)
        show ?thesis
        proof (cases s)
          case Tx_success
          then have "x = (Inr ''SUCCESS'', w1)" using eq1 Inr by simp
          then show ?thesis using v Inr Tx_success by simp
        next
          case Tx_failed
          then have "x = (Inl (Chain_failure (''Transaction failed on-chain: '' @ h)), w1)" using eq1 Inr by simp
          then show ?thesis using v Inr Tx_failed by simp
        next
          case Tx_not_found
          then have "f cf rpc h t (rpc_sleep rpc 500 w1) = Some x" using eq1 Inr by simp
          from IH [OF this] show ?thesis using v z by (cases "fst x") simp_all
        qed
      qed
    qed
  qed
  from this [OF ret] show ?thesis by simp
qed

text \<open>What an attempt leaves behind: exactly the transaction it reports as successful.\<close>

definition settled_by :: "('w \<Rightarrow> string set) \<Rightarrow> string set \<Rightarrow> attempt_outcome \<Rightarrow> 'w \<Rightarrow> bool" where
  "settled_by landed before out w \<longleftrightarrow>
     landed w = (case out of
         Finished res \<Rightarrow> if sr_status res = ''SUCCESS'' then insert (sr_transactionHash res) before else before
       | _ \<Rightarrow> before)"

lemma fate_settles:
  assumes pl: "prompt_ledger rpc landed" and "fate_after rpc (rpc_hash rpc tx) e w = (r, w')"
    and "landed w = before \<or> isTimeoutError e \<and> landed w = insert (rpc_hash rpc tx) before"
  shows "settled_by landed before (outcome_of tx (rpc_hash rpc tx) r) w'"
proof -
  obtain a w1 where g: "rpc_getTransaction rpc (rpc_hash rpc tx) w = (a, w1)" by (cases "rpc_getTransaction rpc (rpc_hash rpc tx) w")
  show ?thesis using assms(2,3) prompt_get [OF pl g]
    by (auto simp: fate_after_def queryLedgerFate_def g settled_by_def outcome_of_def submission_result_of_def
        split: if_splits sum.splits tx_status.splits)
qed

lemma attempt_settles:
  assumes pl: "prompt_ledger rpc landed" and run: "run_attempt cf rpc p fee st = Some (out, st', sent)"
  shows "settled_by landed (landed (ch_world st)) out (ch_world st')"
proof -
  obtain b st1 where b: "build_transaction cf rpc p fee st = (b, st1)" by (cases "build_transaction cf rpc p fee st")
  have l1: "landed (ch_world st1) = landed (ch_world st)" using build_quiet [OF pl, of cf p fee st] b by simp
  show ?thesis
  proof (cases b)
    case (Inl e)
    have "out = Threw e" "st' = st1" using run unfolding run_attempt_def b Inl by simp_all
    then show ?thesis by (simp add: settled_by_def l1)
  next
    case (Inr tx)
    have snt: "send_transaction cf rpc p tx st1 = Some (out, st')" using run unfolding run_attempt_def b Inr by auto
    obtain a w where a: "rpc_send rpc tx (ch_world st1) = (a, w)" by (cases "rpc_send rpc tx (ch_world st1)")
    have "send_law rpc landed" using pl unfolding prompt_ledger_def by blast
    note law = spec [OF spec [OF this [unfolded send_law_def], where x = tx], where x = "ch_world st1", unfolded a prod.case]
    show ?thesis
    proof (cases a)
      case (Send_threw m)
      obtain r w1 where f: "fate_after rpc (rpc_hash rpc tx) (Chain_failure m) w = (r, w1)"
        by (cases "fate_after rpc (rpc_hash rpc tx) (Chain_failure m) w")
      have "out = outcome_of tx (rpc_hash rpc tx) r" "ch_world st' = w1"
        using snt unfolding send_transaction_def a Send_threw by (auto simp: f Let_def)
      moreover have "settled_by landed (landed (ch_world st1)) (outcome_of tx (rpc_hash rpc tx) r) w1"
        using law unfolding Send_threw by (intro fate_settles [OF pl f]) simp
      ultimately show ?thesis by (simp add: l1)
    next
      case (Send_error m)
      have "landed w = landed (ch_world st)" using law l1 unfolding Send_error by simp
      moreover have "\<forall>res. out \<noteq> Finished res" "ch_world st' = w"
        using snt unfolding send_transaction_def a Send_error
        by (auto simp: Let_def invalidateSequence_def split: if_splits sum.splits)
      ultimately show ?thesis by (cases out) (simp_all add: settled_by_def)
    next
      case (Send_ok h)
      have h: "str_or h (rpc_hash rpc tx) = rpc_hash rpc tx"
        and lw: "landed w = landed (ch_world st1) \<or> landed w = insert (rpc_hash rpc tx) (landed (ch_world st1))"
        using law unfolding Send_ok by simp_all
      obtain r w1 where wt: "waitForConfirmation cf rpc (rpc_hash rpc tx) w = Some (r, w1)"
        using snt unfolding send_transaction_def a Send_ok prod.case send_answer.case h
        by (cases "waitForConfirmation cf rpc (rpc_hash rpc tx) w") auto
      have v: "landed w1 = landed w \<and> (case r of Inr s \<Rightarrow> s = ''SUCCESS'' \<and> rpc_hash rpc tx \<in> landed w
          | Inl e \<Rightarrow> rpc_hash rpc tx \<in> landed w \<longrightarrow> isTimeoutError e)"
        using wait_verdict [OF pl] wt unfolding waitForConfirmation_def by blast
      show ?thesis
      proof (cases r)
        case (Inl e)
        obtain q w2 where f: "fate_after rpc (rpc_hash rpc tx) e w1 = (q, w2)" by (cases "fate_after rpc (rpc_hash rpc tx) e w1")
        have "out = outcome_of tx (rpc_hash rpc tx) q" "ch_world st' = w2"
          using snt unfolding send_transaction_def a Send_ok prod.case send_answer.case h Let_def wt Inl by (auto simp: f)
        moreover have "settled_by landed (landed (ch_world st1)) (outcome_of tx (rpc_hash rpc tx) q) w2"
          using v lw Inl by (intro fate_settles [OF pl f]) (auto simp: insert_absorb)
        ultimately show ?thesis by (simp add: l1)
      next
        case (Inr status)
        have "out = Finished (submission_result_of tx (rpc_hash rpc tx) status)" "ch_world st' = w1"
          using snt unfolding send_transaction_def a Send_ok prod.case send_answer.case h Let_def wt Inr by auto
        then show ?thesis using v lw l1 Inr by (auto simp: settled_by_def submission_result_of_def insert_absorb)
      qed
    qed
  qed
qed

lemma recover_world: "recover cf p a e fee st = (r, st') \<Longrightarrow> ch_world st' = ch_world st"
  by (auto simp: recover_def Let_def invalidateSequence_def split: if_splits sum.splits)

lemma loop_settles:
  assumes pl: "prompt_ledger rpc landed" and "submission_loop cf rpc p attempt fee st = Some (r, st', sent)"
  shows "settled_by landed (landed (ch_world st)) (case r of Inl e \<Rightarrow> Threw e | Inr res \<Rightarrow> Finished res) (ch_world st')"
  using assms(2)
proof (induction "nat (cf_maxRetries cf + 1 - attempt)" arbitrary: attempt fee st sent)
  case 0
  from 0(2) show ?case by (cases rule: loop_cases) (use 0 in \<open>auto simp: settled_by_def\<close>)
next
  case (Suc n)
  from Suc.prems show ?case
  proof (cases rule: loop_cases)
    case exhausted
    then show ?thesis by (auto simp: settled_by_def)
  next
    case (finished res)
    then show ?thesis using attempt_settles [OF pl finished(2)] by simp
  next
    case (gave_up e st1 e')
    then show ?thesis using attempt_settles [OF pl gave_up(2)] recover_world [OF gave_up(3)] by (simp add: settled_by_def)
  next
    case (again out st1 sent1 fee' st2 sent2)
    have "landed (ch_world st2) = landed (ch_world st1)"
      using again(5)
    proof
      assume "\<exists>e st3. out = Threw e \<and> recover cf p attempt e fee st1 = (Inr fee', st3) \<and>
          st2 = st3\<lparr>ch_world := rpc_sleep rpc (2 ^ nat attempt * 250) (ch_world st3)\<rparr>"
      then obtain e st3 where "recover cf p attempt e fee st1 = (Inr fee', st3)"
        and 2: "st2 = st3\<lparr>ch_world := rpc_sleep rpc (2 ^ nat attempt * 250) (ch_world st3)\<rparr>" by blast
      from recover_world [OF this(1)] show ?thesis by (simp add: 2 prompt_quiet(3) [OF pl])
    qed simp
    moreover have "landed (ch_world st1) = landed (ch_world st)"
      using attempt_settles [OF pl again(2)] again(5) by (cases out) (simp_all add: settled_by_def)
    moreover have "settled_by landed (landed (ch_world st2)) (case r of Inl e \<Rightarrow> Threw e | Inr res \<Rightarrow> Finished res) (ch_world st')"
      using Suc.hyps(2) by (intro Suc.hyps(1) [OF _ again(3)]) auto
    ultimately show ?thesis by simp
  qed
qed


section \<open>One execution per key\<close>

lemma build_completed:
  assumes "build_transaction cf rpc p fee st = (r, st')"
  shows "ch_completed st' = ch_completed st"
proof -
  obtain q st1 where g: "getOrFetchSequence rpc (su_source p) st = (q, st1)" by (cases "getOrFetchSequence rpc (su_source p) st")
  have "ch_completed st1 = ch_completed st"
    using g unfolding getOrFetchSequence_def by (auto split: option.splits prod.splits sum.splits)
  then show ?thesis using assms unfolding build_transaction_def g by (auto simp: Let_def split: sum.splits prod.splits option.splits)
qed

lemma send_completed:
  assumes "send_transaction cf rpc p tx st = Some (out, st')"
  shows "ch_completed st' = ch_completed st"
proof -
  obtain a w where a: "rpc_send rpc tx (ch_world st) = (a, w)" by (cases "rpc_send rpc tx (ch_world st)")
  show ?thesis using assms unfolding send_transaction_def a
    by (auto simp: Let_def case_prod_beta invalidateSequence_def split: send_answer.splits sum.splits option.splits if_splits)
qed

lemma run_attempt_completed:
  assumes "run_attempt cf rpc p fee st = Some (out, st', sent)"
  shows "ch_completed st' = ch_completed st"
proof -
  obtain b st1 where b: "build_transaction cf rpc p fee st = (b, st1)" by (cases "build_transaction cf rpc p fee st")
  show ?thesis using assms build_completed [OF b] send_completed unfolding run_attempt_def b by (fastforce split: sum.splits)
qed

lemma submit_keeps_completed:
  assumes "submit cf rpc p st = Some (r, st', sent)" and "js_get (ch_completed st) k = Some res"
  shows "js_get (ch_completed st') k = Some res"
proof -
  have exec: "ch_completed st1 = ch_completed st0" if "submission_loop cf rpc p a fee st0 = Some (q, st1, s)" for a fee st0 q st1 s
    using that
  proof (induction "nat (cf_maxRetries cf + 1 - a)" arbitrary: a fee st0 s)
    case 0
    from 0(2) show ?case by (cases rule: loop_cases) (use 0 in auto)
  next
    case (Suc n)
    have att: "ch_completed y = ch_completed x" if "run_attempt cf rpc p f x = Some (out, y, z)" for f x out y z
      using run_attempt_completed [OF that] .
    have rec: "ch_completed y = ch_completed x" if "recover cf p a e f x = (z, y)" for e f x z y
      using that by (auto simp: recover_def Let_def invalidateSequence_def split: if_splits sum.splits)
    from Suc.prems show ?case
    proof (cases rule: loop_cases)
      case (again out st1 sent1 fee' st2 sent2)
      have "ch_completed st2 = ch_completed st0" using again(5) att [OF again(2)] by (auto dest!: rec)
      then show ?thesis using Suc.hyps(1) [OF _ again(3)] Suc.hyps(2) by simp
    next
      case (finished res)
      then show ?thesis using att by blast
    next
      case (gave_up e st2 e')
      then show ?thesis using att [OF gave_up(2)] rec [OF gave_up(3)] by simp
    qed simp
  qed
  from assms(1) show ?thesis
  proof (cases rule: submit_executes)
    case (executed res1 st1)
    then show ?thesis using exec assms(2) by (auto simp: executeSubmission_def)
  qed (use exec assms(2) in \<open>auto simp: executeSubmission_def\<close>)
qed

fun submit_all :: "chain_config \<Rightarrow> 'w chain_rpc \<Rightarrow> submission_params list \<Rightarrow> 'w chain_state \<Rightarrow> 'w chain_state option" where
  "submit_all cf rpc [] st = Some st"
| "submit_all cf rpc (p # ps) st =
     (case submit cf rpc p st of None \<Rightarrow> None | Some (_, st', _) \<Rightarrow> submit_all cf rpc ps st')"

lemma submit_all_keeps:
  "submit_all cf rpc ps st = Some st' \<Longrightarrow> js_get (ch_completed st) k = Some res \<Longrightarrow> js_get (ch_completed st') k = Some res"
  by (induction ps arbitrary: st) (auto split: option.splits dest: submit_keeps_completed)

text \<open>
  C23: Once a call with an idempotency key has succeeded, another call with that key sends nothing
  and answers with the same transaction, marked as a duplicate, whatever was submitted in between
  and whatever the method and arguments of the second call.
\<close>

theorem key_executed_once:
  assumes "submit cf rpc p st = Some (Inr res, st1, sent)"
    and "su_idempotencyKey p = Some k" and "k \<noteq> []" and "submit_all cf rpc ps st1 = Some st2"
    and "su_idempotencyKey q = Some k"
  shows "submit cf rpc q st2 = Some (Inr (res\<lparr>sr_wasDuplicate := True\<rparr>), st2, [])"
proof -
  obtain r where r: "js_get (ch_completed st1) k = Some r" "r\<lparr>sr_wasDuplicate := True\<rparr> = res\<lparr>sr_wasDuplicate := True\<rparr>"
    using assms(1) by (cases rule: submit_executes) (use assms(2,3) in auto)
  have "js_get (ch_completed st2) k = Some r" using submit_all_keeps [OF assms(4)] r(1) .
  then show ?thesis using assms(3,5) r(2) by (simp add: submit_def)
qed

text \<open>Overlapping callers: the trace, newest event first.\<close>

datatype flight_event = Began string flight_answer | Ended string "chain_error + submission_result"

inductive flight_run :: "flight_event list \<Rightarrow> flight_state \<Rightarrow> bool" where
  started: "flight_run [] \<lparr>fl_inflight = [], fl_completed = []\<rparr>"
| began: "flight_run es s \<Longrightarrow> submit_begin k s = (a, s') \<Longrightarrow> flight_run (Began k a # es) s'"
| ended: "flight_run es s \<Longrightarrow> k \<in> set (fl_inflight s) \<Longrightarrow> flight_run (Ended k r # es) (submit_end k r s)"

definition executions :: "string \<Rightarrow> flight_event list \<Rightarrow> nat" where
  "executions k es = length (filter (\<lambda>e. e = Began k Started) es)"

fun failed_end :: "string \<Rightarrow> flight_event \<Rightarrow> bool" where
  "failed_end k (Ended k' (Inl e)) \<longleftrightarrow> k' = k"
| "failed_end k _ \<longleftrightarrow> False"

definition failures :: "string \<Rightarrow> flight_event list \<Rightarrow> nat" where
  "failures k es = length (filter (failed_end k) es)"

lemma flight_count:
  assumes "flight_run es s"
  shows "executions k es = failures k es + (if k \<in> set (fl_inflight s) \<or> js_get (fl_completed s) k \<noteq> None then 1 else 0) \<and>
     \<not> (k \<in> set (fl_inflight s) \<and> js_get (fl_completed s) k \<noteq> None)"
  using assms
proof induction
  case started
  then show ?case by (simp add: executions_def failures_def)
next
  case (began es s k' a s')
  then show ?case
    by (auto simp: executions_def failures_def submit_begin_def split: option.splits if_splits)
next
  case (ended es s k' r)
  then show ?case
    by (cases r) (auto simp: executions_def failures_def submit_end_def split: if_splits)
qed

text \<open>
  Callers with the same key that overlap do not execute it twice: in every history of callers
  that begin and executions that end, a key is executed at most once more than it has failed, so at
  most one execution is under way and none starts after one has succeeded.
\<close>

theorem single_flight:
  assumes "flight_run es s"
  shows "executions k es \<le> failures k es + 1"
  using flight_count [OF assms, of k] by auto

section \<open>A ledger\<close>

text \<open>
  A ledger for the witnesses.  It accepts the next sequence number only, and what happens to the
  transactions it is sent is written in a script: they land, they land although sending times out,
  they are refused for their fee, or sending times out and they stay in a pool.  With \<open>late\<close> the pool
  lands while the client sleeps.
\<close>

datatype fate = Lands | Lands_silently | Low_fee | Pooled

record ledger_world =
  lw_sequence :: int
  lw_landed :: "string list"
  lw_pool :: "string list"
  lw_now :: int
  lw_script :: "fate list"

definition ledger_hash :: "chain_tx \<Rightarrow> string" where
  "ledger_hash tx = ''tx'' @ show_int (ct_sequence tx)"

definition land :: "chain_tx \<Rightarrow> ledger_world \<Rightarrow> ledger_world" where
  "land tx w = w\<lparr>lw_sequence := ct_sequence tx, lw_landed := ledger_hash tx # lw_landed w\<rparr>"

definition ledger_send :: "chain_tx \<Rightarrow> ledger_world \<Rightarrow> send_answer \<times> ledger_world" where
  "ledger_send tx w =
     (let w1 = w\<lparr>lw_script := tl (lw_script w)\<rparr>
      in if ct_sequence tx \<noteq> lw_sequence w + 1 then (Send_error ''tx_bad_seq'', w)
         else (case (case lw_script w of [] \<Rightarrow> Lands | f # _ \<Rightarrow> f) of
             Lands \<Rightarrow> (Send_ok None, land tx w1)
           | Lands_silently \<Rightarrow> (Send_threw ''timeout of 30000ms exceeded'', land tx w1)
           | Low_fee \<Rightarrow> (Send_error ''tx_insufficient_fee'', w1)
           | Pooled \<Rightarrow> (Send_threw ''timeout of 30000ms exceeded'', w1\<lparr>lw_sequence := ct_sequence tx, lw_pool := ledger_hash tx # lw_pool w\<rparr>)))"

definition ledger_rpc :: "bool \<Rightarrow> ledger_world chain_rpc" where
  "ledger_rpc late = \<lparr>rpc_getAccount = (\<lambda>pk w. (Inr (lw_sequence w), w)), rpc_simulate = (\<lambda>tx w. (Inr None, w)),
     rpc_send = ledger_send,
     rpc_getTransaction = (\<lambda>h w. (Inr (if List.member (lw_landed w) h then Tx_success else Tx_not_found), w)),
     rpc_now = lw_now,
     rpc_sleep = (\<lambda>n w. w\<lparr>lw_now := lw_now w + n, lw_landed := (if late then lw_pool w else []) @ lw_landed w\<rparr>),
     rpc_hash = ledger_hash\<rparr>"

definition fresh_ledger :: "fate list \<Rightarrow> ledger_world chain_state" where
  "fresh_ledger fs = \<lparr>ch_sequences = [], ch_completed = [], ch_world = \<lparr>lw_sequence = 7, lw_landed = [], lw_pool = [], lw_now = 0, lw_script = fs\<rparr>\<rparr>"

definition demo_submission :: submission_params where
  "demo_submission = \<lparr>su_source = ''G'', su_contract = Some ''C'', su_method = ''update_subscription'', su_args = [Sc_string ''s1''],
     su_memo = None, su_idempotencyKey = Some ''s1:update_subscription''\<rparr>"

definition demo_chain_config :: chain_config where
  "demo_chain_config = newChainClient None None None None None"

lemma ledger_prompt: "prompt_ledger (ledger_rpc False) (\<lambda>w. set (lw_landed w))"
proof -
  have "isTimeoutError (Chain_failure ''timeout of 30000ms exceeded'')" by code_simp
  then show ?thesis
    unfolding prompt_ledger_def quiet_def send_law_def truthful_law_def
    by (auto simp: ledger_rpc_def ledger_send_def land_def Let_def split: list.splits fate.splits)
qed

lemma ledger_clock_ok: "rpc_clock_ok (ledger_rpc late)"
  by (simp add: rpc_clock_ok_def ledger_rpc_def)

definition demo_answer :: "fate list \<Rightarrow> (chain_error + submission_result) \<times> ledger_world chain_state \<times> chain_tx list" where
  "demo_answer fs = the (submit demo_chain_config (ledger_rpc False) demo_submission (fresh_ledger fs))"

lemma demo_answer: "submit demo_chain_config (ledger_rpc False) demo_submission (fresh_ledger [Low_fee, Lands_silently]) =
    Some (fst (demo_answer [Low_fee, Lands_silently]), fst (snd (demo_answer [Low_fee, Lands_silently])), snd (snd (demo_answer [Low_fee, Lands_silently])))"
proof -
  have "case submit demo_chain_config (ledger_rpc False) demo_submission (fresh_ledger [Low_fee, Lands_silently]) of None \<Rightarrow> False | Some _ \<Rightarrow> True"
    by code_simp
  then show ?thesis by (auto simp: demo_answer_def split: option.splits)
qed

text \<open>The raised fee is offered with a number the ledger refuses, because the first one was not used up.\<close>

lemma demo_sent: "map (\<lambda>tx. (ct_fee tx, ct_sequence tx)) (snd (snd (demo_answer [Low_fee, Lands_silently]))) = [(100, 8), (150, 9), (150, 8)]"
  by code_simp

theorem chain_fees_bounded_witness:
  "list_all (\<lambda>tx. cf_initialFee demo_chain_config \<le> ct_fee tx \<and> ct_fee tx \<le> cf_maxFee demo_chain_config)
      (snd (snd (demo_answer [Low_fee, Lands_silently]))) \<and>
   sorted (map ct_fee (snd (snd (demo_answer [Low_fee, Lands_silently])))) \<and>
   length (snd (snd (demo_answer [Low_fee, Lands_silently]))) \<le> nat (cf_maxRetries demo_chain_config + 1)"
  by (rule chain_fees_bounded [OF demo_answer]) (simp_all add: demo_chain_config_def newChainClient_def)

theorem submission_returns_witness:
  "\<exists>r st' sent. submit demo_chain_config (ledger_rpc True) demo_submission (fresh_ledger [Pooled]) = Some (r, st', sent)"
  by (rule submission_returns [OF ledger_clock_ok])

definition demo_execution :: "(chain_error + submission_result) \<times> ledger_world chain_state \<times> chain_tx list" where
  "demo_execution = the (executeSubmission demo_chain_config (ledger_rpc False) demo_submission (fresh_ledger [Pooled, Lands_silently]))"

lemma demo_execution: "executeSubmission demo_chain_config (ledger_rpc False) demo_submission (fresh_ledger [Pooled, Lands_silently]) =
    Some (fst demo_execution, fst (snd demo_execution), snd (snd demo_execution))"
proof -
  have "case executeSubmission demo_chain_config (ledger_rpc False) demo_submission (fresh_ledger [Pooled, Lands_silently]) of
      None \<Rightarrow> False | Some _ \<Rightarrow> True"
    by code_simp
  then show ?thesis by (auto simp: demo_execution_def split: option.splits)
qed


definition first_update :: "(chain_error + submission_result) \<times> ledger_world chain_state \<times> chain_tx list" where
  "first_update = the (submit demo_chain_config (ledger_rpc False) demo_submission (fresh_ledger []))"

lemma first_update: "submit demo_chain_config (ledger_rpc False) demo_submission (fresh_ledger []) =
    Some (Inr (projr (fst first_update)), fst (snd first_update), snd (snd first_update))"
proof -
  have "map_option (\<lambda>x. isl (fst x)) (submit demo_chain_config (ledger_rpc False) demo_submission (fresh_ledger [])) = Some False"
    by code_simp
  then show ?thesis by (auto simp: first_update_def)
qed

theorem key_executed_once_witness:
  "submit demo_chain_config (ledger_rpc False) (demo_submission\<lparr>su_args := [Sc_string ''s1'', Sc_string ''cancelled'']\<rparr>) (fst (snd first_update)) =
     Some (Inr (projr (fst first_update)\<lparr>sr_wasDuplicate := True\<rparr>), fst (snd first_update), [])"
  by (rule key_executed_once [OF first_update, where k = "''s1:update_subscription''" and ps = "[]"])
     (simp_all add: demo_submission_def)

lemma flight_demo: "flight_run [Began ''k'' Joined, Began ''k'' Started] \<lparr>fl_inflight = [''k''], fl_completed = []\<rparr>"
proof -
  have "flight_run [Began ''k'' Started] \<lparr>fl_inflight = [''k''], fl_completed = []\<rparr>"
    by (rule flight_run.began [OF flight_run.started]) (simp add: submit_begin_def)
  then show ?thesis by (rule flight_run.began) (simp add: submit_begin_def)
qed

theorem single_flight_witness:
  "executions ''k'' [Began ''k'' Joined, Began ''k'' Started] \<le> failures ''k'' [Began ''k'' Joined, Began ''k'' Started] + 1"
  by (rule single_flight [OF flight_demo])

section \<open>A transaction that lands late\<close>

text \<open>
  When sending times out and the ledger does not know the transaction yet, the call is sent again
  under the next sequence number; if the first transaction lands after all, the call has its effect
  twice and one of the two is reported.
\<close>

theorem late_transaction_lands_twice:
  "map_option (\<lambda>(r, st, sent). (map_sum chain_message sr_transactionHash r, lw_landed (ch_world st), length sent))
     (submit demo_chain_config (ledger_rpc True) demo_submission (fresh_ledger [Pooled, Lands])) =
   Some (Inr ''tx9'', [''tx9'', ''tx8''], 2)"
  by code_simp

text \<open>
  A fee that is raised is offered under a sequence number the ledger does not expect: the number
  is advanced when a transaction is built, the refused transaction has not used it up, and the
  branch of the fee error does not take it back.
\<close>

theorem raised_fee_skips_number:
  assumes "build_transaction cf rpc p fee st = (Inr tx, st1)"
    and "rpc_send rpc tx (ch_world st1) = (Send_error m, w)" and "\<not> isSequenceError m"
    and "send_transaction cf rpc p tx st1 = Some (Continue_with fee', st2)"
    and "build_transaction cf rpc p fee' st2 = (Inr tx', st3)"
  shows "ct_sequence tx' = ct_sequence tx + 1"
proof -
  have "ch_sequences st2 = ch_sequences st1"
    using assms(2,3,4) unfolding send_transaction_def by (auto simp: Let_def split: if_splits sum.splits)
  then have "js_get (ch_sequences st2) (su_source p) = Some (ct_sequence tx)"
    using build_transaction_tx [OF assms(1)] by simp
  then show ?thesis using assms(5)
    by (auto simp: build_transaction_def getOrFetchSequence_def Let_def split: sum.splits option.splits prod.splits)
qed

end
