(* ===== verification/ChainLogProps.thy ===== *)
theory ChainLogProps
  imports ChainLog ChainClientProps
begin

text \<open>
  What the event log says about the ledger: the row of an event mirrors the outcome of its call.
  And what the idempotency key of the calls, the memo and the table of methods do to them.
\<close>

section \<open>The row mirrors the call\<close>

definition row_of :: "ident \<Rightarrow> 'w chain_service \<Rightarrow> chain_log option" where
  "row_of i s = find (\<lambda>l. cl_id l = i) (cs_logs s)"

lemma find_map_same: "(\<And>x. P (f x) \<longleftrightarrow> P x) \<Longrightarrow> find P (map f xs) = map_option f (find P xs)"
  by (induction xs) auto

lemma filter_map_same: "(\<And>x. P (f x) \<longleftrightarrow> P x) \<Longrightarrow> (\<And>x. P x \<Longrightarrow> f x = x) \<Longrightarrow> filter P (map f xs) = filter P xs"
  by (induction xs) auto

lemma row_of_update:
  "(\<And>l. cl_id (f l) = cl_id l) \<Longrightarrow> row_of i (update_log True i f s) = map_option f (row_of i s)"
proof -
  assume f: "\<And>l. cl_id (f l) = cl_id l"
  have "find (\<lambda>l. cl_id l = i) (map (\<lambda>l. if cl_id l = i then f l else l) xs) = map_option f (find (\<lambda>l. cl_id l = i) xs)" for xs
    by (induction xs) (auto simp: f)
  then show ?thesis by (simp add: row_of_def update_log_def)
qed

definition other_rows :: "ident \<Rightarrow> 'w chain_service \<Rightarrow> chain_log list" where
  "other_rows i s = filter (\<lambda>l. cl_id l \<noteq> i) (cs_logs s)"

lemma other_rows_update: "(\<And>l. cl_id (f l) = cl_id l) \<Longrightarrow> other_rows i (update_log ok i f s) = other_rows i s"
  unfolding other_rows_def update_log_def by (auto intro!: filter_map_same)

lemma insert_log_rows:
  "row_of i s = None \<Longrightarrow> row_of i (insert_log i u t d s) = Some \<lparr>cl_id = i, cl_user = u, cl_event_type = t, cl_event_data = d,
      cl_status = Log_pending, cl_transaction_hash = None, cl_error_message = None\<rparr> \<and> other_rows i (insert_log i u t d s) = other_rows i s"
proof -
  assume "row_of i s = None"
  moreover have "find P xs = None \<Longrightarrow> P r \<Longrightarrow> find P (xs @ [r]) = Some r" for P xs and r :: chain_log by (induction xs) auto
  ultimately show ?thesis by (simp add: row_of_def other_rows_def insert_log_def)
qed

text \<open>A call keeps the log when dead letters go to the queue.\<close>

lemma invoke_keeps_logs:
  assumes "invokeContractWithRetry env m args sub s = Some (r, s')" and "be_redis env = Some True"
  shows "cs_logs s' = cs_logs s"
proof (cases "truthy (be_contractAddress env) \<and> be_blockchainEnabled env \<and> (\<exists>pk. be_signer env = Inr pk)")
  case False
  then show ?thesis using assms(1) unfolding invokeContractWithRetry_def by (auto split: if_splits sum.splits)
next
  case True
  then obtain pk where g: "truthy (be_contractAddress env)" "be_blockchainEnabled env" "be_signer env = Inr pk" by blast
  obtain q st x where "submit (be_config env) (be_rpc env) (submission_for env pk m args sub) (cs_chain s) = Some (q, st, x)"
    using assms(1) g unfolding invokeContractWithRetry_def by (auto simp only: if_False not_True_eq_False sum.case option.map map_option_eq_Some)
  then show ?thesis using assms g unfolding invokeContractWithRetry_def by (cases q) (auto simp: enqueueDeadLetter_def)
qed

lemma write_private_keeps_logs:
  assumes "write_private_or env privacy u ev (writeSubscriptionToBlockchain env op ev') s = Some (r, s')" and "be_redis env = Some True"
  shows "cs_logs s' = cs_logs s"
proof -
  consider e where "privacy = Inl e" | "privacy = Inr True" | "privacy = Inr False" by (cases privacy) auto
  then show ?thesis
  proof cases
    case 1
    then show ?thesis using assms(1) by (simp add: write_private_or_def)
  next
    case 2
    then show ?thesis using assms(1) invoke_keeps_logs [OF _ assms(2)] by (simp add: write_private_or_def write_commitments_def)
  next
    case 3
    then show ?thesis using assms(1) invoke_keeps_logs [OF _ assms(2)] by (simp add: write_private_or_def writeSubscriptionToBlockchain_def)
  qed
qed

definition mirrored :: "ident \<Rightarrow> write_result \<Rightarrow> chain_log \<Rightarrow> bool" where
  "mirrored i res l \<longleftrightarrow>
     cl_id l = i \<and> cl_transaction_hash l = wr_transactionHash res \<and> cl_error_message l = wr_error res \<and>
     cl_status l = (if wr_error res \<noteq> None then Log_failed else if wr_transactionHash res \<noteq> None then Log_confirmed else Log_pending)"

lemma log_then_write_mirrors:
  assumes "log_then_write env (Inr i) True u t d write s = Some (res, s')" and "row_of i s = None"
    and keeps: "\<And>s r s'. write s = Some (r, s') \<Longrightarrow> cs_logs s' = cs_logs s" and hash: "wr_transactionHash res \<noteq> Some []"
  shows "wr_success res \<and> (\<exists>l. row_of i s' = Some l \<and> mirrored i res l \<and> cl_user l = u \<and> cl_event_type l = t \<and> cl_event_data l = d) \<and>
     other_rows i s' = other_rows i s"
proof (cases "truthy (be_contractAddress env)")
  case False
  then show ?thesis using assms(1) insert_log_rows [OF assms(2), of u t d] by (auto simp: log_then_write_def mirrored_def)
next
  case True
  then obtain r s2 where w: "write (insert_log i u t d s) = Some (r, s2)"
    using assms(1) by (auto simp: log_then_write_def split: option.splits)
  have s2: "row_of i s2 = Some \<lparr>cl_id = i, cl_user = u, cl_event_type = t, cl_event_data = d,
      cl_status = Log_pending, cl_transaction_hash = None, cl_error_message = None\<rparr>" "other_rows i s2 = other_rows i s"
    using insert_log_rows [OF assms(2), of u t d] keeps [OF w] by (simp_all add: row_of_def other_rows_def)
  show ?thesis
  proof (cases r)
    case (Inl e)
    then show ?thesis using assms(1) True w s2
      by (auto simp: log_then_write_def row_of_update other_rows_update mirrored_def)
  next
    case (Inr h)
    then show ?thesis using assms(1) True w s2 hash
      by (auto simp: log_then_write_def row_of_update other_rows_update mirrored_def split: if_splits)
  qed
qed


definition demo_service_env :: "bool \<Rightarrow> ledger_world chain_service_env" where
  "demo_service_env enabled = \<lparr>be_contractAddress = Some ''C'', be_blockchainEnabled = enabled, be_signer = Inr ''G'', be_config = demo_chain_config,
     be_rpc = ledger_rpc False, be_sha256 = demo_digest, be_hmac = (\<lambda>s. s), be_number = (\<lambda>n. show_int \<lfloor>n\<rfloor>), be_iso = show_int, be_now = 86400000,
     be_correlationId = None, be_redis = Some True, be_deadLetterId = None, be_rpcUrl = ''rpc'', be_maxAttempts = 4\<rparr>"

text \<open>A service that has updated the subscription before.\<close>

definition used_service :: "ledger_world chain_service" where
  "used_service = \<lparr>cs_logs = [], cs_dlq = [], cs_chain = (fresh_ledger [])\<lparr>ch_completed :=
     [(''s1:update_subscription'', \<lparr>sr_transactionHash = ''tx8'', sr_status = ''SUCCESS'', sr_feePaidStroops = 100, sr_sequenceNumber = 8,
        sr_wasDuplicate = False\<rparr>)]\<rparr>\<rparr>"

lemma disabled_call:
  "invokeContractWithRetry (demo_service_env False) m args sub s =
     Some (Inl (''[blockchain] On-chain write for \"'' @ m @ ''\" was blocked: ENABLE_BLOCKCHAIN is set to false.''), s)"
  by (simp add: invokeContractWithRetry_def demo_service_env_def)

definition demo_sync :: "write_result \<times> ledger_world chain_service" where
  "demo_sync = the (syncSubscription (demo_service_env False) (Inr False) (Inr ''r1'') True ''u'' ''s1'' Update_op (JObj []) used_service)"

lemma demo_sync:
  "syncSubscription (demo_service_env False) (Inr False) (Inr ''r1'') True ''u'' ''s1'' Update_op (JObj []) used_service =
     Some (fst demo_sync, snd demo_sync) \<and> wr_transactionHash (fst demo_sync) = None"
proof -
  have "truthy (be_contractAddress (demo_service_env False))" by (simp add: demo_service_env_def)
  then have "\<exists>res s'. syncSubscription (demo_service_env False) (Inr False) (Inr ''r1'') True ''u'' ''s1'' Update_op (JObj []) used_service =
      Some (res, s') \<and> wr_transactionHash res = None"
    by (simp add: syncSubscription_def Let_def log_then_write_def write_private_or_def writeSubscriptionToBlockchain_def disabled_call)
  then show ?thesis by (auto simp: demo_sync_def)
qed


section \<open>Keys, memos and methods\<close>

text \<open>
  The key of a call is the subscription and the method.  Two different updates of a subscription
  have the same key: the second is answered from the first, and its row is confirmed with a
  transaction that says something else.
\<close>

lemma completed_answers:
  "js_get (ch_completed st) k = Some r \<Longrightarrow> k \<noteq> [] \<Longrightarrow> su_idempotencyKey p = Some k \<Longrightarrow>
     submit cf rpc p st = Some (Inr (r\<lparr>sr_wasDuplicate := True\<rparr>), st, [])"
  by (simp add: submit_def)

theorem second_update_not_sent:
  assumes "truthy (be_contractAddress env)" and "be_blockchainEnabled env" and "be_signer env = Inr pk" and "sub \<noteq> []"
    and "js_get (ch_completed (cs_chain s)) (sub @ '':update_subscription'') = Some r" and "sr_transactionHash r \<noteq> []"
  shows "\<exists>s'. syncSubscription env (Inr False) (Inr i) True u sub Update_op data s =
       Some (\<lparr>wr_success = True, wr_transactionHash = Some (sr_transactionHash r), wr_error = None\<rparr>, s') \<and>
     cs_chain s' = cs_chain s"
proof -
  have sub: "text_or_empty env (field ''subscriptionId'' (subscription_event env sub Update_op data)) = sub"
    by (simp add: subscription_event_def defined_fields_def field_def text_or_empty_def)
  define p where "p = submission_for env pk ''update_subscription''
     (encodeSubscriptionArgs env (subscription_event env sub Update_op data)) (Some sub)"
  have "su_idempotencyKey p = Some (sub @ '':update_subscription'')"
    using assms(4) by (simp add: p_def submission_for_def Let_def)
  then have sent: "submit (be_config env) (be_rpc env) p (cs_chain s) = Some (Inr (r\<lparr>sr_wasDuplicate := True\<rparr>), cs_chain s, [])"
    by (intro completed_answers [OF assms(5)]) simp_all
  have "cs_chain (insert_log i u t d s) = cs_chain s" for t d by (simp add: insert_log_def)
  then show ?thesis using assms(1-4,6) sent
    by (simp add: syncSubscription_def Let_def log_then_write_def write_private_or_def writeSubscriptionToBlockchain_def sub
        resolveSubscriptionMethod_def invokeContractWithRetry_def p_def [symmetric] update_log_def)
qed

theorem second_update_not_sent_witness:
  "\<exists>s'. syncSubscription (demo_service_env True) (Inr False) (Inr ''r2'') True ''u'' ''s1'' Update_op (JObj [(''price'', JNum 99)]) used_service =
       Some (\<lparr>wr_success = True, wr_transactionHash = Some (sr_transactionHash \<lparr>sr_transactionHash = ''tx8'', sr_status = ''SUCCESS'',
         sr_feePaidStroops = 100, sr_sequenceNumber = 8, sr_wasDuplicate = False\<rparr>), wr_error = None\<rparr>, s') \<and> cs_chain s' = cs_chain used_service"
  by (rule second_update_not_sent) (simp_all add: demo_service_env_def used_service_def js_get_def)

text \<open>No transaction about a subscription carries a memo: the names the memo code looks for are not those of the methods.\<close>

theorem subscription_calls_have_no_memo:
  "su_memo (submission_for env pk (resolveSubscriptionMethod op) args sub) = None"
proof -
  have "resolveMemoOperationFromMethod (resolveSubscriptionMethod op) = None" by (cases op; simp only:; code_simp)
  then show ?thesis by (simp add: submission_for_def Let_def)
qed

text \<open>Pausing a subscription calls the method that cancels it.\<close>

theorem pause_cancels: "resolveSubscriptionMethod Pause_op = resolveSubscriptionMethod Cancel_op"
  by (simp add: resolveSubscriptionMethod_def)

end
