(* ===== verification/RpcBreaker.thy ===== *)
theory RpcBreaker
  imports Prelude
begin

text \<open>
  The RPC client with retries and a circuit breaker (\<open>shared/src/platform/rpc-client.ts\<close>).  One
  attempt on the network is a function on a state \<open>'w\<close>: a response, an HTTP status that is not a
  success, or an error with its name; the race with the timeout is the error named \<open>TimeoutError\<close>.
  The random factor of a pause is an argument.
\<close>

datatype circuit_state = Closed_circuit | Open_circuit | Half_open_circuit

record breaker_config =
  bc_maxRetries :: int
  bc_baseRetryDelayMs :: amount
  bc_timeoutMs :: int
  bc_threshold :: int
  bc_resetTimeoutMs :: int

definition breaker_config_of :: "int option \<Rightarrow> amount option \<Rightarrow> int option \<Rightarrow> int option \<Rightarrow> int option \<Rightarrow> breaker_config" where
  "breaker_config_of retries delay timeout threshold reset =
     \<lparr>bc_maxRetries = nullish retries 3, bc_baseRetryDelayMs = nullish delay 1000, bc_timeoutMs = nullish timeout 10000,
      bc_threshold = nullish threshold 5, bc_resetTimeoutMs = nullish reset 30000\<rparr>"

record rpc_metrics =
  rm_totalRequests :: int
  rm_successfulRequests :: int
  rm_failedRequests :: int
  rm_timeoutRequests :: int
  rm_circuitOpenCount :: int
  rm_circuitState :: circuit_state

record breaker =
  br_config :: breaker_config
  br_metrics :: rpc_metrics
  br_consecutiveFailures :: int
  br_circuitState :: circuit_state
  br_nextAttemptMs :: millis

definition new_breaker :: "breaker_config \<Rightarrow> breaker" where
  "new_breaker cf = \<lparr>br_config = cf,
     br_metrics = \<lparr>rm_totalRequests = 0, rm_successfulRequests = 0, rm_failedRequests = 0, rm_timeoutRequests = 0, rm_circuitOpenCount = 0,
       rm_circuitState = Closed_circuit\<rparr>,
     br_consecutiveFailures = 0, br_circuitState = Closed_circuit, br_nextAttemptMs = 0\<rparr>"

definition set_circuit :: "circuit_state \<Rightarrow> breaker \<Rightarrow> breaker" where
  "set_circuit c b = b\<lparr>br_circuitState := c, br_metrics := (br_metrics b)\<lparr>rm_circuitState := c\<rparr>\<rparr>"

definition getMetrics_rpc :: "millis \<Rightarrow> breaker \<Rightarrow> rpc_metrics \<times> breaker" where
  "getMetrics_rpc now b =
     (let b1 = (if br_circuitState b = Open_circuit \<and> br_nextAttemptMs b \<le> now then set_circuit Half_open_circuit b else b)
      in (br_metrics b1, b1))"

definition handleSuccess :: "breaker \<Rightarrow> breaker" where
  "handleSuccess b =
     (let b1 = b\<lparr>br_consecutiveFailures := 0\<rparr>;
          b2 = (if br_circuitState b1 \<noteq> Closed_circuit then set_circuit Closed_circuit b1 else b1)
      in b2\<lparr>br_metrics := (br_metrics b2)\<lparr>rm_successfulRequests := rm_successfulRequests (br_metrics b2) + 1\<rparr>\<rparr>)"

definition openCircuit :: "millis \<Rightarrow> breaker \<Rightarrow> breaker" where
  "openCircuit now b =
     (let b1 = set_circuit Open_circuit b
      in b1\<lparr>br_metrics := (br_metrics b1)\<lparr>rm_circuitOpenCount := rm_circuitOpenCount (br_metrics b1) + 1\<rparr>,
            br_nextAttemptMs := now + bc_resetTimeoutMs (br_config b)\<rparr>)"

record rpc_error =
  re_name :: string
  re_message :: string

definition handleFailure :: "millis \<Rightarrow> rpc_error \<Rightarrow> breaker \<Rightarrow> breaker" where
  "handleFailure now e b =
     (let m = br_metrics b;
          timedOut = (re_name e = ''AbortError'' \<or> re_name e = ''TimeoutError'');
          b1 = b\<lparr>br_consecutiveFailures := br_consecutiveFailures b + 1,
                 br_metrics := m\<lparr>rm_failedRequests := rm_failedRequests m + 1,
                                 rm_timeoutRequests := rm_timeoutRequests m + (if timedOut then 1 else 0)\<rparr>\<rparr>
      in if br_circuitState b1 = Closed_circuit \<and> bc_threshold (br_config b1) \<le> br_consecutiveFailures b1 then openCircuit now b1
         else if br_circuitState b1 = Half_open_circuit then openCircuit now b1
         else b1)"

definition circuit_error :: rpc_error where
  "circuit_error = \<lparr>re_name = ''Error'', re_message = ''Circuit breaker is OPEN. Fast failing request.''\<rparr>"

definition checkCircuitBreaker :: "millis \<Rightarrow> breaker \<Rightarrow> rpc_error option \<times> breaker" where
  "checkCircuitBreaker now b =
     (if br_circuitState b = Open_circuit then
        (if br_nextAttemptMs b \<le> now then (None, set_circuit Half_open_circuit b) else (Some circuit_error, b))
      else (None, b))"

section \<open>Requests\<close>

datatype 'a net_answer = Net_error rpc_error | Http_status int string | Net_ok 'a

record ('w, 'a) net =
  net_send :: "'w \<Rightarrow> 'a net_answer \<times> 'w"
  net_now :: "'w \<Rightarrow> millis"
  net_sleep :: "amount \<Rightarrow> 'w \<Rightarrow> 'w"

definition status_error :: "int \<Rightarrow> string \<Rightarrow> rpc_error" where
  "status_error n text = \<lparr>re_name = ''Error'', re_message = ''HTTP '' @ show_int n @ '' '' @ text\<rparr>"

definition refused :: "rpc_error \<Rightarrow> breaker \<Rightarrow> breaker" where
  "refused e b = b\<lparr>br_metrics := (br_metrics b)\<lparr>rm_failedRequests := rm_failedRequests (br_metrics b) + 1\<rparr>\<rparr>"

definition net_failure :: "'a net_answer \<Rightarrow> rpc_error option" where
  "net_failure a = (case a of Net_error e \<Rightarrow> Some e | Http_status n text \<Rightarrow> Some (status_error n text) | Net_ok x \<Rightarrow> None)"

text \<open>The loop of \<open>fetch\<close>: the response or the error (\<open>undefined\<close> without an attempt), the breaker, the world,
  and how many requests went out.\<close>

function fetch_loop :: "breaker_config \<Rightarrow> ('w, 'a) net \<Rightarrow> (nat \<Rightarrow> amount) \<Rightarrow> nat \<Rightarrow> rpc_error option \<Rightarrow> breaker \<Rightarrow> 'w \<Rightarrow>
    (rpc_error option + 'a) \<times> breaker \<times> 'w \<times> nat" where
  "fetch_loop cf net rnd attempt lastErr b w =
     (if bc_maxRetries cf < int attempt then (Inl lastErr, b, w, 0)
      else (case checkCircuitBreaker (net_now net w) b of
          (Some e, b1) \<Rightarrow> (Inl (Some e), refused e b1, w, 0)
        | (None, b1) \<Rightarrow>
            (case net_send net w of
               (Net_ok x, w1) \<Rightarrow> (Inr x, handleSuccess b1, w1, 1)
             | (answer, w1) \<Rightarrow>
                 (let e = the (net_failure answer)
                  in if re_message e = re_message circuit_error then (Inl (Some e), refused e b1, w1, 1)
                     else (let w2 = (if int attempt < bc_maxRetries cf
                                     then net_sleep net (bc_baseRetryDelayMs cf * 2 ^ attempt * (8 / 10 + rnd attempt * (4 / 10))) w1
                                     else w1);
                               (r, b2, w3, n) = fetch_loop cf net rnd (Suc attempt) (Some e) (handleFailure (net_now net w1) e b1) w2
                           in (r, b2, w3, Suc n))))))"
  by pat_completeness auto

termination by (relation "measure (\<lambda>(cf, net, rnd, attempt, lastErr, b, w). nat (bc_maxRetries cf + 1 - int attempt))") auto

declare fetch_loop.simps [simp del]

definition rpc_fetch :: "('w, 'a) net \<Rightarrow> (nat \<Rightarrow> amount) \<Rightarrow> breaker \<Rightarrow> 'w \<Rightarrow> (rpc_error option + 'a) \<times> breaker \<times> 'w \<times> nat" where
  "rpc_fetch net rnd b w =
     fetch_loop (br_config b) net rnd 0 None
       (b\<lparr>br_metrics := (br_metrics b)\<lparr>rm_totalRequests := rm_totalRequests (br_metrics b) + 1\<rparr>\<rparr>) w"

section \<open>Properties\<close>

text \<open>A closed circuit has seen fewer failures in a row than the threshold; the metrics show the state.\<close>

definition breaker_ok :: "breaker \<Rightarrow> bool" where
  "breaker_ok b \<longleftrightarrow> rm_circuitState (br_metrics b) = br_circuitState b \<and>
     (br_circuitState b = Closed_circuit \<longrightarrow> br_consecutiveFailures b < bc_threshold (br_config b))"

lemma new_breaker_ok: "0 < bc_threshold cf \<Longrightarrow> breaker_ok (new_breaker cf)"
  by (simp add: breaker_ok_def new_breaker_def)

lemma breaker_steps:
  "breaker_ok b \<Longrightarrow> breaker_ok (snd (getMetrics_rpc now b))"
  "breaker_ok b \<Longrightarrow> breaker_ok (refused e b)"
  "breaker_ok b \<Longrightarrow> breaker_ok (handleFailure now e b)"
  "breaker_ok b \<Longrightarrow> breaker_ok (snd (checkCircuitBreaker now b))"
  "breaker_ok b \<Longrightarrow> 0 < bc_threshold (br_config b) \<Longrightarrow> breaker_ok (handleSuccess b)"
  by (auto simp: breaker_ok_def getMetrics_rpc_def refused_def handleFailure_def openCircuit_def set_circuit_def
      checkCircuitBreaker_def handleSuccess_def Let_def)

lemma config_steps:
  "br_config (snd (checkCircuitBreaker now b)) = br_config b" "br_config (handleFailure now e b) = br_config b"
  "br_config (handleSuccess b) = br_config b" "br_config (refused e b) = br_config b"
  by (simp_all add: checkCircuitBreaker_def handleFailure_def openCircuit_def set_circuit_def handleSuccess_def refused_def Let_def)

lemma fetch_loop_cases:
  obtains (exhausted) "bc_maxRetries cf < int attempt" "fetch_loop cf net rnd attempt lastErr b w = (Inl lastErr, b, w, 0)"
  | (blocked) b1 where "checkCircuitBreaker (net_now net w) b = (Some circuit_error, b1)" "int attempt \<le> bc_maxRetries cf"
      "fetch_loop cf net rnd attempt lastErr b w = (Inl (Some circuit_error), refused circuit_error b1, w, 0)"
  | (answered) b1 x w1 where "checkCircuitBreaker (net_now net w) b = (None, b1)" "int attempt \<le> bc_maxRetries cf"
      "fetch_loop cf net rnd attempt lastErr b w = (Inr x, handleSuccess b1, w1, 1)"
  | (gave_up) b1 e w1 where "checkCircuitBreaker (net_now net w) b = (None, b1)" "int attempt \<le> bc_maxRetries cf"
      "fetch_loop cf net rnd attempt lastErr b w = (Inl (Some e), refused e b1, w1, 1)"
  | (again) b1 e now w2 r b2 w3 n where "checkCircuitBreaker (net_now net w) b = (None, b1)" "int attempt \<le> bc_maxRetries cf"
      "fetch_loop cf net rnd (Suc attempt) (Some e) (handleFailure now e b1) w2 = (r, b2, w3, n)"
      "fetch_loop cf net rnd attempt lastErr b w = (r, b2, w3, Suc n)"
proof (cases "bc_maxRetries cf < int attempt")
  case True
  then show thesis using exhausted by (simp add: fetch_loop.simps [of cf])
next
  case False
  then have le: "int attempt \<le> bc_maxRetries cf" by simp
  obtain c b1 where c: "checkCircuitBreaker (net_now net w) b = (c, b1)" by (cases "checkCircuitBreaker (net_now net w) b")
  show thesis
  proof (cases c)
    case (Some e)
    then have "e = circuit_error" using c by (auto simp: checkCircuitBreaker_def split: if_splits)
    then show thesis using blocked [of b1] c Some le by (simp add: fetch_loop.simps [of cf _ _ attempt])
  next
    case None
    obtain a w1 where a: "net_send net w = (a, w1)" by (cases "net_send net w")
    show thesis
    proof (cases "net_failure a")
      case None
      then obtain x where "a = Net_ok x" by (cases a) (auto simp: net_failure_def)
      then show thesis using answered [of b1 x w1] c \<open>c = None\<close> a le by (simp add: fetch_loop.simps [of cf _ _ attempt])
    next
      case (Some e)
      define w2 where "w2 = (if int attempt < bc_maxRetries cf
         then net_sleep net (bc_baseRetryDelayMs cf * 2 ^ attempt * (8 / 10 + rnd attempt * (4 / 10))) w1 else w1)"
      obtain r b2 w3 n where l: "fetch_loop cf net rnd (Suc attempt) (Some e) (handleFailure (net_now net w1) e b1) w2 = (r, b2, w3, n)"
        by (cases "fetch_loop cf net rnd (Suc attempt) (Some e) (handleFailure (net_now net w1) e b1) w2")
      have eq: "fetch_loop cf net rnd attempt lastErr b w =
          (if re_message e = re_message circuit_error then (Inl (Some e), refused e b1, w1, 1) else (r, b2, w3, Suc n))"
        using le c \<open>c = None\<close> a Some l unfolding w2_def
        by (subst fetch_loop.simps) (cases a; simp add: Let_def net_failure_def del: of_nat_Suc)
      show thesis
      proof (cases "re_message e = re_message circuit_error")
        case True
        then show thesis using gave_up [of b1 e w1] c \<open>c = None\<close> le eq by simp
      next
        case False
        then show thesis using again [OF _ le l] c \<open>c = None\<close> eq by simp
      qed
    qed
  qed
qed

lemma fetch_loop_ok:
  "breaker_ok b \<Longrightarrow> 0 < bc_threshold (br_config b) \<Longrightarrow>
     breaker_ok (fst (snd (fetch_loop cf net rnd attempt lastErr b w))) \<and>
     br_config (fst (snd (fetch_loop cf net rnd attempt lastErr b w))) = br_config b \<and>
     snd (snd (snd (fetch_loop cf net rnd attempt lastErr b w))) \<le> nat (bc_maxRetries cf + 1 - int attempt)"
proof (induction "nat (bc_maxRetries cf + 1 - int attempt)" arbitrary: attempt lastErr b w rule: less_induct)
  case less
  have checked: "breaker_ok b1 \<and> br_config b1 = br_config b" if "checkCircuitBreaker (net_now net w) b = (c, b1)" for c b1
    using breaker_steps(4) [OF less.prems(1)] config_steps(1) that by (metis snd_conv)
  show ?case
  proof (cases rule: fetch_loop_cases [of cf attempt net rnd lastErr b w])
    case exhausted
    then show ?thesis using less.prems by simp
  next
    case (blocked b1)
    then show ?thesis using checked [OF blocked(1)] by (simp add: breaker_steps config_steps)
  next
    case (answered b1 x w1)
    then show ?thesis using checked [OF answered(1)] less.prems by (simp add: breaker_steps config_steps)
  next
    case (gave_up b1 e w1)
    then show ?thesis using checked [OF gave_up(1)] by (simp add: breaker_steps config_steps)
  next
    case (again b1 e now w2 r b2 w3 n)
    have "nat (bc_maxRetries cf + 1 - int (Suc attempt)) < nat (bc_maxRetries cf + 1 - int attempt)" using again(2) by simp
    from less.hyps [OF this, of "handleFailure now e b1" "Some e" w2]
    have "breaker_ok b2 \<and> br_config b2 = br_config b \<and> n \<le> nat (bc_maxRetries cf + 1 - int (Suc attempt))"
      using checked [OF again(1)] less.prems again(3) by (simp add: breaker_steps config_steps)
    moreover have "nat (bc_maxRetries cf + 1 - int attempt) = Suc (nat (bc_maxRetries cf + 1 - int (Suc attempt)))"
      using again(2) by simp
    ultimately show ?thesis unfolding again(4) by simp
  qed
qed

text \<open>
  The circuit breaker keeps its promise: whatever the network answers, after every request a
  closed circuit has seen fewer failures in a row than the threshold, so that many failures in a
  row always open it; the state shown by the metrics is the state; and a request goes out at most once more than
  retries are allowed.
\<close>

theorem breaker_invariant:
  assumes "breaker_ok b" and "0 < bc_threshold (br_config b)"
  shows "breaker_ok (fst (snd (rpc_fetch net rnd b w))) \<and>
     snd (snd (snd (rpc_fetch net rnd b w))) \<le> nat (bc_maxRetries (br_config b) + 1)"
proof -
  let ?b = "b\<lparr>br_metrics := (br_metrics b)\<lparr>rm_totalRequests := rm_totalRequests (br_metrics b) + 1\<rparr>\<rparr>"
  have "breaker_ok ?b" "0 < bc_threshold (br_config ?b)" using assms by (simp_all add: breaker_ok_def)
  from fetch_loop_ok [OF this, of "br_config b" net rnd 0 None w] show ?thesis by (simp add: rpc_fetch_def)
qed

text \<open>A network for the witness that never answers.\<close>

definition dead_net :: "(millis, unit) net" where
  "dead_net = \<lparr>net_send = (\<lambda>w. (Net_error \<lparr>re_name = ''TimeoutError'', re_message = ''Request Timeout''\<rparr>, w + 15000)),
     net_now = (\<lambda>w. w), net_sleep = (\<lambda>n w. w + \<lceil>n\<rceil>)\<rparr>"

definition demo_breaker :: breaker where
  "demo_breaker = new_breaker (breaker_config_of (Some 5) (Some 1000) (Some 15000) (Some 5) (Some 30000))"

theorem breaker_invariant_witness:
  "breaker_ok (fst (snd (rpc_fetch dead_net (\<lambda>k. 0) demo_breaker 0))) \<and>
     snd (snd (snd (rpc_fetch dead_net (\<lambda>k. 0) demo_breaker 0))) \<le> nat (bc_maxRetries (br_config demo_breaker) + 1)"
  by (rule breaker_invariant) (simp_all add: demo_breaker_def breaker_config_of_def new_breaker_ok, simp add: new_breaker_def)

text \<open>
  While the circuit is open and its pause has not passed, a request fails at once: nothing is
  sent, no time passes, and the circuit stays open until the same moment.
\<close>

theorem open_circuit_blocks:
  assumes "br_circuitState b = Open_circuit" and "net_now net w < br_nextAttemptMs b" and "0 \<le> bc_maxRetries (br_config b)"
  shows "\<exists>b'. rpc_fetch net rnd b w = (Inl (Some circuit_error), b', w, 0) \<and>
     br_circuitState b' = Open_circuit \<and> br_nextAttemptMs b' = br_nextAttemptMs b"
  using assms by (simp add: rpc_fetch_def fetch_loop.simps [of _ _ _ 0] checkCircuitBreaker_def refused_def)

theorem open_circuit_blocks_witness:
  "\<exists>b'. rpc_fetch dead_net (\<lambda>k. 0) (openCircuit 100 demo_breaker) 200 = (Inl (Some circuit_error), b', 200, 0) \<and>
     br_circuitState b' = Open_circuit \<and> br_nextAttemptMs b' = br_nextAttemptMs (openCircuit 100 demo_breaker)"
  by (rule open_circuit_blocks)
     (simp_all add: openCircuit_def set_circuit_def demo_breaker_def new_breaker_def breaker_config_of_def dead_net_def Let_def)

end
