(* ===== verification/Indexer.thy ===== *)
theory Indexer
  imports Json
begin

text \<open>
  The indexer of ledger events (\<open>backend/src/blockchain/indexer.ts\<close>): a cursor, a poll of the
  latest ledger, and batches of ledgers whose events are upserted into \<open>blockchain_logs\<close>.

  The RPC server and the outcomes of the database act on a state \<open>'w\<close> (\<open>index_env\<close>).  A loop over
  batches ends only for batches of at least one ledger, so it returns an option.
\<close>

record raw_event =
  ev_id :: string
  ev_type :: string
  ev_ledger :: int
  ev_ledgerClosedAt :: "string option"
  ev_contractId :: string
  ev_txHash :: string
  ev_topic :: "string list"
  ev_value :: json

definition normalizeTopicPath :: "string list \<Rightarrow> string option" where
  "normalizeTopicPath topics =
     (let cleaned = filter (\<lambda>t. t \<noteq> []) (map (\<lambda>t. toLowerCase (trim t)) topics)
      in if cleaned = [] then None else Some (join ''.'' cleaned))"

definition normalizeEventType :: "raw_event \<Rightarrow> string" where
  "normalizeEventType e = nullish (normalizeTopicPath (ev_topic e)) (ev_type e)"

definition extractSchemaVersion :: "json \<Rightarrow> amount" where
  "extractSchemaVersion v =
     (case v of JObj kvs \<Rightarrow> (case map_of kvs ''schema_version'' of Some (JNum n) \<Rightarrow> n | _ \<Rightarrow> 1) | _ \<Rightarrow> 1)"

record index_row =
  ir_event_type :: string
  ir_event_data :: json
  ir_transaction_hash :: string
  ir_created_at :: string

definition event_row :: "string \<Rightarrow> raw_event \<Rightarrow> index_row" where
  "event_row now e =
     \<lparr>ir_event_type = normalizeEventType e,
      ir_event_data = JObj
        ([(''id'', JStr (ev_id e)), (''ledger'', JNum (of_int (ev_ledger e)))] @
         (case ev_ledgerClosedAt e of None \<Rightarrow> [] | Some t \<Rightarrow> [(''ledgerClosedAt'', JStr t)]) @
         [(''contractId'', JStr (ev_contractId e)), (''txHash'', JStr (ev_txHash e)), (''topic'', JArr (map JStr (ev_topic e))),
          (''topicPath'', (case normalizeTopicPath (ev_topic e) of None \<Rightarrow> JNull | Some p \<Rightarrow> JStr p)), (''eventType'', JStr (ev_type e)),
          (''schemaVersion'', JNum (extractSchemaVersion (ev_value e))), (''value'', ev_value e)]),
      ir_transaction_hash = ev_txHash e,
      ir_created_at = nullish (ev_ledgerClosedAt e) now\<rparr>"

text \<open>An upsert that ignores rows whose transaction is in the table.\<close>

definition upsert_row :: "index_row \<Rightarrow> index_row list \<Rightarrow> index_row list" where
  "upsert_row r rows = (if list_ex (\<lambda>q. ir_transaction_hash q = ir_transaction_hash r) rows then rows else rows @ [r])"

definition upsert_rows :: "index_row list \<Rightarrow> index_row list \<Rightarrow> index_row list" where
  "upsert_rows rs rows = fold upsert_row rs rows"

record 'w index_env =
  ie_readCursor :: "'w \<Rightarrow> bool \<times> 'w"
  ie_latest :: "'w \<Rightarrow> (string + int) \<times> 'w"
  ie_events :: "int \<Rightarrow> int \<Rightarrow> 'w \<Rightarrow> (string + raw_event list) \<times> 'w"
  ie_upsert :: "'w \<Rightarrow> string option \<times> 'w"
  ie_saveCursor :: "'w \<Rightarrow> bool \<times> 'w"
  ie_now :: "'w \<Rightarrow> string"
  ie_batchSize :: int

record 'w indexer =
  ix_cursor :: "int option"
  ix_rows :: "index_row list"
  ix_world :: 'w

text \<open>A failing select yields no row, and no row is the cursor 0.\<close>

definition getCursor :: "'w index_env \<Rightarrow> 'w indexer \<Rightarrow> int \<times> 'w indexer" where
  "getCursor env s =
     (let (found, w) = ie_readCursor env (ix_world s) in (if found then nullish (ix_cursor s) 0 else 0, s\<lparr>ix_world := w\<rparr>))"

definition saveCursor :: "'w index_env \<Rightarrow> int \<Rightarrow> 'w indexer \<Rightarrow> 'w indexer" where
  "saveCursor env ledger s =
     (let (saved, w) = ie_saveCursor env (ix_world s)
      in s\<lparr>ix_cursor := (if saved then Some ledger else ix_cursor s), ix_world := w\<rparr>)"

definition persistEvents :: "'w index_env \<Rightarrow> raw_event list \<Rightarrow> 'w indexer \<Rightarrow> (string + unit) \<times> 'w indexer" where
  "persistEvents env events s =
     (if events = [] then (Inr (), s)
      else (case ie_upsert env (ix_world s) of
          (Some e, w) \<Rightarrow> (Inl e, s\<lparr>ix_world := w\<rparr>)
        | (None, w) \<Rightarrow> (Inr (), s\<lparr>ix_rows := upsert_rows (map (event_row (ie_now env (ix_world s))) events) (ix_rows s), ix_world := w\<rparr>)))"

partial_function (option) indexRange :: "'w index_env \<Rightarrow> int \<Rightarrow> int \<Rightarrow> 'w indexer \<Rightarrow> ((string + unit) \<times> 'w indexer) option" where
  "indexRange env from to s =
     (if from \<le> to then
        (let batchEnd = min (from + ie_batchSize env - 1) to
         in case ie_events env from batchEnd (ix_world s) of
              (Inl e, w) \<Rightarrow> Some (Inl e, s\<lparr>ix_world := w\<rparr>)
            | (Inr events, w) \<Rightarrow>
                (case persistEvents env events (s\<lparr>ix_world := w\<rparr>) of
                   (Inl e, s1) \<Rightarrow> Some (Inl e, s1)
                 | (Inr _, s1) \<Rightarrow> indexRange env (batchEnd + 1) to (saveCursor env batchEnd s1)))
      else Some (Inr (), s))"

declare indexRange.simps [code]

definition tick :: "'w index_env \<Rightarrow> 'w indexer \<Rightarrow> ((string + unit) \<times> 'w indexer) option" where
  "tick env s =
     (let (cursor, s1) = getCursor env s
      in case ie_latest env (ix_world s1) of
           (Inl e, w) \<Rightarrow> Some (Inl e, s1\<lparr>ix_world := w\<rparr>)
         | (Inr latest, w) \<Rightarrow>
             (let s2 = s1\<lparr>ix_world := w\<rparr>
              in if latest \<le> cursor then Some (Inr (), s2) else indexRange env (cursor + 1) latest s2))"

text \<open>The loop of \<open>startIndexer\<close>, for a number of rounds; a round that throws is only logged.\<close>

fun indexer_rounds :: "'w index_env \<Rightarrow> nat \<Rightarrow> 'w indexer \<Rightarrow> 'w indexer option" where
  "indexer_rounds env 0 s = Some s"
| "indexer_rounds env (Suc n) s = (case tick env s of None \<Rightarrow> None | Some (_, s1) \<Rightarrow> indexer_rounds env n s1)"

section \<open>Rows\<close>

definition recorded :: "string \<Rightarrow> 'w indexer \<Rightarrow> bool" where
  "recorded h s \<longleftrightarrow> list_ex (\<lambda>r. ir_transaction_hash r = h) (ix_rows s)"

definition keeps_rows :: "'w indexer \<Rightarrow> 'w indexer \<Rightarrow> bool" where
  "keeps_rows s s' \<longleftrightarrow> (\<exists>new. ix_rows s' = ix_rows s @ new) \<and>
     (distinct (map ir_transaction_hash (ix_rows s)) \<longrightarrow> distinct (map ir_transaction_hash (ix_rows s')))"

lemma keeps_refl [simp, intro]: "ix_rows s' = ix_rows s \<Longrightarrow> keeps_rows s s'"
  by (simp add: keeps_rows_def)

lemma keeps_trans: "keeps_rows a b \<Longrightarrow> keeps_rows b c \<Longrightarrow> keeps_rows a c"
  by (auto simp: keeps_rows_def)

lemma recorded_keeps: "keeps_rows s s' \<Longrightarrow> recorded h s \<Longrightarrow> recorded h s'"
  by (auto simp: keeps_rows_def recorded_def)

lemma upsert_rows_keep:
  "(\<exists>new. upsert_rows rs rows = rows @ new) \<and>
     (distinct (map ir_transaction_hash rows) \<longrightarrow> distinct (map ir_transaction_hash (upsert_rows rs rows)))"
proof (induction rs arbitrary: rows)
  case (Cons r rs)
  have "(\<exists>new. upsert_row r rows = rows @ new) \<and>
     (distinct (map ir_transaction_hash rows) \<longrightarrow> distinct (map ir_transaction_hash (upsert_row r rows)))"
    by (auto simp: upsert_row_def list_ex_iff)
  then show ?case using Cons.IH [of "upsert_row r rows"] by (auto simp: upsert_rows_def)
qed (simp add: upsert_rows_def)

lemma upsert_rows_in: "r \<in> set rs \<Longrightarrow> ir_transaction_hash r \<in> ir_transaction_hash ` set (upsert_rows rs rows)"
proof (induction rs arbitrary: rows)
  case (Cons q rs)
  show ?case
  proof (cases "r = q")
    case True
    have "ir_transaction_hash q \<in> ir_transaction_hash ` set (upsert_row q rows)"
      by (auto simp: upsert_row_def list_ex_iff image_iff) metis
    moreover have "set (upsert_row q rows) \<subseteq> set (upsert_rows rs (upsert_row q rows))"
      using upsert_rows_keep [of rs "upsert_row q rows"] by auto
    ultimately show ?thesis unfolding True upsert_rows_def by (auto simp: upsert_rows_def)
  next
    case False
    then show ?thesis using Cons by (simp add: upsert_rows_def)
  qed
qed simp

lemma persist_keeps: "persistEvents env es s = (r, s') \<Longrightarrow> keeps_rows s s' \<and> ix_cursor s' = ix_cursor s"
  using upsert_rows_keep by (auto simp: persistEvents_def keeps_rows_def split: if_splits prod.splits option.splits)

lemma persist_records:
  assumes "persistEvents env es s = (Inr u, s')" and "e \<in> set es"
  shows "recorded (ev_txHash e) s'"
proof -
  obtain w where "s' = s\<lparr>ix_rows := upsert_rows (map (event_row (ie_now env (ix_world s))) es) (ix_rows s), ix_world := w\<rparr>"
    using assms by (auto simp: persistEvents_def split: if_splits prod.splits option.splits)
  moreover have "ir_transaction_hash (event_row (ie_now env (ix_world s)) e) \<in>
      ir_transaction_hash ` set (upsert_rows (map (event_row (ie_now env (ix_world s))) es) (ix_rows s))"
    using assms(2) by (intro upsert_rows_in) simp
  ultimately show ?thesis by (auto simp: recorded_def list_ex_iff event_row_def)
qed

section \<open>No gaps\<close>

text \<open>The server answers a range with at least the events of its ledgers.\<close>

definition events_law :: "'w index_env \<Rightarrow> (int \<Rightarrow> raw_event list) \<Rightarrow> bool" where
  "events_law env ledger \<longleftrightarrow> (\<forall>a b w es w'. ie_events env a b w = (Inr es, w') \<longrightarrow> (\<forall>n. a \<le> n \<and> n \<le> b \<longrightarrow> set (ledger n) \<subseteq> set es))"

definition covers :: "(int \<Rightarrow> raw_event list) \<Rightarrow> int \<Rightarrow> int \<Rightarrow> 'w indexer \<Rightarrow> bool" where
  "covers ledger a b s \<longleftrightarrow> (\<forall>n e. a < n \<and> n \<le> b \<and> e \<in> set (ledger n) \<longrightarrow> recorded (ev_txHash e) s)"

lemma covers_keeps: "covers ledger a b s \<Longrightarrow> keeps_rows s s' \<Longrightarrow> covers ledger a b s'"
  using recorded_keeps unfolding covers_def by blast

lemma range_covers:
  assumes law: "events_law env ledger" and "indexRange env lo hi s = Some (r, s')"
    and "covers ledger c (lo - 1) s" and "covers ledger c (nullish (ix_cursor s) 0) s"
  shows "covers ledger c (nullish (ix_cursor s') 0) s' \<and> keeps_rows s s'"
proof -
  have "env' = env \<longrightarrow> covers ledger c (lo - 1) s \<longrightarrow> covers ledger c (nullish (ix_cursor s) 0) s \<longrightarrow>
      covers ledger c (nullish (ix_cursor (snd x)) 0) (snd x) \<and> keeps_rows s (snd x)"
    if "indexRange env' lo hi s = Some x" for env' lo hi s x
  proof (rule indexRange.raw_induct [where P = "\<lambda>env' lo hi s x. env' = env \<longrightarrow> covers ledger c (lo - 1) s \<longrightarrow>
      covers ledger c (nullish (ix_cursor s) 0) s \<longrightarrow> covers ledger c (nullish (ix_cursor (snd x)) 0) (snd x) \<and> keeps_rows s (snd x)",
      OF _ that], intro impI)
    fix f env' lo hi s x
    assume IH: "\<And>env' lo hi s x. f env' lo hi s = Some x \<Longrightarrow> env' = env \<longrightarrow> covers ledger c (lo - 1) s \<longrightarrow>
        covers ledger c (nullish (ix_cursor s) 0) s \<longrightarrow> covers ledger c (nullish (ix_cursor (snd x)) 0) (snd x) \<and> keeps_rows s (snd x)"
      and eq: "(if lo \<le> hi then
        (let batchEnd = min (lo + ie_batchSize env' - 1) hi
         in case ie_events env' lo batchEnd (ix_world s) of
              (Inl e, w) \<Rightarrow> Some (Inl e, s\<lparr>ix_world := w\<rparr>)
            | (Inr events, w) \<Rightarrow>
                (case persistEvents env' events (s\<lparr>ix_world := w\<rparr>) of
                   (Inl e, s1) \<Rightarrow> Some (Inl e, s1)
                 | (Inr _, s1) \<Rightarrow> f env' (batchEnd + 1) hi (saveCursor env' batchEnd s1)))
      else Some (Inr (), s)) = Some x"
      and e: "env' = env" and pre: "covers ledger c (lo - 1) s" "covers ledger c (nullish (ix_cursor s) 0) s"
    show "covers ledger c (nullish (ix_cursor (snd x)) 0) (snd x) \<and> keeps_rows s (snd x)"
    proof (cases "lo \<le> hi")
      case False
      then show ?thesis using eq pre by auto
    next
      case True
      define b where "b = min (lo + ie_batchSize env - 1) hi"
      obtain a w where a: "ie_events env lo b (ix_world s) = (a, w)" by (cases "ie_events env lo b (ix_world s)")
      show ?thesis
      proof (cases a)
        case (Inl m)
        then have "x = (Inl m, s\<lparr>ix_world := w\<rparr>)" using eq True a by (simp add: e b_def Let_def)
        then show ?thesis using pre by (simp add: covers_def recorded_def)
      next
        case (Inr es)
        obtain p s1 where p: "persistEvents env es (s\<lparr>ix_world := w\<rparr>) = (p, s1)" by (cases "persistEvents env es (s\<lparr>ix_world := w\<rparr>)")
        have k: "keeps_rows s s1" "ix_cursor s1 = ix_cursor s" using persist_keeps [OF p] by (simp_all add: keeps_rows_def)
        show ?thesis
        proof (cases p)
          case (Inl m)
          then have "x = (Inl m, s1)" using eq True a \<open>a = Inr es\<close> p by (simp add: e b_def Let_def)
          then show ?thesis using pre k covers_keeps by simp
        next
          case (Inr u)
          have step: "f env (b + 1) hi (saveCursor env b s1) = Some x"
            using eq True a \<open>a = Inr es\<close> p Inr by (simp add: e b_def [symmetric] Let_def)
          have es: "\<forall>n. lo \<le> n \<and> n \<le> b \<longrightarrow> set (ledger n) \<subseteq> set es"
            using law a \<open>a = Inr es\<close> unfolding events_law_def by blast
          have "covers ledger c b s1"
            unfolding covers_def
          proof (intro allI impI)
            fix n e assume n: "c < n \<and> n \<le> b \<and> e \<in> set (ledger n)"
            show "recorded (ev_txHash e) s1"
            proof (cases "n \<le> lo - 1")
              case True
              then have "recorded (ev_txHash e) s" using pre(1) n unfolding covers_def by blast
              then show ?thesis using k(1) recorded_keeps by blast
            next
              case False
              then have "lo \<le> n" by simp
              then have "e \<in> set es" using es n by blast
              then show ?thesis using persist_records p Inr by blast
            qed
          qed
          moreover have "covers ledger c (nullish (ix_cursor s) 0) s1" using pre(2) k covers_keeps by blast
          moreover have sv: "keeps_rows s1 (saveCursor env b s1)"
              "ix_cursor (saveCursor env b s1) = Some b \<or> ix_cursor (saveCursor env b s1) = ix_cursor s"
            using k(2) by (auto simp: saveCursor_def Let_def case_prod_beta)
          ultimately have "covers ledger c (b + 1 - 1) (saveCursor env b s1)"
              "covers ledger c (nullish (ix_cursor (saveCursor env b s1)) 0) (saveCursor env b s1)"
            using covers_keeps by (auto simp: nullish_def split: option.splits)
          then have "covers ledger c (nullish (ix_cursor (snd x)) 0) (snd x) \<and> keeps_rows (saveCursor env b s1) (snd x)"
            using IH [OF step] by blast
          then show ?thesis using k(1) sv(1) keeps_trans by blast
        qed
      qed
    qed
  qed
  from this [OF assms(2)] show ?thesis using assms(3,4) by simp
qed

lemma tick_covers:
  assumes "events_law env ledger" and "tick env s = Some (r, s')" and "0 \<le> c" and "covers ledger c (nullish (ix_cursor s) 0) s"
  shows "covers ledger c (nullish (ix_cursor s') 0) s' \<and> keeps_rows s s'"
proof -
  obtain cur s1 where g: "getCursor env s = (cur, s1)" by (cases "getCursor env s")
  have s1: "ix_rows s1 = ix_rows s" "ix_cursor s1 = ix_cursor s" "cur = nullish (ix_cursor s) 0 \<or> cur = 0"
    using g by (auto simp: getCursor_def Let_def case_prod_beta split: if_splits)
  obtain a w where a: "ie_latest env (ix_world s1) = (a, w)" by (cases "ie_latest env (ix_world s1)")
  let ?s2 = "s1\<lparr>ix_world := w\<rparr>"
  have same: "covers ledger c d ?s2 \<longleftrightarrow> covers ledger c d s" for d by (simp add: covers_def recorded_def s1(1))
  have keep: "keeps_rows s ?s2" by (simp add: s1(1))
  show ?thesis
  proof (cases "\<exists>latest. a = Inr latest \<and> cur < latest")
    case False
    then have "s' = ?s2" using assms(2) by (cases a) (auto simp: tick_def g a Let_def)
    then show ?thesis using same assms(4) keep s1(2) by simp
  next
    case True
    then obtain latest where "indexRange env (cur + 1) latest ?s2 = Some (r, s')"
      using assms(2) by (auto simp: tick_def g a Let_def)
    moreover have "covers ledger c cur s" using s1(3) assms(3,4) unfolding covers_def by force
    then have "covers ledger c (cur + 1 - 1) ?s2" using same by simp
    moreover have "covers ledger c (nullish (ix_cursor ?s2) 0) ?s2" using same assms(4) s1(2) by simp
    ultimately have "covers ledger c (nullish (ix_cursor s') 0) s' \<and> keeps_rows ?s2 s'" by (rule range_covers [OF assms(1)])
    then show ?thesis using keep keeps_trans by blast
  qed
qed

lemma rounds_cover:
  assumes "events_law env ledger" and "0 \<le> c"
  shows "indexer_rounds env n s = Some s' \<Longrightarrow> covers ledger c (nullish (ix_cursor s) 0) s \<Longrightarrow>
     covers ledger c (nullish (ix_cursor s') 0) s' \<and> keeps_rows s s'"
proof (induction n arbitrary: s)
  case (Suc n)
  obtain r s1 where t: "tick env s = Some (r, s1)" and rest: "indexer_rounds env n s1 = Some s'"
    using Suc.prems(1) by (auto split: option.splits)
  have "covers ledger c (nullish (ix_cursor s1) 0) s1 \<and> keeps_rows s s1"
    by (rule tick_covers [OF assms(1) t assms(2) Suc.prems(2)])
  then show ?case using Suc.IH [OF rest] keeps_trans by blast
qed auto


text \<open>
  Indexing again is harmless: the rows that are in the table stay as they are and where they
  are, and no transaction gets a second row.
\<close>

theorem indexer_rows_stable:
  assumes "events_law env ledger" and "0 \<le> nullish (ix_cursor s) 0" and "indexer_rounds env k s = Some s'"
    and "distinct (map ir_transaction_hash (ix_rows s))"
  shows "take (length (ix_rows s)) (ix_rows s') = ix_rows s \<and> distinct (map ir_transaction_hash (ix_rows s'))"
proof -
  have "covers ledger (nullish (ix_cursor s) 0) (nullish (ix_cursor s) 0) s" by (auto simp: covers_def)
  from rounds_cover [OF assms(1,2,3) this] assms(4) show ?thesis by (auto simp: keeps_rows_def)
qed

section \<open>Returning\<close>

lemma range_returns:
  assumes "1 \<le> ie_batchSize env"
  shows "indexRange env lo hi s \<noteq> None"
proof (induction "nat (hi + 1 - lo)" arbitrary: lo s rule: less_induct)
  case less
  show ?case
  proof (cases "lo \<le> hi")
    case False
    then show ?thesis by (simp add: indexRange.simps [of env lo])
  next
    case True
    let ?b = "min (lo + ie_batchSize env - 1) hi"
    have "nat (hi + 1 - (?b + 1)) < nat (hi + 1 - lo)" using True assms by (auto simp: min_def)
    from less [OF this] have "indexRange env (?b + 1) hi s1 \<noteq> None" for s1 .
    then show ?thesis using True
      by (subst indexRange.simps) (auto simp: Let_def split: sum.split prod.split)
  qed
qed

text \<open>
  A round of the indexer returns when a batch has at least one ledger, however far behind the
  cursor is.
\<close>

theorem indexer_round_returns:
  assumes "1 \<le> ie_batchSize env"
  shows "\<exists>s'. indexer_rounds env k s = Some s'"
proof (induction k arbitrary: s)
  case (Suc k)
  have "tick env s \<noteq> None"
    using range_returns [OF assms] by (auto simp: tick_def Let_def split: prod.split sum.split)
  then obtain r s1 where "tick env s = Some (r, s1)" by auto
  then show ?case using Suc [of s1] by auto
qed simp

section \<open>A ledger for the witnesses\<close>

definition demo_event :: "string \<Rightarrow> int \<Rightarrow> raw_event" where
  "demo_event h n = \<lparr>ev_id = h, ev_type = ''contract'', ev_ledger = n, ev_ledgerClosedAt = None, ev_contractId = ''C'', ev_txHash = h,
     ev_topic = [''Renewal'', '' Executed''], ev_value = JNull\<rparr>"

definition demo_ledger :: "int \<Rightarrow> raw_event list" where
  "demo_ledger n = (if n = 3 then [demo_event ''t3'' 3] else if n = 5 then [demo_event ''t5'' 5] else [])"

text \<open>The world counts the answers; every third upsert fails.\<close>

definition demo_index_env :: "nat index_env" where
  "demo_index_env = \<lparr>ie_readCursor = (\<lambda>w. (True, w)), ie_latest = (\<lambda>w. (Inr 6, w)),
     ie_events = (\<lambda>a b w. (Inr (concat (map demo_ledger [a..b])), Suc w)),
     ie_upsert = (\<lambda>w. (if w mod 3 = 2 then Some ''down'' else None, Suc w)), ie_saveCursor = (\<lambda>w. (True, w)),
     ie_now = (\<lambda>w. ''now''), ie_batchSize = 2\<rparr>"

lemma demo_events_law: "events_law demo_index_env demo_ledger"
  by (auto simp: events_law_def demo_index_env_def)

definition demo_indexer :: "nat indexer" where
  "demo_indexer = \<lparr>ix_cursor = Some 1, ix_rows = [], ix_world = 0\<rparr>"

lemma demo_rounds: "map_option ix_cursor (indexer_rounds demo_index_env 3 demo_indexer) = Some (Some 6)"
  by code_simp

definition demo_indexed :: "nat indexer" where
  "demo_indexed = the (indexer_rounds demo_index_env 3 demo_indexer)"

lemma demo_indexed: "indexer_rounds demo_index_env 3 demo_indexer = Some demo_indexed \<and> ix_cursor demo_indexed = Some 6"
  using demo_rounds by (auto simp: demo_indexed_def)


theorem indexer_rows_stable_witness:
  "take (length (ix_rows demo_indexer)) (ix_rows demo_indexed) = ix_rows demo_indexer \<and> distinct (map ir_transaction_hash (ix_rows demo_indexed))"
  by (rule indexer_rows_stable [OF demo_events_law _ conjunct1 [OF demo_indexed]]) (simp_all add: demo_indexer_def)

theorem indexer_round_returns_witness: "\<exists>s'. indexer_rounds demo_index_env 4 demo_indexer = Some s'"
  by (rule indexer_round_returns) (simp add: demo_index_env_def)

section \<open>Events that share a transaction\<close>

text \<open>
  Two events of one transaction: the upsert is keyed by the transaction, so the second event is
  dropped, and the table holds the first one only.
\<close>

theorem second_event_of_transaction_lost:
  assumes "\<not> recorded h s" and "ev_txHash e1 = h" and "ev_txHash e2 = h" and "ie_upsert env (ix_world s) = (None, w)"
  shows "filter (\<lambda>r. ir_transaction_hash r = h) (ix_rows (snd (persistEvents env [e1, e2] s))) = [event_row (ie_now env (ix_world s)) e1]"
proof -
  have "filter (\<lambda>r. ir_transaction_hash r = h) (ix_rows s) = []" using assms(1) by (auto simp: recorded_def list_ex_iff filter_empty_conv)
  moreover have "\<not> list_ex (\<lambda>q. ir_transaction_hash q = h) (ix_rows s)" using assms(1) by (simp add: recorded_def)
  ultimately show ?thesis using assms(2-4)
    by (simp add: persistEvents_def upsert_rows_def upsert_row_def event_row_def)
qed

end
