(* ===== verification/Settlement.thy ===== *)
theory Settlement
  imports ChainLog ChannelOps
begin

text \<open>
  Settlement in batches (\<open>backend/src/services/settlement-batcher.ts\<close>) and the job that closes
  channels that are due (\<open>backend/src/jobs/channel-settlement-job.ts\<close>).  Settlements are rows of
  \<open>pending_settlements\<close>; a tick takes a batch of them, has it written to the ledger and marks the rows.

  Selects order by creation; rows created at the same moment are taken in the order of the table.
  Whether a statement succeeds is an argument, the random numbers of the shuffle too.  Amounts are
  numbers; the document \<open>payload\<close> is kept as JSON.
\<close>

section \<open>Configuration and counters\<close>

record batch_config =
  bt_minBatchSize :: int
  bt_maxBatchSize :: int
  bt_maxWaitMs :: int
  bt_maxQueueDepth :: int
  bt_maxInFlightBatches :: int

text \<open>The defaults of the environment variables.\<close>

definition default_batch_config :: batch_config where
  "default_batch_config = \<lparr>bt_minBatchSize = 3, bt_maxBatchSize = 20, bt_maxWaitMs = 300000, bt_maxQueueDepth = 500, bt_maxInFlightBatches = 2\<rparr>"

record settlement_metrics =
  sm_enqueued :: int
  sm_processed :: int
  sm_batchesSubmitted :: int
  sm_backpressureRejections :: int
  sm_lastBatchSize :: int
  sm_lastQueueDepth :: int
  sm_inFlightBatches :: int

definition zero_metrics :: settlement_metrics where
  "zero_metrics = \<lparr>sm_enqueued = 0, sm_processed = 0, sm_batchesSubmitted = 0, sm_backpressureRejections = 0, sm_lastBatchSize = 0,
     sm_lastQueueDepth = 0, sm_inFlightBatches = 0\<rparr>"

record batcher =
  ba_config :: batch_config
  ba_inFlight :: int
  ba_metrics :: settlement_metrics

definition new_batcher :: "batch_config \<Rightarrow> batcher" where
  "new_batcher cf =
     (let c1 = (if bt_maxBatchSize cf < 1 then cf\<lparr>bt_maxBatchSize := 1\<rparr> else cf);
          c2 = (if bt_maxBatchSize c1 < bt_minBatchSize c1 then c1\<lparr>bt_minBatchSize := bt_maxBatchSize c1\<rparr> else c1);
          c3 = (if bt_maxQueueDepth c2 < bt_maxBatchSize c2 then c2\<lparr>bt_maxQueueDepth := bt_maxBatchSize c2\<rparr> else c2)
      in \<lparr>ba_config = c3, ba_inFlight = 0, ba_metrics = zero_metrics\<rparr>)"

definition getMetrics_batcher :: "batcher \<Rightarrow> settlement_metrics" where
  "getMetrics_batcher b = (ba_metrics b)\<lparr>sm_inFlightBatches := ba_inFlight b\<rparr>"

definition resetMetrics :: "batcher \<Rightarrow> batcher" where
  "resetMetrics b = b\<lparr>ba_metrics := zero_metrics\<rparr>"

section \<open>The queue\<close>

datatype settlement_type = Renewal_settlement | Channel_close

definition settlement_type_name :: "settlement_type \<Rightarrow> string" where
  "settlement_type_name t = (case t of Renewal_settlement \<Rightarrow> ''renewal'' | Channel_close \<Rightarrow> ''channel_close'')"

datatype settlement_status = Pending_settlement | Submitted_settlement

record settlement_input =
  si_userId :: ident
  si_subscriptionId :: ident
  si_amount :: amount
  si_type :: settlement_type
  si_payload :: json

record settlement_row = settlement_input +
  si_id :: ident
  si_createdAt :: millis
  si_status :: settlement_status
  si_batchId :: "string option"
  si_transactionHash :: "string option"
  si_submittedAt :: "millis option"

record 'w settlement_state =
  ss_batcher :: batcher
  ss_table :: "settlement_row list"
  ss_chain :: "'w chain_service"

definition is_pending :: "settlement_row \<Rightarrow> bool" where
  "is_pending r \<longleftrightarrow> si_status r = Pending_settlement"

definition pending_count :: "settlement_row list \<Rightarrow> nat" where
  "pending_count t = length (filter is_pending t)"

definition getQueueDepth :: "string option \<Rightarrow> 'w settlement_state \<Rightarrow> (string + int) \<times> 'w settlement_state" where
  "getQueueDepth err s =
     (case err of
        Some e \<Rightarrow> (Inl e, s)
      | None \<Rightarrow>
          (let depth = int (pending_count (ss_table s))
           in (Inr depth, s\<lparr>ss_batcher := (ss_batcher s)\<lparr>ba_metrics := (ba_metrics (ss_batcher s))\<lparr>sm_lastQueueDepth := depth\<rparr>\<rparr>\<rparr>)))"

datatype enqueue_error = Backpressure int int | Settlement_db string

text \<open>The depth is read first; \<open>interfere\<close> is what others do before the row is inserted.\<close>

definition insert_settlement :: "string option \<Rightarrow> ident \<Rightarrow> millis \<Rightarrow> settlement_input \<Rightarrow> int \<Rightarrow> 'w settlement_state \<Rightarrow>
    (enqueue_error + ident) \<times> 'w settlement_state" where
  "insert_settlement err i now x depth s =
     (case err of
        Some e \<Rightarrow> (Inl (Settlement_db e), s)
      | None \<Rightarrow>
          (let m = ba_metrics (ss_batcher s);
               r = \<lparr>si_userId = si_userId x, si_subscriptionId = si_subscriptionId x, si_amount = si_amount x, si_type = si_type x,
                    si_payload = si_payload x, si_id = i, si_createdAt = now, si_status = Pending_settlement, si_batchId = None,
                    si_transactionHash = None, si_submittedAt = None\<rparr>
           in (Inr i, s\<lparr>ss_table := ss_table s @ [r],
                        ss_batcher := (ss_batcher s)\<lparr>ba_metrics := m\<lparr>sm_enqueued := sm_enqueued m + 1, sm_lastQueueDepth := depth + 1\<rparr>\<rparr>\<rparr>)))"

definition enqueue :: "string option \<Rightarrow> string option \<Rightarrow> ident \<Rightarrow> millis \<Rightarrow> ('w settlement_state \<Rightarrow> 'w settlement_state) \<Rightarrow> settlement_input \<Rightarrow>
    'w settlement_state \<Rightarrow> (enqueue_error + ident) \<times> 'w settlement_state" where
  "enqueue err1 err2 i now interfere x s =
     (case getQueueDepth err1 s of
        (Inl e, s1) \<Rightarrow> (Inl (Settlement_db e), s1)
      | (Inr depth, s1) \<Rightarrow>
          (let b = ss_batcher s1; maxDepth = bt_maxQueueDepth (ba_config b)
           in if maxDepth \<le> depth
              then (Inl (Backpressure depth maxDepth),
                    s1\<lparr>ss_batcher := b\<lparr>ba_metrics := (ba_metrics b)\<lparr>sm_backpressureRejections := sm_backpressureRejections (ba_metrics b) + 1\<rparr>\<rparr>\<rparr>)
              else insert_settlement err2 i now x depth (interfere s1)))"

section \<open>A batch\<close>

record pending_item = settlement_input +
  pi_id :: ident
  pi_createdAt :: millis

definition toPending :: "settlement_row \<Rightarrow> pending_item" where
  "toPending r =
     \<lparr>si_userId = si_userId r, si_subscriptionId = si_subscriptionId r, si_amount = si_amount r, si_type = si_type r,
      si_payload = si_payload r, pi_id = si_id r, pi_createdAt = si_createdAt r\<rparr>"

text \<open>The shuffle from the end, with a random number below 1 for every position.\<close>

fun shuffle_from :: "(nat \<Rightarrow> amount) \<Rightarrow> nat \<Rightarrow> 'a list \<Rightarrow> 'a list" where
  "shuffle_from pick 0 xs = xs"
| "shuffle_from pick (Suc i) xs =
     (let j = nat \<lfloor>pick (Suc i) * of_nat (Suc i + 1)\<rfloor>
      in shuffle_from pick i (xs[j := xs ! Suc i, Suc i := xs ! j]))"

definition shuffle_items :: "(nat \<Rightarrow> amount) \<Rightarrow> 'a list \<Rightarrow> 'a list" where
  "shuffle_items pick xs = shuffle_from pick (length xs - 1) xs"

definition oldest_pending :: "(settlement_row \<Rightarrow> bool) \<Rightarrow> int \<Rightarrow> settlement_row list \<Rightarrow> settlement_row list" where
  "oldest_pending P limit t = take (nat limit) (sort_key si_createdAt (filter (\<lambda>r. is_pending r \<and> P r) t))"

text \<open>A select that fails yields no data (\<open>agedFails\<close>, \<open>recentFails\<close>).\<close>

definition getPendingBatch :: "bool \<Rightarrow> bool \<Rightarrow> batch_config \<Rightarrow> millis \<Rightarrow> (nat \<Rightarrow> amount) \<Rightarrow> settlement_row list \<Rightarrow> pending_item list" where
  "getPendingBatch agedFails recentFails cf now pick t =
     (let cutoff = now - bt_maxWaitMs cf;
          aged = (if agedFails then [] else oldest_pending (\<lambda>r. si_createdAt r \<le> cutoff) (bt_maxBatchSize cf) t);
          pending = (if recentFails then [] else oldest_pending (\<lambda>r. True) (bt_maxBatchSize cf) t);
          waitExpired = (case pending of [] \<Rightarrow> False | r # _ \<Rightarrow> si_createdAt r \<le> cutoff)
      in if int (length pending) < bt_minBatchSize cf \<and> \<not> waitExpired then []
         else (let raw = (if aged \<noteq> [] then aged else pending)
               in shuffle_items pick (map toPending (take (nat (bt_maxBatchSize cf)) raw))))"

text \<open>How the ledger is reached: the environment of the chain service, its answers for this call, and whether
  the rows can be marked.\<close>

record 'w sync_env =
  sy_env :: "'w chain_service_env"
  sy_privacy :: "string + bool"
  sy_insert :: "string + ident"
  sy_logUpdates :: bool
  sy_marks :: bool

definition batch_data :: "pending_item list \<Rightarrow> json" where
  "batch_data items = JObj
     [(''type'', JStr ''batch_settlement''),
      (''settlements'', JArr (map (\<lambda>x. JObj [(''subscriptionId'', JStr (si_subscriptionId x)), (''amount'', JNum (si_amount x)),
          (''type'', JStr (settlement_type_name (si_type x)))]) items))]"

definition batch_id :: "millis \<Rightarrow> nat \<Rightarrow> string" where
  "batch_id now n = ''batch_'' @ show_int now @ ''_'' @ show_nat n"

definition mark_submitted :: "string \<Rightarrow> string option \<Rightarrow> millis \<Rightarrow> ident list \<Rightarrow> settlement_row list \<Rightarrow> settlement_row list" where
  "mark_submitted bid tx now ids t =
     map (\<lambda>r. if List.member ids (si_id r)
              then r\<lparr>si_status := Submitted_settlement, si_batchId := Some bid, si_transactionHash := tx, si_submittedAt := Some now\<rparr> else r) t"

definition submitBatch :: "'w sync_env \<Rightarrow> millis \<Rightarrow> (nat \<Rightarrow> amount) \<Rightarrow> pending_item list \<Rightarrow> 'w settlement_state \<Rightarrow>
    ((string \<times> string option) \<times> 'w settlement_state) option" where
  "submitBatch sy now pick batch s =
     (if batch = [] then Some (([], None), s)
      else (let capped = take (nat (bt_maxBatchSize (ba_config (ss_batcher s)))) batch;
                bid = batch_id now (length capped);
                items = shuffle_items pick capped
            in map_option (\<lambda>(res, chain).
                 (let tx = wr_transactionHash res; m = ba_metrics (ss_batcher s)
                  in ((bid, tx),
                      s\<lparr>ss_chain := chain,
                        ss_table := (if sy_marks sy then mark_submitted bid tx now (map pi_id items) (ss_table s) else ss_table s),
                        ss_batcher := (ss_batcher s)\<lparr>ba_metrics :=
                          m\<lparr>sm_batchesSubmitted := sm_batchesSubmitted m + 1, sm_processed := sm_processed m + int (length items),
                            sm_lastBatchSize := int (length items)\<rparr>\<rparr>\<rparr>)))
               (syncSubscription (sy_env sy) (sy_privacy sy) (sy_insert sy) (sy_logUpdates sy) bid bid Update_op (batch_data items) (ss_chain s))))"

section \<open>A tick\<close>

record process_result =
  pp_processed :: nat
  pp_batchId :: "string option"
  pp_skipped :: bool

definition tick_begin :: "batcher \<Rightarrow> batcher option" where
  "tick_begin b =
     (if bt_maxInFlightBatches (ba_config b) \<le> ba_inFlight b then None else Some (b\<lparr>ba_inFlight := ba_inFlight b + 1\<rparr>))"

definition tick_end :: "batcher \<Rightarrow> batcher" where
  "tick_end b = b\<lparr>ba_inFlight := max 0 (ba_inFlight b - 1)\<rparr>"

definition processPending :: "bool \<Rightarrow> bool \<Rightarrow> 'w sync_env \<Rightarrow> millis \<Rightarrow> (nat \<Rightarrow> amount) \<Rightarrow> (nat \<Rightarrow> amount) \<Rightarrow> 'w settlement_state \<Rightarrow>
    (process_result \<times> 'w settlement_state) option" where
  "processPending agedFails recentFails sy now pick1 pick2 s =
     (case tick_begin (ss_batcher s) of
        None \<Rightarrow> Some (\<lparr>pp_processed = 0, pp_batchId = None, pp_skipped = True\<rparr>, s)
      | Some b \<Rightarrow>
          (let s1 = s\<lparr>ss_batcher := b\<rparr>;
               batch = getPendingBatch agedFails recentFails (ba_config b) now pick1 (ss_table s1)
           in if batch = [] then Some (\<lparr>pp_processed = 0, pp_batchId = None, pp_skipped = False\<rparr>, s1\<lparr>ss_batcher := tick_end b\<rparr>)
              else map_option (\<lambda>((bid, tx), s2).
                     (\<lparr>pp_processed = length batch, pp_batchId = Some bid, pp_skipped = False\<rparr>, s2\<lparr>ss_batcher := tick_end (ss_batcher s2)\<rparr>))
                   (submitBatch sy now pick2 batch s1)))"

section \<open>Closing the channels that are due\<close>

text \<open>
  One candidate of the job: the settlement is queued, the channel is closed, the settlement is
  noted; the first step that fails ends the candidate, and the job goes on with the next.
\<close>

definition settle_candidate :: "'d channel_db \<Rightarrow> channel_env \<Rightarrow> string option \<Rightarrow> string option \<Rightarrow> ident \<Rightarrow> settlement_candidate \<Rightarrow>
    'd \<times> 'w settlement_state \<Rightarrow> (unit + unit) \<times> ('d \<times> 'w settlement_state) \<times> effect list" where
  "settle_candidate ops env err1 err2 newId c st =
     (case enqueue err1 err2 newId (ce_now env) (\<lambda>x. x)
         \<lparr>si_userId = sc_userId c, si_subscriptionId = sc_channelId c, si_amount = sc_executorBalance c, si_type = Channel_close,
          si_payload = JObj [(''channelId'', JStr (sc_channelId c))]\<rparr> (snd st) of
        (Inl _, s1) \<Rightarrow> (Inl (), (fst st, s1), [])
      | (Inr _, s1) \<Rightarrow>
          (case initiateClose ops env (sc_userId c) (sc_channelId c) False (fst st) of
             (Inl _, d1, es) \<Rightarrow> (Inl (), (d1, s1), es)
           | (Inr _, d1, es) \<Rightarrow>
               (case markChannelSettled ops (ce_now env) (sc_channelId c) (sc_userId c) d1 of
                  (Inl _, d2) \<Rightarrow> (Inl (), (d2, s1), es)
                | (Inr _, d2) \<Rightarrow> (Inr (), (d2, s1), es))))"

fun settle_candidates :: "'d channel_db \<Rightarrow> channel_env \<Rightarrow> (settlement_candidate \<times> string option \<times> string option \<times> ident) list \<Rightarrow>
    'd \<times> 'w settlement_state \<Rightarrow> ('d \<times> 'w settlement_state) \<times> effect list" where
  "settle_candidates ops env [] st = (st, [])"
| "settle_candidates ops env ((c, err1, err2, i) # cs) st =
     (let (_, st1, es) = settle_candidate ops env err1 err2 i c st; (st2, es2) = settle_candidates ops env cs st1 in (st2, es @ es2))"

text \<open>The job: \<open>answers\<close> are what the database says to the insert of a candidate's settlement.\<close>

definition channelSettlementJob :: "bool \<Rightarrow> 'd channel_db \<Rightarrow> channel_env \<Rightarrow> (ident \<Rightarrow> profile option) \<Rightarrow>
    (settlement_candidate \<Rightarrow> string option \<times> string option \<times> ident) \<Rightarrow> 'd \<times> 'w settlement_state \<Rightarrow> ('d \<times> 'w settlement_state) \<times> effect list" where
  "channelSettlementJob enabled ops env profiles answers st =
     (if \<not> enabled then (st, [])
      else (case getChannelsDueForSettlement ops profiles (ce_now env) (fst st) of
          Inl _ \<Rightarrow> (st, [])
        | Inr due \<Rightarrow> settle_candidates ops env (map (\<lambda>c. (c, answers c)) due) st))"

end
