(* ===== verification/SettlementProps.thy ===== *)
theory SettlementProps
  imports Settlement ChannelProps ChainLogProps
begin

text \<open>
  What batching promises: a batch is the oldest settlements that wait, the queue and the batches in
  flight are bounded, aged settlements drain, and a settled channel is closing.
\<close>

section \<open>A batch\<close>

definition draws_ok :: "(nat \<Rightarrow> amount) \<Rightarrow> bool" where
  "draws_ok pick \<longleftrightarrow> (\<forall>i. 0 \<le> pick i \<and> pick i < 1)"

lemma draw_bound:
  assumes "draws_ok pick"
  shows "nat \<lfloor>pick k * of_nat (Suc i + 1)\<rfloor> \<le> Suc i"
proof -
  have "pick k * of_nat (Suc i + 1) < 1 * of_nat (Suc i + 1)"
    using assms by (intro mult_strict_right_mono) (simp_all add: draws_ok_def)
  then have "\<lfloor>pick k * of_nat (Suc i + 1)\<rfloor> < int (Suc i + 1)"
    by (simp add: floor_less_iff)
  then show ?thesis by linarith
qed

lemma shuffle_from_mset:
  assumes "draws_ok pick"
  shows "i < length xs \<Longrightarrow> mset (shuffle_from pick i xs) = mset xs"
proof (induction i arbitrary: xs)
  case (Suc i)
  let ?j = "nat \<lfloor>pick (Suc i) * of_nat (Suc i + 1)\<rfloor>"
  have "?j < length xs" using draw_bound [OF assms, of "Suc i" i] Suc.prems by linarith
  then show ?case using Suc.IH [of "xs[?j := xs ! Suc i, Suc i := xs ! ?j]"] Suc.prems
    by (simp add: Let_def mset_swap)
qed simp

lemma shuffle_mset: "draws_ok pick \<Longrightarrow> mset (shuffle_items pick xs) = mset xs"
  by (cases xs) (simp_all add: shuffle_items_def shuffle_from_mset)

lemma shuffle_length: "draws_ok pick \<Longrightarrow> length (shuffle_items pick xs) = length xs"
  using shuffle_mset [of pick xs] by (metis size_mset)

lemma shuffle_empty: "draws_ok pick \<Longrightarrow> shuffle_items pick xs = [] \<longleftrightarrow> xs = []"
  using shuffle_length [of pick xs] by (metis length_0_conv)

text \<open>The settlements that wait, oldest first.\<close>

definition waiting :: "settlement_row list \<Rightarrow> settlement_row list" where
  "waiting t = sort_key si_createdAt (filter is_pending t)"

definition aged_count :: "millis \<Rightarrow> settlement_row list \<Rightarrow> nat" where
  "aged_count cutoff t = length (filter (\<lambda>r. is_pending r \<and> si_createdAt r \<le> cutoff) t)"

lemma sorted_prefix:
  "sorted (map f xs) \<Longrightarrow> filter (\<lambda>x. f x \<le> c) xs = take (length (filter (\<lambda>x. f x \<le> c) xs)) xs"
proof (induction xs)
  case (Cons x xs)
  show ?case
  proof (cases "f x \<le> c")
    case True
    then show ?thesis using Cons by simp
  next
    case False
    then have "\<forall>y\<in>set xs. \<not> f y \<le> c" using Cons.prems by auto
    then show ?thesis using False by (simp add: filter_empty_conv)
  qed
qed simp

lemma oldest_all: "oldest_pending (\<lambda>r. True) limit t = take (nat limit) (waiting t)"
  by (simp add: oldest_pending_def waiting_def)

lemma oldest_aged: "oldest_pending (\<lambda>r. si_createdAt r \<le> cutoff) limit t = take (min (nat limit) (aged_count cutoff t)) (waiting t)"
proof -
  let ?P = "\<lambda>r. si_createdAt r \<le> cutoff"
  have f: "filter (\<lambda>r. is_pending r \<and> ?P r) t = filter ?P (filter is_pending t)" by (simp add: conj_commute)
  have "length (filter ?P (waiting t)) = aged_count cutoff t"
    unfolding waiting_def aged_count_def f filter_sort [symmetric] by (metis length_sort filter_sort)
  moreover have "filter ?P (waiting t) = take (length (filter ?P (waiting t))) (waiting t)"
    by (rule sorted_prefix) (simp add: waiting_def)
  moreover have "sort_key si_createdAt (filter (\<lambda>r. is_pending r \<and> ?P r) t) = filter ?P (waiting t)"
    unfolding waiting_def f by (simp add: filter_sort)
  ultimately show ?thesis by (simp add: oldest_pending_def min.commute)
qed

definition batch_count :: "batch_config \<Rightarrow> millis \<Rightarrow> settlement_row list \<Rightarrow> nat" where
  "batch_count cf now t =
     (let aged = aged_count (now - bt_maxWaitMs cf) t; n = length (waiting t)
      in min (nat (bt_maxBatchSize cf)) (if 0 < aged then aged else if bt_minBatchSize cf \<le> int n then n else 0))"

definition config_ok :: "batch_config \<Rightarrow> bool" where
  "config_ok cf \<longleftrightarrow> 1 \<le> bt_maxBatchSize cf \<and> bt_minBatchSize cf \<le> bt_maxBatchSize cf \<and> bt_maxBatchSize cf \<le> bt_maxQueueDepth cf"

lemma new_batcher_config_ok: "config_ok (ba_config (new_batcher cf))"
  by (auto simp: new_batcher_def config_ok_def Let_def)

lemma aged_head: "(case waiting t of [] \<Rightarrow> False | r # _ \<Rightarrow> si_createdAt r \<le> c) \<longleftrightarrow> 0 < aged_count c t"
proof -
  let ?P = "\<lambda>r. si_createdAt r \<le> c"
  have f: "filter (\<lambda>r. is_pending r \<and> ?P r) t = filter ?P (filter is_pending t)" by (simp add: conj_commute)
  have n: "aged_count c t = length (filter ?P (waiting t))"
    unfolding waiting_def aged_count_def f filter_sort by (rule length_sort [symmetric])
  have s: "sorted (map si_createdAt (waiting t))" by (simp add: waiting_def)
  show ?thesis
  proof (cases "waiting t")
    case (Cons r rs)
    then show ?thesis using s unfolding n by (auto simp: filter_empty_conv)
  qed (simp add: n)
qed

lemma take_head: "0 < n \<Longrightarrow> (case take n xs of [] \<Rightarrow> False | r # _ \<Rightarrow> Q r) \<longleftrightarrow> (case xs of [] \<Rightarrow> False | r # _ \<Rightarrow> Q r)"
  by (cases n; cases xs) simp_all

lemma aged_le: "aged_count c t \<le> length (waiting t)"
proof -
  have "filter (\<lambda>r. is_pending r \<and> si_createdAt r \<le> c) t = filter (\<lambda>r. si_createdAt r \<le> c) (filter is_pending t)"
    by (simp add: conj_commute)
  then show ?thesis using length_filter_le [of "\<lambda>r. si_createdAt r \<le> c" "filter is_pending t"]
    by (simp only: aged_count_def waiting_def length_sort)
qed

lemma take_min_length: "take (min n (length xs)) xs = take n xs"
  by (simp add: min_def)

text \<open>What is selected, before it is shuffled.\<close>

lemma batch_rows:
  assumes "config_ok cf" and "draws_ok pick"
  shows "mset (getPendingBatch False False cf now pick t) = mset (map toPending (take (batch_count cf now t) (waiting t)))"
proof -
  let ?m = "nat (bt_maxBatchSize cf)" and ?c = "now - bt_maxWaitMs cf" and ?w = "waiting t"
  let ?a = "aged_count ?c t"
  have m: "0 < ?m" using assms(1) by (simp add: config_ok_def)
  have head: "(case take ?m ?w of [] \<Rightarrow> False | r # _ \<Rightarrow> si_createdAt r \<le> ?c) \<longleftrightarrow> 0 < ?a"
    by (simp only: take_head [OF m] aged_head)
  have few: "int (length (take ?m ?w)) < bt_minBatchSize cf \<longleftrightarrow> int (length ?w) < bt_minBatchSize cf"
    using assms(1) by (auto simp: config_ok_def min_def)
  show ?thesis
  proof (cases "0 < ?a")
    case True
    then have "take (min ?m ?a) ?w \<noteq> []" using m aged_le [of ?c t] by (cases ?w) auto
    then show ?thesis using True head assms(2)
      by (simp add: getPendingBatch_def oldest_all oldest_aged batch_count_def Let_def shuffle_mset min.commute)
  next
    case False
    then show ?thesis using head few assms(2)
      by (auto simp: getPendingBatch_def oldest_all oldest_aged batch_count_def Let_def shuffle_mset take_min_length)
  qed
qed

text \<open>
  A batch is the settlements that wait longest, in some order: all that have waited too long, or
  else all that wait when there are enough for a batch, never more than the maximum, and nothing
  when neither holds.
\<close>

theorem batch_is_oldest:
  assumes "draws_ok pick"
  shows "mset (getPendingBatch False False (ba_config (new_batcher cf)) now pick t) =
       mset (map toPending (take (batch_count (ba_config (new_batcher cf)) now t) (waiting t)))"
  by (rule batch_rows [OF new_batcher_config_ok assms])

section \<open>Draining\<close>

lemma guarded_some: "y \<noteq> None \<Longrightarrow> (if a then Some x else if b then Some x' else map_option f y) \<noteq> None"
  by simp

lemma guarded_answer: "(if a then Some x else if b then Some y else Some z) \<noteq> None"
  by simp

lemma invoke_returns:
  assumes "rpc_clock_ok (be_rpc env)"
  shows "invokeContractWithRetry env m args sub s \<noteq> None"
proof (cases "be_signer env")
  case (Inl e)
  show ?thesis unfolding invokeContractWithRetry_def Inl sum.case by (rule guarded_answer)
next
  case (Inr pk)
  have "submit (be_config env) (be_rpc env) p st \<noteq> None" for p st
    using submit_returns [OF assms, of "be_config env" p st] by auto
  then show ?thesis unfolding invokeContractWithRetry_def Inr sum.case by (rule guarded_some)
qed

lemma sync_returns:
  assumes "rpc_clock_ok (be_rpc env)"
  shows "\<exists>x. syncSubscription env privacy ins updates u sub op data s = Some x"
proof -
  have w: "write_private_or env privacy u ev (writeSubscriptionToBlockchain env op ev) s1 \<noteq> None" for ev s1
    unfolding write_private_or_def write_commitments_def writeSubscriptionToBlockchain_def
    by (cases privacy) (simp_all add: invoke_returns [OF assms] del: not_None_eq split: bool.split)
  let ?ev = "subscription_event env sub op data"
  show ?thesis
  proof (cases ins)
    case (Inr i)
    obtain r s2 where "write_private_or env privacy u ?ev (writeSubscriptionToBlockchain env op ?ev)
        (insert_log i u (''subscription_'' @ operation_name op) ?ev s) = Some (r, s2)" using w by fast
    then show ?thesis unfolding syncSubscription_def Let_def log_then_write_def Inr by (cases r) simp_all
  qed (simp add: syncSubscription_def log_then_write_def Let_def)
qed

definition ids_of :: "settlement_row list \<Rightarrow> ident list" where
  "ids_of t = map si_id t"

lemma mark_keeps_ids: "ids_of (mark_submitted bid tx now ids t) = ids_of t"
  by (simp add: ids_of_def mark_submitted_def)

lemma mark_pending:
  "filter is_pending (mark_submitted bid tx now ids t) = filter (\<lambda>r. is_pending r \<and> si_id r \<notin> set ids) t"
  by (induction t) (auto simp: mark_submitted_def is_pending_def List.member_iff)

lemma same_id:
  "distinct (ids_of t) \<Longrightarrow> r \<in> set t \<Longrightarrow> q \<in> set t \<Longrightarrow> si_id r = si_id q \<Longrightarrow> r = q"
  by (auto simp: ids_of_def distinct_map inj_on_def)

lemma mark_drains:
  assumes "distinct (ids_of t)" and "set ids = si_id ` set (take n (waiting t))"
  shows "pending_count (mark_submitted bid tx now ids t) = pending_count t - n"
proof -
  let ?P = "filter is_pending t" and ?R = "take n (waiting t)"
  have d: "distinct ?P" using assms(1) by (simp add: ids_of_def distinct_map)
  have w: "set (waiting t) = set ?P" "length (waiting t) = length ?P" "distinct (waiting t)" using d by (simp_all add: waiting_def)
  have R: "set ?R \<subseteq> set ?P" using w(1) by (metis set_take_subset)
  have "set (filter (\<lambda>r. is_pending r \<and> si_id r \<notin> set ids) t) = set ?P - set ?R"
    using same_id [OF assms(1)] R unfolding assms(2) by auto
  moreover have "distinct (filter (\<lambda>r. is_pending r \<and> si_id r \<notin> set ids) t)"
    using assms(1) by (simp add: ids_of_def distinct_map)
  ultimately have "pending_count (mark_submitted bid tx now ids t) = card (set ?P - set ?R)"
    unfolding pending_count_def mark_pending by (metis distinct_card)
  also have "\<dots> = length ?P - length ?R"
    using R d w(3) by (simp add: card_Diff_subset distinct_card distinct_take del: set_filter)
  finally show ?thesis using w(2) by (simp add: pending_count_def)
qed

record 'w tick_input =
  ti_env :: "'w sync_env"
  ti_now :: millis
  ti_pick1 :: "nat \<Rightarrow> amount"
  ti_pick2 :: "nat \<Rightarrow> amount"

fun run_ticks :: "'w tick_input list \<Rightarrow> 'w settlement_state \<Rightarrow> 'w settlement_state option" where
  "run_ticks [] s = Some s"
| "run_ticks (x # xs) s =
     (case processPending False False (ti_env x) (ti_now x) (ti_pick1 x) (ti_pick2 x) s of
        None \<Rightarrow> None | Some (_, s1) \<Rightarrow> run_ticks xs s1)"

text \<open>A tick that works: the ledger's clock advances, the rows can be marked, the draws are below 1, and
  everything that waits has waited too long.\<close>

definition good_tick :: "'w settlement_state \<Rightarrow> 'w tick_input \<Rightarrow> bool" where
  "good_tick s x \<longleftrightarrow> rpc_clock_ok (be_rpc (sy_env (ti_env x))) \<and> sy_marks (ti_env x) \<and> draws_ok (ti_pick1 x) \<and> draws_ok (ti_pick2 x) \<and>
     list_all (\<lambda>r. is_pending r \<longrightarrow> si_createdAt r \<le> ti_now x - bt_maxWaitMs (ba_config (ss_batcher s))) (ss_table s)"

definition idle :: "'w settlement_state \<Rightarrow> bool" where
  "idle s \<longleftrightarrow> config_ok (ba_config (ss_batcher s)) \<and> 0 \<le> ba_inFlight (ss_batcher s) \<and>
     ba_inFlight (ss_batcher s) < bt_maxInFlightBatches (ba_config (ss_batcher s)) \<and> distinct (ids_of (ss_table s))"

lemma all_aged: "list_all (\<lambda>r. is_pending r \<longrightarrow> si_createdAt r \<le> c) t \<Longrightarrow> aged_count c t = pending_count t"
  by (auto simp: aged_count_def pending_count_def list_all_iff intro!: arg_cong [of _ _ length] filter_cong)

lemma waiting_length: "length (waiting t) = pending_count t"
  by (simp add: waiting_def pending_count_def)

lemma pi_id_pending: "pi_id (toPending r) = si_id r"
  by (simp add: toPending_def)

text \<open>The effect of submitting a batch of rows that wait.\<close>

lemma submit_drains:
  assumes "rpc_clock_ok (be_rpc (sy_env sy))" "sy_marks sy" "draws_ok pick" "distinct (ids_of (ss_table s))" "batch \<noteq> []"
    and batch: "mset batch = mset (map toPending (take n (waiting (ss_table s))))" and max: "length batch \<le> nat (bt_maxBatchSize (ba_config (ss_batcher s)))"
  obtains bid tx s' where "submitBatch sy now pick batch s = Some ((bid, tx), s')"
    "pending_count (ss_table s') = pending_count (ss_table s) - n" "ids_of (ss_table s') = ids_of (ss_table s)"
    "filter is_pending (ss_table s') = filter (\<lambda>r. is_pending r \<and> si_id r \<notin> si_id ` set (take n (waiting (ss_table s)))) (ss_table s)"
    "ba_config (ss_batcher s') = ba_config (ss_batcher s)" "ba_inFlight (ss_batcher s') = ba_inFlight (ss_batcher s)"
proof -
  let ?cap = "take (nat (bt_maxBatchSize (ba_config (ss_batcher s)))) batch"
  let ?items = "shuffle_items pick batch" and ?bid = "batch_id now (length batch)"
  have cap: "?cap = batch" using max by simp
  obtain res chain where sync: "syncSubscription (sy_env sy) (sy_privacy sy) (sy_insert sy) (sy_logUpdates sy) ?bid ?bid Update_op
      (batch_data ?items) (ss_chain s) = Some (res, chain)" using sync_returns [OF assms(1)] by fast
  have ids: "set (map pi_id ?items) = si_id ` set (take n (waiting (ss_table s)))"
  proof -
    have "set ?items = set batch" using shuffle_mset [OF assms(3), of batch] by (metis set_mset_mset)
    also have "\<dots> = set (map toPending (take n (waiting (ss_table s))))" using batch by (metis set_mset_mset)
    finally show ?thesis by (simp add: image_image pi_id_pending)
  qed
  show thesis
    by (rule that [of ?bid "wr_transactionHash res"
          "s\<lparr>ss_chain := chain, ss_table := mark_submitted ?bid (wr_transactionHash res) now (map pi_id ?items) (ss_table s),
             ss_batcher := (ss_batcher s)\<lparr>ba_metrics := (ba_metrics (ss_batcher s))\<lparr>
               sm_batchesSubmitted := sm_batchesSubmitted (ba_metrics (ss_batcher s)) + 1,
               sm_processed := sm_processed (ba_metrics (ss_batcher s)) + int (length ?items), sm_lastBatchSize := int (length ?items)\<rparr>\<rparr>\<rparr>"])
      (use assms(2,5) sync cap ids mark_drains [OF assms(4) ids] in
        \<open>simp_all add: submitBatch_def Let_def mark_keeps_ids mark_pending\<close>)
qed

lemma tick_drains:
  assumes "idle s" and "good_tick s x"
  obtains r s' where "processPending False False (ti_env x) (ti_now x) (ti_pick1 x) (ti_pick2 x) s = Some (r, s')"
    "pending_count (ss_table s') = pending_count (ss_table s) - nat (bt_maxBatchSize (ba_config (ss_batcher s)))"
    "idle s'" "ba_config (ss_batcher s') = ba_config (ss_batcher s)"
    "set (filter is_pending (ss_table s')) \<subseteq> set (filter is_pending (ss_table s))"
proof -
  let ?cf = "ba_config (ss_batcher s)"
  let ?b = "(ss_batcher s)\<lparr>ba_inFlight := ba_inFlight (ss_batcher s) + 1\<rparr>" and ?c = "ti_now x - bt_maxWaitMs ?cf"
  let ?batch = "getPendingBatch False False ?cf (ti_now x) (ti_pick1 x) (ss_table s)"
  let ?n = "batch_count ?cf (ti_now x) (ss_table s)" and ?m = "nat (bt_maxBatchSize ?cf)"
  have cf: "config_ok ?cf" and flight: "0 \<le> ba_inFlight (ss_batcher s)" "ba_inFlight (ss_batcher s) < bt_maxInFlightBatches ?cf"
    and ids: "distinct (ids_of (ss_table s))" using assms(1) by (simp_all add: idle_def)
  have good: "rpc_clock_ok (be_rpc (sy_env (ti_env x)))" "sy_marks (ti_env x)" "draws_ok (ti_pick1 x)" "draws_ok (ti_pick2 x)"
    and aged: "aged_count ?c (ss_table s) = pending_count (ss_table s)"
    using assms(2) all_aged by (auto simp: good_tick_def)
  have start: "tick_begin (ss_batcher s) = Some ?b" using flight by (simp add: tick_begin_def)
  have rows: "mset ?batch = mset (map toPending (take ?n (waiting (ss_table s))))" by (rule batch_rows [OF cf good(3)])
  have n: "?n = min ?m (pending_count (ss_table s))"
    using aged cf by (auto simp: batch_count_def Let_def config_ok_def waiting_length)
  have len: "length ?batch = ?n" using arg_cong [OF rows, of size] n by (simp add: waiting_length)
  show thesis
  proof (cases "?batch = []")
    case True
    then have "pending_count (ss_table s) = 0" using len n cf by (auto simp: config_ok_def min_def split: if_splits)
    then show thesis using True start assms(1)
      by (intro that [of "\<lparr>pp_processed = 0, pp_batchId = None, pp_skipped = False\<rparr>" "s\<lparr>ss_batcher := tick_end ?b\<rparr>"])
        (simp_all add: processPending_def Let_def tick_end_def idle_def)
  next
    case False
    let ?s1 = "s\<lparr>ss_batcher := ?b\<rparr>"
    obtain bid tx s2 where sub: "submitBatch (ti_env x) (ti_now x) (ti_pick2 x) ?batch ?s1 = Some ((bid, tx), s2)"
      "pending_count (ss_table s2) = pending_count (ss_table ?s1) - ?n" "ids_of (ss_table s2) = ids_of (ss_table ?s1)"
      "filter is_pending (ss_table s2) = filter (\<lambda>r. is_pending r \<and> si_id r \<notin> si_id ` set (take ?n (waiting (ss_table ?s1)))) (ss_table ?s1)"
      "ba_config (ss_batcher s2) = ba_config (ss_batcher ?s1)" "ba_inFlight (ss_batcher s2) = ba_inFlight (ss_batcher ?s1)"
      by (rule submit_drains [OF good(1,2,4), of ?s1 ?batch ?n]) (use ids False rows len n in auto)
    have "processPending False False (ti_env x) (ti_now x) (ti_pick1 x) (ti_pick2 x) s =
        Some (\<lparr>pp_processed = length ?batch, pp_batchId = Some bid, pp_skipped = False\<rparr>, s2\<lparr>ss_batcher := tick_end (ss_batcher s2)\<rparr>)"
      using start False sub(1) by (simp add: processPending_def Let_def)
    then show thesis
    proof (rule that)
      show "pending_count (ss_table (s2\<lparr>ss_batcher := tick_end (ss_batcher s2)\<rparr>)) = pending_count (ss_table s) - ?m"
        using sub(2) n by (simp add: min_def)
      show "idle (s2\<lparr>ss_batcher := tick_end (ss_batcher s2)\<rparr>)"
        using cf flight ids sub(3,5,6) by (simp add: idle_def tick_end_def)
      show "set (filter is_pending (ss_table (s2\<lparr>ss_batcher := tick_end (ss_batcher s2)\<rparr>))) \<subseteq> set (filter is_pending (ss_table s))"
        using arg_cong [OF sub(4), of set] by auto
    qed (use sub(5) in \<open>simp add: tick_end_def\<close>)
  qed
qed

lemma good_tick_later:
  assumes "good_tick s x" "ba_config (ss_batcher s') = ba_config (ss_batcher s)"
    "set (filter is_pending (ss_table s')) \<subseteq> set (filter is_pending (ss_table s))"
  shows "good_tick s' x"
  using assms by (auto simp: good_tick_def list_all_iff)

lemma ticks_drain:
  "idle s \<Longrightarrow> list_all (good_tick s) xs \<Longrightarrow>
     \<exists>s'. run_ticks xs s = Some s' \<and>
       pending_count (ss_table s') = pending_count (ss_table s) - length xs * nat (bt_maxBatchSize (ba_config (ss_batcher s)))"
proof (induction xs arbitrary: s)
  case (Cons x xs)
  obtain r s1 where t: "processPending False False (ti_env x) (ti_now x) (ti_pick1 x) (ti_pick2 x) s = Some (r, s1)"
    "pending_count (ss_table s1) = pending_count (ss_table s) - nat (bt_maxBatchSize (ba_config (ss_batcher s)))"
    "idle s1" "ba_config (ss_batcher s1) = ba_config (ss_batcher s)"
    "set (filter is_pending (ss_table s1)) \<subseteq> set (filter is_pending (ss_table s))"
    using Cons.prems by (auto elim: tick_drains)
  have "list_all (good_tick s1) xs" using Cons.prems(2) good_tick_later [OF _ t(4,5)] by (simp add: list_all_iff)
  then show ?case using Cons.IH [OF t(3)] t(1,2,4) by (auto simp: algebra_simps)
qed simp


section \<open>Bounds\<close>

text \<open>
  What happens to a batcher, with the number of ticks that run: an enqueue that nothing overtakes, a
  tick that begins, its batch, its end.
\<close>

inductive batch_step :: "'w settlement_state \<times> nat \<Rightarrow> 'w settlement_state \<times> nat \<Rightarrow> bool" where
  queued: "batch_step (s, n) (snd (enqueue err1 err2 i now (\<lambda>x. x) x s), n)"
| begun: "tick_begin (ss_batcher s) = Some b \<Longrightarrow> batch_step (s, n) (s\<lparr>ss_batcher := b\<rparr>, Suc n)"
| submitted: "submitBatch sy now pick batch s = Some (r, s') \<Longrightarrow> batch_step (s, Suc n) (s', Suc n)"
| ended: "batch_step (s, Suc n) (s\<lparr>ss_batcher := tick_end (ss_batcher s)\<rparr>, n)"
| cleared: "batch_step (s, n) (s\<lparr>ss_batcher := resetMetrics (ss_batcher s)\<rparr>, n)"

definition within_bounds :: "batch_config \<Rightarrow> 'w settlement_state \<times> nat \<Rightarrow> bool" where
  "within_bounds cf sn \<longleftrightarrow> (case sn of (s, n) \<Rightarrow>
     ba_config (ss_batcher s) = cf \<and> int (pending_count (ss_table s)) \<le> bt_maxQueueDepth cf \<and>
     ba_inFlight (ss_batcher s) = int n \<and> int n \<le> max 0 (bt_maxInFlightBatches cf))"

lemma enqueue_bounded:
  assumes "within_bounds cf (s, n)"
  shows "within_bounds cf (snd (enqueue err1 err2 i now (\<lambda>x. x) x s), n)"
proof (cases err1)
  case None
  then show ?thesis using assms
    by (cases err2) (auto simp: enqueue_def getQueueDepth_def insert_settlement_def within_bounds_def Let_def pending_count_def)
next
  case (Some e)
  then show ?thesis using assms by (simp add: enqueue_def getQueueDepth_def)
qed

lemma mark_fewer: "pending_count (mark_submitted bid tx now ids t) \<le> pending_count t"
  unfolding pending_count_def mark_pending by (induction t) auto

lemma within_fewer:
  assumes "within_bounds cf (s, n)" "pending_count (ss_table s') \<le> pending_count (ss_table s)"
    "ba_config (ss_batcher s') = ba_config (ss_batcher s)" "ba_inFlight (ss_batcher s') = ba_inFlight (ss_batcher s)"
  shows "within_bounds cf (s', n)"
  using assms by (auto simp: within_bounds_def)

lemma submit_bounded:
  assumes "within_bounds cf (s, n)" "submitBatch sy now pick batch s = Some (r, s')"
  shows "within_bounds cf (s', n)"
proof (rule within_fewer [OF assms(1)])
  show "pending_count (ss_table s') \<le> pending_count (ss_table s)"
    using assms(2) mark_fewer by (auto simp: submitBatch_def Let_def split: if_splits)
qed (use assms(2) in \<open>auto simp: submitBatch_def Let_def split: if_splits\<close>)

lemma step_bounded:
  assumes "batch_step x y" "within_bounds cf x"
  shows "within_bounds cf y"
  using assms
proof (cases rule: batch_step.cases)
  case (queued s n err1 err2 i now x)
  then show ?thesis using assms(2) enqueue_bounded by blast
next
  case (submitted sy now pick batch s r s' n)
  then show ?thesis using assms(2) submit_bounded by blast
qed (use assms(2) in \<open>auto simp: within_bounds_def tick_begin_def tick_end_def resetMetrics_def split: if_splits\<close>)

lemma run_bounded: "batch_step\<^sup>*\<^sup>* x y \<Longrightarrow> within_bounds cf x \<Longrightarrow> within_bounds cf y"
  by (induction rule: rtranclp_induct) (auto intro: step_bounded)

definition fresh_settlement :: "batch_config \<Rightarrow> 'w chain_service \<Rightarrow> 'w settlement_state" where
  "fresh_settlement cf chain = \<lparr>ss_batcher = new_batcher cf, ss_table = [], ss_chain = chain\<rparr>"

lemma fresh_within: "within_bounds (ba_config (new_batcher cf)) (fresh_settlement cf chain, 0)"
  using new_batcher_config_ok [of cf] by (auto simp: fresh_settlement_def within_bounds_def pending_count_def config_ok_def)
    (simp add: new_batcher_def Let_def)

text \<open>
  Whatever ticks overlap, no more batches are in flight than configured, the counter says how many
  are, and while no two enqueues overlap no more settlements wait than the queue may hold.
\<close>

theorem batcher_bounded:
  assumes "batch_step\<^sup>*\<^sup>* (fresh_settlement cf chain, 0) (s, n)"
  shows "int (pending_count (ss_table s)) \<le> bt_maxQueueDepth (ba_config (new_batcher cf)) \<and>
     ba_inFlight (ss_batcher s) = int n \<and> int n \<le> max 0 (bt_maxInFlightBatches (ba_config (new_batcher cf)))"
  using run_bounded [OF assms fresh_within] by (simp add: within_bounds_def)

section \<open>Closing what is settled\<close>

lemma enqueue_row:
  assumes "enqueue err1 err2 i now (\<lambda>x. x) x s = (Inr k, s1)"
  obtains r where "ss_table s1 = ss_table s @ [r]" "is_pending r" "si_type r = si_type x" "si_subscriptionId r = si_subscriptionId x"
    "si_amount r = si_amount x" "si_id r = i" "k = i"
proof -
  let ?r = "\<lparr>si_userId = si_userId x, si_subscriptionId = si_subscriptionId x, si_amount = si_amount x, si_type = si_type x,
    si_payload = si_payload x, si_id = i, si_createdAt = now, si_status = Pending_settlement, si_batchId = None,
    si_transactionHash = None, si_submittedAt = None\<rparr>"
  have "err1 = None" "err2 = None"
    using assms by (auto simp: enqueue_def getQueueDepth_def insert_settlement_def Let_def split: if_splits option.splits)
  then have "ss_table s1 = ss_table s @ [?r] \<and> k = i"
    using assms by (auto simp: enqueue_def getQueueDepth_def insert_settlement_def Let_def split: if_splits)
  then show thesis by (intro that [of ?r]) (simp_all add: is_pending_def)
qed

lemma close_closes:
  assumes "channel_db_ok ops" "initiateClose ops env u i False d = (Inr rec, d1, es)"
  shows "\<exists>row row1. db_row ops d i = Some row \<and> ch_status row = Active_channel \<and> ch_userId row = u \<and>
    db_row ops d1 = (db_row ops d)(i \<mapsto> row1) \<and> ch_status row1 = Closing \<and> ch_userId row1 = ch_userId row"
proof -
  obtain c where c: "getChannel ops u i d = Some c" "cr_status c = Active_channel"
    using assms(2) by (auto simp: initiateClose_def split: option.splits if_splits)
  obtain r where r: "db_row ops d i = Some r" "c = toRecord r" "ch_userId r = u" by (rule getChannel_row [OF assms(1) c(1)])
  define f where "f = (\<lambda>row. row\<lparr>ch_status := Closing,
     ch_state := Some ((nullish (cr_state c) (default_state (cr_balance c)))
        \<lparr>st_closeInitiatedAt := Some (ce_now env), st_challengeEndsAt := Some (ce_now env + CHALLENGE_PERIOD_MS)\<rparr>),
     ch_updatedAt := ce_now env\<rparr> :: channel_row)"
  have sent: "send_update ops u i f d = (Inr rec, d1)"
    using assms(2) c unfolding f_def by (auto simp: initiateClose_def Let_def split: sum.splits prod.splits)
  show ?thesis
  proof (rule send_update_cases [OF assms(1), of u i f d])
    fix r0 d' assume "send_update ops u i f d = (Inr (toRecord (f r0)), d')"
      "db_row ops d i = Some r0" "db_row ops d' = (db_row ops d)(i \<mapsto> f r0)"
    then show ?thesis using sent r c(2) by (intro exI [of _ r] exI [of _ "f r"]) (auto simp: f_def)
  qed (use sent in simp)
qed

lemma mark_marks:
  assumes "channel_db_ok ops" "markChannelSettled ops t i u d = (Inr (), d')" "db_row ops d i = Some r" "ch_userId r = u"
  shows "db_row ops d' = (db_row ops d)(i \<mapsto> r\<lparr>ch_lastSettlementAt := Some t, ch_updatedAt := t\<rparr>)"
proof -
  let ?f = "\<lambda>r. r\<lparr>ch_lastSettlementAt := Some t, ch_updatedAt := t\<rparr> :: channel_row"
  have "case db_patch ops d u i ?f of
        (None, d') \<Rightarrow> db_row ops d' = (case db_row ops d i of
          None \<Rightarrow> db_row ops d
        | Some r \<Rightarrow> if ch_userId r = u then (db_row ops d)(i \<mapsto> ?f r) else db_row ops d)
    | (Some e, d') \<Rightarrow> db_row ops d' = db_row ops d"
    by (rule spec [OF spec [OF spec [OF spec [OF assms(1) [unfolded channel_db_ok_def, THEN conjunct2, THEN conjunct2, THEN conjunct1, unfolded patch_law_def]]]]])
  moreover have "db_patch ops d u i ?f = (None, d')"
    using assms(2) by (auto simp: markChannelSettled_def patch_result_def split: prod.splits option.splits)
  ultimately show ?thesis using assms(3,4) by simp
qed

text \<open>
  When the job reports a channel as scheduled, its settlement over the executor's balance waits in
  the queue, and the channel, which was active, is closing and has the time of its settlement.
\<close>

theorem settled_channel_is_closing:
  assumes "channel_db_ok ops" and "settle_candidate ops env e1 e2 i c (d, s) = (Inr (), (d', s'), es)"
  shows "\<exists>row row' r. db_row ops d (sc_channelId c) = Some row \<and> ch_status row = Active_channel \<and> ch_userId row = sc_userId c \<and>
     db_row ops d' = (db_row ops d)(sc_channelId c \<mapsto> row') \<and> ch_status row' = Closing \<and> ch_lastSettlementAt row' = Some (ce_now env) \<and>
     ss_table s' = ss_table s @ [r] \<and> is_pending r \<and> si_type r = Channel_close \<and> si_subscriptionId r = sc_channelId c \<and>
     si_amount r = sc_executorBalance c"
proof -
  let ?x = "\<lparr>si_userId = sc_userId c, si_subscriptionId = sc_channelId c, si_amount = sc_executorBalance c, si_type = Channel_close,
          si_payload = JObj [(''channelId'', JStr (sc_channelId c))]\<rparr>"
  obtain q s1 where e: "enqueue e1 e2 i (ce_now env) (\<lambda>x. x) ?x s = (q, s1)" by fastforce
  obtain k d1 es1 where close: "initiateClose ops env (sc_userId c) (sc_channelId c) False d = (k, d1, es1)" using prod_cases3 by blast
  obtain m d2 where mark: "markChannelSettled ops (ce_now env) (sc_channelId c) (sc_userId c) d1 = (m, d2)" by fastforce
  have ok: "\<exists>j. q = Inr j" "\<exists>rec. k = Inr rec" "m = Inr ()" "d' = d2" "s' = s1"
    using assms(2) e close mark by (auto simp: settle_candidate_def split: sum.splits)
  obtain r where "ss_table s1 = ss_table s @ [r]" "is_pending r" "si_type r = Channel_close" "si_subscriptionId r = sc_channelId c"
      "si_amount r = sc_executorBalance c"
    using e ok(1) by (auto elim: enqueue_row)
  moreover obtain row row1 where "db_row ops d (sc_channelId c) = Some row" "ch_status row = Active_channel" "ch_userId row = sc_userId c"
      "db_row ops d1 = (db_row ops d)(sc_channelId c \<mapsto> row1)" "ch_status row1 = Closing" "ch_userId row1 = ch_userId row"
    using close_closes [OF assms(1)] close ok(2) by blast
  moreover from this have "db_row ops d2 = (db_row ops d1)(sc_channelId c \<mapsto>
      row1\<lparr>ch_lastSettlementAt := Some (ce_now env), ch_updatedAt := ce_now env\<rparr>)"
    using mark ok(3) by (intro mark_marks [OF assms(1)]) auto
  ultimately show ?thesis unfolding ok(4,5)
    by (intro exI [of _ row] exI [of _ "row1\<lparr>ch_lastSettlementAt := Some (ce_now env), ch_updatedAt := ce_now env\<rparr>"] exI [of _ r]) simp
qed

section \<open>What the ledger gets\<close>

text \<open>
  Nothing of a batch is written: the event keeps the name, price, billing cycle and status of what it
  is given, and a batch has none of them.
\<close>

lemma batch_data_fields:
  "field ''name'' (batch_data items) = None" "field ''price'' (batch_data items) = None"
  "field ''billing_cycle'' (batch_data items) = None" "field ''status'' (batch_data items) = None"
  by (simp_all add: batch_data_def field_def)

theorem settlement_amounts_never_sent:
  "syncSubscription env privacy ins updates u sub op (batch_data items) s = syncSubscription env privacy ins updates u sub op (batch_data items') s"
proof -
  have "subscription_event env sub op (batch_data items) = subscription_event env sub op (batch_data items')"
    by (simp only: subscription_event_def batch_data_fields)
  then show ?thesis by (simp only: syncSubscription_def)
qed

text \<open>A batch that could not even be logged is counted as processed, and its rows are marked as submitted
  without a transaction.\<close>

theorem failed_batch_marked_submitted:
  assumes "sy_insert sy = Inl e" and "sy_marks sy" and "draws_ok pick" and "batch \<noteq> []"
    and "length batch \<le> nat (bt_maxBatchSize (ba_config (ss_batcher s)))"
  shows "\<exists>bid s'. submitBatch sy now pick batch s = Some ((bid, None), s') \<and> ss_chain s' = ss_chain s \<and>
     sm_processed (ba_metrics (ss_batcher s')) = sm_processed (ba_metrics (ss_batcher s)) + int (length batch) \<and>
     (\<forall>r\<in>set (ss_table s'). List.member (map pi_id batch) (si_id r) \<longrightarrow> si_status r = Submitted_settlement \<and> si_transactionHash r = None)"
proof -
  have "set (map pi_id (shuffle_items pick batch)) = set (map pi_id batch)"
    using shuffle_mset [OF assms(3), of batch] by (metis mset_map set_mset_mset)
  then show ?thesis using assms(1,2,4,5) shuffle_length [OF assms(3), of batch]
    by (auto simp: submitBatch_def Let_def syncSubscription_def log_then_write_def mark_submitted_def)
qed

text \<open>A channel that cannot be closed leaves its settlement in the queue.\<close>

theorem failed_close_stays_queued:
  assumes "enqueue e1 e2 i (ce_now env) (\<lambda>x. x) \<lparr>si_userId = sc_userId c, si_subscriptionId = sc_channelId c,
      si_amount = sc_executorBalance c, si_type = Channel_close, si_payload = JObj [(''channelId'', JStr (sc_channelId c))]\<rparr> s = (Inr j, s1)"
    and "initiateClose ops env (sc_userId c) (sc_channelId c) False d = (Inl x, d1, es)"
  shows "\<exists>s' r. settle_candidate ops env e1 e2 i c (d, s) = (Inl (), (d1, s'), es) \<and> ss_table s' = ss_table s @ [r] \<and>
     is_pending r \<and> si_amount r = sc_executorBalance c"
proof -
  obtain r where "ss_table s1 = ss_table s @ [r]" "is_pending r" "si_amount r = sc_executorBalance c"
    using enqueue_row [OF assms(1)] by (metis settlement_input.select_convs(3))
  then show ?thesis using assms by (simp add: settle_candidate_def)
qed

text \<open>Two enqueues that both read the depth before either inserts fill the queue over its bound.\<close>

theorem overlapping_enqueues_exceed_depth:
  assumes "bt_maxQueueDepth (ba_config (ss_batcher s)) = int (pending_count (ss_table s)) + 1"
  shows "int (pending_count (ss_table (snd (enqueue None None i now (\<lambda>s1. snd (enqueue None None i' now (\<lambda>x. x) x' s1)) x s)))) =
     bt_maxQueueDepth (ba_config (ss_batcher s)) + 1"
  using assms by (simp add: enqueue_def getQueueDepth_def insert_settlement_def Let_def pending_count_def is_pending_def)

section \<open>Witnesses\<close>

definition demo_input :: "ident \<Rightarrow> settlement_input" where
  "demo_input sub = \<lparr>si_userId = ''u'', si_subscriptionId = sub, si_amount = 5, si_type = Renewal_settlement, si_payload = JObj []\<rparr>"

definition demo_service :: "ledger_world chain_service" where
  "demo_service = \<lparr>cs_logs = [], cs_dlq = [], cs_chain = fresh_ledger []\<rparr>"

definition demo_row :: "ident \<Rightarrow> millis \<Rightarrow> settlement_row" where
  "demo_row i t = \<lparr>si_userId = ''u'', si_subscriptionId = i, si_amount = 5, si_type = Renewal_settlement, si_payload = JObj [],
     si_id = i, si_createdAt = t, si_status = Pending_settlement, si_batchId = None, si_transactionHash = None, si_submittedAt = None\<rparr>"

definition demo_rows :: "settlement_row list" where
  "demo_rows = [demo_row ''b'' 20, demo_row ''a'' 10, demo_row ''c'' 900000]"

definition demo_settlement :: "ledger_world settlement_state" where
  "demo_settlement = \<lparr>ss_batcher = new_batcher (default_batch_config\<lparr>bt_maxBatchSize := 2\<rparr>), ss_table = demo_rows, ss_chain = demo_service\<rparr>"

definition demo_tick :: "millis \<Rightarrow> ledger_world tick_input" where
  "demo_tick t = \<lparr>ti_env = \<lparr>sy_env = demo_service_env True, sy_privacy = Inr False, sy_insert = Inr ''log'', sy_logUpdates = True, sy_marks = True\<rparr>,
     ti_now = t, ti_pick1 = (\<lambda>_. 0), ti_pick2 = (\<lambda>_. 1 / 2)\<rparr>"

lemma demo_draws: "draws_ok (\<lambda>_. 0)" "draws_ok (\<lambda>_. 1 / 2)"
  by (simp_all add: draws_ok_def)

theorem batch_is_oldest_witness:
  "mset (getPendingBatch False False (ba_config (new_batcher default_batch_config)) 400000 (\<lambda>_. 0) demo_rows) =
       mset (map toPending (take (batch_count (ba_config (new_batcher default_batch_config)) 400000 demo_rows) (waiting demo_rows))) \<and>
     map si_id (take (batch_count (ba_config (new_batcher default_batch_config)) 400000 demo_rows) (waiting demo_rows)) = [''a'', ''b'']"
  by (rule conjI, rule batch_is_oldest [OF demo_draws(1)]) code_simp


theorem batcher_bounded_witness:
  "int (pending_count (ss_table (snd (enqueue None None ''i'' 0 (\<lambda>x. x) (demo_input ''s'') (fresh_settlement default_batch_config demo_service))))) \<le>
       bt_maxQueueDepth (ba_config (new_batcher default_batch_config)) \<and>
     ba_inFlight (ss_batcher (snd (enqueue None None ''i'' 0 (\<lambda>x. x) (demo_input ''s'') (fresh_settlement default_batch_config demo_service)))) = int 0 \<and>
     int 0 \<le> max 0 (bt_maxInFlightBatches (ba_config (new_batcher default_batch_config)))"
  by (rule batcher_bounded, rule r_into_rtranclp, rule batch_step.queued)

definition demo_candidate :: settlement_candidate where
  "demo_candidate = \<lparr>sc_channelId = ''c'', sc_userId = ''u'', sc_executorBalance = 4\<rparr>"

definition demo_closing :: "(unit + unit) \<times> (table \<times> ledger_world settlement_state) \<times> effect list" where
  "demo_closing = settle_candidate table_db demo_channel_env None None ''i'' demo_candidate
     (demo_table Active_channel, fresh_settlement default_batch_config demo_service)"

theorem settled_channel_is_closing_witness:
  "\<exists>row row' r. map_of (demo_table Active_channel) ''c'' = Some row \<and> ch_status row = Active_channel \<and> ch_userId row = ''u'' \<and>
     map_of (fst (fst (snd demo_closing))) = (map_of (demo_table Active_channel))(''c'' \<mapsto> row') \<and> ch_status row' = Closing \<and>
     ch_lastSettlementAt row' = Some 1000 \<and> ss_table (snd (fst (snd demo_closing))) = [r] \<and> is_pending r \<and>
     si_type r = Channel_close \<and> si_subscriptionId r = ''c'' \<and> si_amount r = 4"
proof -
  have "case fst demo_closing of Inl _ \<Rightarrow> False | Inr _ \<Rightarrow> True" by code_simp
  then have r: "settle_candidate table_db demo_channel_env None None ''i'' demo_candidate
     (demo_table Active_channel, fresh_settlement default_batch_config demo_service) =
     (Inr (), (fst (fst (snd demo_closing)), snd (fst (snd demo_closing))), snd (snd demo_closing))"
    by (cases demo_closing) (auto simp: demo_closing_def split: sum.splits)
  show ?thesis using settled_channel_is_closing [OF table_db_ok r]
    by (simp add: demo_candidate_def demo_channel_env_def fresh_settlement_def)
qed

end
