(* ===== verification/Ssrf.thy ===== *)
theory Ssrf
  imports Json "HOL-Library.Word"
begin

text \<open>
  The check of outbound URLs (\<open>backend/src/utils/ssrf-protection.ts\<close>): protocol, host name, and the
  addresses the host stands for must not be private.  Parsing a URL and looking a name up are
  arguments; an address is text, and its number is a 32-bit word.
\<close>

unbundle bit_operations_syntax

section \<open>IPv4\<close>

text \<open>\<open>s.split(c)\<close> for one character.\<close>

fun split_at :: "char \<Rightarrow> string \<Rightarrow> string list" where
  "split_at c [] = [[]]"
| "split_at c (x # s) = (if x = c then [] # split_at c s else (x # hd (split_at c s)) # tl (split_at c s))"

text \<open>
  The numbers between 0 and 255 that a text without a dot denotes and that print as that text.
  Beside the integers these are small powers such as \<open>1e-7\<close>, down to the smallest double.
\<close>

definition is_digit_char :: "char \<Rightarrow> bool" where
  "is_digit_char c \<longleftrightarrow> 48 \<le> code c \<and> code c \<le> 57"

definition decimal :: "string \<Rightarrow> nat option" where
  "decimal s =
     (if s \<noteq> [] \<and> length s \<le> 3 \<and> list_all is_digit_char s \<and> (length s = 1 \<or> hd s \<noteq> CHR ''0'')
      then Some (foldl (\<lambda>n c. 10 * n + (code c - 48)) 0 s) else None)"

definition tiny :: "string \<Rightarrow> rat option" where
  "tiny s =
     (case s of
        d # e # m # k \<Rightarrow>
          (if 49 \<le> code d \<and> code d \<le> 57 \<and> [e, m] = ''e-''
           then (case decimal k of
               None \<Rightarrow> None
             | Some k \<Rightarrow> if 7 \<le> k \<and> (k \<le> 323 \<or> k = 324 \<and> d = CHR ''5'') then Some (of_nat (code d - 48) / 10 ^ k) else None)
           else None)
      | _ \<Rightarrow> None)"

definition octet :: "string \<Rightarrow> rat option" where
  "octet s = (case decimal s of Some n \<Rightarrow> if n \<le> 255 then Some (of_nat n) else None | None \<Rightarrow> tiny s)"

definition ipv4_parts :: "string \<Rightarrow> rat list option" where
  "ipv4_parts ip = those (map octet (split_at (CHR ''.'') ip))"

definition isValidIPv4 :: "string \<Rightarrow> bool" where
  "isValidIPv4 ip \<longleftrightarrow> (case ipv4_parts ip of Some ps \<Rightarrow> length ps = 4 | None \<Rightarrow> False)"

text \<open>The number of a valid address; a fraction is dropped when its bits are used.\<close>

definition ipToUint32 :: "string \<Rightarrow> rat" where
  "ipToUint32 ip = (case ipv4_parts ip of
      Some [a, b, c, d] \<Rightarrow> a * 16777216 + b * 65536 + c * 256 + d
    | _ \<Rightarrow> 0)"

definition to_word :: "rat \<Rightarrow> 32 word" where
  "to_word x = word_of_int \<lfloor>x\<rfloor>"

definition BLOCKED_IPV4_RANGES :: "(string \<times> string \<times> 32 word) list" where
  "BLOCKED_IPV4_RANGES =
     [(''loopback'', ''127.0.0.0'', 0xff000000),
      (''RFC-1918-A'', ''10.0.0.0'', 0xff000000),
      (''RFC-1918-B'', ''172.16.0.0'', 0xfff00000),
      (''RFC-1918-C'', ''192.168.0.0'', 0xffff0000),
      (''link-local/IMDS'', ''169.254.0.0'', 0xffff0000),
      (''CGNAT'', ''100.64.0.0'', 0xffc00000),
      (''this-network'', ''0.0.0.0'', 0xff000000),
      (''TEST-NET-1'', ''192.0.2.0'', 0xffffff00),
      (''TEST-NET-2'', ''198.51.100.0'', 0xffffff00),
      (''TEST-NET-3'', ''203.0.113.0'', 0xffffff00),
      (''reserved'', ''240.0.0.0'', 0xf0000000),
      (''broadcast'', ''255.255.255.255'', 0xffffffff)]"

definition isPrivateIPv4 :: "string \<Rightarrow> bool" where
  "isPrivateIPv4 ip \<longleftrightarrow> isValidIPv4 ip \<and>
     list_ex (\<lambda>(_, base, m). to_word (ipToUint32 ip) AND m = to_word (ipToUint32 base)) BLOCKED_IPV4_RANGES"

section \<open>IPv6\<close>

definition lower_hex :: "char \<Rightarrow> bool" where
  "lower_hex c \<longleftrightarrow> is_digit_char c \<or> 97 \<le> code c \<and> code c \<le> 102"

text \<open>\<open>parseInt(s, 16)\<close> of hexadecimal digits.\<close>

definition parse_hex :: "string \<Rightarrow> nat" where
  "parse_hex s = foldl (\<lambda>n c. 16 * n + nullish (hex_value c) 0) 0 s"

definition mapped_prefix :: string where
  "mapped_prefix = ''::ffff:''"

definition dotted_form :: "string \<Rightarrow> bool" where
  "dotted_form s \<longleftrightarrow> (let ps = split_at (CHR ''.'') s in
     length ps = 4 \<and> list_all (\<lambda>p. 1 \<le> length p \<and> length p \<le> 3 \<and> list_all is_digit_char p) ps)"

definition hex_group :: "string \<Rightarrow> bool" where
  "hex_group p \<longleftrightarrow> 1 \<le> length p \<and> length p \<le> 4 \<and> list_all lower_hex p"

definition dotted :: "nat \<Rightarrow> nat \<Rightarrow> nat \<Rightarrow> nat \<Rightarrow> string" where
  "dotted a b c d = show_nat a @ ''.'' @ show_nat b @ ''.'' @ show_nat c @ ''.'' @ show_nat d"

definition extractIPv4FromMappedIPv6 :: "string \<Rightarrow> string option" where
  "extractIPv4FromMappedIPv6 lower =
     (if \<not> startsWith lower mapped_prefix then None
      else (let rest = drop (length mapped_prefix) lower
            in if dotted_form rest then Some rest
               else (case split_at (CHR '':'') rest of
                   [g, h] \<Rightarrow>
                     (if hex_group g \<and> hex_group h
                      then (let high = parse_hex g; low = parse_hex h
                            in Some (dotted (high div 256) (high mod 256) (low div 256) (low mod 256)))
                      else None)
                 | _ \<Rightarrow> None)))"

definition strip_brackets :: "string \<Rightarrow> string" where
  "strip_brackets s =
     (let t = (case s of c # r \<Rightarrow> if c = CHR ''['' then r else s | [] \<Rightarrow> [])
      in case rev t of c # r \<Rightarrow> if c = CHR '']'' then rev r else t | [] \<Rightarrow> [])"

definition link_local :: "string \<Rightarrow> bool" where
  "link_local s \<longleftrightarrow>
     (case s of a # b # c # d # e # _ \<Rightarrow> [a, b] = ''fe'' \<and> List.member ''89ab'' c \<and> lower_hex d \<and> e = CHR '':'' | _ \<Rightarrow> False)"

definition unique_local :: "string \<Rightarrow> bool" where
  "unique_local s \<longleftrightarrow>
     (case s of a # b # c # d # e # _ \<Rightarrow> a = CHR ''f'' \<and> List.member ''cd'' b \<and> lower_hex c \<and> lower_hex d \<and> e = CHR '':'' | _ \<Rightarrow> False)"

definition isPrivateIPv6 :: "string \<Rightarrow> bool" where
  "isPrivateIPv6 ip =
     (let lower = strip_brackets (toLowerCase ip)
      in if lower = ''::1'' then True
         else if lower = ''::'' then True
         else if link_local lower then True
         else if unique_local lower then True
         else (case extractIPv4FromMappedIPv6 lower of Some mapped \<Rightarrow> isPrivateIPv4 mapped | None \<Rightarrow> False))"

section \<open>The check\<close>

datatype ssrf_code = INVALID_URL | DISALLOWED_PROTOCOL | BLOCKED_HOSTNAME | PRIVATE_IP | DNS_RESOLUTION_FAILED

record ssrf_error =
  se_message :: string
  se_code :: ssrf_code

record url =
  url_protocol :: string
  url_hostname :: string

definition ALLOWED_PROTOCOLS :: "string list" where
  "ALLOWED_PROTOCOLS = [''https:'']"

definition BLOCKED_HOSTNAMES :: "string list" where
  "BLOCKED_HOSTNAMES = [''metadata.google.internal'', ''metadata.goog'', ''instance-data'', ''instance-data.ec2.internal'']"

definition allowedProtocols :: "bool \<Rightarrow> string list" where
  "allowedProtocols allowHttp = (if allowHttp then ALLOWED_PROTOCOLS @ [''http:''] else ALLOWED_PROTOCOLS)"

definition quoted :: "string \<Rightarrow> string" where
  "quoted s = CHR 0x22 # s @ [CHR 0x22]"

definition protocol_message :: "string \<Rightarrow> bool \<Rightarrow> string" where
  "protocol_message p allowHttp =
     ''Disallowed protocol '' @ quoted p @ ''. Only '' @ join '', '' (allowedProtocols allowHttp) @ '' are permitted.''"

fun check_addresses :: "string \<Rightarrow> string list \<Rightarrow> ssrf_error option" where
  "check_addresses host [] = None"
| "check_addresses host (a # as) =
     (if isPrivateIPv4 a
      then Some \<lparr>se_message = quoted host @ '' resolves to a private IP address '' @ quoted a @ ''.'', se_code = PRIVATE_IP\<rparr>
      else if isPrivateIPv6 a
      then Some \<lparr>se_message = quoted host @ '' resolves to a private IPv6 address '' @ quoted a @ ''.'', se_code = PRIVATE_IP\<rparr>
      else check_addresses host as)"

definition validateOutboundUrl :: "(string \<Rightarrow> url option) \<Rightarrow> (string \<Rightarrow> string + string list) \<Rightarrow> bool \<Rightarrow> bool \<Rightarrow> string \<Rightarrow> ssrf_error + url" where
  "validateOutboundUrl parse lookup allowHttp resolveDns rawUrl =
     (case parse rawUrl of
        None \<Rightarrow> Inl \<lparr>se_message = ''Invalid URL: '' @ rawUrl, se_code = INVALID_URL\<rparr>
      | Some u \<Rightarrow>
          (if \<not> List.member (allowedProtocols allowHttp) (url_protocol u)
           then Inl \<lparr>se_message = protocol_message (url_protocol u) allowHttp, se_code = DISALLOWED_PROTOCOL\<rparr>
           else (let host = toLowerCase (url_hostname u)
             in if List.member BLOCKED_HOSTNAMES host
                then Inl \<lparr>se_message = ''Hostname '' @ quoted host @ '' is explicitly blocked.'', se_code = BLOCKED_HOSTNAME\<rparr>
                else if isPrivateIPv4 host
                then Inl \<lparr>se_message = ''Target IP '' @ quoted host @ '' is in a private or reserved range.'', se_code = PRIVATE_IP\<rparr>
                else if isPrivateIPv6 host
                then Inl \<lparr>se_message = ''Target IPv6 address '' @ quoted host @ '' is in a private or reserved range.'', se_code = PRIVATE_IP\<rparr>
                else if \<not> resolveDns then Inr u
                else (case lookup host of
                    Inl e \<Rightarrow> Inl \<lparr>se_message = ''DNS resolution failed for '' @ quoted host @ '': '' @ e, se_code = DNS_RESOLUTION_FAILED\<rparr>
                  | Inr addresses \<Rightarrow> (case check_addresses host addresses of Some e \<Rightarrow> Inl e | None \<Rightarrow> Inr u)))))"

text \<open>The variant without a lookup: the reason why the URL is not valid, if any.\<close>

definition validateOutboundUrlSync :: "(string \<Rightarrow> url option) \<Rightarrow> bool \<Rightarrow> string \<Rightarrow> string option" where
  "validateOutboundUrlSync parse allowHttp rawUrl =
     (case parse rawUrl of
        None \<Rightarrow> Some ''Invalid URL''
      | Some u \<Rightarrow>
          (if \<not> List.member (allowedProtocols allowHttp) (url_protocol u) then Some (protocol_message (url_protocol u) allowHttp)
           else (let host = toLowerCase (url_hostname u)
             in if List.member BLOCKED_HOSTNAMES host then Some (''Hostname '' @ quoted host @ '' is explicitly blocked.'')
                else if isPrivateIPv4 host then Some (''Target IP '' @ quoted host @ '' is in a private or reserved range.'')
                else if isPrivateIPv6 host then Some (''Target IPv6 '' @ quoted host @ '' is in a private or reserved range.'')
                else None)))"

end
