(* ===== verification/SsrfProps.thy ===== *)
theory SsrfProps
  imports Ssrf
begin

text \<open>
  Which addresses the check of outbound URLs refuses: exactly the reserved blocks of IPv4, also in the
  two forms in which they are embedded in IPv6, for the host itself and for whatever it resolves to.
\<close>

section \<open>Addresses as numbers\<close>

lemma and_high_mask:
  fixes x b :: "32 word"
  assumes "b AND NOT (mask k) = b"
  shows "x AND NOT (mask k) = b \<longleftrightarrow> unat x div 2 ^ k = unat b div 2 ^ k"
proof -
  have d: "drop_bit k (w AND NOT (mask k)) = drop_bit k w" for w :: "32 word"
    by (rule bit_eqI) (auto simp: bit_simps dest: bit_imp_le_length)
  have p: "w AND NOT (mask k) = push_bit k (drop_bit k w)" for w :: "32 word"
    by (rule bit_eqI) (auto simp: bit_simps)
  have "x AND NOT (mask k) = b \<longleftrightarrow> drop_bit k x = drop_bit k b"
    using d p assms by metis
  also have "\<dots> \<longleftrightarrow> unat x div 2 ^ k = unat b div 2 ^ k"
    unfolding word_unat_eq_iff unat_drop_bit_eq by (simp add: drop_bit_eq_div)
  finally show ?thesis .
qed

lemma masks: "(0xff000000 :: 32 word) = NOT (mask 24)" "(0xfff00000 :: 32 word) = NOT (mask 20)" "(0xffff0000 :: 32 word) = NOT (mask 16)"
  "(0xffc00000 :: 32 word) = NOT (mask 22)" "(0xffffff00 :: 32 word) = NOT (mask 8)" "(0xf0000000 :: 32 word) = NOT (mask 28)"
  "(0xffffffff :: 32 word) = NOT (mask 0)"
  by (simp_all add: mask_eq_exp_minus_1)

lemma show_small:
  "n < 10 \<Longrightarrow> show_nat n = [char_of (48 + n)]"
  "10 \<le> n \<Longrightarrow> n < 100 \<Longrightarrow> show_nat n = [char_of (48 + n div 10), char_of (48 + n mod 10)]"
  "100 \<le> n \<Longrightarrow> n < 1000 \<Longrightarrow> show_nat n = [char_of (48 + n div 100), char_of (48 + n div 10 mod 10), char_of (48 + n mod 10)]"
proof -
  show one: "show_nat n = [char_of (48 + n)]" if "n < 10" for n using that by (simp add: show_nat.simps [of n])
  show two: "show_nat n = [char_of (48 + n div 10), char_of (48 + n mod 10)]" if "10 \<le> n" "n < 100" for n
  proof -
    have "n div 10 < 10" using that by linarith
    then show ?thesis using that one by (simp add: show_nat.simps [of n])
  qed
  show "show_nat n = [char_of (48 + n div 100), char_of (48 + n div 10 mod 10), char_of (48 + n mod 10)]" if "100 \<le> n" "n < 1000"
  proof -
    have "10 \<le> n div 10" "n div 10 < 100" using that by linarith+
    then show ?thesis using that two [of "n div 10"] by (simp add: show_nat.simps [of n] div_mult2_eq [symmetric])
  qed
qed

lemma nonzero_digit: "0 < k \<Longrightarrow> k < 10 \<Longrightarrow> char_of (48 + k) \<noteq> CHR ''0''" for k :: nat
proof
  assume k: "0 < k" "k < 10" "char_of (48 + k) = CHR ''0''"
  moreover have "code (char_of (48 + k)) = 48 + k" using k(2) by (intro code_char_of) simp
  moreover have "code (CHR ''0'') = 48" by (simp add: code_def)
  ultimately show False using k(1) by simp
qed

lemma digit_char: "k \<le> 9 \<Longrightarrow> is_digit_char (char_of (48 + k)) \<and> code (char_of (48 + k)) = 48 + k" for k :: nat
  by (simp add: is_digit_char_def)

lemma decimal_codes:
  "is_digit_char c \<Longrightarrow> decimal [c] = Some (code c - 48)"
  "is_digit_char b \<Longrightarrow> is_digit_char c \<Longrightarrow> b \<noteq> CHR ''0'' \<Longrightarrow> decimal [b, c] = Some (10 * (code b - 48) + (code c - 48))"
  "is_digit_char a \<Longrightarrow> is_digit_char b \<Longrightarrow> is_digit_char c \<Longrightarrow> a \<noteq> CHR ''0'' \<Longrightarrow>
     decimal [a, b, c] = Some (10 * (10 * (code a - 48) + (code b - 48)) + (code c - 48))"
  by (simp_all add: decimal_def)

lemma decimal_digits:
  fixes x y z :: nat
  assumes "z \<le> 9"
  shows "decimal [char_of (48 + z)] = Some z"
    "0 < y \<Longrightarrow> y \<le> 9 \<Longrightarrow> decimal [char_of (48 + y), char_of (48 + z)] = Some (10 * y + z)"
    "0 < x \<Longrightarrow> x \<le> 9 \<Longrightarrow> y \<le> 9 \<Longrightarrow> decimal [char_of (48 + x), char_of (48 + y), char_of (48 + z)] = Some (10 * (10 * x + y) + z)"
proof -
  have d: "is_digit_char (char_of (48 + k))" "code (char_of (48 + k)) - 48 = k" if "k \<le> 9" for k :: nat
    using digit_char [OF that] by simp_all
  have nz: "char_of (48 + k) \<noteq> CHR ''0''" if "0 < k" "k \<le> 9" for k :: nat using that nonzero_digit by simp
  show "decimal [char_of (48 + z)] = Some z"
    using decimal_codes(1) [OF d(1) [OF assms]] unfolding d(2) [OF assms] .
  show "decimal [char_of (48 + y), char_of (48 + z)] = Some (10 * y + z)" if y: "0 < y" "y \<le> 9"
    using decimal_codes(2) [OF d(1) [OF y(2)] d(1) [OF assms] nz [OF y]] unfolding d(2) [OF assms] d(2) [OF y(2)] .
  show "decimal [char_of (48 + x), char_of (48 + y), char_of (48 + z)] = Some (10 * (10 * x + y) + z)" if x: "0 < x" "x \<le> 9" and y: "y \<le> 9"
    using decimal_codes(3) [OF d(1) [OF x(2)] d(1) [OF y] d(1) [OF assms] nz [OF x]] unfolding d(2) [OF assms] d(2) [OF y] d(2) [OF x(2)] .
qed

lemma decimal_show:
  assumes "n < 1000"
  shows "decimal (show_nat n) = Some n"
proof -
  have m: "n mod 10 \<le> 9" "n div 10 mod 10 \<le> 9" using mod_less_divisor [of 10 n] mod_less_divisor [of 10 "n div 10"] by linarith+
  have "n div 100 = n div 10 div 10" by (simp add: div_mult2_eq [symmetric])
  then have n: "10 * (n div 10) + n mod 10 = n" "10 * (n div 100) + n div 10 mod 10 = n div 10" by simp_all
  consider "n < 10" | "10 \<le> n" "n < 100" | "100 \<le> n" by linarith
  then show ?thesis
  proof cases
    case 1
    then show ?thesis by (simp add: show_small(1) decimal_digits(1))
  next
    case 2
    then have "n div 10 \<le> 9" "0 < n div 10" by linarith+
    then show ?thesis using decimal_digits(2) [OF m(1), of "n div 10"] by (simp only: show_small(2) [OF 2] n)
  next
    case 3
    then have "n div 100 \<le> 9" "0 < n div 100" using assms by linarith+
    then show ?thesis using decimal_digits(3) [OF m(1) _ _ m(2), of "n div 100"] by (simp only: show_small(3) [OF 3 assms] n)
  qed
qed

lemma octet_show: "n \<le> 255 \<Longrightarrow> octet (show_nat n) = Some (of_nat n)"
  by (simp add: octet_def decimal_show)

lemma split_at_none: "c \<notin> set s \<Longrightarrow> split_at c s = [s]"
  by (induction s) auto

lemma split_at_append: "c \<notin> set s \<Longrightarrow> split_at c (s @ c # t) = s # split_at c t"
  by (induction s) auto

lemma digits_not: "code c < 48 \<or> 57 < code c \<Longrightarrow> c \<notin> set (show_nat n)"
  using show_nat_digits by force

lemma dotted_split: "split_at (CHR ''.'') (dotted a b c d) = [show_nat a, show_nat b, show_nat c, show_nat d]"
  by (simp add: dotted_def split_at_append split_at_none digits_not code_def)

lemma dotted_parts:
  "a \<le> 255 \<Longrightarrow> b \<le> 255 \<Longrightarrow> c \<le> 255 \<Longrightarrow> d \<le> 255 \<Longrightarrow>
     ipv4_parts (dotted a b c d) = Some [of_nat a, of_nat b, of_nat c, of_nat d]"
  by (simp add: ipv4_parts_def dotted_split octet_show)

definition addr :: "nat \<Rightarrow> nat \<Rightarrow> nat \<Rightarrow> nat \<Rightarrow> nat" where
  "addr a b c d = a * 16777216 + b * 65536 + c * 256 + d"

lemma to_word_dotted:
  assumes "a \<le> 255" "b \<le> 255" "c \<le> 255" "d \<le> 255"
  shows "unat (to_word (ipToUint32 (dotted a b c d))) = addr a b c d"
proof -
  have "ipToUint32 (dotted a b c d) = of_nat (addr a b c d)"
    using assms by (simp add: ipToUint32_def dotted_parts addr_def)
  moreover have "addr a b c d < 2 ^ 32" using assms by (simp add: addr_def)
  ultimately show ?thesis by (simp add: to_word_def unat_of_nat take_bit_nat_eq_self)
qed

lemma base_word: "to_word (ipToUint32 (dotted a b c d)) = word_of_nat (addr a b c d)" if "a \<le> 255" "b \<le> 255" "c \<le> 255" "d \<le> 255"
  using arg_cong [OF to_word_dotted [OF that], of "word_of_nat :: nat \<Rightarrow> 32 word"] by simp

lemma quotient: "r < n \<Longrightarrow> (n * q + r) div n = q" for n q r :: nat
  by simp

lemma addr_div:
  assumes "b \<le> 255" "c \<le> 255" "d \<le> 255"
  shows "addr a b c d div 16777216 = a" "addr a b c d div 1048576 = 16 * a + b div 16" "addr a b c d div 65536 = 256 * a + b"
    "addr a b c d div 4194304 = 4 * a + b div 64" "addr a b c d div 256 = 65536 * a + 256 * b + c" "addr a b c d div 268435456 = a div 16"
proof -
  have r: "c * 256 + d < 65536" "b * 65536 + c * 256 + d < 16777216" using assms by linarith+
  have m: "(b mod 16) * 65536 + c * 256 + d < 1048576" "(b mod 64) * 65536 + c * 256 + d < 4194304"
    "(a mod 16) * 16777216 + b * 65536 + c * 256 + d < 268435456"
    using r mod_less_divisor [of 16 b] mod_less_divisor [of 64 b] mod_less_divisor [of 16 a] by linarith+
  show "addr a b c d div 16777216 = a" using quotient [OF r(2), of a] by (simp add: addr_def algebra_simps)
  show "addr a b c d div 65536 = 256 * a + b" using quotient [OF r(1), of "256 * a + b"] by (simp add: addr_def algebra_simps)
  show "addr a b c d div 256 = 65536 * a + 256 * b + c"
    using quotient [of d 256 "65536 * a + 256 * b + c"] assms by (simp add: addr_def algebra_simps)
  have "addr a (16 * q + r) c d = 1048576 * (16 * a + q) + (r * 65536 + c * 256 + d)" for q r by (simp add: addr_def algebra_simps)
  from this [of "b div 16" "b mod 16"] have "addr a b c d = 1048576 * (16 * a + b div 16) + ((b mod 16) * 65536 + c * 256 + d)" by simp
  then show "addr a b c d div 1048576 = 16 * a + b div 16" by (simp only: quotient [OF m(1)])
  have "addr a (64 * q + r) c d = 4194304 * (4 * a + q) + (r * 65536 + c * 256 + d)" for q r by (simp add: addr_def algebra_simps)
  from this [of "b div 64" "b mod 64"] have "addr a b c d = 4194304 * (4 * a + b div 64) + ((b mod 64) * 65536 + c * 256 + d)" by simp
  then show "addr a b c d div 4194304 = 4 * a + b div 64" by (simp only: quotient [OF m(2)])
  have "addr (16 * q + r) b c d = 268435456 * q + (r * 16777216 + b * 65536 + c * 256 + d)" for q r by (simp add: addr_def algebra_simps)
  from this [of "a div 16" "a mod 16"] have "addr a b c d = 268435456 * (a div 16) + ((a mod 16) * 16777216 + b * 65536 + c * 256 + d)" by simp
  then show "addr a b c d div 268435456 = a div 16" by (simp only: quotient [OF m(3)])
qed

text \<open>The reserved blocks, octet by octet.\<close>

definition reserved :: "nat \<Rightarrow> nat \<Rightarrow> nat \<Rightarrow> nat \<Rightarrow> bool" where
  "reserved a b c d \<longleftrightarrow>
     a = 0 \<or> a = 10 \<or> a = 127 \<or> 240 \<le> a \<or> a = 100 \<and> 64 \<le> b \<and> b \<le> 127 \<or> a = 169 \<and> b = 254 \<or> a = 172 \<and> 16 \<le> b \<and> b \<le> 31 \<or>
     a = 192 \<and> b = 168 \<or> a = 192 \<and> b = 0 \<and> c = 2 \<or> a = 198 \<and> b = 51 \<and> c = 100 \<or> a = 203 \<and> b = 0 \<and> c = 113"

definition in_range :: "nat \<Rightarrow> nat \<Rightarrow> nat \<Rightarrow> bool" where
  "in_range x base k \<longleftrightarrow> x div 2 ^ k = base div 2 ^ k"

lemma range_hit:
  assumes "a \<le> 255" "b \<le> 255" "c \<le> 255" "d \<le> 255" and e: "a' \<le> 255" "b' \<le> 255" "c' \<le> 255" "d' \<le> 255"
    and w: "word_of_nat (addr a' b' c' d') AND NOT (mask k) = (word_of_nat (addr a' b' c' d') :: 32 word)"
  shows "to_word (ipToUint32 (dotted a b c d)) AND NOT (mask k) = to_word (ipToUint32 (dotted a' b' c' d')) \<longleftrightarrow>
     in_range (addr a b c d) (addr a' b' c' d') k"
  using and_high_mask [of "to_word (ipToUint32 (dotted a' b' c' d'))" k] w to_word_dotted [OF assms(1-4)] to_word_dotted [OF e]
  unfolding base_word [OF e] in_range_def by simp

definition blocked_blocks :: "(nat \<times> nat) list" where
  "blocked_blocks = [(addr 127 0 0 0, 24), (addr 10 0 0 0, 24), (addr 172 16 0 0, 20), (addr 192 168 0 0, 16), (addr 169 254 0 0, 16),
     (addr 100 64 0 0, 22), (addr 0 0 0 0, 24), (addr 192 0 2 0, 8), (addr 198 51 100 0, 8), (addr 203 0 113 0, 8), (addr 240 0 0 0, 28),
     (addr 255 255 255 255, 0)]"

lemma ranges:
  "map snd BLOCKED_IPV4_RANGES =
     [(dotted 127 0 0 0, NOT (mask 24)), (dotted 10 0 0 0, NOT (mask 24)), (dotted 172 16 0 0, NOT (mask 20)), (dotted 192 168 0 0, NOT (mask 16)),
      (dotted 169 254 0 0, NOT (mask 16)), (dotted 100 64 0 0, NOT (mask 22)), (dotted 0 0 0 0, NOT (mask 24)), (dotted 192 0 2 0, NOT (mask 8)),
      (dotted 198 51 100 0, NOT (mask 8)), (dotted 203 0 113 0, NOT (mask 8)), (dotted 240 0 0 0, NOT (mask 28)), (dotted 255 255 255 255, NOT (mask 0))]"
  unfolding BLOCKED_IPV4_RANGES_def masks by (simp add: dotted_def show_nat.simps del: mask_0) code_simp

lemma range_any: "list_ex (\<lambda>(_, base, m). P base m) xs \<longleftrightarrow> list_ex (\<lambda>(base, m). P base m) (map snd xs)"
  by (induction xs) auto

lemma aligned:
  "word_of_nat (addr 127 0 0 0) AND NOT (mask 24) = (word_of_nat (addr 127 0 0 0) :: 32 word)"
  "word_of_nat (addr 10 0 0 0) AND NOT (mask 24) = (word_of_nat (addr 10 0 0 0) :: 32 word)"
  "word_of_nat (addr 172 16 0 0) AND NOT (mask 20) = (word_of_nat (addr 172 16 0 0) :: 32 word)"
  "word_of_nat (addr 192 168 0 0) AND NOT (mask 16) = (word_of_nat (addr 192 168 0 0) :: 32 word)"
  "word_of_nat (addr 169 254 0 0) AND NOT (mask 16) = (word_of_nat (addr 169 254 0 0) :: 32 word)"
  "word_of_nat (addr 100 64 0 0) AND NOT (mask 22) = (word_of_nat (addr 100 64 0 0) :: 32 word)"
  "word_of_nat (addr 0 0 0 0) AND NOT (mask 24) = (word_of_nat (addr 0 0 0 0) :: 32 word)"
  "word_of_nat (addr 192 0 2 0) AND NOT (mask 8) = (word_of_nat (addr 192 0 2 0) :: 32 word)"
  "word_of_nat (addr 198 51 100 0) AND NOT (mask 8) = (word_of_nat (addr 198 51 100 0) :: 32 word)"
  "word_of_nat (addr 203 0 113 0) AND NOT (mask 8) = (word_of_nat (addr 203 0 113 0) :: 32 word)"
  "word_of_nat (addr 240 0 0 0) AND NOT (mask 28) = (word_of_nat (addr 240 0 0 0) :: 32 word)"
  "word_of_nat (addr 255 255 255 255) AND NOT (mask 0) = (word_of_nat (addr 255 255 255 255) :: 32 word)"
  by (simp_all add: addr_def mask_eq_exp_minus_1)

lemma private_blocks:
  assumes "a \<le> 255" "b \<le> 255" "c \<le> 255" "d \<le> 255"
  shows "isPrivateIPv4 (dotted a b c d) \<longleftrightarrow> list_ex (\<lambda>(base, k). in_range (addr a b c d) base k) blocked_blocks"
proof -
  have v: "isValidIPv4 (dotted a b c d)" using assms by (simp add: isValidIPv4_def dotted_parts)
  note h = range_hit [OF assms]
  show ?thesis
    unfolding isPrivateIPv4_def range_any ranges blocked_blocks_def list_ex_Nil_iff list_ex_Cons_iff prod.case
    by (simp add: h aligned v del: mask_0)
qed

lemma two_digits: "x < n \<Longrightarrow> y < n \<Longrightarrow> n * a + x = n * b + y \<longleftrightarrow> a = b \<and> x = y" for n a b x y :: nat
  by (metis quotient add_left_cancel)

lemma blocks_reserved:
  assumes "a \<le> 255" "b \<le> 255" "c \<le> 255" "d \<le> 255"
  shows "list_ex (\<lambda>(base, k). in_range (addr a b c d) base k) blocked_blocks \<longleftrightarrow> reserved a b c d"
proof -
  have i: "in_range (addr a b c d) (addr a' b' c' d') 24 \<longleftrightarrow> a = a'" "in_range (addr a b c d) (addr a' b' c' d') 16 \<longleftrightarrow> a = a' \<and> b = b'"
    "in_range (addr a b c d) (addr a' b' c' d') 8 \<longleftrightarrow> a = a' \<and> b = b' \<and> c = c'"
    "in_range (addr a b c d) (addr a' b' c' d') 20 \<longleftrightarrow> a = a' \<and> b div 16 = b' div 16"
    "in_range (addr a b c d) (addr a' b' c' d') 22 \<longleftrightarrow> a = a' \<and> b div 64 = b' div 64"
    "in_range (addr a b c d) (addr a' b' c' d') 28 \<longleftrightarrow> a div 16 = a' div 16"
    "in_range (addr a b c d) (addr a' b' c' d') 0 \<longleftrightarrow> addr a b c d = addr a' b' c' d'"
    if "a' \<le> 255" "b' \<le> 255" "c' \<le> 255" "d' \<le> 255" for a' b' c' d'
    using assms that two_digits [of b 256 b' a a'] two_digits [of c 256 c' "256 * a + b" "256 * a' + b'"]
      two_digits [of "b div 16" 16 "b' div 16" a a'] two_digits [of "b div 64" 4 "b' div 64" a a']
    by (simp_all add: in_range_def addr_div)
  have q: "b div 16 = Suc 0 \<longleftrightarrow> 16 \<le> b \<and> b \<le> 31" "b div 64 = Suc 0 \<longleftrightarrow> 64 \<le> b \<and> b \<le> 127" "a div 16 = 15 \<longleftrightarrow> 240 \<le> a"
    using assms by auto
  have full: "addr a b c d = addr 255 255 255 255 \<Longrightarrow> 240 \<le> a" using assms unfolding addr_def by linarith
  have "list_ex (\<lambda>(base, k). in_range (addr a b c d) base k) blocked_blocks \<longleftrightarrow>
      a = 127 \<or> a = 10 \<or> (a = 172 \<and> 16 \<le> b \<and> b \<le> 31) \<or> (a = 192 \<and> b = 168) \<or> (a = 169 \<and> b = 254) \<or> (a = 100 \<and> 64 \<le> b \<and> b \<le> 127) \<or>
      a = 0 \<or> (a = 192 \<and> b = 0 \<and> c = 2) \<or> (a = 198 \<and> b = 51 \<and> c = 100) \<or> (a = 203 \<and> b = 0 \<and> c = 113) \<or> 240 \<le> a \<or>
      addr a b c d = addr 255 255 255 255"
    unfolding blocked_blocks_def list_ex_Nil_iff list_ex_Cons_iff prod.case by (simp add: i q)
  then show ?thesis unfolding reserved_def using full by blast
qed

lemma private_dotted:
  assumes "a \<le> 255" "b \<le> 255" "c \<le> 255" "d \<le> 255"
  shows "isPrivateIPv4 (dotted a b c d) \<longleftrightarrow> reserved a b c d"
  using private_blocks [OF assms] blocks_reserved [OF assms] by simp

section \<open>Mapped addresses\<close>

lemma lower_digit [simp]: "48 \<le> code c \<Longrightarrow> code c \<le> 58 \<Longrightarrow> lower_char c = c"
  by (simp add: lower_char_def)

lemma lower_show [simp]: "map lower_char (show_nat n) = show_nat n"
  by (rule map_idI) (use show_nat_digits in \<open>force simp: lower_char_def\<close>)

lemma lower_dotted: "toLowerCase (dotted a b c d) = dotted a b c d"
proof -
  have "lower_char CHR ''.'' = CHR ''.''" by code_simp
  then show ?thesis by (simp add: toLowerCase_def dotted_def)
qed

lemma lower_hex_group: "list_all lower_hex g \<Longrightarrow> toLowerCase g = g"
  by (induction g) (auto simp: toLowerCase_def lower_hex_def is_digit_char_def lower_char_def)

lemma show_nat_length: "n \<le> 255 \<Longrightarrow> 1 \<le> length (show_nat n) \<and> length (show_nat n) \<le> 3"
  by (cases "n < 10"; cases "n < 100") (simp_all add: show_small)

lemma dotted_is_dotted:
  "a \<le> 255 \<Longrightarrow> b \<le> 255 \<Longrightarrow> c \<le> 255 \<Longrightarrow> d \<le> 255 \<Longrightarrow> dotted_form (dotted a b c d)"
  using show_nat_length by (simp add: dotted_form_def dotted_split is_digit_char_def list_all_iff) (use show_nat_digits in blast)

text \<open>A mapped address is not changed by what is done before it is taken apart.\<close>

lemma mapped_private:
  assumes "toLowerCase s = s" and "s \<noteq> []" "last s \<noteq> CHR '']''" and "extractIPv4FromMappedIPv6 (mapped_prefix @ s) = Some ip"
  shows "isPrivateIPv6 (mapped_prefix @ s) = isPrivateIPv4 ip"
proof -
  have "toLowerCase mapped_prefix = mapped_prefix" by code_simp
  then have l: "toLowerCase (mapped_prefix @ s) = mapped_prefix @ s" using assms(1) by (simp add: toLowerCase_def)
  obtain c r where r: "rev s = c # r" "c \<noteq> CHR '']''" using assms(2,3) by (cases s rule: rev_cases) auto
  have b: "strip_brackets (mapped_prefix @ s) = mapped_prefix @ s"
    using r by (simp add: strip_brackets_def mapped_prefix_def)
  show ?thesis using assms(4) unfolding isPrivateIPv6_def l b Let_def
    by (simp add: mapped_prefix_def link_local_def unique_local_def)
qed

lemma mapped_dotted:
  assumes "a \<le> 255" "b \<le> 255" "c \<le> 255" "d \<le> 255"
  shows "isPrivateIPv6 (mapped_prefix @ dotted a b c d) \<longleftrightarrow> reserved a b c d"
proof -
  have "extractIPv4FromMappedIPv6 (mapped_prefix @ dotted a b c d) = Some (dotted a b c d)"
    using dotted_is_dotted [OF assms] by (simp add: extractIPv4FromMappedIPv6_def)
  moreover have "last (dotted a b c d) \<in> set (show_nat d)" "dotted a b c d \<noteq> []"
    by (simp_all add: dotted_def show_nat.simps [of d])
  moreover have "CHR '']'' \<notin> set (show_nat d)" by (rule digits_not) (simp add: code_def)
  ultimately show ?thesis using mapped_private [OF lower_dotted] private_dotted [OF assms] by metis
qed

lemma hex_group_bound: "hex_group g \<Longrightarrow> parse_hex g < 65536"
proof -
  have b: "foldl (\<lambda>n c. 16 * n + nullish (hex_value c) 0) m g < (m + 1) * 16 ^ length g" if "list_all lower_hex g" for m
    using that
  proof (induction g arbitrary: m)
    case (Cons c g)
    have "nullish (hex_value c) 0 < 16" by (cases "hex_value c") (auto dest: hex_value_bound)
    then have "(16 * m + nullish (hex_value c) 0 + 1) * 16 ^ length g \<le> (16 * (m + 1)) * 16 ^ length g"
      by (intro mult_le_mono1) simp
    moreover have "foldl (\<lambda>n c. 16 * n + nullish (hex_value c) 0) (16 * m + nullish (hex_value c) 0) g
        < (16 * m + nullish (hex_value c) 0 + 1) * 16 ^ length g" using Cons by simp
    ultimately have "foldl (\<lambda>n c. 16 * n + nullish (hex_value c) 0) (16 * m + nullish (hex_value c) 0) g < 16 * (m + 1) * 16 ^ length g"
      by (rule less_le_trans [rotated])
    then show ?case by (simp add: algebra_simps)
  qed simp
  assume g: "hex_group g"
  then have "(16 :: nat) ^ length g \<le> 16 ^ 4" by (intro power_increasing) (simp_all add: hex_group_def)
  then show ?thesis using b [of 0] g by (simp add: parse_hex_def hex_group_def)
qed

lemma mapped_hex:
  assumes "hex_group g" "hex_group h"
  shows "isPrivateIPv6 (mapped_prefix @ g @ '':'' @ h) \<longleftrightarrow>
     reserved (parse_hex g div 256) (parse_hex g mod 256) (parse_hex h div 256) (parse_hex h mod 256)"
proof -
  let ?s = "g @ '':'' @ h"
  let ?ip = "dotted (parse_hex g div 256) (parse_hex g mod 256) (parse_hex h div 256) (parse_hex h mod 256)"
  have colon: "CHR '':'' \<notin> set x" "CHR ''.'' \<notin> set x" "CHR '']'' \<notin> set x" if "hex_group x" for x
    using that by (auto simp: hex_group_def list_all_iff lower_hex_def is_digit_char_def code_def)
  have "split_at (CHR ''.'') ?s = [?s]" using colon assms by (intro split_at_none) auto
  then have "\<not> dotted_form ?s" by (simp add: dotted_form_def)
  moreover have "split_at (CHR '':'') ?s = [g, h]" using colon assms by (simp add: split_at_append split_at_none)
  ultimately have "extractIPv4FromMappedIPv6 (mapped_prefix @ ?s) = Some ?ip"
    using assms by (simp add: extractIPv4FromMappedIPv6_def Let_def)
  moreover have "last ?s \<in> set h" "?s \<noteq> []" using assms by (auto simp: hex_group_def)
  moreover have "lower_char CHR '':'' = CHR '':''" by code_simp
  then have "toLowerCase ?s = ?s" using assms lower_hex_group [of g] lower_hex_group [of h]
    by (simp add: hex_group_def toLowerCase_def)
  ultimately have "isPrivateIPv6 (mapped_prefix @ ?s) = isPrivateIPv4 ?ip"
    using colon(3) [OF assms(2)] by (intro mapped_private) auto
  then show ?thesis using private_dotted hex_group_bound [OF assms(1)] hex_group_bound [OF assms(2)] by simp
qed

section \<open>Properties\<close>



lemma check_addresses_none: "check_addresses host as = None \<longleftrightarrow> (\<forall>x\<in>set as. \<not> isPrivateIPv4 x \<and> \<not> isPrivateIPv6 x)"
  by (induction "as") auto

text \<open>
  A URL that is accepted has an allowed protocol and a host that is not on the list, and neither the
  host nor any address it resolves to is, in dotted form or mapped into IPv6, in a reserved block.
\<close>

theorem accepted_target_public:
  assumes "validateOutboundUrl parse lookup allowHttp True rawUrl = Inr u" and "reserved a b c d"
    and "a \<le> 255" "b \<le> 255" "c \<le> 255" "d \<le> 255"
  shows "parse rawUrl = Some u \<and> List.member (allowedProtocols allowHttp) (url_protocol u) \<and>
     \<not> List.member BLOCKED_HOSTNAMES (toLowerCase (url_hostname u)) \<and>
     (\<exists>addresses. lookup (toLowerCase (url_hostname u)) = Inr addresses \<and>
        \<not> List.member (toLowerCase (url_hostname u) # addresses) (dotted a b c d) \<and>
        \<not> List.member (toLowerCase (url_hostname u) # addresses) (mapped_prefix @ dotted a b c d))"
proof -
  have p: "isPrivateIPv4 (dotted a b c d)" "isPrivateIPv6 (mapped_prefix @ dotted a b c d)"
    using private_dotted mapped_dotted assms by auto
  let ?host = "toLowerCase (url_hostname u)"
  have u: "parse rawUrl = Some u" "List.member (allowedProtocols allowHttp) (url_protocol u)" "\<not> List.member BLOCKED_HOSTNAMES ?host"
    "\<not> isPrivateIPv4 ?host" "\<not> isPrivateIPv6 ?host"
    using assms(1) by (auto simp: validateOutboundUrl_def Let_def split: option.splits if_splits sum.splits)
  then obtain addresses where "lookup ?host = Inr addresses" "check_addresses ?host addresses = None"
    using assms(1) by (auto simp: validateOutboundUrl_def Let_def split: option.splits if_splits sum.splits)
  then show ?thesis using u p check_addresses_none by (auto simp: List.member_iff)
qed

definition demo_parse :: "string \<Rightarrow> url option" where
  "demo_parse s = Some \<lparr>url_protocol = ''https:'', url_hostname = ''Example.org''\<rparr>"

theorem accepted_target_public_witness:
  "\<exists>addresses. (\<lambda>_. Inr [''93.184.216.34'']) (toLowerCase ''Example.org'') = (Inr addresses :: string + string list) \<and>
     \<not> List.member (''example.org'' # addresses) (dotted 10 0 0 1)"
proof -
  have "validateOutboundUrl demo_parse (\<lambda>_. Inr [''93.184.216.34'']) False True ''x'' = Inr \<lparr>url_protocol = ''https:'', url_hostname = ''Example.org''\<rparr>"
    "toLowerCase ''Example.org'' = ''example.org''" by code_simp+
  moreover have "reserved 10 0 0 1" by (simp add: reserved_def)
  ultimately show ?thesis using accepted_target_public [of demo_parse "\<lambda>_. Inr [''93.184.216.34'']" False "''x''" _ 10 0 0 1] by fastforce
qed

text \<open>What the check without a lookup accepts is what the full check accepts when it does not look up either.\<close>

theorem sync_agrees:
  "validateOutboundUrlSync parse allowHttp rawUrl = None \<longleftrightarrow> (\<exists>u. validateOutboundUrl parse lookup allowHttp False rawUrl = Inr u)"
  by (auto simp: validateOutboundUrl_def validateOutboundUrlSync_def Let_def split: option.splits)

text \<open>IPv4 addresses embedded in IPv6 by other prefixes are not recognized: compatible addresses, and those a NAT64 gateway translates.\<close>

theorem embedded_addresses_pass:
  "\<not> isPrivateIPv6 ''::7f00:1''" "\<not> isPrivateIPv6 ''64:ff9b::a9fe:a9fe''" "\<not> isPrivateIPv6 ''::ffff:0:a00:1''"
  by code_simp+

end
