(* ===== verification/Merkle.thy ===== *)
theory Merkle
  imports Json
begin

text \<open>
  Merkle trees (\<open>shared/src/logic/crypto/merkle.ts\<close>).  SHA-256 is an argument that maps bytes to
  bytes; \<open>utf8\<close> encodes text.  Layers and hashes are hexadecimal text, as in the code.
\<close>

datatype side = On_left | On_right

record path_step =
  ps_sibling :: string
  ps_position :: side

record merkle_proof =
  mp_leaf :: string
  mp_path :: "path_step list"
  mp_root :: string

record digest_env =
  dg_sha256 :: "nat list \<Rightarrow> nat list"
  dg_utf8 :: "string \<Rightarrow> nat list"

definition bytesToHex :: "nat list \<Rightarrow> string" where
  "bytesToHex bs = concat (map (\<lambda>b. [hex_digit (b div 16), hex_digit (b mod 16)]) bs)"

text \<open>
  What \<open>parseInt\<close> makes of two characters, written into a byte: a second character that is no digit ends
  the number, blanks and a sign may come first, and \<open>NaN\<close> is stored as 0.
\<close>

definition parse_byte :: "char \<Rightarrow> char \<Rightarrow> nat" where
  "parse_byte a b =
     (case (hex_value a, hex_value b) of
        (Some x, Some y) \<Rightarrow> 16 * x + y
      | (Some x, None) \<Rightarrow> x
      | (None, Some y) \<Rightarrow>
          (if code a \<in> {9, 10, 11, 12, 13, 32, 43, 160} then y else if code a = 45 then (256 - y) mod 256 else 0)
      | (None, None) \<Rightarrow> 0)"

fun hexToBytes :: "string \<Rightarrow> nat list" where
  "hexToBytes (a # b # s) = parse_byte a b # hexToBytes s"
| "hexToBytes _ = []"

definition hashLeaf :: "digest_env \<Rightarrow> string \<Rightarrow> string" where
  "hashLeaf env leaf = bytesToHex (dg_sha256 env (dg_utf8 env leaf))"

definition hashPair :: "digest_env \<Rightarrow> string \<Rightarrow> string \<Rightarrow> string" where
  "hashPair env a b = bytesToHex (dg_sha256 env (hexToBytes a @ hexToBytes b))"

text \<open>The last hash of a layer of odd length is paired with itself; so would be an empty right hash.\<close>

fun buildNextLayer :: "digest_env \<Rightarrow> string list \<Rightarrow> string list" where
  "buildNextLayer env [] = []"
| "buildNextLayer env [l] = [hashPair env l l]"
| "buildNextLayer env (l # r # xs) = hashPair env l (if r = [] then l else r) # buildNextLayer env xs"

lemma length_next_layer [simp]: "length (buildNextLayer env xs) = (length xs + 1) div 2"
  by (induction env xs rule: buildNextLayer.induct) auto

function layers_from :: "digest_env \<Rightarrow> string list \<Rightarrow> string list list" where
  "layers_from env layer = (if 1 < length layer then layer # layers_from env (buildNextLayer env layer) else [layer])"
  by pat_completeness auto

termination by (relation "measure (\<lambda>(env, layer). length layer)") auto

declare layers_from.simps [simp del]

definition buildMerkleTree :: "digest_env \<Rightarrow> string list \<Rightarrow> string list list" where
  "buildMerkleTree env leaves = layers_from env (map (hashLeaf env) leaves)"

text \<open>Without leaves the root is \<open>undefined\<close>.\<close>

definition root_of :: "string list list \<Rightarrow> string option" where
  "root_of tree = (case last tree of [] \<Rightarrow> None | r # _ \<Rightarrow> Some r)"

definition getMerkleRoot :: "digest_env \<Rightarrow> string list \<Rightarrow> string option" where
  "getMerkleRoot env leaves = root_of (buildMerkleTree env leaves)"

fun merkle_path :: "string list list \<Rightarrow> nat \<Rightarrow> path_step list" where
  "merkle_path (layer # next # rest) i =
     (let right = (i mod 2 = 1); j = (if right then i - 1 else i + 1)
      in (if j < length layer then [\<lparr>ps_sibling = layer ! j, ps_position = (if right then On_left else On_right)\<rparr>] else []) @
         merkle_path (next # rest) (i div 2))"
| "merkle_path _ i = []"

text \<open>For an index outside the leaves the leaf of the proof is \<open>undefined\<close>.\<close>

definition generateMerkleProof :: "digest_env \<Rightarrow> string list \<Rightarrow> nat \<Rightarrow> merkle_proof option" where
  "generateMerkleProof env leaves i =
     (let tree = buildMerkleTree env leaves
      in if i < length leaves
         then map_option (\<lambda>r. \<lparr>mp_leaf = leaves ! i, mp_path = merkle_path tree i, mp_root = r\<rparr>) (root_of tree)
         else None)"

fun fold_path :: "digest_env \<Rightarrow> string \<Rightarrow> path_step list \<Rightarrow> string" where
  "fold_path env h [] = h"
| "fold_path env h (s # ss) =
     fold_path env (if ps_position s = On_left then hashPair env (ps_sibling s) h else hashPair env h (ps_sibling s)) ss"

definition verifyMerkleProof :: "digest_env \<Rightarrow> merkle_proof \<Rightarrow> bool" where
  "verifyMerkleProof env p \<longleftrightarrow> fold_path env (hashLeaf env (mp_leaf p)) (mp_path p) = mp_root p"

end
