(* ===== verification/MerkleProps.thy ===== *)
theory MerkleProps
  imports Merkle
begin

text \<open>
  What Merkle proofs promise: the proof of a leaf verifies, unless the leaf is the last one of a layer
  of odd length; and a root binds the leaf at a position.
\<close>

section \<open>Digests\<close>

definition digest_ok :: "digest_env \<Rightarrow> bool" where
  "digest_ok env \<longleftrightarrow> (\<forall>x. length (dg_sha256 env x) = 32 \<and> list_all (\<lambda>b. b < 256) (dg_sha256 env x))"

lemma hex_value_digit: "n < 16 \<Longrightarrow> hex_value (hex_digit n) = Some n"
  by (auto simp: hex_digit_def hex_value_def Let_def)

lemma hexToBytes_bytesToHex: "list_all (\<lambda>b. b < 256) bs \<Longrightarrow> hexToBytes (bytesToHex bs) = bs"
  by (induction bs) (auto simp: bytesToHex_def hex_value_digit parse_byte_def)

lemma bytesToHex_inj:
  "list_all (\<lambda>b. b < 256) xs \<Longrightarrow> list_all (\<lambda>b. b < 256) ys \<Longrightarrow> bytesToHex xs = bytesToHex ys \<Longrightarrow> xs = ys"
  using hexToBytes_bytesToHex by metis

lemma length_bytesToHex: "length (bytesToHex bs) = 2 * length bs"
  by (induction bs) (auto simp: bytesToHex_def)

definition digest_text :: "digest_env \<Rightarrow> nat list \<Rightarrow> string" where
  "digest_text env x = bytesToHex (dg_sha256 env x)"

lemma digest_text_length: "digest_ok env \<Longrightarrow> length (digest_text env x) = 64"
  by (simp add: digest_text_def length_bytesToHex digest_ok_def)

lemma hashes_are_digests: "hashLeaf env l = digest_text env (dg_utf8 env l)" "hashPair env a b = digest_text env (hexToBytes a @ hexToBytes b)"
  by (simp_all add: hashLeaf_def hashPair_def digest_text_def)

lemma digest_text_bytes: "digest_ok env \<Longrightarrow> hexToBytes (digest_text env x) = dg_sha256 env x"
  by (simp add: digest_text_def digest_ok_def hexToBytes_bytesToHex)

lemma digest_text_inj: "digest_ok env \<Longrightarrow> digest_text env x = digest_text env y \<Longrightarrow> dg_sha256 env x = dg_sha256 env y"
  using digest_text_bytes by metis

section \<open>Layers\<close>

definition all_digests :: "digest_env \<Rightarrow> string list \<Rightarrow> bool" where
  "all_digests env xs \<longleftrightarrow> list_all (\<lambda>h. \<exists>x. h = digest_text env x) xs"

lemma next_layer_digests: "all_digests env (buildNextLayer env xs)"
  by (induction env xs rule: buildNextLayer.induct) (auto simp: all_digests_def hashes_are_digests)

lemma digest_nonempty: "digest_ok env \<Longrightarrow> all_digests env xs \<Longrightarrow> i < length xs \<Longrightarrow> xs ! i \<noteq> []"
  using digest_text_length [of env] by (auto simp: all_digests_def list_all_length) (metis list.size(3) zero_neq_numeral)

text \<open>The parent of the node at an index.\<close>

lemma next_layer_nth:
  assumes "\<forall>k<length xs. xs ! k \<noteq> []" and "i < length xs"
  shows "buildNextLayer env xs ! (i div 2) =
     (if i mod 2 = 1 then hashPair env (xs ! (i - 1)) (xs ! i)
      else if i + 1 < length xs then hashPair env (xs ! i) (xs ! (i + 1)) else hashPair env (xs ! i) (xs ! i))"
  using assms
proof (induction env xs arbitrary: i rule: buildNextLayer.induct)
  case (3 env l r xs)
  have r: "r \<noteq> []" using "3.prems"(1) by force
  have ne: "\<forall>k<length xs. xs ! k \<noteq> []" using "3.prems"(1) by force
  consider "i = 0" | "i = 1" | j where "i = Suc (Suc j)" by (metis One_nat_def not0_implies_Suc)
  then show ?case
  proof cases
    case (3 j)
    then show ?thesis using "3.IH" [OF ne, of j] "3.prems"(2) by (cases j) (auto simp: nth_Cons split: nat.splits)
  qed (use r in auto)
qed auto

fun lone :: "nat \<Rightarrow> nat \<Rightarrow> bool" where
  "lone i n = (if n \<le> 1 then False else if odd n \<and> i = n - 1 then True else lone (i div 2) ((n + 1) div 2))"

declare lone.simps [simp del]

lemma layers_shape: "\<exists>rest. layers_from env layer = layer # rest"
  by (subst layers_from.simps) simp

lemma root_layers:
  "1 < length layer \<Longrightarrow> root_of (layers_from env layer) = root_of (layers_from env (buildNextLayer env layer))"
  using layers_shape [of env "buildNextLayer env layer"] by (subst layers_from.simps) (auto simp: root_of_def)

lemma path_step:
  assumes "1 < length layer"
  shows "merkle_path (layers_from env layer) i =
     (let right = (i mod 2 = 1); j = (if right then i - 1 else i + 1)
      in (if j < length layer then [\<lparr>ps_sibling = layer ! j, ps_position = (if right then On_left else On_right)\<rparr>] else []) @
         merkle_path (layers_from env (buildNextLayer env layer)) (i div 2))"
  using assms layers_shape [of env "buildNextLayer env layer"] by (subst layers_from.simps) (auto simp: Let_def)

lemma fold_reaches_root:
  shows "digest_ok env \<Longrightarrow> all_digests env layer \<Longrightarrow> i < length layer \<Longrightarrow> \<not> lone i (length layer) \<Longrightarrow>
     root_of (layers_from env layer) = Some (fold_path env (layer ! i) (merkle_path (layers_from env layer) i))"
proof (induction env layer arbitrary: i rule: layers_from.induct)
  case (1 env layer)
  note prems = "1.prems"
  show ?case
  proof (cases "1 < length layer")
    case False
    then obtain x where "layer = [x]" "i = 0" using prems(3) by (cases layer) auto
    then show ?thesis by (simp add: root_of_def layers_from.simps [of env "[x]"])
  next
    case True
    let ?next = "buildNextLayer env layer"
    have l: "\<not> (odd (length layer) \<and> i = length layer - 1)" "\<not> lone (i div 2) (length ?next)"
      using prems(4) True by (subst (asm) lone.simps; simp split: if_splits)+
    have ne: "\<forall>k<length layer. layer ! k \<noteq> []" using digest_nonempty [OF prems(1,2)] by blast
    have "i div 2 < length ?next" using prems(3) by simp
    then have "root_of (layers_from env ?next) = Some (fold_path env (?next ! (i div 2)) (merkle_path (layers_from env ?next) (i div 2)))"
      using "1.IH" [OF True prems(1) next_layer_digests] l(2) by blast
    moreover have "even i \<Longrightarrow> i + 1 < length layer" using l(1) prems(3) by (cases "i = length layer - 1") auto
    moreover have "i - 1 < length layer" using prems(3) by simp
    ultimately show ?thesis
      using prems(3) next_layer_nth [OF ne prems(3)] unfolding root_layers [OF True] path_step [OF True] Let_def
      by (cases "even i") (simp_all add: mod_2_eq_odd)
  qed
qed

text \<open>
  The proof generated for a leaf verifies against the root of the leaves, unless on the way up the
  leaf's ancestor is the last node of a layer of odd length.
\<close>

theorem merkle_proof_verifies:
  assumes "digest_ok env" and "i < length leaves" and "\<not> lone i (length leaves)"
  shows "\<exists>p. generateMerkleProof env leaves i = Some p \<and> mp_leaf p = leaves ! i \<and> getMerkleRoot env leaves = Some (mp_root p) \<and>
     verifyMerkleProof env p"
proof -
  have "all_digests env (map (hashLeaf env) leaves)" by (auto simp: all_digests_def hashes_are_digests list_all_iff)
  then have "root_of (buildMerkleTree env leaves) = Some (fold_path env (hashLeaf env (leaves ! i)) (merkle_path (buildMerkleTree env leaves) i))"
    using fold_reaches_root [OF assms(1), of "map (hashLeaf env) leaves" i] assms(2,3) by (simp add: buildMerkleTree_def)
  then show ?thesis using assms(2) by (simp add: generateMerkleProof_def getMerkleRoot_def verifyMerkleProof_def Let_def)
qed

lemma power_of_two_not_lone: "i < 2 ^ k \<Longrightarrow> \<not> lone i (2 ^ k)"
proof (induction k arbitrary: i)
  case (Suc k)
  have "i div 2 < 2 ^ k" using Suc.prems by auto
  then show ?case using Suc.IH by (subst lone.simps) simp
qed (simp add: lone.simps)

section \<open>Binding\<close>

text \<open>Two proofs at the same position.\<close>

definition same_position :: "merkle_proof \<Rightarrow> merkle_proof \<Rightarrow> bool" where
  "same_position p q \<longleftrightarrow> map ps_position (mp_path p) = map ps_position (mp_path q)"

definition collision :: "digest_env \<Rightarrow> bool" where
  "collision env \<longleftrightarrow> (\<exists>x y. x \<noteq> y \<and> dg_sha256 env x = dg_sha256 env y)"

lemma fold_binds:
  assumes "digest_ok env" and "\<not> collision env"
  shows "map ps_position xs = map ps_position ys \<Longrightarrow> fold_path env (digest_text env u) xs = fold_path env (digest_text env v) ys \<Longrightarrow>
     digest_text env u = digest_text env v"
proof (induction xs arbitrary: ys u v)
  case (Cons x xs)
  then obtain y ys' where y: "ys = y # ys'" "ps_position x = ps_position y" "map ps_position xs = map ps_position ys'" by (cases ys) auto
  define step where "step = (\<lambda>(s :: path_step) w. if ps_position s = On_left then hexToBytes (ps_sibling s) @ dg_sha256 env w else dg_sha256 env w @ hexToBytes (ps_sibling s))"
  have f: "fold_path env (digest_text env w) (s # ss) = fold_path env (digest_text env (step s w)) ss" for s :: path_step and w ss
    using digest_text_bytes [OF assms(1)] by (simp add: step_def hashes_are_digests)
  have "digest_text env (step x u) = digest_text env (step y v)"
    using Cons.IH [OF y(3), of "step x u" "step y v"] Cons.prems(2) unfolding y(1) f by blast
  then have "step x u = step y v" using digest_text_inj [OF assms(1)] assms(2) unfolding collision_def by blast
  moreover have "length (dg_sha256 env u) = length (dg_sha256 env v)" using assms(1) by (simp add: digest_ok_def)
  ultimately have "dg_sha256 env u = dg_sha256 env v" using y(2) by (auto simp: step_def split: if_splits)
  then show ?case by (simp add: digest_text_def)
qed simp

text \<open>
  A root binds the leaf at a position: two verified proofs with the same root and the same turns on
  the way up are about the same leaf, whatever siblings they name, or SHA-256 has a collision.
\<close>

theorem merkle_root_binds:
  assumes "digest_ok env" and "verifyMerkleProof env p" "verifyMerkleProof env q" and "mp_root p = mp_root q" "same_position p q"
    and "dg_utf8 env (mp_leaf p) = dg_utf8 env (mp_leaf q) \<Longrightarrow> mp_leaf p = mp_leaf q"
  shows "mp_leaf p = mp_leaf q \<or> collision env"
proof (cases "collision env")
  case False
  have "hashLeaf env (mp_leaf p) = hashLeaf env (mp_leaf q)"
    using fold_binds [OF assms(1) False] assms(2-5) unfolding hashes_are_digests verifyMerkleProof_def same_position_def by metis
  then show ?thesis using digest_text_inj [OF assms(1)] assms(6) False unfolding collision_def hashes_are_digests by metis
qed simp

section \<open>What odd layers do\<close>

text \<open>A list of odd length and the list with its last leaf repeated have the same root.\<close>

lemma next_layer_repeats: "odd (length xs) \<Longrightarrow> last xs \<noteq> [] \<Longrightarrow> buildNextLayer env (xs @ [last xs]) = buildNextLayer env xs"
proof (induction env xs rule: buildNextLayer.induct)
  case (3 env l r xs)
  then show ?case by (cases xs) auto
qed auto

theorem repeated_leaf_same_root:
  assumes "digest_ok env" and "odd (length leaves)" and "1 < length leaves"
  shows "getMerkleRoot env (leaves @ [last leaves]) = getMerkleRoot env leaves"
proof -
  let ?hs = "map (hashLeaf env) leaves"
  have "leaves \<noteq> []" using assms(3) by (cases leaves) auto
  then have l: "last ?hs = hashLeaf env (last leaves)" by (simp add: last_map)
  have "last ?hs \<noteq> []" unfolding l hashes_are_digests using digest_text_length [OF assms(1)] by (metis list.size(3) zero_neq_numeral)
  then have "buildNextLayer env (?hs @ [hashLeaf env (last leaves)]) = buildNextLayer env ?hs"
    using next_layer_repeats [of ?hs env] assms(2) by (simp add: l)
  moreover have "1 < length ?hs" "1 < length (?hs @ [hashLeaf env (last leaves)])" using assms(3) \<open>leaves \<noteq> []\<close> by simp_all
  ultimately have "root_of (layers_from env (?hs @ [hashLeaf env (last leaves)])) = root_of (layers_from env ?hs)"
    using root_layers by metis
  then show ?thesis by (simp add: getMerkleRoot_def buildMerkleTree_def)
qed

text \<open>The proof of the last of three leaves does not verify: its path leaves out the node's copy of itself.\<close>

theorem last_of_three_fails:
  assumes "digest_ok env" and "\<not> collision env"
    and "dg_utf8 env c \<noteq> dg_sha256 env (dg_utf8 env c) @ dg_sha256 env (dg_utf8 env c)"
  shows "\<exists>p. generateMerkleProof env [a, b, c] 2 = Some p \<and> \<not> verifyMerkleProof env p"
proof -
  let ?u = "dg_utf8 env c" and ?ab = "hashPair env (hashLeaf env a) (hashLeaf env b)"
  let ?cc = "dg_sha256 env ?u @ dg_sha256 env ?u"
  have ne: "hashLeaf env x \<noteq> []" "hashPair env x y \<noteq> []" for x y
    unfolding hashes_are_digests using digest_text_length [OF assms(1)] by (metis list.size(3) zero_neq_numeral)+
  have tree: "buildMerkleTree env [a, b, c] =
      [map (hashLeaf env) [a, b, c], [?ab, hashPair env (hashLeaf env c) (hashLeaf env c)],
       [hashPair env ?ab (hashPair env (hashLeaf env c) (hashLeaf env c))]]"
    using ne by (simp add: buildMerkleTree_def layers_from.simps [of env "[_, _, _]"] layers_from.simps [of env "[_, _]"]
        layers_from.simps [of env "[_]"])
  have cc: "hashPair env (hashLeaf env c) (hashLeaf env c) = digest_text env ?cc"
    by (simp add: hashes_are_digests digest_text_bytes [OF assms(1)])
  define p where "p = \<lparr>mp_leaf = c, mp_path = [\<lparr>ps_sibling = ?ab, ps_position = On_left\<rparr>], mp_root = hashPair env ?ab (digest_text env ?cc)\<rparr>"
  have g: "generateMerkleProof env [a, b, c] 2 = Some p"
    unfolding generateMerkleProof_def tree cc p_def by (simp add: root_of_def)
  have "\<not> verifyMerkleProof env p"
  proof
    assume "verifyMerkleProof env p"
    then have "hashPair env ?ab (digest_text env ?u) = hashPair env ?ab (digest_text env ?cc)"
      by (simp add: verifyMerkleProof_def p_def hashes_are_digests(1))
    then have "dg_sha256 env (hexToBytes ?ab @ dg_sha256 env ?u) = dg_sha256 env (hexToBytes ?ab @ dg_sha256 env ?cc)"
      unfolding hashes_are_digests(2) [of env ?ab] digest_text_bytes [OF assms(1)] by (rule digest_text_inj [OF assms(1)])
    then have "hexToBytes ?ab @ dg_sha256 env ?u = hexToBytes ?ab @ dg_sha256 env ?cc" using assms(2) unfolding collision_def by blast
    then have "dg_sha256 env ?u = dg_sha256 env ?cc" by (rule same_append_eq [THEN iffD1])
    then show False using assms(2,3) unfolding collision_def by blast
  qed
  with g show ?thesis by blast
qed

section \<open>Witnesses\<close>

text \<open>A digest of the right shape for the witnesses: the sum of the weighted bytes, padded.\<close>

definition demo_digest_env :: digest_env where
  "demo_digest_env = \<lparr>dg_sha256 = (\<lambda>bs. (foldl (\<lambda>n b. 3 * n + b) 7 bs mod 256) # replicate 31 0), dg_utf8 = map code\<rparr>"

lemma demo_digest_ok: "digest_ok demo_digest_env"
  by (simp add: digest_ok_def demo_digest_env_def list_all_length nth_Cons split: nat.splits)

theorem merkle_proof_verifies_witness:
  "\<exists>p. generateMerkleProof demo_digest_env [''a'', ''b'', ''c''] 1 = Some p \<and> mp_leaf p = ''b'' \<and>
     getMerkleRoot demo_digest_env [''a'', ''b'', ''c''] = Some (mp_root p) \<and> verifyMerkleProof demo_digest_env p"
proof -
  have "\<not> lone 1 3" by (simp add: lone.simps)
  then show ?thesis using merkle_proof_verifies [OF demo_digest_ok, of 1 "[''a'', ''b'', ''c'']"] by (simp add: numeral_3_eq_3)
qed

definition demo_proof :: "string \<Rightarrow> merkle_proof" where
  "demo_proof leaf = \<lparr>mp_leaf = leaf, mp_path = [\<lparr>ps_sibling = ''00'', ps_position = On_left\<rparr>],
     mp_root = hashPair demo_digest_env ''00'' (hashLeaf demo_digest_env ''b'')\<rparr>"

theorem merkle_root_binds_witness: "mp_leaf (demo_proof ''Ff'') = ''b'' \<or> collision demo_digest_env"
proof -
  have "hashLeaf demo_digest_env ''Ff'' = hashLeaf demo_digest_env ''b''" by (simp add: hashLeaf_def demo_digest_env_def code_def)
  then have v: "verifyMerkleProof demo_digest_env (demo_proof ''Ff'')" "verifyMerkleProof demo_digest_env (demo_proof ''b'')"
    by (simp_all add: verifyMerkleProof_def demo_proof_def)
  have u: "dg_utf8 demo_digest_env (mp_leaf (demo_proof ''Ff'')) = dg_utf8 demo_digest_env (mp_leaf (demo_proof ''b'')) \<Longrightarrow>
      mp_leaf (demo_proof ''Ff'') = mp_leaf (demo_proof ''b'')"
    by (simp add: demo_digest_env_def demo_proof_def)
  have "mp_root (demo_proof ''Ff'') = mp_root (demo_proof ''b'')" "same_position (demo_proof ''Ff'') (demo_proof ''b'')"
    by (simp_all add: demo_proof_def same_position_def)
  then show ?thesis using merkle_root_binds [OF demo_digest_ok v _ _ u] by (simp add: demo_proof_def)
qed

end
