(* ===== verification/Outbox.thy ===== *)
theory Outbox
  imports Prelude
begin

text \<open>
  The event outbox (\<open>backend/src/lib/event-bus.ts\<close>, \<open>lib/outbox-publisher.ts\<close>): events are rows of a
  table, a timer hands the oldest ones that are due to their subscribers, failures are retried with a
  growing pause and end in the dead letter table.  What the subscribers and the network do is a
  world \<open>'w\<close>; whether a statement reaches the database is asked of it.  A statement that fails
  changes nothing and answers an error, which most of this code does not look at.
\<close>

record domain_event =
  de_eventName :: string
  de_eventId :: string
  de_userId :: string
  de_correlationId :: "string option"
  de_payload :: string

datatype outbox_status = Event_pending | Event_retrying | Event_published | Event_failed

record outbox_row =
  or_id :: string
  or_event :: domain_event
  or_status :: outbox_status
  or_retry_count :: int
  or_max_retries :: "int option"
  or_next_retry_at :: "millis option"
  or_last_error :: "string option"
  or_published_at :: "millis option"
  or_created_at :: millis
  or_updated_at :: millis

record dead_event =
  dv_event :: domain_event
  dv_retry_count :: int
  dv_last_error :: string
  dv_failed_at :: millis

record 'w outbox_env =
  oe_now :: "'w \<Rightarrow> millis"
  oe_select :: "'w \<Rightarrow> string option \<times> 'w"
  oe_write :: "'w \<Rightarrow> string option \<times> 'w"
  oe_duplicate_key :: string

type_synonym 'w subscriber = "domain_event \<Rightarrow> 'w \<Rightarrow> string option \<times> 'w"

record 'w outbox =
  ob_rows :: "outbox_row list"
  ob_dead :: "dead_event list"
  ob_subscribers :: "(string, 'w subscriber) jsmap"
  ob_running :: bool
  ob_world :: 'w

section \<open>Writing to the tables\<close>

text \<open>A statement that fails leaves the tables alone.\<close>

definition outbox_write :: "'w outbox_env \<Rightarrow> ('w outbox \<Rightarrow> 'w outbox) \<Rightarrow> 'w outbox \<Rightarrow> string option \<times> 'w outbox" where
  "outbox_write env change st =
     (let (e, w) = oe_write env (ob_world st); st1 = st\<lparr>ob_world := w\<rparr>
      in case e of Some msg \<Rightarrow> (Some msg, st1) | None \<Rightarrow> (None, change st1))"

definition update_row :: "'w outbox_env \<Rightarrow> string \<Rightarrow> (outbox_row \<Rightarrow> outbox_row) \<Rightarrow> 'w outbox \<Rightarrow> 'w outbox" where
  "update_row env i f st = snd (outbox_write env (\<lambda>s. s\<lparr>ob_rows := map (\<lambda>r. if or_id r = i then f r else r) (ob_rows s)\<rparr>) st)"

definition delete_row :: "'w outbox_env \<Rightarrow> string \<Rightarrow> 'w outbox \<Rightarrow> 'w outbox" where
  "delete_row env i st = snd (outbox_write env (\<lambda>s. s\<lparr>ob_rows := filter (\<lambda>r. or_id r \<noteq> i) (ob_rows s)\<rparr>) st)"

section \<open>Publishing\<close>

text \<open>The id of the row is the database's choice, and an event id is accepted once.\<close>

definition publish :: "'w outbox_env \<Rightarrow> string \<Rightarrow> domain_event \<Rightarrow> 'w outbox \<Rightarrow> (string + unit) \<times> 'w outbox" where
  "publish env new e st =
     (let now = oe_now env (ob_world st); duplicate = list_ex (\<lambda>r. de_eventId (or_event r) = de_eventId e) (ob_rows st);
          row = \<lparr>or_id = new, or_event = e, or_status = Event_pending, or_retry_count = 0, or_max_retries = Some 5,
            or_next_retry_at = Some now, or_last_error = None, or_published_at = None, or_created_at = now, or_updated_at = now\<rparr>;
          (err, st1) = outbox_write env (\<lambda>s. if duplicate then s else s\<lparr>ob_rows := ob_rows s @ [row]\<rparr>) st
      in case (if err = None \<and> duplicate then Some (oe_duplicate_key env) else err) of
           Some msg \<Rightarrow> (Inl (''Failed to enqueue domain event: '' @ msg), st1)
         | None \<Rightarrow> (Inr (), st1))"

section \<open>Subscribers and the timer\<close>

definition register :: "string \<Rightarrow> 'w subscriber \<Rightarrow> 'w outbox \<Rightarrow> 'w outbox" where
  "register name h st = st\<lparr>ob_subscribers := js_set name h (ob_subscribers st)\<rparr>"

definition unregister :: "string \<Rightarrow> 'w outbox \<Rightarrow> 'w outbox" where
  "unregister name st = st\<lparr>ob_subscribers := js_delete name (ob_subscribers st)\<rparr>"

text \<open>The answer says whether a timer is started, or cleared.\<close>

definition start_publisher :: "'w outbox \<Rightarrow> bool \<times> 'w outbox" where
  "start_publisher st = (if ob_running st then (False, st) else (True, st\<lparr>ob_running := True\<rparr>))"

definition stop_publisher :: "'w outbox \<Rightarrow> bool \<times> 'w outbox" where
  "stop_publisher st = (if \<not> ob_running st then (False, st) else (True, st\<lparr>ob_running := False\<rparr>))"

definition POLL_INTERVAL_MS :: millis where
  "POLL_INTERVAL_MS = 2000"

definition BATCH_SIZE :: nat where
  "BATCH_SIZE = 50"

section \<open>What the server registers\<close>

datatype event_subscriber = Audit_log | Risk_score | Reminder_schedule | Analytics_invalidation | Digest_update

text \<open>The registrations of \<open>backend/src/index.ts\<close>, in order.\<close>

definition registrations :: "(string \<times> event_subscriber) list" where
  "registrations =
     [(''subscription.created'', Audit_log), (''subscription.updated'', Audit_log),
      (''subscription.deleted'', Audit_log), (''subscription.cancelled'', Audit_log),
      (''subscription.created'', Risk_score), (''renewal.succeeded'', Risk_score),
      (''renewal.failed'', Risk_score), (''payment.failed'', Risk_score),
      (''subscription.created'', Reminder_schedule), (''subscription.restored'', Reminder_schedule),
      (''subscription.updated'', Reminder_schedule), (''subscription.deleted'', Reminder_schedule),
      (''subscription.cancelled'', Reminder_schedule),
      (''subscription.created'', Analytics_invalidation), (''subscription.updated'', Analytics_invalidation),
      (''subscription.deleted'', Analytics_invalidation), (''subscription.cancelled'', Analytics_invalidation),
      (''subscription.created'', Digest_update), (''subscription.updated'', Digest_update),
      (''subscription.deleted'', Digest_update), (''subscription.cancelled'', Digest_update)]"

definition register_all :: "(event_subscriber \<Rightarrow> 'w subscriber) \<Rightarrow> 'w outbox \<Rightarrow> 'w outbox" where
  "register_all h st = fold (\<lambda>(name, sub). register name (h sub)) registrations st"

section \<open>One event\<close>

definition computeBackoffMs :: "int \<Rightarrow> int" where
  "computeBackoffMs retryCount = min (1000 * 2 ^ nat (min retryCount 10)) 300000"

definition markFailed :: "'w outbox_env \<Rightarrow> string \<Rightarrow> string \<Rightarrow> 'w outbox \<Rightarrow> 'w outbox" where
  "markFailed env i reason st =
     update_row env i (\<lambda>r. r\<lparr>or_status := Event_failed, or_last_error := Some reason, or_updated_at := oe_now env (ob_world st)\<rparr>) st"

text \<open>The dead letter table accepts an event id once.\<close>

definition insert_dead :: "'w outbox_env \<Rightarrow> dead_event \<Rightarrow> 'w outbox \<Rightarrow> 'w outbox" where
  "insert_dead env d st =
     snd (outbox_write env (\<lambda>s. if list_ex (\<lambda>d'. de_eventId (dv_event d') = de_eventId (dv_event d)) (ob_dead s) then s
                                 else s\<lparr>ob_dead := ob_dead s @ [d]\<rparr>) st)"

definition moveToDeadLetter :: "'w outbox_env \<Rightarrow> outbox_row \<Rightarrow> string \<Rightarrow> 'w outbox \<Rightarrow> 'w outbox" where
  "moveToDeadLetter env row msg st =
     delete_row env (or_id row)
       (insert_dead env \<lparr>dv_event = or_event row, dv_retry_count = or_retry_count row + 1, dv_last_error = msg,
          dv_failed_at = oe_now env (ob_world st)\<rparr> st)"

definition event_published :: "'w outbox_env \<Rightarrow> outbox_row \<Rightarrow> 'w outbox \<Rightarrow> 'w outbox" where
  "event_published env row st =
     (let now = oe_now env (ob_world st)
      in update_row env (or_id row) (\<lambda>r. r\<lparr>or_status := Event_published, or_published_at := Some now, or_updated_at := now\<rparr>) st)"

text \<open>Counts and bounds are those of the row as it was selected.\<close>

definition event_threw :: "'w outbox_env \<Rightarrow> outbox_row \<Rightarrow> string \<Rightarrow> 'w outbox \<Rightarrow> 'w outbox" where
  "event_threw env row msg st =
     (let retryCount = or_retry_count row + 1; maxRetries = nullish (or_max_retries row) 5; now = oe_now env (ob_world st)
      in if maxRetries \<le> retryCount then moveToDeadLetter env row msg st
         else update_row env (or_id row)
                (\<lambda>r. r\<lparr>or_status := Event_retrying, or_retry_count := retryCount,
                   or_next_retry_at := Some (now + computeBackoffMs retryCount), or_last_error := Some msg, or_updated_at := now\<rparr>) st)"

definition dispatchRow :: "'w outbox_env \<Rightarrow> outbox_row \<Rightarrow> 'w outbox \<Rightarrow> 'w outbox" where
  "dispatchRow env row st =
     (case js_get (ob_subscribers st) (de_eventName (or_event row)) of
        None \<Rightarrow> markFailed env (or_id row) (''No subscriber registered for '' @ de_eventName (or_event row)) st
      | Some handler \<Rightarrow>
          (case handler (or_event row) (ob_world st) of
             (None, w) \<Rightarrow> event_published env row (st\<lparr>ob_world := w\<rparr>)
           | (Some msg, w) \<Rightarrow> event_threw env row msg (st\<lparr>ob_world := w\<rparr>)))"

section \<open>One batch\<close>

definition queued :: "outbox_row \<Rightarrow> bool" where
  "queued r \<longleftrightarrow> or_status r = Event_pending \<or> or_status r = Event_retrying"

definition due :: "millis \<Rightarrow> outbox_row \<Rightarrow> bool" where
  "due now r \<longleftrightarrow> queued r \<and> (case or_next_retry_at r of None \<Rightarrow> False | Some t \<Rightarrow> t \<le> now)"

definition fetch_batch :: "millis \<Rightarrow> 'w outbox \<Rightarrow> outbox_row list" where
  "fetch_batch now st = take BATCH_SIZE (sort_key or_created_at (filter (due now) (ob_rows st)))"

text \<open>The rows are handled one after the other; another batch may run between two of them.\<close>

definition dispatch_rows :: "'w outbox_env \<Rightarrow> outbox_row list \<Rightarrow> 'w outbox \<Rightarrow> 'w outbox" where
  "dispatch_rows env rows st = fold (dispatchRow env) rows st"

definition processBatch :: "'w outbox_env \<Rightarrow> 'w outbox \<Rightarrow> 'w outbox" where
  "processBatch env st =
     (let now = oe_now env (ob_world st); (err, w) = oe_select env (ob_world st); st1 = st\<lparr>ob_world := w\<rparr>
      in if err \<noteq> None then st1 else dispatch_rows env (fetch_batch now st1) st1)"

end
