(* ===== verification/OutboxProps.thy ===== *)
theory OutboxProps
  imports Outbox "HOL-Library.Multiset"
begin

text \<open>
  What the outbox promises: while its statements reach the database no event is lost or doubled in the
  tables, and every event is settled (published, failed or in the dead letter table) after a number of
  rounds that its retries bound.
\<close>

section \<open>The laws of the environment\<close>

definition writes_land :: "'w outbox_env \<Rightarrow> bool" where
  "writes_land env \<longleftrightarrow> (\<forall>w. fst (oe_write env w) = None) \<and> (\<forall>w. fst (oe_select env w) = None)"

definition outbox_clock_ok :: "'w outbox_env \<Rightarrow> bool" where
  "outbox_clock_ok env \<longleftrightarrow> (\<forall>w. oe_now env w \<le> oe_now env (snd (oe_write env w))) \<and> (\<forall>w. oe_now env w \<le> oe_now env (snd (oe_select env w)))"

definition subscribers_ok :: "'w outbox_env \<Rightarrow> 'w outbox \<Rightarrow> bool" where
  "subscribers_ok env st \<longleftrightarrow>
     (\<forall>name h. js_get (ob_subscribers st) name = Some h \<longrightarrow> (\<forall>e w. oe_now env w \<le> oe_now env (snd (h e w))))"

definition event_ids :: "'w outbox \<Rightarrow> string list" where
  "event_ids st = map (de_eventId \<circ> or_event) (ob_rows st) @ map (de_eventId \<circ> dv_event) (ob_dead st)"

definition outbox_ok :: "'w outbox \<Rightarrow> bool" where
  "outbox_ok st \<longleftrightarrow> distinct (map or_id (ob_rows st)) \<and> distinct (event_ids st)"

text \<open>The events the tables account for.\<close>

definition accounted :: "'w outbox \<Rightarrow> domain_event multiset" where
  "accounted st = image_mset or_event (mset (ob_rows st)) + image_mset dv_event (mset (ob_dead st))"

section \<open>One event\<close>

text \<open>How many more rounds a row may take.\<close>

definition rounds_left :: "outbox_row \<Rightarrow> nat" where
  "rounds_left r = (if queued r then nat (nullish (or_max_retries r) 5 - 1 - or_retry_count r) + 1 else 0)"

definition backlog :: "'w outbox \<Rightarrow> nat" where
  "backlog st = sum_list (map rounds_left (ob_rows st))"

definition retry_soon :: "millis \<Rightarrow> outbox_row \<Rightarrow> bool" where
  "retry_soon now r \<longleftrightarrow> (queued r \<longrightarrow> (\<exists>t. or_next_retry_at r = Some t \<and> t \<le> now + 300000))"

lemma backoff_bound: "computeBackoffMs n \<le> 300000"
  by (simp add: computeBackoffMs_def)

text \<open>A row is replaced by one that is further on, or its event moves to the dead letter table.\<close>

definition row_moves :: "millis \<Rightarrow> outbox_row \<Rightarrow> 'w outbox \<Rightarrow> 'w outbox \<Rightarrow> bool" where
  "row_moves now r st st' \<longleftrightarrow> ob_subscribers st' = ob_subscribers st \<and>
     ((\<exists>r'. ob_rows st' = map (\<lambda>x. if or_id x = or_id r then r' else x) (ob_rows st) \<and> ob_dead st' = ob_dead st \<and>
         or_id r' = or_id r \<and> or_event r' = or_event r \<and> rounds_left r' < rounds_left r \<and> retry_soon now r') \<or>
      (\<exists>d. ob_rows st' = filter (\<lambda>x. or_id x \<noteq> or_id r) (ob_rows st) \<and> ob_dead st' = ob_dead st @ [d] \<and> dv_event d = or_event r))"

lemma outbox_write_lands: "writes_land env \<Longrightarrow> snd (outbox_write env f st) = f (st\<lparr>ob_world := snd (oe_write env (ob_world st))\<rparr>)"
  by (cases "oe_write env (ob_world st)") (auto simp: outbox_write_def writes_land_def Let_def dest: spec [of _ "ob_world st"] split: option.splits)

lemma same_row: "distinct (map or_id rows) \<Longrightarrow> r \<in> set rows \<Longrightarrow> x \<in> set rows \<Longrightarrow> or_id x = or_id r \<Longrightarrow> x = r"
  by (auto simp: distinct_map inj_on_def)

lemma update_row_lands:
  assumes "writes_land env" and "distinct (map or_id (ob_rows st))" and "r \<in> set (ob_rows st)"
  shows "ob_rows (update_row env (or_id r) f st) = map (\<lambda>x. if or_id x = or_id r then f r else x) (ob_rows st)"
    and "ob_dead (update_row env i f st) = ob_dead st" and "ob_subscribers (update_row env i f st) = ob_subscribers st"
  using same_row [OF assms(2,3)] by (auto simp: update_row_def outbox_write_lands [OF assms(1)] cong: map_cong)

lemma update_moves:
  assumes "writes_land env" and "outbox_ok st" and "r \<in> set (ob_rows st)"
    and "or_id (f r) = or_id r" "or_event (f r) = or_event r" "rounds_left (f r) < rounds_left r" "retry_soon now (f r)"
  shows "row_moves now r st (update_row env (or_id r) f st)"
proof -
  have d: "distinct (map or_id (ob_rows st))" using assms(2) by (simp add: outbox_ok_def)
  show ?thesis unfolding row_moves_def update_row_lands [OF assms(1) d assms(3)] using assms(4-7) by blast
qed

lemma published_moves:
  assumes "writes_land env" and "outbox_ok st" and "r \<in> set (ob_rows st)" and "queued r"
  shows "row_moves now r st (event_published env r st)"
  unfolding event_published_def Let_def
  by (rule update_moves) (use assms in \<open>auto simp: rounds_left_def queued_def retry_soon_def\<close>)

lemma failed_moves:
  assumes "writes_land env" and "outbox_ok st" and "r \<in> set (ob_rows st)" and "queued r"
  shows "row_moves now r st (markFailed env (or_id r) reason st)"
  unfolding markFailed_def
  by (rule update_moves) (use assms in \<open>auto simp: rounds_left_def queued_def retry_soon_def\<close>)

lemma dead_moves:
  assumes "writes_land env" and "distinct (event_ids st)" and "r \<in> set (ob_rows st)"
  shows "row_moves now r st (moveToDeadLetter env r msg st)"
proof -
  have "de_eventId (or_event r) \<notin> set (map (de_eventId \<circ> dv_event) (ob_dead st))"
    using assms(2,3) by (auto simp: event_ids_def)
  then have "\<not> list_ex (\<lambda>d'. de_eventId (dv_event d') = de_eventId (or_event r)) (ob_dead st)" by (force simp: list_ex_iff)
  then show ?thesis unfolding row_moves_def moveToDeadLetter_def delete_row_def insert_dead_def
    by (intro conjI disjI2 exI, simp_all add: outbox_write_lands [OF assms(1)]) simp
qed

lemma threw_moves:
  assumes "writes_land env" and "outbox_ok st" and "r \<in> set (ob_rows st)" and "queued r"
  shows "row_moves (oe_now env (ob_world st)) r st (event_threw env r msg st)"
proof (cases "nullish (or_max_retries r) 5 \<le> or_retry_count r + 1")
  case True
  then show ?thesis using dead_moves [OF assms(1) _ assms(3)] assms(2) by (simp add: event_threw_def outbox_ok_def Let_def)
next
  case False
  then have "event_threw env r msg st = update_row env (or_id r)
      (\<lambda>x. x\<lparr>or_status := Event_retrying, or_retry_count := or_retry_count r + 1,
          or_next_retry_at := Some (oe_now env (ob_world st) + computeBackoffMs (or_retry_count r + 1)), or_last_error := Some msg,
          or_updated_at := oe_now env (ob_world st)\<rparr>) st"
    by (simp add: event_threw_def Let_def)
  then show ?thesis using False backoff_bound [of "or_retry_count r + 1"] assms(4)
    by (auto intro!: update_moves [OF assms(1-3)] simp: rounds_left_def queued_def retry_soon_def)
qed

text \<open>The clock while an event is handled.\<close>

lemma update_row_clock: "outbox_clock_ok env \<Longrightarrow> oe_now env (ob_world st) \<le> oe_now env (ob_world (update_row env i f st))"
  by (simp add: update_row_def outbox_write_def outbox_clock_ok_def Let_def split: prod.splits option.splits) (metis snd_conv)

lemma delete_row_clock: "outbox_clock_ok env \<Longrightarrow> oe_now env (ob_world st) \<le> oe_now env (ob_world (delete_row env i st))"
  by (simp add: delete_row_def outbox_write_def outbox_clock_ok_def Let_def split: prod.splits option.splits) (metis snd_conv)

lemma insert_dead_clock: "outbox_clock_ok env \<Longrightarrow> oe_now env (ob_world st) \<le> oe_now env (ob_world (insert_dead env d st))"
  by (simp add: insert_dead_def outbox_write_def outbox_clock_ok_def Let_def split: prod.splits option.splits) (metis snd_conv)

lemma dead_letter_clock: "outbox_clock_ok env \<Longrightarrow> oe_now env (ob_world st) \<le> oe_now env (ob_world (moveToDeadLetter env r msg st))"
  unfolding moveToDeadLetter_def using delete_row_clock insert_dead_clock by (meson order_trans)

text \<open>Handling a selected row: it moves on, and the clock does not go back.\<close>

lemma dispatch_moves:
  assumes "writes_land env" and "outbox_clock_ok env" and "subscribers_ok env st" and "outbox_ok st"
    and "r \<in> set (ob_rows st)" "queued r"
  shows "\<exists>now. row_moves now r st (dispatchRow env r st) \<and> oe_now env (ob_world st) \<le> oe_now env (ob_world (dispatchRow env r st)) \<and>
     now \<le> oe_now env (ob_world (dispatchRow env r st))"
proof (cases "js_get (ob_subscribers st) (de_eventName (or_event r))")
  case None
  let ?why = "''No subscriber registered for '' @ de_eventName (or_event r)"
  have d: "dispatchRow env r st = markFailed env (or_id r) ?why st" using None by (simp add: dispatchRow_def)
  have "oe_now env (ob_world st) \<le> oe_now env (ob_world (markFailed env (or_id r) ?why st))"
    using update_row_clock [OF assms(2)] by (simp add: markFailed_def)
  then show ?thesis using failed_moves [OF assms(1,4,5,6)] unfolding d by blast
next
  case (Some h)
  obtain e w where h: "h (or_event r) (ob_world st) = (e, w)" by fastforce
  let ?st = "st\<lparr>ob_world := w\<rparr>"
  have clock: "oe_now env (ob_world st) \<le> oe_now env w" using assms(3) Some h unfolding subscribers_ok_def by (metis snd_conv)
  have ok: "outbox_ok ?st" "r \<in> set (ob_rows ?st)" using assms(4,5) by (simp_all add: outbox_ok_def event_ids_def)
  have same: "row_moves now r ?st st' \<longleftrightarrow> row_moves now r st st'" for now st' by (simp add: row_moves_def)
  have "\<exists>now. row_moves now r ?st (dispatchRow env r st) \<and> oe_now env w \<le> oe_now env (ob_world (dispatchRow env r st)) \<and> now \<le> oe_now env w"
  proof (cases e)
    case None
    have "dispatchRow env r st = event_published env r ?st" using Some h None by (simp add: dispatchRow_def)
    then show ?thesis using published_moves [OF assms(1) ok assms(6)] update_row_clock [OF assms(2), of ?st] by (auto simp: event_published_def Let_def)
  next
    case (Some msg)
    have d: "dispatchRow env r st = event_threw env r msg ?st" using \<open>js_get _ _ = Some h\<close> h Some by (simp add: dispatchRow_def)
    moreover have "oe_now env w \<le> oe_now env (ob_world (event_threw env r msg ?st))"
      using update_row_clock [OF assms(2), of ?st] dead_letter_clock [OF assms(2), of ?st] by (simp add: event_threw_def Let_def)
    ultimately show ?thesis using threw_moves [OF assms(1) ok assms(6), of msg] by auto
  qed
  then show ?thesis using clock unfolding same by (meson order_trans)
qed

section \<open>One batch\<close>

text \<open>What a move keeps: the events in the tables, their identity, and the other rows.\<close>

lemma rows_split:
  assumes "distinct (map or_id rows)" and "r \<in> set rows"
  obtains xs ys where "rows = xs @ r # ys" "\<forall>x\<in>set xs \<union> set ys. or_id x \<noteq> or_id r"
proof -
  obtain xs ys where "rows = xs @ r # ys" using split_list [OF assms(2)] by blast
  moreover have "\<forall>x\<in>set xs \<union> set ys. or_id x \<noteq> or_id r" using assms(1) unfolding calculation by (force simp: image_iff)
  ultimately show ?thesis using that by blast
qed

lemma move_cases:
  assumes "row_moves now r st st'" and "outbox_ok st" and "r \<in> set (ob_rows st)"
  obtains xs ys r' where "ob_rows st = xs @ r # ys" "ob_rows st' = xs @ r' # ys" "ob_dead st' = ob_dead st"
      "or_id r' = or_id r" "or_event r' = or_event r" "rounds_left r' < rounds_left r" "retry_soon now r'"
  | xs ys d where "ob_rows st = xs @ r # ys" "ob_rows st' = xs @ ys" "ob_dead st' = ob_dead st @ [d]" "dv_event d = or_event r"
proof -
  have "distinct (map or_id (ob_rows st))" using assms(2) by (simp add: outbox_ok_def)
  from this assms(3) obtain xs ys where r: "ob_rows st = xs @ r # ys" "\<forall>x\<in>set xs \<union> set ys. or_id x \<noteq> or_id r" by (rule rows_split)
  have m: "map (\<lambda>x. if or_id x = or_id r then r' else x) xs = xs" "map (\<lambda>x. if or_id x = or_id r then r' else x) ys = ys" for r'
    using r(2) by (auto intro: map_idI)
  have f: "filter (\<lambda>x. or_id x \<noteq> or_id r) xs = xs" "filter (\<lambda>x. or_id x \<noteq> or_id r) ys = ys" using r(2) by (auto simp: filter_id_conv)
  show ?thesis using assms(1) unfolding row_moves_def r(1) by (auto simp: m f intro: that(1) [OF r(1)] that(2) [OF r(1)])
qed

lemma move_keeps:
  assumes "row_moves now r st st'" and "outbox_ok st" and "r \<in> set (ob_rows st)"
  shows "outbox_ok st'" and "accounted st' = accounted st" and "backlog st' < backlog st \<or> rounds_left r = 0"
    and "x \<in> set (ob_rows st) \<Longrightarrow> x \<noteq> r \<Longrightarrow> x \<in> set (ob_rows st')"
    and "x \<in> set (ob_rows st') \<Longrightarrow> x \<in> set (ob_rows st) \<or> retry_soon now x"
  using assms(2) by (cases rule: move_cases [OF assms]; auto simp: outbox_ok_def event_ids_def accounted_def backlog_def)+

text \<open>The state of the publisher between two events of a batch.\<close>

definition publisher_ok :: "'w outbox_env \<Rightarrow> 'w outbox \<Rightarrow> bool" where
  "publisher_ok env st \<longleftrightarrow> outbox_ok st \<and> subscribers_ok env st \<and> (\<forall>r\<in>set (ob_rows st). retry_soon (oe_now env (ob_world st)) r)"

lemma retry_soon_mono: "retry_soon now r \<Longrightarrow> now \<le> now' \<Longrightarrow> retry_soon now' r"
  by (fastforce simp: retry_soon_def)

lemma dispatch_keeps:
  assumes "writes_land env" and "outbox_clock_ok env" and "publisher_ok env st" and "r \<in> set (ob_rows st)" "queued r"
  shows "publisher_ok env (dispatchRow env r st)" and "accounted (dispatchRow env r st) = accounted st"
    and "backlog (dispatchRow env r st) < backlog st"
    and "x \<in> set (ob_rows st) \<Longrightarrow> x \<noteq> r \<Longrightarrow> x \<in> set (ob_rows (dispatchRow env r st))"
proof -
  let ?st' = "dispatchRow env r st"
  have ok: "outbox_ok st" "subscribers_ok env st" using assms(3) by (simp_all add: publisher_ok_def)
  obtain now where now: "row_moves now r st ?st'" "oe_now env (ob_world st) \<le> oe_now env (ob_world ?st')" "now \<le> oe_now env (ob_world ?st')"
    using dispatch_moves [OF assms(1,2) ok(2,1) assms(4,5)] by blast
  note keeps = move_keeps [OF now(1) ok(1) assms(4)]
  have "subscribers_ok env ?st'" using ok(2) now(1) by (simp add: subscribers_ok_def row_moves_def)
  moreover have "retry_soon (oe_now env (ob_world ?st')) x" if "x \<in> set (ob_rows ?st')" for x
    using keeps(5) [OF that] assms(3) now(2,3) retry_soon_mono unfolding publisher_ok_def by blast
  ultimately show "publisher_ok env ?st'" using keeps(1) by (simp add: publisher_ok_def)
  show "accounted ?st' = accounted st" by (rule keeps(2))
  show "backlog ?st' < backlog st" using keeps(3) assms(5) by (simp add: rounds_left_def)
  show "x \<in> set (ob_rows st) \<Longrightarrow> x \<noteq> r \<Longrightarrow> x \<in> set (ob_rows ?st')" by (rule keeps(4))
qed

lemma batch_keeps:
  assumes "writes_land env" and "outbox_clock_ok env"
  shows "publisher_ok env st \<Longrightarrow> distinct rows \<Longrightarrow> set rows \<subseteq> set (ob_rows st) \<Longrightarrow> list_all queued rows \<Longrightarrow>
    publisher_ok env (dispatch_rows env rows st) \<and> accounted (dispatch_rows env rows st) = accounted st \<and>
    backlog (dispatch_rows env rows st) + (if rows = [] then 0 else 1) \<le> backlog st"
proof (induction rows arbitrary: st)
  case (Cons r rows)
  have r: "r \<in> set (ob_rows st)" "queued r" using Cons.prems by auto
  note keeps = dispatch_keeps [OF assms Cons.prems(1) r]
  have "set rows \<subseteq> set (ob_rows (dispatchRow env r st))" using keeps(4) Cons.prems(2,3) by auto
  then show ?case using Cons.IH [OF keeps(1)] Cons.prems(2,4) keeps(2,3) by (auto simp: dispatch_rows_def split: if_splits)
qed (simp add: dispatch_rows_def)

lemma fetch_batch_rows: "distinct (ob_rows st) \<Longrightarrow> distinct (fetch_batch now st)" "set (fetch_batch now st) \<subseteq> set (ob_rows st)"
  "list_all queued (fetch_batch now st)"
  by (auto simp: fetch_batch_def list_all_iff due_def dest!: in_set_takeD)

lemma process_keeps:
  assumes "writes_land env" and "outbox_clock_ok env" and "publisher_ok env st"
  shows "publisher_ok env (processBatch env st)" and "accounted (processBatch env st) = accounted st"
    and "backlog (processBatch env st) + (if fetch_batch (oe_now env (ob_world st)) st = [] then 0 else 1) \<le> backlog st"
proof -
  let ?st = "st\<lparr>ob_world := snd (oe_select env (ob_world st))\<rparr>" and ?now = "oe_now env (ob_world st)"
  have p: "processBatch env st = dispatch_rows env (fetch_batch ?now ?st) ?st"
    using assms(1) by (auto simp: processBatch_def writes_land_def Let_def split: prod.splits) (metis fst_conv option.distinct(1))
  have f: "fetch_batch ?now ?st = fetch_batch ?now st" by (simp add: fetch_batch_def)
  have "?now \<le> oe_now env (ob_world ?st)" using assms(2) by (simp add: outbox_clock_ok_def)
  then have ok: "publisher_ok env ?st"
    using assms(3) retry_soon_mono by (fastforce simp: publisher_ok_def outbox_ok_def event_ids_def subscribers_ok_def)
  have "distinct (ob_rows ?st)" using assms(3) by (auto simp: publisher_ok_def outbox_ok_def distinct_map)
  then have "publisher_ok env (processBatch env st) \<and> accounted (processBatch env st) = accounted ?st \<and>
      backlog (processBatch env st) + (if fetch_batch ?now ?st = [] then 0 else 1) \<le> backlog ?st"
    unfolding p using batch_keeps [OF assms(1,2) ok] fetch_batch_rows [where st = ?st and now = ?now] by blast
  then show "publisher_ok env (processBatch env st)" "accounted (processBatch env st) = accounted st"
    "backlog (processBatch env st) + (if fetch_batch ?now st = [] then 0 else 1) \<le> backlog st"
    by (simp_all add: accounted_def backlog_def f)
qed

section \<open>Rounds\<close>

text \<open>
  Batches one after the other; \<open>w\<close> is the world a batch finds, at least five minutes (the longest pause
  between two tries) after the previous one ended.
\<close>

fun outbox_rounds :: "'w outbox_env \<Rightarrow> 'w list \<Rightarrow> 'w outbox \<Rightarrow> 'w outbox" where
  "outbox_rounds env [] st = st"
| "outbox_rounds env (w # ws) st = outbox_rounds env ws (processBatch env (st\<lparr>ob_world := w\<rparr>))"

fun spaced :: "'w outbox_env \<Rightarrow> 'w list \<Rightarrow> 'w outbox \<Rightarrow> bool" where
  "spaced env [] st = True"
| "spaced env (w # ws) st = (oe_now env (ob_world st) + 300000 \<le> oe_now env w \<and> spaced env ws (processBatch env (st\<lparr>ob_world := w\<rparr>)))"

lemma rounds_settle:
  assumes "writes_land env" and "outbox_clock_ok env"
  shows "publisher_ok env st \<Longrightarrow> spaced env ws st \<Longrightarrow> accounted (outbox_rounds env ws st) = accounted st \<and>
     backlog (outbox_rounds env ws st) \<le> backlog st - length ws"
proof (induction ws arbitrary: st)
  case (Cons w ws)
  let ?st = "st\<lparr>ob_world := w\<rparr>"
  have later: "oe_now env (ob_world st) + 300000 \<le> oe_now env w" using Cons.prems(2) by simp
  then have ok: "publisher_ok env ?st"
    using Cons.prems(1) retry_soon_mono [of "oe_now env (ob_world st)" _ "oe_now env w"]
    by (auto simp: publisher_ok_def outbox_ok_def event_ids_def subscribers_ok_def)
  note keeps = process_keeps [OF assms ok]
  have "backlog (processBatch env ?st) \<le> backlog st - 1"
  proof (cases "fetch_batch (oe_now env w) ?st = []")
    case True
    then have "set (sort_key or_created_at (filter (due (oe_now env w)) (ob_rows st))) = {}" by (simp add: fetch_batch_def BATCH_SIZE_def)
    then have "filter (due (oe_now env w)) (ob_rows st) = []" by simp
    then have "\<forall>r\<in>set (ob_rows st). \<not> due (oe_now env w) r" by (simp add: filter_empty_conv)
    moreover have "retry_soon (oe_now env (ob_world st)) r" if "r \<in> set (ob_rows st)" for r using Cons.prems(1) that by (simp add: publisher_ok_def)
    ultimately have "\<forall>r\<in>set (ob_rows st). \<not> queued r" using later by (fastforce simp: due_def retry_soon_def)
    then have "backlog ?st = 0" by (simp add: backlog_def rounds_left_def)
    then show ?thesis using keeps(3) by simp
  next
    case False
    then show ?thesis using keeps(3) by (simp add: backlog_def)
  qed
  moreover have "accounted ?st = accounted st" by (simp add: accounted_def)
  ultimately show ?case using Cons.IH [OF keeps(1)] Cons.prems(2) keeps(2) by auto
qed simp

lemma no_backlog: "backlog st = 0 \<Longrightarrow> r \<in> set (ob_rows st) \<Longrightarrow> \<not> queued r"
  by (auto simp: backlog_def rounds_left_def split: if_splits)


section \<open>What may go wrong\<close>

lemma register_fold: "js_get (ob_subscribers (fold (\<lambda>(name, sub). register name (h sub)) rs st)) name =
    (case map_of (rev rs) name of Some sub \<Rightarrow> Some (h sub) | None \<Rightarrow> js_get (ob_subscribers st) name)"
  by (induction rs arbitrary: st) (auto simp: register_def map_add_def split: option.splits)

text \<open>A name has one subscriber: of the five the server registers for a creation only the last is called.\<close>

theorem only_last_subscriber:
  assumes "ob_subscribers st = []"
  shows "js_get (ob_subscribers (register_all h st)) name =
     (if List.member [''subscription.created'', ''subscription.updated'', ''subscription.deleted'', ''subscription.cancelled''] name
      then Some (h Digest_update)
      else if name = ''subscription.restored'' then Some (h Reminder_schedule)
      else if List.member [''renewal.succeeded'', ''renewal.failed'', ''payment.failed''] name then Some (h Risk_score) else None)"
  unfolding register_all_def register_fold registrations_def using assms by (auto simp: js_get_def)

text \<open>Without a subscriber the event is marked as failed and is never due again.\<close>

theorem unsubscribed_event_fails:
  assumes "writes_land env" and "outbox_ok st" and "r \<in> set (ob_rows st)" and "js_get (ob_subscribers st) (de_eventName (or_event r)) = None"
  shows "\<exists>r'. List.member (ob_rows (dispatchRow env r st)) r' \<and> or_event r' = or_event r \<and> or_status r' = Event_failed \<and> \<not> due now r'"
proof -
  let ?f = "\<lambda>x. x\<lparr>or_status := Event_failed, or_last_error := Some (''No subscriber registered for '' @ de_eventName (or_event r)),
      or_updated_at := oe_now env (ob_world st)\<rparr>"
  have "distinct (map or_id (ob_rows st))" using assms(2) by (simp add: outbox_ok_def)
  then have "ob_rows (dispatchRow env r st) = map (\<lambda>x. if or_id x = or_id r then ?f r else x) (ob_rows st)"
    using update_row_lands(1) [OF assms(1) _ assms(3)] assms(4) by (simp add: dispatchRow_def markFailed_def)
  then show ?thesis using assms(3) by (intro exI [of _ "?f r"]) (auto simp: List.member_iff due_def queued_def image_iff)
qed

text \<open>When the dead letter cannot be written the event is deleted all the same.\<close>

theorem unwritten_dead_letter_loses_event:
  assumes "oe_write env (ob_world st) = (Some msg, w1)" and "oe_write env w1 = (None, w2)"
  shows "ob_dead (moveToDeadLetter env r err st) = ob_dead st \<and> \<not> list_ex (\<lambda>x. or_id x = or_id r) (ob_rows (moveToDeadLetter env r err st))"
  using assms by (auto simp: moveToDeadLetter_def delete_row_def insert_dead_def outbox_write_def list_ex_iff)

section \<open>Witnesses\<close>

text \<open>A world that is the clock and what was delivered; the first delivery fails.\<close>

definition demo_outbox_env :: "(millis \<times> domain_event list) outbox_env" where
  "demo_outbox_env = \<lparr>oe_now = fst, oe_select = (\<lambda>w. (None, w)), oe_write = (\<lambda>w. (None, w)), oe_duplicate_key = ''duplicate key''\<rparr>"

definition demo_event :: domain_event where
  "demo_event = \<lparr>de_eventName = ''renewal.failed'', de_eventId = ''e1'', de_userId = ''u1'', de_correlationId = None, de_payload = ''{}''\<rparr>"

definition demo_subscriber :: "(millis \<times> domain_event list) subscriber" where
  "demo_subscriber = (\<lambda>e (t, ds). (if ds = [] then Some ''down'' else None, (t, e # ds)))"

definition demo_outbox :: "(millis \<times> domain_event list) outbox" where
  "demo_outbox = snd (publish demo_outbox_env ''r1'' demo_event
     \<lparr>ob_rows = [], ob_dead = [], ob_subscribers = [(''renewal.failed'', demo_subscriber)], ob_running = True, ob_world = (0, [])\<rparr>)"

lemma demo_outbox_laws: "writes_land demo_outbox_env" "outbox_clock_ok demo_outbox_env" "publisher_ok demo_outbox_env demo_outbox"
  by (auto simp: writes_land_def outbox_clock_ok_def publisher_ok_def demo_outbox_env_def demo_outbox_def publish_def outbox_write_def outbox_ok_def
      event_ids_def subscribers_ok_def demo_subscriber_def retry_soon_def js_get_def demo_event_def split: if_splits)

text \<open>Two batches that both selected before either handled its rows deliver an event twice.\<close>

theorem overlapping_batches_deliver_twice:
  "let rows = fetch_batch 0 demo_outbox
   in snd (ob_world (dispatch_rows demo_outbox_env rows (dispatch_rows demo_outbox_env rows demo_outbox))) = [demo_event, demo_event]"
  by code_simp

definition demo_worlds :: "(millis \<times> domain_event list) list" where
  "demo_worlds = map (\<lambda>k. (300000 * k, [demo_event])) [1, 2, 3, 4, 5]"


end
