(* ===== verification/Idempotency.thy ===== *)
theory Idempotency
  imports Json
begin

text \<open>
  Idempotency keys (\<open>backend/src/services/idempotency.ts\<close>, \<open>middleware/idempotency.ts\<close>): a mutating
  request names a key; its answer is stored under the key, the user and the route for a day and
  replayed to a request that repeats it.  The handler of the route, the clock and the outcome of the
  database's statements are a world \<open>'w\<close>; SHA-256 and the text of a number are arguments.
\<close>

record idem_record =
  ir_key :: string
  ir_user_id :: string
  ir_route :: string
  ir_request_hash :: string
  ir_response_status :: int
  ir_response_body :: json
  ir_expires_at :: millis

record 'w idem_env =
  ik_now :: "'w \<Rightarrow> millis"
  ik_select :: "'w \<Rightarrow> string option \<times> 'w"
  ik_insert :: "'w \<Rightarrow> string option \<times> 'w"
  ik_delete :: "'w \<Rightarrow> string option \<times> 'w"
  ik_sha256 :: "string \<Rightarrow> string"
  ik_number :: "amount \<Rightarrow> string"

record 'w idem_store =
  is_rows :: "idem_record list"
  is_world :: 'w

definition UNSCOPED_ROUTE :: string where
  "UNSCOPED_ROUTE = ''*''"

text \<open>Hours are added on a clock without daylight saving (\<open>setHours\<close> works in the server's time zone).\<close>

definition idem_ttl :: millis where
  "idem_ttl = 24 * 3600000"

section \<open>The service\<close>

definition hashRequest :: "'w idem_env \<Rightarrow> json \<Rightarrow> string" where
  "hashRequest env payload = ik_sha256 env (json_stringify (ik_number env) payload)"

definition generateKey :: "'w idem_env \<Rightarrow> string \<Rightarrow> string \<Rightarrow> json \<Rightarrow> string" where
  "generateKey env userId operation payload = userId @ '':'' @ operation @ '':'' @ take 16 (hashRequest env payload)"

text \<open>More than one row is an error for \<open>maybeSingle\<close>, and an error is treated like no row.\<close>

definition checkKey :: "'w idem_env \<Rightarrow> string \<Rightarrow> string \<Rightarrow> string \<Rightarrow> 'w idem_store \<Rightarrow> idem_record option \<times> 'w idem_store" where
  "checkKey env key userId route st =
     (let now = ik_now env (is_world st); (err, w) = ik_select env (is_world st);
          found = filter (\<lambda>r. ir_key r = key \<and> ir_user_id r = userId \<and> ir_route r = route \<and> now < ir_expires_at r) (is_rows st)
      in (if err \<noteq> None then None else case found of [r] \<Rightarrow> Some r | _ \<Rightarrow> None, st\<lparr>is_world := w\<rparr>))"

text \<open>Status, body and key of the stored answer, if there is exactly one row.\<close>

definition checkIdempotency :: "'w idem_env \<Rightarrow> string \<Rightarrow> string \<Rightarrow> string \<Rightarrow> 'w idem_store \<Rightarrow> (int \<times> json \<times> string) option \<times> 'w idem_store" where
  "checkIdempotency env key userId requestHash st =
     (let now = ik_now env (is_world st); (err, w) = ik_select env (is_world st);
          found = filter (\<lambda>r. ir_key r = key \<and> ir_user_id r = userId \<and> ir_request_hash r = requestHash \<and> now < ir_expires_at r) (is_rows st)
      in (if err \<noteq> None then None
          else case found of [r] \<Rightarrow> Some (ir_response_status r, ir_response_body r, key) | _ \<Rightarrow> None, st\<lparr>is_world := w\<rparr>))"

text \<open>The unique index on key, user and route refuses a second row, whether or not the first has expired.\<close>

definition same_slot :: "idem_record \<Rightarrow> idem_record \<Rightarrow> bool" where
  "same_slot r x \<longleftrightarrow> ir_key x = ir_key r \<and> ir_user_id x = ir_user_id r \<and> ir_route x = ir_route r"

definition storeResponse :: "'w idem_env \<Rightarrow> string \<Rightarrow> string \<Rightarrow> string \<Rightarrow> int \<Rightarrow> json \<Rightarrow> string \<Rightarrow> 'w idem_store \<Rightarrow> 'w idem_store" where
  "storeResponse env key userId requestHash status body route st =
     (let r = \<lparr>ir_key = key, ir_user_id = userId, ir_route = route, ir_request_hash = requestHash, ir_response_status = status,
            ir_response_body = body, ir_expires_at = ik_now env (is_world st) + idem_ttl\<rparr>;
          (err, w) = ik_insert env (is_world st)
      in st\<lparr>is_rows := (if err = None \<and> \<not> list_ex (same_slot r) (is_rows st) then is_rows st @ [r] else is_rows st), is_world := w\<rparr>)"

definition cleanupExpiredKeys :: "'w idem_env \<Rightarrow> 'w idem_store \<Rightarrow> nat \<times> 'w idem_store" where
  "cleanupExpiredKeys env st =
     (let now = ik_now env (is_world st); (err, w) = ik_delete env (is_world st); st1 = st\<lparr>is_world := w\<rparr>
      in if err \<noteq> None then (0, st1)
         else (length (filter (\<lambda>r. ir_expires_at r < now) (is_rows st)), st1\<lparr>is_rows := filter (\<lambda>r. \<not> ir_expires_at r < now) (is_rows st)\<rparr>))"

section \<open>The middleware\<close>

record idem_request =
  rq_key :: "string option"
  rq_user :: "string option"
  rq_method :: string
  rq_baseUrl :: "string option"
  rq_routePath :: "string option"
  rq_path :: string
  rq_params :: "json option"
  rq_query :: "json option"
  rq_body :: "json option"

record idem_response =
  rs_status :: int
  rs_body :: json
  rs_json :: bool

text \<open>An answer that is not sent by \<open>res.json\<close> is not seen by the middleware.\<close>

type_synonym 'w route_handler = "idem_request \<Rightarrow> 'w \<Rightarrow> idem_response \<times> 'w"

datatype idem_answer =
    Key_required
  | User_required
  | Key_conflict string
  | Replayed int json
  | Handled idem_response

definition routeIdentity :: "idem_request \<Rightarrow> string" where
  "routeIdentity req = rq_method req @ '' '' @ nullish (rq_baseUrl req) [] @ nullish (rq_routePath req) (rq_path req)"

definition request_payload :: "idem_request \<Rightarrow> json" where
  "request_payload req =
     JObj [(''params'', nullish (rq_params req) (JObj [])), (''query'', nullish (rq_query req) (JObj [])), (''body'', nullish (rq_body req) JNull)]"

text \<open>What the middleware decides before the handler runs: an answer, or where to store the handler's.\<close>

datatype idem_decision = Answer idem_answer | Pass_on | Pass_and_store string string string string

definition idem_check :: "'w idem_env \<Rightarrow> bool \<Rightarrow> idem_request \<Rightarrow> 'w idem_store \<Rightarrow> idem_decision \<times> 'w idem_store" where
  "idem_check env required req st =
     (if \<not> truthy (rq_key req) then (if required then Answer Key_required else Pass_on, st)
      else if \<not> truthy (rq_user req) then (Answer User_required, st)
      else (let key = the (rq_key req); userId = the (rq_user req); route = routeIdentity req; h = hashRequest env (request_payload req)
        in (case checkKey env key userId route st of
              (Some r, st1) \<Rightarrow>
                (Answer (if ir_request_hash r \<noteq> h then Key_conflict key else Replayed (ir_response_status r) (ir_response_body r)), st1)
            | (None, st1) \<Rightarrow> (Pass_and_store key userId h route, st1))))"

text \<open>The handler, and the storing of what it sends.\<close>

definition idem_handle :: "'w idem_env \<Rightarrow> 'w route_handler \<Rightarrow> idem_request \<Rightarrow> idem_decision \<Rightarrow> 'w idem_store \<Rightarrow> idem_answer \<times> 'w idem_store" where
  "idem_handle env handler req d st =
     (case d of
        Answer a \<Rightarrow> (a, st)
      | Pass_on \<Rightarrow> (case handler req (is_world st) of (resp, w) \<Rightarrow> (Handled resp, st\<lparr>is_world := w\<rparr>))
      | Pass_and_store key userId h route \<Rightarrow>
          (case handler req (is_world st) of (resp, w) \<Rightarrow>
            (Handled resp,
             (if rs_json resp \<and> rs_status resp < 500
              then storeResponse env key userId h (rs_status resp) (rs_body resp) route (st\<lparr>is_world := w\<rparr>)
              else st\<lparr>is_world := w\<rparr>))))"

definition idempotent :: "'w idem_env \<Rightarrow> bool \<Rightarrow> 'w route_handler \<Rightarrow> idem_request \<Rightarrow> 'w idem_store \<Rightarrow> idem_answer \<times> 'w idem_store" where
  "idempotent env required handler req st =
     (case idem_check env required req st of (d, st1) \<Rightarrow> idem_handle env handler req d st1)"

section \<open>Similar subscriptions\<close>

record sub_row =
  sb_id :: string
  sb_name :: string
  sb_price :: amount
  sb_billing_cycle :: string
  sb_status :: string

definition plan_words :: "string list" where
  "plan_words = [''plus'', ''pro'', ''premium'', ''basic'', ''standard'', ''enterprise'', ''team'', ''business'']"

text \<open>A plan's name at the end goes, with the blanks before it; then everything but letters and digits.\<close>

definition drop_plan :: "string \<Rightarrow> string" where
  "drop_plan s =
     (let r = rev s; w = rev (takeWhile (\<lambda>c. \<not> is_space c) r); rest = dropWhile (\<lambda>c. \<not> is_space c) r
      in if List.member plan_words w \<and> rest \<noteq> [] then rev (dropWhile is_space rest) else s)"

definition alnum :: "char \<Rightarrow> bool" where
  "alnum c \<longleftrightarrow> 97 \<le> code c \<and> code c \<le> 122 \<or> 48 \<le> code c \<and> code c \<le> 57"

definition normalize :: "string \<Rightarrow> string" where
  "normalize s = filter alnum (drop_plan (toLowerCase s))"

text \<open>One row of the table: \<open>prev\<close> is the row above from the column on the left, \<open>left\<close> the entry on the left.\<close>

fun lev_fill :: "char \<Rightarrow> nat list \<Rightarrow> nat \<Rightarrow> string \<Rightarrow> nat list" where
  "lev_fill c (d # u # prev) left (x # xs) =
     (let v = (if c = x then d else min (min d left) u + 1) in v # lev_fill c (u # prev) v xs)"
| "lev_fill c prev left xs = []"

definition lev_row :: "string \<Rightarrow> char \<Rightarrow> nat list \<Rightarrow> nat list" where
  "lev_row a c prev = (hd prev + 1) # lev_fill c prev (hd prev + 1) a"

definition levenshtein :: "string \<Rightarrow> string \<Rightarrow> nat" where
  "levenshtein a b = last (fold (lev_row a) b [0..<length a + 1])"

definition fuzzyMatch :: "string \<Rightarrow> string \<Rightarrow> bool" where
  "fuzzyMatch s1 s2 =
     (let n1 = normalize s1; n2 = normalize s2
      in n1 = n2 \<or> (of_nat (levenshtein n1 n2) :: rat) / of_nat (max (length n1) (length n2)) < 2 / 10)"

text \<open>The rows of the user that are not deleted are the argument; none when the query fails.\<close>

definition findPotentialDuplicates :: "string \<Rightarrow> amount \<Rightarrow> string \<Rightarrow> sub_row list option \<Rightarrow> sub_row list \<times> string option" where
  "findPotentialDuplicates name price cycle existing =
     (case existing of
        None \<Rightarrow> ([], None)
      | Some subs \<Rightarrow>
          (let dups = filter (\<lambda>s. fuzzyMatch name (sb_name s) \<and> \<bar>sb_price s - price\<bar> < 1 / 100 \<and> sb_billing_cycle s = cycle)
             (filter (\<lambda>s. sb_status s \<noteq> ''deleted'') subs)
           in (dups, if dups \<noteq> [] then Some ''We found a similar subscription already registered.'' else None)))"

end
