(* ===== verification/IdempotencyProps.thy ===== *)
theory IdempotencyProps
  imports Idempotency
begin

text \<open>
  What idempotency keys promise: after the first answer every request with its key is replayed or
  refused, without the handler, for a day; and the distance of \<open>findPotentialDuplicates\<close> is the
  least number of edits.
\<close>

section \<open>Replay\<close>

definition idem_db_ok :: "'w idem_env \<Rightarrow> bool" where
  "idem_db_ok env \<longleftrightarrow> (\<forall>w. fst (ik_select env w) = None \<and> fst (ik_insert env w) = None)"

definition idem_clock_ok :: "'w idem_env \<Rightarrow> 'w route_handler \<Rightarrow> bool" where
  "idem_clock_ok env handler \<longleftrightarrow>
     (\<forall>w. ik_now env w \<le> ik_now env (snd (ik_select env w)) \<and> ik_now env w \<le> ik_now env (snd (ik_insert env w)) \<and>
          ik_now env w \<le> ik_now env (snd (ik_delete env w)) \<and> (\<forall>req. ik_now env w \<le> ik_now env (snd (handler req w))))"

text \<open>The unique index.\<close>

definition slots_unique :: "'w idem_store \<Rightarrow> bool" where
  "slots_unique st \<longleftrightarrow> distinct (map (\<lambda>r. (ir_key r, ir_user_id r, ir_route r)) (is_rows st))"

definition slot_of :: "idem_request \<Rightarrow> string \<times> string \<times> string" where
  "slot_of req = (the (rq_key req), the (rq_user req), routeIdentity req)"

definition row_slot :: "idem_record \<Rightarrow> string \<times> string \<times> string" where
  "row_slot r = (ir_key r, ir_user_id r, ir_route r)"

definition keyed :: "idem_request \<Rightarrow> bool" where
  "keyed req \<longleftrightarrow> truthy (rq_key req) \<and> truthy (rq_user req)"

text \<open>What happens between two requests: other requests, and the cleaning of the table.\<close>

datatype idem_event = Idem_request bool idem_request | Idem_cleanup

fun idem_event_step :: "'w idem_env \<Rightarrow> 'w route_handler \<Rightarrow> idem_event \<Rightarrow> 'w idem_store \<Rightarrow> 'w idem_store" where
  "idem_event_step env h (Idem_request required req) st = snd (idempotent env required h req st)"
| "idem_event_step env h Idem_cleanup st = snd (cleanupExpiredKeys env st)"

definition idem_run :: "'w idem_env \<Rightarrow> 'w route_handler \<Rightarrow> idem_event list \<Rightarrow> 'w idem_store \<Rightarrow> 'w idem_store" where
  "idem_run env h es st = fold (idem_event_step env h) es st"

lemma slots_unique_iff: "slots_unique st \<longleftrightarrow> distinct (map row_slot (is_rows st))"
  by (simp add: slots_unique_def row_slot_def [abs_def])

lemma same_slot_iff: "same_slot r x \<longleftrightarrow> row_slot x = row_slot r"
  by (simp add: same_slot_def row_slot_def)

lemma check_key_same: "is_rows (snd (checkKey env k u rt st)) = is_rows st" "is_world (snd (checkKey env k u rt st)) = snd (ik_select env (is_world st))"
  by (simp_all add: checkKey_def Let_def split: prod.splits)

text \<open>Storing keeps the rows, adds at most one, and the slots stay unique.\<close>

lemma store_cases:
  obtains "is_rows (storeResponse env k u h s b rt st) = is_rows st"
  | r where "is_rows (storeResponse env k u h s b rt st) = is_rows st @ [r]" "row_slot r \<notin> row_slot ` set (is_rows st)"
  by (cases "ik_insert env (is_world st)") (fastforce simp: storeResponse_def Let_def same_slot_iff list_ex_iff split: if_splits)

lemma store_rows:
  shows "slots_unique st \<Longrightarrow> slots_unique (storeResponse env k u h s b rt st)" and "set (is_rows st) \<subseteq> set (is_rows (storeResponse env k u h s b rt st))"
  by (cases rule: store_cases [of env k u h s b rt st]; auto simp: slots_unique_iff)+

lemma store_clock: "idem_clock_ok env hr \<Longrightarrow> ik_now env (is_world st) \<le> ik_now env (is_world (storeResponse env k u h s b rt st))"
  by (simp add: storeResponse_def idem_clock_ok_def Let_def split: prod.splits) (metis snd_conv)

definition idem_grows :: "'w idem_env \<Rightarrow> 'w idem_store \<Rightarrow> 'w idem_store \<Rightarrow> bool" where
  "idem_grows env st st' \<longleftrightarrow> (slots_unique st \<longrightarrow> slots_unique st') \<and> ik_now env (is_world st) \<le> ik_now env (is_world st') \<and>
     (\<forall>r\<in>set (is_rows st). r \<in> set (is_rows st') \<or> ir_expires_at r < ik_now env (is_world st'))"

lemma idem_grows_trans: "idem_grows env a b \<Longrightarrow> idem_grows env b c \<Longrightarrow> idem_grows env a c"
  by (fastforce simp: idem_grows_def)

lemma handle_grows: "idem_clock_ok env h \<Longrightarrow> idem_grows env st (snd (idem_handle env h req d st))"
proof (cases d)
  case (Pass_and_store k u hs rt)
  assume c: "idem_clock_ok env h"
  obtain resp w where w: "h req (is_world st) = (resp, w)" by fastforce
  let ?st = "st\<lparr>is_world := w\<rparr>"
  have "ik_now env (is_world st) \<le> ik_now env w" using c w unfolding idem_clock_ok_def by (metis snd_conv)
  moreover have "slots_unique ?st \<longleftrightarrow> slots_unique st" by (simp add: slots_unique_def)
  ultimately show ?thesis
    using store_rows [of ?st env k u hs "rs_status resp" "rs_body resp" rt] store_clock [OF c, of ?st k u hs "rs_status resp" "rs_body resp" rt]
    by (auto simp: Pass_and_store w idem_handle_def idem_grows_def)
qed (auto simp: idem_handle_def idem_grows_def idem_clock_ok_def slots_unique_def split: prod.splits; metis snd_conv)+

lemma check_grows: "idem_clock_ok env h \<Longrightarrow> idem_grows env st (snd (idem_check env required req st))"
  using check_key_same [of env "the (rq_key req)" "the (rq_user req)" "routeIdentity req" st]
  by (auto simp: idem_check_def idem_grows_def Let_def slots_unique_def idem_clock_ok_def split: prod.splits option.splits)

lemma cleanup_grows: "idem_clock_ok env h \<Longrightarrow> idem_grows env st (snd (cleanupExpiredKeys env st))"
  by (auto simp: cleanupExpiredKeys_def idem_grows_def Let_def slots_unique_iff idem_clock_ok_def distinct_map_filter split: prod.splits)
     (metis snd_conv order_less_le_trans)+

lemma step_grows: "idem_clock_ok env h \<Longrightarrow> idem_grows env st (idem_event_step env h e st)"
proof (cases e)
  case (Idem_request required req)
  assume "idem_clock_ok env h"
  then have "idem_grows env st (snd (idem_handle env h req (fst (idem_check env required req st)) (snd (idem_check env required req st))))"
    using idem_grows_trans check_grows handle_grows by blast
  then show ?thesis by (cases "idem_check env required req st") (simp add: Idem_request idempotent_def)
qed (simp add: cleanup_grows)

lemma run_grows: "idem_clock_ok env h \<Longrightarrow> idem_grows env st (idem_run env h es st)"
proof (induction es arbitrary: st)
  case (Cons e es)
  show ?case using idem_grows_trans [OF step_grows [OF Cons.prems] Cons.IH [OF Cons.prems]] by (simp add: idem_run_def)
qed (simp add: idem_run_def idem_grows_def)

lemma find_slot:
  assumes "slots_unique st" and "r \<in> set (is_rows st)" and "P r"
  shows "filter (\<lambda>x. ir_key x = ir_key r \<and> ir_user_id x = ir_user_id r \<and> ir_route x = ir_route r \<and> P x) (is_rows st) = [r]"
proof -
  have "distinct (map row_slot xs) \<Longrightarrow> r \<in> set xs \<Longrightarrow> filter (\<lambda>x. row_slot x = row_slot r \<and> P x) xs = [r]" for xs
  proof (induction xs)
    case (Cons x xs)
    then show ?case using assms(3) by (cases "x = r") (auto simp: filter_empty_conv image_iff)
  qed simp
  then show ?thesis using assms by (simp add: slots_unique_iff row_slot_def)
qed

text \<open>A stored answer is found until it expires.\<close>

lemma stored_answer:
  assumes "idem_db_ok env" and "slots_unique st" and "r \<in> set (is_rows st)" and "ik_now env (is_world st) < ir_expires_at r"
    and "keyed req" and "slot_of req = row_slot r"
  shows "idempotent env required h req st =
     (if ir_request_hash r \<noteq> hashRequest env (request_payload req) then Key_conflict (the (rq_key req))
      else Replayed (ir_response_status r) (ir_response_body r), st\<lparr>is_world := snd (ik_select env (is_world st))\<rparr>)"
proof -
  have slot: "the (rq_key req) = ir_key r" "the (rq_user req) = ir_user_id r" "routeIdentity req = ir_route r"
    using assms(6) by (simp_all add: slot_of_def row_slot_def)
  have "checkKey env (ir_key r) (ir_user_id r) (ir_route r) st = (Some r, st\<lparr>is_world := snd (ik_select env (is_world st))\<rparr>)"
    using assms(1) find_slot [OF assms(2,3), of "\<lambda>x. ik_now env (is_world st) < ir_expires_at x"] assms(4)
    by (auto simp: checkKey_def idem_db_ok_def Let_def split: prod.splits) (metis fst_conv option.distinct(1))
  then show ?thesis using assms(5) slot by (simp add: idempotent_def idem_check_def idem_handle_def keyed_def Let_def)
qed

text \<open>The first answer is stored when its slot is free.\<close>

lemma first_stored:
  assumes "idem_db_ok env" and "idem_clock_ok env h" and "keyed req" and "slot_of req \<notin> row_slot ` set (is_rows st)"
    and "idempotent env required h req st = (Handled resp, st1)" and "rs_json resp" "rs_status resp < 500"
  shows "\<exists>r. List.member (is_rows st1) r \<and> row_slot r = slot_of req \<and> ir_request_hash r = hashRequest env (request_payload req) \<and>
     ir_response_status r = rs_status resp \<and> ir_response_body r = rs_body resp \<and> ik_now env (is_world st) + idem_ttl \<le> ir_expires_at r"
proof -
  let ?k = "the (rq_key req)" and ?u = "the (rq_user req)" and ?hs = "hashRequest env (request_payload req)" and ?rt = "routeIdentity req"
  let ?st = "st\<lparr>is_world := snd (ik_select env (is_world st))\<rparr>"
  have "filter (\<lambda>x. ir_key x = ?k \<and> ir_user_id x = ?u \<and> ir_route x = ?rt \<and> ik_now env (is_world st) < ir_expires_at x) (is_rows st) = []"
    using assms(4) by (auto simp: filter_empty_conv row_slot_def slot_of_def image_iff)
  then have "checkKey env ?k ?u ?rt st = (None, ?st)" by (simp add: checkKey_def Let_def split: prod.splits)
  then have d: "idem_check env required req st = (Pass_and_store ?k ?u ?hs ?rt, ?st)"
    using assms(3) by (simp add: idem_check_def keyed_def Let_def)
  obtain resp' w where w: "h req (snd (ik_select env (is_world st))) = (resp', w)" by fastforce
  have st1: "resp' = resp" "st1 = storeResponse env ?k ?u ?hs (rs_status resp) (rs_body resp) ?rt (st\<lparr>is_world := w\<rparr>)"
    using assms(5-7) w by (auto simp: idempotent_def d idem_handle_def split: if_splits)
  have "ik_now env (is_world st) \<le> ik_now env w" using assms(2) w unfolding idem_clock_ok_def by (metis order_trans snd_conv)
  moreover have "fst (ik_insert env w) = None" using assms(1) by (simp add: idem_db_ok_def)
  ultimately show ?thesis unfolding st1(2) using assms(4)
    by (cases "ik_insert env w") (auto simp: storeResponse_def Let_def same_slot_iff list_ex_iff row_slot_def slot_of_def List.member_iff image_iff)
qed


text \<open>While an expired row is still in the table the slot takes no new one: every request with the key runs the handler.\<close>

theorem expired_key_not_stored:
  assumes "keyed req" and "slots_unique st" and "List.member (is_rows st) r" and "row_slot r = slot_of req"
    and "ir_expires_at r \<le> ik_now env (is_world st)" and "h req (snd (ik_select env (is_world st))) = (resp, w)"
  shows "\<exists>st1. idempotent env required h req st = (Handled resp, st1) \<and> is_rows st1 = is_rows st"
proof -
  let ?k = "the (rq_key req)" and ?u = "the (rq_user req)" and ?rt = "routeIdentity req"
  have "\<not> (row_slot x = slot_of req \<and> ik_now env (is_world st) < ir_expires_at x)" if "x \<in> set (is_rows st)" for x
    using assms(2-5) that unfolding slots_unique_iff List.member_iff by (metis distinct_map inj_onD linorder_not_less)
  then have "filter (\<lambda>x. ir_key x = ?k \<and> ir_user_id x = ?u \<and> ir_route x = ?rt \<and> ik_now env (is_world st) < ir_expires_at x) (is_rows st) = []"
    by (auto simp: filter_empty_conv row_slot_def slot_of_def)
  then have "fst (checkKey env ?k ?u ?rt st) = None" by (simp add: checkKey_def Let_def split: prod.splits)
  then have d: "idem_check env required req st =
      (Pass_and_store ?k ?u (hashRequest env (request_payload req)) ?rt, st\<lparr>is_world := snd (ik_select env (is_world st))\<rparr>)"
    using assms(1) check_key_same [of env ?k ?u ?rt st]
    by (cases "checkKey env ?k ?u ?rt st") (auto simp: idem_check_def keyed_def Let_def intro: idem_store.equality)
  have "list_ex (same_slot x) (is_rows st)" if "row_slot x = slot_of req" for x
    using assms(3,4) that by (auto simp: list_ex_iff same_slot_iff List.member_iff)
  then show ?thesis using assms(6)
    by (auto simp: idempotent_def d idem_handle_def storeResponse_def row_slot_def slot_of_def Let_def split: prod.splits)
qed

text \<open>Two requests that are both checked before either answers both run the handler.\<close>

theorem overlapping_requests_both_run:
  assumes "idem_check env required req st = (Pass_and_store k u hs rt, st1)" and "is_rows st1 = is_rows st"
    and "ik_now env (is_world st1) = ik_now env (is_world st)" and "fst (ik_select env (is_world st1)) = fst (ik_select env (is_world st))"
  shows "fst (idem_check env required req st1) = Pass_and_store k u hs rt"
  using assms by (auto simp: idem_check_def checkKey_def Let_def split: if_splits prod.splits option.splits list.splits)

section \<open>The distance\<close>

text \<open>The reference: turning one text into the other by keeping, replacing, inserting and deleting characters.\<close>

inductive edits :: "string \<Rightarrow> string \<Rightarrow> nat \<Rightarrow> bool" where
  edits_done: "edits [] [] 0"
| edits_keep: "edits xs ys n \<Longrightarrow> edits (x # xs) (x # ys) n"
| edits_replace: "edits xs ys n \<Longrightarrow> edits (x # xs) (y # ys) (n + 1)"
| edits_insert: "edits xs ys n \<Longrightarrow> edits xs (y # ys) (n + 1)"
| edits_delete: "edits xs ys n \<Longrightarrow> edits (x # xs) ys (n + 1)"

inductive_simps edits_Nil_Nil: "edits [] [] n"

text \<open>The recursion the table computes, from the front.\<close>

fun edit_dist :: "string \<Rightarrow> string \<Rightarrow> nat" where
  "edit_dist [] ys = length ys"
| "edit_dist (x # xs) [] = length xs + 1"
| "edit_dist (x # xs) (y # ys) = (if x = y then edit_dist xs ys else min (min (edit_dist xs ys) (edit_dist xs (y # ys))) (edit_dist (x # xs) ys) + 1)"

lemma dist_Nil [simp]: "edit_dist xs [] = length xs"
  by (cases xs) simp_all

lemma dist_sym: "edit_dist xs ys = edit_dist ys xs"
  by (induction xs ys rule: edit_dist.induct) auto

lemma dist_near: "edit_dist xs (y # ys) \<le> edit_dist xs ys + 1 \<and> edit_dist xs ys \<le> edit_dist (x # xs) ys + 1"
proof (induction "length xs + length ys" arbitrary: xs ys x y rule: less_induct)
  case less
  have "edit_dist xs (y # ys) \<le> edit_dist xs ys + 1"
  proof (cases xs)
    case (Cons z zs)
    have "edit_dist zs ys \<le> edit_dist (z # zs) ys + 1" using less [of zs ys y z] Cons by simp
    then show ?thesis by (auto simp: Cons)
  qed simp
  moreover have "edit_dist xs ys \<le> edit_dist (x # xs) ys + 1"
  proof (cases ys)
    case (Cons z zs)
    have "edit_dist xs (z # zs) \<le> edit_dist xs zs + 1" "edit_dist xs zs \<le> edit_dist (x # xs) zs + 1" using less [of xs zs z x] Cons by auto
    then show ?thesis by (auto simp: Cons min_def)
  qed simp
  ultimately show ?case by blast
qed

lemma edits_dist: "edits xs ys n \<Longrightarrow> edit_dist xs ys \<le> n"
proof (induction rule: edits.induct)
  case (edits_insert xs ys n y)
  then show ?case using dist_near [THEN conjunct1, of xs y ys] by linarith
next
  case (edits_delete xs ys n x)
  then show ?case using dist_near [THEN conjunct1, of ys x xs] dist_sym [of "x # xs" ys] dist_sym [of xs ys] by linarith
qed auto

lemma edits_inserts: "edits [] ys (length ys)"
  by (induction ys) (auto intro: edits_done dest: edits_insert)

lemma dist_edits: "edits xs ys (edit_dist xs ys)"
proof (induction xs ys rule: edit_dist.induct)
  case (2 x xs)
  have "edits xs [] (length xs)" for xs by (induction xs) (auto intro: edits_done dest: edits_delete)
  from this [of "x # xs"] show ?case by simp
next
  case (3 x xs y ys)
  show ?case
  proof (cases "x = y")
    case True
    then show ?thesis using 3 by (simp add: edits_keep)
  next
    case False
    note e = edits_replace [OF "3.IH"(2) [OF False]] edits_delete [OF "3.IH"(3) [OF False]] edits_insert [OF "3.IH"(4) [OF False]]
    show ?thesis using False e by (simp add: min_def)
  qed
qed (simp add: edits_inserts)

lemmas edits_Suc = edits.intros [unfolded Suc_eq_plus1 [symmetric]]

lemma edits_snoc: "edits xs ys n \<Longrightarrow> edits (xs @ [x]) (ys @ [x]) n" "edits xs ys n \<Longrightarrow> edits (xs @ [x]) (ys @ [y]) (n + 1)"
  "edits xs ys n \<Longrightarrow> edits xs (ys @ [y]) (n + 1)" "edits xs ys n \<Longrightarrow> edits (xs @ [x]) ys (n + 1)"
  by (induction rule: edits.induct) (auto intro: edits_Suc)

lemma edits_rev: "edits xs ys n \<Longrightarrow> edits (rev xs) (rev ys) n"
  by (induction rule: edits.induct) (auto intro: edits_done edits_snoc dest: edits_snoc)

lemma dist_rev: "edit_dist (rev xs) (rev ys) = edit_dist xs ys"
  using edits_dist [OF edits_rev [OF dist_edits [of xs ys]]] edits_dist [OF edits_rev [OF dist_edits [of "rev xs" "rev ys"]]] by simp

text \<open>The rows of the table hold the distances of the prefixes.\<close>

definition pdist :: "string \<Rightarrow> string \<Rightarrow> nat" where
  "pdist a b = edit_dist (rev a) (rev b)"

lemma pdist_step: "pdist (a @ [x]) (b @ [y]) = (if x = y then pdist a b else min (min (pdist a b) (pdist a (b @ [y]))) (pdist (a @ [x]) b) + 1)"
  by (simp add: pdist_def)

fun prefixes_from :: "string \<Rightarrow> string \<Rightarrow> string list" where
  "prefixes_from p [] = [p]"
| "prefixes_from p (x # xs) = p # prefixes_from (p @ [x]) xs"

lemma prefixes_shape: "\<exists>ps. prefixes_from p xs = p # ps"
  by (cases xs) simp_all

lemma fill_row:
  "lev_fill c (map (\<lambda>q. pdist q b) (prefixes_from p xs)) (pdist p (b @ [c])) xs = map (\<lambda>q. pdist q (b @ [c])) (tl (prefixes_from p xs))"
proof (induction xs arbitrary: p)
  case (Cons x xs)
  obtain ps where ps: "prefixes_from (p @ [x]) xs = (p @ [x]) # ps" using prefixes_shape by blast
  have v: "(if c = x then pdist p b else min (min (pdist p b) (pdist p (b @ [c]))) (pdist (p @ [x]) b) + 1) = pdist (p @ [x]) (b @ [c])"
    by (auto simp: pdist_step)
  show ?case using Cons.IH [of "p @ [x]"] v by (simp add: ps)
qed simp

lemma table_row: "fold (lev_row a) bs (map (\<lambda>q. pdist q b) (prefixes_from [] a)) = map (\<lambda>q. pdist q (b @ bs)) (prefixes_from [] a)"
proof (induction bs arbitrary: b)
  case (Cons c bs)
  obtain ps where ps: "prefixes_from [] a = [] # ps" using prefixes_shape by blast
  have "lev_row a c (map (\<lambda>q. pdist q b) (prefixes_from [] a)) = map (\<lambda>q. pdist q (b @ [c])) (prefixes_from [] a)"
    using fill_row [of c b "[]" a] by (simp add: lev_row_def ps pdist_def)
  then show ?case using Cons.IH [of "b @ [c]"] by simp
qed simp

lemma first_row: "map (\<lambda>q. pdist q []) (prefixes_from p a) = [length p..<length p + length a + 1]"
proof (induction a arbitrary: p)
  case (Cons x a)
  then show ?case using upt_conv_Cons [of "length p" "length p + length (x # a) + 1"] by (simp add: pdist_def del: upt_Suc)
qed (simp add: pdist_def)

lemma last_prefix: "last (prefixes_from p a) = p @ a" "prefixes_from p a \<noteq> []"
  by (induction a arbitrary: p) auto

lemma levenshtein_dist: "levenshtein a b = edit_dist a b"
proof -
  have "fold (lev_row a) b [0..<length a + 1] = map (\<lambda>q. pdist q b) (prefixes_from [] a)"
    using table_row [of a b "[]"] first_row [of "[]" a] by simp
  then show ?thesis by (simp add: levenshtein_def last_map last_prefix pdist_def dist_rev)
qed

text \<open>
  The distance computed with the table is the least number of replaced, inserted and deleted
  characters that turn one text into the other.
\<close>

theorem levenshtein_minimal: "edits a b (levenshtein a b) \<and> (\<forall>n. edits a b n \<longrightarrow> levenshtein a b \<le> n)"
  unfolding levenshtein_dist using dist_edits edits_dist by blast

theorem levenshtein_minimal_witness: "edits ''kitten'' ''sitting'' 3 \<and> levenshtein ''kitten'' ''sitting'' = 3"
proof -
  have "levenshtein ''kitten'' ''sitting'' = 3" by code_simp
  then show ?thesis using levenshtein_minimal [of "''kitten''" "''sitting''"] by simp
qed

lemma fuzzyMatch_sym: "fuzzyMatch a b \<longleftrightarrow> fuzzyMatch b a"
  by (auto simp: fuzzyMatch_def Let_def levenshtein_dist dist_sym max.commute)

text \<open>Names without a letter of the alphabet or a digit are all alike.\<close>

theorem symbols_match: "\<not> list_ex alnum (toLowerCase a) \<Longrightarrow> \<not> list_ex alnum (toLowerCase b) \<Longrightarrow> fuzzyMatch a b"
proof -
  have "set (drop_plan s) \<subseteq> set s" for s
    by (auto simp: drop_plan_def Let_def dest!: set_dropWhileD)
  then have "normalize s = []" if "\<not> list_ex alnum (toLowerCase s)" for s
    using that by (fastforce simp: normalize_def filter_empty_conv list_ex_iff)
  then show "\<not> list_ex alnum (toLowerCase a) \<Longrightarrow> \<not> list_ex alnum (toLowerCase b) \<Longrightarrow> fuzzyMatch a b" by (simp add: fuzzyMatch_def)
qed

section \<open>Witness\<close>

definition demo_idem_env :: "nat idem_env" where
  "demo_idem_env = \<lparr>ik_now = of_nat, ik_select = (\<lambda>w. (None, w + 1)), ik_insert = (\<lambda>w. (None, w + 1)), ik_delete = (\<lambda>w. (None, w + 1)),
     ik_sha256 = (\<lambda>s. s), ik_number = (\<lambda>_. ''0'')\<rparr>"

definition demo_handler :: "nat route_handler" where
  "demo_handler req w = (\<lparr>rs_status = 201, rs_body = JNum (of_nat w), rs_json = True\<rparr>, w + 1)"

definition demo_idem_request :: idem_request where
  "demo_idem_request = \<lparr>rq_key = Some ''k'', rq_user = Some ''u'', rq_method = ''POST'', rq_baseUrl = Some ''/api/payments'', rq_routePath = Some ''/'',
     rq_path = ''/'', rq_params = None, rq_query = None, rq_body = Some (JObj [(''amount'', JNum 5)])\<rparr>"


end
