(* ===== verification/Calendar.thy ===== *)
theory Calendar
  imports Prelude
begin

text \<open>
  Dates as the code uses them through \<open>Date\<close> in UTC: the proleptic Gregorian calendar of the language,
  \<open>Date.UTC\<close> with its overflowing months and days, and the parts of an instant.  Instants are integers;
  the range of \<open>Date\<close> is not modelled.
\<close>

definition ms_per_day :: int where
  "ms_per_day = 86400000"

definition leap :: "int \<Rightarrow> bool" where
  "leap y \<longleftrightarrow> 4 dvd y \<and> \<not> 100 dvd y \<or> 400 dvd y"

text \<open>The day, counted from 1970, on which a year starts.\<close>

definition day_from_year :: "int \<Rightarrow> int" where
  "day_from_year y = 365 * (y - 1970) + (y - 1969) div 4 - (y - 1901) div 100 + (y - 1601) div 400"

definition month_lengths :: "bool \<Rightarrow> int list" where
  "month_lengths lp = [31, if lp then 29 else 28, 31, 30, 31, 30, 31, 31, 30, 31, 30, 31]"

definition days_before_month :: "bool \<Rightarrow> nat \<Rightarrow> int" where
  "days_before_month lp m = sum_list (take m (month_lengths lp))"

definition make_day :: "int \<Rightarrow> int \<Rightarrow> int \<Rightarrow> int" where
  "make_day y m d = (let yy = y + m div 12 in day_from_year yy + days_before_month (leap yy) (nat (m mod 12)) + d - 1)"

text \<open>\<open>Date.UTC\<close>: years from 0 to 99 are those of the twentieth century.\<close>

definition date_utc :: "int \<Rightarrow> int \<Rightarrow> int \<Rightarrow> int \<Rightarrow> int \<Rightarrow> int \<Rightarrow> int \<Rightarrow> int" where
  "date_utc y m d hh mm ss ms =
     make_day (if 0 \<le> y \<and> y \<le> 99 then 1900 + y else y) m d * ms_per_day + hh * 3600000 + mm * 60000 + ss * 1000 + ms"

text \<open>The year of a day: an estimate, corrected.\<close>

definition year_of_day :: "int \<Rightarrow> int" where
  "year_of_day n =
     (let y = 1970 + (400 * n) div 146097
      in if n < day_from_year y then y - 1 else if day_from_year (y + 1) \<le> n then y + 1 else y)"

definition month_of_day :: "int \<Rightarrow> nat" where
  "month_of_day n =
     (let y = year_of_day n
      in length (filter (\<lambda>m. days_before_month (leap y) m \<le> n - day_from_year y) [1, 2, 3, 4, 5, 6, 7, 8, 9, 10, 11]))"

definition getUTCFullYear :: "millis \<Rightarrow> int" where
  "getUTCFullYear t = year_of_day (t div ms_per_day)"

definition getUTCMonth :: "millis \<Rightarrow> int" where
  "getUTCMonth t = int (month_of_day (t div ms_per_day))"

definition getUTCDate :: "millis \<Rightarrow> int" where
  "getUTCDate t =
     (let n = t div ms_per_day; y = year_of_day n in n - day_from_year y - days_before_month (leap y) (month_of_day n) + 1)"

definition getUTCHours :: "millis \<Rightarrow> int" where
  "getUTCHours t = (t mod ms_per_day) div 3600000"

definition getUTCMinutes :: "millis \<Rightarrow> int" where
  "getUTCMinutes t = (t mod 3600000) div 60000"

definition getUTCSeconds :: "millis \<Rightarrow> int" where
  "getUTCSeconds t = (t mod 60000) div 1000"

definition getUTCMilliseconds :: "millis \<Rightarrow> int" where
  "getUTCMilliseconds t = t mod 1000"

section \<open>Years\<close>

lemma div_succ:
  fixes a k :: int
  assumes "0 < k"
  shows "(a + 1) div k = a div k + (if k dvd a + 1 then 1 else 0)"
proof -
  define q r where "q = a div k" and "r = a mod k"
  have a: "a = k * q + r" and r: "0 \<le> r" "r < k" using assms by (simp_all add: q_def r_def)
  show ?thesis
  proof (cases "r + 1 = k")
    case True
    then have e: "a + 1 = k * (q + 1)" using a by (simp add: algebra_simps)
    then have "(a + 1) div k = q + 1" using assms by simp
    moreover have "k dvd a + 1" unfolding e by simp
    ultimately show ?thesis by (simp add: q_def)
  next
    case False
    then have "r + 1 < k" using r by simp
    have e: "a + 1 = (r + 1) + k * q" using a by simp
    have "(a + 1) div k = q" unfolding e using \<open>r + 1 < k\<close> r(1) assms by simp
    moreover have "\<not> k dvd a + 1"
    proof
      assume "k dvd a + 1"
      then have "k dvd r + 1" unfolding e by (metis dvd_add_left_iff dvd_triv_left)
      then show False using \<open>r + 1 < k\<close> r(1) zdvd_not_zless by fastforce
    qed
    ultimately show ?thesis by (simp add: q_def)
  qed
qed

definition year_length :: "int \<Rightarrow> int" where
  "year_length y = (if leap y then 366 else 365)"

lemma leap_dvd: "(400::int) dvd y \<Longrightarrow> 100 dvd y" "(100::int) dvd y \<Longrightarrow> 4 dvd y"
  by (auto intro: dvd_trans [of 100 400] dvd_trans [of 4 100])

lemma day_from_next_year: "day_from_year (y + 1) = day_from_year y + year_length y"
proof -
  have d: "(4 dvd y - 1968) = (4 dvd y)" "(100 dvd y - 1900) = (100 dvd y)" "(400 dvd y - 1600) = (400 dvd y)"
    by (rule dvd_diff_left_iff; simp)+
  have q: "(y - 1968) div 4 = (y - 1969) div 4 + (if 4 dvd y then 1 else 0)" "(y - 1900) div 100 = (y - 1901) div 100 + (if 100 dvd y then 1 else 0)"
    "(y - 1600) div 400 = (y - 1601) div 400 + (if 400 dvd y then 1 else 0)"
    using div_succ [of 4 "y - 1969"] div_succ [of 100 "y - 1901"] div_succ [of 400 "y - 1601"] d by simp_all
  have "day_from_year (y + 1) = 365 * (y - 1970) + 365 + (y - 1968) div 4 - (y - 1900) div 100 + (y - 1600) div 400"
    by (simp add: day_from_year_def)
  then have "day_from_year (y + 1) =
      day_from_year y + (365 + (if 4 dvd y then 1 else 0) - (if 100 dvd y then 1 else 0) + (if 400 dvd y then 1 else 0))"
    unfolding q by (simp only: day_from_year_def)
  then show ?thesis unfolding year_length_def leap_def using leap_dvd [of y]
    by (cases "400 dvd y"; cases "100 dvd y"; cases "4 dvd y") simp_all
qed

lemma year_length_pos: "365 \<le> year_length y"
  by (simp add: year_length_def)

lemma div_bounds:
  fixes a k :: int
  assumes "0 < k"
  shows "k * (a div k) \<le> a" and "a < k * (a div k) + k"
  using assms mult_div_mod_eq [of k a] pos_mod_bound [of k a] pos_mod_sign [of k a] by linarith+

lemma day_from_year_estimate:
  "146097 * (y - 1970) - 506 \<le> 400 * day_from_year y" "400 * day_from_year y \<le> 146097 * (y - 1970) + 589"
proof -
  define a b c where "a = (y - 1969) div 4" and "b = (y - 1901) div 100" and "c = (y - 1601) div 400"
  have "4 * a \<le> y - 1969" "y - 1969 < 4 * a + 4" using div_bounds [of 4 "y - 1969"] by (simp_all add: a_def)
  moreover have "100 * b \<le> y - 1901" "y - 1901 < 100 * b + 100" using div_bounds [of 100 "y - 1901"] by (simp_all add: b_def)
  moreover have "400 * c \<le> y - 1601" "y - 1601 < 400 * c + 400" using div_bounds [of 400 "y - 1601"] by (simp_all add: c_def)
  moreover have "400 * day_from_year y = 146000 * (y - 1970) + 100 * (4 * a) - 4 * (100 * b) + 400 * c"
    by (simp add: day_from_year_def a_def b_def c_def algebra_simps)
  ultimately show "146097 * (y - 1970) - 506 \<le> 400 * day_from_year y" "400 * day_from_year y \<le> 146097 * (y - 1970) + 589"
    by (simp_all add: algebra_simps)
qed

lemma year_of_day_bounds: "day_from_year (year_of_day n) \<le> n" "n < day_from_year (year_of_day n + 1)"
proof -
  define y where "y = 1970 + (400 * n) div 146097"
  have q: "146097 * (y - 1970) \<le> 400 * n" "400 * n < 146097 * (y - 1970) + 146097"
    using div_bounds [of 146097 "400 * n"] by (simp_all add: y_def)
  have "day_from_year (y - 1) \<le> n" using day_from_year_estimate(2) [of "y - 1"] q(1) by (simp add: algebra_simps)
  moreover have "n < day_from_year (y + 2)" using day_from_year_estimate(1) [of "y + 2"] q(2) by (simp add: algebra_simps)
  ultimately show "day_from_year (year_of_day n) \<le> n" "n < day_from_year (year_of_day n + 1)"
    unfolding year_of_day_def y_def [symmetric] Let_def by (auto simp: algebra_simps)
qed

lemma day_from_year_mono: "y < z \<Longrightarrow> day_from_year y < day_from_year z"
proof -
  have "day_from_year y < day_from_year (y + 1 + int k)" for k
  proof (induction k)
    case 0
    then show ?case using day_from_next_year [of y] year_length_pos [of y] by simp
  next
    case (Suc k)
    then show ?case using day_from_next_year [of "y + 1 + int k"] year_length_pos [of "y + 1 + int k"] by (simp add: algebra_simps)
  qed
  moreover assume "y < z"
  ultimately show ?thesis using zle_iff_zadd [of "y + 1" z] by auto
qed

lemma day_from_year_le: "y \<le> z \<Longrightarrow> day_from_year y \<le> day_from_year z"
  using day_from_year_mono [of y z] by (cases "y = z") auto

lemma year_of_day_unique:
  assumes "day_from_year y \<le> n" and "n < day_from_year (y + 1)"
  shows "year_of_day n = y"
proof (rule ccontr)
  assume "year_of_day n \<noteq> y"
  then consider "y + 1 \<le> year_of_day n" | "year_of_day n + 1 \<le> y" by linarith
  then show False
    using day_from_year_le [of "y + 1" "year_of_day n"] day_from_year_le [of "year_of_day n + 1" y] year_of_day_bounds [of n] assms
    by cases auto
qed

section \<open>Months\<close>

definition month_length :: "int \<Rightarrow> int" where
  "month_length i = month_lengths (leap (i div 12)) ! nat (i mod 12)"

lemma month_table:
  "days_before_month lp 0 = 0" "days_before_month lp 12 = (if lp then 366 else 365)"
  by (simp_all add: days_before_month_def month_lengths_def)

lemma length_month_lengths: "length (month_lengths lp) = 12"
  by (simp add: month_lengths_def)

lemma days_before_Suc: "m < 12 \<Longrightarrow> days_before_month lp (Suc m) = days_before_month lp m + month_lengths lp ! m"
  using take_Suc_conv_app_nth [of m "month_lengths lp"] by (simp add: days_before_month_def length_month_lengths)

lemma month_length_bounds: "m < 12 \<Longrightarrow> 28 \<le> month_lengths lp ! m" "m < 12 \<Longrightarrow> month_lengths lp ! m \<le> 31"
  by (auto simp: month_lengths_def nth_Cons split: nat.splits)

text \<open>Months counted from the year 0.\<close>

definition month_start :: "int \<Rightarrow> int" where
  "month_start i = make_day 0 i 1"

lemma make_day_start: "make_day y m d = month_start (12 * y + m) + d - 1"
  by (simp add: month_start_def make_day_def Let_def add.commute)

lemma month_succ: "(i + 1) mod 12 = (if i mod 12 = 11 then 0 else i mod 12 + (1 :: int))"
    "(i + 1) div 12 = (if i mod 12 = 11 then i div 12 + 1 else i div 12)"
proof -
  have "i mod 12 < 12" "0 \<le> i mod 12" by simp_all
  moreover have "(i + 1) mod 12 = (i mod 12 + 1) mod 12" by (simp add: mod_add_left_eq)
  ultimately show m: "(i + 1) mod 12 = (if i mod 12 = 11 then 0 else i mod 12 + 1)" by (auto simp: mod_pos_pos_trivial)
  have "12 * ((i + 1) div 12) = 12 * (i div 12) + i mod 12 + 1 - (i + 1) mod 12"
    using mult_div_mod_eq [of 12 i] mult_div_mod_eq [of 12 "i + 1"] by linarith
  then show "(i + 1) div 12 = (if i mod 12 = 11 then i div 12 + 1 else i div 12)" unfolding m by (simp split: if_splits)
qed

lemma month_start_parts: "month_start i = day_from_year (i div 12) + days_before_month (leap (i div 12)) (nat (i mod 12))"
  by (simp add: month_start_def make_day_def Let_def)

lemma next_month: "month_start (i + 1) = month_start i + month_length i"
proof (cases "i mod 12 = 11")
  case True
  then have n: "(i + 1) div 12 = i div 12 + 1" "(i + 1) mod 12 = 0" by (simp_all add: month_succ)
  have m: "nat (i mod 12) = 11" using True by simp
  have "days_before_month lp 12 = days_before_month lp 11 + month_lengths lp ! 11" for lp
    using days_before_Suc [of 11 lp] by (simp only: eval_nat_numeral) simp
  then have "year_length y = days_before_month (leap y) 11 + month_lengths (leap y) ! 11" for y
    using month_table(2) [of "leap y"] by (simp add: year_length_def)
  then show ?thesis unfolding month_start_parts month_length_def n m day_from_next_year by (simp add: month_table(1))
next
  case False
  then have "(i + 1) div 12 = i div 12" "(i + 1) mod 12 = i mod 12 + 1" by (simp_all add: month_succ)
  moreover have "i mod 12 < 11" "0 \<le> i mod 12" using False pos_mod_bound [of 12 i] by auto
  ultimately show ?thesis using days_before_Suc [of "nat (i mod 12)" "leap (i div 12)"]
    by (simp add: month_start_parts month_length_def nat_add_distrib)
qed

lemma month_length_range: "28 \<le> month_length i" "month_length i \<le> 31"
proof -
  have "nat (i mod 12) < 12" by (simp add: nat_less_iff)
  then show "28 \<le> month_length i" "month_length i \<le> 31" using month_length_bounds unfolding month_length_def by blast+
qed

lemma month_start_mono: "i < j \<Longrightarrow> month_start i + month_length i \<le> month_start j"
proof -
  have "month_start i + month_length i \<le> month_start (i + 1 + int k)" for k
  proof (induction k)
    case 0
    then show ?case using next_month [of i] by simp
  next
    case (Suc k)
    then show ?case using next_month [of "i + 1 + int k"] month_length_range(1) [of "i + 1 + int k"] by (simp add: algebra_simps)
  qed
  moreover assume "i < j"
  ultimately show ?thesis using zle_iff_zadd [of "i + 1" j] by auto
qed

section \<open>The parts of an instant\<close>

lemma year_months: "month_start (12 * y) = day_from_year y"
  by (simp add: month_start_parts month_table)

lemma month_find:
  assumes "m < 12" and "days_before_month lp m \<le> d" and "d < days_before_month lp (Suc m)"
  shows "length (filter (\<lambda>k. days_before_month lp k \<le> d) [1, 2, 3, 4, 5, 6, 7, 8, 9, 10, 11]) = m"
proof -
  have up: "days_before_month lp j \<le> days_before_month lp k" if "j \<le> k" "k \<le> 12" for j k
    using that
  proof (induction k)
    case (Suc k)
    then show ?case using days_before_Suc [of k lp] month_length_bounds(1) [of k lp] by (cases "j = Suc k") auto
  qed simp
  have "days_before_month lp k \<le> d \<longleftrightarrow> k \<le> m" if "k \<le> 12" for k
    using up [of k m] up [of "Suc m" k] assms that by (cases "k \<le> m") auto
  then show ?thesis using assms(1) by (auto simp: eval_nat_numeral less_Suc_eq)
qed

lemma steps_find:
  fixes f :: "nat \<Rightarrow> int"
  shows "f 0 \<le> d \<Longrightarrow> d < f n \<Longrightarrow> \<exists>m<n. f m \<le> d \<and> d < f (Suc m)"
proof (induction n)
  case (Suc n)
  show ?case
  proof (cases "d < f n")
    case True
    then show ?thesis using Suc.IH Suc.prems(1) less_SucI by blast
  next
    case False
    then show ?thesis using Suc.prems(2) by (intro exI [of _ n]) auto
  qed
qed simp

lemma month_of_day_find:
  "month_of_day n < 12 \<and> days_before_month (leap (year_of_day n)) (month_of_day n) \<le> n - day_from_year (year_of_day n) \<and>
   n - day_from_year (year_of_day n) < days_before_month (leap (year_of_day n)) (Suc (month_of_day n))"
proof -
  define y d where "y = year_of_day n" and "d = n - day_from_year y"
  have "0 \<le> d" "d < days_before_month (leap y) 12"
    using year_of_day_bounds [of n] day_from_next_year [of y] by (simp_all add: d_def y_def year_length_def month_table)
  then obtain m where m: "m < 12" "days_before_month (leap y) m \<le> d" "d < days_before_month (leap y) (Suc m)"
    using steps_find [of "days_before_month (leap y)" d 12] by (auto simp: month_table)
  moreover have "month_of_day n = m" using month_find [OF m] by (simp add: month_of_day_def Let_def y_def d_def)
  ultimately show ?thesis by (simp add: y_def d_def)
qed

text \<open>An instant's month, counted from the year 0, and its day of the month.\<close>

definition month_index :: "millis \<Rightarrow> int" where
  "month_index t = 12 * getUTCFullYear t + getUTCMonth t"

lemma month_range: "0 \<le> getUTCMonth t" "getUTCMonth t < 12"
  using month_of_day_find [of "t div ms_per_day"] by (simp_all add: getUTCMonth_def)

lemma month_index_parts: "month_index t div 12 = getUTCFullYear t" "month_index t mod 12 = getUTCMonth t"
  using month_range [of t] by (simp_all add: month_index_def)

lemma parts_day: "month_start (month_index t) + getUTCDate t - 1 = t div ms_per_day"
  unfolding month_start_parts month_index_parts by (simp add: getUTCFullYear_def getUTCMonth_def getUTCDate_def Let_def)

lemma date_range: "1 \<le> getUTCDate t" "getUTCDate t \<le> month_length (month_index t)"
  using month_of_day_find [of "t div ms_per_day"] days_before_Suc [of "month_of_day (t div ms_per_day)" "leap (getUTCFullYear t)"]
  unfolding month_length_def month_index_parts by (simp_all add: getUTCFullYear_def getUTCMonth_def getUTCDate_def Let_def)

text \<open>The parts determine the instant: a day of a month has that month and that day as its parts.\<close>

lemma parts_unique:
  assumes "1 \<le> d" and "d \<le> month_length i" and "t div ms_per_day = month_start i + d - 1"
  shows "month_index t = i" and "getUTCDate t = d"
proof -
  show "month_index t = i"
    using month_start_mono [of i "month_index t"] month_start_mono [of "month_index t" i] parts_day [of t] date_range [of t] assms
    by (cases i "month_index t" rule: linorder_cases) linarith+
  then show "getUTCDate t = d" using parts_day [of t] assms(3) by simp
qed

lemma time_of_day: "getUTCHours t * 3600000 + getUTCMinutes t * 60000 + getUTCSeconds t * 1000 + getUTCMilliseconds t = t mod ms_per_day"
proof -
  have a: "(t mod ms_per_day) mod 3600000 = t mod 3600000" "(t mod 3600000) mod 60000 = t mod 60000" "(t mod 60000) mod 1000 = t mod 1000"
    by (simp_all add: mod_mod_cancel ms_per_day_def)
  show ?thesis unfolding getUTCHours_def getUTCMinutes_def getUTCSeconds_def getUTCMilliseconds_def
    using div_mult_mod_eq [of "t mod ms_per_day" 3600000] div_mult_mod_eq [of "t mod 3600000" 60000] div_mult_mod_eq [of "t mod 60000" 1000] a by simp
qed

lemma date_utc_day:
  "100 \<le> y \<Longrightarrow> date_utc y m d (getUTCHours t) (getUTCMinutes t) (getUTCSeconds t) (getUTCMilliseconds t) =
     (month_start (12 * y + m) + d - 1) * ms_per_day + t mod ms_per_day"
  using time_of_day [of t] by (simp add: date_utc_def make_day_start)

end
