(* ===== verification/SubscriptionMath.thy ===== *)
theory SubscriptionMath
  imports Calendar
begin

text \<open>
  Subscription arithmetic (\<open>shared/src/logic/subscription-math.ts\<close>): prices per month, schedules of
  renewals, proration.  Prices are rational numbers; the local calendar of the server is UTC.
\<close>

section \<open>Prices\<close>

text \<open>A price as the rows have it: a number, a text or nothing.\<close>

datatype price_value = Price_number amount | Price_text string | Price_absent

text \<open>\<open>Number.parseFloat\<close>: the longest prefix that is a decimal; \<open>None\<close> stands for \<open>NaN\<close> and for infinities.\<close>

definition digit_char :: "char \<Rightarrow> bool" where
  "digit_char c \<longleftrightarrow> 48 \<le> code c \<and> code c \<le> 57"

definition digits_value :: "string \<Rightarrow> nat" where
  "digits_value s = foldl (\<lambda>n c. 10 * n + (code c - 48)) 0 s"

definition fraction_digits :: "string \<Rightarrow> string \<times> string" where
  "fraction_digits s = (case s of c # r \<Rightarrow> if code c = 46 then (takeWhile digit_char r, dropWhile digit_char r) else ([], s) | [] \<Rightarrow> ([], []))"

definition exponent_value :: "string \<Rightarrow> int" where
  "exponent_value s =
     (case s of
        e # r \<Rightarrow>
          (if code e = 101 \<or> code e = 69
           then (let (neg, ds) = (case r of c # r' \<Rightarrow> if code c = 45 then (True, r') else if code c = 43 then (False, r') else (False, r) | [] \<Rightarrow> (False, []))
             in (if neg then - 1 else 1) * int (digits_value (takeWhile digit_char ds)))
           else 0)
      | [] \<Rightarrow> 0)"

definition parse_unsigned :: "string \<Rightarrow> amount option" where
  "parse_unsigned s =
     (let ip = takeWhile digit_char s; (fp, rest) = fraction_digits (dropWhile digit_char s); e = exponent_value rest;
          m = rat_of_nat (digits_value (ip @ fp)) / 10 ^ length fp
      in if ip = [] \<and> fp = [] then None else Some (if 0 \<le> e then m * 10 ^ nat e else m / 10 ^ nat (- e)))"

definition parse_float :: "string \<Rightarrow> amount option" where
  "parse_float s =
     (case dropWhile is_space s of
        c # r \<Rightarrow> if code c = 45 then map_option uminus (parse_unsigned r) else if code c = 43 then parse_unsigned r else parse_unsigned (c # r)
      | [] \<Rightarrow> None)"

definition toNumber :: "price_value \<Rightarrow> amount" where
  "toNumber v = (case v of Price_number n \<Rightarrow> n | Price_text s \<Rightarrow> nullish (parse_float s) 0 | Price_absent \<Rightarrow> 0)"

text \<open>\<open>toFixed(2)\<close> rounds halves away from zero.\<close>

definition roundMoney :: "amount \<Rightarrow> amount" where
  "roundMoney v = (if v < 0 then - of_int \<lfloor>- v * 100 + 1 / 2\<rfloor> / 100 else of_int \<lfloor>v * 100 + 1 / 2\<rfloor> / 100)"

definition AVERAGE_MONTHS_PER_WEEK :: amount where
  "AVERAGE_MONTHS_PER_WEEK = 365 / 7 / 12"

definition normalizeToMonthlyAmount :: "price_value \<Rightarrow> string option \<Rightarrow> amount" where
  "normalizeToMonthlyAmount price billingCycle =
     (let n = toNumber price; c = toLowerCase (nullish billingCycle ''monthly'')
      in if c = ''annual'' \<or> c = ''yearly'' then n / 12
         else if c = ''quarterly'' then n / 3
         else if c = ''weekly'' then n * AVERAGE_MONTHS_PER_WEEK
         else if c = ''semiannual'' \<or> c = ''semi-annual'' then n / 6
         else if c = ''lifetime'' then 0
         else n)"

record priced_sub =
  ps_id :: "string option"
  ps_name :: "string option"
  ps_price :: price_value
  ps_billing_cycle :: "string option"
  ps_billingCycle :: "string option"
  ps_category :: "string option"
  ps_created_at :: "string option"
  ps_createdAt :: "string option"
  ps_next_billing_date :: "string option"

definition sub_cycle :: "priced_sub \<Rightarrow> string option" where
  "sub_cycle s = (case ps_billing_cycle s of None \<Rightarrow> ps_billingCycle s | c \<Rightarrow> c)"

definition monthly_price :: "priced_sub \<Rightarrow> amount" where
  "monthly_price s = normalizeToMonthlyAmount (ps_price s) (sub_cycle s)"

definition calculateMonthlySpend :: "priced_sub list \<Rightarrow> amount" where
  "calculateMonthlySpend subs = fold (\<lambda>s total. total + monthly_price s) subs 0"

record category_spend =
  ct_category :: string
  ct_total :: amount
  ct_count :: nat
  ct_percentage :: amount

definition category_of :: "string \<Rightarrow> priced_sub \<Rightarrow> string" where
  "category_of fallback s = str_or (ps_category s) fallback"

definition tally_category :: "string \<Rightarrow> priced_sub \<Rightarrow> (string, amount \<times> nat) jsmap \<Rightarrow> (string, amount \<times> nat) jsmap" where
  "tally_category fallback s m =
     (let (total, n) = nullish (js_get m (category_of fallback s)) (0, 0)
      in js_set (category_of fallback s) (total + monthly_price s, n + 1) m)"

text \<open>\<open>sort\<close> is stable: a descending sort keeps the order of equal totals.\<close>

definition buildCategoryMonthlySpend :: "string \<Rightarrow> priced_sub list \<Rightarrow> category_spend list" where
  "buildCategoryMonthlySpend fallback subs =
     (let total = calculateMonthlySpend subs
      in sort_key (\<lambda>c. - ct_total c)
           (map (\<lambda>(category, t, n). \<lparr>ct_category = category, ct_total = roundMoney t, ct_count = n, ct_percentage = (if 0 < total then t / total * 100 else 0)\<rparr>)
              (fold (tally_category fallback) subs [])))"

record top_sub =
  tp_id :: "string option"
  tp_name :: "string option"
  tp_price :: amount
  tp_billing_cycle :: string
  tp_monthly :: amount

definition getTopMonthlySpendSubscriptions :: "nat \<Rightarrow> priced_sub list \<Rightarrow> top_sub list" where
  "getTopMonthlySpendSubscriptions limit subs =
     take limit (sort_key (\<lambda>t. - tp_monthly t)
       (map (\<lambda>s. let c = nullish (sub_cycle s) ''monthly''
                  in \<lparr>tp_id = ps_id s, tp_name = ps_name s, tp_price = toNumber (ps_price s), tp_billing_cycle = c,
                      tp_monthly = normalizeToMonthlyAmount (ps_price s) (Some c)\<rparr>) subs))"

text \<open>The parser of dates is an argument; a text that is no date compares false.\<close>

definition countUpcomingRenewals :: "(string \<Rightarrow> millis option) \<Rightarrow> priced_sub list \<Rightarrow> int \<Rightarrow> millis \<Rightarrow> nat" where
  "countUpcomingRenewals parse subs daysAhead now =
     length (filter (\<lambda>s. truthy (ps_next_billing_date s) \<and>
       (case parse (the (ps_next_billing_date s)) of None \<Rightarrow> False | Some t \<Rightarrow> t \<le> now + daysAhead * ms_per_day \<and> now \<le> t)) subs)"

record spend_point =
  sd_month :: string
  sd_total :: amount
  sd_count :: nat

definition pad2 :: "string \<Rightarrow> string" where
  "pad2 s = replicate (2 - length s) (CHR ''0'') @ s"

definition formatMonthKey :: "millis \<Rightarrow> string" where
  "formatMonthKey t = show_int (getUTCFullYear t) @ ''-'' @ pad2 (show_int (getUTCMonth t + 1))"

definition trend_point :: "(string \<Rightarrow> millis option) \<Rightarrow> priced_sub list \<Rightarrow> millis \<Rightarrow> int \<Rightarrow> spend_point" where
  "trend_point parse subs now index =
     (let target = date_utc (getUTCFullYear now) (getUTCMonth now - index) 1 0 0 0 0;
          monthEnd = date_utc (getUTCFullYear target) (getUTCMonth target + 1) 0 0 0 0 0;
          there = filter (\<lambda>s. let createdAt = (case ps_created_at s of None \<Rightarrow> ps_createdAt s | c \<Rightarrow> c)
            in \<not> truthy createdAt \<or> (case parse (the createdAt) of None \<Rightarrow> False | Some t \<Rightarrow> t \<le> monthEnd)) subs
      in \<lparr>sd_month = formatMonthKey target, sd_total = roundMoney (calculateMonthlySpend there), sd_count = length there\<rparr>)"

definition buildPastMonthlySpendTrend :: "(string \<Rightarrow> millis option) \<Rightarrow> priced_sub list \<Rightarrow> nat \<Rightarrow> millis \<Rightarrow> spend_point list" where
  "buildPastMonthlySpendTrend parse subs months now = map (\<lambda>i. trend_point parse subs now (int i)) (rev [0..<months])"

section \<open>Schedules\<close>

datatype billing_unit = Unit_day | Unit_week | Unit_month | Unit_year

record billing_interval =
  bi_unit :: billing_unit
  bi_count :: int

datatype math_error = Count_not_positive | Steps_negative | Non_increasing | No_next_renewal | Days_not_positive | Amount_negative | Days_before_negative

record utc_parts =
  up_y :: int
  up_m :: int
  up_d :: int
  up_hh :: int
  up_mm :: int
  up_ss :: int
  up_ms :: int

definition utcParts :: "millis \<Rightarrow> utc_parts" where
  "utcParts t = \<lparr>up_y = getUTCFullYear t, up_m = getUTCMonth t, up_d = getUTCDate t, up_hh = getUTCHours t,
     up_mm = getUTCMinutes t, up_ss = getUTCSeconds t, up_ms = getUTCMilliseconds t\<rparr>"

definition daysInUtcMonth :: "int \<Rightarrow> int \<Rightarrow> int" where
  "daysInUtcMonth year monthIndex = getUTCDate (date_utc year (monthIndex + 1) 0 0 0 0 0)"

definition addInterval :: "millis \<Rightarrow> billing_interval \<Rightarrow> int \<Rightarrow> math_error + millis" where
  "addInterval anchor iv steps =
     (if bi_count iv < 1 then Inl Count_not_positive
      else if steps < 0 then Inl Steps_negative
      else (let total = bi_count iv * steps; p = utcParts anchor; instant = (\<lambda>y m d. date_utc y m d (up_hh p) (up_mm p) (up_ss p) (up_ms p))
        in case bi_unit iv of
             Unit_day \<Rightarrow> Inr (instant (up_y p) (up_m p) (up_d p + total))
           | Unit_week \<Rightarrow> Inr (instant (up_y p) (up_m p) (up_d p + total * 7))
           | Unit_year \<Rightarrow> (let year = up_y p + total in Inr (instant year (up_m p) (min (up_d p) (daysInUtcMonth year (up_m p)))))
           | Unit_month \<Rightarrow>
               (let monthIndex = up_m p + total; year = up_y p + monthIndex div 12; month = (monthIndex mod 12 + 12) mod 12
                in Inr (instant year month (min (up_d p) (daysInUtcMonth year month))))))"

text \<open>The next step of a schedule; a step that does not go forward is an error.\<close>

definition next_step :: "millis \<Rightarrow> billing_interval \<Rightarrow> nat \<Rightarrow> millis \<Rightarrow> math_error + millis" where
  "next_step anchor iv step cursor =
     (case addInterval anchor iv (int step + 1) of
        Inl e \<Rightarrow> Inl e
      | Inr t \<Rightarrow> if t \<le> cursor then Inl Non_increasing else Inr t)"

definition occurrence_limit :: nat where
  "occurrence_limit = 10000"

function skip_before :: "millis \<Rightarrow> billing_interval \<Rightarrow> millis \<Rightarrow> nat \<Rightarrow> millis \<Rightarrow> math_error + nat \<times> millis" where
  "skip_before anchor iv start step cursor =
     (if cursor < start \<and> step < occurrence_limit
      then (case next_step anchor iv step cursor of Inl e \<Rightarrow> Inl e | Inr t \<Rightarrow> skip_before anchor iv start (step + 1) t)
      else Inr (step, cursor))"
  by pat_completeness auto

termination by (relation "measure (\<lambda>(_, _, _, step, _). occurrence_limit - step)") auto

declare skip_before.simps [simp del]

lemma next_step_later: "next_step anchor iv step cursor = Inr t \<Longrightarrow> cursor < t"
  by (auto simp: next_step_def split: sum.splits if_splits)

text \<open>\<open>out\<close> is the list built so far.\<close>

function collect_until :: "millis \<Rightarrow> billing_interval \<Rightarrow> millis \<Rightarrow> millis \<Rightarrow> nat \<Rightarrow> millis \<Rightarrow> millis list \<Rightarrow> math_error + millis list" where
  "collect_until anchor iv start until step cursor out =
     (if cursor \<le> until \<and> length out < occurrence_limit
      then (let out1 = (if start \<le> cursor then out @ [cursor] else out)
        in case next_step anchor iv step cursor of Inl e \<Rightarrow> Inl e | Inr t \<Rightarrow> collect_until anchor iv start until (step + 1) t out1)
      else Inr out)"
  by pat_completeness auto

termination
  by (relation "measure (\<lambda>(_, _, _, until, _, cursor, _). nat (until + 1 - cursor))") (auto dest!: next_step_later)

declare collect_until.simps [simp del]

definition occurrencesInRange :: "millis \<Rightarrow> billing_interval \<Rightarrow> millis \<Rightarrow> millis \<Rightarrow> math_error + millis list" where
  "occurrencesInRange anchor iv start until =
     (if until < start then Inr []
      else (case addInterval anchor iv 0 of
          Inl e \<Rightarrow> Inl e
        | Inr cursor \<Rightarrow>
            (case skip_before anchor iv start 0 cursor of
               Inl e \<Rightarrow> Inl e
             | Inr (step, t) \<Rightarrow> collect_until anchor iv start until step t [])))"

definition nextRenewalDate :: "millis \<Rightarrow> billing_interval \<Rightarrow> millis \<Rightarrow> math_error + millis" where
  "nextRenewalDate anchor iv frm =
     (if frm < anchor then Inr anchor
      else (case occurrencesInRange anchor iv (frm + 1) (frm + 1000 * 60 * 60 * 24 * 366 * 20) of
          Inl e \<Rightarrow> Inl e
        | Inr [] \<Rightarrow> Inl No_next_renewal
        | Inr (t # ts) \<Rightarrow> Inr t))"

definition cycleToDays :: "billing_interval \<Rightarrow> int option" where
  "cycleToDays iv = (case bi_unit iv of Unit_day \<Rightarrow> Some (bi_count iv) | Unit_week \<Rightarrow> Some (bi_count iv * 7) | _ \<Rightarrow> None)"

definition daysToCycle :: "int \<Rightarrow> math_error + billing_interval" where
  "daysToCycle days =
     (if days < 1 then Inl Days_not_positive
      else if days mod 7 = 0 then Inr \<lparr>bi_unit = Unit_week, bi_count = days div 7\<rparr>
      else Inr \<lparr>bi_unit = Unit_day, bi_count = days\<rparr>)"

section \<open>Proration and reminders\<close>

definition prorateAmount :: "amount \<Rightarrow> amount \<Rightarrow> amount \<Rightarrow> math_error + amount" where
  "prorateAmount fullAmount elapsedMs periodMs =
     (if fullAmount < 0 then Inl Amount_negative
      else if periodMs \<le> 0 then Inr 0
      else Inr (roundMoney (fullAmount * min 1 (max 0 elapsedMs / periodMs))))"

definition reminderDateBefore :: "millis \<Rightarrow> int \<Rightarrow> math_error + millis" where
  "reminderDateBefore renewal daysBefore =
     (if daysBefore < 0 then Inl Days_before_negative
      else Inr (date_utc (getUTCFullYear renewal) (getUTCMonth renewal) (getUTCDate renewal - daysBefore) 0 0 0 0))"

text \<open>The cycle of a billing date as a number (\<open>backend/src/utils/cycle-id.ts\<close>).\<close>

definition generateCycleId :: "millis option \<Rightarrow> string + int" where
  "generateCycleId billingDate =
     (case billingDate of
        None \<Rightarrow> Inl ''Invalid date''
      | Some t \<Rightarrow> Inr (getUTCFullYear t * 10000 + (getUTCMonth t + 1) * 100 + getUTCDate t))"

end
