(* ===== verification/SubscriptionMathProps.thy ===== *)
theory SubscriptionMathProps
  imports SubscriptionMath
begin

text \<open>
  The invariants the header of \<open>subscription-math.ts\<close> states: schedules go forward, a range holds exactly
  the occurrences in it, a month's schedule has twelve dates a year, days and cycles are inverse,
  proration does not exceed the amount.
\<close>

section \<open>The steps of a schedule in closed form\<close>

text \<open>Years before 100 are left out, because \<open>Date.UTC\<close> reads 0 to 99 as 1900 to 1999.\<close>

definition schedule_ok :: "millis \<Rightarrow> billing_interval \<Rightarrow> bool" where
  "schedule_ok anchor iv \<longleftrightarrow> 100 \<le> getUTCFullYear anchor \<and> 1 \<le> bi_count iv"

text \<open>The day of a month, at most its last day.\<close>

definition clamped :: "int \<Rightarrow> int \<Rightarrow> int" where
  "clamped i d = month_start i + min d (month_length i) - 1"

definition occ :: "millis \<Rightarrow> billing_interval \<Rightarrow> nat \<Rightarrow> millis" where
  "occ anchor iv k =
     (let total = bi_count iv * int k
      in case bi_unit iv of
           Unit_day \<Rightarrow> anchor + total * ms_per_day
         | Unit_week \<Rightarrow> anchor + total * 7 * ms_per_day
         | Unit_month \<Rightarrow> clamped (month_index anchor + total) (getUTCDate anchor) * ms_per_day + anchor mod ms_per_day
         | Unit_year \<Rightarrow> clamped (month_index anchor + 12 * total) (getUTCDate anchor) * ms_per_day + anchor mod ms_per_day)"

lemma day_split: "t div ms_per_day * ms_per_day + t mod ms_per_day = (t :: int)"
  by simp

lemma days_in_month: "100 \<le> y \<Longrightarrow> daysInUtcMonth y m = month_length (12 * y + m)"
  using parts_unique(2) [of "month_length (12 * y + m)" "12 * y + m" "date_utc y (m + 1) 0 0 0 0 0"] month_length_range [of "12 * y + m"]
    next_month [of "12 * y + m"]
  by (simp add: daysInUtcMonth_def date_utc_def make_day_start ms_per_day_def algebra_simps)

lemma addInterval_occ:
  assumes "schedule_ok anchor iv"
  shows "addInterval anchor iv (int k) = Inr (occ anchor iv k)"
proof -
  have y: "100 \<le> getUTCFullYear anchor" and c: "1 \<le> bi_count iv" using assms by (simp_all add: schedule_ok_def)
  have m: "0 \<le> getUTCMonth anchor" "getUTCMonth anchor < 12" by (rule month_range)+
  have total: "0 \<le> bi_count iv * int k" using c by simp
  note utc = date_utc_day [of _ _ _ anchor]
  have day: "(month_start (12 * getUTCFullYear anchor + getUTCMonth anchor) + (getUTCDate anchor + n) - 1) * ms_per_day + anchor mod ms_per_day =
      anchor + n * ms_per_day" for n
    using parts_day [of anchor] day_split [of anchor] by (simp add: month_index_def algebra_simps)
  show ?thesis
  proof (cases "bi_unit iv")
    case Unit_month
    let ?i = "getUTCMonth anchor + bi_count iv * int k"
    have d: "0 \<le> ?i div 12" using m total by (simp add: pos_imp_zdiv_nonneg_iff)
    then have y2: "100 \<le> getUTCFullYear anchor + ?i div 12" using y by linarith
    have e: "12 * (getUTCFullYear anchor + ?i div 12) + (?i mod 12 + 12) mod 12 = month_index anchor + bi_count iv * int k"
      using mult_div_mod_eq [of 12 ?i] by (simp add: month_index_def)
    have "addInterval anchor iv (int k) =
        Inr ((month_start (12 * (getUTCFullYear anchor + ?i div 12) + (?i mod 12 + 12) mod 12) +
          min (getUTCDate anchor) (daysInUtcMonth (getUTCFullYear anchor + ?i div 12) ((?i mod 12 + 12) mod 12)) - 1) * ms_per_day + anchor mod ms_per_day)"
      using c utc [OF y2, of "(?i mod 12 + 12) mod 12"] by (simp only: addInterval_def utcParts_def Unit_month Let_def utc_parts.simps billing_unit.simps) simp
    then show ?thesis unfolding days_in_month [OF y2] e by (simp add: occ_def Unit_month clamped_def Let_def)
  next
    case Unit_year
    have y2: "100 \<le> getUTCFullYear anchor + bi_count iv * int k" using y total by linarith
    have e: "12 * (getUTCFullYear anchor + bi_count iv * int k) + getUTCMonth anchor = month_index anchor + 12 * (bi_count iv * int k)"
      by (simp add: month_index_def)
    have "addInterval anchor iv (int k) =
        Inr ((month_start (12 * (getUTCFullYear anchor + bi_count iv * int k) + getUTCMonth anchor) +
          min (getUTCDate anchor) (daysInUtcMonth (getUTCFullYear anchor + bi_count iv * int k) (getUTCMonth anchor)) - 1) * ms_per_day + anchor mod ms_per_day)"
      using c utc [OF y2, of "getUTCMonth anchor"] by (simp only: addInterval_def utcParts_def Unit_year Let_def utc_parts.simps billing_unit.simps) simp
    then show ?thesis unfolding days_in_month [OF y2] e by (simp add: occ_def Unit_year clamped_def Let_def)
  qed (use c day in \<open>simp_all add: addInterval_def utcParts_def occ_def Let_def utc [OF y]\<close>)
qed

lemma clamped_mono: "i < j \<Longrightarrow> 1 \<le> d \<Longrightarrow> clamped i d < clamped j d"
  using month_start_mono [of i j] month_length_range [of j] by (simp add: clamped_def)

lemma occ_increases: "schedule_ok anchor iv \<Longrightarrow> k < l \<Longrightarrow> occ anchor iv k < occ anchor iv l"
proof -
  assume ok: "schedule_ok anchor iv" and "k < l"
  then have "bi_count iv * int k < bi_count iv * int l" by (simp add: schedule_ok_def)
  moreover have "0 < ms_per_day" by (simp add: ms_per_day_def)
  ultimately show ?thesis using clamped_mono date_range [of anchor]
    by (cases "bi_unit iv") (simp_all add: occ_def ms_per_day_def mult.commute)
qed

lemma occ_0: "occ anchor iv 0 = anchor"
proof -
  have "clamped (month_index anchor) (getUTCDate anchor) = anchor div ms_per_day"
    using parts_day [of anchor] date_range [of anchor] by (simp add: clamped_def)
  then show ?thesis by (cases "bi_unit iv") (simp_all add: occ_def)
qed

lemma occ_le_iff: "schedule_ok anchor iv \<Longrightarrow> occ anchor iv k \<le> occ anchor iv l \<longleftrightarrow> k \<le> l"
  using occ_increases by (metis linorder_not_le order_less_imp_le order.order_iff_strict)

section \<open>The loops\<close>

lemma next_step_occ: "schedule_ok anchor iv \<Longrightarrow> next_step anchor iv k (occ anchor iv k) = Inr (occ anchor iv (k + 1))"
  using addInterval_occ [of anchor iv "k + 1"] occ_increases [of anchor iv k "k + 1"] by (simp add: next_step_def add.commute)

lemma skip_reaches:
  assumes "schedule_ok anchor iv"
  shows "\<exists>n\<ge>k. skip_before anchor iv start k (occ anchor iv k) = Inr (n, occ anchor iv n) \<and> (\<forall>j. k \<le> j \<and> j < n \<longrightarrow> occ anchor iv j < start)"
proof (induction "occurrence_limit - k" arbitrary: k)
  case 0
  then show ?case by (subst skip_before.simps) auto
next
  case (Suc x)
  show ?case
  proof (cases "occ anchor iv k < start \<and> k < occurrence_limit")
    case True
    then have "x = occurrence_limit - (k + 1)" using Suc(2) by simp
    then obtain n where "n \<ge> k + 1" "skip_before anchor iv start (k + 1) (occ anchor iv (k + 1)) = Inr (n, occ anchor iv n)"
      "\<forall>j. k + 1 \<le> j \<and> j < n \<longrightarrow> occ anchor iv j < start"
      using Suc(1) by blast
    moreover from this have "\<forall>j. k \<le> j \<and> j < n \<longrightarrow> occ anchor iv j < start" using True by (metis Suc_eq_plus1 Suc_leI order.order_iff_strict)
    ultimately show ?thesis using True next_step_occ [OF assms, of k]
      by (intro exI [of _ n]) (subst skip_before.simps, auto)
  next
    case False
    then show ?thesis by (subst skip_before.simps) auto
  qed
qed

lemma collect_reaches:
  assumes "schedule_ok anchor iv"
  shows "\<exists>n\<ge>k. \<exists>ts. collect_until anchor iv start until k (occ anchor iv k) out = Inr ts \<and>
     ts = out @ map (occ anchor iv) (filter (\<lambda>j. start \<le> occ anchor iv j) [k..<n]) \<and> (\<forall>j. k \<le> j \<and> j < n \<longrightarrow> occ anchor iv j \<le> until) \<and>
     (until < occ anchor iv n \<or> occurrence_limit \<le> length ts)"
proof (induction "nat (until + 1 - occ anchor iv k)" arbitrary: k out rule: less_induct)
  case less
  let ?o = "occ anchor iv"
  show ?case
  proof (cases "?o k \<le> until \<and> length out < occurrence_limit")
    case True
    let ?out = "if start \<le> ?o k then out @ [?o k] else out"
    have "?o k < ?o (k + 1)" using occ_increases [OF assms] by simp
    then have "nat (until + 1 - ?o (k + 1)) < nat (until + 1 - ?o k)" using True by simp
    from less [OF this, of ?out] obtain n ts where n: "n \<ge> k + 1" "collect_until anchor iv start until (k + 1) (?o (k + 1)) ?out = Inr ts"
      "ts = ?out @ map ?o (filter (\<lambda>j. start \<le> ?o j) [k + 1..<n])" "\<forall>j. k + 1 \<le> j \<and> j < n \<longrightarrow> ?o j \<le> until"
      "until < ?o n \<or> occurrence_limit \<le> length ts"
      by blast
    have "[k..<n] = k # [k + 1..<n]" using n(1) by (simp add: upt_conv_Cons)
    then have "ts = out @ map ?o (filter (\<lambda>j. start \<le> ?o j) [k..<n])" using n(3) by simp
    moreover have "\<forall>j. k \<le> j \<and> j < n \<longrightarrow> ?o j \<le> until" using n(4) True by (metis Suc_eq_plus1 Suc_leI order.order_iff_strict)
    moreover have "collect_until anchor iv start until k (?o k) out = Inr ts"
      using n(2) True next_step_occ [OF assms, of k] by (subst collect_until.simps) (simp add: Let_def)
    ultimately show ?thesis using n(1,5) by (intro exI [of _ n]) auto
  next
    case False
    then show ?thesis by (intro exI [of _ k] exI [of _ out]) (subst collect_until.simps, auto)
  qed
qed

lemma occurrences_shape:
  assumes "schedule_ok anchor iv" and "start \<le> until"
  obtains n where "occurrencesInRange anchor iv start until = Inr (map (occ anchor iv) (filter (\<lambda>j. start \<le> occ anchor iv j) [0..<n]))"
    "\<forall>j<n. occ anchor iv j \<le> until"
    "until < occ anchor iv n \<or> occurrence_limit \<le> length (map (occ anchor iv) (filter (\<lambda>j. start \<le> occ anchor iv j) [0..<n]))"
proof -
  let ?o = "occ anchor iv"
  obtain k where k: "skip_before anchor iv start 0 (?o 0) = Inr (k, ?o k)" "\<forall>j<k. ?o j < start"
    using skip_reaches [OF assms(1), of 0 start] by auto
  obtain n where n: "n \<ge> k" "collect_until anchor iv start until k (?o k) [] = Inr (map ?o (filter (\<lambda>j. start \<le> ?o j) [k..<n]))"
    "\<forall>j. k \<le> j \<and> j < n \<longrightarrow> ?o j \<le> until"
    "until < ?o n \<or> occurrence_limit \<le> length (map ?o (filter (\<lambda>j. start \<le> ?o j) [k..<n]))"
    using collect_reaches [OF assms(1), of k start until "[]"] by auto
  have "[0..<n] = [0..<k] @ [k..<n]" using n(1) by (metis le_add_diff_inverse upt_add_eq_append zero_le)
  moreover have "filter (\<lambda>j. start \<le> ?o j) [0..<k] = []" using k(2) by (auto simp: filter_empty_conv)
  ultimately have f: "filter (\<lambda>j. start \<le> ?o j) [0..<n] = filter (\<lambda>j. start \<le> ?o j) [k..<n]" by simp
  have "\<forall>j<n. ?o j \<le> until" using n(3) k(2) assms(2) by (metis linorder_not_le order_less_imp_le order_trans)
  moreover have "occurrencesInRange anchor iv start until = Inr (map ?o (filter (\<lambda>j. start \<le> ?o j) [0..<n]))"
    using addInterval_occ [OF assms(1), of 0] k(1) n(2) assms(2) unfolding f by (simp add: occurrencesInRange_def)
  ultimately show ?thesis by (intro that [of n]) (use n(4) in \<open>simp_all add: f\<close>)
qed

section \<open>What the loops find\<close>

lemma sorted_occurrences: "schedule_ok anchor iv \<Longrightarrow> sorted_wrt (<) (map (occ anchor iv) (filter P [0..<n]))"
proof -
  assume ok: "schedule_ok anchor iv"
  have "sorted_wrt (<) (filter P [0..<n])" by (simp add: sorted_wrt_filter)
  then show ?thesis unfolding sorted_wrt_map by (rule sorted_wrt_mono_rel [rotated]) (simp add: occ_increases [OF ok])
qed

lemma all_found:
  assumes "schedule_ok anchor iv" and "\<forall>j<n. occ anchor iv j \<le> until" and "until < occ anchor iv n"
  shows "set (map (occ anchor iv) (filter (\<lambda>j. start \<le> occ anchor iv j) [0..<n])) = {occ anchor iv k | k. start \<le> occ anchor iv k \<and> occ anchor iv k \<le> until}"
proof -
  have "k < n \<longleftrightarrow> occ anchor iv k \<le> until" for k using assms occ_le_iff [OF assms(1), of n k] by (metis linorder_not_le order_less_le_trans)
  then show ?thesis by auto
qed

text \<open>
  C28: A schedule goes forward, and the occurrences in a range are, in order and without repetition, the
  instants of the schedule that lie in it; all of them, unless the list has reached its limit of ten thousand.
\<close>

theorem occurrences_exact:
  assumes "schedule_ok anchor iv" and "start \<le> until"
  shows "\<exists>ts. occurrencesInRange anchor iv start until = Inr ts \<and> sorted_wrt (<) ts \<and>
     (\<forall>t. List.member ts t \<longrightarrow> start \<le> t \<and> t \<le> until \<and> (\<exists>k. addInterval anchor iv (int k) = Inr t)) \<and>
     (length ts < occurrence_limit \<longrightarrow>
        (\<forall>k t. addInterval anchor iv (int k) = Inr t \<and> start \<le> t \<and> t \<le> until \<longrightarrow> List.member ts t))"
proof -
  let ?o = "occ anchor iv"
  obtain n where n: "occurrencesInRange anchor iv start until = Inr (map ?o (filter (\<lambda>j. start \<le> ?o j) [0..<n]))" "\<forall>j<n. ?o j \<le> until"
    "until < ?o n \<or> occurrence_limit \<le> length (map ?o (filter (\<lambda>j. start \<le> ?o j) [0..<n]))"
    using occurrences_shape [OF assms] by blast
  let ?ts = "map ?o (filter (\<lambda>j. start \<le> ?o j) [0..<n])"
  have a: "addInterval anchor iv (int k) = Inr t \<longleftrightarrow> t = ?o k" for k t using addInterval_occ [OF assms(1)] by auto
  have "length ?ts < occurrence_limit \<Longrightarrow> set ?ts = {?o k | k. start \<le> ?o k \<and> ?o k \<le> until}"
    using all_found [OF assms(1) n(2), of start] n(3) by linarith
  moreover have "\<forall>t\<in>set ?ts. start \<le> t \<and> t \<le> until \<and> (\<exists>k. t = ?o k)" using n(2) by auto
  ultimately show ?thesis using n(1) sorted_occurrences [OF assms(1)] unfolding a List.member_iff
    by (intro exI [of _ ?ts]) blast
qed

text \<open>
  The next renewal is the first instant of the schedule after the given one; it is an error exactly
  when none lies within twenty years of 366 days.
\<close>

theorem next_renewal_is_next:
  assumes "schedule_ok anchor iv"
  shows "case nextRenewalDate anchor iv frm of
       Inr t \<Rightarrow> frm < t \<and> (\<exists>k. addInterval anchor iv (int k) = Inr t) \<and> (\<forall>k s. addInterval anchor iv (int k) = Inr s \<and> frm < s \<longrightarrow> t \<le> s)
     | Inl e \<Rightarrow> e = No_next_renewal \<and> (\<forall>k s. addInterval anchor iv (int k) = Inr s \<and> frm < s \<longrightarrow> frm + 20 * 366 * ms_per_day < s)"
proof (cases "frm < anchor")
  case True
  have "\<forall>k s. addInterval anchor iv (int k) = Inr s \<longrightarrow> anchor \<le> s"
    using addInterval_occ [OF assms] occ_le_iff [OF assms, of 0] by (simp add: occ_0)
  moreover have "\<exists>k. addInterval anchor iv (int k) = Inr anchor" using addInterval_occ [OF assms, of 0] unfolding occ_0 by blast
  ultimately show ?thesis using True by (auto simp: nextRenewalDate_def)
next
  case False
  let ?o = "occ anchor iv" and ?until = "frm + 20 * 366 * ms_per_day"
  have a: "addInterval anchor iv (int k) = Inr t \<longleftrightarrow> t = ?o k" for k t using addInterval_occ [OF assms] by auto
  have "frm + 1 \<le> ?until" by (simp add: ms_per_day_def)
  from occurrences_shape [OF assms this] obtain n where n: "occurrencesInRange anchor iv (frm + 1) ?until = Inr (map ?o (filter (\<lambda>j. frm + 1 \<le> ?o j) [0..<n]))"
    "\<forall>j<n. ?o j \<le> ?until" "?until < ?o n \<or> occurrence_limit \<le> length (map ?o (filter (\<lambda>j. frm + 1 \<le> ?o j) [0..<n]))" by blast
  let ?ks = "filter (\<lambda>j. frm + 1 \<le> ?o j) [0..<n]"
  have r: "nextRenewalDate anchor iv frm = (case ?ks of [] \<Rightarrow> Inl No_next_renewal | k # _ \<Rightarrow> Inr (?o k))"
    using False n(1) by (simp add: nextRenewalDate_def ms_per_day_def split: list.split)
  show ?thesis
  proof (cases ?ks)
    case Nil
    then have "?until < ?o n" using n(3) by (simp add: occurrence_limit_def)
    from all_found [OF assms n(2) this, of "frm + 1"] have e: "{?o k | k. frm + 1 \<le> ?o k \<and> ?o k \<le> ?until} = {}" unfolding Nil by simp
    have "?until < ?o k" if "frm < ?o k" for k
    proof (rule ccontr)
      assume "\<not> ?until < ?o k"
      then have "?o k \<in> {?o k | k. frm + 1 \<le> ?o k \<and> ?o k \<le> ?until}" using that by auto
      then show False unfolding e by simp
    qed
    then show ?thesis unfolding r Nil by (simp add: a)
  next
    case (Cons k ks)
    have "k \<in> set ?ks" unfolding Cons by simp
    then have k: "frm < ?o k" by simp
    have "?o k \<le> ?o j" if "frm < ?o j" for j
    proof (cases "j < n")
      case True
      then have "j \<in> set ?ks" using that by simp
      moreover have "sorted ?ks" by (simp add: sorted_wrt_filter)
      ultimately have "k \<le> j" unfolding Cons by auto
      then show ?thesis using occ_le_iff [OF assms] by blast
    next
      case False
      then have "k \<le> j" using \<open>k \<in> set ?ks\<close> by auto
      then show ?thesis using occ_le_iff [OF assms] by blast
    qed
    then show ?thesis unfolding r Cons using k by (auto simp: a)
  qed
qed

section \<open>Monthly schedules\<close>

definition year_start :: "int \<Rightarrow> millis" where
  "year_start y = date_utc y 0 1 0 0 0 0"

definition year_end :: "int \<Rightarrow> millis" where
  "year_end y = date_utc y 11 31 23 59 59 999"

definition monthly :: billing_interval where
  "monthly = \<lparr>bi_unit = Unit_month, bi_count = 1\<rparr>"

lemma year_bounds:
  assumes "100 \<le> y"
  shows "year_start y = month_start (12 * y) * ms_per_day" and "year_end y = month_start (12 * y + 12) * ms_per_day - 1"
proof -
  have "month_length (12 * y + 11) = 31" by (simp add: month_length_def month_lengths_def)
  then have "month_start (12 * y + 12) = month_start (12 * y + 11) + 31" using next_month [of "12 * y + 11"] by (simp add: add.assoc)
  then show "year_start y = month_start (12 * y) * ms_per_day" "year_end y = month_start (12 * y + 12) * ms_per_day - 1"
    using assms by (simp_all add: year_start_def year_end_def date_utc_def make_day_start ms_per_day_def)
qed

lemma month_start_le: "i \<le> j \<Longrightarrow> month_start i \<le> month_start j"
  using month_start_mono [of i j] month_length_range(1) [of i] by (cases "i = j") auto

lemma monthly_in_month:
  "month_start (month_index anchor + int k) * ms_per_day \<le> occ anchor monthly k"
  "occ anchor monthly k < month_start (month_index anchor + int k + 1) * ms_per_day"
proof -
  let ?i = "month_index anchor + int k" and ?d = "getUTCDate anchor"
  have c: "month_start ?i \<le> clamped ?i ?d" "clamped ?i ?d + 1 \<le> month_start (?i + 1)"
    using date_range [of anchor] month_length_range(1) [of ?i] next_month [of ?i] by (auto simp: clamped_def)
  have o: "occ anchor monthly k = clamped ?i ?d * ms_per_day + anchor mod ms_per_day" by (simp add: occ_def monthly_def)
  have m: "0 \<le> anchor mod ms_per_day" "anchor mod ms_per_day < ms_per_day" by (simp_all add: ms_per_day_def)
  have "month_start ?i * ms_per_day \<le> clamped ?i ?d * ms_per_day" using c(1) by (simp add: ms_per_day_def)
  then show "month_start ?i * ms_per_day \<le> occ anchor monthly k" unfolding o using m(1) by linarith
  have "(clamped ?i ?d + 1) * ms_per_day \<le> month_start (?i + 1) * ms_per_day" using c(2) by (simp add: ms_per_day_def)
  then show "occ anchor monthly k < month_start (?i + 1) * ms_per_day" unfolding o using m(2) by (simp add: algebra_simps)
qed

lemma monthly_in_year:
  assumes "100 \<le> y"
  shows "year_start y \<le> occ anchor monthly k \<and> occ anchor monthly k \<le> year_end y \<longleftrightarrow> 12 * y \<le> month_index anchor + int k \<and> month_index anchor + int k < 12 * y + 12"
proof -
  let ?i = "month_index anchor + int k"
  have ms: "a * ms_per_day \<le> b * ms_per_day \<longleftrightarrow> a \<le> b" for a b by (simp add: ms_per_day_def)
  have "year_start y \<le> occ anchor monthly k \<longleftrightarrow> 12 * y \<le> ?i"
  proof
    assume "12 * y \<le> ?i"
    then show "year_start y \<le> occ anchor monthly k"
      using monthly_in_month(1) [of anchor k] month_start_le ms unfolding year_bounds(1) [OF assms] by (meson order_trans)
  next
    assume l: "year_start y \<le> occ anchor monthly k"
    show "12 * y \<le> ?i"
    proof (rule ccontr)
      assume "\<not> 12 * y \<le> ?i"
      then have "month_start (?i + 1) * ms_per_day \<le> year_start y" unfolding year_bounds(1) [OF assms] ms by (intro month_start_le) simp
      then show False using monthly_in_month(2) [of anchor k] l by linarith
    qed
  qed
  moreover have "occ anchor monthly k \<le> year_end y \<longleftrightarrow> ?i < 12 * y + 12"
  proof
    assume "?i < 12 * y + 12"
    then have "month_start (?i + 1) * ms_per_day \<le> month_start (12 * y + 12) * ms_per_day" unfolding ms by (intro month_start_le) simp
    then show "occ anchor monthly k \<le> year_end y" using monthly_in_month(2) [of anchor k] unfolding year_bounds(2) [OF assms] by linarith
  next
    assume l: "occ anchor monthly k \<le> year_end y"
    show "?i < 12 * y + 12"
    proof (rule ccontr)
      assume "\<not> ?i < 12 * y + 12"
      then have "month_start (12 * y + 12) * ms_per_day \<le> month_start ?i * ms_per_day" unfolding ms by (intro month_start_le) simp
      then show False using monthly_in_month(1) [of anchor k] l unfolding year_bounds(2) [OF assms] by linarith
    qed
  qed
  ultimately show ?thesis by blast
qed

text \<open>
  A monthly schedule has twelve dates in every calendar year from its start on, whatever the day of
  the month and whether or not the year is a leap year.
\<close>

theorem twelve_a_year:
  assumes "schedule_ok anchor monthly" and "100 \<le> y" and "12 * getUTCFullYear anchor + getUTCMonth anchor \<le> 12 * y"
  shows "\<exists>ts. occurrencesInRange anchor monthly (year_start y) (year_end y) = Inr ts \<and> length ts = 12"
proof -
  let ?o = "occ anchor monthly" and ?k0 = "nat (12 * y - month_index anchor)"
  have i0: "month_index anchor \<le> 12 * y" using assms(3) by (simp add: month_index_def)
  have r: "year_start y \<le> ?o k \<and> ?o k \<le> year_end y \<longleftrightarrow> k \<in> {?k0..<?k0 + 12}" for k
    unfolding monthly_in_year [OF assms(2)] using i0 by auto
  have "year_start y \<le> year_end y" using r [of ?k0] by force
  from occurrences_shape [OF assms(1) this] obtain n where n:
    "occurrencesInRange anchor monthly (year_start y) (year_end y) = Inr (map ?o (filter (\<lambda>j. year_start y \<le> ?o j) [0..<n]))"
    "\<forall>j<n. ?o j \<le> year_end y" "year_end y < ?o n \<or> occurrence_limit \<le> length (map ?o (filter (\<lambda>j. year_start y \<le> ?o j) [0..<n]))" by blast
  let ?ks = "filter (\<lambda>j. year_start y \<le> ?o j) [0..<n]"
  have sub: "set ?ks \<subseteq> {?k0..<?k0 + 12}"
  proof
    fix k assume "k \<in> set ?ks"
    then have "year_start y \<le> ?o k \<and> ?o k \<le> year_end y" using n(2) by simp
    then show "k \<in> {?k0..<?k0 + 12}" unfolding r .
  qed
  have len: "length ?ks = card (set ?ks)" by (rule distinct_card [symmetric]) simp
  also have "\<dots> \<le> 12" using card_mono [OF _ sub] by simp
  finally have "year_end y < ?o n" using n(3) by (simp add: occurrence_limit_def)
  have "{?k0..<?k0 + 12} \<subseteq> set ?ks"
  proof
    fix k assume k: "k \<in> {?k0..<?k0 + 12}"
    then have "?o k < ?o n" using r [of k] \<open>year_end y < ?o n\<close> by linarith
    then have "k < n" using occ_le_iff [OF assms(1), of n k] by linarith
    then show "k \<in> set ?ks" using k r [of k] by simp
  qed
  then have "set ?ks = {?k0..<?k0 + 12}" using sub by blast
  then have "length ?ks = 12" using len by simp
  then show ?thesis using n(1) by simp
qed

section \<open>Cycles, proration and cycle ids\<close>

lemma days_have_cycle: "1 \<le> days \<Longrightarrow> \<exists>iv. daysToCycle days = Inr iv \<and> cycleToDays iv = Some days \<and> 1 \<le> bi_count iv"
  using mult_div_mod_eq [of 7 days] by (auto simp: daysToCycle_def cycleToDays_def)

text \<open>
  Days and cycles are inverse: the days of a cycle, turned into a cycle, have those days again and
  give the same schedule from every anchor.
\<close>

theorem cycle_round_trip:
  assumes "cycleToDays iv = Some days" and "1 \<le> bi_count iv"
  shows "\<exists>iv'. daysToCycle days = Inr iv' \<and> cycleToDays iv' = Some days \<and> (\<forall>anchor steps. addInterval anchor iv' steps = addInterval anchor iv steps)"
proof (cases "days mod 7 = 0")
  case True
  then obtain q where q: "days = 7 * q" by (metis mult_div_mod_eq add.right_neutral)
  then have "1 \<le> q" using assms by (auto simp: cycleToDays_def split: billing_unit.splits)
  then show ?thesis using assms q
    by (cases "bi_unit iv") (auto simp: cycleToDays_def daysToCycle_def addInterval_def Let_def algebra_simps)
next
  case False
  then show ?thesis using assms by (cases "bi_unit iv") (auto simp: cycleToDays_def daysToCycle_def addInterval_def Let_def)
qed

text \<open>Amounts in whole cents.\<close>

definition whole_cents :: "amount \<Rightarrow> bool" where
  "whole_cents v \<longleftrightarrow> v * 100 = of_int \<lfloor>v * 100\<rfloor>"

lemma roundMoney_mono: "0 \<le> a \<Longrightarrow> a \<le> b \<Longrightarrow> roundMoney a \<le> roundMoney b"
proof -
  assume "0 \<le> a" "a \<le> b"
  then have "\<lfloor>a * 100 + 1 / 2\<rfloor> \<le> \<lfloor>b * 100 + 1 / 2\<rfloor>" by (intro floor_mono) simp
  then show ?thesis using \<open>0 \<le> a\<close> \<open>a \<le> b\<close> by (simp add: roundMoney_def divide_right_mono)
qed

lemma roundMoney_whole: "whole_cents v \<Longrightarrow> 0 \<le> v \<Longrightarrow> roundMoney v = v"
proof -
  assume w: "whole_cents v" and "0 \<le> v"
  have "\<lfloor>v * 100 + 1 / 2\<rfloor> = \<lfloor>v * 100\<rfloor>"
    using w unfolding whole_cents_def by (intro floor_unique) linarith+
  then have "roundMoney v = v * 100 / 100" using w \<open>0 \<le> v\<close> unfolding whole_cents_def roundMoney_def by simp
  then show ?thesis by simp
qed

lemma roundMoney_0 [simp]: "roundMoney 0 = 0"
  by (simp add: roundMoney_def floor_eq_iff)

text \<open>
  The prorated part of an amount in whole cents lies between nothing and the amount, is the amount
  from the end of the period on, and does not shrink as time passes.
\<close>

theorem proration_bounded:
  assumes "whole_cents full" and "0 \<le> full" and "elapsed \<le> elapsed'"
  shows "\<exists>part part'. prorateAmount full elapsed period = Inr part \<and> prorateAmount full elapsed' period = Inr part' \<and>
     0 \<le> part \<and> part \<le> part' \<and> part' \<le> full \<and> (0 < period \<and> period \<le> elapsed \<longrightarrow> part = full)"
proof (cases "0 < period")
  case False
  then show ?thesis using assms by (simp add: prorateAmount_def)
next
  case True
  let ?r = "min 1 (max 0 elapsed / period)" and ?r' = "min 1 (max 0 elapsed' / period)"
  have q: "0 \<le> max 0 elapsed / period" "max 0 elapsed / period \<le> max 0 elapsed' / period"
    using True assms(3) by (auto intro!: divide_right_mono)
  have r: "0 \<le> ?r" "?r \<le> ?r'" "?r' \<le> 1" using q by auto
  have m: "0 \<le> full * ?r" "full * ?r \<le> full * ?r'" "full * ?r' \<le> full" using assms(2) r by (simp_all add: mult_left_mono mult_left_le)
  have p: "prorateAmount full e period = Inr (roundMoney (full * min 1 (max 0 e / period)))" for e
    using True assms(2) by (simp add: prorateAmount_def)
  have "0 \<le> roundMoney (full * ?r)" using roundMoney_mono [OF order_refl m(1)] by simp
  moreover have "roundMoney (full * ?r) \<le> roundMoney (full * ?r')" by (rule roundMoney_mono [OF m(1,2)])
  moreover have "roundMoney (full * ?r') \<le> full"
    using roundMoney_mono [OF order_trans [OF m(1,2)] m(3)] unfolding roundMoney_whole [OF assms(1,2)] .
  moreover have "roundMoney (full * ?r) = full" if "period \<le> elapsed"
  proof -
    have "?r = 1" using True that by simp
    then show ?thesis using roundMoney_whole [OF assms(1,2)] by simp
  qed
  ultimately show ?thesis unfolding p by blast
qed

text \<open>For other amounts the part can be more than the whole.\<close>

theorem proration_exceeds_amount: "prorateAmount (6 / 1000) 1 1 = Inr (1 / 100)"
  by (simp add: prorateAmount_def roundMoney_def floor_eq_iff)

lemma base_unique:
  fixes x y r s b :: int
  assumes "b * x + r = b * y + s" and "0 \<le> r" "r < b" "0 \<le> s" "s < b"
  shows "x = y" and "r = s"
proof -
  have "(b * x + r) div b = x" "(b * y + s) div b = y" using assms(2-5) by simp_all
  then show "x = y" using assms(1) by simp
  then show "r = s" using assms(1) by simp
qed

text \<open>
  The cycle id names the day: two billing dates have the same id exactly when they lie on the same
  UTC day.
\<close>

theorem cycle_id_is_day:
  "generateCycleId (Some t) = generateCycleId (Some u) \<longleftrightarrow> t div ms_per_day = u div ms_per_day"
proof
  assume "t div ms_per_day = u div ms_per_day"
  then show "generateCycleId (Some t) = generateCycleId (Some u)"
    by (simp add: generateCycleId_def getUTCFullYear_def getUTCMonth_def getUTCDate_def)
next
  assume e: "generateCycleId (Some t) = generateCycleId (Some u)"
  define y m d where "y = getUTCFullYear t" and "m = getUTCMonth t" and "d = getUTCDate t"
  define y' m' d' where "y' = getUTCFullYear u" and "m' = getUTCMonth u" and "d' = getUTCDate u"
  note defs = y_def m_def d_def y'_def m'_def d'_def
  have b: "0 \<le> m" "m < 12" "0 \<le> m'" "m' < 12" "1 \<le> d" "d \<le> 31" "1 \<le> d'" "d' \<le> 31"
    using month_range [of t] month_range [of u] date_range [of t] date_range [of u] month_length_range(2) [of "month_index t"]
      month_length_range(2) [of "month_index u"] by (simp_all add: defs)
  have "100 * (100 * y + m + 1) + d = 100 * (100 * y' + m' + 1) + d'" using e by (simp add: generateCycleId_def defs)
  from base_unique [OF this] have c: "100 * y + m = 100 * y' + m'" "d = d'" using b by simp_all
  then have "y = y'" "m = m'" using base_unique [OF c(1)] b by simp_all
  with c(2) show "t div ms_per_day = u div ms_per_day"
    using parts_day [of t] parts_day [of u] by (simp add: month_index_def defs)
qed

section \<open>Witnesses\<close>

text \<open>2026-01-31T12:00:00Z, the first of the code's anchors at the end of a month.\<close>

definition month_end_anchor :: millis where
  "month_end_anchor = 1769860800000"

lemma month_end_anchor_parts: "getUTCFullYear month_end_anchor = 2026" "getUTCMonth month_end_anchor = 0" "getUTCDate month_end_anchor = 31"
  by code_simp+

theorem twelve_a_year_witness:
  "\<exists>ts. occurrencesInRange month_end_anchor monthly (year_start 2028) (year_end 2028) = Inr ts \<and> length ts = 12"
  by (rule twelve_a_year) (simp_all add: schedule_ok_def monthly_def month_end_anchor_parts)

theorem occurrences_exact_witness:
  "\<exists>ts. occurrencesInRange month_end_anchor monthly (year_start 2026) (year_end 2026) = Inr ts \<and> sorted_wrt (<) ts"
proof -
  have "schedule_ok month_end_anchor monthly" by (simp add: schedule_ok_def monthly_def month_end_anchor_parts)
  moreover have "year_start 2026 \<le> year_end 2026" by code_simp
  ultimately show ?thesis using occurrences_exact [of month_end_anchor monthly "year_start 2026" "year_end 2026"] by blast
qed

theorem next_renewal_is_next_witness:
  "\<exists>t. nextRenewalDate month_end_anchor monthly month_end_anchor = Inr t \<and> month_end_anchor < t"
proof -
  have "schedule_ok month_end_anchor monthly" by (simp add: schedule_ok_def monthly_def month_end_anchor_parts)
  note nxt = next_renewal_is_next [OF this, of month_end_anchor] and step = addInterval_occ [OF this, of 1] occ_increases [OF this, of 0 1]
  have soon: "occ month_end_anchor monthly 1 \<le> month_end_anchor + 20 * 366 * ms_per_day" by code_simp
  show ?thesis
  proof (cases "nextRenewalDate month_end_anchor monthly month_end_anchor")
    case (Inl e)
    then have all: "\<forall>k s. addInterval month_end_anchor monthly (int k) = Inr s \<and> month_end_anchor < s \<longrightarrow> month_end_anchor + 20 * 366 * ms_per_day < s"
      using nxt by (simp only: sum.case) blast
    then have "month_end_anchor + 20 * 366 * ms_per_day < occ month_end_anchor monthly 1"
      using step all [rule_format, of 1 "occ month_end_anchor monthly 1"] by (simp add: occ_0)
    then show ?thesis using soon by simp
  next
    case (Inr t)
    then show ?thesis using nxt by simp
  qed
qed

theorem cycle_round_trip_witness:
  "\<exists>iv'. daysToCycle 14 = Inr iv' \<and> cycleToDays iv' = Some 14 \<and> addInterval 0 iv' 3 = addInterval 0 \<lparr>bi_unit = Unit_day, bi_count = 14\<rparr> 3"
  using cycle_round_trip [of "\<lparr>bi_unit = Unit_day, bi_count = 14\<rparr>" 14] by (auto simp: cycleToDays_def)

theorem proration_bounded_witness: "\<exists>part. prorateAmount (999 / 100) 10 30 = Inr part \<and> 0 \<le> part \<and> part \<le> 999 / 100"
  using proration_bounded [of "999 / 100" 10 20 30] by (auto simp: whole_cents_def)

end
