(* ===== verification/BillingCycle.thy ===== *)
theory BillingCycle
  imports Calendar
begin

text \<open>
  Advancing a date by a billing cycle (\<open>backend/src/utils/billing-cycle.ts\<close>).  The additions are those of
  \<open>date-fns\<close>, arguments here: \<open>add_calendar_ok\<close> is what its documentation says of them.
\<close>

datatype billing_cycle = Cycle_weekly | Cycle_monthly | Cycle_quarterly | Cycle_yearly | Cycle_annual | Cycle_other string

record date_fns =
  addWeeks :: "millis \<Rightarrow> int \<Rightarrow> millis"
  addMonths :: "millis \<Rightarrow> int \<Rightarrow> millis"
  addQuarters :: "millis \<Rightarrow> int \<Rightarrow> millis"
  addYears :: "millis \<Rightarrow> int \<Rightarrow> millis"

text \<open>\<open>setUTCDate\<close> moves to another day of the month, or beyond it.\<close>

definition setUTCDate :: "millis \<Rightarrow> int \<Rightarrow> millis" where
  "setUTCDate t d = t + (d - getUTCDate t) * ms_per_day"

definition clampDay :: "millis \<Rightarrow> int \<Rightarrow> millis" where
  "clampDay t day = setUTCDate t (min day (getUTCDate (date_utc (getUTCFullYear t) (getUTCMonth t + 1) 0 0 0 0 0)))"

definition advanceBillingCycle :: "date_fns \<Rightarrow> millis \<Rightarrow> billing_cycle \<Rightarrow> millis" where
  "advanceBillingCycle fns t cycle =
     (case cycle of
        Cycle_weekly \<Rightarrow> addWeeks fns t 1
      | Cycle_monthly \<Rightarrow> clampDay (addMonths fns t 1) (getUTCDate t)
      | Cycle_quarterly \<Rightarrow> clampDay (addQuarters fns t 1) (getUTCDate t)
      | Cycle_yearly \<Rightarrow> clampDay (addYears fns t 1) (getUTCDate t)
      | Cycle_annual \<Rightarrow> clampDay (addYears fns t 1) (getUTCDate t)
      | Cycle_other _ \<Rightarrow> t)"

section \<open>Months later\<close>

text \<open>An addition of months: the month moves by \<open>n\<close>, the day of the month stays unless the month is too short.\<close>

definition months_later :: "int \<Rightarrow> millis \<Rightarrow> millis \<Rightarrow> bool" where
  "months_later n t u \<longleftrightarrow> month_index u = month_index t + n \<and> getUTCDate u = min (getUTCDate t) (month_length (month_index t + n)) \<and>
     u mod ms_per_day = t mod ms_per_day"

definition add_calendar_ok :: "date_fns \<Rightarrow> bool" where
  "add_calendar_ok fns \<longleftrightarrow>
     (\<forall>t. addWeeks fns t 1 = t + 7 * ms_per_day \<and> months_later 1 t (addMonths fns t 1) \<and> months_later 3 t (addQuarters fns t 1) \<and>
        months_later 12 t (addYears fns t 1))"

definition cycle_months :: "billing_cycle \<Rightarrow> int option" where
  "cycle_months cycle =
     (case cycle of Cycle_monthly \<Rightarrow> Some 1 | Cycle_quarterly \<Rightarrow> Some 3 | Cycle_yearly \<Rightarrow> Some 12 | Cycle_annual \<Rightarrow> Some 12 | _ \<Rightarrow> None)"

lemma last_day: "100 \<le> y \<Longrightarrow> getUTCDate (date_utc y (m + 1) 0 0 0 0 0) = month_length (12 * y + m)"
  using parts_unique(2) [of "month_length (12 * y + m)" "12 * y + m" "date_utc y (m + 1) 0 0 0 0 0"] month_length_range [of "12 * y + m"]
    next_month [of "12 * y + m"]
  by (simp add: date_utc_def make_day_start ms_per_day_def algebra_simps)

text \<open>Clamping what \<open>date-fns\<close> has clamped already changes nothing.\<close>

lemma clamp_later:
  assumes "months_later n t u" and "100 \<le> getUTCFullYear u"
  shows "clampDay u (getUTCDate t) = u"
proof -
  have "12 * getUTCFullYear u + getUTCMonth u = month_index t + n" using assms(1) by (simp add: months_later_def month_index_def)
  then show ?thesis using assms(1) last_day [OF assms(2), of "getUTCMonth u"] by (simp add: clampDay_def setUTCDate_def months_later_def)
qed

lemma years_grow: "months_later n t u \<Longrightarrow> 0 \<le> n \<Longrightarrow> getUTCFullYear t \<le> getUTCFullYear u"
  using month_index_parts(1) [of t] month_index_parts(1) [of u] zdiv_mono1 [of "month_index t" "month_index u" 12] by (simp add: months_later_def)

lemma advance_months:
  assumes "add_calendar_ok fns" and "100 \<le> getUTCFullYear t" and "cycle_months cycle = Some n"
  shows "months_later n t (advanceBillingCycle fns t cycle)"
proof -
  have l: "months_later 1 t (addMonths fns t 1)" "months_later 3 t (addQuarters fns t 1)" "months_later 12 t (addYears fns t 1)"
    using assms(1) by (simp_all add: add_calendar_ok_def)
  have c: "clampDay u (getUTCDate t) = u" if "months_later k t u" "0 \<le> k" for k u
    using clamp_later [OF that(1)] years_grow [OF that] assms(2) by simp
  show ?thesis using l c assms(3) by (cases cycle) (auto simp: advanceBillingCycle_def cycle_months_def)
qed

text \<open>
  A date advanced by a cycle of months lands that many months later on the same day of the month, or
  on the last day of a shorter month, at the same time of the day.
\<close>

theorem cycle_advances:
  assumes "add_calendar_ok fns" and "100 \<le> getUTCFullYear t" and "cycle_months cycle = Some n"
  shows "12 * getUTCFullYear (advanceBillingCycle fns t cycle) + getUTCMonth (advanceBillingCycle fns t cycle) =
        12 * getUTCFullYear t + getUTCMonth t + n \<and>
     getUTCDate (advanceBillingCycle fns t cycle) =
        min (getUTCDate t) (getUTCDate (date_utc (getUTCFullYear (advanceBillingCycle fns t cycle))
          (getUTCMonth (advanceBillingCycle fns t cycle) + 1) 0 0 0 0 0)) \<and>
     advanceBillingCycle fns t cycle mod ms_per_day = t mod ms_per_day"
proof -
  let ?u = "advanceBillingCycle fns t cycle"
  have l: "months_later n t ?u" by (rule advance_months [OF assms])
  have "0 \<le> n" using assms(3) by (auto simp: cycle_months_def split: billing_cycle.splits)
  then have "100 \<le> getUTCFullYear ?u" using years_grow [OF l] assms(2) by simp
  from last_day [OF this, of "getUTCMonth ?u"] show ?thesis using l by (simp add: months_later_def month_index_def)
qed

text \<open>
  The day of the month is that of the date that is advanced, so a schedule advanced date by date drifts:
  from a 31st over a month of 28 days to the 28th of the month after.
\<close>

theorem advanced_dates_drift:
  assumes "add_calendar_ok fns" and "100 \<le> getUTCFullYear t" and "getUTCDate t = 31" and "month_length (month_index t + 1) = 28"
  shows "getUTCDate (advanceBillingCycle fns (advanceBillingCycle fns t Cycle_monthly) Cycle_monthly) = 28"
proof -
  let ?u = "advanceBillingCycle fns t Cycle_monthly"
  have l: "months_later 1 t ?u" using advance_months [OF assms(1,2)] by (simp add: cycle_months_def)
  then have u: "getUTCDate ?u = 28" "100 \<le> getUTCFullYear ?u" using years_grow [OF l] assms(2-4) by (simp_all add: months_later_def)
  have "months_later 1 ?u (advanceBillingCycle fns ?u Cycle_monthly)" using advance_months [OF assms(1) u(2)] by (simp add: cycle_months_def)
  then show ?thesis using u(1) month_length_range(1) [of "month_index ?u + 1"] by (simp add: months_later_def)
qed

section \<open>An instance of the additions\<close>

definition add_months_clamped :: "millis \<Rightarrow> int \<Rightarrow> millis" where
  "add_months_clamped t n =
     (month_start (month_index t + n) + min (getUTCDate t) (month_length (month_index t + n)) - 1) * ms_per_day + t mod ms_per_day"

definition plain_date_fns :: date_fns where
  "plain_date_fns = \<lparr>addWeeks = (\<lambda>t n. t + 7 * n * ms_per_day), addMonths = add_months_clamped,
     addQuarters = (\<lambda>t n. add_months_clamped t (3 * n)), addYears = (\<lambda>t n. add_months_clamped t (12 * n))\<rparr>"

lemma day_and_time: "(a * ms_per_day + t mod ms_per_day) div ms_per_day = a" "(a * ms_per_day + t mod ms_per_day) mod ms_per_day = t mod (ms_per_day :: int)"
  by (simp_all add: ms_per_day_def div_mult_self3)

lemma add_months_later: "months_later n t (add_months_clamped t n)"
proof -
  let ?i = "month_index t + n" and ?d = "min (getUTCDate t) (month_length (month_index t + n))"
  have d: "1 \<le> ?d" "?d \<le> month_length ?i" using date_range(1) [of t] month_length_range(1) [of ?i] by simp_all
  have q: "add_months_clamped t n div ms_per_day = month_start ?i + ?d - 1" "add_months_clamped t n mod ms_per_day = t mod ms_per_day"
    unfolding add_months_clamped_def by (rule day_and_time)+
  show ?thesis unfolding months_later_def using parts_unique [OF d q(1)] q(2) by blast
qed

lemma plain_date_fns_ok: "add_calendar_ok plain_date_fns"
  using add_months_later [of 1] add_months_later [of 3] add_months_later [of 12] by (simp add: add_calendar_ok_def plain_date_fns_def)

text \<open>2026-01-31T12:00:00Z.\<close>

theorem cycle_advances_witness:
  "advanceBillingCycle plain_date_fns 1769860800000 Cycle_monthly mod ms_per_day = 43200000 \<and>
   getUTCDate (advanceBillingCycle plain_date_fns 1769860800000 Cycle_monthly) = 28"
proof -
  have "getUTCFullYear 1769860800000 = 2026" "(1769860800000 :: int) mod ms_per_day = 43200000"
    "getUTCDate (advanceBillingCycle plain_date_fns 1769860800000 Cycle_monthly) = 28" by code_simp+
  then show ?thesis using cycle_advances [OF plain_date_fns_ok, of 1769860800000 Cycle_monthly 1] by (simp add: cycle_months_def)
qed

end
