(* ===== verification/Simulation.thy ===== *)
theory Simulation
  imports BillingCycle
begin

text \<open>
  The projection of renewals (\<open>backend/src/services/simulation-service.ts\<close>).  The rows of the user's
  active subscriptions are an argument (none when the query fails), dates are instants.
\<close>

record sim_sub =
  sm_id :: string
  sm_name :: string
  sm_provider :: string
  sm_price :: amount
  sm_billing_cycle :: billing_cycle
  sm_category :: "string option"
  sm_next_billing_date :: "millis option"

record projected_renewal =
  pj_subscriptionId :: string
  pj_subscriptionName :: string
  pj_provider :: string
  pj_amount :: amount
  pj_projectedDate :: millis
  pj_billingCycle :: billing_cycle
  pj_category :: "string option"

record simulation_summary =
  su_totalProjectedSpend :: amount
  su_projectionPeriodDays :: int
  su_startDate :: millis
  su_endDate :: millis
  su_subscriptionCount :: nat
  su_renewalCount :: nat

record risk_assessment =
  ra_insufficientBalance :: bool
  ra_currentBalance :: amount
  ra_shortfall :: amount

record simulation_result =
  sx_projections :: "projected_renewal list"
  sx_summary :: simulation_summary
  sx_risk :: "risk_assessment option"

definition projection :: "sim_sub \<Rightarrow> millis \<Rightarrow> projected_renewal" where
  "projection s t = \<lparr>pj_subscriptionId = sm_id s, pj_subscriptionName = sm_name s, pj_provider = sm_provider s, pj_amount = sm_price s,
     pj_projectedDate = t, pj_billingCycle = sm_billing_cycle s, pj_category = sm_category s\<rparr>"

text \<open>The loop need not end, so \<open>None\<close> is the loop that does not.\<close>

partial_function (option) projection_loop :: "date_fns \<Rightarrow> sim_sub \<Rightarrow> millis \<Rightarrow> millis \<Rightarrow> projected_renewal list \<Rightarrow> projected_renewal list option" where
  "projection_loop fns s endDate t acc =
     (if t \<le> endDate then projection_loop fns s endDate (advanceBillingCycle fns t (sm_billing_cycle s)) (acc @ [projection s t])
      else Some acc)"

declare projection_loop.simps [code]

definition projectSubscriptionRenewals :: "date_fns \<Rightarrow> sim_sub \<Rightarrow> millis \<Rightarrow> projected_renewal list option" where
  "projectSubscriptionRenewals fns s endDate =
     (case sm_next_billing_date s of None \<Rightarrow> Some [] | Some t \<Rightarrow> projection_loop fns s endDate t [])"

fun project_all :: "date_fns \<Rightarrow> millis \<Rightarrow> sim_sub list \<Rightarrow> projected_renewal list option" where
  "project_all fns endDate [] = Some []"
| "project_all fns endDate (s # ss) =
     (case projectSubscriptionRenewals fns s endDate of
        None \<Rightarrow> None
      | Some ps \<Rightarrow> map_option (\<lambda>qs. ps @ qs) (project_all fns endDate ss))"

definition assess_risk :: "amount \<Rightarrow> amount \<Rightarrow> risk_assessment" where
  "assess_risk spend balance =
     (let insufficient = balance < spend
      in \<lparr>ra_insufficientBalance = insufficient, ra_currentBalance = balance, ra_shortfall = (if insufficient then spend - balance else 0)\<rparr>)"

datatype simulation_error = Days_out_of_range | Database_error string

definition generateSimulation :: "date_fns \<Rightarrow> millis \<Rightarrow> int \<Rightarrow> amount option \<Rightarrow> string + sim_sub list \<Rightarrow> (simulation_error + simulation_result) option" where
  "generateSimulation fns now days balance found =
     (if days < 1 \<or> 365 < days then Some (Inl Days_out_of_range)
      else (let endDate = now + days * ms_per_day
        in case found of
             Inl msg \<Rightarrow> Some (Inl (Database_error msg))
           | Inr subs \<Rightarrow>
               map_option (\<lambda>ps. let renewals = sort_key pj_projectedDate ps; spend = fold (\<lambda>p n. n + pj_amount p) renewals 0
                  in Inr \<lparr>sx_projections = renewals,
                       sx_summary = \<lparr>su_totalProjectedSpend = spend, su_projectionPeriodDays = days, su_startDate = now, su_endDate = endDate,
                         su_subscriptionCount = card (pj_subscriptionId ` set renewals), su_renewalCount = length renewals\<rparr>,
                       sx_risk = map_option (assess_risk spend) balance\<rparr>)
                 (project_all fns endDate subs)))"

section \<open>The projection ends\<close>

definition known_cycle :: "billing_cycle \<Rightarrow> bool" where
  "known_cycle c \<longleftrightarrow> (case c of Cycle_other _ \<Rightarrow> False | _ \<Rightarrow> True)"

lemma advance_later:
  assumes "add_calendar_ok fns" and "100 \<le> getUTCFullYear t" and "known_cycle c"
  shows "t < advanceBillingCycle fns t c" and "100 \<le> getUTCFullYear (advanceBillingCycle fns t c)"
proof -
  let ?u = "advanceBillingCycle fns t c"
  have day: "t div ms_per_day < u div ms_per_day \<Longrightarrow> t < u" for t u :: int
    using zdiv_mono1 [of u t ms_per_day] by (simp add: ms_per_day_def not_less [symmetric])
  have "t < ?u"
  proof (cases "cycle_months c")
    case None
    then show ?thesis using assms(1,3) by (cases c) (auto simp: cycle_months_def known_cycle_def advanceBillingCycle_def add_calendar_ok_def ms_per_day_def)
  next
    case (Some n)
    have l: "months_later n t ?u" by (rule advance_months [OF assms(1,2) Some])
    have "0 < n" using Some by (auto simp: cycle_months_def split: billing_cycle.splits)
    then have "month_start (month_index t) + month_length (month_index t) \<le> month_start (month_index ?u)"
      using l by (intro month_start_mono) (simp add: months_later_def)
    then have "t div ms_per_day < ?u div ms_per_day" using parts_day [of t] parts_day [of ?u] date_range [of t] date_range [of ?u] by linarith
    then show ?thesis by (rule day)
  qed
  then show "t < ?u" .
  have "getUTCFullYear t \<le> getUTCFullYear ?u"
  proof (rule ccontr)
    assume "\<not> getUTCFullYear t \<le> getUTCFullYear ?u"
    then have "month_index ?u < month_index t" using month_index_parts [of t] month_index_parts [of ?u] month_range [of t] month_range [of ?u]
      by (simp add: month_index_def)
    from month_start_mono [OF this] have "?u div ms_per_day < t div ms_per_day"
      using parts_day [of t] parts_day [of ?u] date_range [of t] date_range [of ?u] by linarith
    then show False using day [of ?u t] \<open>t < ?u\<close> by linarith
  qed
  then show "100 \<le> getUTCFullYear ?u" using assms(2) by linarith
qed

definition in_period :: "millis \<Rightarrow> projected_renewal \<Rightarrow> bool" where
  "in_period endDate p \<longleftrightarrow> pj_projectedDate p \<le> endDate"

lemma loop_ends:
  assumes "add_calendar_ok fns" and "known_cycle (sm_billing_cycle s)"
  shows "100 \<le> getUTCFullYear t \<Longrightarrow> \<exists>ps. projection_loop fns s endDate t acc = Some (acc @ ps) \<and> list_all (in_period endDate) ps"
proof (induction "nat (endDate + 1 - t)" arbitrary: t acc rule: less_induct)
  case less
  show ?case
  proof (cases "t \<le> endDate")
    case False
    then show ?thesis by (subst projection_loop.simps) simp
  next
    case True
    let ?u = "advanceBillingCycle fns t (sm_billing_cycle s)"
    have u: "t < ?u" "100 \<le> getUTCFullYear ?u" using advance_later [OF assms(1) less.prems assms(2)] by simp_all
    obtain ps where "projection_loop fns s endDate ?u (acc @ [projection s t]) = Some ((acc @ [projection s t]) @ ps)" "list_all (in_period endDate) ps"
      using less.hyps [OF _ u(2), of "acc @ [projection s t]"] u(1) True by auto
    then show ?thesis using True by (intro exI [of _ "projection s t # ps"]) (subst projection_loop.simps, simp add: in_period_def projection_def)
  qed
qed

definition projectable :: "sim_sub \<Rightarrow> bool" where
  "projectable s \<longleftrightarrow> known_cycle (sm_billing_cycle s) \<and> (case sm_next_billing_date s of None \<Rightarrow> True | Some t \<Rightarrow> 100 \<le> getUTCFullYear t)"

lemma project_all_ends:
  assumes "add_calendar_ok fns"
  shows "list_all projectable ss \<Longrightarrow> \<exists>ps. project_all fns endDate ss = Some ps \<and> list_all (in_period endDate) ps"
proof (induction ss)
  case (Cons s ss)
  have "\<exists>ps. projectSubscriptionRenewals fns s endDate = Some ps \<and> list_all (in_period endDate) ps"
    using Cons.prems loop_ends [OF assms, of s _ endDate "[]", unfolded append_Nil] by (cases "sm_next_billing_date s") (auto simp: projectSubscriptionRenewals_def projectable_def)
  then show ?case using Cons by auto
qed simp

lemma fold_total: "fold (\<lambda>p n. n + pj_amount p) ps n = n + sum_list (map pj_amount ps)"
  by (induction ps arbitrary: n) simp_all

text \<open>
  For subscriptions with a billing cycle the code knows the simulation ends; its renewals are in the
  order of their dates and none is after the period, the total is their sum, and the shortfall is what
  the balance lacks.
\<close>

theorem simulation_returns:
  assumes "add_calendar_ok fns" and "list_all projectable subs" and "1 \<le> days" "days \<le> 365"
  shows "\<exists>r. generateSimulation fns now days (Some balance) (Inr subs) = Some (Inr r) \<and>
     sorted (map pj_projectedDate (sx_projections r)) \<and> list_all (in_period (now + days * ms_per_day)) (sx_projections r) \<and>
     su_totalProjectedSpend (sx_summary r) = sum_list (map pj_amount (sx_projections r)) \<and>
     map_option ra_shortfall (sx_risk r) = Some (max 0 (su_totalProjectedSpend (sx_summary r) - balance))"
proof -
  obtain ps where "project_all fns (now + days * ms_per_day) subs = Some ps" "list_all (in_period (now + days * ms_per_day)) ps"
    using project_all_ends [OF assms(1,2)] by blast
  then show ?thesis using assms(3,4)
    by (auto simp: generateSimulation_def Let_def assess_risk_def fold_total list_all_iff max_def)
qed

text \<open>For another billing cycle, such as the lifetime subscriptions the CSV import accepts, the loop does not end.\<close>

lemma loop_diverges:
  assumes "projection_loop fns s endDate t acc = Some ps"
  shows "(case sm_billing_cycle s of Cycle_other _ \<Rightarrow> True | _ \<Rightarrow> False) \<longrightarrow> endDate < t"
proof (rule projection_loop.raw_induct [where P = "\<lambda>fns s endDate t acc ps. (case sm_billing_cycle s of Cycle_other _ \<Rightarrow> True | _ \<Rightarrow> False) \<longrightarrow> endDate < t", OF _ assms])
  fix loop fns s endDate t acc ps
  assume ih: "\<And>fns s endDate t acc ps. loop fns s endDate t acc = Some ps \<Longrightarrow>
      (case sm_billing_cycle s of Cycle_other _ \<Rightarrow> True | _ \<Rightarrow> False) \<longrightarrow> endDate < (t :: int)"
    and eq: "(if t \<le> endDate then loop fns s endDate (advanceBillingCycle fns t (sm_billing_cycle s)) (acc @ [projection s t]) else Some acc) = Some ps"
  show "(case sm_billing_cycle s of Cycle_other _ \<Rightarrow> True | _ \<Rightarrow> False) \<longrightarrow> endDate < t"
  proof (cases "t \<le> endDate")
    case True
    then have "loop fns s endDate (advanceBillingCycle fns t (sm_billing_cycle s)) (acc @ [projection s t]) = Some ps" using eq by simp
    from ih [OF this] show ?thesis by (auto simp: advanceBillingCycle_def split: billing_cycle.splits)
  qed simp
qed

theorem unknown_cycle_diverges:
  assumes "sm_billing_cycle s = Cycle_other c" and "sm_next_billing_date s = Some t" and "t \<le> endDate"
  shows "projectSubscriptionRenewals fns s endDate = None"
proof (cases "projectSubscriptionRenewals fns s endDate")
  case (Some ps)
  then show ?thesis using loop_diverges [of fns s endDate t "[]" ps] assms by (simp add: projectSubscriptionRenewals_def)
qed

definition demo_sim_sub :: sim_sub where
  "demo_sim_sub = \<lparr>sm_id = ''s1'', sm_name = ''Music'', sm_provider = ''P'', sm_price = 10, sm_billing_cycle = Cycle_monthly, sm_category = None,
     sm_next_billing_date = Some 1769860800000\<rparr>"

theorem simulation_returns_witness:
  "\<exists>r. generateSimulation plain_date_fns 1769860800000 60 (Some 15) (Inr [demo_sim_sub]) = Some (Inr r) \<and>
     sorted (map pj_projectedDate (sx_projections r))"
proof -
  have "getUTCFullYear 1769860800000 = 2026" by code_simp
  then have "list_all projectable [demo_sim_sub]" by (simp add: projectable_def demo_sim_sub_def known_cycle_def)
  from simulation_returns [OF plain_date_fns_ok this, of 60 1769860800000 15] show ?thesis by auto
qed

end
