(* ===== verification/RedisLock.thy ===== *)
theory RedisLock
  imports Leases
begin

text \<open>
  The distributed lock of renewals (\<open>backend/src/lib/redis-lock.ts\<close>): a key that is set only when it is
  absent, expires, and is deleted only by the holder of its token.  Redis is a map with expiry times
  whose commands are atomic; whether it answers is an argument of each call.
\<close>

record lock_metrics =
  lm_acquired :: nat
  lm_contention :: nat
  lm_released :: nat
  lm_expired :: nat

record redis_locks =
  rk_keys :: "(string, string \<times> millis) jsmap"
  rk_metrics :: lock_metrics

text \<open>No client; or the command throws; or it is executed, and counting works or does not.\<close>

datatype redis_reply = No_client | Command_throws | Command_runs bool

datatype lock_result = Lock_acquired string | Lock_contention | Lock_unavailable

definition lockKey :: "ident \<Rightarrow> int \<Rightarrow> string" where
  "lockKey subscriptionId cycleId = ''renewal_lock:'' @ subscriptionId @ '':'' @ show_int cycleId"

text \<open>The entry of a key that has not expired.\<close>

definition live_key :: "string \<Rightarrow> millis \<Rightarrow> redis_locks \<Rightarrow> string option" where
  "live_key k now s = (case js_get (rk_keys s) k of None \<Rightarrow> None | Some (v, expires) \<Rightarrow> if now < expires then Some v else None)"

definition count_metric :: "bool \<Rightarrow> (lock_metrics \<Rightarrow> lock_metrics) \<Rightarrow> redis_locks \<Rightarrow> redis_locks" where
  "count_metric counts f s = (if counts then s\<lparr>rk_metrics := f (rk_metrics s)\<rparr> else s)"

text \<open>Seconds of a time in milliseconds, at least one.\<close>

definition ttl_seconds :: "int \<Rightarrow> int" where
  "ttl_seconds ttlMs = max 1 ((ttlMs + 999) div 1000)"

definition acquire_lock :: "redis_reply \<Rightarrow> string \<Rightarrow> millis \<Rightarrow> ident \<Rightarrow> int \<Rightarrow> int \<Rightarrow> redis_locks \<Rightarrow> lock_result \<times> redis_locks" where
  "acquire_lock redis token now subscriptionId cycleId ttlMs s =
     (case redis of
        No_client \<Rightarrow> (Lock_unavailable, s)
      | Command_throws \<Rightarrow> (Lock_unavailable, s)
      | Command_runs counts \<Rightarrow>
          (let k = lockKey subscriptionId cycleId
           in case live_key k now s of
                None \<Rightarrow>
                  (Lock_acquired token,
                   count_metric counts (\<lambda>m. m\<lparr>lm_acquired := lm_acquired m + 1\<rparr>)
                     (s\<lparr>rk_keys := js_set k (token, now + 1000 * ttl_seconds ttlMs) (rk_keys s)\<rparr>))
              | Some _ \<Rightarrow> (Lock_contention, count_metric counts (\<lambda>m. m\<lparr>lm_contention := lm_contention m + 1\<rparr>) s)))"

definition release_lock :: "redis_reply \<Rightarrow> millis \<Rightarrow> ident \<Rightarrow> int \<Rightarrow> string \<Rightarrow> redis_locks \<Rightarrow> bool \<times> redis_locks" where
  "release_lock redis now subscriptionId cycleId token s =
     (case redis of
        No_client \<Rightarrow> (False, s)
      | Command_throws \<Rightarrow> (False, s)
      | Command_runs counts \<Rightarrow>
          (let k = lockKey subscriptionId cycleId
           in if live_key k now s = Some token
              then (True, count_metric counts (\<lambda>m. m\<lparr>lm_released := lm_released m + 1\<rparr>) (s\<lparr>rk_keys := js_delete k (rk_keys s)\<rparr>))
              else (False, count_metric counts (\<lambda>m. m\<lparr>lm_expired := lm_expired m + 1\<rparr>) s)))"

definition getMetrics_lock :: "redis_reply \<Rightarrow> redis_locks \<Rightarrow> lock_metrics" where
  "getMetrics_lock redis s =
     (case redis of No_client \<Rightarrow> \<lparr>lm_acquired = 0, lm_contention = 0, lm_released = 0, lm_expired = 0\<rparr> | _ \<Rightarrow> rk_metrics s)"

section \<open>The contract of a lease\<close>

definition redis_acquire :: "ident \<times> int \<Rightarrow> string \<Rightarrow> millis \<Rightarrow> millis \<Rightarrow> redis_locks \<Rightarrow> bool \<times> redis_locks" where
  "redis_acquire k token now dur s =
     (let (r, s') = acquire_lock (Command_runs True) token now (fst k) (snd k) dur s in (r = Lock_acquired token, s'))"

definition redis_held :: "ident \<times> int \<Rightarrow> string \<Rightarrow> millis \<Rightarrow> redis_locks \<Rightarrow> bool" where
  "redis_held k token t s \<longleftrightarrow> live_key (lockKey (fst k) (snd k)) t s = Some token"

lemma live_key_simps [simp]:
  "live_key k now (count_metric b f s) = live_key k now s"
  "live_key k now (s\<lparr>rk_keys := js_set k' (v, e) (rk_keys s)\<rparr>) = (if k = k' then (if now < e then Some v else None) else live_key k now s)"
  by (simp_all add: live_key_def count_metric_def)

lemma acquire_cases:
  obtains v where "live_key (lockKey i c) now s = Some v" "acquire_lock (Command_runs b) token now i c ttl s =
      (Lock_contention, count_metric b (\<lambda>m. m\<lparr>lm_contention := lm_contention m + 1\<rparr>) s)"
  | "live_key (lockKey i c) now s = None" "acquire_lock (Command_runs b) token now i c ttl s =
      (Lock_acquired token, count_metric b (\<lambda>m. m\<lparr>lm_acquired := lm_acquired m + 1\<rparr>)
         (s\<lparr>rk_keys := js_set (lockKey i c) (token, now + 1000 * ttl_seconds ttl) (rk_keys s)\<rparr>))"
  by (cases "live_key (lockKey i c) now s") (auto simp: acquire_lock_def)

lemma live_earlier: "live_key k t s = Some v \<Longrightarrow> now \<le> t \<Longrightarrow> live_key k now s = Some v"
  by (auto simp: live_key_def split: option.splits if_splits)

interpretation redis_lease: exclusive_lease redis_acquire redis_held "\<lambda>_. True"
proof unfold_locales
  fix s k h h' t
  assume "redis_held k h t s" "redis_held k h' t s"
  then show "h' = h" by (simp add: redis_held_def)
next
  fix k h t s t'
  assume "redis_held k h t s" "t' \<le> t"
  then show "redis_held k h t' s" unfolding redis_held_def by (rule live_earlier)
next
  fix s k h now dur
  assume "fst (redis_acquire k h now dur s)"
  then show "redis_held k h now (snd (redis_acquire k h now dur s))"
    by (cases rule: acquire_cases [of "fst k" "snd k" now s True h dur]) (auto simp: redis_acquire_def redis_held_def ttl_seconds_def)
next
  fix s k h t now h' dur
  assume "redis_held k h t s" "now \<le> t"
  then have "live_key (lockKey (fst k) (snd k)) now s = Some h" unfolding redis_held_def by (rule live_earlier)
  then show "\<not> fst (redis_acquire k h' now dur s)" by (simp add: redis_acquire_def acquire_lock_def)
next
  fix s k h t now k' h' dur
  assume h: "redis_held k h t s" "now \<le> t"
  then have l: "live_key (lockKey (fst k) (snd k)) now s = Some h" unfolding redis_held_def by (rule live_earlier)
  show "redis_held k h t (snd (redis_acquire k' h' now dur s))"
  proof (cases "live_key (lockKey (fst k') (snd k')) now s")
    case None
    then have "lockKey (fst k) (snd k) \<noteq> lockKey (fst k') (snd k')" using l by auto
    then show ?thesis using h(1) None by (simp add: redis_acquire_def acquire_lock_def redis_held_def)
  next
    case (Some v)
    then show ?thesis using h(1) by (simp add: redis_acquire_def acquire_lock_def redis_held_def)
  qed
qed simp

text \<open>
  While a worker's lock on a cycle runs, every attempt of another worker on that cycle is refused,
  whatever other cycles are locked in between, and releasing with another token leaves it in place.
\<close>

theorem redis_lock_exclusive:
  assumes "redis_held k token t s" and "list_all (\<lambda>(k', token', now, ttl). now \<le> t \<and> token' \<noteq> token) as" and "token' \<noteq> token" "now \<le> t"
  shows "redis_held k token t (snd (redis_lease.attempts as s)) \<and>
     list_all (\<lambda>((k', _), b). k' = k \<longrightarrow> \<not> b) (zip as (fst (redis_lease.attempts as s))) \<and>
     \<not> fst (release_lock (Command_runs b) now (fst k) (snd k) token' s) \<and>
     redis_held k token t (snd (release_lock (Command_runs b) now (fst k) (snd k) token' s))"
proof -
  have "\<forall>(k', h', now, dur)\<in>set as. now \<le> t \<and> (k' \<noteq> k \<or> h' \<noteq> token)" using assms(2) by (auto simp: list_all_iff)
  from redis_lease.held_through [OF TrueI assms(1) this]
  have h: "redis_held k token t (snd (redis_lease.attempts as s))" "\<forall>i<length as. fst (as ! i) = k \<longrightarrow> \<not> fst (redis_lease.attempts as s) ! i"
    by blast+
  have "\<forall>i<length as. case (as ! i, fst (redis_lease.attempts as s) ! i) of ((k', _), b) \<Rightarrow> k' = k \<longrightarrow> \<not> b"
    using h(2) by (auto split: prod.splits)
  then have z: "list_all (\<lambda>((k', _), b). k' = k \<longrightarrow> \<not> b) (zip as (fst (redis_lease.attempts as s)))"
    by (auto simp: list_all_length)
  have "live_key (lockKey (fst k) (snd k)) now s = Some token" using assms(1,4) unfolding redis_held_def by (rule live_earlier)
  then have "release_lock (Command_runs b) now (fst k) (snd k) token' s = (False, count_metric b (\<lambda>m. m\<lparr>lm_expired := lm_expired m + 1\<rparr>) s)"
    using assms(3) by (simp add: release_lock_def)
  then show ?thesis using assms(1) h(1) z by (simp add: redis_held_def)
qed

text \<open>A lock that is released, or has run out, can be taken by the next worker; a late release does not free it.\<close>

lemma released_lock_free:
  assumes "redis_held k token t s" and "now \<le> t"
  shows "fst (release_lock (Command_runs b) now (fst k) (snd k) token s)"
    and "fst (redis_acquire k token' now dur (snd (release_lock (Command_runs b) now (fst k) (snd k) token s)))"
proof -
  have l: "live_key (lockKey (fst k) (snd k)) now s = Some token" using assms unfolding redis_held_def by (rule live_earlier)
  then show "fst (release_lock (Command_runs b) now (fst k) (snd k) token s)" by (simp add: release_lock_def)
  have "live_key (lockKey (fst k) (snd k)) now (snd (release_lock (Command_runs b) now (fst k) (snd k) token s)) = None"
    using l by (simp add: release_lock_def) (simp add: live_key_def)
  then show "fst (redis_acquire k token' now dur (snd (release_lock (Command_runs b) now (fst k) (snd k) token s)))"
    by (simp add: redis_acquire_def acquire_lock_def)
qed

theorem redis_lock_exclusive_witness:
  "let s = snd (redis_acquire (''s1'', 20260315) ''a'' 0 300000 \<lparr>rk_keys = [], rk_metrics = \<lparr>lm_acquired = 0, lm_contention = 0, lm_released = 0, lm_expired = 0\<rparr>\<rparr>)
   in redis_held (''s1'', 20260315) ''a'' 299999 (snd (redis_lease.attempts [((''s1'', 20260315), ''b'', 1000, 300000)] s)) \<and>
      \<not> fst (release_lock (Command_runs True) 2000 ''s1'' 20260315 ''b'' s)"
proof -
  let ?s = "snd (redis_acquire (''s1'', 20260315) ''a'' 0 300000 \<lparr>rk_keys = [], rk_metrics = \<lparr>lm_acquired = 0, lm_contention = 0, lm_released = 0, lm_expired = 0\<rparr>\<rparr>)"
  have "redis_held (''s1'', 20260315) ''a'' 299999 ?s"
    by (simp add: redis_held_def redis_acquire_def acquire_lock_def live_key_def ttl_seconds_def count_metric_def)
  from redis_lock_exclusive [OF this, of "[((''s1'', 20260315), ''b'', 1000, 300000)]" "''b''" 2000 True] show ?thesis by (simp add: Let_def)
qed

end
