(* ===== verification/Renewal.thy ===== *)
theory Renewal
  imports Settlement RedisLock Idempotency BillingCycle SubscriptionMath
begin

text \<open>
  Renewals: \<open>backend/src/services/renewal-executor.ts\<close> checks an approval and the billing window, pays
  from a channel or by the settlement queue and the contract, and moves the billing date.  The services the executor
  calls are operations on a world \<open>'w\<close> that it holds as fields (\<open>SettlementBatcher\<close>, \<open>BlockchainService\<close>
  and the channel service are modelled in \<open>Settlement\<close>, \<open>ChainLog\<close> and \<open>ChannelOps\<close>); so are the clock and
  what becomes of a statement.  Telegram messages and webhooks, which are not awaited, are left out.
\<close>

record renewal_request =
  rr_subscriptionId :: ident
  rr_userId :: ident
  rr_approvalId :: ident
  rr_amount :: amount

record renewal_result =
  rz_success :: bool
  rz_transactionHash :: "string option"
  rz_error :: "string option"
  rz_failureReason :: "string option"

record renewal_approval =
  ra_subscription_id :: ident
  ra_approval_id :: ident
  ra_max_spend :: "amount option"
  ra_expires_at :: "millis option"
  ra_used :: bool
  ra_rejected :: bool

record renewal_sub =
  rb_id :: ident
  rb_status :: string
  rb_next_billing_date :: millis
  rb_billing_cycle :: billing_cycle
  rb_last_renewal_date :: "millis option"
  rb_last_transaction_hash :: "string option"

record renewal_log =
  rg_subscription_id :: ident
  rg_user_id :: ident
  rg_success :: bool
  rg_transaction_hash :: "string option"
  rg_stealth_address :: "string option"
  rg_ephemeral_pubkey :: "string option"
  rg_failure_reason :: "string option"
  rg_error_message :: "string option"
  rg_created_at :: millis

record 'w renewal_env =
  xe_now :: "'w \<Rightarrow> millis"
  xe_query :: "'w \<Rightarrow> bool \<times> 'w"
  xe_write :: "'w \<Rightarrow> bool \<times> 'w"
  xe_stealthEnabled :: bool
  xe_viewPubkey :: "string option"
  xe_spendPubkey :: "string option"
  xe_profile :: "ident \<Rightarrow> 'w \<Rightarrow> string option \<times> 'w"
  xe_derive :: "string \<times> string \<Rightarrow> string \<Rightarrow> string + string \<times> string"
  xe_channelsEnabled :: bool
  xe_findPayable :: "ident \<Rightarrow> amount \<Rightarrow> 'w \<Rightarrow> (string + ident option) \<times> 'w"
  xe_applyPayment :: "ident \<Rightarrow> ident \<Rightarrow> ident \<Rightarrow> amount \<Rightarrow> 'w \<Rightarrow> (string + unit) \<times> 'w"
  xe_enqueue :: "settlement_input \<Rightarrow> 'w \<Rightarrow> (string + ident) \<times> 'w"
  xe_sync :: "ident \<Rightarrow> ident \<Rightarrow> json \<Rightarrow> 'w \<Rightarrow> (string + write_result) \<times> 'w"
  xe_fns :: date_fns

record 'w renewal_tables =
  rn_subs :: "renewal_sub list"
  rn_approvals :: "renewal_approval list"
  rn_logs :: "renewal_log list"
  rn_world :: 'w

section \<open>Checks\<close>

text \<open>A query that fails finds nothing, and \<open>single\<close> accepts one row only.\<close>

definition query_single :: "'w renewal_env \<Rightarrow> ('w renewal_tables \<Rightarrow> 'a list) \<Rightarrow> 'w renewal_tables \<Rightarrow> 'a option \<times> 'w renewal_tables" where
  "query_single env rows st =
     (let (ok, w) = xe_query env (rn_world st)
      in (if ok then (case rows st of [r] \<Rightarrow> Some r | _ \<Rightarrow> None) else None, st\<lparr>rn_world := w\<rparr>))"

text \<open>The reason why the approval is not valid, if any; a limit of 0 counts as none.\<close>

definition checkApproval :: "'w renewal_env \<Rightarrow> ident \<Rightarrow> ident \<Rightarrow> amount \<Rightarrow> 'w renewal_tables \<Rightarrow> string option \<times> 'w renewal_tables" where
  "checkApproval env subscriptionId approvalId amt st =
     (let (found, st1) = query_single env
            (\<lambda>s. filter (\<lambda>a. ra_subscription_id a = subscriptionId \<and> ra_approval_id a = approvalId \<and> \<not> ra_used a) (rn_approvals s)) st
      in (case found of
            None \<Rightarrow> Some ''Approval not found''
          | Some a \<Rightarrow>
              (if (case ra_expires_at a of None \<Rightarrow> False | Some t \<Rightarrow> t < xe_now env (rn_world st1)) then Some ''Approval expired''
               else if (case ra_max_spend a of None \<Rightarrow> False | Some m \<Rightarrow> m \<noteq> 0 \<and> m < amt) then Some ''Amount exceeds max spend''
               else None), st1))"

definition days_until :: "millis \<Rightarrow> millis \<Rightarrow> int" where
  "days_until now t = - ((now - t) div ms_per_day)"

text \<open>The billing cycle, or the reason why it is not time.\<close>

definition validateBillingWindow :: "'w renewal_env \<Rightarrow> ident \<Rightarrow> 'w renewal_tables \<Rightarrow> (string + billing_cycle) \<times> 'w renewal_tables" where
  "validateBillingWindow env subscriptionId st =
     (let (found, st1) = query_single env (\<lambda>s. filter (\<lambda>b. rb_id b = subscriptionId) (rn_subs s)) st
      in (case found of
            None \<Rightarrow> Inl ''Subscription not found''
          | Some b \<Rightarrow>
              (if rb_status b \<noteq> ''active'' then Inl ''Subscription not active''
               else if 7 < days_until (xe_now env (rn_world st1)) (rb_next_billing_date b) then Inl ''Too early for renewal''
               else Inr (rb_billing_cycle b)), st1))"

definition stealth_prefix :: string where
  "stealth_prefix = ''syncro:stealth:v1:''"

text \<open>Spend and view key.\<close>

definition parse_meta_address :: "string \<Rightarrow> (string \<times> string) option" where
  "parse_meta_address raw =
     (if startsWith raw stealth_prefix
      then (let body = drop (length stealth_prefix) raw; colon = (\<lambda>c. code c = 58); spend = takeWhile (\<lambda>c. \<not> colon c) body;
                view = takeWhile (\<lambda>c. \<not> colon c) (drop 1 (dropWhile (\<lambda>c. \<not> colon c) body))
        in if spend = [] \<or> view = [] then None else Some (spend, view))
      else None)"

definition resolveStealthMetaAddress :: "'w renewal_env \<Rightarrow> ident \<Rightarrow> 'w renewal_tables \<Rightarrow> (string \<times> string) option \<times> 'w renewal_tables" where
  "resolveStealthMetaAddress env userId st =
     (if truthy (xe_viewPubkey env) \<and> truthy (xe_spendPubkey env) then (Some (the (xe_spendPubkey env), the (xe_viewPubkey env)), st)
      else (let (raw, w) = xe_profile env userId (rn_world st)
        in (case raw of None \<Rightarrow> None | Some r \<Rightarrow> parse_meta_address r, st\<lparr>rn_world := w\<rparr>)))"

text \<open>Address and ephemeral key of a stealth payment; without them the renewal is an ordinary one.\<close>

definition stealth_address :: "'w renewal_env \<Rightarrow> renewal_request \<Rightarrow> 'w renewal_tables \<Rightarrow> (string \<times> string) option \<times> 'w renewal_tables" where
  "stealth_address env req st =
     (if \<not> xe_stealthEnabled env then (None, st)
      else (let (meta, st1) = resolveStealthMetaAddress env (rr_userId req) st
        in (case meta of
              None \<Rightarrow> None
            | Some m \<Rightarrow> (case xe_derive env m (rr_subscriptionId req @ '':'' @ rr_approvalId req) of Inl _ \<Rightarrow> None | Inr p \<Rightarrow> Some p), st1)))"

section \<open>Payment\<close>

definition tryChannelRenewal :: "'w renewal_env \<Rightarrow> renewal_request \<Rightarrow> 'w renewal_tables \<Rightarrow> bool \<times> 'w renewal_tables" where
  "tryChannelRenewal env req st =
     (if \<not> xe_channelsEnabled env then (False, st)
      else (case xe_findPayable env (rr_userId req) (rr_amount req) (rn_world st) of
          (Inl _, w) \<Rightarrow> (False, st\<lparr>rn_world := w\<rparr>)
        | (Inr None, w) \<Rightarrow> (False, st\<lparr>rn_world := w\<rparr>)
        | (Inr (Some ch), w) \<Rightarrow>
            (case xe_applyPayment env ch (rr_userId req) (rr_subscriptionId req) (rr_amount req) w of
               (Inl _, w') \<Rightarrow> (False, st\<lparr>rn_world := w'\<rparr>)
             | (Inr _, w') \<Rightarrow> (True, st\<lparr>rn_world := w'\<rparr>))))"

text \<open>The id of the subscription is passed for that of the user as well.\<close>

definition renewal_data :: "amount \<Rightarrow> string option \<Rightarrow> json" where
  "renewal_data amt addr =
     JObj ([(''status'', JStr ''renewed''), (''amount'', JNum amt)] @ (case addr of None \<Rightarrow> [] | Some a \<Rightarrow> if a = [] then [] else [(''paymentAddress'', JStr a)]))"

definition triggerContractRenewal :: "'w renewal_env \<Rightarrow> renewal_request \<Rightarrow> string option \<Rightarrow> 'w renewal_tables \<Rightarrow> write_result \<times> 'w renewal_tables" where
  "triggerContractRenewal env req addr st =
     (case xe_sync env (rr_subscriptionId req) (rr_subscriptionId req) (renewal_data (rr_amount req) addr) (rn_world st) of
        (Inl e, w) \<Rightarrow> (\<lparr>wr_success = False, wr_transactionHash = None, wr_error = Some e\<rparr>, st\<lparr>rn_world := w\<rparr>)
      | (Inr r, w) \<Rightarrow> (r, st\<lparr>rn_world := w\<rparr>))"

text \<open>Only three cycles are told apart; a weekly or annual subscription is moved by a month.\<close>

definition next_billing :: "date_fns \<Rightarrow> billing_cycle \<Rightarrow> millis \<Rightarrow> millis" where
  "next_billing fns cycle now =
     (case cycle of
        Cycle_monthly \<Rightarrow> addMonths fns now 1
      | Cycle_quarterly \<Rightarrow> addQuarters fns now 1
      | Cycle_yearly \<Rightarrow> addYears fns now 1
      | _ \<Rightarrow> addMonths fns now 1)"

definition updateSubscription :: "'w renewal_env \<Rightarrow> ident \<Rightarrow> billing_cycle \<Rightarrow> string option \<Rightarrow> 'w renewal_tables \<Rightarrow> 'w renewal_tables" where
  "updateSubscription env i cycle tx st =
     (let now = xe_now env (rn_world st); (ok, w) = xe_write env (rn_world st);
          upd = (\<lambda>b. if rb_id b = i
             then b\<lparr>rb_status := ''active'', rb_next_billing_date := next_billing (xe_fns env) cycle now, rb_last_renewal_date := Some now,
                    rb_last_transaction_hash := (case tx of None \<Rightarrow> rb_last_transaction_hash b | _ \<Rightarrow> tx)\<rparr>
             else b)
      in st\<lparr>rn_subs := (if ok then map upd (rn_subs st) else rn_subs st), rn_world := w\<rparr>)"

definition insert_renewal_log :: "'w renewal_env \<Rightarrow> (millis \<Rightarrow> renewal_log) \<Rightarrow> 'w renewal_tables \<Rightarrow> 'w renewal_tables" where
  "insert_renewal_log env row st =
     (let now = xe_now env (rn_world st); (ok, w) = xe_write env (rn_world st)
      in st\<lparr>rn_logs := (if ok then rn_logs st @ [row now] else rn_logs st), rn_world := w\<rparr>)"

definition logSuccess :: "'w renewal_env \<Rightarrow> renewal_request \<Rightarrow> string option \<Rightarrow> (string \<times> string) option \<Rightarrow> 'w renewal_tables \<Rightarrow> 'w renewal_tables" where
  "logSuccess env req tx stealth st = insert_renewal_log env
     (\<lambda>now. \<lparr>rg_subscription_id = rr_subscriptionId req, rg_user_id = rr_userId req, rg_success = True, rg_transaction_hash = tx,
        rg_stealth_address = map_option fst stealth, rg_ephemeral_pubkey = map_option snd stealth, rg_failure_reason = None,
        rg_error_message = None, rg_created_at = now\<rparr>) st"

definition logFailure :: "'w renewal_env \<Rightarrow> renewal_request \<Rightarrow> string \<Rightarrow> string option \<Rightarrow> 'w renewal_tables \<Rightarrow> renewal_result \<times> 'w renewal_tables" where
  "logFailure env req reason msg st =
     (\<lparr>rz_success = False, rz_transactionHash = None, rz_error = msg, rz_failureReason = Some reason\<rparr>,
      insert_renewal_log env
        (\<lambda>now. \<lparr>rg_subscription_id = rr_subscriptionId req, rg_user_id = rr_userId req, rg_success = False, rg_transaction_hash = None,
           rg_stealth_address = None, rg_ephemeral_pubkey = None, rg_failure_reason = Some reason, rg_error_message = msg, rg_created_at = now\<rparr>) st)"

definition renewal_settlement :: "renewal_request \<Rightarrow> (string \<times> string) option \<Rightarrow> settlement_input" where
  "renewal_settlement req stealth =
     \<lparr>si_userId = rr_userId req, si_subscriptionId = rr_subscriptionId req, si_amount = rr_amount req, si_type = Renewal_settlement,
      si_payload = JObj ((''approvalId'', JStr (rr_approvalId req)) #
        (case stealth of None \<Rightarrow> [] | Some (a, e) \<Rightarrow> [(''stealthAddress'', JStr a), (''ephemeralPubkey'', JStr e)]))\<rparr>"

text \<open>After the checks: the channel, or the queue and the contract.\<close>

definition pay_renewal :: "'w renewal_env \<Rightarrow> renewal_request \<Rightarrow> billing_cycle \<Rightarrow> 'w renewal_tables \<Rightarrow> renewal_result \<times> 'w renewal_tables" where
  "pay_renewal env req cycle st =
     (let (stealth, st1) = stealth_address env req st; (used, st2) = tryChannelRenewal env req st1
      in if used
         then (\<lparr>rz_success = True, rz_transactionHash = None, rz_error = None, rz_failureReason = None\<rparr>,
               logSuccess env req None stealth (updateSubscription env (rr_subscriptionId req) cycle None st2))
         else (case xe_enqueue env (renewal_settlement req stealth) (rn_world st2) of
             (Inl e, w) \<Rightarrow> logFailure env req ''execution_error'' (Some e) (st2\<lparr>rn_world := w\<rparr>)
           | (Inr _, w) \<Rightarrow>
               (let (r, st3) = triggerContractRenewal env req (map_option fst stealth) (st2\<lparr>rn_world := w\<rparr>)
                in if \<not> wr_success r then logFailure env req ''contract_failure'' (wr_error r) st3
                   else (\<lparr>rz_success = True, rz_transactionHash = wr_transactionHash r, rz_error = None, rz_failureReason = None\<rparr>,
                         logSuccess env req (wr_transactionHash r) stealth
                           (updateSubscription env (rr_subscriptionId req) cycle (wr_transactionHash r) st3)))))"

definition executeRenewal :: "'w renewal_env \<Rightarrow> renewal_request \<Rightarrow> 'w renewal_tables \<Rightarrow> renewal_result \<times> 'w renewal_tables" where
  "executeRenewal env req st =
     (let (reason, st1) = checkApproval env (rr_subscriptionId req) (rr_approvalId req) (rr_amount req) st
      in case reason of
           Some why \<Rightarrow> logFailure env req ''invalid_approval'' (Some why) st1
         | None \<Rightarrow>
             (case validateBillingWindow env (rr_subscriptionId req) st1 of
                (Inl why, st2) \<Rightarrow> logFailure env req ''billing_window_invalid'' (Some why) st2
              | (Inr cycle, st2) \<Rightarrow> pay_renewal env req cycle st2))"

definition isRetryable :: "string option \<Rightarrow> bool" where
  "isRetryable reason \<longleftrightarrow> reason = Some ''contract_failure'' \<or> reason = Some ''execution_error''"

definition calculateBackoff :: "nat \<Rightarrow> int" where
  "calculateBackoff attempt = min (1000 * 2 ^ (attempt - 1)) 30000"

text \<open>\<open>sleep\<close> is what the world does meanwhile.  The result of no attempt is \<open>null\<close>.\<close>

fun renewal_attempts :: "'w renewal_env \<Rightarrow> (int \<Rightarrow> 'w \<Rightarrow> 'w) \<Rightarrow> renewal_request \<Rightarrow> nat \<Rightarrow> nat \<Rightarrow> renewal_result option \<Rightarrow>
    'w renewal_tables \<Rightarrow> renewal_result option \<times> 'w renewal_tables" where
  "renewal_attempts env sleep req attempt 0 prev st = (prev, st)"
| "renewal_attempts env sleep req attempt (Suc n) prev st =
     (let (r, st1) = executeRenewal env req st
      in if rz_success r then (Some r, st1)
         else if isRetryable (rz_failureReason r)
         then renewal_attempts env sleep req (attempt + 1) n (Some r) (st1\<lparr>rn_world := sleep (calculateBackoff attempt) (rn_world st1)\<rparr>)
         else (Some r, st1))"

definition executeRenewalWithRetry :: "'w renewal_env \<Rightarrow> (int \<Rightarrow> 'w \<Rightarrow> 'w) \<Rightarrow> renewal_request \<Rightarrow> nat \<Rightarrow> 'w renewal_tables \<Rightarrow>
    renewal_result option \<times> 'w renewal_tables" where
  "executeRenewalWithRetry env sleep req maxRetries st = renewal_attempts env sleep req 1 maxRetries None st"

end
