(* ===== verification/RenewalQueue.thy ===== *)
theory RenewalQueue
  imports Renewal
begin

text \<open>
  Renewals under an idempotency key: \<open>backend/src/services/renewal-execution-orchestrator.ts\<close> looks up
  the attempts that are kept under the key, takes the lock of the cycle, records an attempt, runs the
  executor and records how it ended; \<open>renewal-dead-letter-service.ts\<close> keeps the attempts and the
  renewals that are stuck, in tables whose keys are unique.  A statement succeeds or not as the world
  of the executor says.
\<close>

record renewal_order =
  oq_subscriptionId :: ident
  oq_userId :: ident
  oq_approvalId :: ident
  oq_amount :: amount
  oq_billingDate :: "millis option option"

record renewal_response =
  rp_success :: bool
  rp_subscriptionId :: ident
  rp_idempotencyKey :: string
  rp_cycleId :: int
  rp_transactionHash :: "string option"
  rp_skipped :: bool
  rp_reason :: "string option"
  rp_error :: "string option"
  rp_failureReason :: "string option"

datatype attempt_status = Attempt_pending | Attempt_processing | Attempt_success | Attempt_failed | Attempt_skipped

text \<open>The result kept with an attempt: a response, or the message of an exception.\<close>

datatype attempt_result = Attempt_response renewal_response | Attempt_error string

record renewal_attempt =
  at_subscription_id :: ident
  at_user_id :: ident
  at_cycle_id :: int
  at_idempotency_key :: string
  at_status :: attempt_status
  at_lock_holder :: string
  at_result :: "attempt_result option"

record dead_renewal =
  dr_subscription_id :: ident
  dr_user_id :: ident
  dr_cycle_id :: int
  dr_idempotency_key :: string
  dr_approval_id :: ident
  dr_amount :: amount
  dr_failure_count :: nat
  dr_last_error_message :: "string option"
  dr_last_failure_reason :: string
  dr_dead_letter_at :: millis

record 'w queue_env =
  qe_renewal :: "'w renewal_env"
  qe_idem :: "'w idem_env"
  qe_redis :: "'w \<Rightarrow> redis_reply \<times> 'w"
  qe_token :: "'w \<Rightarrow> string \<times> 'w"
  qe_lockTtl :: int
  qe_lockHolder :: string

record 'w queue_state =
  qs_tables :: "'w renewal_tables"
  qs_attempts :: "renewal_attempt list"
  qs_dead :: "dead_renewal list"
  qs_locks :: redis_locks
  qs_responses :: "idem_record list"

definition queue_world :: "'w queue_state \<Rightarrow> 'w" where
  "queue_world st = rn_world (qs_tables st)"

definition set_world :: "'w \<Rightarrow> 'w queue_state \<Rightarrow> 'w queue_state" where
  "set_world w st = st\<lparr>qs_tables := (qs_tables st)\<lparr>rn_world := w\<rparr>\<rparr>"

definition queue_now :: "'w queue_env \<Rightarrow> 'w queue_state \<Rightarrow> millis" where
  "queue_now env st = xe_now (qe_renewal env) (queue_world st)"

text \<open>A query or a write: whether it succeeds.\<close>

definition queue_query :: "'w queue_env \<Rightarrow> 'w queue_state \<Rightarrow> bool \<times> 'w queue_state" where
  "queue_query env st = (let (ok, w) = xe_query (qe_renewal env) (queue_world st) in (ok, set_world w st))"

definition queue_write :: "'w queue_env \<Rightarrow> 'w queue_state \<Rightarrow> bool \<times> 'w queue_state" where
  "queue_write env st = (let (ok, w) = xe_write (qe_renewal env) (queue_world st) in (ok, set_world w st))"

section \<open>Attempts and dead letters\<close>

definition attempt_of :: "string \<Rightarrow> renewal_attempt list \<Rightarrow> renewal_attempt option" where
  "attempt_of key rows = find (\<lambda>a. at_idempotency_key a = key) rows"

text \<open>A key that is taken is refused by the unique index; then the row that has it is returned.\<close>

definition recordAttempt :: "'w queue_env \<Rightarrow> ident \<Rightarrow> ident \<Rightarrow> int \<Rightarrow> string \<Rightarrow> 'w queue_state \<Rightarrow> renewal_attempt option \<times> 'w queue_state" where
  "recordAttempt env sub user cycle key st =
     (let (ok, st1) = queue_write env st;
          a = \<lparr>at_subscription_id = sub, at_user_id = user, at_cycle_id = cycle, at_idempotency_key = key, at_status = Attempt_processing,
             at_lock_holder = qe_lockHolder env, at_result = None\<rparr>
      in if \<not> ok then (None, st1)
         else (case attempt_of key (qs_attempts st1) of
             None \<Rightarrow> (Some a, st1\<lparr>qs_attempts := qs_attempts st1 @ [a]\<rparr>)
           | Some old \<Rightarrow> (let (found, st2) = queue_query env st1 in (if found then Some old else None, st2))))"

definition updateAttemptStatus :: "'w queue_env \<Rightarrow> string \<Rightarrow> attempt_status \<Rightarrow> attempt_result \<Rightarrow> 'w queue_state \<Rightarrow> 'w queue_state" where
  "updateAttemptStatus env key status res st =
     (let (ok, st1) = queue_write env st
      in if ok then st1\<lparr>qs_attempts := map (\<lambda>a. if at_idempotency_key a = key then a\<lparr>at_status := status, at_result := Some res\<rparr> else a) (qs_attempts st1)\<rparr>
         else st1)"

definition getAttemptByKey :: "'w queue_env \<Rightarrow> string \<Rightarrow> 'w queue_state \<Rightarrow> renewal_attempt option \<times> 'w queue_state" where
  "getAttemptByKey env key st = (let (ok, st1) = queue_query env st in (if ok then attempt_of key (qs_attempts st) else None, st1))"

definition dead_of :: "string \<Rightarrow> dead_renewal list \<Rightarrow> dead_renewal option" where
  "dead_of key rows = find (\<lambda>d. dr_idempotency_key d = key) rows"

text \<open>
  The number of failures of the row that is there, or a new row; an exception when the statement fails
  or the index refuses the row.  The row that was found is updated by its id; its key is unique as well.
\<close>

definition moveToDeadLetter :: "'w queue_env \<Rightarrow> dead_renewal \<Rightarrow> 'w queue_state \<Rightarrow> (string + unit) \<times> 'w queue_state" where
  "moveToDeadLetter env d st =
     (let key = dr_idempotency_key d; (ok, st1) = queue_query env st; (landed, st2) = queue_write env st1; now = queue_now env st1
      in case (if ok then dead_of key (qs_dead st) else None) of
           Some old \<Rightarrow>
             if landed
             then (Inr (), st2\<lparr>qs_dead := map (\<lambda>x. if dr_idempotency_key x = key
                then x\<lparr>dr_failure_count := dr_failure_count old + 1, dr_last_failure_reason := dr_last_failure_reason d,
                       dr_last_error_message := dr_last_error_message d, dr_dead_letter_at := now\<rparr>
                else x) (qs_dead st)\<rparr>)
             else (Inl ''update failed'', st2)
         | None \<Rightarrow>
             if landed \<and> dead_of key (qs_dead st) = None
             then (Inr (), st2\<lparr>qs_dead := qs_dead st @ [d\<lparr>dr_failure_count := 1, dr_dead_letter_at := now\<rparr>]\<rparr>)
             else (Inl ''insert failed'', st2))"

definition getUserDeadLetters :: "'w queue_env \<Rightarrow> ident \<Rightarrow> 'w queue_state \<Rightarrow> (string + dead_renewal list) \<times> 'w queue_state" where
  "getUserDeadLetters env user st =
     (let (ok, st1) = queue_query env st
      in (if ok then Inr (sort_key (\<lambda>d. - dr_dead_letter_at d) (filter (\<lambda>d. dr_user_id d = user) (qs_dead st))) else Inl ''query failed'', st1))"

text \<open>All, those of a day and those of a week; a count that fails is 0.\<close>

definition getDeadLetterStats :: "'w queue_env \<Rightarrow> 'w queue_state \<Rightarrow> (nat \<times> nat \<times> nat) \<times> 'w queue_state" where
  "getDeadLetterStats env st =
     (let now = queue_now env st; (a, st1) = queue_query env st; (b, st2) = queue_query env st1; (c, st3) = queue_query env st2;
          since = (\<lambda>t. length (filter (\<lambda>d. t \<le> dr_dead_letter_at d) (qs_dead st)))
      in ((if a then length (qs_dead st) else 0, if b then since (now - ms_per_day) else 0, if c then since (now - 7 * ms_per_day) else 0), st3))"

section \<open>The orchestrator\<close>

definition resolveBillingDate :: "'w queue_env \<Rightarrow> ident \<Rightarrow> 'w queue_state \<Rightarrow> millis \<times> 'w queue_state" where
  "resolveBillingDate env sub st =
     (let (found, t) = query_single (qe_renewal env) (\<lambda>s. filter (\<lambda>b. rb_id b = sub) (rn_subs s)) (qs_tables st); st1 = st\<lparr>qs_tables := t\<rparr>
      in (case found of Some b \<Rightarrow> rb_next_billing_date b | None \<Rightarrow> queue_now env st1, st1))"

definition key_payload :: "renewal_order \<Rightarrow> int \<Rightarrow> json" where
  "key_payload req cycle =
     JObj [(''subscriptionId'', JStr (oq_subscriptionId req)), (''approvalId'', JStr (oq_approvalId req)), (''amount'', JNum (oq_amount req)),
           (''cycleId'', JNum (of_int cycle))]"

definition renewal_key :: "'w queue_env \<Rightarrow> renewal_order \<Rightarrow> int \<Rightarrow> string" where
  "renewal_key env req cycle =
     generateKey (qe_idem env) (oq_userId req) (''renewal:'' @ oq_subscriptionId req @ '':'' @ show_int cycle) (key_payload req cycle)"

text \<open>The response kept with an attempt that succeeded, marked as skipped.  Only responses are kept with success.\<close>

definition cached_response :: "renewal_attempt option \<Rightarrow> renewal_response option" where
  "cached_response found =
     (case found of
        Some a \<Rightarrow> (case (at_status a, at_result a) of
            (Attempt_success, Some (Attempt_response r)) \<Rightarrow> Some (r\<lparr>rp_skipped := True, rp_reason := Some ''already_processed''\<rparr>)
          | _ \<Rightarrow> None)
      | None \<Rightarrow> None)"

text \<open>Up to the lock: cycle, key and the cached response; an invalid date is an exception.\<close>

definition renewal_lookup :: "'w queue_env \<Rightarrow> renewal_order \<Rightarrow> 'w queue_state \<Rightarrow> (string + int \<times> string \<times> renewal_response option) \<times> 'w queue_state" where
  "renewal_lookup env req st =
     (let (date, st1) = (case oq_billingDate req of
            Some d \<Rightarrow> (d, st)
          | None \<Rightarrow> (let (t, s) = resolveBillingDate env (oq_subscriptionId req) st in (Some t, s)))
      in case generateCycleId date of
           Inl e \<Rightarrow> (Inl e, st1)
         | Inr cycle \<Rightarrow>
             (let key = renewal_key env req cycle; (found, st2) = getAttemptByKey env key st1
              in (Inr (cycle, key, cached_response found), st2)))"

definition renewal_response_of :: "renewal_order \<Rightarrow> int \<Rightarrow> string \<Rightarrow> renewal_result \<Rightarrow> renewal_response" where
  "renewal_response_of req cycle key r =
     \<lparr>rp_success = rz_success r, rp_subscriptionId = oq_subscriptionId req, rp_idempotencyKey = key, rp_cycleId = cycle,
      rp_transactionHash = rz_transactionHash r, rp_skipped = False, rp_reason = None, rp_error = rz_error r, rp_failureReason = rz_failureReason r\<rparr>"

definition dead_letter_of :: "renewal_order \<Rightarrow> int \<Rightarrow> string \<Rightarrow> string \<Rightarrow> string option \<Rightarrow> dead_renewal" where
  "dead_letter_of req cycle key reason msg =
     \<lparr>dr_subscription_id = oq_subscriptionId req, dr_user_id = oq_userId req, dr_cycle_id = cycle, dr_idempotency_key = key,
      dr_approval_id = oq_approvalId req, dr_amount = oq_amount req, dr_failure_count = 1, dr_last_error_message = msg,
      dr_last_failure_reason = reason, dr_dead_letter_at = 0\<rparr>"

definition response_json :: "renewal_response \<Rightarrow> json" where
  "response_json r =
     JObj ([(''success'', JBool (rp_success r)), (''subscriptionId'', JStr (rp_subscriptionId r)), (''idempotencyKey'', JStr (rp_idempotencyKey r)),
        (''cycleId'', JNum (of_int (rp_cycleId r)))] @
        (case rp_transactionHash r of None \<Rightarrow> [] | Some t \<Rightarrow> [(''transactionHash'', JStr t)]))"

definition store_renewal_response :: "'w queue_env \<Rightarrow> renewal_order \<Rightarrow> int \<Rightarrow> string \<Rightarrow> renewal_response \<Rightarrow> 'w queue_state \<Rightarrow> 'w queue_state" where
  "store_renewal_response env req cycle key resp st =
     (let s = storeResponse (qe_idem env) key (oq_userId req) (hashRequest (qe_idem env) (key_payload req cycle)) 200 (response_json resp) UNSCOPED_ROUTE
            \<lparr>is_rows = qs_responses st, is_world = queue_world st\<rparr>
      in set_world (is_world s) (st\<lparr>qs_responses := is_rows s\<rparr>))"

text \<open>An exception of the dead letter table is caught once and then reaches the caller.\<close>

definition renewal_caught :: "'w queue_env \<Rightarrow> renewal_order \<Rightarrow> int \<Rightarrow> string \<Rightarrow> string \<Rightarrow> 'w queue_state \<Rightarrow> (string + renewal_response) \<times> 'w queue_state" where
  "renewal_caught env req cycle key e st =
     (case moveToDeadLetter env (dead_letter_of req cycle key ''execution_error'' (Some e)) (updateAttemptStatus env key Attempt_failed (Attempt_error e) st) of
        (Inl e', st') \<Rightarrow> (Inl e', st')
      | (Inr _, st') \<Rightarrow> (Inr (renewal_response_of req cycle key
            \<lparr>rz_success = False, rz_transactionHash = None, rz_error = Some e, rz_failureReason = Some ''execution_error''\<rparr>), st'))"

definition renewal_attempted :: "'w queue_env \<Rightarrow> renewal_order \<Rightarrow> int \<Rightarrow> string \<Rightarrow> 'w queue_state \<Rightarrow> (string + renewal_response) \<times> 'w queue_state" where
  "renewal_attempted env req cycle key st =
     (let (_, st1) = recordAttempt env (oq_subscriptionId req) (oq_userId req) cycle key st;
          (r, t) = executeRenewal (qe_renewal env)
            \<lparr>rr_subscriptionId = oq_subscriptionId req, rr_userId = oq_userId req, rr_approvalId = oq_approvalId req, rr_amount = oq_amount req\<rparr> (qs_tables st1);
          st2 = st1\<lparr>qs_tables := t\<rparr>; resp = renewal_response_of req cycle key r
      in if rz_success r
         then (Inr resp, store_renewal_response env req cycle key resp (updateAttemptStatus env key Attempt_success (Attempt_response resp) st2))
         else (let st3 = updateAttemptStatus env key Attempt_failed (Attempt_response resp) st2
           in if isRetryable (rz_failureReason r)
              then (case moveToDeadLetter env (dead_letter_of req cycle key (the (rz_failureReason r)) (rz_error r)) st3 of
                  (Inl e, st4) \<Rightarrow> renewal_caught env req cycle key e st4
                | (Inr _, st4) \<Rightarrow> (Inr resp, st4))
              else (Inr resp, st3)))"

text \<open>Under the lock, or without it when Redis does not answer.\<close>

definition renewal_locked :: "'w queue_env \<Rightarrow> renewal_order \<Rightarrow> int \<Rightarrow> string \<Rightarrow> 'w queue_state \<Rightarrow> (string + renewal_response) \<times> 'w queue_state" where
  "renewal_locked env req cycle key st =
     (let (redis, w1) = qe_redis env (queue_world st); (token, w2) = qe_token env w1; sub = oq_subscriptionId req;
          (res, locks) = acquire_lock redis token (xe_now (qe_renewal env) w2) sub cycle (qe_lockTtl env) (qs_locks st);
          st1 = set_world w2 (st\<lparr>qs_locks := locks\<rparr>)
      in case res of
           Lock_contention \<Rightarrow>
             (Inr \<lparr>rp_success = False, rp_subscriptionId = sub, rp_idempotencyKey = key, rp_cycleId = cycle, rp_transactionHash = None, rp_skipped = True,
                rp_reason = Some ''lock_contention'', rp_error = Some ''Another worker is processing this renewal'', rp_failureReason = None\<rparr>, st1)
         | Lock_unavailable \<Rightarrow> renewal_attempted env req cycle key st1
         | Lock_acquired tok \<Rightarrow>
             (let (x, st2) = renewal_attempted env req cycle key st1; (redis', w3) = qe_redis env (queue_world st2);
                  (_, locks') = release_lock redis' (xe_now (qe_renewal env) w3) sub cycle tok (qs_locks st2)
              in (x, set_world w3 (st2\<lparr>qs_locks := locks'\<rparr>))))"

definition executeIdempotentRenewal :: "'w queue_env \<Rightarrow> renewal_order \<Rightarrow> 'w queue_state \<Rightarrow> (string + renewal_response) \<times> 'w queue_state" where
  "executeIdempotentRenewal env req st =
     (case renewal_lookup env req st of
        (Inl e, st1) \<Rightarrow> (Inl e, st1)
      | (Inr (cycle, key, Some cached), st1) \<Rightarrow> (Inr cached, st1)
      | (Inr (cycle, key, None), st1) \<Rightarrow> renewal_locked env req cycle key st1)"

end
