(* ===== verification/RenewalProps.thy ===== *)
theory RenewalProps
  imports Renewal
begin

text \<open>
  What the executor promises over histories: a subscription is renewed at most once in three weeks,
  whatever requests, retries and approvals there are; and what it does not.
\<close>

section \<open>The laws\<close>

definition renewal_clock_ok :: "'w renewal_env \<Rightarrow> bool" where
  "renewal_clock_ok env \<longleftrightarrow>
     (\<forall>w. xe_now env w \<le> xe_now env (snd (xe_query env w)) \<and> xe_now env w \<le> xe_now env (snd (xe_write env w)) \<and>
        (\<forall>u. xe_now env w \<le> xe_now env (snd (xe_profile env u w))) \<and>
        (\<forall>u a. xe_now env w \<le> xe_now env (snd (xe_findPayable env u a w))) \<and>
        (\<forall>c u i a. xe_now env w \<le> xe_now env (snd (xe_applyPayment env c u i a w))) \<and>
        (\<forall>x. xe_now env w \<le> xe_now env (snd (xe_enqueue env x w))) \<and>
        (\<forall>u i d. xe_now env w \<le> xe_now env (snd (xe_sync env u i d w))))"

definition updates_land :: "'w renewal_env \<Rightarrow> bool" where
  "updates_land env \<longleftrightarrow> (\<forall>w. fst (xe_write env w))"

definition renewal_now :: "'w renewal_env \<Rightarrow> 'w renewal_tables \<Rightarrow> millis" where
  "renewal_now env st = xe_now env (rn_world st)"

text \<open>Time passes and the subscriptions stay as they are.\<close>

definition quiet :: "'w renewal_env \<Rightarrow> 'w renewal_tables \<Rightarrow> 'w renewal_tables \<Rightarrow> bool" where
  "quiet env st st' \<longleftrightarrow> rn_subs st' = rn_subs st \<and> renewal_now env st \<le> renewal_now env st'"

lemma quiet_trans: "quiet env a b \<Longrightarrow> quiet env b c \<Longrightarrow> quiet env a c"
  by (auto simp: quiet_def)

lemma clock_steps:
  "xe_query env w = (x, w') \<Longrightarrow> renewal_clock_ok env \<Longrightarrow> xe_now env w \<le> xe_now env w'"
  "xe_write env w = (x, w') \<Longrightarrow> renewal_clock_ok env \<Longrightarrow> xe_now env w \<le> xe_now env w'"
  "xe_profile env u w = (r, w') \<Longrightarrow> renewal_clock_ok env \<Longrightarrow> xe_now env w \<le> xe_now env w'"
  "xe_findPayable env u a w = (f, w') \<Longrightarrow> renewal_clock_ok env \<Longrightarrow> xe_now env w \<le> xe_now env w'"
  "xe_applyPayment env c u i a w = (p, w') \<Longrightarrow> renewal_clock_ok env \<Longrightarrow> xe_now env w \<le> xe_now env w'"
  "xe_enqueue env y w = (q, w') \<Longrightarrow> renewal_clock_ok env \<Longrightarrow> xe_now env w \<le> xe_now env w'"
  "xe_sync env u i d w = (z, w') \<Longrightarrow> renewal_clock_ok env \<Longrightarrow> xe_now env w \<le> xe_now env w'"
  unfolding renewal_clock_ok_def by (metis snd_conv)+

lemma query_quiet: "query_single env rows st = (x, st') \<Longrightarrow> renewal_clock_ok env \<Longrightarrow> quiet env st st'"
  by (auto simp: query_single_def quiet_def renewal_now_def Let_def dest: clock_steps(1) split: prod.splits)

lemma approval_quiet: "checkApproval env i a amt st = (x, st') \<Longrightarrow> renewal_clock_ok env \<Longrightarrow> quiet env st st'"
  by (auto simp: checkApproval_def Let_def dest: query_quiet split: prod.splits)

lemma window_quiet: "validateBillingWindow env i st = (x, st') \<Longrightarrow> renewal_clock_ok env \<Longrightarrow> quiet env st st'"
  by (auto simp: validateBillingWindow_def Let_def dest: query_quiet split: prod.splits)

lemma stealth_quiet: "stealth_address env req st = (x, st') \<Longrightarrow> renewal_clock_ok env \<Longrightarrow> quiet env st st'"
  by (auto simp: stealth_address_def resolveStealthMetaAddress_def quiet_def renewal_now_def Let_def dest: clock_steps(3) split: prod.splits if_splits)

lemma channel_quiet: "tryChannelRenewal env req st = (x, st') \<Longrightarrow> renewal_clock_ok env \<Longrightarrow> quiet env st st'"
  by (auto simp: tryChannelRenewal_def quiet_def renewal_now_def split: prod.splits if_splits sum.splits option.splits dest: clock_steps(4,5))
     (blast dest: clock_steps(4,5) intro: order_trans)+

lemma contract_quiet: "triggerContractRenewal env req addr st = (x, st') \<Longrightarrow> renewal_clock_ok env \<Longrightarrow> quiet env st st'"
  by (auto simp: triggerContractRenewal_def quiet_def renewal_now_def dest: clock_steps(7) split: prod.splits sum.splits)

lemma log_quiet: "renewal_clock_ok env \<Longrightarrow> quiet env st (insert_renewal_log env row st)"
  by (auto simp: insert_renewal_log_def quiet_def renewal_now_def Let_def dest: clock_steps(2) split: prod.splits)

text \<open>What a renewal does to the subscriptions.\<close>

definition renewed_row :: "'w renewal_env \<Rightarrow> ident \<Rightarrow> billing_cycle \<Rightarrow> string option \<Rightarrow> millis \<Rightarrow> renewal_sub \<Rightarrow> renewal_sub" where
  "renewed_row env i cycle tx now b =
     (if rb_id b = i
      then b\<lparr>rb_status := ''active'', rb_next_billing_date := next_billing (xe_fns env) cycle now, rb_last_renewal_date := Some now,
             rb_last_transaction_hash := (case tx of None \<Rightarrow> rb_last_transaction_hash b | _ \<Rightarrow> tx)\<rparr>
      else b)"

lemma renewed_row_simps [simp]:
  "rb_id (renewed_row env i cycle tx now b) = rb_id b"
  "rb_next_billing_date (renewed_row env i cycle tx now b) = (if rb_id b = i then next_billing (xe_fns env) cycle now else rb_next_billing_date b)"
  by (simp_all add: renewed_row_def)

definition renews :: "'w renewal_env \<Rightarrow> ident \<Rightarrow> 'w renewal_tables \<Rightarrow> 'w renewal_tables \<Rightarrow> bool" where
  "renews env i st st' \<longleftrightarrow> renewal_now env st \<le> renewal_now env st' \<and>
     (\<exists>cycle tx now. renewal_now env st \<le> now \<and> rn_subs st' = map (renewed_row env i cycle tx now) (rn_subs st))"

lemma quiet_renews: "quiet env a b \<Longrightarrow> renews env i b c \<Longrightarrow> renews env i a c"
  unfolding quiet_def renews_def by (metis order_trans)

lemma renews_quiet: "renews env i a b \<Longrightarrow> quiet env b c \<Longrightarrow> renews env i a c"
  unfolding quiet_def renews_def by (metis order_trans)

lemma update_renews:
  assumes "renewal_clock_ok env" and "updates_land env"
  shows "renews env i st (updateSubscription env i cycle tx st)"
proof -
  obtain w where w: "xe_write env (rn_world st) = (True, w)" using assms(2) by (cases "xe_write env (rn_world st)") (auto simp: updates_land_def dest: spec [of _ "rn_world st"])
  have "rn_subs (updateSubscription env i cycle tx st) = map (renewed_row env i cycle tx (renewal_now env st)) (rn_subs st)"
    by (simp add: updateSubscription_def w renewed_row_def [abs_def] renewal_now_def Let_def)
  moreover have "renewal_now env st \<le> renewal_now env (updateSubscription env i cycle tx st)"
    using clock_steps(2) [OF w assms(1)] by (simp add: updateSubscription_def w renewal_now_def Let_def)
  ultimately show ?thesis unfolding renews_def by blast
qed

lemma finish_renews:
  assumes "renewal_clock_ok env" and "updates_land env" and "quiet env st st1"
  shows "renews env (rr_subscriptionId req) st (logSuccess env req tx stealth (updateSubscription env (rr_subscriptionId req) cycle tx' st1))"
  unfolding logSuccess_def by (rule renews_quiet [OF quiet_renews [OF assms(3) update_renews [OF assms(1,2)]] log_quiet [OF assms(1)]])

lemma failure_quiet:
  assumes "renewal_clock_ok env" and "quiet env st st1"
  shows "\<not> rz_success (fst (logFailure env req reason msg st1)) \<and> quiet env st (snd (logFailure env req reason msg st1))"
  using quiet_trans [OF assms(2) log_quiet [OF assms(1)]] by (simp add: logFailure_def)

text \<open>The outcome of a renewal.\<close>

definition renewal_outcome :: "'w renewal_env \<Rightarrow> ident \<Rightarrow> 'w renewal_tables \<Rightarrow> renewal_result \<times> 'w renewal_tables \<Rightarrow> bool" where
  "renewal_outcome env i st x \<longleftrightarrow> (if rz_success (fst x) then renews env i st (snd x) else quiet env st (snd x))"

lemma pay_outcome:
  assumes "renewal_clock_ok env" and "updates_land env" and "quiet env st0 st"
  shows "renewal_outcome env (rr_subscriptionId req) st0 (pay_renewal env req cycle st)"
proof -
  obtain stealth st1 where s1: "stealth_address env req st = (stealth, st1)" by fastforce
  obtain used st2 where s2: "tryChannelRenewal env req st1 = (used, st2)" by fastforce
  have q: "quiet env st0 st2"
    using quiet_trans [OF assms(3) quiet_trans [OF stealth_quiet [OF s1 assms(1)] channel_quiet [OF s2 assms(1)]]] .
  note fin = finish_renews [OF assms(1,2)] and fail = failure_quiet [OF assms(1)]
  show ?thesis
  proof (cases used)
    case True
    then show ?thesis using fin [OF q] by (simp add: pay_renewal_def s1 s2 renewal_outcome_def)
  next
    case False
    obtain e w where e: "xe_enqueue env (renewal_settlement req stealth) (rn_world st2) = (e, w)" by fastforce
    have q3: "quiet env st0 (st2\<lparr>rn_world := w\<rparr>)"
      using quiet_trans [OF q, of "st2\<lparr>rn_world := w\<rparr>"] clock_steps(6) [OF e assms(1)] by (simp add: quiet_def renewal_now_def)
    obtain r st4 where r: "triggerContractRenewal env req (map_option fst stealth) (st2\<lparr>rn_world := w\<rparr>) = (r, st4)" by fastforce
    have q4: "quiet env st0 st4" using quiet_trans [OF q3 contract_quiet [OF r assms(1)]] .
    show ?thesis using False fail [OF q3] fail [OF q4] fin [OF q4]
      by (cases e) (auto simp: pay_renewal_def s1 s2 e r renewal_outcome_def)
  qed
qed

lemma execute_outcome:
  assumes "renewal_clock_ok env" and "updates_land env"
  shows "renewal_outcome env (rr_subscriptionId req) st (executeRenewal env req st)"
proof -
  obtain x st1 where x: "checkApproval env (rr_subscriptionId req) (rr_approvalId req) (rr_amount req) st = (x, st1)" by fastforce
  obtain y st2 where y: "validateBillingWindow env (rr_subscriptionId req) st1 = (y, st2)" by fastforce
  note q1 = approval_quiet [OF x assms(1)]
  note q2 = quiet_trans [OF q1 window_quiet [OF y assms(1)]]
  show ?thesis using failure_quiet [OF assms(1) q1] failure_quiet [OF assms(1) q2] pay_outcome [OF assms q2]
    by (cases x; cases y) (auto simp: executeRenewal_def x y renewal_outcome_def)
qed

section \<open>Three weeks\<close>

text \<open>The billing dates lie a month after some time that has passed.\<close>

lemma months_gap: "months_later n t u \<Longrightarrow> 1 \<le> n \<Longrightarrow> t + 28 * ms_per_day \<le> u"
proof -
  assume m: "months_later n t u" "1 \<le> n"
  let ?i = "month_index t"
  have "month_start ?i + month_length ?i \<le> month_start (?i + n)" using m(2) by (intro month_start_mono) simp
  then have "t div ms_per_day + 28 \<le> u div ms_per_day"
    using m(1) parts_day [of t] parts_day [of u] date_range [of t] month_length_range(1) [of ?i] month_length_range(1) [of "?i + n"]
    by (simp add: months_later_def min_def split: if_splits)
  then have "(t div ms_per_day + 28) * ms_per_day \<le> u div ms_per_day * ms_per_day" by (rule mult_right_mono) (simp add: ms_per_day_def)
  moreover have "u mod ms_per_day = t mod ms_per_day" using m(1) by (simp add: months_later_def)
  ultimately show ?thesis
    using div_mult_mod_eq [of t ms_per_day] div_mult_mod_eq [of u ms_per_day] unfolding distrib_right by linarith
qed

lemma next_billing_gap: "add_calendar_ok fns \<Longrightarrow> t + 28 * ms_per_day \<le> next_billing fns cycle t"
  by (cases cycle) (auto simp: next_billing_def add_calendar_ok_def intro: months_gap)

text \<open>A renewal that succeeds has found its subscription within a week of the billing date.\<close>

definition due_within :: "'w renewal_env \<Rightarrow> ident \<Rightarrow> 'w renewal_tables \<Rightarrow> 'w renewal_tables \<Rightarrow> bool" where
  "due_within env i st st' \<longleftrightarrow>
     (\<exists>b\<in>set (rn_subs st). rb_id b = i \<and> rb_next_billing_date b \<le> renewal_now env st' + 7 * ms_per_day)"

lemma query_found: "query_single env rows st = (Some r, st') \<Longrightarrow> r \<in> set (rows st)"
  by (auto simp: query_single_def Let_def split: prod.splits if_splits list.splits)

lemma days_until_le: "days_until now t \<le> 7 \<longleftrightarrow> t \<le> now + 7 * ms_per_day"
proof -
  have "days_until now t \<le> 7 \<longleftrightarrow> - 7 \<le> (now - t) div ms_per_day" by (auto simp: days_until_def)
  also have "\<dots> \<longleftrightarrow> - 7 * ms_per_day \<le> now - t"
  proof
    assume "- 7 \<le> (now - t) div ms_per_day"
    then have "- 7 * ms_per_day \<le> (now - t) div ms_per_day * ms_per_day" by (rule mult_right_mono) (simp add: ms_per_day_def)
    then show "- 7 * ms_per_day \<le> now - t"
      using div_mult_mod_eq [of "now - t" ms_per_day] pos_mod_sign [of ms_per_day "now - t"] by (simp add: ms_per_day_def)
  next
    assume "- 7 * ms_per_day \<le> now - t"
    then have "- 7 * ms_per_day div ms_per_day \<le> (now - t) div ms_per_day" by (rule zdiv_mono1) (simp add: ms_per_day_def)
    then show "- 7 \<le> (now - t) div ms_per_day" by (simp add: ms_per_day_def)
  qed
  finally show ?thesis by (simp add: algebra_simps)
qed

lemma window_due:
  assumes "validateBillingWindow env i st = (Inr cycle, st')"
  shows "\<exists>b\<in>set (rn_subs st). rb_id b = i \<and> rb_next_billing_date b \<le> renewal_now env st' + 7 * ms_per_day"
proof -
  obtain b where q: "query_single env (\<lambda>s. filter (\<lambda>b. rb_id b = i) (rn_subs s)) st = (Some b, st')"
    and d: "days_until (xe_now env (rn_world st')) (rb_next_billing_date b) \<le> 7"
    using assms by (auto simp: validateBillingWindow_def Let_def split: prod.splits option.splits if_splits)
  show ?thesis using query_found [OF q] d by (auto simp: days_until_le renewal_now_def)
qed

lemma pay_clock:
  assumes "renewal_clock_ok env" and "updates_land env"
  shows "renewal_now env st \<le> renewal_now env (snd (pay_renewal env req cycle st))"
proof -
  have "quiet env st st" by (simp add: quiet_def)
  from pay_outcome [OF assms this, of req cycle] show ?thesis by (auto simp: renewal_outcome_def renews_def quiet_def split: if_splits)
qed

lemma execute_due:
  assumes "renewal_clock_ok env" and "updates_land env" and "executeRenewal env req st = (r, st')" and "rz_success r"
  shows "due_within env (rr_subscriptionId req) st st'"
proof -
  obtain x st1 where x: "checkApproval env (rr_subscriptionId req) (rr_approvalId req) (rr_amount req) st = (x, st1)" by fastforce
  obtain y st2 where y: "validateBillingWindow env (rr_subscriptionId req) st1 = (y, st2)" by fastforce
  have n: "x = None" using assms(3,4) by (auto simp: executeRenewal_def x logFailure_def split: option.splits)
  then obtain cycle where c: "y = Inr cycle" using assms(3,4) by (cases y) (auto simp: executeRenewal_def x y logFailure_def)
  then have p: "pay_renewal env req cycle st2 = (r, st')" using assms(3) n by (simp add: executeRenewal_def x y)
  have "rn_subs st1 = rn_subs st" using approval_quiet [OF x assms(1)] by (simp add: quiet_def)
  then show ?thesis
    using window_due [OF y [unfolded c]] pay_clock [OF assms(1,2), of st2 req cycle] unfolding due_within_def p by fastforce
qed

text \<open>The same of a renewal with its retries.\<close>

definition sleep_ok :: "'w renewal_env \<Rightarrow> (int \<Rightarrow> 'w \<Rightarrow> 'w) \<Rightarrow> bool" where
  "sleep_ok env sleep \<longleftrightarrow> (\<forall>d w. xe_now env w \<le> xe_now env (sleep d w))"

definition renewal_done :: "renewal_result option \<Rightarrow> bool" where
  "renewal_done r = (case r of None \<Rightarrow> False | Some x \<Rightarrow> rz_success x)"

definition retried_outcome :: "'w renewal_env \<Rightarrow> ident \<Rightarrow> 'w renewal_tables \<Rightarrow> renewal_result option \<times> 'w renewal_tables \<Rightarrow> bool" where
  "retried_outcome env i st x \<longleftrightarrow>
     (if renewal_done (fst x) then renews env i st (snd x) \<and> due_within env i st (snd x) else quiet env st (snd x))"

lemma outcome_after_quiet: "quiet env a b \<Longrightarrow> retried_outcome env i b x \<Longrightarrow> retried_outcome env i a x"
  by (auto simp: retried_outcome_def due_within_def intro: quiet_renews quiet_trans split: if_splits) (auto simp: quiet_def)

lemma attempts_outcome:
  assumes "renewal_clock_ok env" and "updates_land env" and "sleep_ok env sleep" and "\<not> renewal_done prev"
  shows "retried_outcome env (rr_subscriptionId req) st (renewal_attempts env sleep req a n prev st)"
  using assms(4)
proof (induction n arbitrary: a prev st)
  case 0
  then show ?case by (simp add: retried_outcome_def quiet_def)
next
  case (Suc n)
  obtain r st1 where r: "executeRenewal env req st = (r, st1)" by fastforce
  have o: "renewal_outcome env (rr_subscriptionId req) st (r, st1)" using execute_outcome [OF assms(1,2), of req st] by (simp add: r)
  show ?case
  proof (cases "rz_success r")
    case True
    then show ?thesis using o execute_due [OF assms(1,2) r] by (simp add: r retried_outcome_def renewal_outcome_def renewal_done_def)
  next
    case False
    then have q: "quiet env st st1" using o by (simp add: renewal_outcome_def)
    let ?st2 = "st1\<lparr>rn_world := sleep (calculateBackoff a) (rn_world st1)\<rparr>"
    have "quiet env st ?st2" using quiet_trans [OF q, of ?st2] assms(3) by (simp add: quiet_def renewal_now_def sleep_ok_def)
    moreover have "retried_outcome env (rr_subscriptionId req) ?st2 (renewal_attempts env sleep req (a + 1) n (Some r) ?st2)"
      using False by (intro Suc.IH) (simp add: renewal_done_def)
    ultimately have "retried_outcome env (rr_subscriptionId req) st (renewal_attempts env sleep req (a + 1) n (Some r) ?st2)"
      by (rule outcome_after_quiet)
    then show ?thesis using False q by (simp add: r retried_outcome_def renewal_done_def)
  qed
qed

section \<open>Histories\<close>

text \<open>Renewals with their retries, and anything else that happens to the tables in between.\<close>

datatype 'w renewal_event = Renew renewal_request nat | Meanwhile "'w renewal_tables \<Rightarrow> 'w renewal_tables"

fun renewal_run :: "'w renewal_env \<Rightarrow> (int \<Rightarrow> 'w \<Rightarrow> 'w) \<Rightarrow> 'w renewal_event list \<Rightarrow> 'w renewal_tables \<Rightarrow> ident list \<times> 'w renewal_tables" where
  "renewal_run env sleep [] st = ([], st)"
| "renewal_run env sleep (Meanwhile f # es) st = renewal_run env sleep es (f st)"
| "renewal_run env sleep (Renew req n # es) st =
     (let (r, st1) = executeRenewalWithRetry env sleep req n st; (ids, st2) = renewal_run env sleep es st1
      in (if renewal_done r then rr_subscriptionId req # ids else ids, st2))"

lemma run_renew:
  "executeRenewalWithRetry env sleep req n st = (r, st1) \<Longrightarrow> renewal_run env sleep (Renew req n # es) st =
     ((if renewal_done r then rr_subscriptionId req # fst (renewal_run env sleep es st1) else fst (renewal_run env sleep es st1)),
      snd (renewal_run env sleep es st1))"
  by (simp split: prod.splits)

text \<open>Time does not run backwards and no billing date is brought forward.\<close>

definition not_hastened :: "'w renewal_env \<Rightarrow> 'w renewal_tables \<Rightarrow> 'w renewal_tables \<Rightarrow> bool" where
  "not_hastened env st st' \<longleftrightarrow> renewal_now env st \<le> renewal_now env st' \<and>
     (\<forall>b'\<in>set (rn_subs st'). \<exists>b\<in>set (rn_subs st). rb_id b = rb_id b' \<and> rb_next_billing_date b \<le> rb_next_billing_date b')"

definition fair_event :: "'w renewal_env \<Rightarrow> 'w renewal_event \<Rightarrow> bool" where
  "fair_event env e = (case e of Renew _ _ \<Rightarrow> True | Meanwhile f \<Rightarrow> (\<forall>st. not_hastened env st (f st)))"

definition settled_until :: "ident \<Rightarrow> millis \<Rightarrow> 'w renewal_tables \<Rightarrow> bool" where
  "settled_until i t st \<longleftrightarrow> (\<forall>b\<in>set (rn_subs st). rb_id b = i \<longrightarrow> t \<le> rb_next_billing_date b)"

lemma settled_hastened: "settled_until i t st \<Longrightarrow> not_hastened env st st' \<Longrightarrow> settled_until i t st'"
  unfolding settled_until_def not_hastened_def by (metis order_trans)

lemma settled_quiet: "settled_until i t st \<Longrightarrow> quiet env st st' \<Longrightarrow> settled_until i t st'"
  by (simp add: settled_until_def quiet_def)

lemma renews_settles:
  assumes "renews env i st st'" and "add_calendar_ok (xe_fns env)"
  shows "settled_until i (renewal_now env st + 28 * ms_per_day) st'"
proof -
  obtain cycle tx now where n: "renewal_now env st \<le> now" and s: "rn_subs st' = map (renewed_row env i cycle tx now) (rn_subs st)"
    using assms(1) by (auto simp: renews_def)
  have "renewal_now env st + 28 * ms_per_day \<le> next_billing (xe_fns env) cycle now"
    using next_billing_gap [OF assms(2), of now cycle] n by simp
  then have "rb_id b = i \<longrightarrow> renewal_now env st + 28 * ms_per_day \<le> rb_next_billing_date b" if "b \<in> set (rn_subs st')" for b
    using that unfolding s by auto
  then show ?thesis unfolding settled_until_def by blast
qed

lemma settled_renews:
  assumes "settled_until i t st" and "renews env j st st'" and "j \<noteq> i"
  shows "settled_until i t st'"
proof -
  obtain cycle tx now where s: "rn_subs st' = map (renewed_row env j cycle tx now) (rn_subs st)" using assms(2) by (auto simp: renews_def)
  show ?thesis using assms(1,3) unfolding settled_until_def s by auto
qed

lemma retried_clock: "retried_outcome env i st (r, st1) \<Longrightarrow> renewal_now env st \<le> renewal_now env st1"
  by (auto simp: retried_outcome_def quiet_def renews_def split: if_splits)

lemma retry_outcome:
  assumes "renewal_clock_ok env" and "updates_land env" and "sleep_ok env sleep"
    and "executeRenewalWithRetry env sleep req n st = (r, st1)"
  shows "retried_outcome env (rr_subscriptionId req) st (r, st1)"
  using attempts_outcome [OF assms(1-3), of None req st 1 n] assms(4) by (simp add: executeRenewalWithRetry_def renewal_done_def)

lemma run_clock:
  assumes "renewal_clock_ok env" and "updates_land env" and "sleep_ok env sleep" and "list_all (fair_event env) es"
  shows "renewal_now env st \<le> renewal_now env (snd (renewal_run env sleep es st))"
  using assms(4)
proof (induction es arbitrary: st)
  case (Cons e es)
  show ?case
  proof (cases e)
    case (Meanwhile f)
    then have "renewal_now env st \<le> renewal_now env (f st)" using Cons.prems by (simp add: fair_event_def not_hastened_def)
    then show ?thesis using Cons.IH [of "f st"] Cons.prems Meanwhile by simp
  next
    case (Renew req n)
    obtain r st1 where r: "executeRenewalWithRetry env sleep req n st = (r, st1)" by fastforce
    have "renewal_now env st \<le> renewal_now env st1" using retry_outcome [OF assms(1-3) r] by (rule retried_clock)
    then show ?thesis using Cons.IH [of st1] Cons.prems Renew by (simp add: run_renew [OF r] del: renewal_run.simps)
  qed
qed simp

text \<open>A subscription whose billing date is four weeks away is not renewed in the next three.\<close>

lemma settled_history:
  assumes "renewal_clock_ok env" and "updates_land env" and "sleep_ok env sleep"
    and "list_all (fair_event env) es" and "settled_until i (t + 28 * ms_per_day) st"
    and "renewal_now env (snd (renewal_run env sleep es st)) < t + 21 * ms_per_day"
  shows "i \<notin> set (fst (renewal_run env sleep es st))"
  using assms(4-6)
proof (induction es arbitrary: st)
  case (Cons e es)
  show ?case
  proof (cases e)
    case (Meanwhile f)
    then have "settled_until i (t + 28 * ms_per_day) (f st)"
      using settled_hastened [OF Cons.prems(2)] Cons.prems(1) by (auto simp: fair_event_def)
    then show ?thesis using Cons.IH [of "f st"] Cons.prems Meanwhile by simp
  next
    case (Renew req n)
    obtain r st1 where r: "executeRenewalWithRetry env sleep req n st = (r, st1)" by fastforce
    note o = retry_outcome [OF assms(1-3) r]
    have "renewal_now env st1 < t + 21 * ms_per_day"
      using run_clock [OF assms(1-3), of es st1] Cons.prems Renew by (simp add: run_renew [OF r] del: renewal_run.simps)
    then have u: "\<not> due_within env i st st1" using Cons.prems(2) by (force simp: due_within_def settled_until_def)
    then have ne: "renewal_done r \<Longrightarrow> rr_subscriptionId req \<noteq> i" using o by (auto simp: retried_outcome_def)
    have "settled_until i (t + 28 * ms_per_day) st1"
      using o settled_renews [OF Cons.prems(2) _ ne] settled_quiet [OF Cons.prems(2)] by (auto simp: retried_outcome_def split: if_splits)
    then show ?thesis using Cons.IH [of st1] Cons.prems Renew ne by (auto simp: run_renew [OF r] simp del: renewal_run.simps)
  qed
qed simp


section \<open>An executor whose world is the time\<close>

definition demo_renewal_env :: "millis renewal_env" where
  "demo_renewal_env =
     \<lparr>xe_now = id, xe_query = (\<lambda>w. (True, w)), xe_write = (\<lambda>w. (True, w)), xe_stealthEnabled = False, xe_viewPubkey = None,
      xe_spendPubkey = None, xe_profile = (\<lambda>_ w. (None, w)), xe_derive = (\<lambda>_ _. Inl []), xe_channelsEnabled = False,
      xe_findPayable = (\<lambda>_ _ w. (Inr None, w)), xe_applyPayment = (\<lambda>_ _ _ _ w. (Inl [], w)), xe_enqueue = (\<lambda>_ w. (Inr ''q1'', w)),
      xe_sync = (\<lambda>_ _ _ w. (Inr \<lparr>wr_success = True, wr_transactionHash = Some ''t1'', wr_error = None\<rparr>, w + 5000)), xe_fns = plain_date_fns\<rparr>"

definition demo_renewal_tables :: "amount option \<Rightarrow> bool \<Rightarrow> billing_cycle \<Rightarrow> millis renewal_tables" where
  "demo_renewal_tables limit rejected cycle =
     \<lparr>rn_subs = [\<lparr>rb_id = ''s1'', rb_status = ''active'', rb_next_billing_date = 1769904000000, rb_billing_cycle = cycle,
                 rb_last_renewal_date = None, rb_last_transaction_hash = None\<rparr>],
      rn_approvals = [\<lparr>ra_subscription_id = ''s1'', ra_approval_id = ''a1'', ra_max_spend = limit, ra_expires_at = None, ra_used = False, ra_rejected = rejected\<rparr>],
      rn_logs = [], rn_world = 1769860800000\<rparr>"

definition demo_request :: renewal_request where
  "demo_request = \<lparr>rr_subscriptionId = ''s1'', rr_userId = ''u1'', rr_approvalId = ''a1'', rr_amount = 10\<rparr>"

lemma demo_renewal_ok:
  "renewal_clock_ok demo_renewal_env" "updates_land demo_renewal_env" "sleep_ok demo_renewal_env (\<lambda>d w. w + \<bar>d\<bar>)"
  "add_calendar_ok (xe_fns demo_renewal_env)"
  by (simp_all add: demo_renewal_env_def renewal_clock_ok_def updates_land_def sleep_ok_def plain_date_fns_ok)


section \<open>What it does not promise\<close>

text \<open>A weekly or an annual subscription that is renewed is next due in a month.\<close>

theorem weekly_moved_by_month:
  "add_calendar_ok fns \<Longrightarrow> cycle \<in> {Cycle_weekly, Cycle_annual} \<Longrightarrow> months_later 1 now (next_billing fns cycle now)"
  by (auto simp: next_billing_def add_calendar_ok_def)

text \<open>A limit of 0 is no limit, and an approval that was rejected is as good as another.\<close>

theorem zero_limit_and_rejection_ignored:
  "map (\<lambda>st. rz_success (fst (executeRenewal demo_renewal_env demo_request st)))
     [demo_renewal_tables (Some 0) False Cycle_monthly, demo_renewal_tables None True Cycle_monthly, demo_renewal_tables (Some 5) False Cycle_monthly]
   = [True, True, False]"
  by code_simp

text \<open>No renewal marks an approval as used.\<close>

lemma keeps_approvals [simp]:
  "rn_approvals (snd (query_single env rows st)) = rn_approvals st"
  "rn_approvals (snd (resolveStealthMetaAddress env u st)) = rn_approvals st"
  "rn_approvals (insert_renewal_log env row st) = rn_approvals st"
  "rn_approvals (snd (tryChannelRenewal env req st)) = rn_approvals st"
  "rn_approvals (snd (triggerContractRenewal env req addr st)) = rn_approvals st"
  "rn_approvals (updateSubscription env i cycle tx st) = rn_approvals st"
  by (auto simp: query_single_def resolveStealthMetaAddress_def insert_renewal_log_def tryChannelRenewal_def triggerContractRenewal_def
      updateSubscription_def Let_def split: prod.splits sum.splits option.splits)

lemma keeps_approvals_checks [simp]:
  "rn_approvals (snd (checkApproval env i a amt st)) = rn_approvals st"
  "rn_approvals (snd (validateBillingWindow env i st)) = rn_approvals st"
  "rn_approvals (snd (stealth_address env req st)) = rn_approvals st"
  "rn_approvals (logSuccess env req tx stealth st) = rn_approvals st"
  "rn_approvals (snd (logFailure env req reason msg st)) = rn_approvals st"
  by (simp_all add: checkApproval_def validateBillingWindow_def stealth_address_def logSuccess_def logFailure_def Let_def case_prod_beta)

theorem approvals_stay_unused: "rn_approvals (snd (executeRenewal env req st)) = rn_approvals st"
proof -
  have p: "rn_approvals (snd (pay_renewal env req cycle st)) = rn_approvals st" for cycle st
    by (simp add: pay_renewal_def Let_def case_prod_beta split: sum.split) 
  show ?thesis by (simp add: executeRenewal_def Let_def case_prod_beta p split: option.split sum.split)
qed

text \<open>The contract is called with the id of the subscription for that of the user, and each attempt that fails there has queued a settlement.\<close>

definition counting_env :: "(nat \<times> (ident \<times> ident) list) renewal_env" where
  "counting_env =
     \<lparr>xe_now = (\<lambda>_. 1769860800000), xe_query = (\<lambda>w. (True, w)), xe_write = (\<lambda>w. (True, w)), xe_stealthEnabled = False, xe_viewPubkey = None,
      xe_spendPubkey = None, xe_profile = (\<lambda>_ w. (None, w)), xe_derive = (\<lambda>_ _. Inl []), xe_channelsEnabled = False,
      xe_findPayable = (\<lambda>_ _ w. (Inr None, w)), xe_applyPayment = (\<lambda>_ _ _ _ w. (Inl [], w)),
      xe_enqueue = (\<lambda>_ (n, calls). (Inr ''q'', (n + 1, calls))),
      xe_sync = (\<lambda>u i _ (n, calls). (Inr \<lparr>wr_success = False, wr_transactionHash = None, wr_error = Some ''down''\<rparr>, (n, calls @ [(u, i)]))),
      xe_fns = plain_date_fns\<rparr>"

theorem failed_renewal_queues_three_settlements:
  "let st = demo_renewal_tables None False Cycle_monthly;
       st0 = \<lparr>rn_subs = rn_subs st, rn_approvals = rn_approvals st, rn_logs = [], rn_world = (0, [])\<rparr>;
       (r, st') = executeRenewalWithRetry counting_env (\<lambda>_ w. w) demo_request 3 st0
   in \<not> renewal_done r \<and> rn_world st' = (3, [(''s1'', ''s1''), (''s1'', ''s1''), (''s1'', ''s1'')])"
  by code_simp

end
