(* ===== verification/RenewalQueueProps.thy ===== *)
theory RenewalQueueProps
  imports RenewalQueue RenewalProps
begin

text \<open>
  Histories of orders to renew: an order whose key has succeeded is answered from the attempts and
  renews nothing, and the dead letter table counts the failures of each key.
\<close>

definition queries_answer :: "'w queue_env \<Rightarrow> bool" where
  "queries_answer env \<longleftrightarrow> (\<forall>w. fst (xe_query (qe_renewal env) w))"

definition writes_land :: "'w queue_env \<Rightarrow> bool" where
  "writes_land env \<longleftrightarrow> updates_land (qe_renewal env)"

lemma set_world_simps [simp]:
  "qs_attempts (set_world w st) = qs_attempts st" "qs_dead (set_world w st) = qs_dead st"
  "rn_subs (qs_tables (set_world w st)) = rn_subs (qs_tables st)" "rn_logs (qs_tables (set_world w st)) = rn_logs (qs_tables st)"
  by (simp_all add: set_world_def)

lemma queue_statements [simp]:
  "qs_attempts (snd (queue_query env st)) = qs_attempts st" "qs_dead (snd (queue_query env st)) = qs_dead st"
  "rn_subs (qs_tables (snd (queue_query env st))) = rn_subs (qs_tables st)" "rn_logs (qs_tables (snd (queue_query env st))) = rn_logs (qs_tables st)"
  "qs_attempts (snd (queue_write env st)) = qs_attempts st" "qs_dead (snd (queue_write env st)) = qs_dead st"
  by (simp_all add: queue_query_def queue_write_def Let_def case_prod_beta)

lemma queue_answers: "queries_answer env \<Longrightarrow> fst (queue_query env st)"
  by (simp add: queries_answer_def queue_query_def Let_def case_prod_beta)

lemma queue_lands: "writes_land env \<Longrightarrow> fst (queue_write env st)"
  by (simp add: writes_land_def updates_land_def queue_write_def Let_def case_prod_beta)

section \<open>Attempts\<close>

lemma attempt_of_append: "attempt_of key (xs @ ys) = (case attempt_of key xs of None \<Rightarrow> attempt_of key ys | Some a \<Rightarrow> Some a)"
  by (induction xs) (auto simp: attempt_of_def)

lemma attempt_of_map:
  "(\<And>a. at_idempotency_key (f a) = at_idempotency_key a) \<Longrightarrow> attempt_of key (map f xs) = map_option f (attempt_of key xs)"
  by (induction xs) (auto simp: attempt_of_def)

lemma attempt_of_key: "attempt_of key xs = Some a \<Longrightarrow> at_idempotency_key a = key"
  by (induction xs) (auto simp: attempt_of_def split: if_splits)

lemma record_attempts:
  "qs_attempts (snd (recordAttempt env sub user cycle key st)) =
     (if fst (queue_write env st) \<and> attempt_of key (qs_attempts st) = None
      then qs_attempts st @ [\<lparr>at_subscription_id = sub, at_user_id = user, at_cycle_id = cycle, at_idempotency_key = key,
         at_status = Attempt_processing, at_lock_holder = qe_lockHolder env, at_result = None\<rparr>]
      else qs_attempts st)"
  by (auto simp: recordAttempt_def Let_def case_prod_beta split: option.split)

lemma update_attempts:
  "qs_attempts (updateAttemptStatus env key status res st) =
     (if fst (queue_write env st) then map (\<lambda>a. if at_idempotency_key a = key then a\<lparr>at_status := status, at_result := Some res\<rparr> else a) (qs_attempts st)
      else qs_attempts st)"
  by (simp add: updateAttemptStatus_def Let_def case_prod_beta)

lemma other_attempts [simp]:
  "key' \<noteq> key \<Longrightarrow> attempt_of key (qs_attempts (snd (recordAttempt env sub user cycle key' st))) = attempt_of key (qs_attempts st)"
  "key' \<noteq> key \<Longrightarrow> attempt_of key (qs_attempts (updateAttemptStatus env key' status res st)) = attempt_of key (qs_attempts st)"
  by (auto simp: record_attempts attempt_of_append attempt_of_def[of key "[_]"] split: option.split)
     (auto simp: update_attempts attempt_of_map dest: attempt_of_key intro!: option.map_ident_strong)

lemma same_attempts [simp]:
  "qs_attempts (snd (moveToDeadLetter env d st)) = qs_attempts st"
  "qs_attempts (store_renewal_response env req cycle key resp st) = qs_attempts st"
  "qs_attempts (snd (getAttemptByKey env key st)) = qs_attempts st"
  "qs_attempts (snd (resolveBillingDate env sub st)) = qs_attempts st"
  by (auto simp: moveToDeadLetter_def store_renewal_response_def getAttemptByKey_def resolveBillingDate_def Let_def case_prod_beta split: option.split)

lemma lookup_attempts [simp]: "qs_attempts (snd (renewal_lookup env req st)) = qs_attempts st"
  by (simp add: renewal_lookup_def Let_def case_prod_beta split: option.split sum.split)

lemma lookup_key:
  "renewal_lookup env req st = (Inr (cycle, key, c), st') \<Longrightarrow> key = renewal_key env req cycle \<and>
     (queries_answer env \<longrightarrow> c = cached_response (attempt_of key (qs_attempts st)))"
  by (auto simp: renewal_lookup_def getAttemptByKey_def resolveBillingDate_def Let_def case_prod_beta queue_answers split: option.splits sum.splits)

lemma caught_attempts [simp]:
  "key' \<noteq> key \<Longrightarrow> attempt_of key (qs_attempts (snd (renewal_caught env req cycle key' e st))) = attempt_of key (qs_attempts st)"
  by (simp add: renewal_caught_def case_prod_beta split: sum.split)

lemma attempted_attempts [simp]:
  "key' \<noteq> key \<Longrightarrow> attempt_of key (qs_attempts (snd (renewal_attempted env req cycle key' st))) = attempt_of key (qs_attempts st)"
  by (simp add: renewal_attempted_def Let_def case_prod_beta split: sum.split)

lemma locked_attempts [simp]:
  "key' \<noteq> key \<Longrightarrow> attempt_of key (qs_attempts (snd (renewal_locked env req cycle key' st))) = attempt_of key (qs_attempts st)"
  by (simp add: renewal_locked_def Let_def case_prod_beta split: lock_result.split)

text \<open>The attempt under a key succeeded with a response.\<close>

definition kept_success :: "string \<Rightarrow> renewal_response \<Rightarrow> 'w queue_state \<Rightarrow> bool" where
  "kept_success key cached st \<longleftrightarrow> cached_response (attempt_of key (qs_attempts st)) = Some cached"

lemma order_cases:
  assumes "queries_answer env"
  obtains (invalid) e st1 where "renewal_lookup env req st = (Inl e, st1)" "executeIdempotentRenewal env req st = (Inl e, st1)"
  | (cached) cycle cached st1 where "renewal_lookup env req st = (Inr (cycle, renewal_key env req cycle, Some cached), st1)"
      "kept_success (renewal_key env req cycle) cached st" "executeIdempotentRenewal env req st = (Inr cached, st1)"
  | (locked) cycle st1 where "renewal_lookup env req st = (Inr (cycle, renewal_key env req cycle, None), st1)"
      "cached_response (attempt_of (renewal_key env req cycle) (qs_attempts st)) = None"
      "executeIdempotentRenewal env req st = renewal_locked env req cycle (renewal_key env req cycle) st1"
proof -
  obtain x st1 where l: "renewal_lookup env req st = (x, st1)" by fastforce
  show ?thesis
  proof (cases x)
    case (Inl e)
    then show ?thesis using that(1) [of e st1] l by (simp add: executeIdempotentRenewal_def)
  next
    case (Inr y)
    obtain cycle key c where y: "y = (cycle, key, c)" by (cases y)
    then have k: "key = renewal_key env req cycle" "c = cached_response (attempt_of key (qs_attempts st))"
      using lookup_key [of env req st cycle key c st1] l Inr assms by auto
    show ?thesis
    proof (cases c)
      case None
      then show ?thesis using that(3) [of cycle st1] l Inr y k by (simp add: executeIdempotentRenewal_def)
    next
      case (Some r)
      then show ?thesis using that(2) [of cycle r st1] l Inr y k by (simp add: executeIdempotentRenewal_def kept_success_def)
    qed
  qed
qed

lemma lookup_attempts': "renewal_lookup env req st = (x, st1) \<Longrightarrow> qs_attempts st1 = qs_attempts st"
  using lookup_attempts [of env req st] by simp

lemma kept_through:
  assumes "queries_answer env" and "kept_success key cached st"
  shows "kept_success key cached (snd (executeIdempotentRenewal env req st))"
proof (cases rule: order_cases [OF assms(1), of req st, case_names invalid cached locked])
  case (invalid e st1)
  then show ?thesis using assms(2) by (simp add: kept_success_def lookup_attempts' [OF invalid(1)])
next
  case (cached cycle c st1)
  then show ?thesis using assms(2) by (simp add: kept_success_def lookup_attempts' [OF cached(1)])
next
  case (locked cycle st1)
  then have "renewal_key env req cycle \<noteq> key" using assms(2) by (auto simp: kept_success_def)
  then show ?thesis using assms(2) by (simp add: locked(3) kept_success_def lookup_attempts' [OF locked(1)])
qed

text \<open>An order that succeeds leaves its success.\<close>

definition skipped_response :: "renewal_response \<Rightarrow> renewal_response" where
  "skipped_response r = r\<lparr>rp_skipped := True, rp_reason := Some ''already_processed''\<rparr>"

lemma attempted_keeps:
  assumes "writes_land env" and "renewal_attempted env req cycle key st = (Inr r, st')" and "rp_success r"
  shows "kept_success key (skipped_response r) st' \<and> rp_idempotencyKey r = key"
proof -
  let ?st1 = "snd (recordAttempt env (oq_subscriptionId req) (oq_userId req) cycle key st)"
  let ?e = "executeRenewal (qe_renewal env)
      \<lparr>rr_subscriptionId = oq_subscriptionId req, rr_userId = oq_userId req, rr_approvalId = oq_approvalId req, rr_amount = oq_amount req\<rparr> (qs_tables ?st1)"
  let ?st2 = "?st1\<lparr>qs_tables := snd ?e\<rparr>"
  have ok: "rz_success (fst ?e) \<and> r = renewal_response_of req cycle key (fst ?e) \<and> qs_attempts st' =
      qs_attempts (updateAttemptStatus env key Attempt_success (Attempt_response r) ?st2)"
    using assms(2,3) by (auto simp: renewal_attempted_def renewal_caught_def renewal_response_of_def Let_def case_prod_beta split: if_splits sum.splits)
  have "attempt_of key (qs_attempts ?st2) \<noteq> None"
    by (auto simp: record_attempts queue_lands [OF assms(1)] attempt_of_append attempt_of_def [of _ "[_]"] split: option.split)
  then obtain a where a: "attempt_of key (qs_attempts ?st2) = Some a" by auto
  have "attempt_of key (qs_attempts st') = Some (a\<lparr>at_status := Attempt_success, at_result := Some (Attempt_response r)\<rparr>)"
    using ok a attempt_of_key [OF a] by (simp add: update_attempts queue_lands [OF assms(1)] attempt_of_map)
  then show ?thesis using ok by (simp add: kept_success_def cached_response_def skipped_response_def renewal_response_of_def)
qed

lemma locked_keeps:
  assumes "writes_land env" and "renewal_locked env req cycle key st = (Inr r, st')" and "rp_success r"
  shows "kept_success key (skipped_response r) st' \<and> rp_idempotencyKey r = key"
proof -
  obtain st1 st2 where "renewal_attempted env req cycle key st1 = (Inr r, st2)" "qs_attempts st' = qs_attempts st2"
    using assms(2,3) by (auto simp: renewal_locked_def Let_def case_prod_beta split: lock_result.splits) (metis prod.collapse)+
  from attempted_keeps [OF assms(1) this(1) assms(3)] this(2) show ?thesis by (simp add: kept_success_def)
qed

lemma execute_keeps:
  assumes "queries_answer env" and "writes_land env" and "executeIdempotentRenewal env req st = (Inr r, st')" and "rp_success r" and "\<not> rp_skipped r"
  shows "kept_success (rp_idempotencyKey r) (skipped_response r) st'"
proof (cases rule: order_cases [OF assms(1), of req st, case_names invalid cached locked])
  case (cached cycle c st1)
  then have "rp_skipped r" using assms(3) by (auto simp: kept_success_def cached_response_def split: option.splits attempt_status.splits attempt_result.splits)
  then show ?thesis using assms(5) by simp
next
  case (locked cycle st1)
  then show ?thesis using locked_keeps [OF assms(2) _ assms(4)] assms(3) by metis
qed (use assms(3) in simp)


section \<open>Dead letters\<close>

definition dead_count :: "string \<Rightarrow> 'w queue_state \<Rightarrow> nat" where
  "dead_count key st = (case dead_of key (qs_dead st) of None \<Rightarrow> 0 | Some d \<Rightarrow> dr_failure_count d)"

lemma dead_of_append: "dead_of key (xs @ ys) = (case dead_of key xs of None \<Rightarrow> dead_of key ys | Some a \<Rightarrow> Some a)"
  by (induction xs) (auto simp: dead_of_def)

lemma dead_of_map:
  "(\<And>a. dr_idempotency_key (f a) = dr_idempotency_key a) \<Longrightarrow> dead_of key (map f xs) = map_option f (dead_of key xs)"
  by (induction xs) (auto simp: dead_of_def)

lemma dead_of_key: "dead_of key xs = Some a \<Longrightarrow> dr_idempotency_key a = key"
  by (induction xs) (auto simp: dead_of_def split: if_splits)

lemma move_counts:
  assumes "queries_answer env" and "writes_land env"
  shows "fst (moveToDeadLetter env d st) = Inr ()"
    and "dead_count key (snd (moveToDeadLetter env d st)) = dead_count key st + (if dr_idempotency_key d = key then 1 else 0)"
proof -
  show "fst (moveToDeadLetter env d st) = Inr ()"
    using assms by (auto simp: moveToDeadLetter_def Let_def case_prod_beta queue_answers queue_lands split: option.split)
  show "dead_count key (snd (moveToDeadLetter env d st)) = dead_count key st + (if dr_idempotency_key d = key then 1 else 0)"
    using assms dead_of_key [of key "qs_dead st"]
    by (auto simp: moveToDeadLetter_def dead_count_def Let_def case_prod_beta queue_answers queue_lands dead_of_map dead_of_append
        dead_of_def [of _ "[_]"] split: option.split)
qed

lemma same_dead [simp]:
  "qs_dead (snd (recordAttempt env sub user cycle key st)) = qs_dead st"
  "qs_dead (updateAttemptStatus env key status res st) = qs_dead st"
  "qs_dead (store_renewal_response env req cycle key resp st) = qs_dead st"
  "qs_dead (snd (renewal_lookup env req st)) = qs_dead st"
  by (auto simp: recordAttempt_def updateAttemptStatus_def store_renewal_response_def renewal_lookup_def getAttemptByKey_def
      resolveBillingDate_def Let_def case_prod_beta split: option.split sum.split)

text \<open>A failure that is not the answer of an earlier attempt and whose reason is one of the two of the executor.\<close>

definition stuck_order :: "string \<Rightarrow> string + renewal_response \<Rightarrow> bool" where
  "stuck_order key x = (case x of Inl _ \<Rightarrow> False | Inr r \<Rightarrow> \<not> rp_skipped r \<and> rp_idempotencyKey r = key \<and> \<not> rp_success r \<and> isRetryable (rp_failureReason r))"

lemma attempted_counts:
  assumes "queries_answer env" and "writes_land env"
  shows "dead_count key (snd (renewal_attempted env req cycle key' st)) =
     dead_count key st + (if stuck_order key (fst (renewal_attempted env req cycle key' st)) then 1 else 0)"
  by (auto simp: renewal_attempted_def Let_def case_prod_beta move_counts [OF assms] stuck_order_def renewal_response_of_def dead_letter_of_def
      split: sum.split) (auto simp: dead_count_def move_counts [OF assms])

lemma locked_counts:
  assumes "queries_answer env" and "writes_land env"
  shows "dead_count key (snd (renewal_locked env req cycle key' st)) =
     dead_count key st + (if stuck_order key (fst (renewal_locked env req cycle key' st)) then 1 else 0)"
proof -
  have c: "dead_count key (set_world w (s\<lparr>qs_locks := l\<rparr>)) = dead_count key s" for w s l by (simp add: dead_count_def)
  show ?thesis
    by (simp add: renewal_locked_def Let_def case_prod_beta c attempted_counts [OF assms] split: lock_result.split) (simp add: stuck_order_def)
qed

lemma execute_counts:
  assumes "queries_answer env" and "writes_land env"
  shows "dead_count key (snd (executeIdempotentRenewal env req st)) =
     dead_count key st + (if stuck_order key (fst (executeIdempotentRenewal env req st)) then 1 else 0)"
proof -
  have l: "renewal_lookup env req st = (x, st1) \<Longrightarrow> dead_count key st1 = dead_count key st" for x st1
    using same_dead(4) [of env req st] by (simp add: dead_count_def)
  show ?thesis
  proof (cases rule: order_cases [OF assms(1), of req st, case_names invalid cached locked])
    case (invalid e st1)
    then show ?thesis by (simp add: l [OF invalid(1)] stuck_order_def)
  next
    case (cached cycle c st1)
    then have "rp_skipped c" by (auto simp: kept_success_def cached_response_def split: option.splits attempt_status.splits attempt_result.splits)
    then show ?thesis using cached by (simp add: l [OF cached(1)] stuck_order_def)
  next
    case (locked cycle st1)
    then show ?thesis by (simp add: locked_counts [OF assms] l [OF locked(1)])
  qed
qed

fun order_run :: "'w queue_env \<Rightarrow> renewal_order list \<Rightarrow> 'w queue_state \<Rightarrow> (string + renewal_response) list \<times> 'w queue_state" where
  "order_run env [] st = ([], st)"
| "order_run env (q # qs) st =
     (let (x, st1) = executeIdempotentRenewal env q st; (xs, st2) = order_run env qs st1 in (x # xs, st2))"

text \<open>
  The dead letter table counts: after any history of orders the entry of a key has counted exactly the
  orders under that key that failed in the contract or in the execution, and there is no entry without one.
\<close>

theorem dead_letters_counted:
  assumes "queries_answer env" and "writes_land env" and "dead_count key st = 0"
  shows "dead_count key (snd (order_run env orders st)) = length (filter (stuck_order key) (fst (order_run env orders st)))"
proof -
  have "dead_count key (snd (order_run env qs s)) = dead_count key s + length (filter (stuck_order key) (fst (order_run env qs s)))" for qs s
    by (induction qs arbitrary: s) (simp_all add: Let_def case_prod_beta execute_counts [OF assms(1,2)])
  then show ?thesis using assms(3) by simp
qed

section \<open>A queue whose world is the time\<close>

definition thirty_days :: date_fns where
  "thirty_days = \<lparr>addWeeks = (\<lambda>t n. t + 7 * n * ms_per_day), addMonths = (\<lambda>t n. t + 30 * n * ms_per_day),
     addQuarters = (\<lambda>t n. t + 90 * n * ms_per_day), addYears = (\<lambda>t n. t + 365 * n * ms_per_day)\<rparr>"

definition demo_queue_env :: "bool \<Rightarrow> redis_reply \<Rightarrow> millis queue_env" where
  "demo_queue_env chain redis =
     \<lparr>qe_renewal =
        \<lparr>xe_now = id, xe_query = (\<lambda>w. (True, w)), xe_write = (\<lambda>w. (True, w)), xe_stealthEnabled = False, xe_viewPubkey = None,
         xe_spendPubkey = None, xe_profile = (\<lambda>_ w. (None, w)), xe_derive = (\<lambda>_ _. Inl []), xe_channelsEnabled = False,
         xe_findPayable = (\<lambda>_ _ w. (Inr None, w)), xe_applyPayment = (\<lambda>_ _ _ _ w. (Inl [], w)), xe_enqueue = (\<lambda>_ w. (Inr ''q1'', w)),
         xe_sync = (\<lambda>_ _ _ w. (Inr \<lparr>wr_success = chain, wr_transactionHash = Some ''t1'', wr_error = None\<rparr>, w)), xe_fns = thirty_days\<rparr>,
      qe_idem = \<lparr>ik_now = id, ik_select = (\<lambda>w. (None, w)), ik_insert = (\<lambda>w. (None, w)), ik_delete = (\<lambda>w. (None, w)), ik_sha256 = (\<lambda>x. x), ik_number = (\<lambda>_. ''10'')\<rparr>,
      qe_redis = (\<lambda>w. (redis, w)), qe_token = (\<lambda>w. (''k'', w)), qe_lockTtl = 300000, qe_lockHolder = ''w1''\<rparr>"

definition demo_queue :: "millis queue_state" where
  "demo_queue = \<lparr>qs_tables = demo_renewal_tables None False Cycle_monthly, qs_attempts = [], qs_dead = [],
     qs_locks = \<lparr>rk_keys = [], rk_metrics = \<lparr>lm_acquired = 0, lm_contention = 0, lm_released = 0, lm_expired = 0\<rparr>\<rparr>, qs_responses = []\<rparr>"

text \<open>The cycle is that of the first day of the year 0, a short number.\<close>

definition demo_order :: renewal_order where
  "demo_order = \<lparr>oq_subscriptionId = ''s1'', oq_userId = ''u1'', oq_approvalId = ''a1'', oq_amount = 10, oq_billingDate = Some (Some (- 62167219200000))\<rparr>"

lemma demo_queue_ok: "queries_answer (demo_queue_env b redis)" "writes_land (demo_queue_env b redis)"
  by (simp_all add: demo_queue_env_def queries_answer_def writes_land_def updates_land_def)

theorem dead_letters_counted_witness:
  "let env = demo_queue_env False (Command_runs True);
       key = renewal_key env demo_order 101; (xs, st) = order_run env [demo_order, demo_order] demo_queue
   in dead_count key st = length (filter (stuck_order key) xs) \<and> length (filter (stuck_order key) xs) = 2"
proof -
  let ?env = "demo_queue_env False (Command_runs True)"
  have "length (filter (stuck_order (renewal_key ?env demo_order 101)) (fst (order_run ?env [demo_order, demo_order] demo_queue))) = 2"
    by code_simp
  then show ?thesis
    using dead_letters_counted [OF demo_queue_ok, of "renewal_key ?env demo_order 101" demo_queue False "Command_runs True" "[demo_order, demo_order]"]
    by (simp add: Let_def case_prod_beta dead_count_def dead_of_def demo_queue_def)
qed


section \<open>What the orchestrator does not promise\<close>

text \<open>
  The attempts are read before the lock is taken and not again: a worker that read before another one
  finished renews under the lock it then gets, fails on the billing window, and records the cycle that
  succeeded as failed.
\<close>

theorem success_overwritten:
  "let env = demo_queue_env True (Command_runs True); key = renewal_key env demo_order 101;
       (found, st1) = renewal_lookup env demo_order demo_queue;
       (a, st2) = executeIdempotentRenewal env demo_order st1;
       (b, st3) = renewal_locked env demo_order 101 key st2;
       status = (\<lambda>st. map_option at_status (attempt_of key (qs_attempts st)))
   in found = Inr (101, key, None) \<and> status st2 = Some Attempt_success \<and> status st3 = Some Attempt_failed"
  by code_simp

text \<open>Without Redis a worker goes on while another one holds the same cycle.\<close>

theorem no_lock_no_exclusion:
  "fst (qe_redis env (queue_world st)) = No_client \<Longrightarrow>
     fst (renewal_locked env req cycle key st) =
     fst (renewal_attempted env req cycle key (set_world (snd (qe_token env (snd (qe_redis env (queue_world st))))) st))"
  by (simp add: renewal_locked_def acquire_lock_def Let_def case_prod_beta)

end
