(* ===== verification/OfflineQueue.thy ===== *)
theory OfflineQueue
  imports Json "HOL-Library.List_Lexorder" "HOL-Library.Char_ord"
begin

text \<open>
  The client's queue of changes made offline: \<open>client/lib/sync/mutation-queue.ts\<close> (the queued mutation),
  \<open>queue-store.ts\<close> (the IndexedDB store), \<open>queue-processor.ts\<close> (the replay through the API) and
  \<open>client/hooks/use-offline-queue.ts\<close> (what the user interface calls).  The clock, the ids, the
  outcome of a transaction of the store and the server are functions of a world \<open>'w\<close>.  A transaction
  that fails changes nothing; the store holds one row per id and lists them by id.
\<close>

section \<open>Queued mutations\<close>

datatype mutation_status = Queue_pending | Queue_in_flight | Queue_resolved | Queue_conflict | Queue_failed | Queue_expired

datatype conflict_resolution = Last_write_wins | Merge_resolution | User_prompt

datatype mutation_operation =
    Create_mutation json
  | Update_mutation string "int option" json
  | Delete_mutation string

record mutation_result =
  mr_status :: int
  mr_data :: "json option"
  mr_error :: "string option"

record queued_mutation =
  qm_id :: ident
  qm_operation :: mutation_operation
  qm_status :: mutation_status
  qm_queuedAt :: millis
  qm_expiresAt :: millis
  qm_attempts :: nat
  qm_maxAttempts :: nat
  qm_conflictDetails :: "json option"
  qm_conflictResolution :: conflict_resolution
  qm_result :: "mutation_result option"

definition QUEUE_CONFIG :: "(string \<times> nat \<times> millis \<times> conflict_resolution) list" where
  "QUEUE_CONFIG =
     [(''create:subscription'', 5, 7 * 24 * 60 * 60 * 1000, Last_write_wins),
      (''update:subscription'', 5, 7 * 24 * 60 * 60 * 1000, Last_write_wins),
      (''delete:subscription'', 5, 7 * 24 * 60 * 60 * 1000, Last_write_wins)]"

definition operation_key :: "mutation_operation \<Rightarrow> string" where
  "operation_key op =
     (case op of Create_mutation _ \<Rightarrow> ''create:subscription'' | Update_mutation _ _ _ \<Rightarrow> ''update:subscription'' | Delete_mutation _ \<Rightarrow> ''delete:subscription'')"

definition getQueueConfig :: "mutation_operation \<Rightarrow> nat \<times> millis \<times> conflict_resolution" where
  "getQueueConfig op =
     (case map_of QUEUE_CONFIG (operation_key op) of Some c \<Rightarrow> c | None \<Rightarrow> the (map_of QUEUE_CONFIG ''create:subscription''))"

definition createQueuedMutation :: "ident \<Rightarrow> millis \<Rightarrow> mutation_operation \<Rightarrow> conflict_resolution \<Rightarrow> queued_mutation" where
  "createQueuedMutation uuid now op resolution =
     (case getQueueConfig op of (maxAttempts, ttlMs, _) \<Rightarrow>
        \<lparr>qm_id = uuid, qm_operation = op, qm_status = Queue_pending, qm_queuedAt = now, qm_expiresAt = now + ttlMs, qm_attempts = 0,
         qm_maxAttempts = maxAttempts, qm_conflictDetails = None, qm_conflictResolution = resolution, qm_result = None\<rparr>)"

definition queue_expired :: "millis \<Rightarrow> queued_mutation \<Rightarrow> bool" where
  "queue_expired now m \<longleftrightarrow> qm_expiresAt m < now"

definition canRetry :: "millis \<Rightarrow> queued_mutation \<Rightarrow> bool" where
  "canRetry now m \<longleftrightarrow> qm_status m = Queue_failed \<and> qm_attempts m < qm_maxAttempts m \<and> \<not> queue_expired now m"

section \<open>The store\<close>

datatype http_call = Http_post string json | Http_put string json | Http_delete string

record api_response =
  ap_status :: int
  ap_data :: json
  ap_error :: "string option"

text \<open>A call of the API throws (with a message, if it is an \<open>Error\<close>) or answers.\<close>

type_synonym 'w api_client = "http_call \<Rightarrow> 'w \<Rightarrow> (string option + api_response) \<times> 'w"

record 'w offline_env =
  oc_now :: "'w \<Rightarrow> millis"
  oc_uuid :: "'w \<Rightarrow> ident \<times> 'w"
  oc_store :: "'w \<Rightarrow> string option \<times> 'w"
  oc_send :: "'w api_client"

record 'w offline_db =
  od_rows :: "queued_mutation list"
  od_world :: 'w

text \<open>One transaction: an error, or a result and the new rows.\<close>

definition store_transaction ::
  "'w offline_env \<Rightarrow> (queued_mutation list \<Rightarrow> (string + 'a) \<times> queued_mutation list) \<Rightarrow> 'w offline_db \<Rightarrow> (string + 'a) \<times> 'w offline_db" where
  "store_transaction env f db =
     (case oc_store env (od_world db) of
        (Some e, w) \<Rightarrow> (Inl e, db\<lparr>od_world := w\<rparr>)
      | (None, w) \<Rightarrow> (let (r, rows) = f (od_rows db) in (r, \<lparr>od_rows = rows, od_world = w\<rparr>)))"

definition put_row :: "queued_mutation \<Rightarrow> queued_mutation list \<Rightarrow> queued_mutation list" where
  "put_row m rows = filter (\<lambda>x. qm_id x \<noteq> qm_id m) rows @ [m]"

definition store_rows :: "queued_mutation list \<Rightarrow> queued_mutation list" where
  "store_rows rows = sort_key qm_id rows"

definition addMutation :: "'w offline_env \<Rightarrow> queued_mutation \<Rightarrow> 'w offline_db \<Rightarrow> (string + ident) \<times> 'w offline_db" where
  "addMutation env m = store_transaction env
     (\<lambda>rows. if list_ex (\<lambda>x. qm_id x = qm_id m) rows then (Inl ''ConstraintError'', rows) else (Inr (qm_id m), rows @ [m]))"

definition updateMutation :: "'w offline_env \<Rightarrow> queued_mutation \<Rightarrow> 'w offline_db \<Rightarrow> (string + unit) \<times> 'w offline_db" where
  "updateMutation env m = store_transaction env (\<lambda>rows. (Inr (), put_row m rows))"

definition removeMutation :: "'w offline_env \<Rightarrow> ident \<Rightarrow> 'w offline_db \<Rightarrow> (string + unit) \<times> 'w offline_db" where
  "removeMutation env i = store_transaction env (\<lambda>rows. (Inr (), filter (\<lambda>x. qm_id x \<noteq> i) rows))"

definition getMutation :: "'w offline_env \<Rightarrow> ident \<Rightarrow> 'w offline_db \<Rightarrow> (string + queued_mutation) \<times> 'w offline_db" where
  "getMutation env i = store_transaction env
     (\<lambda>rows. (case find (\<lambda>x. qm_id x = i) rows of None \<Rightarrow> Inl ''Mutation not found'' | Some m \<Rightarrow> Inr m, rows))"

definition getMutationsByStatus :: "'w offline_env \<Rightarrow> mutation_status \<Rightarrow> 'w offline_db \<Rightarrow> (string + queued_mutation list) \<times> 'w offline_db" where
  "getMutationsByStatus env s = store_transaction env (\<lambda>rows. (Inr (filter (\<lambda>x. qm_status x = s) (store_rows rows)), rows))"

definition pending_rows :: "queued_mutation list \<Rightarrow> queued_mutation list" where
  "pending_rows rows = sort_key qm_queuedAt (filter (\<lambda>x. qm_status x \<notin> {Queue_resolved, Queue_failed, Queue_expired}) (store_rows rows))"

definition getPendingMutations :: "'w offline_env \<Rightarrow> 'w offline_db \<Rightarrow> (string + queued_mutation list) \<times> 'w offline_db" where
  "getPendingMutations env = store_transaction env (\<lambda>rows. (Inr (pending_rows rows), rows))"

definition getAllMutations :: "'w offline_env \<Rightarrow> 'w offline_db \<Rightarrow> (string + queued_mutation list) \<times> 'w offline_db" where
  "getAllMutations env = store_transaction env (\<lambda>rows. (Inr (sort_key qm_queuedAt (store_rows rows)), rows))"

text \<open>The clock is read once the rows are there.\<close>

definition clearExpired_store :: "'w offline_env \<Rightarrow> 'w offline_db \<Rightarrow> (string + nat) \<times> 'w offline_db" where
  "clearExpired_store env db =
     store_transaction env
       (\<lambda>rows. (Inr (length (filter (queue_expired (oc_now env (snd (oc_store env (od_world db))))) rows)),
              filter (\<lambda>x. \<not> queue_expired (oc_now env (snd (oc_store env (od_world db)))) x) rows)) db"

section \<open>The replay\<close>

definition buildApiCall :: "mutation_operation \<Rightarrow> http_call" where
  "buildApiCall op =
     (case op of
        Create_mutation payload \<Rightarrow> Http_post ''/api/subscriptions'' payload
      | Update_mutation i _ payload \<Rightarrow> Http_put (''/api/subscriptions/'' @ i) payload
      | Delete_mutation i \<Rightarrow> Http_delete (''/api/subscriptions/'' @ i))"

record process_result =
  pq_success :: bool
  pq_mutation :: queued_mutation
  pq_error :: "string option"

definition response_details :: "json \<Rightarrow> json option" where
  "response_details d = (case d of JObj members \<Rightarrow> map_of members ''details'' | _ \<Rightarrow> None)"

text \<open>The mutation as it is after an answer, and the message of the result; it keeps the attempts it had before the call.\<close>

definition after_answer :: "queued_mutation \<Rightarrow> string option + api_response \<Rightarrow> process_result" where
  "after_answer m answer =
     (case answer of
        Inl e \<Rightarrow>
          (let msg = nullish e ''Unknown error''
           in \<lparr>pq_success = False, pq_mutation = m\<lparr>qm_status := Queue_failed, qm_result := Some \<lparr>mr_status = 0, mr_data = None, mr_error = Some msg\<rparr>\<rparr>,
               pq_error = Some msg\<rparr>)
      | Inr r \<Rightarrow>
          (let s = ap_status r;
               failed = m\<lparr>qm_status := Queue_failed, qm_result := Some \<lparr>mr_status = s, mr_data = None, mr_error = Some (str_or (ap_error r) (''HTTP '' @ show_int s))\<rparr>\<rparr>;
               why = str_or (ap_error r) (show_int s)
           in if 200 \<le> s \<and> s < 300
              then \<lparr>pq_success = True, pq_mutation = m\<lparr>qm_status := Queue_resolved, qm_result := Some \<lparr>mr_status = s, mr_data = Some (ap_data r), mr_error = None\<rparr>\<rparr>,
                    pq_error = None\<rparr>
              else if s = 409
              then \<lparr>pq_success = False,
                    pq_mutation = m\<lparr>qm_status := Queue_conflict, qm_result := Some \<lparr>mr_status = s, mr_data = None, mr_error = Some ''Conflict detected''\<rparr>,
                       qm_conflictDetails := response_details (ap_data r)\<rparr>,
                    pq_error = Some ''Conflict detected - user intervention required''\<rparr>
              else if 400 \<le> s \<and> s < 500 then \<lparr>pq_success = False, pq_mutation = failed, pq_error = Some (''Client error: '' @ why)\<rparr>
              else \<lparr>pq_success = False, pq_mutation = failed, pq_error = Some (''Server error: '' @ why)\<rparr>))"

definition processQueuedMutation :: "'w offline_env \<Rightarrow> 'w api_client \<Rightarrow> queued_mutation \<Rightarrow> 'w offline_db \<Rightarrow> process_result \<times> 'w offline_db" where
  "processQueuedMutation env client m db =
     (if queue_expired (oc_now env (od_world db)) m
      then (let expired = m\<lparr>qm_status := Queue_expired\<rparr>
        in (\<lparr>pq_success = False, pq_mutation = expired, pq_error = Some ''Mutation expired''\<rparr>, snd (updateMutation env expired db)))
      else if qm_status m = Queue_failed \<and> \<not> canRetry (oc_now env (od_world db)) m
      then (\<lparr>pq_success = False, pq_mutation = m, pq_error = Some ''Max retries exceeded''\<rparr>, db)
      else
        (let db1 = snd (updateMutation env (m\<lparr>qm_status := Queue_in_flight, qm_attempts := qm_attempts m + 1\<rparr>) db);
             (answer, w) = client (buildApiCall (qm_operation m)) (od_world db1); r = after_answer m answer
         in (r, snd (updateMutation env (pq_mutation r) (db1\<lparr>od_world := w\<rparr>)))))"

fun processAllQueuedMutations :: "'w offline_env \<Rightarrow> 'w api_client \<Rightarrow> queued_mutation list \<Rightarrow> 'w offline_db \<Rightarrow> process_result list \<times> 'w offline_db" where
  "processAllQueuedMutations env client [] db = ([], db)"
| "processAllQueuedMutations env client (m # ms) db =
     (let (r, db1) = processQueuedMutation env client m db
      in if \<not> pq_success r \<and> (case pq_error r of None \<Rightarrow> False | Some e \<Rightarrow> str_includes e ''Unknown error'') then ([r], db1)
         else (let (rs, db2) = processAllQueuedMutations env client ms db1 in (r # rs, db2)))"

datatype conflict_action = Accept_server | Retry_mutation | Discard_mutation

definition resolveConflict :: "queued_mutation \<Rightarrow> conflict_action \<Rightarrow> queued_mutation" where
  "resolveConflict m action =
     (case action of
        Accept_server \<Rightarrow> m\<lparr>qm_status := Queue_resolved, qm_result := Some \<lparr>mr_status = 200, mr_data = None, mr_error = Some ''Discarded due to server conflict''\<rparr>\<rparr>
      | Retry_mutation \<Rightarrow> m\<lparr>qm_status := Queue_pending, qm_attempts := 0\<rparr>
      | Discard_mutation \<Rightarrow> m\<lparr>qm_status := Queue_failed, qm_result := Some \<lparr>mr_status = 409, mr_data = None, mr_error = Some ''User discarded conflicting mutation''\<rparr>\<rparr>)"

section \<open>The hook\<close>

record 'w offline_state =
  os_db :: "'w offline_db"
  os_all :: "queued_mutation list"
  os_isOnline :: bool
  os_isProcessing :: bool

text \<open>An exception of the API becomes an answer with status 500.\<close>

definition hook_client :: "'w offline_env \<Rightarrow> 'w api_client" where
  "hook_client env call w =
     (case oc_send env call w of
        (Inl e, w') \<Rightarrow> (Inr \<lparr>ap_status = 500, ap_data = JNull, ap_error = Some (nullish e ''Unknown error'')\<rparr>, w')
      | (Inr r, w') \<Rightarrow> (Inr r, w'))"

definition reload :: "'w offline_env \<Rightarrow> 'w offline_state \<Rightarrow> 'w offline_state" where
  "reload env st = (let (r, db) = getAllMutations env (os_db st) in (case r of Inl _ \<Rightarrow> st\<lparr>os_db := db\<rparr> | Inr ms \<Rightarrow> st\<lparr>os_db := db, os_all := ms\<rparr>))"

definition queueOperation :: "'w offline_env \<Rightarrow> mutation_operation \<Rightarrow> 'w offline_state \<Rightarrow> ident option \<times> 'w offline_state" where
  "queueOperation env op st =
     (let db = os_db st; (i, w) = oc_uuid env (od_world db); m = createQueuedMutation i (oc_now env (od_world db)) op Last_write_wins;
          (r, db1) = addMutation env m (db\<lparr>od_world := w\<rparr>)
      in case r of
           Inl _ \<Rightarrow> (None, st\<lparr>os_db := db1\<rparr>)
         | Inr _ \<Rightarrow> (Some i, st\<lparr>os_db := db1, os_all := os_all st @ [m]\<rparr>))"

text \<open>With the results of the replay, which the hook does not look at.\<close>

definition processPendingQueue :: "'w offline_env \<Rightarrow> 'w offline_state \<Rightarrow> process_result list \<times> 'w offline_state" where
  "processPendingQueue env st =
     (if os_isProcessing st \<or> \<not> os_isOnline st then ([], st)
      else (let (found, db1) = getPendingMutations env (os_db st); pending = (case found of Inl _ \<Rightarrow> [] | Inr ms \<Rightarrow> ms)
        in if pending = [] then ([], st\<lparr>os_db := db1\<rparr>)
           else (let (rs, db2) = processAllQueuedMutations env (hook_client env) pending db1 in (rs, reload env (st\<lparr>os_db := db2\<rparr>)))))"

definition discardMutation :: "'w offline_env \<Rightarrow> ident \<Rightarrow> 'w offline_state \<Rightarrow> 'w offline_state" where
  "discardMutation env i st = st\<lparr>os_db := snd (removeMutation env i (os_db st)), os_all := filter (\<lambda>m. qm_id m \<noteq> i) (os_all st)\<rparr>"

text \<open>A retry starts the replay when the client is online.\<close>

definition resolveConflictMutation :: "'w offline_env \<Rightarrow> ident \<Rightarrow> conflict_action \<Rightarrow> 'w offline_state \<Rightarrow> process_result list \<times> 'w offline_state" where
  "resolveConflictMutation env i action st =
     (case find (\<lambda>m. qm_id m = i) (os_all st) of
        None \<Rightarrow> ([], st)
      | Some m \<Rightarrow>
          (let resolved = resolveConflict m action;
               st1 = st\<lparr>os_db := snd (updateMutation env resolved (os_db st)), os_all := map (\<lambda>x. if qm_id x = i then resolved else x) (os_all st)\<rparr>
           in if action = Retry_mutation \<and> os_isOnline st1 then processPendingQueue env st1 else ([], st1)))"

definition clearExpired :: "'w offline_env \<Rightarrow> 'w offline_state \<Rightarrow> 'w offline_state" where
  "clearExpired env st = reload env (st\<lparr>os_db := snd (clearExpired_store env (os_db st))\<rparr>)"

text \<open>Total, pending, in flight, resolved, conflict, failed, expired.\<close>

definition getQueueStats :: "'w offline_env \<Rightarrow> 'w offline_state \<Rightarrow> nat list" where
  "getQueueStats env st =
     length (os_all st) #
     map (\<lambda>s. length (filter (\<lambda>m. qm_status m = s) (os_all st))) [Queue_pending, Queue_in_flight, Queue_resolved, Queue_conflict, Queue_failed] @
     [length (filter (queue_expired (oc_now env (od_world (os_db st)))) (os_all st))]"

end
