(* ===== verification/OfflineQueueProps.thy ===== *)
theory OfflineQueueProps
  imports OfflineQueue
begin

text \<open>
  Histories of the offline queue: what the rows of the store look like, that a change is applied at
  most once and in the order the changes were made, and what becomes of changes that meet an error.
\<close>

definition store_works :: "'w offline_env \<Rightarrow> bool" where
  "store_works env \<longleftrightarrow> (\<forall>w. fst (oc_store env w) = None)"

definition offline_clock_ok :: "'w offline_env \<Rightarrow> bool" where
  "offline_clock_ok env \<longleftrightarrow>
     (\<forall>w. oc_now env w \<le> oc_now env (snd (oc_uuid env w)) \<and> oc_now env w \<le> oc_now env (snd (oc_store env w)) \<and>
        (\<forall>c. oc_now env w \<le> oc_now env (snd (oc_send env c w))))"

definition offline_now :: "'w offline_env \<Rightarrow> 'w offline_db \<Rightarrow> millis" where
  "offline_now env db = oc_now env (od_world db)"

lemma transaction_works:
  assumes "store_works env"
  shows "fst (store_transaction env f db) = fst (f (od_rows db))" "od_rows (snd (store_transaction env f db)) = snd (f (od_rows db))"
proof -
  obtain w where "oc_store env (od_world db) = (None, w)" using assms by (cases "oc_store env (od_world db)") (auto simp: store_works_def dest: spec [of _ "od_world db"])
  then show "fst (store_transaction env f db) = fst (f (od_rows db))" "od_rows (snd (store_transaction env f db)) = snd (f (od_rows db))"
    by (simp_all add: store_transaction_def Let_def case_prod_beta)
qed

text \<open>The effect of each operation on the rows.\<close>

lemma store_effects:
  assumes "store_works env"
  shows "od_rows (snd (updateMutation env m db)) = put_row m (od_rows db)"
    and "od_rows (snd (removeMutation env i db)) = filter (\<lambda>x. qm_id x \<noteq> i) (od_rows db)"
    and "fst (getPendingMutations env db) = Inr (pending_rows (od_rows db))" and "od_rows (snd (getPendingMutations env db)) = od_rows db"
    and "fst (getAllMutations env db) = Inr (sort_key qm_queuedAt (store_rows (od_rows db)))" and "od_rows (snd (getAllMutations env db)) = od_rows db"
  by (auto simp: updateMutation_def removeMutation_def getPendingMutations_def getAllMutations_def transaction_works [OF assms])

lemma add_effect:
  assumes "store_works env"
  shows "addMutation env m db = (if list_ex (\<lambda>x. qm_id x = qm_id m) (od_rows db) then (Inl ''ConstraintError'', snd (addMutation env m db))
      else (Inr (qm_id m), snd (addMutation env m db)))"
    and "od_rows (snd (addMutation env m db)) = (if list_ex (\<lambda>x. qm_id x = qm_id m) (od_rows db) then od_rows db else od_rows db @ [m])"
  using transaction_works [OF assms, of "\<lambda>rows. if list_ex (\<lambda>x. qm_id x = qm_id m) rows then (Inl ''ConstraintError'', rows) else (Inr (qm_id m), rows @ [m])" db]
  by (auto simp: addMutation_def prod_eq_iff)

section \<open>Rows and results\<close>

text \<open>What the rows of the store look like at rest.\<close>

definition row_typed :: "millis \<Rightarrow> queued_mutation \<Rightarrow> bool" where
  "row_typed now m \<longleftrightarrow>
     qm_expiresAt m = qm_queuedAt m + 604800000 \<and> qm_maxAttempts m = 5 \<and> qm_attempts m = 0 \<and>
     (case qm_status m of
        Queue_pending \<Rightarrow> True
      | Queue_in_flight \<Rightarrow> False
      | Queue_resolved \<Rightarrow> (\<exists>r. qm_result m = Some r \<and> 200 \<le> mr_status r \<and> mr_status r < 300)
      | Queue_conflict \<Rightarrow> (\<exists>r. qm_result m = Some r \<and> mr_status r = 409)
      | Queue_failed \<Rightarrow> (\<exists>r e. qm_result m = Some r \<and> \<not> (200 \<le> mr_status r \<and> mr_status r < 300) \<and> mr_error r = Some e)
      | Queue_expired \<Rightarrow> queue_expired now m)"

lemma row_typed_later: "row_typed now m \<Longrightarrow> now \<le> now' \<Longrightarrow> row_typed now' m"
  by (auto simp: row_typed_def queue_expired_def split: mutation_status.splits)

lemma created_typed: "row_typed now' (createQueuedMutation i now op res)"
  by (auto simp: row_typed_def createQueuedMutation_def getQueueConfig_def QUEUE_CONFIG_def operation_key_def split: mutation_operation.split)

lemma answered_typed: "row_typed now m \<Longrightarrow> qm_status m \<noteq> Queue_expired \<Longrightarrow> row_typed now' (pq_mutation (after_answer m answer))"
  by (auto simp: row_typed_def after_answer_def Let_def split: sum.split)

lemma resolved_typed: "row_typed now m \<Longrightarrow> row_typed now (resolveConflict m action)"
  by (auto simp: row_typed_def resolveConflict_def split: conflict_action.split)

lemma answered_id [simp]: "qm_id (pq_mutation (after_answer m answer)) = qm_id m"
  by (auto simp: after_answer_def Let_def split: sum.split)

lemma answered_success: "pq_success (after_answer m answer) \<longleftrightarrow> qm_status (pq_mutation (after_answer m answer)) = Queue_resolved"
  by (auto simp: after_answer_def Let_def split: sum.split)

lemma put_row_set: "set (put_row m rows) = insert m {x \<in> set rows. qm_id x \<noteq> qm_id m}"
  by (auto simp: put_row_def)

lemma put_row_twice: "qm_id m' = qm_id m \<Longrightarrow> put_row m' (put_row m rows) = put_row m' rows"
  by (simp add: put_row_def)

lemma put_row_distinct: "distinct (map qm_id rows) \<Longrightarrow> distinct (map qm_id (put_row m rows))"
  by (induction rows) (auto simp: put_row_def)

text \<open>A mutation that has not failed before is put back under its id, whatever happens.\<close>

lemma process_effect:
  assumes "store_works env" and "qm_status m \<noteq> Queue_failed"
  shows "od_rows (snd (processQueuedMutation env client m db)) = put_row (pq_mutation (fst (processQueuedMutation env client m db))) (od_rows db) \<and>
     qm_id (pq_mutation (fst (processQueuedMutation env client m db))) = qm_id m \<and>
     (pq_success (fst (processQueuedMutation env client m db)) \<longleftrightarrow>
        qm_status (pq_mutation (fst (processQueuedMutation env client m db))) = Queue_resolved)"
  using assms(2)
  by (auto simp: processQueuedMutation_def Let_def case_prod_beta store_effects [OF assms(1)] put_row_twice answered_success)

lemma transaction_clock: "offline_clock_ok env \<Longrightarrow> offline_now env db \<le> offline_now env (snd (store_transaction env f db))"
  by (cases "oc_store env (od_world db)")
     (auto simp: store_transaction_def offline_now_def offline_clock_ok_def Let_def case_prod_beta split: option.split
       dest!: spec [of _ "od_world db"])

lemma put_clock: "offline_clock_ok env \<Longrightarrow> offline_now env db \<le> offline_now env (snd (updateMutation env m db))"
  unfolding updateMutation_def by (rule transaction_clock)

lemma client_clock: "offline_clock_ok env \<Longrightarrow> oc_now env w \<le> oc_now env (snd (hook_client env c w))"
  by (auto simp: hook_client_def offline_clock_ok_def case_prod_beta split: sum.split)

lemma process_typed:
  assumes "offline_clock_ok env" and "row_typed (offline_now env db) m" and "qm_status m \<notin> {Queue_failed, Queue_expired}"
  shows "offline_now env db \<le> offline_now env (snd (processQueuedMutation env (hook_client env) m db))"
    and "row_typed (offline_now env (snd (processQueuedMutation env (hook_client env) m db))) (pq_mutation (fst (processQueuedMutation env (hook_client env) m db)))"
proof -
  let ?db1 = "snd (updateMutation env (m\<lparr>qm_status := Queue_in_flight, qm_attempts := qm_attempts m + 1\<rparr>) db)"
  let ?x = "hook_client env (buildApiCall (qm_operation m)) (od_world ?db1)"
  have "offline_now env ?db1 \<le> offline_now env (?db1\<lparr>od_world := snd ?x\<rparr>)" using client_clock [OF assms(1)] by (simp add: offline_now_def)
  then have le: "offline_now env db \<le> offline_now env (snd (updateMutation env m' (?db1\<lparr>od_world := snd ?x\<rparr>)))" for m'
    using put_clock [OF assms(1), of db] put_clock [OF assms(1), of "?db1\<lparr>od_world := snd ?x\<rparr>"] by (meson order_trans)
  show "offline_now env db \<le> offline_now env (snd (processQueuedMutation env (hook_client env) m db))"
    using le put_clock [OF assms(1)] by (simp add: processQueuedMutation_def Let_def case_prod_beta)
  show "row_typed (offline_now env (snd (processQueuedMutation env (hook_client env) m db))) (pq_mutation (fst (processQueuedMutation env (hook_client env) m db)))"
  proof (cases "queue_expired (oc_now env (od_world db)) m")
    case True
    let ?e = "m\<lparr>qm_status := Queue_expired\<rparr>"
    have "row_typed (offline_now env db) ?e" using assms(2) True by (simp add: row_typed_def queue_expired_def offline_now_def)
    then show ?thesis using True row_typed_later [OF _ put_clock [OF assms(1)]] by (simp add: processQueuedMutation_def Let_def)
  next
    case False
    then show ?thesis using assms(2,3) answered_typed [OF assms(2)] by (simp add: processQueuedMutation_def Let_def case_prod_beta)
  qed
qed

section \<open>A replay of the queue\<close>

definition replay_ok :: "'w offline_env \<Rightarrow> queued_mutation list \<Rightarrow> process_result list \<Rightarrow> 'w offline_db \<Rightarrow> 'w offline_db \<Rightarrow> bool" where
  "replay_ok env ms rs db db' \<longleftrightarrow>
     offline_now env db \<le> offline_now env db' \<and> map (qm_id \<circ> pq_mutation) rs = take (length rs) (map qm_id ms) \<and>
     set (od_rows db') = {x \<in> set (od_rows db). qm_id x \<notin> (qm_id \<circ> pq_mutation) ` set rs} \<union> pq_mutation ` set rs \<and>
     (distinct (map qm_id (od_rows db)) \<longrightarrow> distinct (map qm_id (od_rows db'))) \<and>
     (\<forall>r\<in>set rs. row_typed (offline_now env db') (pq_mutation r) \<and> (pq_success r \<longleftrightarrow> qm_status (pq_mutation r) = Queue_resolved))"

lemma process_all_ok:
  assumes "store_works env" and "offline_clock_ok env"
  shows "distinct (map qm_id ms) \<Longrightarrow>
     \<forall>m\<in>set ms. qm_status m \<notin> {Queue_failed, Queue_expired} \<and> row_typed (offline_now env db) m \<Longrightarrow>
     replay_ok env ms (fst (processAllQueuedMutations env (hook_client env) ms db)) db (snd (processAllQueuedMutations env (hook_client env) ms db))"
proof (induction ms arbitrary: db)
  case Nil
  then show ?case by (simp add: replay_ok_def)
next
  case (Cons m ms)
  obtain r db1 where r: "processQueuedMutation env (hook_client env) m db = (r, db1)" by fastforce
  have m: "qm_status m \<notin> {Queue_failed, Queue_expired}" "row_typed (offline_now env db) m" using Cons.prems(2) by auto
  have one: "od_rows db1 = put_row (pq_mutation r) (od_rows db)" "qm_id (pq_mutation r) = qm_id m"
    "pq_success r \<longleftrightarrow> qm_status (pq_mutation r) = Queue_resolved"
    using process_effect [OF assms(1), of m "hook_client env" db] m(1) by (simp_all add: r)
  have typed: "offline_now env db \<le> offline_now env db1" "row_typed (offline_now env db1) (pq_mutation r)"
    using process_typed [OF assms(2) m(2) m(1)] by (simp_all add: r)
  have stop: "replay_ok env (m # ms) [r] db db1"
    using one typed put_row_distinct [of "od_rows db" "pq_mutation r"] by (auto simp: replay_ok_def put_row_set)
  obtain rs db2 where rs: "processAllQueuedMutations env (hook_client env) ms db1 = (rs, db2)" by fastforce
  have ih: "replay_ok env ms rs db1 db2"
    using Cons.IH [of db1] Cons.prems row_typed_later [OF _ typed(1)] by (simp add: rs)
  have "set (map (qm_id \<circ> pq_mutation) rs) \<subseteq> set (map qm_id ms)"
    using ih set_take_subset [of "length rs" "map qm_id ms"] by (simp add: replay_ok_def del: set_map)
  then have new: "qm_id (pq_mutation r) \<notin> (qm_id \<circ> pq_mutation) ` set rs" using Cons.prems(1) one(2) by auto
  have rows: "set (od_rows db2) = {x \<in> set (od_rows db). qm_id x \<notin> (qm_id \<circ> pq_mutation) ` set (r # rs)} \<union> pq_mutation ` set (r # rs)"
    using ih new by (auto simp: replay_ok_def one(1) put_row_set)
  have "replay_ok env (m # ms) (r # rs) db db2"
    unfolding replay_ok_def
  proof (intro conjI)
    show "offline_now env db \<le> offline_now env db2" using ih typed(1) by (simp add: replay_ok_def)
    show "map (qm_id \<circ> pq_mutation) (r # rs) = take (length (r # rs)) (map qm_id (m # ms))" using ih one(2) by (simp add: replay_ok_def)
    show "distinct (map qm_id (od_rows db)) \<longrightarrow> distinct (map qm_id (od_rows db2))"
      using ih put_row_distinct [of "od_rows db" "pq_mutation r"] by (simp add: replay_ok_def one(1))
    show "\<forall>q\<in>set (r # rs). row_typed (offline_now env db2) (pq_mutation q) \<and> (pq_success q \<longleftrightarrow> qm_status (pq_mutation q) = Queue_resolved)"
      using ih one(3) row_typed_later [OF typed(2)] by (simp add: replay_ok_def)
  qed (rule rows)
  then show ?case using stop by (auto simp: r rs split: if_splits)
qed

text \<open>What is replayed: the pending rows, in the order in which they were queued.\<close>

lemma pending_set: "set (pending_rows rows) = {x \<in> set rows. qm_status x \<notin> {Queue_resolved, Queue_failed, Queue_expired}}"
  by (auto simp: pending_rows_def store_rows_def)

lemma pending_distinct: "distinct (map qm_id rows) \<Longrightarrow> distinct (map qm_id (pending_rows rows))"
proof -
  assume d: "distinct (map qm_id rows)"
  then have "inj_on qm_id (set rows)" "distinct rows" by (simp_all add: distinct_map)
  then have "distinct (pending_rows rows)" "inj_on qm_id (set (pending_rows rows))"
    by (auto simp: pending_rows_def store_rows_def inj_on_def)
  then show ?thesis by (simp add: distinct_map)
qed

text \<open>The state of the hook agrees with the store.\<close>

definition offline_ok :: "'w offline_env \<Rightarrow> 'w offline_state \<Rightarrow> bool" where
  "offline_ok env st \<longleftrightarrow>
     set (os_all st) = set (od_rows (os_db st)) \<and> distinct (map qm_id (od_rows (os_db st))) \<and>
     (\<forall>m\<in>set (od_rows (os_db st)). row_typed (offline_now env (os_db st)) m)"

lemma reload_eq:
  assumes "store_works env"
  shows "reload env st = st\<lparr>os_db := snd (getAllMutations env (os_db st)), os_all := sort_key qm_queuedAt (store_rows (od_rows (os_db st)))\<rparr>"
  by (simp add: reload_def Let_def case_prod_beta store_effects [OF assms])

lemma reload_ok:
  assumes "store_works env"
  shows "set (os_all (reload env st)) = set (od_rows (os_db st))" and "od_rows (os_db (reload env st)) = od_rows (os_db st)"
    and "offline_clock_ok env \<Longrightarrow> offline_now env (os_db st) \<le> offline_now env (os_db (reload env st))"
proof -
  show "set (os_all (reload env st)) = set (od_rows (os_db st))" "od_rows (os_db (reload env st)) = od_rows (os_db st)"
    by (simp_all add: reload_eq [OF assms] store_effects [OF assms] store_rows_def)
  show "offline_now env (os_db st) \<le> offline_now env (os_db (reload env st))" if "offline_clock_ok env"
    using transaction_clock [OF that, of "os_db st"] by (simp add: reload_eq [OF assms] getAllMutations_def)
qed

definition replayed_rows :: "process_result list \<Rightarrow> queued_mutation set \<Rightarrow> queued_mutation set" where
  "replayed_rows rs rows = {x \<in> rows. qm_id x \<notin> (qm_id \<circ> pq_mutation) ` set rs} \<union> pq_mutation ` set rs"

lemma process_queue_ok:
  assumes "store_works env" and "offline_clock_ok env" and "offline_ok env st" and "processPendingQueue env st = (rs, st')"
  shows "offline_ok env st'" and "set (od_rows (os_db st')) = replayed_rows rs (set (od_rows (os_db st)))"
    and "map (qm_id \<circ> pq_mutation) rs = take (length rs) (map qm_id (pending_rows (od_rows (os_db st))))"
    and "\<forall>r\<in>set rs. pq_success r \<longleftrightarrow> qm_status (pq_mutation r) = Queue_resolved"
    and "offline_now env (os_db st) \<le> offline_now env (os_db st')"
proof -
  let ?rows = "od_rows (os_db st)" and ?db1 = "snd (getPendingMutations env (os_db st))"
  let ?x = "processAllQueuedMutations env (hook_client env) (pending_rows ?rows) ?db1"
  have le: "offline_now env (os_db st) \<le> offline_now env ?db1" unfolding getPendingMutations_def by (rule transaction_clock [OF assms(2)])
  have rows: "od_rows ?db1 = ?rows" by (simp add: store_effects [OF assms(1)])
  have d: "distinct (map qm_id ?rows)" and t: "\<forall>m\<in>set ?rows. row_typed (offline_now env ?db1) m"
    using assms(3) row_typed_later [OF _ le] by (auto simp: offline_ok_def)
  have ok: "replay_ok env (pending_rows ?rows) (fst ?x) ?db1 (snd ?x)"
    using t by (intro process_all_ok [OF assms(1,2) pending_distinct [OF d]]) (auto simp: pending_set)
  consider (idle) "rs = []" "st' = st" | (none) "rs = []" "st' = st\<lparr>os_db := ?db1\<rparr>" | (some) "rs = fst ?x" "st' = reload env (st\<lparr>os_db := snd ?x\<rparr>)"
  proof -
    have "processPendingQueue env st =
        (if os_isProcessing st \<or> \<not> os_isOnline st then ([], st) else if pending_rows ?rows = [] then ([], st\<lparr>os_db := ?db1\<rparr>)
         else (fst ?x, reload env (st\<lparr>os_db := snd ?x\<rparr>)))"
      by (simp add: processPendingQueue_def Let_def case_prod_beta store_effects [OF assms(1)])
    then have e: "(rs, st') = (if os_isProcessing st \<or> \<not> os_isOnline st then ([], st) else if pending_rows ?rows = [] then ([], st\<lparr>os_db := ?db1\<rparr>)
         else (fst ?x, reload env (st\<lparr>os_db := snd ?x\<rparr>)))" using assms(4) by simp
    show thesis
    proof (cases "os_isProcessing st \<or> \<not> os_isOnline st")
      case True
      then show thesis using e by (intro idle) simp_all
    next
      case False
      then show thesis using e by (cases "pending_rows ?rows = []") (rule none, simp, simp, rule some, simp_all)
    qed
  qed
  then have "offline_ok env st' \<and> set (od_rows (os_db st')) = replayed_rows rs (set ?rows) \<and>
      map (qm_id \<circ> pq_mutation) rs = take (length rs) (map qm_id (pending_rows ?rows)) \<and>
      (\<forall>r\<in>set rs. pq_success r \<longleftrightarrow> qm_status (pq_mutation r) = Queue_resolved) \<and> offline_now env (os_db st) \<le> offline_now env (os_db st')"
  proof cases
    case idle
    then show ?thesis using assms(3) by (simp add: replayed_rows_def)
  next
    case none
    then show ?thesis using assms(3) t le by (simp add: replayed_rows_def offline_ok_def rows)
  next
    case some
    let ?st = "st\<lparr>os_db := snd ?x\<rparr>"
    note re = reload_ok [OF assms(1), of ?st]
    have s: "set (od_rows (snd ?x)) = replayed_rows rs (set ?rows)" using ok some(1) by (simp add: replay_ok_def replayed_rows_def rows)
    have now: "offline_now env ?db1 \<le> offline_now env (snd ?x)" "offline_now env (snd ?x) \<le> offline_now env (os_db st')"
      using ok re(3) [OF assms(2)] some(2) by (simp_all add: replay_ok_def)
    have "row_typed (offline_now env (snd ?x)) m" if "m \<in> set (od_rows (snd ?x))" for m
      using that ok t row_typed_later [OF _ now(1)] unfolding replay_ok_def rows by auto
    then have "offline_ok env st'" using re ok d row_typed_later [OF _ now(2)] some(2) by (auto simp: offline_ok_def replay_ok_def rows)
    then show ?thesis using s re(2) some ok le now by (auto simp: replay_ok_def)
  qed
  then show "offline_ok env st'" "set (od_rows (os_db st')) = replayed_rows rs (set ?rows)"
    "map (qm_id \<circ> pq_mutation) rs = take (length rs) (map qm_id (pending_rows ?rows))"
    "\<forall>r\<in>set rs. pq_success r \<longleftrightarrow> qm_status (pq_mutation r) = Queue_resolved"
    "offline_now env (os_db st) \<le> offline_now env (os_db st')" by blast+
qed

section \<open>Histories\<close>

text \<open>A mutation is queued under an id, or has been replayed with a result.\<close>

datatype queue_trace = Queued ident | Replayed process_result

text \<open>
  The user's changes and decisions (which are offered for conflicts), replays, clean-ups, and time that
  passes on or off line.  The ids are fresh.
\<close>

inductive offline_run :: "'w offline_env \<Rightarrow> 'w offline_state \<Rightarrow> queue_trace list \<Rightarrow> 'w offline_state \<Rightarrow> bool" for env st0 where
  Start: "offline_run env st0 [] st0"
| Change: "offline_run env st0 tr st \<Longrightarrow> queueOperation env op st = (Some i, st') \<Longrightarrow> Queued i \<notin> set tr \<Longrightarrow> offline_run env st0 (tr @ [Queued i]) st'"
| Replay: "offline_run env st0 tr st \<Longrightarrow> processPendingQueue env st = (rs, st') \<Longrightarrow> offline_run env st0 (tr @ map Replayed rs) st'"
| Decide: "offline_run env st0 tr st \<Longrightarrow> find (\<lambda>m. qm_id m = i) (os_all st) = Some m \<Longrightarrow> qm_status m = Queue_conflict \<Longrightarrow>
    resolveConflictMutation env i action st = (rs, st') \<Longrightarrow> offline_run env st0 (tr @ map Replayed rs) st'"
| Discard: "offline_run env st0 tr st \<Longrightarrow> offline_run env st0 tr (discardMutation env i st)"
| Clear: "offline_run env st0 tr st \<Longrightarrow> offline_run env st0 tr (clearExpired env st)"
| Pass: "offline_run env st0 tr st \<Longrightarrow> oc_now env (od_world (os_db st)) \<le> oc_now env w \<Longrightarrow>
    offline_run env st0 tr (st\<lparr>os_db := (os_db st)\<lparr>od_world := w\<rparr>, os_isOnline := b\<rparr>)"

text \<open>The second is a replay of a mutation whose replay, the first, succeeded.\<close>

definition repeated :: "queue_trace \<Rightarrow> queue_trace \<Rightarrow> bool" where
  "repeated a b \<longleftrightarrow> (\<exists>r q. a = Replayed r \<and> b = Replayed q \<and> pq_success r \<and> qm_id (pq_mutation q) = qm_id (pq_mutation r))"

definition trace_ok :: "'w offline_env \<Rightarrow> queue_trace list \<Rightarrow> 'w offline_state \<Rightarrow> bool" where
  "trace_ok env tr st \<longleftrightarrow>
     offline_ok env st \<and> (\<forall>m\<in>set (od_rows (os_db st)). Queued (qm_id m) \<in> set tr) \<and>
     (\<forall>r. Replayed r \<in> set tr \<longrightarrow> Queued (qm_id (pq_mutation r)) \<in> set tr) \<and>
     sorted_wrt (\<lambda>a b. \<not> repeated a b) tr \<and>
     (\<forall>r. Replayed r \<in> set tr \<longrightarrow> pq_success r \<longrightarrow>
        (\<forall>m\<in>set (od_rows (os_db st)). qm_id m = qm_id (pq_mutation r) \<longrightarrow> qm_status m = Queue_resolved))"

lemma trace_ok_rows:
  assumes "trace_ok env tr st" and "offline_ok env st'" and "set (od_rows (os_db st')) \<subseteq> set (od_rows (os_db st))"
  shows "trace_ok env tr st'"
  using assms unfolding trace_ok_def by blast

lemma replay_trace_ok:
  assumes "store_works env" and "offline_clock_ok env" and "trace_ok env tr st" and "processPendingQueue env st = (rs, st')"
  shows "trace_ok env (tr @ map Replayed rs) st'"
proof -
  let ?rows = "od_rows (os_db st)" and ?id = "qm_id \<circ> pq_mutation"
  have ok: "offline_ok env st" using assms(3) by (simp add: trace_ok_def)
  note p = process_queue_ok [OF assms(1,2) ok assms(4)]
  have "distinct (map qm_id ?rows)" using ok by (simp add: offline_ok_def)
  then have "distinct (take (length rs) (map qm_id (pending_rows ?rows)))" by (intro distinct_take pending_distinct)
  then have d: "distinct (map ?id rs)" unfolding p(3) .
  then have inj: "inj_on ?id (set rs)" by (simp add: distinct_map)
  have pend: "\<exists>m\<in>set ?rows. qm_id m = ?id r \<and> qm_status m \<noteq> Queue_resolved" if "r \<in> set rs" for r
  proof -
    have "?id r \<in> set (map ?id rs)" using that by simp
    then have "?id r \<in> set (map qm_id (pending_rows ?rows))" unfolding p(3) by (rule in_set_takeD)
    then show ?thesis by (auto simp: pending_set)
  qed
  have old: "\<not> (pq_success r \<and> ?id q = ?id r)" if "Replayed r \<in> set tr" "q \<in> set rs" for r q
    using pend [OF that(2)] that(1) assms(3) by (fastforce simp: trace_ok_def)
  have rows: "m \<in> set (od_rows (os_db st')) \<Longrightarrow> (m \<in> set ?rows \<and> qm_id m \<notin> ?id ` set rs) \<or> (\<exists>q\<in>set rs. m = pq_mutation q)" for m
    using p(2) by (auto simp: replayed_rows_def)
  show ?thesis
    unfolding trace_ok_def
  proof (intro conjI)
    show "offline_ok env st'" by (rule p(1))
    have q: "Queued (?id r) \<in> set tr" if "r \<in> set rs" for r using pend [OF that] assms(3) by (auto simp: trace_ok_def)
    have "\<forall>m\<in>set ?rows. Queued (qm_id m) \<in> set tr" using assms(3) by (simp add: trace_ok_def)
    then have "Queued (qm_id m) \<in> set tr" if "m \<in> set (od_rows (os_db st'))" for m using rows [OF that] q by auto
    then show "\<forall>m\<in>set (od_rows (os_db st')). Queued (qm_id m) \<in> set (tr @ map Replayed rs)" by simp
    show "\<forall>r. Replayed r \<in> set (tr @ map Replayed rs) \<longrightarrow> Queued (qm_id (pq_mutation r)) \<in> set (tr @ map Replayed rs)"
      using q assms(3) by (auto simp: trace_ok_def)
    have "sorted_wrt (\<lambda>a b. \<not> repeated a b) (map Replayed rs)"
      using d by (induction rs) (auto simp: repeated_def image_iff)
    then show "sorted_wrt (\<lambda>a b. \<not> repeated a b) (tr @ map Replayed rs)"
      using old assms(3) by (auto simp: sorted_wrt_append trace_ok_def repeated_def)
    show "\<forall>r. Replayed r \<in> set (tr @ map Replayed rs) \<longrightarrow> pq_success r \<longrightarrow>
        (\<forall>m\<in>set (od_rows (os_db st')). qm_id m = qm_id (pq_mutation r) \<longrightarrow> qm_status m = Queue_resolved)"
    proof (intro allI impI ballI)
      fix r m
      assume r: "Replayed r \<in> set (tr @ map Replayed rs)" "pq_success r" and m: "m \<in> set (od_rows (os_db st'))" "qm_id m = qm_id (pq_mutation r)"
      show "qm_status m = Queue_resolved"
      proof (cases "r \<in> set rs")
        case True
        then obtain q where "q \<in> set rs" "m = pq_mutation q" using rows [OF m(1)] m(2) by force
        then have "q = r" using inj_onD [OF inj, of q r] True m(2) by simp
        then show ?thesis using p(4) True r(2) \<open>m = pq_mutation q\<close> by simp
      next
        case False
        then have "Replayed r \<in> set tr" using r(1) by auto
        then have "m \<in> set ?rows" using rows [OF m(1)] m(2) r(2) old by force
        then show ?thesis using \<open>Replayed r \<in> set tr\<close> r(2) m(2) assms(3) by (simp add: trace_ok_def)
      qed
    qed
  qed
qed

lemma queue_trace_ok:
  assumes "store_works env" and "offline_clock_ok env" and "trace_ok env tr st" and "queueOperation env op st = (Some i, st')" and "Queued i \<notin> set tr"
  shows "trace_ok env (tr @ [Queued i]) st'"
proof -
  let ?rows = "od_rows (os_db st)"
  let ?w = "snd (oc_uuid env (od_world (os_db st)))"
  let ?m = "createQueuedMutation (fst (oc_uuid env (od_world (os_db st)))) (oc_now env (od_world (os_db st))) op Last_write_wins"
  let ?db = "(os_db st)\<lparr>od_world := ?w\<rparr>"
  have id: "qm_id ?m = fst (oc_uuid env (od_world (os_db st)))" by (simp add: createQueuedMutation_def case_prod_beta)
  note add = add_effect [OF assms(1), of ?m ?db]
  have q: "queueOperation env op st = (case addMutation env ?m ?db of
      (Inl _, db) \<Rightarrow> (None, st\<lparr>os_db := db\<rparr>) | (Inr _, db) \<Rightarrow> (Some (fst (oc_uuid env (od_world (os_db st)))), st\<lparr>os_db := db, os_all := os_all st @ [?m]\<rparr>))"
    by (simp add: queueOperation_def Let_def case_prod_beta split: sum.split)
  obtain db' where a: "addMutation env ?m ?db = (if list_ex (\<lambda>x. qm_id x = qm_id ?m) ?rows then Inl ''ConstraintError'' else Inr (qm_id ?m), db')"
    using add(1) by (cases "list_ex (\<lambda>x. qm_id x = qm_id ?m) ?rows") auto
  then have new: "\<not> list_ex (\<lambda>x. qm_id x = qm_id ?m) ?rows" using assms(4) unfolding q by (auto split: if_splits)
  then have i: "qm_id ?m = i" and st': "st' = st\<lparr>os_db := snd (addMutation env ?m ?db), os_all := os_all st @ [?m]\<rparr>"
    and rows: "od_rows (os_db st') = ?rows @ [?m]"
    using assms(4) add(2) id unfolding q by (auto simp: a)
  have "offline_now env (os_db st) \<le> offline_now env ?db" using assms(2) by (simp add: offline_clock_ok_def offline_now_def)
  then have le: "offline_now env (os_db st) \<le> offline_now env (os_db st')"
    using order_trans [OF _ transaction_clock [OF assms(2), of ?db]] by (simp add: st' addMutation_def)
  have typed: "row_typed (offline_now env (os_db st')) m" if "m \<in> set (od_rows (os_db st'))" for m
    using that rows assms(3) row_typed_later [OF _ le] created_typed by (auto simp: trace_ok_def offline_ok_def)
  have "set (os_all st') = set (od_rows (os_db st'))" "distinct (map qm_id (od_rows (os_db st')))"
    using assms(3) new rows by (auto simp: trace_ok_def offline_ok_def st' list_ex_iff)
  then have "offline_ok env st'" using typed by (simp add: offline_ok_def)
  moreover have "qm_id ?m \<noteq> qm_id (pq_mutation r)" if "Replayed r \<in> set tr" for r
    using assms(3,5) that i by (metis trace_ok_def)
  ultimately show ?thesis using assms(3) rows i
    by (auto simp: trace_ok_def sorted_wrt_append repeated_def)
qed

lemma decide_trace_ok:
  assumes "store_works env" and "offline_clock_ok env" and "trace_ok env tr st"
    and "find (\<lambda>m. qm_id m = i) (os_all st) = Some m" and "qm_status m = Queue_conflict" and "resolveConflictMutation env i action st = (rs, st')"
  shows "trace_ok env (tr @ map Replayed rs) st'"
proof -
  let ?m = "resolveConflict m action"
  let ?st1 = "st\<lparr>os_db := snd (updateMutation env ?m (os_db st)), os_all := map (\<lambda>x. if qm_id x = i then ?m else x) (os_all st)\<rparr>"
  have m: "m \<in> set (os_all st)" "qm_id m = i" using find_Some_in [OF assms(4)] by simp_all
  have ok: "set (os_all st) = set (od_rows (os_db st))" "distinct (map qm_id (od_rows (os_db st)))"
    "\<forall>m\<in>set (od_rows (os_db st)). row_typed (offline_now env (os_db st)) m" using assms(3) by (simp_all add: trace_ok_def offline_ok_def)
  have id: "qm_id ?m = i" using m(2) by (simp add: resolveConflict_def split: conflict_action.split)
  have le: "offline_now env (os_db st) \<le> offline_now env (os_db ?st1)" using put_clock [OF assms(2)] by simp
  have all: "set (os_all ?st1) = set (od_rows (os_db ?st1))" using m ok(1) id by (auto simp: store_effects [OF assms(1)] put_row_set)
  have "row_typed (offline_now env (os_db ?st1)) x" if "x \<in> set (od_rows (os_db ?st1))" for x
  proof -
    have "row_typed (offline_now env (os_db st)) ?m" using ok(3) m(1) ok(1) by (intro resolved_typed) simp
    then show ?thesis using that ok(3) row_typed_later [OF _ le] by (auto simp: store_effects [OF assms(1)] put_row_set)
  qed
  then have "offline_ok env ?st1" using all put_row_distinct [OF ok(2)] by (simp add: offline_ok_def store_effects [OF assms(1)])
  then have one: "trace_ok env tr ?st1"
    using assms(3,5) m ok(1) id by (fastforce simp: trace_ok_def store_effects [OF assms(1)] put_row_set)
  show ?thesis
  proof (cases "action = Retry_mutation \<and> os_isOnline st")
    case True
    then have "processPendingQueue env ?st1 = (rs, st')" using assms(4,6) by (auto simp: resolveConflictMutation_def Let_def)
    then show ?thesis by (rule replay_trace_ok [OF assms(1,2) one])
  next
    case False
    then have "rs = []" "st' = ?st1" using assms(4,6) by (auto simp: resolveConflictMutation_def Let_def)
    then show ?thesis using one by simp
  qed
qed

lemma discard_trace_ok:
  assumes "store_works env" and "offline_clock_ok env" and "trace_ok env tr st"
  shows "trace_ok env tr (discardMutation env i st)"
proof (rule trace_ok_rows [OF assms(3)])
  have le: "offline_now env (os_db st) \<le> offline_now env (os_db (discardMutation env i st))"
    using transaction_clock [OF assms(2)] by (simp add: discardMutation_def removeMutation_def)
  show "offline_ok env (discardMutation env i st)"
    using assms(3) row_typed_later [OF _ le]
    by (auto simp: trace_ok_def offline_ok_def discardMutation_def store_effects [OF assms(1)] distinct_map_filter)
qed (auto simp: discardMutation_def store_effects [OF assms(1)])

lemma clear_trace_ok:
  assumes "store_works env" and "offline_clock_ok env" and "trace_ok env tr st"
  shows "trace_ok env tr (clearExpired env st)"
proof (rule trace_ok_rows [OF assms(3)])
  let ?st = "st\<lparr>os_db := snd (clearExpired_store env (os_db st))\<rparr>"
  note re = reload_ok [OF assms(1), of ?st]
  have rows: "od_rows (os_db (clearExpired env st)) =
      filter (\<lambda>x. \<not> queue_expired (oc_now env (snd (oc_store env (od_world (os_db st))))) x) (od_rows (os_db st))"
    unfolding clearExpired_def re(2) by (simp add: clearExpired_store_def transaction_works [OF assms(1)])
  have le: "offline_now env (os_db st) \<le> offline_now env (os_db (clearExpired env st))"
  proof -
    have "offline_now env (os_db st) \<le> offline_now env (os_db ?st)" using transaction_clock [OF assms(2), of "os_db st"] by (simp add: clearExpired_store_def)
    also have "\<dots> \<le> offline_now env (os_db (clearExpired env st))" using re(3) [OF assms(2)] by (simp add: clearExpired_def)
    finally show ?thesis .
  qed
  have "set (os_all (clearExpired env st)) = set (od_rows (os_db (clearExpired env st)))" using re by (simp add: clearExpired_def)
  then show "offline_ok env (clearExpired env st)"
    using assms(3) row_typed_later [OF _ le] by (auto simp: trace_ok_def offline_ok_def rows distinct_map_filter)
  show "set (od_rows (os_db (clearExpired env st))) \<subseteq> set (od_rows (os_db st))" by (auto simp: rows)
qed

lemma run_trace_ok:
  assumes "offline_run env st0 tr st" and "store_works env" and "offline_clock_ok env" and "od_rows (os_db st0) = []" and "os_all st0 = []"
  shows "trace_ok env tr st"
  using assms(1)
proof (induction rule: offline_run.induct)
  case Start
  then show ?case using assms(4,5) by (simp add: trace_ok_def offline_ok_def)
next
  case (Change tr st op i st')
  then show ?case using queue_trace_ok [OF assms(2,3)] by blast
next
  case (Replay tr st rs st')
  then show ?case using replay_trace_ok [OF assms(2,3)] by blast
next
  case (Decide tr st i m action rs st')
  then show ?case using decide_trace_ok [OF assms(2,3)] by blast
next
  case (Discard tr st i)
  then show ?case using discard_trace_ok [OF assms(2,3)] by blast
next
  case (Clear tr st)
  then show ?case using clear_trace_ok [OF assms(2,3)] by blast
next
  case (Pass tr st w b)
  show ?case
    by (rule trace_ok_rows [OF Pass.IH])
       (use Pass row_typed_later in \<open>auto simp: trace_ok_def offline_ok_def offline_now_def\<close>)
qed



section \<open>A client whose server answers what it is told\<close>

definition demo_offline :: "(millis \<times> int list \<times> nat) offline_env" where
  "demo_offline =
     \<lparr>oc_now = fst, oc_uuid = (\<lambda>(t, ss, n). (show_nat n, (t, ss, n + 1))), oc_store = (\<lambda>w. (None, w)),
      oc_send = (\<lambda>_ (t, ss, n). case ss of [] \<Rightarrow> (Inl (Some ''Failed to fetch''), (t, [], n))
        | s # ss' \<Rightarrow> (Inr \<lparr>ap_status = s, ap_data = JNull, ap_error = None\<rparr>, (t, ss', n)))\<rparr>"

definition demo_client :: "int list \<Rightarrow> (millis \<times> int list \<times> nat) offline_state" where
  "demo_client answers = \<lparr>os_db = \<lparr>od_rows = [], od_world = (0, answers, 0)\<rparr>, os_all = [], os_isOnline = True, os_isProcessing = False\<rparr>"

lemma demo_offline_ok: "store_works demo_offline" "offline_clock_ok demo_offline"
  by (auto simp: store_works_def offline_clock_ok_def demo_offline_def split: list.split)

lemma demo_offline_run:
  "\<exists>r q st. offline_run demo_offline (demo_client [201, 200]) [Queued ''0'', Replayed r, Queued ''1'', Replayed q] st \<and> pq_success r"
proof -
  let ?op = "Delete_mutation ''s1''"
  let ?a = "queueOperation demo_offline ?op (demo_client [201, 200])"
  let ?b = "processPendingQueue demo_offline (snd ?a)"
  let ?c = "queueOperation demo_offline ?op (snd ?b)"
  let ?d = "processPendingQueue demo_offline (snd ?c)"
  have e: "fst ?a = Some ''0''" "case fst ?b of [r] \<Rightarrow> pq_success r | _ \<Rightarrow> False" "fst ?c = Some ''1''" "length (fst ?d) = 1" by code_simp+
  obtain r where r: "fst ?b = [r]" "pq_success r" using e(2) by (auto split: list.splits)
  obtain q where q: "fst ?d = [q]" using e(4) by (auto simp: length_Suc_conv)
  have "offline_run demo_offline (demo_client [201, 200]) ([] @ [Queued ''0'']) (snd ?a)"
    by (rule Change [OF Start, of _ ?op]) (use e(1) in \<open>auto simp: prod_eq_iff\<close>)
  then have "offline_run demo_offline (demo_client [201, 200]) (([] @ [Queued ''0'']) @ map Replayed [r]) (snd ?b)"
    by (rule Replay) (use r in \<open>auto simp: prod_eq_iff\<close>)
  then have "offline_run demo_offline (demo_client [201, 200]) ((([] @ [Queued ''0'']) @ map Replayed [r]) @ [Queued ''1'']) (snd ?c)"
    by (rule Change [of _ _ _ _ ?op]) (use e(3) in \<open>auto simp: prod_eq_iff\<close>)
  then have "offline_run demo_offline (demo_client [201, 200]) (((([] @ [Queued ''0'']) @ map Replayed [r]) @ [Queued ''1'']) @ map Replayed [q]) (snd ?d)"
    by (rule Replay) (use q in \<open>auto simp: prod_eq_iff\<close>)
  then show ?thesis using r(2) by auto
qed



section \<open>What the queue does not promise\<close>

text \<open>
  A change that meets an error of the server or the network, after which it should be retried, is never
  sent again: it is failed, and only what has not failed is replayed.
\<close>

theorem failed_change_is_given_up:
  "let (_, st1) = queueOperation demo_offline (Delete_mutation ''s1'') (demo_client answers);
       (rs, st2) = processPendingQueue demo_offline st1
   in answers = [503] \<or> answers = [] \<longrightarrow> map (\<lambda>r. qm_status (pq_mutation r)) rs = [Queue_failed] \<and> fst (processPendingQueue demo_offline st2) = []"
proof -
  have a: "let (_, st1) = queueOperation demo_offline (Delete_mutation ''s1'') (demo_client [503]); (rs, st2) = processPendingQueue demo_offline st1
    in map (\<lambda>r. qm_status (pq_mutation r)) rs = [Queue_failed] \<and> fst (processPendingQueue demo_offline st2) = []" by code_simp
  have b: "let (_, st1) = queueOperation demo_offline (Delete_mutation ''s1'') (demo_client []); (rs, st2) = processPendingQueue demo_offline st1
    in map (\<lambda>r. qm_status (pq_mutation r)) rs = [Queue_failed] \<and> fst (processPendingQueue demo_offline st2) = []" by code_simp
  show ?thesis using a b by (auto simp: Let_def case_prod_beta)
qed

text \<open>The attempts that bound the retries are not counted.\<close>

theorem attempts_stay_zero:
  assumes "store_works env" and "offline_clock_ok env" and "od_rows (os_db st0) = []" and "os_all st0 = []" and "offline_run env st0 tr st"
    and "m \<in> set (od_rows (os_db st))"
  shows "qm_attempts m = 0"
  using run_trace_ok [OF assms(5,1-4)] assms(6) by (auto simp: trace_ok_def offline_ok_def row_typed_def)

text \<open>A conflict is replayed with the next run, without the decision of the user.\<close>

theorem conflict_is_replayed:
  "let (_, st1) = queueOperation demo_offline (Delete_mutation ''s1'') (demo_client [409, 200]);
       (rs, st2) = processPendingQueue demo_offline st1
   in map (\<lambda>r. qm_status (pq_mutation r)) rs = [Queue_conflict] \<and>
      map (\<lambda>r. qm_status (pq_mutation r)) (fst (processPendingQueue demo_offline st2)) = [Queue_resolved]"
  by code_simp

text \<open>A mutation that is discarded while it is being sent comes back when the answer is written.\<close>

theorem discarded_comes_back:
  "store_works env \<Longrightarrow>
     od_rows (snd (updateMutation env (pq_mutation (after_answer m answer)) (snd (removeMutation env (qm_id m) db)))) =
     filter (\<lambda>x. qm_id x \<noteq> qm_id m) (od_rows db) @ [pq_mutation (after_answer m answer)]"
  by (simp add: store_effects put_row_def)

end
