(* ===== verification/JsonParse.thy ===== *)
theory JsonParse
  imports JsonText
begin

text \<open>
  \<open>JSON.parse\<close>, the inverse of \<open>JSON.stringify\<close>: white space, escapes, numbers (whose value is an
  argument), arrays and objects, of which a later member with the name of an earlier one replaces its
  value.  A string is a list of code units below 256; an escape of a larger one is refused.  The number of
  steps is bounded by the length of the text.
\<close>

fun skip_space :: "string \<Rightarrow> string" where
  "skip_space (c # s) = (if code c \<in> {32, 9, 10, 13} then skip_space s else c # s)"
| "skip_space [] = []"

definition unescape :: "char \<Rightarrow> char option" where
  "unescape c =
     (if c = CHR 0x22 \<or> c = CHR 0x5C \<or> c = CHR 0x2F then Some c else if c = CHR ''b'' then Some (CHR 0x08) else if c = CHR ''f'' then Some (CHR 0x0C)
      else if c = CHR ''n'' then Some (CHR 0x0A) else if c = CHR ''r'' then Some (CHR 0x0D) else if c = CHR ''t'' then Some (CHR 0x09) else None)"

definition hex4 :: "char \<Rightarrow> char \<Rightarrow> char \<Rightarrow> char \<Rightarrow> char option" where
  "hex4 a b c d =
     (case (hex_value a, hex_value b, hex_value c, hex_value d) of
        (Some w, Some x, Some y, Some z) \<Rightarrow> (let n = ((w * 16 + x) * 16 + y) * 16 + z in if n < 256 then Some (char_of n) else None)
      | _ \<Rightarrow> None)"

definition cons_first :: "'a \<Rightarrow> ('a list \<times> string) option \<Rightarrow> ('a list \<times> string) option" where
  "cons_first x = map_option (map_prod ((#) x) id)"

text \<open>After the opening quote: the string and what follows the closing one.\<close>

fun parse_string :: "string \<Rightarrow> (string \<times> string) option" where
  "parse_string [] = None"
| "parse_string (c # s) =
     (if c = CHR 0x22 then Some ([], s)
      else if c = CHR 0x5C
      then (case s of
          e # s1 \<Rightarrow>
            if e = CHR ''u''
            then (case s1 of
                a # b # x # y # s2 \<Rightarrow> (case hex4 a b x y of None \<Rightarrow> None | Some u \<Rightarrow> cons_first u (parse_string s2))
              | _ \<Rightarrow> None)
            else (case unescape e of None \<Rightarrow> None | Some u \<Rightarrow> cons_first u (parse_string s1))
        | [] \<Rightarrow> None)
      else if code c < 32 then None
      else cons_first c (parse_string s))"

definition parse_number :: "(string \<Rightarrow> amount option) \<Rightarrow> string \<Rightarrow> (json \<times> string) option" where
  "parse_number read s = map_option (\<lambda>x. (JNum x, dropWhile number_char s)) (read (takeWhile number_char s))"

definition literal :: "string \<Rightarrow> json \<Rightarrow> string \<Rightarrow> (json \<times> string) option" where
  "literal word v s = (if take (length word) s = word then Some (v, drop (length word) s) else None)"

text \<open>A value, the elements of an array after its bracket, the members of an object after its brace.\<close>

fun parse_value :: "(string \<Rightarrow> amount option) \<Rightarrow> nat \<Rightarrow> string \<Rightarrow> (json \<times> string) option"
  and parse_elements :: "(string \<Rightarrow> amount option) \<Rightarrow> nat \<Rightarrow> string \<Rightarrow> (json list \<times> string) option"
  and parse_members :: "(string \<Rightarrow> amount option) \<Rightarrow> nat \<Rightarrow> string \<Rightarrow> ((string \<times> json) list \<times> string) option" where
  "parse_value read 0 s = None"
| "parse_value read (Suc n) s =
     (case skip_space s of
        [] \<Rightarrow> None
      | c # r \<Rightarrow>
          if c = CHR 0x22 then map_option (map_prod JStr id) (parse_string r)
          else if c = CHR ''['' then (case skip_space r of
              d # q \<Rightarrow> if d = CHR '']'' then Some (JArr [], q) else map_option (map_prod JArr id) (parse_elements read n r)
            | [] \<Rightarrow> None)
          else if c = CHR ''{'' then (case skip_space r of
              d # q \<Rightarrow> if d = CHR ''}'' then Some (JObj [], q) else map_option (map_prod (\<lambda>ms. JObj (foldl (\<lambda>m (k, v). js_set k v m) [] ms)) id) (parse_members read n r)
            | [] \<Rightarrow> None)
          else if c = CHR ''n'' then literal ''null'' JNull (c # r)
          else if c = CHR ''t'' then literal ''true'' (JBool True) (c # r)
          else if c = CHR ''f'' then literal ''false'' (JBool False) (c # r)
          else parse_number read (c # r))"
| "parse_elements read 0 s = None"
| "parse_elements read (Suc n) s =
     (case parse_value read n s of
        None \<Rightarrow> None
      | Some (v, r) \<Rightarrow>
          (case skip_space r of
             d # q \<Rightarrow> if d = CHR '','' then cons_first v (parse_elements read n q) else if d = CHR '']'' then Some ([v], q) else None
           | [] \<Rightarrow> None))"
| "parse_members read 0 s = None"
| "parse_members read (Suc n) s =
     (case skip_space s of
        c # r \<Rightarrow>
          if c = CHR 0x22
          then (case parse_string r of
              None \<Rightarrow> None
            | Some (k, q) \<Rightarrow>
                (case skip_space q of
                   e # u \<Rightarrow>
                     if e = CHR '':''
                     then (case parse_value read n u of
                         None \<Rightarrow> None
                       | Some (v, t) \<Rightarrow>
                           (case skip_space t of
                              d # w \<Rightarrow> if d = CHR '','' then cons_first (k, v) (parse_members read n w) else if d = CHR ''}'' then Some ([(k, v)], w) else None
                            | [] \<Rightarrow> None))
                     else None
                 | [] \<Rightarrow> None))
          else None
      | [] \<Rightarrow> None)"

text \<open>The whole text; every step but the last of a value reads a character.\<close>

definition json_parse :: "(string \<Rightarrow> amount option) \<Rightarrow> string \<Rightarrow> json option" where
  "json_parse read s =
     (case parse_value read (2 * length s + 2) s of Some (v, r) \<Rightarrow> if skip_space r = [] then Some v else None | None \<Rightarrow> None)"

section \<open>Parsing what was printed\<close>

lemma hex_value_of_digit: "n < 16 \<Longrightarrow> hex_value (hex_digit n) = Some n"
  by (simp add: hex_value_def hex_digit_code)

lemma control_codes:
  "code c = 34 \<longleftrightarrow> c = CHR 0x22" "code c = 92 \<longleftrightarrow> c = CHR 0x5C" "code c = 8 \<longleftrightarrow> c = CHR 0x08" "code c = 9 \<longleftrightarrow> c = CHR 0x09"
  "code c = 10 \<longleftrightarrow> c = CHR 0x0A" "code c = 12 \<longleftrightarrow> c = CHR 0x0C" "code c = 13 \<longleftrightarrow> c = CHR 0x0D"
proof -
  have k: "code (CHR 0x22) = 34" "code (CHR 0x5C) = 92" "code (CHR 0x08) = 8" "code (CHR 0x09) = 9" "code (CHR 0x0A) = 10" "code (CHR 0x0C) = 12"
    "code (CHR 0x0D) = 13" by (simp_all add: code_def)
  show "code c = 34 \<longleftrightarrow> c = CHR 0x22" "code c = 92 \<longleftrightarrow> c = CHR 0x5C" "code c = 8 \<longleftrightarrow> c = CHR 0x08" "code c = 9 \<longleftrightarrow> c = CHR 0x09"
    "code c = 10 \<longleftrightarrow> c = CHR 0x0A" "code c = 12 \<longleftrightarrow> c = CHR 0x0C" "code c = 13 \<longleftrightarrow> c = CHR 0x0D"
    by (simp_all only: k [symmetric] code_eq_iff)
qed

lemma unescape_short: "short_escape c = Some x \<Longrightarrow> x \<noteq> CHR ''u'' \<and> unescape x = Some c"
  unfolding short_escape_def Let_def control_codes by (auto simp: unescape_def split: if_splits)

lemma hex4_code: "code c < 32 \<Longrightarrow> hex4 (CHR ''0'') (CHR ''0'') (hex_digit (code c div 16)) (hex_digit (code c mod 16)) = Some c"
proof -
  assume a: "code c < 32"
  have z: "hex_value (CHR ''0'') = Some 0" by code_simp
  show ?thesis using a by (simp add: hex4_def z hex_value_of_digit Let_def) (simp add: code_def)
qed

lemma plain_code: "quote_char c = [c] \<Longrightarrow> 32 \<le> code c"
  by (auto simp: quote_char_def Let_def split: if_splits)

lemma parse_string_quoted: "parse_string (concat (map quote_char s) @ CHR 0x22 # r) = Some (s, r)"
proof (induction s)
  case (Cons c s)
  show ?case
  proof (rule quote_char_cases [of c])
    fix x assume "short_escape c = Some x" "quote_char c = [CHR 0x5C, x]"
    then show ?thesis using Cons.IH unescape_short [of c x] by (simp add: cons_first_def)
  next
    assume "code c < 32" "quote_char c = [CHR 0x5C, CHR ''u'', CHR ''0'', CHR ''0'', hex_digit (code c div 16), hex_digit (code c mod 16)]"
    then show ?thesis using Cons.IH hex4_code [of c] by (simp add: cons_first_def)
  next
    assume "c \<noteq> CHR 0x5C" "c \<noteq> CHR 0x22" "quote_char c = [c]"
    then show ?thesis using Cons.IH plain_code [of c] by (simp add: cons_first_def)
  qed
qed simp

definition reads_back :: "(string \<Rightarrow> amount option) \<Rightarrow> (amount \<Rightarrow> string) \<Rightarrow> bool" where
  "reads_back read num \<longleftrightarrow> numbers_ok num \<and> (\<forall>x. read (num x) = Some x)"

text \<open>Objects with one member per name.\<close>

fun json_wf :: "json \<Rightarrow> bool" where
  "json_wf (JArr xs) = list_all json_wf xs"
| "json_wf (JObj kvs) = (distinct (map fst kvs) \<and> list_all (\<lambda>(k, v). json_wf v) kvs)"
| "json_wf v = True"

definition space_char :: "char \<Rightarrow> bool" where
  "space_char c \<longleftrightarrow> code c \<in> {32, 9, 10, 13}"

lemma number_not_space: "number_char c \<Longrightarrow> \<not> space_char c"
  by (auto simp: number_char_def space_char_def Let_def)

lemma skip_none [simp]: "\<not> space_char c \<Longrightarrow> skip_space (c # s) = c # s"
  by (simp add: space_char_def)

declare skip_space.simps(1) [simp del]

lemma plain_chars [simp]:
  "\<not> space_char (CHR 0x22)" "\<not> space_char (CHR '','')" "\<not> space_char (CHR ''['')" "\<not> space_char (CHR '']'')" "\<not> space_char (CHR ''{'')"
  "\<not> space_char (CHR ''}'')" "\<not> space_char (CHR '':'')" "\<not> space_char (CHR ''n'')" "\<not> space_char (CHR ''t'')" "\<not> space_char (CHR ''f'')"
  by (simp_all add: space_char_def code_def)

lemma text_head:
  assumes "numbers_ok num"
  obtains c t where "json_stringify num v = c # t" "\<not> space_char c" "c \<noteq> CHR '']''" "c \<noteq> CHR ''}''"
proof (cases v)
  case (JNum n)
  then obtain c t where "num n = c # t" "number_char c" using assms by (cases "num n") (auto simp: numbers_ok_def dest: spec [of _ n])
  then show thesis using that JNum number_not_space not_number_chars by (metis json_stringify.simps(3))
next
  case (JBool b)
  then show thesis using that by (cases b) auto
qed (use that in \<open>auto simp: quote_def\<close>)

lemma parse_number_text:
  assumes "reads_back read num" and "ends r"
  shows "parse_number read (num x @ r) = Some (JNum x, r)"
proof -
  have "list_all number_char (num x)" using assms(1) by (simp add: reads_back_def numbers_ok_def)
  moreover have "takeWhile number_char r = []" "dropWhile number_char r = r" using assms(2) by (cases r; simp add: ends_def)+
  ultimately have "takeWhile number_char (num x @ r) = num x" "dropWhile number_char (num x @ r) = r"
    by (simp_all add: list_all_iff takeWhile_append2 dropWhile_append2)
  then show ?thesis using assms(1) by (simp add: parse_number_def reads_back_def)
qed

definition parses :: "(string \<Rightarrow> amount option) \<Rightarrow> (amount \<Rightarrow> string) \<Rightarrow> json \<Rightarrow> bool" where
  "parses read num v \<longleftrightarrow>
     (\<forall>n r. 2 * length (json_stringify num v) \<le> n \<longrightarrow> ends r \<longrightarrow> parse_value read n (json_stringify num v @ r) = Some (v, r))"

lemma join_Cons_ne: "xs \<noteq> [] \<Longrightarrow> join sep (x # xs) = x @ sep @ join sep xs"
  by (cases xs) simp_all

lemma elements_parse:
  assumes "reads_back read num" and "xs \<noteq> []" and "\<forall>x\<in>set xs. parses read num x"
    and "2 * length (join '','' (map (json_stringify num) xs)) + 1 \<le> n"
  shows "parse_elements read n (join '','' (map (json_stringify num) xs) @ CHR '']'' # r) = Some (xs, r)"
  using assms(2-4)
proof (induction xs arbitrary: n)
  case (Cons x xs)
  obtain m where n: "n = Suc m" using Cons.prems(3) by (cases n) auto
  have x: "parses read num x" using Cons.prems(2) by simp
  show ?case
  proof (cases "xs = []")
    case True
    then show ?thesis using Cons.prems(3) x by (simp add: n parses_def)
  next
    case False
    let ?rest = "join '','' (map (json_stringify num) xs)"
    have j: "join '','' (map (json_stringify num) (x # xs)) = json_stringify num x @ CHR '','' # ?rest"
      using False by (simp add: join_Cons_ne)
    have "parse_value read m (json_stringify num x @ CHR '','' # ?rest @ CHR '']'' # r) = Some (x, CHR '','' # ?rest @ CHR '']'' # r)"
      using x Cons.prems(3) unfolding j n by (simp add: parses_def)
    moreover have "parse_elements read m (?rest @ CHR '']'' # r) = Some (xs, r)"
      using Cons.IH [OF False] Cons.prems(2,3) unfolding j n by simp
    ultimately show ?thesis unfolding j n by (simp add: cons_first_def)
  qed
qed simp

lemma members_parse:
  assumes "reads_back read num" and "kvs \<noteq> []" and "\<forall>(k, v)\<in>set kvs. parses read num v"
    and "2 * length (join '','' (map (\<lambda>(k, v). field_text (k, json_stringify num v)) kvs)) + 1 \<le> n"
  shows "parse_members read n (join '','' (map (\<lambda>(k, v). field_text (k, json_stringify num v)) kvs) @ CHR ''}'' # r) = Some (kvs, r)"
  using assms(2-4)
proof (induction kvs arbitrary: n)
  case (Cons p kvs)
  obtain k v where p: "p = (k, v)" by (cases p)
  obtain m where n: "n = Suc m" using Cons.prems(3) by (cases n) auto
  have x: "parses read num v" using Cons.prems(2) p by simp
  have q: "parse_string (concat (map quote_char k) @ CHR 0x22 # s) = Some (k, s)" for s by (rule parse_string_quoted)
  show ?case
  proof (cases "kvs = []")
    case True
    have "parse_value read m (json_stringify num v @ CHR ''}'' # r) = Some (v, CHR ''}'' # r)"
      using x Cons.prems(3) by (simp add: n p True parses_def field_text_def quote_def)
    then show ?thesis by (simp add: n p True field_text_def quote_def q)
  next
    case False
    let ?rest = "join '','' (map (\<lambda>(k, v). field_text (k, json_stringify num v)) kvs)"
    have j: "join '','' (map (\<lambda>(k, v). field_text (k, json_stringify num v)) (p # kvs)) =
        CHR 0x22 # concat (map quote_char k) @ CHR 0x22 # CHR '':'' # json_stringify num v @ CHR '','' # ?rest"
      using False by (simp add: join_Cons_ne p field_text_def quote_def)
    have "parse_value read m (json_stringify num v @ CHR '','' # ?rest @ CHR ''}'' # r) = Some (v, CHR '','' # ?rest @ CHR ''}'' # r)"
      using x Cons.prems(3) unfolding j n by (simp add: parses_def)
    moreover have "parse_members read m (?rest @ CHR ''}'' # r) = Some (kvs, r)"
      using Cons.IH [OF False] Cons.prems(2,3) unfolding j n by simp
    ultimately show ?thesis unfolding j n by (simp add: p q cons_first_def)
  qed
qed simp

lemma set_members: "distinct (map fst (acc @ kvs)) \<Longrightarrow> foldl (\<lambda>m (k, v). js_set k v m) acc kvs = acc @ kvs"
proof (induction kvs arbitrary: acc)
  case (Cons p kvs)
  obtain k v where p: "p = (k, v)" by (cases p)
  have "js_get acc k = None" using Cons.prems p by (auto simp: js_get_None_iff js_keys_def)
  then show ?case using Cons.IH [of "acc @ [(k, v)]"] Cons.prems p by (simp add: js_set_fresh)
qed simp

lemma stringify_parses: "reads_back read num \<Longrightarrow> json_wf v \<Longrightarrow> parses read num v"
proof (induction num v rule: json_stringify.induct)
  case (1 num)
  have "0 < n \<Longrightarrow> parse_value read n (''null'' @ r) = Some (JNull, r)" for n r by (cases n) (simp_all add: literal_def)
  then show ?case unfolding parses_def json_stringify.simps by simp
next
  case (2 num b)
  have "0 < n \<Longrightarrow> parse_value read n ((if b then ''true'' else ''false'') @ r) = Some (JBool b, r)" for n r by (cases n) (simp_all add: literal_def)
  then show ?case unfolding parses_def json_stringify.simps by (cases b) simp_all
next
  case (3 num x)
  show ?case
    unfolding parses_def
  proof (intro allI impI)
    fix n r assume n: "2 * length (json_stringify num (JNum x)) \<le> n" and r: "ends r"
    obtain c t where c: "num x = c # t" "number_char c" using 3(1) by (cases "num x") (auto simp: reads_back_def numbers_ok_def dest: spec [of _ x])
    obtain m where m: "n = Suc m" using n c(1) by (cases n) auto
    have "c \<noteq> CHR 0x22 \<and> c \<noteq> CHR ''['' \<and> c \<noteq> CHR ''{'' \<and> c \<noteq> CHR ''n'' \<and> c \<noteq> CHR ''t'' \<and> c \<noteq> CHR ''f''" using c(2) not_number_chars by metis
    then show "parse_value read n (json_stringify num (JNum x) @ r) = Some (JNum x, r)"
      using parse_number_text [OF 3(1) r, of x] number_not_space [OF c(2)] by (simp add: m c(1))
  qed
next
  case (4 num s)
  show ?case
    unfolding parses_def
  proof (intro allI impI)
    fix n r assume "2 * length (json_stringify num (JStr s)) \<le> n"
    then obtain m where "n = Suc m" by (cases n) (auto simp: quote_def)
    then show "parse_value read n (json_stringify num (JStr s) @ r) = Some (JStr s, r)" by (simp add: quote_def parse_string_quoted)
  qed
next
  case (5 num xs)
  show ?case
    unfolding parses_def
  proof (intro allI impI)
    fix n r assume n: "2 * length (json_stringify num (JArr xs)) \<le> n"
    obtain m where m: "n = Suc m" using n by (cases n) auto
    show "parse_value read n (json_stringify num (JArr xs) @ r) = Some (JArr xs, r)"
    proof (cases "xs = []")
      case True
      then show ?thesis by (simp add: m)
    next
      case False
      have "\<forall>x\<in>set xs. parses read num x" using 5 by (simp add: list_all_iff)
      then have e: "parse_elements read m (join '','' (map (json_stringify num) xs) @ CHR '']'' # r) = Some (xs, r)"
        using n by (intro elements_parse [OF 5(2) False]) (simp_all add: m)
      obtain c t where "join '','' (map (json_stringify num) xs) = c # t" "\<not> space_char c" "c \<noteq> CHR '']''"
      proof -
        obtain y ys where xs: "xs = y # ys" using False by (cases xs) auto
        obtain c t where "json_stringify num y = c # t" "\<not> space_char c" "c \<noteq> CHR '']''"
          by (rule text_head [of num y]) (use 5(2) in \<open>simp add: reads_back_def\<close>)
        then show thesis using that by (cases ys) (auto simp: xs)
      qed
      then show ?thesis using e by (simp add: m)
    qed
  qed
next
  case (6 num kvs)
  let ?t = "\<lambda>(k, v). field_text (k, json_stringify num v)"
  have j: "map field_text (map (\<lambda>(k, v). (k, json_stringify num v)) kvs) = map ?t kvs" by auto
  show ?case
    unfolding parses_def
  proof (intro allI impI)
    fix n r assume n: "2 * length (json_stringify num (JObj kvs)) \<le> n"
    obtain m where m: "n = Suc m" using n by (cases n) auto
    show "parse_value read n (json_stringify num (JObj kvs) @ r) = Some (JObj kvs, r)"
    proof (cases "kvs = []")
      case True
      then show ?thesis by (simp add: m)
    next
      case False
      have "\<forall>(k, v)\<in>set kvs. parses read num v" using 6 by (auto simp: list_all_iff)
      then have e: "parse_members read m (join '','' (map ?t kvs) @ CHR ''}'' # r) = Some (kvs, r)"
        using n unfolding json_stringify.simps j by (intro members_parse [OF 6(2) False]) (simp_all add: m)
      obtain t where "join '','' (map ?t kvs) = CHR 0x22 # t"
      proof -
        obtain k v ys where "kvs = (k, v) # ys" using False by (cases kvs) auto
        then show thesis using that by (cases ys) (auto simp: field_text_def quote_def)
      qed
      moreover have "foldl (\<lambda>m (k, v). js_set k v m) [] kvs = kvs" using set_members [of "[]" kvs] 6(3) by simp
      ultimately show ?thesis using e unfolding json_stringify.simps j by (simp add: m)
    qed
  qed
qed

lemma json_parse_stringify: "reads_back read num \<Longrightarrow> json_wf v \<Longrightarrow> json_parse read (json_stringify num v) = Some v"
proof -
  assume "reads_back read num" "json_wf v"
  then have "parse_value read (2 * length (json_stringify num v) + 2) (json_stringify num v @ []) = Some (v, [])"
    using stringify_parses [of read num v] ends_simps(1) unfolding parses_def by (meson le_add1)
  then show ?thesis by (simp add: json_parse_def)
qed

section \<open>Reading fractions back\<close>

definition read_nat :: "string \<Rightarrow> nat" where
  "read_nat s = foldl (\<lambda>n c. 10 * n + (code c - 48)) 0 s"

definition read_int :: "string \<Rightarrow> int" where
  "read_int s = (case s of c # t \<Rightarrow> if c = CHR ''-'' then - int (read_nat t) else int (read_nat s) | [] \<Rightarrow> 0)"

definition read_fraction :: "string \<Rightarrow> amount option" where
  "read_fraction s =
     (if CHR ''e'' \<in> set s
      then Some (Fract (read_int (takeWhile (\<lambda>c. c \<noteq> CHR ''e'') s)) (int (read_nat (drop 1 (dropWhile (\<lambda>c. c \<noteq> CHR ''e'') s))))) else None)"

lemma read_show_nat: "read_nat (show_nat n) = n"
proof (induction n rule: show_nat.induct)
  case (1 n)
  then show ?case by (cases "n < 10") (simp_all add: show_nat.simps [of n] read_nat_def)
qed

lemma read_show_int: "read_int (show_int i) = i"
proof (cases "i < 0")
  case True
  then show ?thesis by (simp add: show_int_def read_int_def read_show_nat)
next
  case False
  obtain c t where s: "show_nat (nat i) = c # t" by (cases "show_nat (nat i)") auto
  then have "c \<noteq> CHR ''-''" using show_nat_digits [of c "nat i"] by (auto simp: code_def)
  then show ?thesis using False s read_show_nat [of "nat i"] by (simp add: show_int_def read_int_def)
qed

lemma fractions_read_back: "reads_back read_fraction fraction_text"
proof -
  have "read_fraction (fraction_text x) = Some x" for x
  proof -
    have n: "\<forall>c\<in>set (show_int (fst (quotient_of x))). c \<noteq> CHR ''e''" using show_int_chars by blast
    then have "takeWhile (\<lambda>c. c \<noteq> CHR ''e'') (fraction_text x) = show_int (fst (quotient_of x))"
      "dropWhile (\<lambda>c. c \<noteq> CHR ''e'') (fraction_text x) = CHR ''e'' # show_nat (nat (snd (quotient_of x)))"
      by (simp_all add: fraction_text_def takeWhile_append2 dropWhile_append2)
    then show ?thesis using quotient_of_denom_pos' [of x] quotient_of_div [of x "fst (quotient_of x)" "snd (quotient_of x)"]
      by (simp add: read_fraction_def read_show_int read_show_nat Fract_of_int_quotient) (simp add: fraction_text_def)
  qed
  then show ?thesis by (simp add: reads_back_def fraction_text_ok)
qed

end
