(* ===== verification/V2List.thy ===== *)
theory V2List
  imports JsonParse Receipts "HOL-Library.List_Lexorder" "HOL-Library.Char_ord" "HOL-Library.Product_Lexorder"
begin

text \<open>
  The lists of the second API: signed cursors (\<open>backend/src/http/v2/cursor.ts\<close>, which
  \<open>client/lib/api/v2-cursor.ts\<close> repeats), pages by key set (\<open>backend/src/routes/v2/catalog.ts\<close>) and the
  envelope around them (\<open>http/v2/registry.ts\<close>, \<open>envelope.ts\<close>).  The signature, the text of a number and
  the database's reading of a time stamp are arguments; rows are compared by that reading and then by id.
\<close>

section \<open>Cursors\<close>

record keyset =
  ks_createdAt :: string
  ks_id :: ident

record cursor_env =
  cu_hmac :: "string \<Rightarrow> string"
  cu_number :: "amount \<Rightarrow> string"
  cu_read :: "string \<Rightarrow> amount option"

text \<open>Decoding base64url: other characters are skipped, and so are left-over bits.\<close>

definition b64url_value :: "char \<Rightarrow> nat option" where
  "b64url_value c =
     (let n = code c in if 65 \<le> n \<and> n \<le> 90 then Some (n - 65) else if 97 \<le> n \<and> n \<le> 122 then Some (n - 71)
      else if 48 \<le> n \<and> n \<le> 57 then Some (n + 4) else if n = 45 \<or> n = 43 then Some 62 else if n = 95 \<or> n = 47 then Some 63 else None)"

fun sextets_bytes :: "nat list \<Rightarrow> nat list" where
  "sextets_bytes (w # x # y # z # s) = [w * 4 + x div 16, x mod 16 * 16 + y div 4, y mod 4 * 64 + z] @ sextets_bytes s"
| "sextets_bytes [w, x, y] = [w * 4 + x div 16, x mod 16 * 16 + y div 4]"
| "sextets_bytes [w, x] = [w * 4 + x div 16]"
| "sextets_bytes _ = []"

definition base64url_decode :: "string \<Rightarrow> nat list" where
  "base64url_decode s = sextets_bytes (List.map_filter b64url_value s)"

text \<open>\<open>split('.')\<close>.\<close>

fun split_dots :: "string \<Rightarrow> string list" where
  "split_dots [] = [[]]"
| "split_dots (c # s) = (if c = CHR ''.'' then [] # split_dots s else (case split_dots s of p # ps \<Rightarrow> (c # p) # ps | [] \<Rightarrow> [[c]]))"

definition cursor_json :: "keyset \<Rightarrow> json" where
  "cursor_json k = JObj [(''v'', JNum 1), (''t'', JStr (ks_createdAt k)), (''i'', JStr (ks_id k))]"

definition encodeV2Cursor :: "cursor_env \<Rightarrow> keyset \<Rightarrow> string" where
  "encodeV2Cursor env k =
     (let body = base64url (map code (json_stringify (cu_number env) (cursor_json k))) in ''v2c.'' @ body @ ''.'' @ cu_hmac env body)"

definition cursor_payload :: "json \<Rightarrow> keyset option" where
  "cursor_payload j =
     (case j of
        JObj members \<Rightarrow>
          (case (map_of members ''v'', map_of members ''t'', map_of members ''i'') of
             (Some (JNum v), Some (JStr t), Some (JStr i)) \<Rightarrow> if v = 1 \<and> t \<noteq> [] \<and> i \<noteq> [] then Some \<lparr>ks_createdAt = t, ks_id = i\<rparr> else None
           | _ \<Rightarrow> None)
      | _ \<Rightarrow> None)"

datatype v2_error = Cursor_error | Query_invalid | Unauthorized_user | Row_not_found | Query_failed string

definition decodeV2Cursor :: "cursor_env \<Rightarrow> string option \<Rightarrow> v2_error + keyset option" where
  "decodeV2Cursor env cursor =
     (if \<not> truthy cursor then Inr None
      else (case split_dots (the cursor) of
          [prefix, body, signature] \<Rightarrow>
            if prefix \<noteq> ''v2c'' \<or> body = [] \<or> signature = [] then Inl Cursor_error
            else if signature \<noteq> cu_hmac env body then Inl Cursor_error
            else (case json_parse (cu_read env) (map char_of (base64url_decode body)) of
                None \<Rightarrow> Inl Cursor_error
              | Some j \<Rightarrow> (case cursor_payload j of None \<Rightarrow> Inl Cursor_error | Some k \<Rightarrow> Inr (Some k)))
        | _ \<Rightarrow> Inl Cursor_error))"

text \<open>The limit as a number, if there is one, and the cursor.\<close>

record v2_query =
  vq_limit :: "amount option"
  vq_cursor :: "string option"

definition parseV2ListQuery :: "cursor_env \<Rightarrow> v2_query \<Rightarrow> v2_error + nat \<times> keyset option" where
  "parseV2ListQuery env q =
     (let limit = nullish (vq_limit q) 20
      in if limit \<notin> \<int> \<or> limit < 1 \<or> 100 < limit \<or> vq_cursor q = Some [] then Inl Query_invalid
         else (case decodeV2Cursor env (vq_cursor q) of Inl e \<Rightarrow> Inl e | Inr c \<Rightarrow> Inr (nat \<lfloor>limit\<rfloor>, c)))"

section \<open>Pages\<close>

record v2_row =
  vr_id :: ident
  vr_user_id :: ident
  vr_status :: string
  vr_created_at :: string

definition row_key :: "(string \<Rightarrow> int) \<Rightarrow> v2_row \<Rightarrow> int \<times> ident" where
  "row_key ts r = (ts (vr_created_at r), vr_id r)"

definition newest_first :: "(string \<Rightarrow> int) \<Rightarrow> v2_row list \<Rightarrow> v2_row list" where
  "newest_first ts rows = rev (sort_key (row_key ts) rows)"

definition after_cursor :: "(string \<Rightarrow> int) \<Rightarrow> keyset option \<Rightarrow> v2_row \<Rightarrow> bool" where
  "after_cursor ts c r =
     (case c of
        None \<Rightarrow> True
      | Some k \<Rightarrow> ts (vr_created_at r) < ts (ks_createdAt k) \<or> (ts (vr_created_at r) = ts (ks_createdAt k) \<and> vr_id r < ks_id k))"

record v2_page =
  vp_items :: "v2_row list"
  vp_next_cursor :: "string option"
  vp_has_more :: bool
  vp_limit :: nat

definition list_page :: "cursor_env \<Rightarrow> (string \<Rightarrow> int) \<Rightarrow> (v2_row \<Rightarrow> bool) \<Rightarrow> nat \<Rightarrow> keyset option \<Rightarrow> v2_row list \<Rightarrow> v2_page" where
  "list_page env ts wanted limit c rows =
     (let found = take (limit + 1) (newest_first ts (filter (\<lambda>r. wanted r \<and> after_cursor ts c r) rows));
          hasMore = limit < length found; items = (if hasMore then take limit found else found)
      in \<lparr>vp_items = items,
          vp_next_cursor = (if hasMore \<and> items \<noteq> [] then Some (encodeV2Cursor env \<lparr>ks_createdAt = vr_created_at (last items), ks_id = vr_id (last items)\<rparr>) else None),
          vp_has_more = hasMore, vp_limit = limit\<rparr>)"

definition own_subscription :: "ident \<Rightarrow> v2_row \<Rightarrow> bool" where
  "own_subscription user r \<longleftrightarrow> vr_user_id r = user \<and> vr_status r \<noteq> ''deleted''"

definition own_tag :: "ident \<Rightarrow> v2_row \<Rightarrow> bool" where
  "own_tag user r \<longleftrightarrow> vr_user_id r = user"

text \<open>The handler of a list: the user, the query, then the rows of the database or its error.\<close>

definition list_handler ::
  "cursor_env \<Rightarrow> (string \<Rightarrow> int) \<Rightarrow> (ident \<Rightarrow> v2_row \<Rightarrow> bool) \<Rightarrow> ident option \<Rightarrow> v2_query \<Rightarrow> string + v2_row list \<Rightarrow> v2_error + v2_page" where
  "list_handler env ts wanted user q rows =
     (case user of
        None \<Rightarrow> Inl Unauthorized_user
      | Some u \<Rightarrow>
          if u = [] then Inl Unauthorized_user
          else (case parseV2ListQuery env q of
              Inl e \<Rightarrow> Inl e
            | Inr (limit, c) \<Rightarrow> (case rows of Inl e \<Rightarrow> Inl (Query_failed e) | Inr rs \<Rightarrow> Inr (list_page env ts (wanted u) limit c rs))))"

definition get_subscription :: "ident option \<Rightarrow> ident \<Rightarrow> string + v2_row list \<Rightarrow> v2_error + v2_row" where
  "get_subscription user i rows =
     (case user of
        None \<Rightarrow> Inl Unauthorized_user
      | Some u \<Rightarrow>
          if u = [] then Inl Unauthorized_user
          else (case rows of
              Inl e \<Rightarrow> Inl (Query_failed e)
            | Inr rs \<Rightarrow> (case filter (\<lambda>r. vr_user_id r = u \<and> vr_id r = i) rs of [] \<Rightarrow> Inl Row_not_found | [r] \<Rightarrow> Inr r | _ \<Rightarrow> Inl (Query_failed ''multiple rows''))))"

section \<open>The envelope\<close>

text \<open>Status, type and detail of the problem that is sent for an error, in production.\<close>

definition toProblem :: "v2_error \<Rightarrow> int \<times> string \<times> string" where
  "toProblem e =
     (case e of
        Cursor_error \<Rightarrow> (400, ''https://syncro.app/problems/invalid-cursor'', ''Invalid pagination cursor'')
      | Query_invalid \<Rightarrow> (400, ''https://syncro.app/problems/validation'', ''The request input failed validation.'')
      | Unauthorized_user \<Rightarrow> (401, ''https://syncro.app/problems/unauthorized'', ''Authentication required.'')
      | Row_not_found \<Rightarrow> (404, ''https://syncro.app/problems/not-found'', ''Subscription not found.'')
      | Query_failed _ \<Rightarrow> (500, ''https://syncro.app/problems/internal'', ''An unexpected error occurred.''))"

text \<open>A list route: the query is checked before the handler, and checked by it again.\<close>

definition serve_list ::
  "cursor_env \<Rightarrow> (string \<Rightarrow> int) \<Rightarrow> (ident \<Rightarrow> v2_row \<Rightarrow> bool) \<Rightarrow> ident option \<Rightarrow> v2_query \<Rightarrow> string + v2_row list \<Rightarrow> (int \<times> string \<times> string) + v2_page" where
  "serve_list env ts wanted user q rows =
     (case parseV2ListQuery env q of
        Inl e \<Rightarrow> Inl (toProblem e)
      | Inr _ \<Rightarrow> (case list_handler env ts wanted user q rows of Inl e \<Rightarrow> Inl (toProblem e) | Inr p \<Rightarrow> Inr p))"

end
