(* ===== verification/V2ListProps.thy ===== *)
theory V2ListProps
  imports V2List
begin

text \<open>Cursors come back as they were given out, and pages read one after the other cover the list.\<close>

section \<open>Cursors\<close>

text \<open>A signature is not empty and has no dot; numbers are read as they are printed.\<close>

definition cursor_env_ok :: "cursor_env \<Rightarrow> bool" where
  "cursor_env_ok env \<longleftrightarrow> reads_back (cu_read env) (cu_number env) \<and> (\<forall>s. cu_hmac env s \<noteq> [] \<and> CHR ''.'' \<notin> set (cu_hmac env s))"

lemma digit_value: "n < 64 \<Longrightarrow> b64url_value (b64url_digit n) = Some n"
proof -
  assume n: "n < 64"
  have k: "code (CHR ''-'') = 45" "code (CHR ''_'') = 95" by (simp_all add: code_def)
  consider "n < 26" | "26 \<le> n" "n < 52" | "52 \<le> n" "n < 62" | "n = 62" | "n = 63" using n by linarith
  then show ?thesis by cases (auto simp: b64url_digit_def b64url_value_def k Let_def)
qed

lemma digit_no_dot: "n < 64 \<Longrightarrow> b64url_digit n \<noteq> CHR ''.''"
proof
  assume n: "n < 64" "b64url_digit n = CHR ''.''"
  have "b64url_value (CHR ''.'') = None" by code_simp
  then show False using digit_value [OF n(1)] n(2) by simp
qed

lemma sextet: "(b::nat) < 256 \<Longrightarrow> (x * 16 + b div 16) div 16 = x" "(b::nat) < 256 \<Longrightarrow> (x * 16 + b div 16) mod 16 = b div 16"
  "(b::nat) < 256 \<Longrightarrow> (x * 4 + b div 64) div 4 = x" "(b::nat) < 256 \<Longrightarrow> (x * 4 + b div 64) mod 4 = b div 64"
  by (auto simp: div_add1_eq mod_add_eq [symmetric] less_mult_imp_div_less)

lemma base64url_decode_encode: "\<forall>b\<in>set bs. b < 256 \<Longrightarrow> base64url_decode (base64url bs) = bs"
proof (induction bs rule: base64url.induct)
  case (1 a b c bs)
  then have l: "a < 256" "b < 256" "c < 256" by simp_all
  have v: "a div 4 < 64" "a mod 4 * 16 + b div 16 < 64" "b mod 16 * 4 + c div 64 < 64" "c mod 64 < 64" using l by auto
  have "sextets_bytes (List.map_filter b64url_value (base64url bs)) = bs" using 1 by (simp add: base64url_decode_def)
  then show ?case using l v
    by (simp add: base64url_decode_def map_filter_def digit_value sextet mult.commute [of _ 4] mult.commute [of _ 16] mult.commute [of _ 64])
next
  case (2 a b)
  then have l: "a < 256" "b < 256" by simp_all
  have v: "a div 4 < 64" "a mod 4 * 16 + b div 16 < 64" "b mod 16 * 4 < 64" using l by auto
  then show ?case using l by (simp add: base64url_decode_def map_filter_def digit_value sextet)
next
  case (3 a)
  then have v: "a div 4 < 64" "a mod 4 * 16 < 64" by auto
  then show ?case by (simp add: base64url_decode_def map_filter_def digit_value)
qed (simp add: base64url_decode_def map_filter_def)

lemma base64url_chars: "\<forall>b\<in>set bs. b < 256 \<Longrightarrow> CHR ''.'' \<notin> set (base64url bs)"
proof (induction bs rule: base64url.induct)
  case (1 a b c bs)
  then have "a div 4 < 64" "a mod 4 * 16 + b div 16 < 64" "b mod 16 * 4 + c div 64 < 64" "c mod 64 < 64" by auto
  from this [THEN digit_no_dot] 1 show ?case by auto
next
  case (2 a b)
  then have "a div 4 < 64" "a mod 4 * 16 + b div 16 < 64" "b mod 16 * 4 < 64" by auto
  from this [THEN digit_no_dot] show ?case by auto
next
  case (3 a)
  then have "a div 4 < 64" "a mod 4 * 16 < 64" by auto
  from this [THEN digit_no_dot] show ?case by auto
qed simp

lemma split_no_dot: "CHR ''.'' \<notin> set p \<Longrightarrow> split_dots p = [p]"
  by (induction p) auto

lemma split_dot: "CHR ''.'' \<notin> set p \<Longrightarrow> split_dots (p @ CHR ''.'' # s) = p # split_dots s"
  by (induction p) auto

definition keyset_ok :: "keyset \<Rightarrow> bool" where
  "keyset_ok k \<longleftrightarrow> ks_createdAt k \<noteq> [] \<and> ks_id k \<noteq> []"

lemma cursor_text_decodes:
  assumes "cursor_env_ok env" and "keyset_ok k"
  shows "decodeV2Cursor env (Some (encodeV2Cursor env k)) = Inr (Some k)" and "encodeV2Cursor env k \<noteq> []"
proof -
  let ?text = "json_stringify (cu_number env) (cursor_json k)"
  let ?body = "base64url (map code ?text)"
  have b: "\<forall>n\<in>set (map code ?text). n < 256" by simp
  have "?text \<noteq> []" by (simp add: cursor_json_def)
  then have ne: "?body \<noteq> []" by (cases "map code ?text" rule: base64url.cases) auto
  have h: "cu_hmac env ?body \<noteq> []" "CHR ''.'' \<notin> set (cu_hmac env ?body)" using assms(1) by (simp_all add: cursor_env_ok_def)
  have split: "split_dots (encodeV2Cursor env k) = [''v2c'', ?body, cu_hmac env ?body]"
    using split_dot [OF base64url_chars [OF b], of "cu_hmac env ?body"] split_no_dot [OF h(2)] by (simp add: encodeV2Cursor_def Let_def)
  have "map char_of (map code ?text) = ?text" by (simp add: code_def map_idI)
  then have bytes: "map char_of (base64url_decode ?body) = ?text" using base64url_decode_encode [OF b] by simp
  have "json_wf (cursor_json k)" by (simp add: cursor_json_def)
  then have parse: "json_parse (cu_read env) ?text = Some (cursor_json k)"
    using json_parse_stringify assms(1) by (simp add: cursor_env_ok_def)
  have "cursor_payload (cursor_json k) = Some k" using assms(2) by (simp add: cursor_payload_def cursor_json_def keyset_ok_def)
  moreover show t: "encodeV2Cursor env k \<noteq> []" by (simp add: encodeV2Cursor_def Let_def)
  ultimately show "decodeV2Cursor env (Some (encodeV2Cursor env k)) = Inr (Some k)"
    using ne h(1) by (simp add: decodeV2Cursor_def split bytes parse)
qed

text \<open>
  C38: A cursor that the server gives out is read back as the key set it stands for, and a text that is
  read as a key set carries the server's signature: no client can make up or change a cursor.
\<close>

theorem cursor_round_trip:
  assumes "cursor_env_ok env" and "keyset_ok k"
  shows "decodeV2Cursor env (Some (encodeV2Cursor env k)) = Inr (Some k) \<and>
     (decodeV2Cursor env (Some text) = Inr (Some k') \<longrightarrow> (\<exists>body. split_dots text = [''v2c'', body, cu_hmac env body]))"
proof -
  have "decodeV2Cursor env (Some text) = Inr (Some k') \<longrightarrow> (\<exists>body. split_dots text = [''v2c'', body, cu_hmac env body])"
    by (auto simp: decodeV2Cursor_def split: if_splits list.splits)
  then show ?thesis using cursor_text_decodes(1) [OF assms] by blast
qed

section \<open>Pages\<close>

lemma newest_set [simp]: "set (newest_first ts rows) = set rows"
  by (simp add: newest_first_def)

text \<open>Rows have one key each.\<close>

definition keys_differ :: "v2_row list \<Rightarrow> bool" where
  "keys_differ rows \<longleftrightarrow> distinct (map vr_id rows)"

lemma newest_sorted:
  assumes "keys_differ rows"
  shows "sorted_wrt (\<lambda>a b. row_key ts b < row_key ts a) (newest_first ts rows)"
proof -
  let ?s = "sort_key (row_key ts) rows"
  have d: "distinct rows" "inj_on vr_id (set rows)" using assms by (simp_all add: keys_differ_def distinct_map)
  have "inj_on (row_key ts) (set ?s)" using d(2) by (auto simp: inj_on_def row_key_def)
  then have "distinct (map (row_key ts) ?s)" using d(1) by (simp add: distinct_map)
  then have "sorted_wrt (<) (map (row_key ts) ?s)" by (simp add: strict_sorted_iff)
  then show ?thesis by (simp add: newest_first_def sorted_wrt_rev sorted_wrt_map)
qed

text \<open>The cursor stands for the key of the last row.\<close>

definition cursor_key :: "(string \<Rightarrow> int) \<Rightarrow> keyset \<Rightarrow> int \<times> ident" where
  "cursor_key ts k = (ts (ks_createdAt k), ks_id k)"

lemma after_iff: "after_cursor ts c r \<longleftrightarrow> (\<forall>k. c = Some k \<longrightarrow> row_key ts r < cursor_key ts k)"
  by (auto simp: after_cursor_def row_key_def cursor_key_def split: option.split)

lemma kept_filter: "keys_differ rows \<Longrightarrow> keys_differ (filter P rows)"
  by (simp add: keys_differ_def distinct_map_filter)

lemma sorted_wrt_take_drop: "sorted_wrt R xs \<Longrightarrow> x \<in> set (take n xs) \<Longrightarrow> y \<in> set (drop n xs) \<Longrightarrow> R x y"
  by (metis append_take_drop_id sorted_wrt_append)

text \<open>What a page holds, what is left, and where the next one starts.\<close>

definition rest_rows :: "(string \<Rightarrow> int) \<Rightarrow> (v2_row \<Rightarrow> bool) \<Rightarrow> keyset option \<Rightarrow> v2_row list \<Rightarrow> v2_row list" where
  "rest_rows ts wanted c rows = newest_first ts (filter (\<lambda>r. wanted r \<and> after_cursor ts c r) rows)"

definition last_keyset :: "v2_row list \<Rightarrow> keyset" where
  "last_keyset items = \<lparr>ks_createdAt = vr_created_at (last items), ks_id = vr_id (last items)\<rparr>"

lemma rest_set: "set (rest_rows ts wanted c rows) = {r \<in> set rows. wanted r \<and> after_cursor ts c r}"
  by (simp add: rest_rows_def)

lemma rest_sorted: "keys_differ rows \<Longrightarrow> sorted_wrt (\<lambda>a b. row_key ts b < row_key ts a) (rest_rows ts wanted c rows)"
  unfolding rest_rows_def by (intro newest_sorted kept_filter)

lemma page_spec:
  assumes "0 < limit"
  shows "list_page env ts wanted limit c rows =
     (let all = rest_rows ts wanted c rows; more = limit < length all
      in \<lparr>vp_items = take limit all, vp_next_cursor = (if more then Some (encodeV2Cursor env (last_keyset (take limit all))) else None),
          vp_has_more = more, vp_limit = limit\<rparr>)"
  using assms by (auto simp: list_page_def rest_rows_def last_keyset_def Let_def min_def)

text \<open>Pages are asked for one after the other, each with the cursor of the one before and over the rows of its time.\<close>

fun read_pages :: "cursor_env \<Rightarrow> (string \<Rightarrow> int) \<Rightarrow> (ident \<Rightarrow> v2_row \<Rightarrow> bool) \<Rightarrow> ident \<Rightarrow> nat \<Rightarrow> string option \<Rightarrow> v2_row list list \<Rightarrow> v2_page list \<times> bool" where
  "read_pages env ts wanted user limit c [] = ([], False)"
| "read_pages env ts wanted user limit c (rows # later) =
     (case serve_list env ts wanted (Some user) \<lparr>vq_limit = Some (of_nat limit), vq_cursor = c\<rparr> (Inr rows) of
        Inl _ \<Rightarrow> ([], False)
      | Inr p \<Rightarrow>
          (case vp_next_cursor p of
             None \<Rightarrow> ([p], True)
           | Some c' \<Rightarrow> (let (ps, done) = read_pages env ts wanted user limit (Some c') later in (p # ps, done))))"

definition rows_ok :: "v2_row list \<Rightarrow> bool" where
  "rows_ok rows \<longleftrightarrow> keys_differ rows \<and> (\<forall>r\<in>set rows. vr_created_at r \<noteq> [] \<and> vr_id r \<noteq> [])"

lemma cursor_decodes:
  assumes "cursor_env_ok env" and "\<forall>k. c = Some k \<longrightarrow> keyset_ok k"
  shows "decodeV2Cursor env (map_option (encodeV2Cursor env) c) = Inr c \<and> map_option (encodeV2Cursor env) c \<noteq> Some []"
  using assms cursor_text_decodes by (cases c) (auto simp: decodeV2Cursor_def)

lemma serve_page:
  assumes "cursor_env_ok env" and "\<forall>k. c = Some k \<longrightarrow> keyset_ok k" and "1 \<le> limit" "limit \<le> 100" and "user \<noteq> []"
  shows "serve_list env ts wanted (Some user) \<lparr>vq_limit = Some (of_nat limit), vq_cursor = map_option (encodeV2Cursor env) c\<rparr> (Inr rows) =
     Inr (list_page env ts (wanted user) limit c rows)"
proof -
  have "\<not> (of_nat limit < (1 :: rat))" "\<not> ((100 :: rat) < of_nat limit)" "(of_nat limit :: rat) \<in> \<int>" using assms(3,4) by simp_all
  then show ?thesis using cursor_decodes [OF assms(1,2)] assms(5) by (simp add: serve_list_def list_handler_def parseV2ListQuery_def Let_def)
qed

lemma read_pages_spec:
  assumes "cursor_env_ok env" and "\<forall>k. c = Some k \<longrightarrow> keyset_ok k" and "1 \<le> limit" "limit \<le> 100" and "user \<noteq> []"
  shows "read_pages env ts wanted user limit (map_option (encodeV2Cursor env) c) (rows # later) =
     (let all = rest_rows ts (wanted user) c rows; items = take limit all; p = list_page env ts (wanted user) limit c rows
      in if limit < length all
         then (let (ps, done) = read_pages env ts wanted user limit (map_option (encodeV2Cursor env) (Some (last_keyset items))) later in (p # ps, done))
         else ([p], True))"
  using assms(3) by (simp add: serve_page [OF assms] page_spec Let_def)

text \<open>What the pages hold, from any cursor on.\<close>

definition pages_from :: "(string \<Rightarrow> int) \<Rightarrow> (v2_row \<Rightarrow> bool) \<Rightarrow> keyset option \<Rightarrow> v2_row list list \<Rightarrow> nat \<Rightarrow> v2_page list \<Rightarrow> bool" where
  "pages_from ts wanted c tables limit ps \<longleftrightarrow>
     length ps \<le> length tables \<and> (\<forall>i<length ps. \<forall>r\<in>set (vp_items (ps ! i)). r \<in> set (tables ! i) \<and> wanted r \<and> after_cursor ts c r) \<and>
     sorted_wrt (\<lambda>a b. row_key ts b < row_key ts a) (concat (map vp_items ps)) \<and> (\<forall>p\<in>set ps. length (vp_items p) \<le> limit)"

lemma last_take_in: "0 < n \<Longrightarrow> n < length xs \<Longrightarrow> last (take n xs) \<in> set (take n xs)"
  by (intro last_in_set) auto

lemma last_smallest:
  assumes "sorted_wrt (\<lambda>a b. f b < (f a :: 'b :: linorder)) xs" and "x \<in> set xs"
  shows "f (last xs) \<le> f x"
  using assms by (induction xs) (auto simp: less_imp_le)

lemma read_pages_ok:
  assumes "cursor_env_ok env" and "1 \<le> limit" "limit \<le> 100" and "user \<noteq> []"
  shows "\<forall>k. c = Some k \<longrightarrow> keyset_ok k \<Longrightarrow> list_all rows_ok tables \<Longrightarrow>
     read_pages env ts wanted user limit (map_option (encodeV2Cursor env) c) tables = (ps, done) \<Longrightarrow>
     pages_from ts (wanted user) c tables limit ps \<and>
     (done \<longrightarrow> (\<forall>r. (\<forall>rows\<in>set tables. r \<in> set rows) \<and> wanted user r \<and> after_cursor ts c r \<longrightarrow> r \<in> set (concat (map vp_items ps))))"
proof (induction tables arbitrary: c ps)
  case Nil
  then show ?case by (simp add: pages_from_def)
next
  case (Cons rows later)
  let ?all = "rest_rows ts (wanted user) c rows"
  let ?items = "take limit ?all" and ?p = "list_page env ts (wanted user) limit c rows"
  have rows: "keys_differ rows" "\<forall>r\<in>set rows. vr_created_at r \<noteq> [] \<and> vr_id r \<noteq> []" using Cons.prems(2) by (simp_all add: rows_ok_def)
  note sorted = rest_sorted [OF rows(1), of ts "wanted user" c]
  have items: "vp_items ?p = ?items" using assms(2) by (simp add: page_spec Let_def)
  have in_items: "r \<in> set ?items \<Longrightarrow> r \<in> set rows \<and> wanted user r \<and> after_cursor ts c r" for r
    using set_take_subset [of limit ?all] rest_set [of ts "wanted user" c rows] by blast
  have take_sorted: "sorted_wrt (\<lambda>a b. row_key ts b < row_key ts a) ?items"
    by (rule sorted_wrt_take [OF sorted])
  have len: "length ?items \<le> limit" by simp
  note spec = read_pages_spec [OF assms(1) Cons.prems(1) assms(2-4), of ts wanted rows later]
  show ?case
  proof (cases "limit < length ?all")
    case False
    then have "ps = [?p]" "?items = ?all" using Cons.prems(3) spec by (simp_all add: Let_def)
    then show ?thesis using in_items take_sorted len items rest_set [of ts "wanted user" c rows] by (auto simp: pages_from_def)
  next
    case True
    let ?k = "last_keyset ?items"
    obtain qs where q: "read_pages env ts wanted user limit (map_option (encodeV2Cursor env) (Some ?k)) later = (qs, done)" and ps: "ps = ?p # qs"
    proof -
      have "(let (qs, done) = read_pages env ts wanted user limit (map_option (encodeV2Cursor env) (Some ?k)) later in (?p # qs, done)) = (ps, done)"
        using spec Cons.prems(3) by (simp only: Let_def True if_True)
      then show thesis using that by (cases "read_pages env ts wanted user limit (map_option (encodeV2Cursor env) (Some ?k)) later") auto
    qed
    have lim: "0 < limit" using assms(2) by simp
    have last: "last ?items \<in> set rows" using in_items [OF last_take_in [OF lim True]] by blast
    then have "keyset_ok ?k" using rows(2) by (simp add: keyset_ok_def last_keyset_def)
    then have ih: "pages_from ts (wanted user) (Some ?k) later limit qs"
      "done \<longrightarrow> (\<forall>r. (\<forall>rows\<in>set later. r \<in> set rows) \<and> wanted user r \<and> after_cursor ts (Some ?k) r \<longrightarrow> r \<in> set (concat (map vp_items qs)))"
      using Cons.IH [of "Some ?k" qs] Cons.prems(2) q by simp_all
    have after: "after_cursor ts (Some ?k) r \<longleftrightarrow> row_key ts r < row_key ts (last ?items)" for r
      by (simp add: after_iff cursor_key_def last_keyset_def row_key_def)
    have older: "row_key ts r < row_key ts (last ?items) \<and> wanted user r" if "r \<in> set (concat (map vp_items qs))" for r
    proof -
      from that obtain i where "i < length qs" "r \<in> set (vp_items (qs ! i))" by (force simp: in_set_conv_nth [of _ qs])
      then show ?thesis using ih(1) unfolding pages_from_def after by blast
    qed
    have newer: "row_key ts (last ?items) \<le> row_key ts r" if "r \<in> set ?items" for r
      using last_smallest [OF take_sorted that] .
    have "sorted_wrt (\<lambda>a b. row_key ts b < row_key ts a) (concat (map vp_items ps))"
      using ih(1) take_sorted older newer less_le_trans unfolding ps pages_from_def by (fastforce simp: sorted_wrt_append items)
    moreover have "r \<in> set ((rows # later) ! i) \<and> wanted user r \<and> after_cursor ts c r" if "i < length ps" "r \<in> set (vp_items (ps ! i))" for i r
    proof (cases i)
      case 0
      then show ?thesis using that in_items by (simp add: ps items)
    next
      case (Suc j)
      then have j: "j < length qs" "r \<in> set (vp_items (qs ! j))" using that by (simp_all add: ps)
      then have "r \<in> set (concat (map vp_items qs))" by auto
      then have "row_key ts r < row_key ts (last ?items)" using older by blast
      moreover have "after_cursor ts c (last ?items)" using in_items [OF last_take_in [OF lim True]] by blast
      ultimately have "after_cursor ts c r" using less_trans unfolding after_iff by blast
      then show ?thesis using j ih(1) Suc by (auto simp: pages_from_def)
    qed
    ultimately have "pages_from ts (wanted user) c (rows # later) limit ps"
      using ih(1) len unfolding pages_from_def by (auto simp: ps items)
    moreover have "r \<in> set (concat (map vp_items ps))" if "done" "\<forall>rows\<in>set (rows # later). r \<in> set rows" "wanted user r" "after_cursor ts c r" for r
    proof (cases "r \<in> set ?items")
      case False
      have "r \<in> set ?all" using that by (simp add: rest_set)
      then have "r \<in> set (drop limit ?all)" using False by (metis Un_iff append_take_drop_id set_append)
      then have "row_key ts r < row_key ts (last ?items)" using sorted_wrt_take_drop [OF sorted last_take_in [OF lim True]] by blast
      then show ?thesis using ih(2) that after by (simp add: ps)
    qed (simp add: ps items)
    ultimately show ?thesis by blast
  qed
qed

text \<open>
  C36: Paging is exact though the table changes: when a client has read to the last page, the pages together
  are strictly ordered, newest first, so no row comes twice; every row on a page is one the user asked for,
  from the table of that page; every such row that was there all the time is on a page; and no page is
  longer than the limit.
\<close>

theorem pages_cover:
  assumes "cursor_env_ok env" and "1 \<le> limit" "limit \<le> 100" and "user \<noteq> []" and "list_all rows_ok tables"
    and "read_pages env ts wanted user limit None tables = (ps, True)"
  shows "sorted_wrt (\<lambda>a b. row_key ts b < row_key ts a) (concat (map vp_items ps)) \<and>
     (\<forall>i<length ps. \<forall>r\<in>set (vp_items (ps ! i)). r \<in> set (tables ! i) \<and> wanted user r) \<and>
     (\<forall>r. (\<forall>rows\<in>set tables. r \<in> set rows) \<and> wanted user r \<longrightarrow> r \<in> set (concat (map vp_items ps))) \<and>
     (\<forall>p\<in>set ps. length (vp_items p) \<le> limit)"
  using read_pages_ok [OF assms(1-4), of None tables ts wanted ps True] assms(5,6) by (auto simp: pages_from_def after_iff)

lemma rest_shrinks:
  assumes "keys_differ rows" and "0 < limit" and "limit < length (rest_rows ts wanted c rows)"
  shows "length (rest_rows ts wanted (Some (last_keyset (take limit (rest_rows ts wanted c rows)))) rows) \<le> length (rest_rows ts wanted c rows) - limit"
proof -
  let ?all = "rest_rows ts wanted c rows" and ?k = "last_keyset (take limit (rest_rows ts wanted c rows))"
  have d: "distinct (rest_rows ts wanted c' rows)" for c'
    using assms(1) by (simp add: rest_rows_def newest_first_def keys_differ_def distinct_map)
  note sorted = rest_sorted [OF assms(1), of ts wanted c]
  have last: "last (take limit ?all) \<in> set (take limit ?all)" by (rule last_take_in [OF assms(2,3)])
  then have c: "after_cursor ts c (last (take limit ?all))" using set_take_subset [of limit ?all] rest_set [of ts wanted c rows] by blast
  have "set (rest_rows ts wanted (Some ?k) rows) \<subseteq> set (drop limit ?all)"
  proof
    fix r assume r: "r \<in> set (rest_rows ts wanted (Some ?k) rows)"
    then have lt: "row_key ts r < row_key ts (last (take limit ?all))"
      by (simp add: rest_set after_iff cursor_key_def last_keyset_def row_key_def)
    then have "after_cursor ts c r" using c less_trans unfolding after_iff by blast
    then have "r \<in> set ?all" using r by (simp add: rest_set)
    moreover have "r \<notin> set (take limit ?all)"
      using last_smallest [OF sorted_wrt_take [OF sorted], of r limit] lt by (auto simp: not_le [symmetric])
    ultimately show "r \<in> set (drop limit ?all)" by (metis Un_iff append_take_drop_id set_append)
  qed
  then have "card (set (rest_rows ts wanted (Some ?k) rows)) \<le> card (set (drop limit ?all))" by (intro card_mono) simp_all
  also have "\<dots> \<le> length (drop limit ?all)" by (rule card_length)
  finally show ?thesis using distinct_card [OF d [of "Some ?k"]] by simp
qed

lemma read_pages_end:
  assumes "cursor_env_ok env" and "1 \<le> limit" "limit \<le> 100" and "user \<noteq> []" and "rows_ok rows"
  shows "\<forall>k. c = Some k \<longrightarrow> keyset_ok k \<Longrightarrow> 1 \<le> n \<Longrightarrow> length (rest_rows ts (wanted user) c rows) \<le> n * limit \<Longrightarrow>
     snd (read_pages env ts wanted user limit (map_option (encodeV2Cursor env) c) (replicate n rows))"
proof (induction n arbitrary: c)
  case (Suc n)
  let ?all = "rest_rows ts (wanted user) c rows"
  let ?k = "last_keyset (take limit ?all)"
  note spec = read_pages_spec [OF assms(1) Suc.prems(1) assms(2-4), of ts wanted rows "replicate n rows"]
  show ?case
  proof (cases "limit < length ?all")
    case False
    then show ?thesis using spec by (simp add: Let_def)
  next
    case True
    have rows: "keys_differ rows" and lim: "0 < limit" using assms(2,5) by (simp_all add: rows_ok_def)
    have "last (take limit ?all) \<in> set rows" using last_take_in [OF lim True] set_take_subset [of limit ?all] rest_set [of ts "wanted user" c rows] by blast
    then have k: "keyset_ok ?k" using assms(5) by (simp add: keyset_ok_def last_keyset_def rows_ok_def)
    have "length (rest_rows ts (wanted user) (Some ?k) rows) \<le> n * limit" using rest_shrinks [OF rows lim True] Suc.prems(3) by simp
    moreover have "1 \<le> n" using True Suc.prems(3) by (cases n) auto
    ultimately have "snd (read_pages env ts wanted user limit (map_option (encodeV2Cursor env) (Some ?k)) (replicate n rows))"
      using Suc.IH [of "Some ?k"] k by simp
    then show ?thesis using spec True by (simp add: Let_def case_prod_beta)
  qed
qed simp

text \<open>
  Reading ends: over a table that stays as it is, a client that follows the cursors reaches the last page
  after as many pages as the limit needs for the rows, and has then read exactly the rows it asked for.
\<close>

theorem pages_end:
  assumes "cursor_env_ok env" and "1 \<le> limit" "limit \<le> 100" and "user \<noteq> []" and "rows_ok rows"
    and "1 \<le> n" and "length (filter (wanted user) rows) \<le> n * limit"
  shows "\<exists>ps. read_pages env ts wanted user limit None (replicate n rows) = (ps, True) \<and>
     set (concat (map vp_items ps)) = {r \<in> set rows. wanted user r}"
proof -
  let ?r = "read_pages env ts wanted user limit None (replicate n rows)"
  have "length (rest_rows ts (wanted user) None rows) = length (filter (wanted user) rows)"
    by (simp add: rest_rows_def newest_first_def after_iff)
  then have d: "snd ?r" using read_pages_end [OF assms(1-5), of None n ts wanted] assms(6,7) by simp
  then obtain ps where ps: "?r = (ps, True)" by (cases ?r) auto
  have ok: "pages_from ts (wanted user) None (replicate n rows) limit ps"
    "\<forall>r. r \<in> set rows \<and> wanted user r \<longrightarrow> r \<in> set (concat (map vp_items ps))"
    using read_pages_ok [OF assms(1-4), of None "replicate n rows" ts wanted ps True] assms(5) ps by (auto simp: list_all_iff after_iff)
  have "r \<in> set rows \<and> wanted user r" if "r \<in> set (concat (map vp_items ps))" for r
  proof -
    from that obtain i where "i < length ps" "r \<in> set (vp_items (ps ! i))" by (force simp: in_set_conv_nth [of _ ps])
    then show ?thesis using ok(1) by (auto simp: pages_from_def)
  qed
  then show ?thesis using ok(2) ps by blast
qed

section \<open>A table\<close>

definition demo_cursor_env :: cursor_env where
  "demo_cursor_env = \<lparr>cu_hmac = (\<lambda>_. ''sig''), cu_number = fraction_text, cu_read = read_fraction\<rparr>"

lemma demo_cursor_ok: "cursor_env_ok demo_cursor_env"
  by (simp add: cursor_env_ok_def demo_cursor_env_def fractions_read_back)

definition demo_row :: "string \<Rightarrow> string \<Rightarrow> v2_row" where
  "demo_row i t = \<lparr>vr_id = i, vr_user_id = ''u1'', vr_status = ''active'', vr_created_at = t\<rparr>"

definition demo_rows :: "v2_row list" where
  "demo_rows = [demo_row ''a'' ''1'', demo_row ''b'' ''333'', demo_row ''c'' ''22'']"

lemma demo_rows_ok: "rows_ok demo_rows" "length (filter (own_subscription ''u1'') demo_rows) = 3"
  by (simp_all add: rows_ok_def keys_differ_def demo_rows_def demo_row_def own_subscription_def)

theorem cursor_round_trip_witness:
  "decodeV2Cursor demo_cursor_env (Some (encodeV2Cursor demo_cursor_env \<lparr>ks_createdAt = ''2026-01-01'', ks_id = ''s1''\<rparr>)) =
     Inr (Some \<lparr>ks_createdAt = ''2026-01-01'', ks_id = ''s1''\<rparr>)"
  using cursor_round_trip [OF demo_cursor_ok, of "\<lparr>ks_createdAt = ''2026-01-01'', ks_id = ''s1''\<rparr>"] by (simp add: keyset_ok_def)

lemma demo_pages:
  obtains ps where "read_pages demo_cursor_env (\<lambda>s. int (length s)) own_subscription ''u1'' 2 None (replicate 2 demo_rows) = (ps, True)"
  using read_pages_end [OF demo_cursor_ok, of 2 "''u1''" demo_rows None 2 "\<lambda>s. int (length s)" own_subscription] demo_rows_ok
  by (cases "read_pages demo_cursor_env (\<lambda>s. int (length s)) own_subscription ''u1'' 2 None (replicate 2 demo_rows)")
     (auto simp: rest_rows_def newest_first_def after_iff)

theorem pages_cover_witness:
  "\<exists>ps. read_pages demo_cursor_env (\<lambda>s. int (length s)) own_subscription ''u1'' 2 None (replicate 2 demo_rows) = (ps, True) \<and>
     demo_row ''a'' ''1'' \<in> set (concat (map vp_items ps)) \<and> (\<forall>p\<in>set ps. length (vp_items p) \<le> 2)"
proof -
  obtain ps where ps: "read_pages demo_cursor_env (\<lambda>s. int (length s)) own_subscription ''u1'' 2 None (replicate 2 demo_rows) = (ps, True)"
    by (rule demo_pages)
  have a: "\<forall>rows\<in>set (replicate 2 demo_rows). demo_row ''a'' ''1'' \<in> set rows" "own_subscription ''u1'' (demo_row ''a'' ''1'')"
    by (simp_all add: demo_rows_def demo_row_def own_subscription_def)
  from pages_cover [OF demo_cursor_ok _ _ _ _ ps] have
    "(\<forall>r. (\<forall>rows\<in>set (replicate 2 demo_rows). r \<in> set rows) \<and> own_subscription ''u1'' r \<longrightarrow> r \<in> set (concat (map vp_items ps))) \<and>
     (\<forall>p\<in>set ps. length (vp_items p) \<le> 2)" using demo_rows_ok(1) by (simp add: list_all_iff)
  then show ?thesis using a ps by blast
qed

theorem pages_end_witness:
  "\<exists>ps. read_pages demo_cursor_env (\<lambda>s. int (length s)) own_subscription ''u1'' 2 None (replicate 2 demo_rows) = (ps, True) \<and>
     set (concat (map vp_items ps)) = set demo_rows"
proof -
  have "{r \<in> set demo_rows. own_subscription ''u1'' r} = set demo_rows" by (auto simp: demo_rows_def demo_row_def own_subscription_def)
  then show ?thesis
    using pages_end [OF demo_cursor_ok, of 2 "''u1''" demo_rows 2 own_subscription "\<lambda>s. int (length s)"] demo_rows_ok by simp
qed

section \<open>A list and its rows\<close>

text \<open>A subscription that the list leaves out because it is deleted is still found by its id.\<close>

theorem deleted_found_by_id:
  "let r = (demo_row ''a'' ''1'')\<lparr>vr_status := ''deleted''\<rparr>
   in \<not> own_subscription ''u1'' r \<and> get_subscription (Some ''u1'') ''a'' (Inr [r]) = Inr r"
  by (simp add: demo_row_def own_subscription_def get_subscription_def)

end
