(* ===== verification/AdmissionCache.thy ===== *)
theory AdmissionCache
  imports Prelude
begin

text \<open>
  The cache of admission checks (\<open>backend/src/services/admission-cache.ts\<close>): entries in Redis and in
  the memory of the process, valid until they expire or are revoked.  The processes share Redis and
  each has its own memory.  Whether Redis answers is an argument of each command.  Redis holds the
  entries the service writes, as values and not as their JSON text; \<open>Date.now()\<close> is one argument of an
  operation.
\<close>

record 'v cache_entry =
  en_value :: 'v
  en_createdAt :: millis
  en_expiresAt :: millis
  en_version :: amount
  en_revoked :: bool
  en_revokedAt :: "millis option"

record revocation_record =
  rv_key :: string
  rv_revokedAt :: millis
  rv_reason :: string
  rv_version :: amount

text \<open>A key of Redis with the time it expires; the memory; the revocations by namespace.\<close>

record 'v admission_cache =
  ac_redis :: "(string, 'v cache_entry \<times> millis) jsmap"
  ac_memory :: "(string, 'v cache_entry) jsmap"
  ac_log :: "(string, revocation_record list) jsmap"

text \<open>There is no client, the command throws, or it is executed.\<close>

datatype redis_call = Redis_absent | Redis_throws | Redis_ok

record redis_calls =
  rc_version :: redis_call
  rc_get :: redis_call
  rc_set :: redis_call
  rc_del :: redis_call

text \<open>The part of \<open>admissionConfig\<close> the cache reads.\<close>

record cache_config =
  cc_prefix :: string
  cc_identityTtl :: millis
  cc_scopeTtl :: millis
  cc_capTtl :: millis
  cc_meterTtl :: millis
  cc_maxEntries :: nat

definition adm_cacheKey :: "cache_config \<Rightarrow> string \<Rightarrow> ident \<Rightarrow> string" where
  "adm_cacheKey cfg namespace identifier = cc_prefix cfg @ namespace @ '':'' @ identifier"

definition getTtl :: "cache_config \<Rightarrow> string \<Rightarrow> millis" where
  "getTtl cfg namespace =
     (if namespace = ''identity'' then cc_identityTtl cfg
      else if namespace = ''scope'' then cc_scopeTtl cfg
      else if namespace = ''cap'' then cc_capTtl cfg
      else if namespace = ''meter'' then cc_meterTtl cfg
      else 60000)"

text \<open>A time that is 0 counts as absent.\<close>

definition isEntryValid :: "millis \<Rightarrow> 'v cache_entry \<Rightarrow> bool" where
  "isEntryValid now e \<longleftrightarrow>
     \<not> (en_revoked e \<or> (case en_revokedAt e of None \<Rightarrow> False | Some t \<Rightarrow> t \<noteq> 0)) \<and> \<not> en_expiresAt e < now"

definition redis_entry :: "string \<Rightarrow> millis \<Rightarrow> 'v admission_cache \<Rightarrow> 'v cache_entry option" where
  "redis_entry k now c = (case js_get (ac_redis c) k of None \<Rightarrow> None | Some (e, expires) \<Rightarrow> if now < expires then Some e else None)"

definition ceil_seconds :: "millis \<Rightarrow> int" where
  "ceil_seconds ms = (ms + 999) div 1000"

text \<open>\<open>setEx\<close>: the time to live is in seconds.\<close>

definition redis_setEx :: "string \<Rightarrow> int \<Rightarrow> millis \<Rightarrow> 'v cache_entry \<Rightarrow> 'v admission_cache \<Rightarrow> 'v admission_cache" where
  "redis_setEx k seconds now e c = c\<lparr>ac_redis := js_set k (e, now + 1000 * seconds) (ac_redis c)\<rparr>"

definition delete_cached :: "cache_config \<Rightarrow> redis_calls \<Rightarrow> string \<Rightarrow> ident \<Rightarrow> 'v admission_cache \<Rightarrow> 'v admission_cache" where
  "delete_cached cfg rc namespace key c =
     (let k = adm_cacheKey cfg namespace key;
          c1 = (if rc_del rc = Redis_ok then c\<lparr>ac_redis := js_delete k (ac_redis c)\<rparr> else c)
      in c1\<lparr>ac_memory := js_delete k (ac_memory c1)\<rparr>)"

text \<open>The look into the memory, when Redis has not given the value.\<close>

definition get_memory :: "string \<Rightarrow> millis \<Rightarrow> 'v admission_cache \<Rightarrow> 'v option \<times> 'v admission_cache" where
  "get_memory k now c =
     (case js_get (ac_memory c) k of
        Some e \<Rightarrow> if isEntryValid now e then (Some (en_value e), c) else (None, c\<lparr>ac_memory := js_delete k (ac_memory c)\<rparr>)
      | None \<Rightarrow> (None, c))"

definition get_cached :: "cache_config \<Rightarrow> redis_calls \<Rightarrow> millis \<Rightarrow> string \<Rightarrow> ident \<Rightarrow> 'v admission_cache \<Rightarrow> 'v option \<times> 'v admission_cache" where
  "get_cached cfg rc now namespace key c =
     (let k = adm_cacheKey cfg namespace key
      in case (if rc_get rc = Redis_ok then redis_entry k now c else None) of
           Some e \<Rightarrow>
             if isEntryValid now e then (Some (en_value e), c)
             else get_memory k now (delete_cached cfg rc namespace key c)
         | None \<Rightarrow> get_memory k now c)"

text \<open>The loop over the memory: the first entry of those with the smallest time that is not revoked.\<close>

fun oldest_entry :: "(string \<times> millis) option \<Rightarrow> (string, 'v cache_entry) jsmap \<Rightarrow> string option" where
  "oldest_entry best [] = map_option fst best"
| "oldest_entry best ((k, e) # m) =
     oldest_entry
       (if (case best of None \<Rightarrow> True | Some (_, t) \<Rightarrow> en_createdAt e < t) \<and> \<not> en_revoked e then Some (k, en_createdAt e) else best) m"

definition evictOldest :: "'v admission_cache \<Rightarrow> 'v admission_cache" where
  "evictOldest c =
     (case oldest_entry None (ac_memory c) of
        Some k \<Rightarrow> if k \<noteq> [] then c\<lparr>ac_memory := js_delete k (ac_memory c)\<rparr> else c
      | None \<Rightarrow> c)"

definition set_cached :: "cache_config \<Rightarrow> redis_calls \<Rightarrow> millis \<Rightarrow> string \<Rightarrow> ident \<Rightarrow> 'v \<Rightarrow> amount \<Rightarrow> 'v admission_cache \<Rightarrow> 'v admission_cache" where
  "set_cached cfg rc now namespace key value version c =
     (let k = adm_cacheKey cfg namespace key;
          ttlMs = getTtl cfg namespace;
          e = \<lparr>en_value = value, en_createdAt = now, en_expiresAt = now + ttlMs, en_version = version, en_revoked = False, en_revokedAt = None\<rparr>;
          c1 = (if rc_set rc = Redis_ok then redis_setEx k (ceil_seconds ttlMs) now e c else c);
          c2 = c1\<lparr>ac_memory := js_set k e (ac_memory c1)\<rparr>
      in if length (ac_memory c2) > cc_maxEntries cfg then evictOldest c2 else c2)"

definition getCurrentVersion :: "redis_calls \<Rightarrow> millis \<Rightarrow> string \<Rightarrow> 'v admission_cache \<Rightarrow> amount" where
  "getCurrentVersion rc now k c =
     (case js_get (ac_memory c) k of
        Some e \<Rightarrow> en_version e
      | None \<Rightarrow>
          if rc_version rc = Redis_ok then (case redis_entry k now c of Some e \<Rightarrow> en_version e | None \<Rightarrow> 0) else 0)"

definition revoked_entry :: "millis \<Rightarrow> amount \<Rightarrow> 'v cache_entry \<Rightarrow> 'v cache_entry" where
  "revoked_entry now version e = e\<lparr>en_revoked := True, en_revokedAt := Some now, en_version := version\<rparr>"

text \<open>
  \<open>revoke\<close>: the log, Redis when both of its commands are executed, the memory in place.  The time to
  live of the entry in Redis is its time of expiry in seconds.
\<close>

definition revoke :: "cache_config \<Rightarrow> redis_calls \<Rightarrow> millis \<Rightarrow> string \<Rightarrow> ident \<Rightarrow> string \<Rightarrow> 'v admission_cache \<Rightarrow> 'v admission_cache" where
  "revoke cfg rc now namespace key reason c =
     (let k = adm_cacheKey cfg namespace key;
          version = getCurrentVersion rc now k c + 1;
          revocations = (case js_get (ac_log c) namespace of None \<Rightarrow> [] | Some rs \<Rightarrow> rs);
          c1 = c\<lparr>ac_log := js_set namespace (revocations @ [\<lparr>rv_key = k, rv_revokedAt = now, rv_reason = reason, rv_version = version\<rparr>]) (ac_log c)\<rparr>;
          c2 = (if rc_get rc = Redis_ok
                then (case redis_entry k now c1 of
                        Some e \<Rightarrow>
                          if rc_set rc = Redis_ok
                          then redis_setEx k (ceil_seconds (en_expiresAt e)) now (revoked_entry now version e) c1
                          else c1
                      | None \<Rightarrow> c1)
                else c1)
      in (case js_get (ac_memory c2) k of
            Some e \<Rightarrow> c2\<lparr>ac_memory := js_set k (revoked_entry now version e) (ac_memory c2)\<rparr>
          | None \<Rightarrow> c2))"

record cache_metrics =
  cm_hits :: nat
  cm_misses :: nat
  cm_invalidations :: nat
  cm_size :: nat
  cm_revocations :: nat

definition getMetrics_cache :: "'v admission_cache \<Rightarrow> cache_metrics" where
  "getMetrics_cache c = \<lparr>cm_hits = 0, cm_misses = 0, cm_invalidations = length (ac_log c), cm_size = length (ac_memory c),
     cm_revocations = length (ac_log c)\<rparr>"

definition clear_cached :: "cache_config \<Rightarrow> redis_calls \<Rightarrow> 'v admission_cache \<Rightarrow> 'v admission_cache" where
  "clear_cached cfg rc c =
     (let c1 = c\<lparr>ac_memory := [], ac_log := []\<rparr>
      in if rc_get rc = Redis_ok \<and> rc_del rc = Redis_ok
         then c1\<lparr>ac_redis := filter (\<lambda>(k, _). \<not> startsWith k (cc_prefix cfg)) (ac_redis c1)\<rparr>
         else c1)"

section \<open>Facts of the operations\<close>

lemma adm_cacheKey_inj:
  assumes "CHR '':'' \<notin> set ns" "CHR '':'' \<notin> set ns'"
  shows "adm_cacheKey cfg ns k = adm_cacheKey cfg ns' k' \<longleftrightarrow> ns = ns' \<and> k = k'"
  using assms
proof (induction ns arbitrary: ns')
  case Nil
  then show ?case by (cases ns') (auto simp: adm_cacheKey_def)
next
  case (Cons x ns)
  then show ?case by (cases ns') (auto simp: adm_cacheKey_def)
qed

lemma oldest_entry_in:
  "oldest_entry best m = Some k \<Longrightarrow> k \<in> fst ` set_option best \<or> k \<in> set (js_keys m)"
proof (induction best m rule: oldest_entry.induct)
  case (2 best k' e m)
  let ?b = "if (case best of None \<Rightarrow> True | Some (_, t) \<Rightarrow> en_createdAt e < t) \<and> \<not> en_revoked e then Some (k', en_createdAt e) else best"
  have "k \<in> fst ` set_option ?b \<or> k \<in> set (js_keys m)" using 2 by simp
  moreover have "fst ` set_option ?b \<subseteq> insert k' (fst ` set_option best)" by auto
  ultimately show ?case by (auto simp: js_keys_def)
qed auto

lemma oldest_entry_some: "best \<noteq> None \<Longrightarrow> oldest_entry best m \<noteq> None"
  by (induction best m rule: oldest_entry.induct) auto

lemma oldest_entry_found: "e \<in> set (js_values m) \<Longrightarrow> \<not> en_revoked e \<Longrightarrow> oldest_entry best m \<noteq> None"
proof (induction m arbitrary: best)
  case Nil
  then show ?case by (simp add: js_values_def)
next
  case (Cons a m)
  show ?case
  proof (cases "e = snd a")
    case True
    then show ?thesis using Cons.prems(2)
      by (cases a; cases best) (auto intro!: oldest_entry_some simp del: not_None_eq)
  next
    case False
    then have "e \<in> set (js_values m)" using Cons.prems(1) by (cases a) (simp add: js_values_def)
    then show ?thesis using Cons.IH Cons.prems(2) by (cases a) (simp del: not_None_eq)
  qed
qed

lemma js_delete_length: "js_wf m \<Longrightarrow> k \<in> set (js_keys m) \<Longrightarrow> length (js_delete k m) = length m - 1"
proof (induction m)
  case (Cons a m)
  show ?case
  proof (cases "fst a = k")
    case True
    then have "k \<notin> fst ` set m" using Cons.prems(1) by (auto simp: js_wf_def)
    then have "js_delete k m = m" by (simp add: js_delete_def delete_id)
    then show ?thesis using True by (cases a) (simp add: js_delete_def AList.delete_eq)
  next
    case False
    then have "length (js_delete k m) = length m - 1" "m \<noteq> []" using Cons by (auto simp: js_wf_def js_keys_def)
    then show ?thesis using False by (cases a; cases m) (auto simp: js_delete_def AList.delete_eq)
  qed
qed (simp add: js_keys_def)

lemma js_set_length: "length (js_set k v m) = (if k \<in> set (js_keys m) then length m else length m + 1)"
  by (induction m) (auto simp: js_set_def js_keys_def)


section \<open>The memory is bounded\<close>

inductive cache_op :: "cache_config \<Rightarrow> 'v admission_cache \<Rightarrow> 'v admission_cache \<Rightarrow> bool" for cfg where
  Op_get: "cache_op cfg c (snd (get_cached cfg rc now ns k c))"
| Op_set: "cache_op cfg c (set_cached cfg rc now ns k v version c)"
| Op_delete: "cache_op cfg c (delete_cached cfg rc ns k c)"
| Op_revoke: "cache_op cfg c (revoke cfg rc now ns k reason c)"
| Op_clear: "cache_op cfg c (clear_cached cfg rc c)"

definition memory_ok :: "cache_config \<Rightarrow> 'v admission_cache \<Rightarrow> bool" where
  "memory_ok cfg c \<longleftrightarrow> js_wf (ac_memory c) \<and> length (ac_memory c) \<le> cc_maxEntries cfg \<and> (\<forall>k\<in>set (js_keys (ac_memory c)). k \<noteq> [])"

lemma js_delete_shorter: "length (js_delete k m) \<le> length m"
  by (simp add: js_delete_def length_delete_le)

lemma js_delete_keys: "x \<in> set (js_keys (js_delete k m)) \<Longrightarrow> x \<in> set (js_keys m)"
  by (auto simp: js_keys_def js_delete_def AList.delete_eq)

lemma memory_ok_delete: "memory_ok cfg c \<Longrightarrow> ac_memory c' = js_delete k (ac_memory c) \<Longrightarrow> memory_ok cfg c'"
  unfolding memory_ok_def using js_delete_shorter [of k "ac_memory c"] by (auto dest: js_delete_keys)

lemma memory_ok_get_memory: "memory_ok cfg c \<Longrightarrow> memory_ok cfg (snd (get_memory k now c))"
  by (auto simp: get_memory_def split: option.splits intro: memory_ok_delete)

lemma memory_ok_deleted: "memory_ok cfg c \<Longrightarrow> memory_ok cfg (delete_cached cfg' rc ns k c)"
  by (auto simp: delete_cached_def Let_def intro: memory_ok_delete)

lemma adm_cacheKey_nonempty [simp]: "adm_cacheKey cfg ns k \<noteq> []"
  by (simp add: adm_cacheKey_def)

lemma memory_ok_evict:
  assumes "js_wf m" "\<forall>k\<in>set (js_keys m). k \<noteq> []" "\<exists>e\<in>set (js_values m). \<not> en_revoked e" "ac_memory c = m"
  shows "js_wf (ac_memory (evictOldest c)) \<and> length (ac_memory (evictOldest c)) = length m - 1 \<and>
     (\<forall>k\<in>set (js_keys (ac_memory (evictOldest c))). k \<noteq> [])"
proof -
  obtain k where k: "oldest_entry None m = Some k" using oldest_entry_found [of _ m None] assms(3) by blast
  then have "k \<in> set (js_keys m)" using oldest_entry_in by fastforce
  then have "evictOldest c = c\<lparr>ac_memory := js_delete k m\<rparr>" "length (js_delete k m) = length m - 1"
    using k assms js_delete_length by (auto simp: evictOldest_def)
  then show ?thesis using assms by (auto dest: js_delete_keys)
qed

lemma memory_ok_set:
  assumes "memory_ok cfg c"
  shows "memory_ok cfg (set_cached cfg rc now ns k v version c)"
proof -
  let ?k = "adm_cacheKey cfg ns k"
  define e where "e = \<lparr>en_value = v, en_createdAt = now, en_expiresAt = now + getTtl cfg ns, en_version = version, en_revoked = False, en_revokedAt = None\<rparr>"
  define c1 where "c1 = (if rc_set rc = Redis_ok then redis_setEx ?k (ceil_seconds (getTtl cfg ns)) now e c else c)"
  define m where "m = js_set ?k e (ac_memory c)"
  have s: "set_cached cfg rc now ns k v version c =
      (if cc_maxEntries cfg < length m then evictOldest (c1\<lparr>ac_memory := m\<rparr>) else c1\<lparr>ac_memory := m\<rparr>)"
    by (simp add: set_cached_def Let_def e_def c1_def m_def redis_setEx_def)
  have "js_get m ?k = Some e" by (simp add: m_def)
  then have "e \<in> set (js_values m)" by (rule js_get_values)
  then have ex: "\<exists>e\<in>set (js_values m). \<not> en_revoked e" by (rule rev_bexI) (simp add: e_def)
  have wf: "js_wf m" "\<forall>k\<in>set (js_keys m). k \<noteq> []" "length m \<le> cc_maxEntries cfg + 1"
    using assms by (auto simp: memory_ok_def m_def js_keys_set js_set_length)
  show ?thesis
    using memory_ok_evict [OF wf(1,2) ex, of "c1\<lparr>ac_memory := m\<rparr>"] wf by (auto simp: s memory_ok_def)
qed

lemma memory_ok_revoke: "memory_ok cfg c \<Longrightarrow> memory_ok cfg (revoke cfg rc now ns k reason c)"
proof -
  have *: "memory_ok cfg c" "js_get (ac_memory c) x = Some e" "ac_memory c' = js_set x e' (ac_memory c)" "memory_ok cfg c'" if
    "memory_ok cfg c" "js_get (ac_memory c) x = Some e" "ac_memory c' = js_set x e' (ac_memory c)" for c c' :: "'a admission_cache" and x e e'
    using that by (auto simp: memory_ok_def js_set_length js_keys_set dest: js_get_in_keys)
  assume "memory_ok cfg c"
  then show ?thesis
    by (auto simp: revoke_def Let_def redis_setEx_def split: option.splits intro: *(4)) (auto simp: memory_ok_def)
qed

lemma memory_ok_get: "memory_ok cfg c \<Longrightarrow> memory_ok cfg (snd (get_cached cfg' rc now ns k c))"
  unfolding get_cached_def Let_def
  by (auto split: option.split intro: memory_ok_get_memory memory_ok_deleted)

text \<open>
  The memory of a process never holds more entries than configured: a set that makes it one too many
  finds an entry to evict, because the entry it has just written is not revoked.
\<close>

theorem memory_bounded:
  assumes "(cache_op cfg)\<^sup>*\<^sup>* \<lparr>ac_redis = [], ac_memory = [], ac_log = []\<rparr> c"
  shows "length (ac_memory c) \<le> cc_maxEntries cfg"
proof -
  have "memory_ok cfg c"
    using assms
  proof (induction rule: rtranclp_induct)
    case base
    show ?case by (simp add: memory_ok_def js_keys_def)
  next
    case (step c c')
    from step(2) show ?case
    proof cases
      case Op_get
      then show ?thesis using step.IH by (simp add: memory_ok_get)
    next
      case Op_set
      then show ?thesis using step.IH by (simp add: memory_ok_set)
    next
      case Op_delete
      then show ?thesis using step.IH by (simp add: memory_ok_deleted)
    next
      case Op_revoke
      then show ?thesis using step.IH by (simp add: memory_ok_revoke)
    next
      case Op_clear
      then show ?thesis by (simp add: memory_ok_def clear_cached_def Let_def js_keys_def)
    qed
  qed
  then show ?thesis by (simp add: memory_ok_def)
qed

end
