(* ===== verification/Admission.thy ===== *)
theory Admission
  imports AdmissionCache SdkClient
begin

text \<open>
  The admission of requests (\<open>backend/src/services/admission-service.ts\<close>) and its middleware
  (\<open>backend/src/middleware/admission.ts\<close>): identity, scope, spending cap and meter, each read through the
  cache, each a step with its latency; the decision; the percentile of the latencies.  The steps that
  the code starts together touch different keys of the cache; they run here one after the other.  The
  tables are lists of rows; a query that fails and the latencies are in the environment of a request.
\<close>

section \<open>Data\<close>

record identity_resolution =
  ir_userId :: ident
  ir_address :: string
  ir_signature :: string
  ir_nonce :: string
  ir_valid :: bool
  ir_resolvedAt :: millis

record scope_read =
  sr_userId :: ident
  sr_scopes :: "string list"
  sr_registryId :: ident
  sr_tier :: string
  sr_resolvedAt :: millis

record cap_reading =
  ck_userId :: ident
  ck_capCeiling :: amount
  ck_currentUsage :: amount
  ck_remaining :: amount
  ck_withinCap :: bool
  ck_resolvedAt :: millis

record meter_reserve =
  mr_userId :: ident
  mr_amountReserved :: amount
  mr_balance :: amount
  mr_reserveId :: string
  mr_expiresAt :: millis
  mr_resolvedAt :: millis

text \<open>What the cache holds: each namespace is written with one of the four.\<close>

datatype admission_value =
    Cached_identity identity_resolution
  | Cached_scope scope_read
  | Cached_cap cap_reading
  | Cached_meter meter_reserve

record admission_error =
  ae_step :: string
  ae_message :: string
  ae_latencyMs :: millis
  ae_fatal :: bool
  ae_code :: "gateway_error_code option"

record 'a step_result =
  st_data :: "'a option"
  st_latencyMs :: millis
  st_error :: "string option"
  st_cached :: bool
  st_revoked :: bool

record step_latencies =
  sl_identity :: millis
  sl_scope :: millis
  sl_cap :: millis
  sl_meter :: millis

record latency_record =
  lr_timestamp :: millis
  lr_total :: millis
  lr_steps :: step_latencies
  lr_admitted :: bool

record admission_result =
  ar_admitted :: bool
  ar_identity :: "identity_resolution option"
  ar_scope :: "scope_read option"
  ar_cap :: "cap_reading option"
  ar_meter :: "meter_reserve option"
  ar_totalLatencyMs :: millis
  ar_steps :: step_latencies
  ar_p99Compliant :: bool
  ar_errors :: "admission_error list"

section \<open>Tables, configuration and requests\<close>

record scope_row =
  sw_userId :: ident
  sw_scope :: string
  sw_registryId :: "ident option"
  sw_tier :: "string option"

record registry_row =
  rw_userId :: ident
  rw_capCeiling :: "amount option"
  rw_currentUsage :: "amount option"

record meter_row =
  mw_userId :: ident
  mw_balance :: "amount option"

record reserve_row =
  vw_userId :: ident
  vw_amount :: amount
  vw_reserveId :: string
  vw_expiresAt :: millis

record admission_config =
  cf_totalBudgetMs :: millis
  cf_enforcement :: bool
  cf_p99WindowMs :: millis
  cf_minSamples :: nat
  cf_identityEnabled :: bool
  cf_scopeEnabled :: bool
  cf_capEnabled :: bool
  cf_meterEnabled :: bool
  cf_cache :: cache_config

record admission_request =
  rq_userId :: "ident option"
  rq_address :: "string option"
  rq_signature :: "string option"
  rq_nonce :: "string option"

record admission_state =
  as_cache :: "admission_value admission_cache"
  as_scopes :: "scope_row list"
  as_registries :: "registry_row list"
  as_meters :: "meter_row list"
  as_reserves :: "reserve_row list"
  as_latencies :: "latency_record list"
  as_violations :: "millis list"

text \<open>
  The commands of Redis by namespace, the message of a scope query that fails, the other queries that
  fail, and the latencies measured.
\<close>

record admission_env =
  en_redis :: "string \<Rightarrow> redis_calls"
  en_now :: millis
  en_scopeError :: "string option"
  en_registryFails :: bool
  en_meterFails :: bool
  en_insertFails :: bool
  en_latencies :: step_latencies
  en_totalLatency :: millis

section \<open>Steps\<close>

text \<open>\<open>x || d\<close> for strings and numbers that may be absent.\<close>

definition or_text :: "string option \<Rightarrow> string \<Rightarrow> string" where
  "or_text x d = (case x of None \<Rightarrow> d | Some s \<Rightarrow> if s = [] then d else s)"

definition or_zero :: "amount option \<Rightarrow> amount" where
  "or_zero x = (case x of None \<Rightarrow> 0 | Some a \<Rightarrow> a)"

text \<open>\<open>.single()\<close>: the row, when there is exactly one.\<close>

definition single_row :: "bool \<Rightarrow> 'r list \<Rightarrow> 'r option" where
  "single_row fails rows = (if fails then None else (case rows of [r] \<Rightarrow> Some r | _ \<Rightarrow> None))"

definition cached_value :: "admission_config \<Rightarrow> admission_env \<Rightarrow> string \<Rightarrow> ident \<Rightarrow> admission_state \<Rightarrow> admission_value option \<times> admission_state" where
  "cached_value cfg env ns key s =
     (let (v, c) = get_cached (cf_cache cfg) (en_redis env ns) (en_now env) ns key (as_cache s) in (v, s\<lparr>as_cache := c\<rparr>))"

definition cache_value :: "admission_config \<Rightarrow> admission_env \<Rightarrow> string \<Rightarrow> ident \<Rightarrow> admission_value \<Rightarrow> amount \<Rightarrow> admission_state \<Rightarrow> admission_state" where
  "cache_value cfg env ns key v version s =
     s\<lparr>as_cache := set_cached (cf_cache cfg) (en_redis env ns) (en_now env) ns key v version (as_cache s)\<rparr>"

definition verifyX402Signature :: "string option \<Rightarrow> string option \<Rightarrow> string \<Rightarrow> bool" where
  "verifyX402Signature signature nonce address \<longleftrightarrow> or_text signature [] \<noteq> [] \<and> or_text nonce [] \<noteq> []"

definition resolveIdentity ::
    "admission_config \<Rightarrow> admission_env \<Rightarrow> admission_request \<Rightarrow> admission_state \<Rightarrow> (string + identity_resolution) \<times> admission_state" where
  "resolveIdentity cfg env rq s =
     (let userId = or_text (rq_userId rq) ''unknown''
      in case cached_value cfg env ''identity'' userId s of
           (Some (Cached_identity i), s1) \<Rightarrow> (Inr (i\<lparr>ir_resolvedAt := en_now env\<rparr>), s1)
         | (_, s1) \<Rightarrow>
             (let address = or_text (rq_address rq) userId;
                  i = \<lparr>ir_userId = userId, ir_address = address, ir_signature = or_text (rq_signature rq) [],
                       ir_nonce = or_text (rq_nonce rq) [], ir_valid = verifyX402Signature (rq_signature rq) (rq_nonce rq) address,
                       ir_resolvedAt = en_now env\<rparr>
              in (Inr i, cache_value cfg env ''identity'' userId (Cached_identity i) 1 s1)))"

definition readScope ::
    "admission_config \<Rightarrow> admission_env \<Rightarrow> admission_request \<Rightarrow> admission_state \<Rightarrow> (string + scope_read) \<times> admission_state" where
  "readScope cfg env rq s =
     (let userId = or_text (rq_userId rq) ''unknown''
      in case cached_value cfg env ''scope'' userId s of
           (Some (Cached_scope sc), s1) \<Rightarrow> (Inr (sc\<lparr>sr_resolvedAt := en_now env\<rparr>), s1)
         | (_, s1) \<Rightarrow>
             (case en_scopeError env of
                Some e \<Rightarrow> (Inl e, s1)
              | None \<Rightarrow>
                  (let rows = filter (\<lambda>r. sw_userId r = userId) (as_scopes s1);
                       sc = \<lparr>sr_userId = userId, sr_scopes = map sw_scope rows,
                             sr_registryId = or_text (case rows of [] \<Rightarrow> None | r # _ \<Rightarrow> sw_registryId r) userId,
                             sr_tier = or_text (case rows of [] \<Rightarrow> None | r # _ \<Rightarrow> sw_tier r) ''free'',
                             sr_resolvedAt = en_now env\<rparr>
                   in (Inr sc, cache_value cfg env ''scope'' userId (Cached_scope sc) 1 s1))))"

definition unresolved_user :: "identity_resolution option \<Rightarrow> ident" where
  "unresolved_user identity = or_text (map_option ir_userId identity) ''unknown''"

definition read_cap ::
    "admission_config \<Rightarrow> admission_env \<Rightarrow> identity_resolution option \<Rightarrow> admission_state \<Rightarrow> (string + cap_reading) \<times> admission_state" where
  "read_cap cfg env identity s =
     (case identity of
        Some i \<Rightarrow>
          if ir_valid i then
            (case cached_value cfg env ''cap'' (ir_userId i) s of
               (Some (Cached_cap k), s1) \<Rightarrow> (Inr (k\<lparr>ck_resolvedAt := en_now env\<rparr>), s1)
             | (_, s1) \<Rightarrow>
                 (let row = single_row (en_registryFails env) (filter (\<lambda>r. rw_userId r = ir_userId i) (as_registries s1));
                      ceiling = or_zero (Option.bind row rw_capCeiling);
                      usage = or_zero (Option.bind row rw_currentUsage);
                      k = \<lparr>ck_userId = ir_userId i, ck_capCeiling = ceiling, ck_currentUsage = usage, ck_remaining = ceiling - usage,
                           ck_withinCap = (0 < ceiling - usage), ck_resolvedAt = en_now env\<rparr>
                  in (Inr k, cache_value cfg env ''cap'' (ir_userId i) (Cached_cap k) ceiling s1)))
          else (Inr \<lparr>ck_userId = unresolved_user identity, ck_capCeiling = 0, ck_currentUsage = 0, ck_remaining = 0,
                     ck_withinCap = False, ck_resolvedAt = en_now env\<rparr>, s)
      | None \<Rightarrow> (Inr \<lparr>ck_userId = unresolved_user identity, ck_capCeiling = 0, ck_currentUsage = 0, ck_remaining = 0,
                     ck_withinCap = False, ck_resolvedAt = en_now env\<rparr>, s))"

definition reserve_id :: "millis \<Rightarrow> ident \<Rightarrow> string" where
  "reserve_id now userId = ''reserve_'' @ show_int now @ ''_'' @ userId"

definition reserveMeter ::
    "admission_config \<Rightarrow> admission_env \<Rightarrow> identity_resolution option \<Rightarrow> scope_read option \<Rightarrow> admission_state \<Rightarrow>
     (string + meter_reserve) \<times> admission_state" where
  "reserveMeter cfg env identity scope s =
     (let refused = \<lparr>mr_userId = unresolved_user identity, mr_amountReserved = 0, mr_balance = 0, mr_reserveId = [],
                     mr_expiresAt = en_now env, mr_resolvedAt = en_now env\<rparr>
      in case identity of
           None \<Rightarrow> (Inr refused, s)
         | Some i \<Rightarrow>
             if \<not> ir_valid i then (Inr refused, s)
             else
               (case cached_value cfg env ''meter'' (ir_userId i) s of
                  (Some (Cached_meter m), s1) \<Rightarrow> (Inr (m\<lparr>mr_resolvedAt := en_now env\<rparr>), s1)
                | (_, s1) \<Rightarrow>
                    (let row = single_row (en_meterFails env) (filter (\<lambda>r. mw_userId r = ir_userId i) (as_meters s1));
                         balance = or_zero (Option.bind row mw_balance);
                         reserved = min balance (if map_option sr_tier scope = Some ''enterprise'' then 100 else 10);
                         rid = reserve_id (en_now env) (ir_userId i);
                         s2 = (if en_insertFails env then s1
                               else s1\<lparr>as_reserves := as_reserves s1 @
                                 [\<lparr>vw_userId = ir_userId i, vw_amount = reserved, vw_reserveId = rid, vw_expiresAt = en_now env + 60000\<rparr>]\<rparr>);
                         m = \<lparr>mr_userId = ir_userId i, mr_amountReserved = reserved, mr_balance = balance, mr_reserveId = rid,
                              mr_expiresAt = en_now env + 60000, mr_resolvedAt = en_now env\<rparr>
                     in (Inr m, cache_value cfg env ''meter'' (ir_userId i) (Cached_meter m) 1 s2))))"

section \<open>Running a step\<close>

definition namespace_of :: "string \<Rightarrow> string option" where
  "namespace_of step =
     map_of [(''identityResolution'', ''identity''), (''scopeRead'', ''scope''), (''capCheck'', ''cap''), (''meterReserve'', ''meter'')] step"

text \<open>\<open>admissionConfig.cache[name]\<close>: the sections of the configuration and whether they are enabled.\<close>

definition cache_section :: "admission_config \<Rightarrow> string \<Rightarrow> bool option" where
  "cache_section cfg name =
     map_of [(''identityResolution'', cf_identityEnabled cfg), (''scopeRead'', cf_scopeEnabled cfg),
             (''capCheck'', cf_capEnabled cfg), (''meterReserve'', cf_meterEnabled cfg)] name"

definition getCachedResult :: "string \<Rightarrow> 'a option" where
  "getCachedResult step = None"

text \<open>The message of the exception, if one is raised: \<open>.enabled\<close> of a section that does not exist.\<close>

definition cacheResult :: "admission_config \<Rightarrow> string \<Rightarrow> string option" where
  "cacheResult cfg step =
     (case namespace_of step of
        None \<Rightarrow> None
      | Some ns \<Rightarrow>
          (case cache_section cfg ns of
             None \<Rightarrow> Some ''Cannot read properties of undefined (reading 'enabled')''
           | Some _ \<Rightarrow> None))"

definition executeStep ::
    "admission_config \<Rightarrow> string \<Rightarrow> millis \<Rightarrow> (admission_state \<Rightarrow> (string + 'a) \<times> admission_state) \<Rightarrow> admission_state \<Rightarrow>
     'a step_result \<times> admission_state" where
  "executeStep cfg step latency fn s =
     (case getCachedResult step of
        Some d \<Rightarrow> (\<lparr>st_data = Some d, st_latencyMs = latency, st_error = None, st_cached = True, st_revoked = False\<rparr>, s)
      | None \<Rightarrow>
          (case fn s of
             (Inl e, s') \<Rightarrow> (\<lparr>st_data = None, st_latencyMs = latency, st_error = Some e, st_cached = False, st_revoked = False\<rparr>, s')
           | (Inr d, s') \<Rightarrow>
               (case cacheResult cfg step of
                  Some e \<Rightarrow> (\<lparr>st_data = None, st_latencyMs = latency, st_error = Some e, st_cached = False, st_revoked = False\<rparr>, s')
                | None \<Rightarrow> (\<lparr>st_data = Some d, st_latencyMs = latency, st_error = None, st_cached = False, st_revoked = False\<rparr>, s'))))"

section \<open>The decision\<close>

definition identity_errors :: "identity_resolution step_result \<Rightarrow> admission_error list" where
  "identity_errors r =
     (if (case st_data r of None \<Rightarrow> True | Some i \<Rightarrow> \<not> ir_valid i)
      then [\<lparr>ae_step = ''identityResolution'', ae_message = or_text (st_error r) ''Identity resolution failed'',
             ae_latencyMs = st_latencyMs r, ae_fatal = True,
             ae_code = Some (if st_data r \<noteq> None then GATEWAY_KEY_INVALID else GATEWAY_KEY_MISSING)\<rparr>]
      else [])"

definition scope_errors :: "scope_read step_result \<Rightarrow> admission_error list" where
  "scope_errors r =
     (if st_data r = None
      then [\<lparr>ae_step = ''scopeRead'', ae_message = or_text (st_error r) ''Scope read failed'', ae_latencyMs = st_latencyMs r,
             ae_fatal = True, ae_code = Some (if or_text (st_error r) [] \<noteq> [] then GATEWAY_INTERNAL else GATEWAY_SCOPE_DENIED)\<rparr>]
      else [])"

definition cap_errors :: "cap_reading step_result \<Rightarrow> admission_error list" where
  "cap_errors r =
     (case st_data r of
        Some k \<Rightarrow> if ck_withinCap k then []
          else [\<lparr>ae_step = ''capCheck'', ae_message = ''Cap ceiling exceeded'', ae_latencyMs = st_latencyMs r, ae_fatal = True,
                 ae_code = Some GATEWAY_CAP_EXCEEDED\<rparr>]
      | None \<Rightarrow> [])"

definition meter_errors :: "meter_reserve step_result \<Rightarrow> admission_error list" where
  "meter_errors r =
     (case st_data r of
        Some m \<Rightarrow> if 0 < mr_amountReserved m then []
          else [\<lparr>ae_step = ''meterReserve'', ae_message = ''Insufficient meter balance'', ae_latencyMs = st_latencyMs r, ae_fatal = True,
                 ae_code = Some GATEWAY_METER_INSUFFICIENT\<rparr>]
      | None \<Rightarrow> [])"

text \<open>\<open>admitted\<close> is set to false with each error that is pushed.\<close>

definition evaluateAdmission ::
    "identity_resolution step_result \<Rightarrow> scope_read step_result \<Rightarrow> cap_reading step_result \<Rightarrow> meter_reserve step_result \<Rightarrow>
     bool \<times> admission_error list" where
  "evaluateAdmission i sc k m =
     (let errors = identity_errors i @ scope_errors sc @ cap_errors k @ meter_errors m in (errors = [], errors))"

definition checkBudgetCompliance :: "admission_config \<Rightarrow> millis \<Rightarrow> bool" where
  "checkBudgetCompliance cfg ms \<longleftrightarrow> (if \<not> cf_enforcement cfg then True else ms \<le> cf_totalBudgetMs cfg)"

definition recordLatency :: "admission_config \<Rightarrow> millis \<Rightarrow> latency_record \<Rightarrow> admission_state \<Rightarrow> admission_state" where
  "recordLatency cfg now r s =
     s\<lparr>as_latencies := filter (\<lambda>r. now - cf_p99WindowMs cfg < lr_timestamp r) (as_latencies s @ [r])\<rparr>"

definition admit :: "admission_config \<Rightarrow> admission_env \<Rightarrow> admission_request \<Rightarrow> admission_state \<Rightarrow> admission_result \<times> admission_state" where
  "admit cfg env rq s =
     (let lat = en_latencies env;
          ms = en_totalLatency env;
          (i, s1) = executeStep cfg ''identityResolution'' (sl_identity lat) (resolveIdentity cfg env rq) s;
          (sc, s2) = executeStep cfg ''scopeRead'' (sl_scope lat) (readScope cfg env rq) s1;
          (k, s3) = executeStep cfg ''capCheck'' (sl_cap lat) (read_cap cfg env (st_data i)) s2;
          (m, s4) = executeStep cfg ''meterReserve'' (sl_meter lat) (reserveMeter cfg env (st_data i) (st_data sc)) s3;
          (admitted, errors) = evaluateAdmission i sc k m;
          compliant = checkBudgetCompliance cfg ms;
          s5 = recordLatency cfg (en_now env + ms) \<lparr>lr_timestamp = en_now env, lr_total = ms, lr_steps = lat, lr_admitted = admitted\<rparr> s4;
          errors' = (if cf_enforcement cfg \<and> \<not> compliant
                     then errors @ [\<lparr>ae_step = ''budget'',
                       ae_message = ''Admission total latency '' @ show_int ms @ ''ms exceeds budget '' @ show_int (cf_totalBudgetMs cfg) @ ''ms'',
                       ae_latencyMs = ms, ae_fatal = False, ae_code = None\<rparr>]
                     else errors);
          s6 = (if 95 * cf_totalBudgetMs cfg < 100 * ms then s5\<lparr>as_violations := as_violations s5 @ [ms]\<rparr> else s5)
      in (\<lparr>ar_admitted = admitted, ar_identity = st_data i, ar_scope = st_data sc, ar_cap = st_data k, ar_meter = st_data m,
           ar_totalLatencyMs = ms, ar_steps = lat, ar_p99Compliant = compliant, ar_errors = errors'\<rparr>, s6))"

section \<open>Latencies\<close>

definition getP99Latency :: "admission_config \<Rightarrow> admission_state \<Rightarrow> millis" where
  "getP99Latency cfg s =
     (if length (as_latencies s) < cf_minSamples cfg then 0
      else
        (let xs = sort (map lr_total (as_latencies s));
             x = xs ! (length xs * 99 div 100)
         in if x \<noteq> 0 then x else last xs))"

record budget_status =
  bs_p99 :: millis
  bs_budget :: millis
  bs_compliant :: bool
  bs_samples :: nat
  bs_violations :: nat

definition getBudgetStatus :: "admission_config \<Rightarrow> admission_state \<Rightarrow> budget_status" where
  "getBudgetStatus cfg s =
     \<lparr>bs_p99 = getP99Latency cfg s, bs_budget = cf_totalBudgetMs cfg, bs_compliant = (getP99Latency cfg s \<le> cf_totalBudgetMs cfg),
      bs_samples = length (as_latencies s), bs_violations = length (filter (\<lambda>v. cf_totalBudgetMs cfg < v) (as_violations s))\<rparr>"

definition clearLatencyRecords :: "admission_state \<Rightarrow> admission_state" where
  "clearLatencyRecords s = s\<lparr>as_latencies := [], as_violations := []\<rparr>"

section \<open>The middleware\<close>

record denial =
  dn_status :: int
  dn_code :: gateway_error_code
  dn_message :: string
  dn_action :: string
  dn_retryable :: bool
  dn_retryAfter :: "amount option"

datatype admission_answer = Admission_next "admission_result option" | Admission_denied denial

definition denied_error :: "admission_error list \<Rightarrow> admission_error option" where
  "denied_error es = (case List.find ae_fatal es of Some e \<Rightarrow> Some e | None \<Rightarrow> (case es of [] \<Rightarrow> None | e # _ \<Rightarrow> Some e))"

definition denial_of :: "admission_error list \<Rightarrow> denial" where
  "denial_of es =
     (let code = (case Option.bind (denied_error es) ae_code of Some c \<Rightarrow> c | None \<Rightarrow> GATEWAY_INTERNAL);
          d = errorByCode code
      in \<lparr>dn_status = ec_status d, dn_code = code, dn_message = or_text (map_option ae_message (denied_error es)) (ec_message d),
          dn_action = ec_action d, dn_retryable = ec_retryable d, dn_retryAfter = ec_retryAfterSeconds d\<rparr>)"

definition admission_middleware ::
    "admission_config \<Rightarrow> admission_env \<Rightarrow> admission_request \<Rightarrow> admission_state \<Rightarrow> admission_answer \<times> admission_state" where
  "admission_middleware cfg env rq s =
     (if \<not> cf_enforcement cfg then (Admission_next None, s)
      else
        (let (r, s') = admit cfg env rq s
         in (if ar_admitted r then Admission_next (Some r) else Admission_denied (denial_of (ar_errors r)), s')))"

definition quickAdmissionCheck :: "admission_config \<Rightarrow> admission_env \<Rightarrow> admission_request \<Rightarrow> admission_state \<Rightarrow> bool \<times> admission_state" where
  "quickAdmissionCheck cfg env rq s = (let (r, s') = admit cfg env rq s in (ar_admitted r, s'))"

text \<open>The status, and whether there is a client of Redis.\<close>

definition getAdmissionStatus :: "admission_config \<Rightarrow> redis_call \<Rightarrow> admission_state \<Rightarrow> budget_status \<times> bool" where
  "getAdmissionStatus cfg client s = (getBudgetStatus cfg s, client \<noteq> Redis_absent)"

end
