(* ===== verification/AdmissionCacheProps.thy ===== *)
theory AdmissionCacheProps
  imports AdmissionCache
begin

text \<open>
  What revocation promises: a revoked value is not served again by the process that revoked it, whatever
  the processes do next short of setting the key anew; and the cases in which it is served.
\<close>

section \<open>Revoked values\<close>

text \<open>What may follow a revocation of \<open>key\<close>: everything but a set of it, here or in another process.\<close>

inductive later_op :: "cache_config \<Rightarrow> string \<Rightarrow> 'v admission_cache \<Rightarrow> 'v admission_cache \<Rightarrow> bool" for cfg key where
  Later_get: "later_op cfg key c (snd (get_cached cfg rc now ns k c))"
| Later_set: "adm_cacheKey cfg ns k \<noteq> key \<Longrightarrow> later_op cfg key c (set_cached cfg rc now ns k v version c)"
| Later_delete: "later_op cfg key c (delete_cached cfg rc ns k c)"
| Later_revoke: "later_op cfg key c (revoke cfg rc now ns k reason c)"
| Later_clear: "later_op cfg key c (clear_cached cfg rc c)"
| Later_elsewhere: "later_op cfg key d d' \<Longrightarrow> ac_redis d = ac_redis c \<Longrightarrow> later_op cfg key c (c\<lparr>ac_redis := ac_redis d'\<rparr>)"

text \<open>No live value of the key in Redis from a time on; none in the memory.\<close>

definition dead_redis :: "string \<Rightarrow> millis \<Rightarrow> 'v admission_cache \<Rightarrow> bool" where
  "dead_redis key t c \<longleftrightarrow> (\<forall>e x. js_get (ac_redis c) key = Some (e, x) \<longrightarrow> en_revoked e \<or> x \<le> t)"

definition dead_memory :: "string \<Rightarrow> 'v admission_cache \<Rightarrow> bool" where
  "dead_memory key c \<longleftrightarrow> (\<forall>e. js_get (ac_memory c) key = Some e \<longrightarrow> en_revoked e)"

lemma revoked_entry_revoked [simp]: "en_revoked (revoked_entry now v e)" "\<not> isEntryValid t (revoked_entry now v e)"
  by (simp_all add: revoked_entry_def isEntryValid_def)

lemma js_get_filter_keys: "js_get (filter (\<lambda>(k, _). P k) m) k = (if P k then js_get m k else None)"
  by (induction m) (auto simp: js_get_def)

lemma get_memory_redis [simp]: "ac_redis (snd (get_memory k now c)) = ac_redis c"
  by (auto simp: get_memory_def split: option.split)

lemma evictOldest_redis [simp]: "ac_redis (evictOldest c) = ac_redis c"
  by (auto simp: evictOldest_def split: option.split)

lemma dead_redis_cong: "ac_redis c' = ac_redis c \<Longrightarrow> dead_redis k t c' = dead_redis k t c"
  by (simp add: dead_redis_def)

lemma dead_redis_delete: "dead_redis k t c \<Longrightarrow> dead_redis k t (delete_cached cfg rc ns i c)"
  by (auto simp: dead_redis_def delete_cached_def Let_def)

lemma dead_redis_get: "dead_redis k t c \<Longrightarrow> dead_redis k t (snd (get_cached cfg rc now ns i c))"
proof -
  assume d: "dead_redis k t c"
  then have "dead_redis k t (snd (get_memory x now c))" "dead_redis k t (snd (get_memory x now (delete_cached cfg rc ns i c)))" for x
    using dead_redis_delete [OF d, of cfg rc ns i] by (simp_all add: dead_redis_def)
  then show ?thesis using d by (simp add: get_cached_def Let_def split: option.split)
qed

lemma set_cached_redis: "ac_redis (set_cached cfg rc now ns i v ver c) =
    (if rc_set rc = Redis_ok
     then js_set (adm_cacheKey cfg ns i)
       (\<lparr>en_value = v, en_createdAt = now, en_expiresAt = now + getTtl cfg ns, en_version = ver, en_revoked = False, en_revokedAt = None\<rparr>,
        now + 1000 * ceil_seconds (getTtl cfg ns)) (ac_redis c)
     else ac_redis c)"
  by (simp add: set_cached_def Let_def redis_setEx_def)

lemma revoke_redis: "ac_redis (revoke cfg rc now ns i reason c) =
    (case if rc_get rc = Redis_ok \<and> rc_set rc = Redis_ok then redis_entry (adm_cacheKey cfg ns i) now c else None of
       Some e \<Rightarrow> js_set (adm_cacheKey cfg ns i)
         (revoked_entry now (getCurrentVersion rc now (adm_cacheKey cfg ns i) c + 1) e, now + 1000 * ceil_seconds (en_expiresAt e)) (ac_redis c)
     | None \<Rightarrow> ac_redis c)"
  by (simp add: revoke_def Let_def redis_setEx_def redis_entry_def split: option.split)

lemma dead_redis_set_entry:
  "dead_redis k t c \<Longrightarrow> en_revoked e \<Longrightarrow> ac_redis c' = js_set k' (e, x) (ac_redis c) \<Longrightarrow> dead_redis k t c'"
  by (simp add: dead_redis_def)

lemma dead_redis_revoke: "dead_redis k t c \<Longrightarrow> dead_redis k t (revoke cfg rc now ns i reason c)"
proof (cases "if rc_get rc = Redis_ok \<and> rc_set rc = Redis_ok then redis_entry (adm_cacheKey cfg ns i) now c else None")
  case None
  then have "ac_redis (revoke cfg rc now ns i reason c) = ac_redis c" by (simp only: revoke_redis option.case)
  then show "dead_redis k t c \<Longrightarrow> ?thesis" by (simp only: dead_redis_def)
next
  case (Some e)
  then have "ac_redis (revoke cfg rc now ns i reason c) = js_set (adm_cacheKey cfg ns i)
      (revoked_entry now (getCurrentVersion rc now (adm_cacheKey cfg ns i) c + 1) e, now + 1000 * ceil_seconds (en_expiresAt e)) (ac_redis c)"
    by (simp only: revoke_redis option.case)
  then show "dead_redis k t c \<Longrightarrow> ?thesis" using dead_redis_set_entry revoked_entry_revoked(1) by metis
qed

lemma dead_redis_later: "later_op cfg k c c' \<Longrightarrow> dead_redis k t c \<Longrightarrow> dead_redis k t c'"
proof (induction rule: later_op.induct)
  case (Later_set ns i c rc now v version)
  then show ?case by (simp add: dead_redis_def set_cached_redis)
next
  case (Later_clear c rc)
  then show ?case by (auto simp: dead_redis_def clear_cached_def Let_def js_get_filter_keys split: if_splits)
next
  case (Later_elsewhere d d' c)
  have "dead_redis k t d" using dead_redis_cong [OF Later_elsewhere.hyps(2)] Later_elsewhere.prems by simp
  then have "dead_redis k t d'" by (rule Later_elsewhere.IH)
  then show ?case using dead_redis_cong [of "c\<lparr>ac_redis := ac_redis d'\<rparr>" d'] by simp
qed (simp_all add: dead_redis_get dead_redis_delete dead_redis_revoke)

lemma dead_memory_get_memory: "dead_memory k c \<Longrightarrow> dead_memory k (snd (get_memory x now c))"
  by (cases "js_get (ac_memory c) x") (simp_all add: dead_memory_def get_memory_def)

lemma dead_memory_delete: "dead_memory k c \<Longrightarrow> dead_memory k (delete_cached cfg rc ns i c)"
  by (auto simp: dead_memory_def delete_cached_def Let_def)

lemma dead_memory_get: "dead_memory k c \<Longrightarrow> dead_memory k (snd (get_cached cfg rc now ns i c))"
  using dead_memory_get_memory dead_memory_delete
  by (simp add: get_cached_def Let_def dead_memory_get_memory dead_memory_delete split: option.split)

lemma dead_memory_evict: "dead_memory k c \<Longrightarrow> dead_memory k (evictOldest c)"
  by (auto simp: dead_memory_def evictOldest_def split: option.split)

lemma dead_memory_set: "adm_cacheKey cfg ns i \<noteq> k \<Longrightarrow> dead_memory k c \<Longrightarrow> dead_memory k (set_cached cfg rc now ns i v ver c)"
  by (auto simp: set_cached_def Let_def redis_setEx_def intro!: dead_memory_evict) (auto simp: dead_memory_def)

lemma revoke_memory: "ac_memory (revoke cfg rc now ns i reason c) =
    (case js_get (ac_memory c) (adm_cacheKey cfg ns i) of
       Some e \<Rightarrow> js_set (adm_cacheKey cfg ns i) (revoked_entry now (getCurrentVersion rc now (adm_cacheKey cfg ns i) c + 1) e) (ac_memory c)
     | None \<Rightarrow> ac_memory c)"
  by (simp add: revoke_def Let_def redis_setEx_def split: option.split)

lemma dead_memory_revoke: "dead_memory k c \<Longrightarrow> dead_memory k (revoke cfg rc now ns i reason c)"
  by (cases "js_get (ac_memory c) (adm_cacheKey cfg ns i)") (simp_all add: dead_memory_def revoke_memory)

lemma dead_memory_later: "later_op cfg k c c' \<Longrightarrow> dead_memory k c \<Longrightarrow> dead_memory k c'"
proof (induction rule: later_op.induct)
  case (Later_elsewhere d d' c)
  have "ac_memory (c\<lparr>ac_redis := ac_redis d'\<rparr>) = ac_memory c" by simp
  then show ?case using Later_elsewhere.prems by (simp only: dead_memory_def)
next
  case (Later_clear c rc)
  then show ?case by (simp add: dead_memory_def clear_cached_def Let_def)
qed (simp_all add: dead_memory_get dead_memory_delete dead_memory_revoke dead_memory_set)

lemma revoked_dead:
  assumes "rc_get rc = Redis_ok" "rc_set rc = Redis_ok"
  shows "dead_redis (adm_cacheKey cfg ns i) now (revoke cfg rc now ns i reason c)" "dead_memory (adm_cacheKey cfg ns i) (revoke cfg rc now ns i reason c)"
proof -
  show "dead_redis (adm_cacheKey cfg ns i) now (revoke cfg rc now ns i reason c)"
  proof (cases "redis_entry (adm_cacheKey cfg ns i) now c")
    case None
    then have "\<forall>e x. js_get (ac_redis c) (adm_cacheKey cfg ns i) = Some (e, x) \<longrightarrow> x \<le> now"
      by (auto simp: redis_entry_def split: if_splits)
    then show ?thesis using None assms by (simp add: dead_redis_def revoke_redis)
  next
    case (Some e)
    then show ?thesis using assms by (simp add: dead_redis_def revoke_redis)
  qed
  show "dead_memory (adm_cacheKey cfg ns i) (revoke cfg rc now ns i reason c)"
    by (cases "js_get (ac_memory c) (adm_cacheKey cfg ns i)") (simp_all add: dead_memory_def revoke_memory)
qed

lemma dead_not_served:
  assumes "dead_redis (adm_cacheKey cfg ns i) t c" "dead_memory (adm_cacheKey cfg ns i) c" "t \<le> now"
  shows "fst (get_cached cfg rc now ns i c) = None"
proof -
  have m: "fst (get_memory (adm_cacheKey cfg ns i) now d) = None" if "dead_memory (adm_cacheKey cfg ns i) d" for d :: "'a admission_cache"
    using that by (auto simp: get_memory_def dead_memory_def isEntryValid_def split: option.split)
  have "\<not> isEntryValid now e" if "redis_entry (adm_cacheKey cfg ns i) now c = Some e" for e
    using that assms by (auto simp: redis_entry_def dead_redis_def isEntryValid_def split: option.splits if_splits)
  then show ?thesis
    using m [OF assms(2)] m [OF dead_memory_delete [OF assms(2)]] by (auto simp: get_cached_def Let_def split: option.split)
qed

text \<open>
  C37: a revoked value is not served again.  When \<open>revoke\<close> has reached Redis, a later \<open>get\<close> of the key in
  that process gives nothing: whatever gets, deletes, revocations and clearings the processes perform in
  between, whatever other keys they set, and whether Redis answers or fails in any of these calls.
\<close>

theorem revoked_not_served:
  assumes "rc_get rc = Redis_ok" "rc_set rc = Redis_ok"
    and "(later_op cfg (adm_cacheKey cfg ns i))\<^sup>*\<^sup>* (revoke cfg rc now ns i reason c) c'" and "now \<le> now'"
  shows "fst (get_cached cfg rc' now' ns i c') = None"
proof -
  have "dead_redis (adm_cacheKey cfg ns i) now c' \<and> dead_memory (adm_cacheKey cfg ns i) c'"
    using assms(3)
  proof (induction rule: rtranclp_induct)
    case base
    show ?case using revoked_dead [OF assms(1,2)] by blast
  next
    case (step d e)
    then show ?case by (simp add: dead_redis_later dead_memory_later)
  qed
  then show ?thesis using dead_not_served assms(4) by blast
qed

definition wit_cfg :: cache_config where
  "wit_cfg = \<lparr>cc_prefix = ''a:'', cc_identityTtl = 60, cc_scopeTtl = 30, cc_capTtl = 60, cc_meterTtl = 10, cc_maxEntries = 2\<rparr>"

definition all_ok :: redis_calls where
  "all_ok = \<lparr>rc_version = Redis_ok, rc_get = Redis_ok, rc_set = Redis_ok, rc_del = Redis_ok\<rparr>"

definition all_fail :: redis_calls where
  "all_fail = \<lparr>rc_version = Redis_throws, rc_get = Redis_throws, rc_set = Redis_throws, rc_del = Redis_throws\<rparr>"

definition no_cache :: "nat admission_cache" where
  "no_cache = \<lparr>ac_redis = [], ac_memory = [], ac_log = []\<rparr>"

theorem revoked_not_served_witness:
  "(let c = set_cached wit_cfg all_ok 1 ''cap'' ''u'' 7 1 no_cache;
        r = revoke wit_cfg all_ok 2 ''cap'' ''u'' ''m'' c
    in fst (get_cached wit_cfg all_ok 2 ''cap'' ''u'' c) = Some 7 \<and>
       fst (get_cached wit_cfg all_fail 4 ''cap'' ''u'' (set_cached wit_cfg all_ok 3 ''cap'' ''v'' 8 1 r)) = None)"
proof -
  define c where "c = set_cached wit_cfg all_ok 1 ''cap'' ''u'' 7 1 no_cache"
  define r where "r = revoke wit_cfg all_ok 2 ''cap'' ''u'' ''m'' c"
  have "later_op wit_cfg (adm_cacheKey wit_cfg ''cap'' ''u'') r (set_cached wit_cfg all_ok 3 ''cap'' ''v'' 8 1 r)"
    by (rule Later_set) (simp add: adm_cacheKey_def)
  then have "(later_op wit_cfg (adm_cacheKey wit_cfg ''cap'' ''u''))\<^sup>*\<^sup>* (revoke wit_cfg all_ok 2 ''cap'' ''u'' ''m'' c)
      (set_cached wit_cfg all_ok 3 ''cap'' ''v'' 8 1 r)"
    unfolding r_def by blast
  then have "fst (get_cached wit_cfg all_fail 4 ''cap'' ''u'' (set_cached wit_cfg all_ok 3 ''cap'' ''v'' 8 1 r)) = None"
    by (rule revoked_not_served [rotated 2]) (simp_all add: all_ok_def)
  moreover have "fst (get_cached wit_cfg all_ok 2 ''cap'' ''u'' c) = Some 7" unfolding c_def by code_simp
  ultimately show ?thesis unfolding c_def r_def Let_def by blast
qed

section \<open>Set and get\<close>

text \<open>A value that Redis has taken is served until it expires, if Redis answers.\<close>

theorem set_then_get:
  assumes "rc_set rc = Redis_ok" "rc_get rc' = Redis_ok" "now' < now + getTtl cfg ns"
  shows "get_cached cfg rc' now' ns i (set_cached cfg rc now ns i v ver c) = (Some v, set_cached cfg rc now ns i v ver c)"
proof -
  have "getTtl cfg ns \<le> 1000 * ceil_seconds (getTtl cfg ns)" by (simp add: ceil_seconds_def)
  then have "redis_entry (adm_cacheKey cfg ns i) now' (set_cached cfg rc now ns i v ver c) =
      Some \<lparr>en_value = v, en_createdAt = now, en_expiresAt = now + getTtl cfg ns, en_version = ver, en_revoked = False, en_revokedAt = None\<rparr>"
    using assms by (simp add: redis_entry_def set_cached_redis)
  then show ?thesis using assms by (simp add: get_cached_def isEntryValid_def)
qed

section \<open>Values that are served after all\<close>

text \<open>
  A revocation that Redis does not execute is lost, whatever the memory says: the value is served as soon
  as Redis answers again.  A process that holds the value in its memory serves it after another process
  has revoked it and read the key once more, which deletes it from Redis.  A write that Redis does not
  execute leaves the former value to be served.
\<close>

theorem lost_revocation_is_served:
  "fst (get_cached wit_cfg all_ok 3 ''cap'' ''u''
     (revoke wit_cfg all_fail 2 ''cap'' ''u'' ''manual'' (set_cached wit_cfg all_ok 1 ''cap'' ''u'' 7 1 no_cache))) = Some 7"
  by code_simp

theorem revoked_elsewhere_is_served:
  "let c = set_cached wit_cfg all_ok 1 ''cap'' ''u'' 7 1 no_cache;
       other = snd (get_cached wit_cfg all_ok 3 ''cap'' ''u'' (revoke wit_cfg all_ok 2 ''cap'' ''u'' ''manual'' (c\<lparr>ac_memory := []\<rparr>)))
   in fst (get_cached wit_cfg all_ok 4 ''cap'' ''u'' (c\<lparr>ac_redis := ac_redis other\<rparr>)) = Some 7"
  by code_simp

theorem lost_write_serves_former:
  "fst (get_cached wit_cfg all_ok 3 ''cap'' ''u''
     (set_cached wit_cfg all_fail 2 ''cap'' ''u'' 8 1 (set_cached wit_cfg all_ok 1 ''cap'' ''u'' 7 1 no_cache))) = Some 7"
  by code_simp

text \<open>A revoked entry stays in Redis for as many seconds as the epoch is old.\<close>

theorem revoked_entry_outlives_value:
  assumes "redis_entry (adm_cacheKey cfg ns i) now c = Some e" "rc_get rc = Redis_ok" "rc_set rc = Redis_ok"
  shows "\<exists>e'. js_get (ac_redis (revoke cfg rc now ns i reason c)) (adm_cacheKey cfg ns i) = Some (e', now + 1000 * ceil_seconds (en_expiresAt e))"
  using assms by (auto simp: revoke_def Let_def redis_setEx_def redis_entry_def split: option.splits)

end
