(* ===== verification/AdmissionProps.thy ===== *)
theory AdmissionProps
  imports Admission AdmissionCacheProps
begin

text \<open>
  What admission decides from the outcomes of its steps, what the recorded latencies say, and what the
  code does instead of admitting.
\<close>

section \<open>The decision\<close>

text \<open>
  A request is admitted iff its identity is known and valid, its scopes have been read, and neither the
  cap nor the meter has refused; it is refused with the errors of every step that stands in the way, all
  of them fatal.  A cap or a meter that could not be read does not stand in the way.
\<close>

theorem evaluation_decides:
  "fst (evaluateAdmission i sc k m) \<longleftrightarrow>
     (\<exists>x. st_data i = Some x \<and> ir_valid x) \<and> st_data sc \<noteq> None \<and>
     (st_data k = None \<or> ck_withinCap (the (st_data k))) \<and> (st_data m = None \<or> 0 < mr_amountReserved (the (st_data m)))"
  "fst (evaluateAdmission i sc k m) \<longleftrightarrow> snd (evaluateAdmission i sc k m) = []"
  "list_all ae_fatal (snd (evaluateAdmission i sc k m))"
  by (auto simp: evaluateAdmission_def identity_errors_def scope_errors_def cap_errors_def meter_errors_def split: option.splits)

lemma step_never_yields:
  "step \<in> {''identityResolution'', ''scopeRead'', ''capCheck'', ''meterReserve''} \<Longrightarrow> st_data (fst (executeStep cfg step lat fn s)) = None"
  by (auto simp: executeStep_def getCachedResult_def cacheResult_def namespace_of_def cache_section_def split: prod.split sum.split)

lemma step_reason:
  "step \<in> {''identityResolution'', ''scopeRead'', ''capCheck'', ''meterReserve''} \<Longrightarrow> fst (fn s) = Inr d \<Longrightarrow>
   st_error (fst (executeStep cfg step lat fn s)) = Some ''Cannot read properties of undefined (reading 'enabled')''"
  by (cases "fn s") (auto simp: executeStep_def getCachedResult_def cacheResult_def namespace_of_def cache_section_def)

text \<open>
  No request is admitted.  The configuration of the caches is looked up under the name of the namespace,
  under which there is none, and the exception makes every step a failed one: the answer is that
  credentials are missing, whatever the request carries.
\<close>

theorem nobody_admitted:
  "\<not> ar_admitted (fst (admit cfg env rq s))"
  "ar_identity (fst (admit cfg env rq s)) = None"
  "denied_error (ar_errors (fst (admit cfg env rq s))) \<noteq> None"
  "Option.bind (denied_error (ar_errors (fst (admit cfg env rq s)))) ae_code = Some GATEWAY_KEY_MISSING"
proof -
  obtain i s1 where i: "executeStep cfg ''identityResolution'' (sl_identity (en_latencies env)) (resolveIdentity cfg env rq) s = (i, s1)" by fastforce
  have n: "st_data i = None" using step_never_yields [of "''identityResolution''" cfg _ "resolveIdentity cfg env rq" s] i by (metis fst_conv insertI1)
  obtain sc s2 where sc: "executeStep cfg ''scopeRead'' (sl_scope (en_latencies env)) (readScope cfg env rq) s1 = (sc, s2)" by fastforce
  obtain k s3 where k: "executeStep cfg ''capCheck'' (sl_cap (en_latencies env)) (read_cap cfg env (st_data i)) s2 = (k, s3)" by fastforce
  obtain m s4 where m: "executeStep cfg ''meterReserve'' (sl_meter (en_latencies env)) (reserveMeter cfg env (st_data i) (st_data sc)) s3 = (m, s4)"
    by fastforce
  define rest where "rest = scope_errors sc @ cap_errors k @ meter_errors m"
  have e: "evaluateAdmission i sc k m =
      (False, \<lparr>ae_step = ''identityResolution'', ae_message = or_text (st_error i) ''Identity resolution failed'',
        ae_latencyMs = st_latencyMs i, ae_fatal = True, ae_code = Some GATEWAY_KEY_MISSING\<rparr> # rest)"
    using n by (simp add: evaluateAdmission_def identity_errors_def rest_def)
  show "\<not> ar_admitted (fst (admit cfg env rq s))" "ar_identity (fst (admit cfg env rq s)) = None"
    "denied_error (ar_errors (fst (admit cfg env rq s))) \<noteq> None"
    "Option.bind (denied_error (ar_errors (fst (admit cfg env rq s)))) ae_code = Some GATEWAY_KEY_MISSING"
    by (simp_all add: admit_def Let_def i sc k [unfolded n] m [unfolded n] e n denied_error_def)
qed

text \<open>With the budget switched off, on the other hand, every request passes without a check.\<close>

theorem enforcement_guards_all:
  "cf_enforcement cfg \<Longrightarrow> \<exists>d s'. admission_middleware cfg env rq s = (Admission_denied d, s') \<and> dn_status d = 401"
  "\<not> cf_enforcement cfg \<Longrightarrow> admission_middleware cfg env rq s = (Admission_next None, s)"
  using nobody_admitted [of cfg env rq s]
  by (auto simp: admission_middleware_def denial_of_def Let_def split: prod.split)

section \<open>The percentile\<close>

lemma sorted_prefix_count:
  fixes xs :: "int list"
  assumes "sorted xs" "n < length xs"
  shows "n < length (filter (\<lambda>x. x \<le> xs ! n) xs)"
proof -
  have "\<forall>x\<in>set (take (n + 1) xs). x \<le> xs ! n"
    using sorted_nth_mono [OF assms(1) _ assms(2)] by (auto simp: in_set_conv_nth less_Suc_eq_le)
  then have "filter (\<lambda>x. x \<le> xs ! n) (take (n + 1) xs) = take (n + 1) xs" by (simp add: filter_id_conv)
  moreover have "length (filter (\<lambda>x. x \<le> xs ! n) (take (n + 1) xs)) \<le> length (filter (\<lambda>x. x \<le> xs ! n) xs)"
    by (metis append_take_drop_id filter_append length_append le_add1)
  ultimately show ?thesis using assms by simp
qed

lemma length_filter_mono: "(\<And>x. x \<in> set xs \<Longrightarrow> P x \<Longrightarrow> Q x) \<Longrightarrow> length (filter P xs) \<le> length (filter Q xs)"
  by (induction xs) (auto simp: le_SucI)

lemma count_sort: "length (filter P (sort xs)) = length (filter P xs)"
  by (metis mset_filter mset_sort size_mset)

text \<open>More than 99 of a hundred recorded latencies are at most the percentile that is reported.\<close>

theorem p99_covers:
  assumes "cf_minSamples cfg \<le> length (as_latencies s)" "as_latencies s \<noteq> []"
  shows "99 * length (as_latencies s) div 100 < length (filter (\<lambda>r. lr_total r \<le> getP99Latency cfg s) (as_latencies s))"
proof -
  define xs where "xs = sort (map lr_total (as_latencies s))"
  have n: "length xs = length (as_latencies s)" and s: "sorted xs" by (simp_all add: xs_def)
  let ?i = "length xs * 99 div 100"
  have i: "?i < length xs" using n assms(2) by (cases "length xs") auto
  have last: "last xs = xs ! (length xs - 1)" using i by (intro last_conv_nth) auto
  have p: "getP99Latency cfg s = (if xs ! ?i \<noteq> 0 then xs ! ?i else last xs)"
    using assms by (simp add: getP99Latency_def xs_def Let_def)
  have le: "xs ! ?i \<le> getP99Latency cfg s"
    using p last sorted_nth_mono [OF s, of ?i "length xs - 1"] i by auto
  have "?i < length (filter (\<lambda>x. x \<le> xs ! ?i) xs)" by (rule sorted_prefix_count [OF s i])
  also have "\<dots> \<le> length (filter (\<lambda>x. x \<le> getP99Latency cfg s) xs)"
    using le by (intro length_filter_mono) auto
  also have "\<dots> = length (filter (\<lambda>r. lr_total r \<le> getP99Latency cfg s) (as_latencies s))"
    by (simp add: xs_def count_sort filter_map comp_def)
  finally show ?thesis by (simp add: n mult.commute)
qed

section \<open>Reserves and identities\<close>

text \<open>A reserve is never more than the balance read, nor than 100.\<close>

theorem reserve_within_balance:
  assumes "as_reserves (snd (reserveMeter cfg env identity scope s)) = as_reserves s @ [r]"
  shows "vw_amount r \<le> 100 \<and> (\<exists>i. identity = Some i \<and> ir_valid i \<and> vw_userId r = ir_userId i \<and>
     vw_amount r \<le> or_zero (Option.bind (single_row (en_meterFails env) (filter (\<lambda>w. mw_userId w = ir_userId i) (as_meters s))) mw_balance))"
proof -
  have t: "as_meters (snd (cached_value cfg env ns key s)) = as_meters s \<and> as_reserves (snd (cached_value cfg env ns key s)) = as_reserves s" for ns key
    by (simp add: cached_value_def split: prod.split)
  have c: "as_reserves (cache_value cfg env ns key v ver s') = as_reserves s'" for ns key v ver s' by (simp add: cache_value_def)
  obtain i where i: "identity = Some i" "ir_valid i"
    using assms by (cases identity) (auto simp: reserveMeter_def Let_def split: if_splits)
  obtain v s1 where v: "cached_value cfg env ''meter'' (ir_userId i) s = (v, s1)" by fastforce
  have s1: "as_meters s1 = as_meters s" "as_reserves s1 = as_reserves s" using t [of "''meter''" "ir_userId i"] v by auto
  have "\<not> (\<exists>m. v = Some (Cached_meter m))" using assms i v s1 by (auto simp: reserveMeter_def Let_def)
  then have "r = \<lparr>vw_userId = ir_userId i, vw_amount = min (or_zero (Option.bind (single_row (en_meterFails env)
       (filter (\<lambda>w. mw_userId w = ir_userId i) (as_meters s))) mw_balance)) (if map_option sr_tier scope = Some ''enterprise'' then 100 else 10),
      vw_reserveId = reserve_id (en_now env) (ir_userId i), vw_expiresAt = en_now env + 60000\<rparr>"
    using assms i v s1 by (auto simp: reserveMeter_def Let_def c split: option.splits admission_value.splits if_splits)
  then show ?thesis using i by (auto simp: min_le_iff_disj)
qed

text \<open>
  A valid identity is remembered for its user without the signature that proved it: a request without one
  resolves to it.  An invalid one is remembered as well, and refuses the signed request that follows.
\<close>

definition wit_admission :: admission_config where
  "wit_admission = \<lparr>cf_totalBudgetMs = 50, cf_enforcement = True, cf_p99WindowMs = 300, cf_minSamples = 1,
     cf_identityEnabled = True, cf_scopeEnabled = True, cf_capEnabled = True, cf_meterEnabled = True, cf_cache = wit_cfg\<rparr>"

definition wit_env :: "millis \<Rightarrow> admission_env" where
  "wit_env now = \<lparr>en_redis = \<lambda>_. all_ok, en_now = now, en_scopeError = None, en_registryFails = False, en_meterFails = False,
     en_insertFails = False, en_latencies = \<lparr>sl_identity = 1, sl_scope = 1, sl_cap = 1, sl_meter = 1\<rparr>, en_totalLatency = 2\<rparr>"

definition signed_request :: admission_request where
  "signed_request = \<lparr>rq_userId = Some ''u'', rq_address = None, rq_signature = Some ''s'', rq_nonce = Some ''n''\<rparr>"

definition unsigned_request :: admission_request where
  "unsigned_request = signed_request\<lparr>rq_signature := None, rq_nonce := None\<rparr>"

definition wit_state :: admission_state where
  "wit_state = \<lparr>as_cache = \<lparr>ac_redis = [], ac_memory = [], ac_log = []\<rparr>, as_scopes = [],
     as_registries = [\<lparr>rw_userId = ''u'', rw_capCeiling = Some 5, rw_currentUsage = Some 1\<rparr>],
     as_meters = [\<lparr>mw_userId = ''u'', mw_balance = Some 10\<rparr>], as_reserves = [], as_latencies = [], as_violations = []\<rparr>"

definition resolved_valid :: "(string + identity_resolution) \<times> admission_state \<Rightarrow> bool option" where
  "resolved_valid r = (case fst r of Inl _ \<Rightarrow> None | Inr i \<Rightarrow> Some (ir_valid i))"

theorem identity_outlives_signature:
  "resolved_valid (resolveIdentity wit_admission (wit_env 2) unsigned_request
     (snd (resolveIdentity wit_admission (wit_env 1) signed_request wit_state))) = Some True"
  "resolved_valid (resolveIdentity wit_admission (wit_env 2) signed_request
     (snd (resolveIdentity wit_admission (wit_env 1) unsigned_request wit_state))) = Some False"
  by code_simp+

text \<open>
  Reserving does not lower the balance: once the cached reserve has expired, the same balance is reserved
  again.
\<close>

definition wit_identity :: identity_resolution where
  "wit_identity = \<lparr>ir_userId = ''u'', ir_address = ''u'', ir_signature = ''s'', ir_nonce = ''n'', ir_valid = True, ir_resolvedAt = 1\<rparr>"

theorem balance_reserved_twice:
  "map vw_amount (as_reserves (snd (reserveMeter wit_admission (wit_env 20) (Some wit_identity) None
     (snd (reserveMeter wit_admission (wit_env 1) (Some wit_identity) None wit_state))))) = [10, 10]"
  by code_simp

end
