(* ===== verification/UnitEconomics.thy ===== *)
theory UnitEconomics
  imports Prelude
begin

text \<open>
  What a settled call costs and earns (\<open>backend/src/services/v3/unit-economics-service.ts\<close>): records of
  channels, the alert when a call costs more than it earns, and the batching policy derived from the
  records of a provider.  The reason of an alert is its two amounts; a margin that is no number is
  \<open>None\<close>.
\<close>

record cost_record =
  cr_channelId :: ident
  cr_providerId :: ident
  cr_channelSize :: amount
  cr_chainFee :: amount
  cr_infrastructure :: amount
  cr_payoutRate :: amount
  cr_settledCalls :: int
  cr_revenue :: amount

record economics_summary =
  es_channelId :: ident
  es_providerId :: ident
  es_channelSize :: amount
  es_settledCalls :: int
  es_totalCost :: amount
  es_amortizedFee :: amount
  es_infrastructure :: amount
  es_payout :: amount
  es_revenue :: amount
  es_netMargin :: amount
  es_negative :: bool

record policy_recommendation =
  pr_providerId :: ident
  pr_avgChainFee :: amount
  pr_minChannelSize :: amount
  pr_batchThreshold :: int
  pr_targetCost :: amount
  pr_marginPercent :: "amount option"

record economics_alert =
  ea_channelId :: ident
  ea_providerId :: ident
  ea_revenue :: amount
  ea_cost :: amount
  ea_timestamp :: millis

record unit_economics =
  ue_channels :: "(ident, cost_record) jsmap"
  ue_alerts :: "economics_alert list"

definition economics_of :: "cost_record \<Rightarrow> economics_summary" where
  "economics_of r =
     (let calls = of_int (max 1 (cr_settledCalls r));
          fee = cr_chainFee r / calls;
          cost = fee + cr_infrastructure r + cr_payoutRate r;
          revenue = (if 0 < cr_revenue r then cr_revenue r / calls else 0);
          net = revenue - cost
      in \<lparr>es_channelId = cr_channelId r, es_providerId = cr_providerId r, es_channelSize = cr_channelSize r,
          es_settledCalls = cr_settledCalls r, es_totalCost = cost, es_amortizedFee = fee, es_infrastructure = cr_infrastructure r,
          es_payout = cr_payoutRate r, es_revenue = revenue, es_netMargin = net, es_negative = (0 < revenue \<and> net < 0)\<rparr>)"

definition evaluateChannelEconomics :: "millis \<Rightarrow> ident \<Rightarrow> unit_economics \<Rightarrow> economics_summary option \<times> unit_economics" where
  "evaluateChannelEconomics now channelId u =
     (case js_get (ue_channels u) channelId of
        None \<Rightarrow> (None, u)
      | Some r \<Rightarrow>
          (let e = (economics_of r)\<lparr>es_channelId := channelId\<rparr>
           in (Some e,
               if es_negative e
               then u\<lparr>ue_alerts := ue_alerts u @ [\<lparr>ea_channelId = channelId, ea_providerId = cr_providerId r, ea_revenue = es_revenue e,
                      ea_cost = es_totalCost e, ea_timestamp = now\<rparr>]\<rparr>
               else u)))"

definition recordChannel :: "millis \<Rightarrow> cost_record \<Rightarrow> unit_economics \<Rightarrow> unit_economics" where
  "recordChannel now r u =
     snd (evaluateChannelEconomics now (cr_channelId r) (u\<lparr>ue_channels := js_set (cr_channelId r) r (ue_channels u)\<rparr>))"

definition recordSettledBatch ::
    "millis \<Rightarrow> ident \<Rightarrow> int \<Rightarrow> amount \<Rightarrow> amount \<Rightarrow> unit_economics \<Rightarrow> economics_summary option \<times> unit_economics" where
  "recordSettledBatch now channelId calls fee revenue u =
     (case js_get (ue_channels u) channelId of
        None \<Rightarrow> (None, u)
      | Some r \<Rightarrow>
          (let r' = r\<lparr>cr_settledCalls := cr_settledCalls r + calls, cr_chainFee := fee, cr_revenue := cr_revenue r + revenue\<rparr>
           in evaluateChannelEconomics now channelId (u\<lparr>ue_channels := js_set channelId r' (ue_channels u)\<rparr>)))"

definition average_of :: "('r \<Rightarrow> amount) \<Rightarrow> amount \<Rightarrow> 'r list \<Rightarrow> amount" where
  "average_of f d rs = (if rs = [] then d else foldl (\<lambda>sum r. sum + f r) 0 rs / of_nat (length rs))"

definition deriveBatchingPolicy :: "ident \<Rightarrow> amount \<Rightarrow> unit_economics \<Rightarrow> policy_recommendation" where
  "deriveBatchingPolicy providerId price u =
     (let rs = filter (\<lambda>r. cr_providerId r = providerId) (js_values (ue_channels u));
          fee = average_of cr_chainFee 100 rs;
          infra = average_of cr_infrastructure 1 rs;
          payout = average_of cr_payoutRate 5 rs;
          allowed = max 1 (price * (1 / 5));
          threshold = \<lceil>fee / allowed\<rceil>;
          minSize = max 100 (of_int threshold * (if price = 0 then 10 else price) * 2)
      in \<lparr>pr_providerId = providerId, pr_avgChainFee = fee, pr_minChannelSize = minSize, pr_batchThreshold = threshold, pr_targetCost = price,
          pr_marginPercent =
            (if 0 < price
             then (if threshold = 0 then None else Some ((price - (fee / of_int threshold + infra + payout)) / price * 100))
             else Some 0)\<rparr>)"

definition clear_economics :: "unit_economics \<Rightarrow> unit_economics" where
  "clear_economics u = \<lparr>ue_channels = [], ue_alerts = []\<rparr>"

section \<open>The policy\<close>

text \<open>
  The recommended number of calls is the smallest that keeps the fee of a batch within the allowed fee
  per call: a fifth of the price, or one unit when that is less.  Two such batches at the price fit into
  a channel of the recommended size.
\<close>

theorem batch_threshold_least:
  assumes "pr = deriveBatchingPolicy p price u" and "n > 0"
  shows "pr_avgChainFee pr / of_int n \<le> max 1 (price / 5) \<longleftrightarrow> pr_batchThreshold pr \<le> n"
    and "of_int (pr_batchThreshold pr) * price * 2 \<le> max 100 (pr_minChannelSize pr)"
proof -
  define a where "a = max 1 (price / 5)"
  have a: "0 < a" by (simp add: a_def)
  have t: "pr_batchThreshold pr = \<lceil>pr_avgChainFee pr / a\<rceil>"
    by (simp add: assms(1) deriveBatchingPolicy_def Let_def a_def)
  have "pr_avgChainFee pr / of_int n \<le> a \<longleftrightarrow> pr_avgChainFee pr / a \<le> of_int n"
    using a assms(2) by (simp add: field_simps)
  then show "pr_avgChainFee pr / of_int n \<le> max 1 (price / 5) \<longleftrightarrow> pr_batchThreshold pr \<le> n"
    using t by (simp add: a_def ceiling_le_iff)
  show "of_int (pr_batchThreshold pr) * price * 2 \<le> max 100 (pr_minChannelSize pr)"
    by (auto simp: assms(1) deriveBatchingPolicy_def Let_def le_max_iff_disj)
qed

section \<open>The cost of a call\<close>

text \<open>An alert is raised exactly when a call that earns anything costs more than it earns.\<close>

theorem alert_iff_loss:
  assumes "js_get (ue_channels u) c = Some r"
  shows "ue_alerts (snd (evaluateChannelEconomics now c u)) \<noteq> ue_alerts u \<longleftrightarrow>
     0 < cr_revenue r \<and>
     cr_revenue r < cr_chainFee r + of_int (max 1 (cr_settledCalls r)) * (cr_infrastructure r + cr_payoutRate r)"
proof -
  define n where "n = (of_int (max 1 (cr_settledCalls r)) :: rat)"
  have n: "0 < n" by (simp add: n_def)
  have "es_negative (economics_of r) \<longleftrightarrow> 0 < cr_revenue r \<and> cr_revenue r / n < cr_chainFee r / n + cr_infrastructure r + cr_payoutRate r"
    using n unfolding economics_of_def Let_def n_def [symmetric] by auto
  also have "\<dots> \<longleftrightarrow> 0 < cr_revenue r \<and> cr_revenue r < cr_chainFee r + n * (cr_infrastructure r + cr_payoutRate r)"
    using n by (simp add: field_simps)
  finally show ?thesis using assms by (auto simp: evaluateChannelEconomics_def Let_def n_def)
qed

text \<open>
  The fee of the last batch is divided by the calls of all batches: four batches of one call each at a fee of
  100 are reported at a fee of 25 per call, and the channel, which loses on every call, raises no further
  alert from the third batch on.
\<close>

definition settle_batches :: "nat \<Rightarrow> unit_economics \<Rightarrow> unit_economics" where
  "settle_batches n u = ((\<lambda>u. snd (recordSettledBatch 1 ''c'' 1 100 50 u)) ^^ n) u"

definition wit_economics :: unit_economics where
  "wit_economics = \<lparr>ue_channels = [(''c'', \<lparr>cr_channelId = ''c'', cr_providerId = ''p'', cr_channelSize = 1000, cr_chainFee = 0,
     cr_infrastructure = 1, cr_payoutRate = 5, cr_settledCalls = 0, cr_revenue = 0\<rparr>)], ue_alerts = []\<rparr>"

theorem fees_of_batches_lost:
  "map_option es_amortizedFee (fst (evaluateChannelEconomics 1 ''c'' (settle_batches 4 wit_economics))) = Some 25"
  "map ea_cost (ue_alerts (settle_batches 4 wit_economics)) = [106, 56]"
  by (simp_all add: settle_batches_def eval_nat_numeral recordSettledBatch_def evaluateChannelEconomics_def economics_of_def Let_def
      wit_economics_def js_get_def js_set_def)

end
