(* ===== verification/Webhooks.thy ===== *)
theory Webhooks
  imports Ssrf JsonText
begin

text \<open>
  Outbound webhooks (\<open>backend/src/services/webhook-service.ts\<close>, \<open>webhook-dead-letter-service.ts\<close>): the webhooks
  of users, a delivery for every event and webhook, its attempts, and the replay of deliveries that were
  given up.  The tables are maps by id with \<open>ids\<close> chosen by the database; the requests that leave the
  server and the security events are logs in the state.  The outcome of the check of the URL, of the
  request and of the statements of the database are arguments of an attempt.
\<close>

section \<open>Tables\<close>

record webhook =
  wh_userId :: ident
  wh_url :: string
  wh_secret :: string
  wh_events :: "string list"
  wh_enabled :: bool
  wh_failureCount :: int
  wh_createdAt :: millis
  wh_updatedAt :: millis

datatype delivery_status = Delivery_pending | Delivery_success | Delivery_failed | Delivery_retrying

record webhook_delivery =
  wd_webhookId :: ident
  wd_eventType :: string
  wd_payload :: json
  wd_status :: delivery_status
  wd_responseCode :: "int option"
  wd_responseBody :: "string option"
  wd_retryCount :: int
  wd_scheduledAt :: millis
  wd_deliveredAt :: "millis option"
  wd_isDeadLetter :: bool
  wd_deadLetterAt :: "millis option"
  wd_deadLetterReason :: "string option"
  wd_lastError :: "string option"
  wd_createdAt :: millis
  wd_updatedAt :: millis

datatype replay_status = Replay_pending | Replay_processing | Replay_success | Replay_failed

record dead_letter_replay =
  dr_deliveryId :: ident
  dr_key :: string
  dr_by :: ident
  dr_status :: replay_status
  dr_responseCode :: "int option"
  dr_responseBody :: "string option"
  dr_error :: "string option"
  dr_attemptedAt :: millis
  dr_completedAt :: "millis option"

record webhook_request =
  wr_url :: string
  wr_body :: string
  wr_signature :: string
  wr_replay :: "ident option"

record webhook_tables =
  wt_webhooks :: "(ident, webhook) jsmap"
  wt_deliveries :: "(ident, webhook_delivery) jsmap"
  wt_replays :: "(ident, dead_letter_replay) jsmap"
  wt_sent :: "webhook_request list"
  wt_security :: "(string \<times> ident) list"

text \<open>\<open>hmac\<close> is \<open>crypto.createHmac('sha256', secret)\<close>, in hexadecimal; numbers are printed by \<open>we_number\<close>.\<close>

record webhook_env =
  we_hmac :: "string \<Rightarrow> string \<Rightarrow> string"
  we_number :: "amount \<Rightarrow> string"

definition put_webhook :: "ident \<Rightarrow> (webhook \<Rightarrow> webhook) \<Rightarrow> webhook_tables \<Rightarrow> webhook_tables" where
  "put_webhook i f t = (case js_get (wt_webhooks t) i of None \<Rightarrow> t | Some w \<Rightarrow> t\<lparr>wt_webhooks := js_set i (f w) (wt_webhooks t)\<rparr>)"

definition put_delivery :: "ident \<Rightarrow> (webhook_delivery \<Rightarrow> webhook_delivery) \<Rightarrow> webhook_tables \<Rightarrow> webhook_tables" where
  "put_delivery i f t =
     (case js_get (wt_deliveries t) i of None \<Rightarrow> t | Some d \<Rightarrow> t\<lparr>wt_deliveries := js_set i (f d) (wt_deliveries t)\<rparr>)"

definition put_replay :: "ident \<Rightarrow> (dead_letter_replay \<Rightarrow> dead_letter_replay) \<Rightarrow> webhook_tables \<Rightarrow> webhook_tables" where
  "put_replay i f t = (case js_get (wt_replays t) i of None \<Rightarrow> t | Some r \<Rightarrow> t\<lparr>wt_replays := js_set i (f r) (wt_replays t)\<rparr>)"

definition own_webhook :: "ident \<Rightarrow> ident \<Rightarrow> webhook_tables \<Rightarrow> webhook option" where
  "own_webhook userId i t =
     (case js_get (wt_webhooks t) i of Some w \<Rightarrow> if wh_userId w = userId then Some w else None | None \<Rightarrow> None)"

definition security_event :: "string \<Rightarrow> ident \<Rightarrow> webhook_tables \<Rightarrow> webhook_tables" where
  "security_event name i t = t\<lparr>wt_security := wt_security t @ [(name, i)]\<rparr>"

text \<open>The most recent first; rows of the same time in the order of the table.\<close>

definition most_recent :: "('r \<Rightarrow> millis) \<Rightarrow> (ident \<times> 'r) list \<Rightarrow> (ident \<times> 'r) list" where
  "most_recent f rs = sort_key (\<lambda>(_, r). - f r) rs"

section \<open>The webhooks of a user\<close>

definition registerWebhook ::
    "string option \<Rightarrow> millis \<Rightarrow> ident \<Rightarrow> string \<Rightarrow> ident \<Rightarrow> string \<Rightarrow> string list \<Rightarrow> webhook_tables \<Rightarrow> (string + webhook) \<times> webhook_tables" where
  "registerWebhook dbError now new random userId url events t =
     (case dbError of
        Some e \<Rightarrow> (Inl (''Failed to register webhook: '' @ e), t)
      | None \<Rightarrow>
          (let w = \<lparr>wh_userId = userId, wh_url = url, wh_secret = ''whsec_'' @ random, wh_events = events, wh_enabled = True,
                    wh_failureCount = 0, wh_createdAt = now, wh_updatedAt = now\<rparr>
           in (Inr w, t\<lparr>wt_webhooks := js_set new w (wt_webhooks t)\<rparr>)))"

record webhook_update =
  wu_url :: "string option"
  wu_events :: "string list option"
  wu_enabled :: "bool option"

definition given :: "'a option \<Rightarrow> 'a \<Rightarrow> 'a" where
  "given x old = (case x of None \<Rightarrow> old | Some v \<Rightarrow> v)"

text \<open>\<open>single()\<close> answers an error when no row has been updated.\<close>

definition no_row :: string where
  "no_row = ''JSON object requested, multiple (or no) rows returned''"

definition updateWebhook ::
    "string option \<Rightarrow> millis \<Rightarrow> ident \<Rightarrow> ident \<Rightarrow> webhook_update \<Rightarrow> webhook_tables \<Rightarrow> (string + webhook) \<times> webhook_tables" where
  "updateWebhook dbError now userId webhookId input t =
     (case dbError of
        Some e \<Rightarrow> (Inl (''Failed to update webhook: '' @ e), t)
      | None \<Rightarrow>
          (case own_webhook userId webhookId t of
             None \<Rightarrow> (Inl (''Failed to update webhook: '' @ no_row), t)
           | Some w \<Rightarrow>
               (let w' = w\<lparr>wh_url := given (wu_url input) (wh_url w), wh_events := given (wu_events input) (wh_events w),
                           wh_enabled := given (wu_enabled input) (wh_enabled w), wh_updatedAt := now\<rparr>
                in (Inr w', t\<lparr>wt_webhooks := js_set webhookId w' (wt_webhooks t)\<rparr>))))"

definition listWebhooks :: "string option \<Rightarrow> ident \<Rightarrow> webhook_tables \<Rightarrow> string + (ident \<times> webhook) list" where
  "listWebhooks dbError userId t =
     (case dbError of
        Some e \<Rightarrow> Inl (''Failed to list webhooks: '' @ e)
      | None \<Rightarrow> Inr (most_recent wh_createdAt (filter (\<lambda>(_, w). wh_userId w = userId) (wt_webhooks t))))"

text \<open>Deleting what is not there is no error.\<close>

definition deleteWebhook :: "string option \<Rightarrow> ident \<Rightarrow> ident \<Rightarrow> webhook_tables \<Rightarrow> (string + unit) \<times> webhook_tables" where
  "deleteWebhook dbError userId webhookId t =
     (case dbError of
        Some e \<Rightarrow> (Inl (''Failed to delete webhook: '' @ e), t)
      | None \<Rightarrow>
          (Inr (), case own_webhook userId webhookId t of
                     None \<Rightarrow> t
                   | Some _ \<Rightarrow>
                       (let ds = filter (\<lambda>(_, d). wd_webhookId d \<noteq> webhookId) (wt_deliveries t)
                        in t\<lparr>wt_webhooks := js_delete webhookId (wt_webhooks t), wt_deliveries := ds,
                             wt_replays := filter (\<lambda>(_, r). dr_deliveryId r \<in> set (js_keys ds)) (wt_replays t)\<rparr>)))"

section \<open>Events\<close>

text \<open>The row of a delivery, and the event it carries.\<close>

definition event_payload :: "string \<Rightarrow> string \<Rightarrow> millis \<Rightarrow> json \<Rightarrow> string option \<Rightarrow> json" where
  "event_payload eventId eventType now data correlationId =
     JObj ([(''id'', JStr eventId), (''type'', JStr eventType), (''created'', JNum (of_int (now div 1000))), (''data'', data)] @
       (case correlationId of None \<Rightarrow> [] | Some c \<Rightarrow> [(''correlationId'', JStr c)]))"

definition insert_delivery :: "millis \<Rightarrow> ident \<Rightarrow> ident \<Rightarrow> string \<Rightarrow> json \<Rightarrow> webhook_tables \<Rightarrow> webhook_tables" where
  "insert_delivery now new webhookId eventType payload t =
     t\<lparr>wt_deliveries := js_set new
        \<lparr>wd_webhookId = webhookId, wd_eventType = eventType, wd_payload = payload, wd_status = Delivery_pending, wd_responseCode = None,
         wd_responseBody = None, wd_retryCount = 0, wd_scheduledAt = now, wd_deliveredAt = None, wd_isDeadLetter = False,
         wd_deadLetterAt = None, wd_deadLetterReason = None, wd_lastError = None, wd_createdAt = now, wd_updatedAt = now\<rparr> (wt_deliveries t)\<rparr>"

text \<open>The webhooks of the user that are enabled and subscribe to the event.\<close>

definition subscribed :: "ident \<Rightarrow> string \<Rightarrow> webhook_tables \<Rightarrow> ident list" where
  "subscribed userId eventType t =
     map fst (filter (\<lambda>(_, w). wh_userId w = userId \<and> wh_enabled w \<and> eventType \<in> set (wh_events w)) (wt_webhooks t))"

text \<open>
  A delivery for each, until an insert fails.  The ids are those of the deliveries created, whose first
  attempts are started and not awaited.
\<close>

fun create_deliveries ::
    "(ident \<Rightarrow> string option) \<Rightarrow> millis \<Rightarrow> (ident \<Rightarrow> ident) \<Rightarrow> string \<Rightarrow> json \<Rightarrow> ident list \<Rightarrow> webhook_tables \<Rightarrow> ident list \<times> webhook_tables" where
  "create_deliveries insertError now new eventType payload [] t = ([], t)"
| "create_deliveries insertError now new eventType payload (w # ws) t =
     (if insertError w \<noteq> None then ([], t)
      else
        (let (started, t') = create_deliveries insertError now new eventType payload ws (insert_delivery now (new w) w eventType payload t)
         in (new w # started, t')))"

definition dispatchEvent ::
    "string option \<Rightarrow> (ident \<Rightarrow> string option) \<Rightarrow> millis \<Rightarrow> (ident \<Rightarrow> ident) \<Rightarrow> string \<Rightarrow> string option \<Rightarrow> ident \<Rightarrow> string \<Rightarrow> json \<Rightarrow>
     webhook_tables \<Rightarrow> ident list \<times> webhook_tables" where
  "dispatchEvent selectError insertError now new random correlationId userId eventType data t =
     (if selectError \<noteq> None then ([], t)
      else create_deliveries insertError now new eventType (event_payload (''evt_'' @ random) eventType now data correlationId)
             (subscribed userId eventType t) t)"

section \<open>An attempt\<close>

text \<open>
  The check lets the URL pass, refuses it, or the names it uses are not bound: then both the call and the
  handler of its exception raise a \<open>ReferenceError\<close>.
\<close>

datatype url_check = Check_passes | Check_blocks string | Check_unbound

datatype post_result = Post_answers json | Post_throws string

record attempt =
  at_now :: millis
  at_post :: post_result
  at_updateError :: "string option"

definition updateDeliverySuccess :: "attempt \<Rightarrow> ident \<Rightarrow> int \<Rightarrow> string \<Rightarrow> webhook_tables \<Rightarrow> (string + webhook_delivery) \<times> webhook_tables" where
  "updateDeliverySuccess a deliveryId rcode body t =
     (case at_updateError a of
        Some e \<Rightarrow> (Inl e, t)
      | None \<Rightarrow>
          (let t1 = put_delivery deliveryId (\<lambda>d. d\<lparr>wd_status := Delivery_success, wd_responseCode := Some rcode, wd_responseBody := Some body,
                      wd_deliveredAt := Some (at_now a), wd_updatedAt := at_now a\<rparr>) t
           in case js_get (wt_deliveries t1) deliveryId of
                None \<Rightarrow> (Inl no_row, t1)
              | Some d \<Rightarrow> (Inr d, put_webhook (wd_webhookId d) (\<lambda>w. w\<lparr>wh_failureCount := 0\<rparr>) t1)))"

text \<open>A comparison with \<open>undefined\<close> is false.\<close>

definition exceeds :: "int \<Rightarrow> int option \<Rightarrow> bool" where
  "exceeds n m = (case m of None \<Rightarrow> False | Some k \<Rightarrow> k < n)"

definition not_beyond :: "int \<Rightarrow> int option \<Rightarrow> bool" where
  "not_beyond n m = (case m of None \<Rightarrow> False | Some k \<Rightarrow> n \<le> k)"

definition retry_delay :: "int \<Rightarrow> int" where
  "retry_delay retryCount =
     (let delays = [30, 300, 1800, 7200, 21600]; k = nat (retryCount - 1)
      in if 1 \<le> retryCount \<and> k < length delays then delays ! k else 21600)"

definition error_text :: "string \<Rightarrow> int \<Rightarrow> string" where
  "error_text body rcode = (if body \<noteq> [] then body else ''HTTP '' @ (if rcode \<noteq> 0 then show_int rcode else ''network error''))"

definition show_limit :: "int option \<Rightarrow> string" where
  "show_limit m = (case m of None \<Rightarrow> ''undefined'' | Some k \<Rightarrow> show_int k)"

definition moveToDeadLetter_webhook :: "millis \<Rightarrow> ident \<Rightarrow> string \<Rightarrow> string \<Rightarrow> webhook_tables \<Rightarrow> webhook_tables" where
  "moveToDeadLetter_webhook now deliveryId reason message t =
     put_delivery deliveryId (\<lambda>d. d\<lparr>wd_isDeadLetter := True, wd_deadLetterAt := Some now, wd_deadLetterReason := Some reason,
       wd_lastError := Some message, wd_status := Delivery_failed, wd_updatedAt := now\<rparr>) t"

definition DISABLE_THRESHOLD :: int where
  "DISABLE_THRESHOLD = 10"

text \<open>The failures of the webhook, which is disabled at the threshold.\<close>

definition count_failure :: "ident \<Rightarrow> webhook_tables \<Rightarrow> webhook_tables" where
  "count_failure webhookId t =
     (let n = (case js_get (wt_webhooks t) webhookId of None \<Rightarrow> 0 | Some w \<Rightarrow> wh_failureCount w) + 1;
          enabled = (n < DISABLE_THRESHOLD);
          t1 = put_webhook webhookId (\<lambda>w. w\<lparr>wh_failureCount := n, wh_enabled := enabled\<rparr>) t
      in if \<not> enabled then security_event ''webhook.auto_disabled'' webhookId t1
         else if DISABLE_THRESHOLD \<le> 2 * n then security_event ''webhook.anomalous_failure_rate'' webhookId t1
         else t1)"

text \<open>The handler of a failure, for a limit of retries.\<close>

definition delivery_failed ::
    "int option \<Rightarrow> attempt \<Rightarrow> ident \<Rightarrow> ident \<Rightarrow> int \<Rightarrow> string \<Rightarrow> webhook_tables \<Rightarrow> (string + webhook_delivery) \<times> webhook_tables" where
  "delivery_failed limit a deliveryId webhookId rcode body t =
     (let n = (case js_get (wt_deliveries t) deliveryId of None \<Rightarrow> 0 | Some d \<Rightarrow> wd_retryCount d) + 1;
          now = at_now a
      in case at_updateError a of
           Some e \<Rightarrow> (Inl e, t)
         | None \<Rightarrow>
             (let t1 = (if exceeds n limit
                        then security_event ''webhook.dead_letter_exhausted'' webhookId
                          (moveToDeadLetter_webhook now deliveryId (''Exhausted '' @ show_limit limit @ '' retries'') (error_text body rcode) t)
                        else t);
                  retry = (\<not> exceeds n limit \<and> not_beyond n limit);
                  t2 = put_delivery deliveryId (\<lambda>d. d\<lparr>wd_status := (if retry then Delivery_retrying else Delivery_failed),
                         wd_responseCode := Some rcode, wd_responseBody := Some body, wd_retryCount := n,
                         wd_scheduledAt := (if retry then now + 1000 * retry_delay n else now), wd_updatedAt := now,
                         wd_lastError := Some (error_text body rcode)\<rparr>) t1
              in case js_get (wt_deliveries t2) deliveryId of
                   None \<Rightarrow> (Inl no_row, t2)
                 | Some d \<Rightarrow> (Inr d, count_failure webhookId t2)))"

text \<open>The class has no property \<open>MAX_RETRIES\<close>.\<close>

definition MAX_RETRIES_webhook :: "int option" where
  "MAX_RETRIES_webhook = None"

definition handleDeliveryFailure ::
    "attempt \<Rightarrow> ident \<Rightarrow> ident \<Rightarrow> int \<Rightarrow> string \<Rightarrow> webhook_tables \<Rightarrow> (string + webhook_delivery) \<times> webhook_tables" where
  "handleDeliveryFailure = delivery_failed MAX_RETRIES_webhook"

text \<open>\<open>parseInt(s.match(/\d+/)?.[0] || '0', 10)\<close>\<close>

definition first_number :: "string \<Rightarrow> int" where
  "first_number s = foldl (\<lambda>n c. 10 * n + (int (code c) - 48)) 0 (takeWhile is_digit_char (dropWhile (\<lambda>c. \<not> is_digit_char c) s))"

definition status_of_message :: "string \<Rightarrow> int" where
  "status_of_message msg = (if str_includes msg ''status'' then first_number msg else 0)"

definition sign_payload :: "webhook_env \<Rightarrow> string \<Rightarrow> json \<Rightarrow> string" where
  "sign_payload env secret payload = we_hmac env secret (json_stringify (we_number env) payload)"

definition post_request :: "webhook_env \<Rightarrow> ident option \<Rightarrow> webhook \<Rightarrow> json \<Rightarrow> webhook_tables \<Rightarrow> webhook_tables" where
  "post_request env replay w payload t =
     t\<lparr>wt_sent := wt_sent t @ [\<lparr>wr_url = wh_url w, wr_body = json_stringify (we_number env) payload,
        wr_signature = sign_payload env (wh_secret w) payload, wr_replay = replay\<rparr>]\<rparr>"

text \<open>The attempt, for an outcome of the check and a limit of retries.\<close>

definition attempt_delivery ::
    "webhook_env \<Rightarrow> url_check \<Rightarrow> int option \<Rightarrow> attempt \<Rightarrow> ident \<Rightarrow> webhook_tables \<Rightarrow> (string + webhook_delivery) \<times> webhook_tables" where
  "attempt_delivery env check limit a deliveryId t =
     (let row = js_get (wt_deliveries t) deliveryId
      in case (row, Option.bind row (\<lambda>d. js_get (wt_webhooks t) (wd_webhookId d))) of
           (Some d, Some w) \<Rightarrow>
             (case check of
                Check_unbound \<Rightarrow> (Inl ''SSRFError is not defined'', t)
              | Check_blocks reason \<Rightarrow>
                  delivery_failed limit a deliveryId (wd_webhookId d) 0 (''SSRF protection blocked delivery: '' @ reason)
                    (security_event ''webhook.ssrf_blocked'' (wd_webhookId d) t)
              | Check_passes \<Rightarrow>
                  (let t1 = post_request env None w (wd_payload d) t
                   in case at_post a of
                        Post_answers data \<Rightarrow>
                          (case updateDeliverySuccess a deliveryId 200 (take 1000 (json_stringify (we_number env) data)) t1 of
                             (Inr d', t2) \<Rightarrow> (Inr d', t2)
                           | (Inl e, t2) \<Rightarrow> delivery_failed limit a deliveryId (wd_webhookId d) (status_of_message e) e t2)
                      | Post_throws msg \<Rightarrow> delivery_failed limit a deliveryId (wd_webhookId d) (status_of_message msg) msg t1))
         | _ \<Rightarrow> (Inl (''Delivery '' @ deliveryId @ '' not found''), t))"

text \<open>The module does not import \<open>validateOutboundUrl\<close> and \<open>SSRFError\<close>.\<close>

definition sendDelivery :: "webhook_env \<Rightarrow> attempt \<Rightarrow> ident \<Rightarrow> webhook_tables \<Rightarrow> (string + webhook_delivery) \<times> webhook_tables" where
  "sendDelivery env = attempt_delivery env Check_unbound MAX_RETRIES_webhook"

definition triggerTestEvent ::
    "webhook_env \<Rightarrow> attempt \<Rightarrow> string option \<Rightarrow> ident \<Rightarrow> string \<Rightarrow> ident \<Rightarrow> ident \<Rightarrow> webhook_tables \<Rightarrow> (string + webhook_delivery) \<times> webhook_tables" where
  "triggerTestEvent env a insertError new random userId webhookId t =
     (case own_webhook userId webhookId t of
        None \<Rightarrow> (Inl ''Webhook not found or access denied'', t)
      | Some w \<Rightarrow>
          (case insertError of
             Some e \<Rightarrow> (Inl e, t)
           | None \<Rightarrow>
               (let payload = event_payload (''evt_test_'' @ random) ''test.event'' (at_now a)
                      (JObj [(''message'', JStr ''This is a test event from SYNCRO'')]) None
                in sendDelivery env a new (insert_delivery (at_now a) new webhookId ''test.event'' payload t))))"

text \<open>The deliveries whose retry is due; their attempts are started and not awaited.\<close>

definition processRetries_webhook :: "string option \<Rightarrow> millis \<Rightarrow> webhook_tables \<Rightarrow> ident list" where
  "processRetries_webhook dbError now t =
     (if dbError \<noteq> None then []
      else map fst (filter (\<lambda>(_, d). wd_status d = Delivery_retrying \<and> wd_scheduledAt d \<le> now) (wt_deliveries t)))"

definition getDeliveries :: "string option \<Rightarrow> ident \<Rightarrow> ident \<Rightarrow> webhook_tables \<Rightarrow> string + (ident \<times> webhook_delivery) list" where
  "getDeliveries dbError userId webhookId t =
     (case own_webhook userId webhookId t of
        None \<Rightarrow> Inl ''Webhook not found or access denied''
      | Some _ \<Rightarrow>
          (case dbError of
             Some e \<Rightarrow> Inl (''Failed to fetch deliveries: '' @ e)
           | None \<Rightarrow> Inr (take 50 (most_recent wd_createdAt (filter (\<lambda>(_, d). wd_webhookId d = webhookId) (wt_deliveries t))))))"

section \<open>Dead letters and their replay\<close>

definition dead_at :: "webhook_delivery \<Rightarrow> millis" where
  "dead_at d = (case wd_deadLetterAt d of None \<Rightarrow> 0 | Some x \<Rightarrow> x)"

definition getDeadLetterDeliveries :: "string option \<Rightarrow> ident \<Rightarrow> ident \<Rightarrow> webhook_tables \<Rightarrow> string + (ident \<times> webhook_delivery) list" where
  "getDeadLetterDeliveries dbError userId webhookId t =
     (case own_webhook userId webhookId t of
        None \<Rightarrow> Inl ''Webhook not found or access denied''
      | Some _ \<Rightarrow>
          (case dbError of
             Some e \<Rightarrow> Inl e
           | None \<Rightarrow> Inr (most_recent dead_at (filter (\<lambda>(_, d). wd_webhookId d = webhookId \<and> wd_isDeadLetter d) (wt_deliveries t)))))"

definition owned_delivery :: "ident \<Rightarrow> webhook_tables \<Rightarrow> webhook_delivery \<Rightarrow> bool" where
  "owned_delivery userId t d \<longleftrightarrow> own_webhook userId (wd_webhookId d) t \<noteq> None"

definition getAllUserDeadLetters ::
    "string option \<Rightarrow> ident \<Rightarrow> webhook_tables \<Rightarrow> string + (ident \<times> webhook_delivery \<times> string option) list" where
  "getAllUserDeadLetters dbError userId t =
     (case dbError of
        Some e \<Rightarrow> Inl e
      | None \<Rightarrow>
          Inr (map (\<lambda>(i, d). (i, d, map_option wh_url (js_get (wt_webhooks t) (wd_webhookId d))))
            (most_recent dead_at (filter (\<lambda>(_, d). owned_delivery userId t d \<and> wd_isDeadLetter d) (wt_deliveries t)))))"

text \<open>The column of the key is unique over the whole table.\<close>

definition find_replay :: "string \<Rightarrow> webhook_tables \<Rightarrow> (ident \<times> dead_letter_replay) option" where
  "find_replay key t = List.find (\<lambda>(_, r). dr_key r = key) (wt_replays t)"

definition createReplayRequest ::
    "string option \<Rightarrow> millis \<Rightarrow> ident \<Rightarrow> string \<Rightarrow> ident \<Rightarrow> ident \<Rightarrow> string option \<Rightarrow> webhook_tables \<Rightarrow>
     (string + ident \<times> dead_letter_replay) \<times> webhook_tables" where
  "createReplayRequest dbError now new random deliveryId userId idempotencyKey t =
     (case js_get (wt_deliveries t) deliveryId of
        None \<Rightarrow> (Inl ''Dead-letter delivery not found or access denied'', t)
      | Some d \<Rightarrow>
          if \<not> (owned_delivery userId t d \<and> wd_isDeadLetter d) then (Inl ''Dead-letter delivery not found or access denied'', t)
          else
            (let key = (case idempotencyKey of None \<Rightarrow> random | Some k \<Rightarrow> if k = [] then random else k)
             in case dbError of
                  Some e \<Rightarrow> (Inl e, t)
                | None \<Rightarrow>
                    (case find_replay key t of
                       Some r \<Rightarrow> (Inr r, t)
                     | None \<Rightarrow>
                         (let r = \<lparr>dr_deliveryId = deliveryId, dr_key = key, dr_by = userId, dr_status = Replay_pending, dr_responseCode = None,
                                   dr_responseBody = None, dr_error = None, dr_attemptedAt = now, dr_completedAt = None\<rparr>
                          in (Inr (new, r), t\<lparr>wt_replays := js_set new r (wt_replays t)\<rparr>)))))"

definition getReplayHistory :: "string option \<Rightarrow> ident \<Rightarrow> ident \<Rightarrow> webhook_tables \<Rightarrow> string + (ident \<times> dead_letter_replay) list" where
  "getReplayHistory dbError userId deliveryId t =
     (case js_get (wt_deliveries t) deliveryId of
        None \<Rightarrow> Inl ''Delivery not found or access denied''
      | Some d \<Rightarrow>
          if \<not> owned_delivery userId t d then Inl ''Delivery not found or access denied''
          else (case dbError of
                  Some e \<Rightarrow> Inl e
                | None \<Rightarrow> Inr (most_recent dr_attemptedAt (filter (\<lambda>(_, r). dr_deliveryId r = deliveryId) (wt_replays t)))))"

datatype fetch_result = Fetch_answers int string | Fetch_throws string

record replay_attempt =
  ra_now :: millis
  ra_check :: url_check
  ra_fetch :: fetch_result
  ra_updateError :: "string option"

definition replay_outcome :: "ident \<Rightarrow> webhook_tables \<Rightarrow> (string + dead_letter_replay) \<times> webhook_tables" where
  "replay_outcome replayId t = (case js_get (wt_replays t) replayId of None \<Rightarrow> (Inl no_row, t) | Some r \<Rightarrow> (Inr r, t))"

text \<open>The handler of exceptions writes the message, with a statement that may fail itself.\<close>

definition replay_threw :: "string option \<Rightarrow> millis \<Rightarrow> ident \<Rightarrow> string \<Rightarrow> webhook_tables \<Rightarrow> (string + dead_letter_replay) \<times> webhook_tables" where
  "replay_threw dbError now replayId message t =
     (case dbError of
        Some e \<Rightarrow> (Inl e, t)
      | None \<Rightarrow> replay_outcome replayId (put_replay replayId (\<lambda>r. r\<lparr>dr_status := Replay_failed, dr_error := Some message, dr_completedAt := Some now\<rparr>) t))"

definition http_ok :: "int \<Rightarrow> bool" where
  "http_ok status \<longleftrightarrow> 200 \<le> status \<and> status \<le> 299"

text \<open>What a success changes besides the replay: the delivery, and the webhook, which is enabled.\<close>

definition replay_succeeded :: "millis \<Rightarrow> ident \<Rightarrow> int \<Rightarrow> string \<Rightarrow> webhook_tables \<Rightarrow> webhook_tables" where
  "replay_succeeded now deliveryId status text t =
     (let t1 = put_delivery deliveryId (\<lambda>d. d\<lparr>wd_status := Delivery_success, wd_deliveredAt := Some now, wd_responseCode := Some status,
                 wd_responseBody := Some (take 1000 text), wd_updatedAt := now\<rparr>) t
      in case js_get (wt_deliveries t1) deliveryId of
           None \<Rightarrow> t1
         | Some d \<Rightarrow>
             put_webhook (wd_webhookId d)
               (\<lambda>w. w\<lparr>wh_failureCount := max 0 ((if wh_failureCount w = 0 then 1 else wh_failureCount w) - 1), wh_enabled := True\<rparr>) t1)"

definition executeReplay ::
    "webhook_env \<Rightarrow> replay_attempt \<Rightarrow> ident \<Rightarrow> webhook \<Rightarrow> ident \<Rightarrow> webhook_delivery \<Rightarrow> webhook_tables \<Rightarrow>
     (string + dead_letter_replay) \<times> webhook_tables" where
  "executeReplay env a replayId w deliveryId d t =
     (let now = ra_now a;
          t1 = put_replay replayId (\<lambda>r. r\<lparr>dr_status := Replay_processing\<rparr>) t
      in case ra_check a of
           Check_unbound \<Rightarrow> replay_threw (ra_updateError a) now replayId ''SSRFError is not defined'' t1
         | Check_blocks reason \<Rightarrow>
             (let t2 = security_event ''webhook.ssrf_blocked'' (wd_webhookId d) t1
              in case ra_updateError a of
                   Some e \<Rightarrow> replay_threw (ra_updateError a) now replayId e t2
                 | None \<Rightarrow> replay_outcome replayId (put_replay replayId (\<lambda>r. r\<lparr>dr_status := Replay_failed,
                             dr_error := Some (''SSRF protection blocked replay: '' @ reason), dr_completedAt := Some now\<rparr>) t2))
         | Check_passes \<Rightarrow>
             (let t2 = post_request env (Some replayId) w (wd_payload d) t1
              in case ra_fetch a of
                   Fetch_throws msg \<Rightarrow> replay_threw (ra_updateError a) now replayId msg t2
                 | Fetch_answers status text \<Rightarrow>
                     (case ra_updateError a of
                        Some e \<Rightarrow> replay_threw (ra_updateError a) now replayId e t2
                      | None \<Rightarrow>
                          (let t3 = put_replay replayId (\<lambda>r. r\<lparr>dr_responseCode := Some status, dr_responseBody := Some (take 1000 text),
                                      dr_completedAt := Some now, dr_status := (if http_ok status then Replay_success else Replay_failed),
                                      dr_error := (if http_ok status then dr_error r
                                        else Some (''HTTP '' @ show_int status @ '': '' @ take 200 text))\<rparr>) t2
                           in replay_outcome replayId (if http_ok status then replay_succeeded now deliveryId status text t3 else t3)))))"

definition executeDeadLetterReplay ::
    "webhook_env \<Rightarrow> replay_attempt \<Rightarrow> ident \<Rightarrow> ident \<Rightarrow> webhook_tables \<Rightarrow> (string + dead_letter_replay) \<times> webhook_tables" where
  "executeDeadLetterReplay env a userId replayId t =
     (case js_get (wt_replays t) replayId of
        None \<Rightarrow> (Inl ''Replay request not found'', t)
      | Some r \<Rightarrow>
          (let row = js_get (wt_deliveries t) (dr_deliveryId r)
           in case (row, Option.bind row (\<lambda>d. js_get (wt_webhooks t) (wd_webhookId d))) of
                (Some d, Some w) \<Rightarrow>
                  if wh_userId w \<noteq> userId then (Inl ''Access denied'', t)
                  else executeReplay env a replayId w (dr_deliveryId r) d t
              | _ \<Rightarrow> (Inl ''Replay request not found'', t)))"

section \<open>Statistics\<close>

text \<open>The rows of the view: total and the last day, and the most recent.\<close>

record dead_letter_row =
  dl_webhookId :: ident
  dl_total :: "int option"
  dl_day :: "int option"
  dl_recent :: "millis option"

record dead_letter_stats =
  ds_total :: int
  ds_day :: int
  ds_week :: int
  ds_byWebhook :: "dead_letter_row list"

definition getDeadLetterStats :: "string option \<Rightarrow> dead_letter_row list \<Rightarrow> string + dead_letter_stats" where
  "getDeadLetterStats dbError rows =
     (case dbError of
        Some e \<Rightarrow> Inl e
      | None \<Rightarrow>
          (let all = foldl (\<lambda>sum r. sum + (case dl_total r of None \<Rightarrow> 0 | Some n \<Rightarrow> n)) 0 rows
           in Inr \<lparr>ds_total = all, ds_day = foldl (\<lambda>sum r. sum + (case dl_day r of None \<Rightarrow> 0 | Some n \<Rightarrow> n)) 0 rows,
                   ds_week = all, ds_byWebhook = rows\<rparr>))"

end
