(* ===== verification/WebhookProps.thy ===== *)
theory WebhookProps
  imports Webhooks
begin

text \<open>
  What the webhook service promises: an event makes one delivery for each webhook that asks for it, the
  operations of a user touch nothing of other users, a webhook is disabled by ten failures in a row; and
  what becomes of deliveries instead of being sent.
\<close>

section \<open>Rows\<close>

lemma put_webhook_simps [simp]:
  "wt_deliveries (put_webhook i f t) = wt_deliveries t" "wt_replays (put_webhook i f t) = wt_replays t" "wt_sent (put_webhook i f t) = wt_sent t"
  "js_get (wt_webhooks (put_webhook i f t)) k = (if k = i then map_option f (js_get (wt_webhooks t) i) else js_get (wt_webhooks t) k)"
  by (auto simp: put_webhook_def split: option.split)

lemma put_delivery_simps [simp]:
  "wt_webhooks (put_delivery i g t) = wt_webhooks t" "wt_replays (put_delivery i g t) = wt_replays t" "wt_sent (put_delivery i g t) = wt_sent t"
  "js_get (wt_deliveries (put_delivery i g t)) k = (if k = i then map_option g (js_get (wt_deliveries t) i) else js_get (wt_deliveries t) k)"
  by (auto simp: put_delivery_def split: option.split)

lemma put_replay_simps [simp]:
  "wt_webhooks (put_replay i h t) = wt_webhooks t" "wt_deliveries (put_replay i h t) = wt_deliveries t" "wt_sent (put_replay i h t) = wt_sent t"
  by (auto simp: put_replay_def split: option.split)

lemma security_event_simps [simp]:
  "wt_webhooks (security_event n i t) = wt_webhooks t" "wt_deliveries (security_event n i t) = wt_deliveries t"
  "wt_replays (security_event n i t) = wt_replays t" "wt_sent (security_event n i t) = wt_sent t"
  by (simp_all add: security_event_def)

lemma post_request_simps [simp]:
  "wt_webhooks (post_request env r w p t) = wt_webhooks t" "wt_deliveries (post_request env r w p t) = wt_deliveries t"
  by (simp_all add: post_request_def)

lemma replay_outcome_state [simp]: "snd (replay_outcome i t) = t"
  by (simp add: replay_outcome_def split: option.split)

lemma insert_delivery_simps [simp]:
  "wt_webhooks (insert_delivery now new w e p t) = wt_webhooks t" "wt_sent (insert_delivery now new w e p t) = wt_sent t"
  by (simp_all add: insert_delivery_def)

section \<open>One delivery for each webhook\<close>

lemma create_deliveries_Cons:
  "insertError x = None \<Longrightarrow> create_deliveries insertError now new e p (x # xs) t =
     (new x # fst (create_deliveries insertError now new e p xs (insert_delivery now (new x) x e p t)),
      snd (create_deliveries insertError now new e p xs (insert_delivery now (new x) x e p t)))"
  by (simp add: Let_def split: prod.split)

lemma create_deliveries_started: "\<forall>w. insertError w = None \<Longrightarrow> fst (create_deliveries insertError now new e p ws t) = map new ws"
proof (induction ws arbitrary: t)
  case (Cons x xs)
  then have x: "insertError x = None" by blast
  show ?case by (simp only: create_deliveries_Cons [of insertError x, OF x] Cons.IH [OF Cons.prems] fst_conv list.map)
qed simp

lemma create_deliveries_webhooks: "wt_webhooks (snd (create_deliveries insertError now new e p ws t)) = wt_webhooks t"
proof (induction ws arbitrary: t)
  case (Cons x xs)
  then show ?case by (cases "insertError x") (simp_all only: create_deliveries_Cons snd_conv insert_delivery_simps, simp)
qed simp

lemma create_deliveries_replays: "wt_replays (snd (create_deliveries insertError now new e p ws t)) = wt_replays t"
proof (induction ws arbitrary: t)
  case (Cons x xs)
  have "wt_replays (insert_delivery now (new x) x e p t) = wt_replays t" by (simp add: insert_delivery_def)
  then show ?case using Cons.IH by (cases "insertError x") (simp_all only: create_deliveries_Cons snd_conv, simp)
qed simp

lemma create_deliveries_others:
  "k \<notin> new ` set ws \<Longrightarrow> js_get (wt_deliveries (snd (create_deliveries insertError now new e p ws t))) k = js_get (wt_deliveries t) k"
proof (induction ws arbitrary: t)
  case (Cons x xs)
  have "js_get (wt_deliveries (insert_delivery now (new x) x e p t)) k = js_get (wt_deliveries t) k"
    using Cons.prems by (simp add: insert_delivery_def)
  then show ?case using Cons
    by (cases "insertError x") (simp_all only: create_deliveries_Cons snd_conv list.set image_insert insert_iff, simp_all)
qed simp

lemma create_deliveries_new:
  assumes "\<forall>w. insertError w = None" and "inj new" and "distinct ws" and "w \<in> set ws"
  shows "js_get (wt_deliveries (snd (create_deliveries insertError now new e p ws t))) (new w) =
     js_get (wt_deliveries (insert_delivery now (new w) w e p t)) (new w)"
  using assms(3,4)
proof (induction ws arbitrary: t)
  case (Cons x xs)
  have x: "insertError x = None" using assms(1) by blast
  show ?case
  proof (cases "w = x")
    case True
    then have "new x \<notin> new ` set xs" using Cons.prems assms(2) by (auto simp: inj_def)
    then show ?thesis by (simp only: create_deliveries_Cons [of insertError x, OF x] snd_conv create_deliveries_others True not_False_eq_True)
  next
    case False
    then have "w \<in> set xs" "distinct xs" using Cons.prems by auto
    then show ?thesis
      by (simp only: create_deliveries_Cons [of insertError x, OF x] snd_conv Cons.IH) (simp add: insert_delivery_def)
  qed
qed simp

text \<open>
  An event makes one delivery, pending and never tried, for each webhook of the user that is enabled
  and subscribes to it, and none for any other webhook; nothing that was there before changes.
\<close>

theorem dispatch_exact:
  assumes "js_wf (wt_webhooks t)" and "inj new" and "\<forall>w. js_get (wt_deliveries t) (new w) = None"
    and "dispatchEvent None (\<lambda>_. None) now new random cid u e data t = (started, t')"
  shows "set started = {new w |w. \<exists>h. js_get (wt_webhooks t) w = Some h \<and> wh_userId h = u \<and> wh_enabled h \<and> e \<in> set (wh_events h)}"
    and "\<And>k. js_get (wt_deliveries t') k \<noteq> js_get (wt_deliveries t) k \<longleftrightarrow> k \<in> set started"
    and "\<And>w. new w \<in> set started \<Longrightarrow> \<exists>d. js_get (wt_deliveries t') (new w) = Some d \<and> wd_webhookId d = w \<and> wd_eventType d = e \<and>
        wd_status d = Delivery_pending \<and> wd_retryCount d = 0 \<and> wd_payload d = event_payload (''evt_'' @ random) e now data cid"
    and "wt_webhooks t' = wt_webhooks t"
proof -
  let ?ws = "subscribed u e t" and ?p = "event_payload (''evt_'' @ random) e now data cid"
  have r: "create_deliveries (\<lambda>_. None) now new e ?p ?ws t = (started, t')" using assms(4) by (simp add: dispatchEvent_def)
  have ws: "set ?ws = {w. \<exists>h. js_get (wt_webhooks t) w = Some h \<and> wh_userId h = u \<and> wh_enabled h \<and> e \<in> set (wh_events h)}"
    using assms(1) by (auto simp: subscribed_def js_get_def js_wf_def image_iff Bex_def)
  have d: "distinct ?ws" using assms(1) by (simp add: subscribed_def js_wf_def distinct_map_filter)
  have st: "started = map new ?ws" using create_deliveries_started [of "\<lambda>_. None" now new e ?p ?ws t] r by simp
  have t': "t' = snd (create_deliveries (\<lambda>_. None) now new e ?p ?ws t)" using r by simp
  show s: "set started = {new w |w. \<exists>h. js_get (wt_webhooks t) w = Some h \<and> wh_userId h = u \<and> wh_enabled h \<and> e \<in> set (wh_events h)}"
    using st ws by auto
  have new: "\<exists>d. js_get (wt_deliveries t') (new w) = Some d \<and> wd_webhookId d = w \<and> wd_eventType d = e \<and>
      wd_status d = Delivery_pending \<and> wd_retryCount d = 0 \<and> wd_payload d = ?p" if "w \<in> set ?ws" for w
    using create_deliveries_new [OF _ assms(2) d that, of "\<lambda>_. None"] by (simp add: t' insert_delivery_def)
  have in_started: "new w \<in> set started \<longleftrightarrow> w \<in> set ?ws" for w using st assms(2) by (auto simp: inj_def)
  show "\<And>w. new w \<in> set started \<Longrightarrow> \<exists>d. js_get (wt_deliveries t') (new w) = Some d \<and> wd_webhookId d = w \<and> wd_eventType d = e \<and>
      wd_status d = Delivery_pending \<and> wd_retryCount d = 0 \<and> wd_payload d = ?p"
    using new in_started by blast
  show "js_get (wt_deliveries t') k \<noteq> js_get (wt_deliveries t) k \<longleftrightarrow> k \<in> set started" for k
  proof (cases "k \<in> set started")
    case True
    then obtain w where "k = new w" "w \<in> set ?ws" using st by auto
    then show ?thesis using new [of w] assms(3) True by auto
  next
    case False
    then show ?thesis using st create_deliveries_others [of k new ?ws] by (simp add: t')
  qed
  show "wt_webhooks t' = wt_webhooks t" by (simp add: t' create_deliveries_webhooks)
qed


section \<open>The rows of other users\<close>

definition foreign :: "ident \<Rightarrow> webhook_tables \<Rightarrow> ident \<Rightarrow> bool" where
  "foreign u t w \<longleftrightarrow> (\<exists>h. js_get (wt_webhooks t) w = Some h \<and> wh_userId h \<noteq> u)"

definition untouched :: "ident \<Rightarrow> webhook_tables \<Rightarrow> webhook_tables \<Rightarrow> bool" where
  "untouched u t t' \<longleftrightarrow>
     (\<forall>w. foreign u t w \<longrightarrow> js_get (wt_webhooks t') w = js_get (wt_webhooks t) w) \<and>
     (\<forall>i d. js_get (wt_deliveries t) i = Some d \<and> foreign u t (wd_webhookId d) \<longrightarrow> js_get (wt_deliveries t') i = Some d) \<and>
     (\<forall>i r d. js_get (wt_replays t) i = Some r \<and> js_get (wt_deliveries t) (dr_deliveryId r) = Some d \<and> foreign u t (wd_webhookId d) \<longrightarrow>
        js_get (wt_replays t') i = Some r)"

text \<open>The operations of a user; the database chooses ids that are not taken.\<close>

inductive user_op :: "webhook_env \<Rightarrow> ident \<Rightarrow> webhook_tables \<Rightarrow> webhook_tables \<Rightarrow> bool" for env u where
  User_register: "js_get (wt_webhooks t) new = None \<Longrightarrow> user_op env u t (snd (registerWebhook e now new random u url events t))"
| User_update: "user_op env u t (snd (updateWebhook e now u w input t))"
| User_delete: "user_op env u t (snd (deleteWebhook e u w t))"
| User_event: "\<forall>w. js_get (wt_deliveries t) (new w) = None \<Longrightarrow> user_op env u t (snd (dispatchEvent e ie now new random cid u ev data t))"
| User_test: "js_get (wt_deliveries t) new = None \<Longrightarrow> user_op env u t (snd (triggerTestEvent env a e new random u w t))"
| User_replay: "js_get (wt_replays t) new = None \<Longrightarrow> user_op env u t (snd (createReplayRequest e now new random d u key t))"
| User_execute: "user_op env u t (snd (executeDeadLetterReplay env ra u r t))"

lemma js_get_filter_value: "js_get m k = Some v \<Longrightarrow> P v \<Longrightarrow> js_get (filter (\<lambda>(_, v). P v) m) k = Some v"
  by (induction m) (auto simp: js_get_def split: if_splits)

lemma untouched_refl [simp]: "untouched u t t"
  by (simp add: untouched_def)

lemma untouched_foreign: "untouched u t t' \<Longrightarrow> foreign u t w \<Longrightarrow> foreign u t' w"
  by (auto simp: untouched_def foreign_def)

lemma untouched_trans:
  assumes a: "untouched u t t'" and b: "untouched u t' t''"
  shows "untouched u t t''"
  unfolding untouched_def
proof (intro conjI allI impI; (elim conjE)?)
  fix w
  assume f: "foreign u t w"
  show "js_get (wt_webhooks t'') w = js_get (wt_webhooks t) w" using a b f untouched_foreign [OF a f] by (simp add: untouched_def)
next
  fix i d
  assume f: "js_get (wt_deliveries t) i = Some d" "foreign u t (wd_webhookId d)"
  then show "js_get (wt_deliveries t'') i = Some d" using a b untouched_foreign [OF a f(2)] by (simp add: untouched_def)
next
  fix i r d
  assume f: "js_get (wt_replays t) i = Some r" "js_get (wt_deliveries t) (dr_deliveryId r) = Some d" "foreign u t (wd_webhookId d)"
  have "js_get (wt_replays t') i = Some r" "js_get (wt_deliveries t') (dr_deliveryId r) = Some d" using a f by (auto simp: untouched_def)
  then show "js_get (wt_replays t'') i = Some r" using b untouched_foreign [OF a f(3)] by (auto simp: untouched_def)
qed

lemma untouched_same: "wt_webhooks t' = wt_webhooks t \<Longrightarrow> wt_deliveries t' = wt_deliveries t \<Longrightarrow> wt_replays t' = wt_replays t \<Longrightarrow> untouched u t t'"
  by (simp add: untouched_def)

lemma own_webhook_not_foreign: "own_webhook u w t = Some h \<Longrightarrow> \<not> foreign u t w"
  by (auto simp: own_webhook_def foreign_def split: option.splits if_splits)

lemma untouched_put_webhook: "\<not> foreign u t w \<Longrightarrow> untouched u t (put_webhook w f t)"
  by (auto simp: untouched_def)

lemma untouched_put_delivery:
  "js_get (wt_deliveries t) i = Some d \<Longrightarrow> \<not> foreign u t (wd_webhookId d) \<Longrightarrow> untouched u t (put_delivery i f t)"
  by (auto simp: untouched_def)

lemma untouched_put_replay:
  assumes "js_get (wt_replays t) i = Some r" "js_get (wt_deliveries t) (dr_deliveryId r) = Some d" "\<not> foreign u t (wd_webhookId d)"
  shows "untouched u t (put_replay i f t)"
  using assms by (auto simp: untouched_def put_replay_def)

lemma untouched_insert_delivery: "js_get (wt_deliveries t) new = None \<Longrightarrow> untouched u t (insert_delivery now new w e p t)"
  by (auto simp: untouched_def insert_delivery_def)

lemma untouched_create_deliveries:
  assumes "\<forall>w. js_get (wt_deliveries t) (new w) = None"
  shows "untouched u t (snd (create_deliveries ie now new e p ws t))"
proof -
  have d: "js_get (wt_deliveries (snd (create_deliveries ie now new e p ws t))) i = Some d" if "js_get (wt_deliveries t) i = Some d" for i d
  proof -
    have "i \<notin> new ` set ws" using that assms by auto
    then show ?thesis using create_deliveries_others that by simp
  qed
  show ?thesis using d by (simp add: untouched_def create_deliveries_webhooks create_deliveries_replays)
qed

lemma send_delivery_state [simp]: "snd (sendDelivery env a i t) = t"
  by (auto simp: sendDelivery_def attempt_delivery_def Let_def split: option.split)

lemma untouched_delete: "untouched u t (snd (deleteWebhook e u w t))"
proof (cases "e = None \<and> own_webhook u w t \<noteq> None")
  case True
  then obtain h where h: "own_webhook u w t = Some h" by blast
  let ?ds = "filter (\<lambda>(_, d). wd_webhookId d \<noteq> w) (wt_deliveries t)"
  have t': "snd (deleteWebhook e u w t) = t\<lparr>wt_webhooks := js_delete w (wt_webhooks t), wt_deliveries := ?ds,
      wt_replays := filter (\<lambda>(_, r). dr_deliveryId r \<in> set (js_keys ?ds)) (wt_replays t)\<rparr>"
    using True h by (simp add: deleteWebhook_def Let_def)
  have nf: "x \<noteq> w" if "foreign u t x" for x using that own_webhook_not_foreign [OF h] by auto
  have d: "js_get ?ds i = Some d" if "js_get (wt_deliveries t) i = Some d" "foreign u t (wd_webhookId d)" for i d
    using js_get_filter_value [of "wt_deliveries t" i d "\<lambda>d. wd_webhookId d \<noteq> w"] that nf by blast
  have "js_get (filter (\<lambda>(_, r). dr_deliveryId r \<in> set (js_keys ?ds)) (wt_replays t)) i = Some r"
    if "js_get (wt_replays t) i = Some r" "js_get (wt_deliveries t) (dr_deliveryId r) = Some d" "foreign u t (wd_webhookId d)" for i r d
    using js_get_filter_value [of "wt_replays t" i r "\<lambda>r. dr_deliveryId r \<in> set (js_keys ?ds)"] that js_get_in_keys [OF d [OF that(2,3)]] by blast
  then show ?thesis unfolding t' untouched_def using d nf by simp
next
  case False
  then show ?thesis by (auto simp: deleteWebhook_def split: option.splits)
qed

lemma untouched_update: "untouched u t (snd (updateWebhook e now u w input t))"
proof (cases "own_webhook u w t")
  case (Some h)
  then show ?thesis using own_webhook_not_foreign [OF Some]
    by (auto simp: updateWebhook_def Let_def untouched_def split: option.split)
qed (auto simp: updateWebhook_def split: option.split)

text \<open>The state while a replay of the user runs: what it started from, and that the replay is the user's.\<close>

definition own_replay :: "ident \<Rightarrow> ident \<Rightarrow> ident \<Rightarrow> webhook_tables \<Rightarrow> webhook_tables \<Rightarrow> bool" where
  "own_replay u i j t0 t \<longleftrightarrow> untouched u t0 t \<and>
     (\<exists>r d. js_get (wt_replays t) i = Some r \<and> dr_deliveryId r = j \<and> js_get (wt_deliveries t) j = Some d \<and> \<not> foreign u t (wd_webhookId d))"

lemma own_replay_put_replay:
  assumes "own_replay u i j t0 t" "\<And>r. dr_deliveryId (f r) = dr_deliveryId r"
  shows "own_replay u i j t0 (put_replay i f t)"
proof -
  obtain r d where o: "js_get (wt_replays t) i = Some r" "dr_deliveryId r = j" "js_get (wt_deliveries t) j = Some d" "\<not> foreign u t (wd_webhookId d)"
    using assms(1) by (auto simp: own_replay_def)
  have "untouched u t0 (put_replay i f t)"
    using assms(1) untouched_trans untouched_put_replay [OF o(1)] o by (auto simp: own_replay_def)
  moreover have "js_get (wt_replays (put_replay i f t)) i = Some (f r)" using o by (simp add: put_replay_def)
  ultimately show ?thesis using o assms(2) by (simp add: own_replay_def foreign_def)
qed

lemma own_replay_cong:
  "own_replay u i j t0 t \<Longrightarrow> wt_webhooks t' = wt_webhooks t \<Longrightarrow> wt_deliveries t' = wt_deliveries t \<Longrightarrow> wt_replays t' = wt_replays t \<Longrightarrow>
   own_replay u i j t0 t'"
  unfolding own_replay_def foreign_def by (auto intro: untouched_trans untouched_same)

lemma own_replay_succeeded:
  assumes "own_replay u i j t0 t"
  shows "untouched u t0 (replay_succeeded now j status text t)"
proof -
  obtain d where o: "js_get (wt_deliveries t) j = Some d" "\<not> foreign u t (wd_webhookId d)" "untouched u t0 t"
    using assms by (auto simp: own_replay_def)
  define t1 where "t1 = put_delivery j (\<lambda>d. d\<lparr>wd_status := Delivery_success, wd_deliveredAt := Some now, wd_responseCode := Some status,
    wd_responseBody := Some (take 1000 text), wd_updatedAt := now\<rparr>) t"
  have t1: "untouched u t t1" unfolding t1_def by (rule untouched_put_delivery [OF o(1,2)])
  have nf: "\<not> foreign u t1 (wd_webhookId d)" using o(2) by (simp add: t1_def foreign_def)
  have "js_get (wt_deliveries t1) j = Some (d\<lparr>wd_status := Delivery_success, wd_deliveredAt := Some now, wd_responseCode := Some status,
    wd_responseBody := Some (take 1000 text), wd_updatedAt := now\<rparr>)" using o(1) by (simp add: t1_def)
  then have "\<exists>f. replay_succeeded now j status text t = put_webhook (wd_webhookId d) f t1"
    unfolding replay_succeeded_def Let_def t1_def [symmetric] by auto
  then show ?thesis using untouched_trans [OF o(3) untouched_trans [OF t1 untouched_put_webhook [OF nf]]] by auto
qed

lemma own_replay_untouched: "own_replay u i j t0 t \<Longrightarrow> untouched u t0 t"
  by (simp add: own_replay_def)

lemma own_replay_threw: "own_replay u i j t0 t \<Longrightarrow> untouched u t0 (snd (replay_threw e now i msg t))"
  using own_replay_untouched own_replay_put_replay [of u i j t0 t "\<lambda>r. r\<lparr>dr_status := Replay_failed, dr_error := Some msg, dr_completedAt := Some now\<rparr>"]
  by (auto simp: replay_threw_def split: option.split)

lemma own_replay_executed:
  assumes "own_replay u i j t0 t"
  shows "untouched u t0 (snd (executeReplay env a i w j d t))"
proof -
  define t1 where "t1 = put_replay i (\<lambda>r. r\<lparr>dr_status := Replay_processing\<rparr>) t"
  have t1: "own_replay u i j t0 t1" unfolding t1_def by (rule own_replay_put_replay [OF assms]) simp
  have sec: "own_replay u i j t0 (security_event n x t1)" for n x by (rule own_replay_cong [OF t1]) simp_all
  have post: "own_replay u i j t0 (post_request env r w' p t1)" for r w' p by (rule own_replay_cong [OF t1]) (simp_all add: post_request_def)
  have put: "own_replay u i j t0 (put_replay i f t')" if "own_replay u i j t0 t'" "\<And>r. dr_deliveryId (f r) = dr_deliveryId r" for f t'
    using that by (rule own_replay_put_replay)
  show ?thesis
  proof (cases "ra_check a")
    case Check_passes
    then show ?thesis unfolding executeReplay_def Let_def t1_def [symmetric]
      by (cases "ra_fetch a"; cases "ra_updateError a")
        (auto intro!: own_replay_threw [OF post] own_replay_succeeded put post own_replay_untouched [OF put])
  next
    case (Check_blocks reason)
    then show ?thesis unfolding executeReplay_def Let_def t1_def [symmetric]
      by (cases "ra_updateError a") (auto intro!: own_replay_threw [OF sec] own_replay_untouched [OF put] sec)
  next
    case Check_unbound
    then show ?thesis unfolding executeReplay_def Let_def t1_def [symmetric] by (simp add: own_replay_threw [OF t1])
  qed
qed

lemma untouched_execute: "untouched u t (snd (executeDeadLetterReplay env a u i t))"
proof -
  have "own_replay u i (dr_deliveryId r) t t"
    if "js_get (wt_replays t) i = Some r" "js_get (wt_deliveries t) (dr_deliveryId r) = Some d" "js_get (wt_webhooks t) (wd_webhookId d) = Some w" "wh_userId w = u"
    for r d w using that by (simp add: own_replay_def foreign_def)
  then show ?thesis
    by (auto simp: executeDeadLetterReplay_def Let_def bind_eq_Some_conv intro!: own_replay_executed split: option.splits)
qed

lemma user_op_untouched: "user_op env u t t' \<Longrightarrow> untouched u t t'"
proof (induction rule: user_op.induct)
  case (User_register t new e now random url events)
  then have "untouched u t (t\<lparr>wt_webhooks := js_set new h (wt_webhooks t)\<rparr>)" for h by (auto simp: untouched_def foreign_def)
  then show ?case by (cases e) (simp_all add: registerWebhook_def Let_def)
next
  case (User_event t new e ie now random cid ev data)
  then show ?case by (simp add: dispatchEvent_def untouched_create_deliveries)
next
  case (User_test t new a e random w)
  then show ?case by (auto simp: triggerTestEvent_def Let_def untouched_insert_delivery split: option.split)
next
  case (User_replay t new e now random d key)
  then have "untouched u t (t\<lparr>wt_replays := js_set new r (wt_replays t)\<rparr>)" for r by (auto simp: untouched_def)
  then show ?case by (auto simp: createReplayRequest_def Let_def split: option.split)
qed (simp_all add: untouched_update untouched_delete untouched_execute)

text \<open>
  C30: whatever a user does with webhooks, events, tests and replays, the webhooks of other users, the
  deliveries made for these and the replays of such deliveries stay as they are.
\<close>

theorem others_untouched:
  assumes "(user_op env u)\<^sup>*\<^sup>* t t'"
  shows "(\<forall>w. foreign u t w \<longrightarrow> js_get (wt_webhooks t') w = js_get (wt_webhooks t) w) \<and>
     (\<forall>i d. js_get (wt_deliveries t) i = Some d \<and> foreign u t (wd_webhookId d) \<longrightarrow> js_get (wt_deliveries t') i = Some d) \<and>
     (\<forall>i r d. js_get (wt_replays t) i = Some r \<and> js_get (wt_deliveries t) (dr_deliveryId r) = Some d \<and> foreign u t (wd_webhookId d) \<longrightarrow>
        js_get (wt_replays t') i = Some r)"
proof -
  have "untouched u t t'"
    using assms by (induction rule: rtranclp_induct) (auto intro: untouched_trans user_op_untouched)
  then show ?thesis unfolding untouched_def .
qed

section \<open>Failures\<close>

lemma count_failure_simps [simp]:
  "js_get (wt_webhooks (count_failure w t)) w =
     map_option (\<lambda>h. h\<lparr>wh_failureCount := wh_failureCount h + 1, wh_enabled := (wh_failureCount h + 1 < DISABLE_THRESHOLD)\<rparr>) (js_get (wt_webhooks t) w)"
  "wt_deliveries (count_failure w t) = wt_deliveries t"
  by (auto simp: count_failure_def Let_def put_webhook_def security_event_def split: option.split)

lemma moveToDeadLetter_webhook_simps [simp]:
  "wt_webhooks (moveToDeadLetter_webhook now i r m t) = wt_webhooks t"
  "js_get (wt_deliveries (moveToDeadLetter_webhook now i r m t)) i =
     map_option (\<lambda>d. d\<lparr>wd_isDeadLetter := True, wd_deadLetterAt := Some now, wd_deadLetterReason := Some r, wd_lastError := Some m,
       wd_status := Delivery_failed, wd_updatedAt := now\<rparr>) (js_get (wt_deliveries t) i)"
  by (simp_all add: moveToDeadLetter_webhook_def)

text \<open>
  What a failed attempt leaves, for any limit of retries: the count of the delivery goes up by one; up to
  the limit it waits for its retry, beyond it is a dead letter; the webhook has one more failure, and is
  enabled only while there are fewer than ten.
\<close>

theorem failure_outcome:
  assumes "js_get (wt_deliveries t) i = Some d" "js_get (wt_webhooks t) w = Some h" "at_updateError a = None"
    and "delivery_failed (Some m) a i w status body t = (r, t')"
  shows "\<exists>d' h'. r = Inr d' \<and> js_get (wt_deliveries t') i = Some d' \<and> js_get (wt_webhooks t') w = Some h' \<and>
     wd_retryCount d' = wd_retryCount d + 1 \<and>
     (if wd_retryCount d < m then wd_status d' = Delivery_retrying \<and> wd_scheduledAt d' = at_now a + 1000 * retry_delay (wd_retryCount d + 1) \<and>
        wd_isDeadLetter d' = wd_isDeadLetter d
      else wd_status d' = Delivery_failed \<and> wd_isDeadLetter d') \<and>
     wh_failureCount h' = wh_failureCount h + 1 \<and> (wh_enabled h' \<longleftrightarrow> wh_failureCount h' < 10)"
  using assms(1-3) assms(4) [symmetric]
  by (cases "wd_retryCount d < m") (auto simp: delivery_failed_def Let_def exceeds_def not_beyond_def DISABLE_THRESHOLD_def)

text \<open>The retries of a delivery spread over eight hours: 30 seconds, 5 and 30 minutes, 2 and 6 hours.\<close>

theorem retry_schedule: "map retry_delay [1..5] = [30, 300, 1800, 7200, 21600]" "5 < n \<Longrightarrow> retry_delay n = 21600"
  by (simp_all add: retry_delay_def upto.simps Let_def)

section \<open>Deliveries that are not sent\<close>

text \<open>
  No delivery is ever sent.  The module does not bind the names of the check of the URL, so every attempt
  ends in an exception before the request: nothing changes, and the delivery stays pending.
\<close>

theorem nothing_is_delivered:
  "sendDelivery env a i t = (Inl (if js_get (wt_deliveries t) i \<noteq> None \<and> js_get (wt_webhooks t) (wd_webhookId (the (js_get (wt_deliveries t) i))) \<noteq> None
     then ''SSRFError is not defined'' else ''Delivery '' @ i @ '' not found''), t)"
  by (auto simp: sendDelivery_def attempt_delivery_def Let_def split: option.split)

text \<open>
  Were it sent, one failure would be the end: there is no limit of retries to compare the count with, so a
  failed delivery is neither retried nor a dead letter.
\<close>

theorem failure_is_final:
  assumes "js_get (wt_deliveries t) i = Some d" "at_updateError a = None" "handleDeliveryFailure a i w status body t = (r, t')"
  shows "\<exists>d'. r = Inr d' \<and> js_get (wt_deliveries t') i = Some d' \<and> wd_status d' = Delivery_failed \<and> wd_isDeadLetter d' = wd_isDeadLetter d"
    and "js_wf (wt_deliveries t') \<Longrightarrow> i \<notin> set (processRetries_webhook None later t')"
proof -
  show *: "\<exists>d'. r = Inr d' \<and> js_get (wt_deliveries t') i = Some d' \<and> wd_status d' = Delivery_failed \<and> wd_isDeadLetter d' = wd_isDeadLetter d"
    using assms(1,2) assms(3) [symmetric]
    by (auto simp: handleDeliveryFailure_def delivery_failed_def Let_def exceeds_def not_beyond_def MAX_RETRIES_webhook_def)
  show "i \<notin> set (processRetries_webhook None later t')" if "js_wf (wt_deliveries t')"
  proof
    assume "i \<in> set (processRetries_webhook None later t')"
    then obtain b where "(i, b) \<in> set (wt_deliveries t')" "wd_status b = Delivery_retrying" by (auto simp: processRetries_webhook_def)
    then have "js_get (wt_deliveries t') i = Some b" using that by (simp add: js_get_def js_wf_def)
    then show False using * \<open>wd_status b = Delivery_retrying\<close> by auto
  qed
qed

section \<open>Replays\<close>

definition wit_hooks :: webhook_tables where
  "wit_hooks = \<lparr>wt_webhooks = [(''w'', \<lparr>wh_userId = ''u'', wh_url = ''https'', wh_secret = ''s'', wh_events = [''e''], wh_enabled = True,
       wh_failureCount = 0, wh_createdAt = 0, wh_updatedAt = 0\<rparr>),
     (''v'', \<lparr>wh_userId = ''o'', wh_url = ''https'', wh_secret = ''s'', wh_events = [''e''], wh_enabled = True,
       wh_failureCount = 0, wh_createdAt = 0, wh_updatedAt = 0\<rparr>)], wt_deliveries = [], wt_replays = [], wt_sent = [], wt_security = []\<rparr>"

definition wit_hook_env :: webhook_env where
  "wit_hook_env = \<lparr>we_hmac = \<lambda>k s. k @ s, we_number = \<lambda>_. []\<rparr>"

lemma put_replay_get [simp]: "js_get (wt_replays (put_replay i h t)) k = (if k = i then map_option h (js_get (wt_replays t) i) else js_get (wt_replays t) k)"
  by (auto simp: put_replay_def split: option.split)

lemma replay_succeeded_simps:
  assumes "js_get (wt_deliveries t) j = Some d" "js_get (wt_webhooks t) (wd_webhookId d) = Some w"
  shows "wt_sent (replay_succeeded now j status text t) = wt_sent t" "wt_replays (replay_succeeded now j status text t) = wt_replays t"
    and "\<exists>d'. js_get (wt_deliveries (replay_succeeded now j status text t)) j = Some d' \<and> wd_status d' = Delivery_success \<and>
      wd_isDeadLetter d' = wd_isDeadLetter d"
    and "\<exists>w'. js_get (wt_webhooks (replay_succeeded now j status text t)) (wd_webhookId d) = Some w' \<and> wh_enabled w'"
  using assms by (auto simp: replay_succeeded_def Let_def put_delivery_def)

text \<open>
  A replay that is answered sends the delivery once more, whatever its status: one that has succeeded can be
  executed again.  The delivery stays where it is among the dead letters, and the webhook is enabled even if
  its user has disabled it.
\<close>

theorem replay_repeats:
  assumes "js_get (wt_replays t) i = Some r" "js_get (wt_deliveries t) (dr_deliveryId r) = Some d"
    and "js_get (wt_webhooks t) (wd_webhookId d) = Some w" "wh_userId w = u"
    and "ra_check a = Check_passes" "ra_fetch a = Fetch_answers status text" "http_ok status" "ra_updateError a = None"
    and "t' = snd (executeDeadLetterReplay env a u i t)"
  shows "length (wt_sent t') = length (wt_sent t) + 1"
    and "map_option dr_status (js_get (wt_replays t') i) = Some Replay_success"
    and "\<exists>d'. js_get (wt_deliveries t') (dr_deliveryId r) = Some d' \<and> wd_status d' = Delivery_success \<and> wd_isDeadLetter d' = wd_isDeadLetter d"
    and "\<exists>w'. js_get (wt_webhooks t') (wd_webhookId d) = Some w' \<and> wh_enabled w'"
proof -
  define t3 where "t3 = put_replay i (\<lambda>r. r\<lparr>dr_responseCode := Some status, dr_responseBody := Some (take 1000 text),
      dr_completedAt := Some (ra_now a), dr_status := Replay_success, dr_error := dr_error r\<rparr>)
    (post_request env (Some i) w (wd_payload d) (put_replay i (\<lambda>r. r\<lparr>dr_status := Replay_processing\<rparr>) t))"
  have t': "t' = replay_succeeded (ra_now a) (dr_deliveryId r) status text t3"
    using assms by (simp add: executeDeadLetterReplay_def executeReplay_def Let_def t3_def)
  have t3: "js_get (wt_deliveries t3) (dr_deliveryId r) = Some d" "js_get (wt_webhooks t3) (wd_webhookId d) = Some w"
    "length (wt_sent t3) = length (wt_sent t) + 1" "map_option dr_status (js_get (wt_replays t3) i) = Some Replay_success"
    using assms(1-3) by (simp_all add: t3_def post_request_def)
  note s = replay_succeeded_simps [OF t3(1,2)]
  show "length (wt_sent t') = length (wt_sent t) + 1" "map_option dr_status (js_get (wt_replays t') i) = Some Replay_success"
    using t3(3,4) by (simp_all add: t' s(1,2))
  show "\<exists>d'. js_get (wt_deliveries t') (dr_deliveryId r) = Some d' \<and> wd_status d' = Delivery_success \<and> wd_isDeadLetter d' = wd_isDeadLetter d"
    "\<exists>w'. js_get (wt_webhooks t') (wd_webhookId d) = Some w' \<and> wh_enabled w'"
    unfolding t' by (rule s(3), rule s(4))
qed

text \<open>
  An idempotency key stands for one replay of the whole table: a request with a key that is taken is answered
  with the replay that has it, of whatever delivery and user that is.
\<close>

theorem replay_key_shared:
  assumes "js_get (wt_deliveries t) j = Some d" "owned_delivery u t d" "wd_isDeadLetter d" "find_replay k t = Some (i, r)" "k \<noteq> []"
  shows "createReplayRequest None now new random j u (Some k) t = (Inr (i, r), t)"
  using assms by (simp add: createReplayRequest_def)

text \<open>A webhook that its user enables again keeps its failures: the next one disables it.\<close>

theorem enabled_again_fails_once:
  assumes "own_webhook u w t = Some h" "9 \<le> wh_failureCount h"
    and "t' = snd (updateWebhook None now u w \<lparr>wu_url = None, wu_events = None, wu_enabled = Some True\<rparr> t)"
  shows "map_option wh_enabled (js_get (wt_webhooks t') w) = Some True" "map_option wh_enabled (js_get (wt_webhooks (count_failure w t')) w) = Some False"
  using assms by (simp_all add: updateWebhook_def given_def DISABLE_THRESHOLD_def Let_def)

section \<open>Witnesses\<close>

theorem dispatch_exact_witness:
  "let (started, t) = dispatchEvent None (\<lambda>_. None) 5 (\<lambda>w. ''d'' @ w) ''r'' None ''u'' ''e'' JNull wit_hooks
   in set started = {''dw''} \<and> wt_webhooks t = wt_webhooks wit_hooks"
proof -
  obtain started t where r: "dispatchEvent None (\<lambda>_. None) 5 (\<lambda>w. ''d'' @ w) ''r'' None ''u'' ''e'' JNull wit_hooks = (started, t)" by fastforce
  have wf: "js_wf (wt_webhooks wit_hooks)" by (simp add: wit_hooks_def js_wf_def)
  have fresh: "\<forall>w. js_get (wt_deliveries wit_hooks) (''d'' @ w) = None" by (simp add: wit_hooks_def)
  have inj: "inj (\<lambda>w. ''d'' @ w)" by (simp add: inj_def)
  have p: "(\<exists>h. js_get (wt_webhooks wit_hooks) w = Some h \<and> wh_userId h = ''u'' \<and> wh_enabled h \<and> ''e'' \<in> set (wh_events h)) \<longleftrightarrow> w = ''w''" for w
    by (cases "w = ''w''"; cases "w = ''v''") (simp_all add: wit_hooks_def js_get_def)
  have "set started = {''dw''}"
    using dispatch_exact(1) [OF wf inj fresh r] unfolding p by simp
  moreover have "wt_webhooks t = wt_webhooks wit_hooks" by (rule dispatch_exact(4) [OF wf inj fresh r])
  ultimately show ?thesis using r by simp
qed

theorem others_untouched_witness:
  "js_get (wt_webhooks (snd (deleteWebhook None ''u'' ''v'' wit_hooks))) ''v'' = js_get (wt_webhooks wit_hooks) ''v''"
proof -
  have s: "(user_op wit_hook_env ''u'')\<^sup>*\<^sup>* wit_hooks (snd (deleteWebhook None ''u'' ''v'' wit_hooks))"
    by (rule r_into_rtranclp) (rule User_delete)
  have "foreign ''u'' wit_hooks ''v''" by (simp add: foreign_def wit_hooks_def js_get_def)
  then show ?thesis using others_untouched [OF s] by blast
qed

end
