(* ===== verification/WebhookIngest.thy ===== *)
theory WebhookIngest
  imports JsonParse
begin

text \<open>
  Inbound webhooks (\<open>backend/src/services/webhook-ingestion.ts\<close>, \<open>payment-webhook-verification.ts\<close>,
  \<open>webhook-signature-alert-service.ts\<close>, the routes): a delivery of a provider is verified, stored once under
  its provider and event id, acknowledged, and processed from the stored row with retries, dead letters and
  replays.  The library of Stripe and the service of PayPal are answers, hashes are functions; a handler is its
  outcome; whether a statement reaches the database is an argument of the operation.
\<close>

datatype webhook_provider = Stripe | Paypal | Paystack | Telegram

section \<open>Alerts about bad signatures\<close>

record failure_state =
  fs_timestamps :: "millis list"
  fs_lastAlertAt :: "millis option"

record signature_alerts =
  sa_failures :: "(webhook_provider, failure_state) jsmap"
  sa_alerts :: "(webhook_provider \<times> millis) list"

definition FAILURE_WINDOW_MS :: millis where
  "FAILURE_WINDOW_MS = 3600000"

record alert_config =
  al_threshold :: nat
  al_cooldownMs :: millis

definition recordFailure :: "alert_config \<Rightarrow> millis \<Rightarrow> webhook_provider \<Rightarrow> signature_alerts \<Rightarrow> signature_alerts" where
  "recordFailure cfg now p s =
     (let st = (case js_get (sa_failures s) p of None \<Rightarrow> \<lparr>fs_timestamps = [], fs_lastAlertAt = None\<rparr> | Some st \<Rightarrow> st);
          ts = filter (\<lambda>x. now - x < FAILURE_WINDOW_MS) (fs_timestamps st @ [now]);
          due = (al_threshold cfg \<le> length ts \<and>
            (case fs_lastAlertAt st of None \<Rightarrow> True | Some l \<Rightarrow> l = 0 \<or> al_cooldownMs cfg < now - l));
          st' = \<lparr>fs_timestamps = ts, fs_lastAlertAt = (if due then Some now else fs_lastAlertAt st)\<rparr>
      in s\<lparr>sa_failures := js_set p st' (sa_failures s), sa_alerts := (if due then sa_alerts s @ [(p, now)] else sa_alerts s)\<rparr>)"

definition recordSuccess :: "webhook_provider \<Rightarrow> signature_alerts \<Rightarrow> signature_alerts" where
  "recordSuccess p s =
     (case js_get (sa_failures s) p of None \<Rightarrow> s | Some st \<Rightarrow> s\<lparr>sa_failures := js_set p (st\<lparr>fs_timestamps := []\<rparr>) (sa_failures s)\<rparr>)"

definition getFailureCount :: "millis \<Rightarrow> webhook_provider \<Rightarrow> signature_alerts \<Rightarrow> nat" where
  "getFailureCount now p s =
     (case js_get (sa_failures s) p of None \<Rightarrow> 0 | Some st \<Rightarrow> length (filter (\<lambda>x. now - x < FAILURE_WINDOW_MS) (fs_timestamps st)))"

section \<open>Verification\<close>

record verification =
  vf_valid :: bool
  vf_event :: "json option"
  vf_error :: "string option"

definition verified :: "json option \<Rightarrow> verification" where
  "verified event = \<lparr>vf_valid = True, vf_event = event, vf_error = None\<rparr>"

definition unverified :: "string \<Rightarrow> verification" where
  "unverified e = \<lparr>vf_valid = False, vf_event = None, vf_error = Some e\<rparr>"

text \<open>What is told to the alerts, in order.\<close>

datatype signature_signal = Signature_failure | Signature_success

datatype paypal_answer = Paypal_throws string | Paypal_refuses | Paypal_answers string

record ingest_env =
  iv_production :: bool
  iv_stripeSecret :: "string option"
  iv_paystackSecret :: "string option"
  iv_telegramSecret :: "string option"
  iv_paypalWebhookId :: "string option"
  iv_paypalClientId :: "string option"
  iv_paypalClientSecret :: "string option"
  iv_maxAttempts :: int
  iv_alerts :: alert_config
  iv_constructEvent :: "string \<Rightarrow> string \<Rightarrow> string \<Rightarrow> string + json"
  iv_hmac512 :: "string \<Rightarrow> string \<Rightarrow> string"
  iv_read :: "string \<Rightarrow> amount option"
  iv_number :: "amount \<Rightarrow> string"
  iv_syntaxError :: "string \<Rightarrow> string"
  iv_paypalToken :: paypal_answer
  iv_paypalVerify :: "string \<Rightarrow> paypal_answer"

record webhook_delivery_request =
  dq_body :: string
  dq_header :: "string \<Rightarrow> string option"
  dq_ip :: "string option"

definition given_text :: "string option \<Rightarrow> string option" where
  "given_text x = (case x of Some s \<Rightarrow> if s = [] then None else Some s | None \<Rightarrow> None)"

definition verifyStripeWebhook :: "ingest_env \<Rightarrow> string \<Rightarrow> string option \<Rightarrow> verification \<times> signature_signal list" where
  "verifyStripeWebhook env body signature =
     (case (given_text signature, given_text (iv_stripeSecret env)) of
        (Some sig, Some secret) \<Rightarrow>
          (case iv_constructEvent env body sig secret of
             Inr event \<Rightarrow> (verified (Some event), [Signature_success])
           | Inl e \<Rightarrow> (unverified e, [Signature_failure]))
      | _ \<Rightarrow> (unverified ''Missing stripe-signature header or STRIPE_WEBHOOK_SECRET'', [Signature_failure]))"

text \<open>
  The bytes of two hexadecimal texts, which are read up to the first character that is no digit; different
  lengths are an exception.
\<close>

definition verifyPaystackWebhook :: "ingest_env \<Rightarrow> string \<Rightarrow> string option \<Rightarrow> verification \<times> signature_signal list" where
  "verifyPaystackWebhook env body signature =
     (case given_text (iv_paystackSecret env) of
        None \<Rightarrow>
          if iv_production env then (unverified ''PAYSTACK_SECRET_KEY not configured'', [Signature_failure])
          else (verified None, [])
      | Some secret \<Rightarrow>
          (case given_text signature of
             None \<Rightarrow> (unverified ''Missing x-paystack-signature header'', [Signature_failure])
           | Some sig \<Rightarrow>
               (let hash = hex_decode (iv_hmac512 env secret body); given = hex_decode sig
                in if length hash \<noteq> length given then (unverified ''Input buffers must have the same byte length'', [Signature_failure])
                   else if hash \<noteq> given then (unverified ''Signature mismatch'', [Signature_failure])
                   else (case json_parse (iv_read env) body of
                           Some event \<Rightarrow> (verified (Some event), [Signature_success])
                         | None \<Rightarrow> (unverified (iv_syntaxError env body), [Signature_success, Signature_failure])))))"

text \<open>An exception of the parser outside of the handler ends the verification without a result.\<close>

definition verifyPayPalWebhook ::
    "ingest_env \<Rightarrow> string \<Rightarrow> (string \<Rightarrow> string option) \<Rightarrow> (string + verification) \<times> signature_signal list" where
  "verifyPayPalWebhook env body header =
     (case given_text (iv_paypalWebhookId env) of
        None \<Rightarrow>
          if iv_production env then (Inr (unverified ''PAYPAL_WEBHOOK_ID not configured''), [Signature_failure])
          else (case json_parse (iv_read env) body of
                  Some event \<Rightarrow> (Inr (verified (Some event)), [])
                | None \<Rightarrow> (Inl (iv_syntaxError env body), []))
      | Some webhookId \<Rightarrow>
          if list_ex (\<lambda>h. given_text (header h) = None)
               [''paypal-transmission-id'', ''paypal-transmission-time'', ''paypal-cert-url'', ''paypal-auth-algo'', ''paypal-transmission-sig'']
          then (Inr (unverified ''Missing PayPal transmission headers''), [Signature_failure])
          else if given_text (iv_paypalClientId env) = None \<or> given_text (iv_paypalClientSecret env) = None
          then (Inr (unverified ''PayPal credentials not configured''), [Signature_failure])
          else
            (case iv_paypalToken env of
               Paypal_throws e \<Rightarrow> (Inr (unverified e), [Signature_failure])
             | Paypal_refuses \<Rightarrow> (Inr (unverified ''Failed to obtain PayPal access token''), [Signature_failure])
             | Paypal_answers token \<Rightarrow>
                 (case json_parse (iv_read env) body of
                    None \<Rightarrow> (Inr (unverified (iv_syntaxError env body)), [Signature_failure])
                  | Some event \<Rightarrow>
                      (case iv_paypalVerify env body of
                         Paypal_throws e \<Rightarrow> (Inr (unverified e), [Signature_failure])
                       | Paypal_refuses \<Rightarrow> (Inr (unverified ''PayPal signature verification API failed''), [Signature_failure])
                       | Paypal_answers status \<Rightarrow>
                           if status \<noteq> ''SUCCESS''
                           then (Inr (unverified ''PayPal verification_status !== SUCCESS''), [Signature_failure])
                           else (Inr (verified (Some event)), [Signature_success])))))"

definition verifyTelegramWebhook :: "ingest_env \<Rightarrow> string option \<Rightarrow> string \<Rightarrow> verification \<times> signature_signal list" where
  "verifyTelegramWebhook env header body =
     (case given_text (iv_telegramSecret env) of
        None \<Rightarrow>
          if iv_production env then (unverified ''TELEGRAM_WEBHOOK_SECRET not configured'', [Signature_failure])
          else (verified None, [])
      | Some secret \<Rightarrow>
          (case given_text header of
             None \<Rightarrow> (unverified ''Missing X-Telegram-Bot-Api-Secret-Token header'', [Signature_failure])
           | Some h \<Rightarrow>
               if \<not> (length secret = length h \<and> secret = h) then (unverified ''Telegram secret token mismatch'', [Signature_failure])
               else (verified (json_parse (iv_read env) body), [Signature_success])))"

section \<open>Adapters\<close>

fun member :: "string \<Rightarrow> json option \<Rightarrow> json option" where
  "member k (Some (JObj kvs)) = map_of kvs k"
| "member k _ = None"

fun json_truthy :: "json option \<Rightarrow> bool" where
  "json_truthy None = False"
| "json_truthy (Some JNull) = False"
| "json_truthy (Some (JBool b)) = b"
| "json_truthy (Some (JNum x)) = (x \<noteq> 0)"
| "json_truthy (Some (JStr s)) = (s \<noteq> [])"
| "json_truthy (Some _) = True"

text \<open>A value in a column of text: strings as they are, other values as JSON.\<close>

definition column_text :: "ingest_env \<Rightarrow> json \<Rightarrow> string" where
  "column_text env v = (case v of JStr s \<Rightarrow> s | _ \<Rightarrow> json_stringify (iv_number env) v)"

definition id_text :: "ingest_env \<Rightarrow> json option \<Rightarrow> string option" where
  "id_text env v = (if json_truthy v then map_option (column_text env) v else None)"

definition extractEventId :: "ingest_env \<Rightarrow> webhook_provider \<Rightarrow> json option \<Rightarrow> string option" where
  "extractEventId env p event =
     (case p of
        Paystack \<Rightarrow> id_text env (member ''reference'' (member ''data'' event))
      | Telegram \<Rightarrow>
          (case member ''update_id'' event of
             None \<Rightarrow> None
           | Some JNull \<Rightarrow> None
           | Some v \<Rightarrow> given_text (Some (column_text env v)))
      | _ \<Rightarrow> id_text env (member ''id'' event))"

definition type_text :: "ingest_env \<Rightarrow> json option \<Rightarrow> string" where
  "type_text env v = (case v of None \<Rightarrow> ''unknown'' | Some JNull \<Rightarrow> ''unknown'' | Some x \<Rightarrow> column_text env x)"

definition extractEventType :: "ingest_env \<Rightarrow> webhook_provider \<Rightarrow> json option \<Rightarrow> string" where
  "extractEventType env p event =
     (case p of
        Stripe \<Rightarrow> type_text env (member ''type'' event)
      | Paypal \<Rightarrow> type_text env (member ''event_type'' event)
      | Paystack \<Rightarrow> type_text env (member ''event'' event)
      | Telegram \<Rightarrow>
          if json_truthy (member ''message'' event) then ''message''
          else if json_truthy (member ''callback_query'' event) then ''callback_query''
          else if json_truthy (member ''edited_message'' event) then ''edited_message''
          else ''unknown'')"

definition verify_delivery :: "ingest_env \<Rightarrow> webhook_provider \<Rightarrow> webhook_delivery_request \<Rightarrow> (string + verification) \<times> signature_signal list" where
  "verify_delivery env p rq =
     (case p of
        Stripe \<Rightarrow> map_prod Inr id (verifyStripeWebhook env (dq_body rq) (dq_header rq ''stripe-signature''))
      | Paypal \<Rightarrow> verifyPayPalWebhook env (dq_body rq) (dq_header rq)
      | Paystack \<Rightarrow> map_prod Inr id (verifyPaystackWebhook env (dq_body rq) (dq_header rq ''x-paystack-signature''))
      | Telegram \<Rightarrow> map_prod Inr id (verifyTelegramWebhook env (dq_header rq ''x-telegram-bot-api-secret-token'') (dq_body rq)))"

definition rejectionStatus :: "webhook_provider \<Rightarrow> int" where
  "rejectionStatus p = (case p of Stripe \<Rightarrow> 400 | Paypal \<Rightarrow> 401 | Paystack \<Rightarrow> 400 | Telegram \<Rightarrow> 403)"

definition rejectionMessage :: "webhook_provider \<Rightarrow> string" where
  "rejectionMessage p =
     (case p of Paypal \<Rightarrow> ''Invalid signature'' | Telegram \<Rightarrow> ''Invalid secret token'' | _ \<Rightarrow> ''Webhook signature verification failed'')"

section \<open>The stored events\<close>

datatype event_status = Event_pending | Event_processing | Event_processed | Event_failed | Event_dead_letter

record stored_event =
  se_provider :: webhook_provider
  se_eventId :: string
  se_eventType :: string
  se_eventData :: "json option"
  se_status :: event_status
  se_attempts :: int
  se_processed :: bool
  se_processedAt :: "millis option"
  se_lastError :: "string option"
  se_nextAttemptAt :: "millis option"
  se_createdAt :: millis

record rejection_row =
  rj_provider :: webhook_provider
  rj_reason :: string
  rj_httpStatus :: int
  rj_ip :: "string option"
  rj_bytes :: nat

datatype process_status = Proc_processed | Proc_skipped | Proc_failed | Proc_dead_letter | Proc_not_found

record replay_row =
  ry_eventId :: ident
  ry_by :: "string option"
  ry_reason :: "string option"
  ry_outcome :: process_status
  ry_error :: "string option"

text \<open>\<open>ig_calls\<close> is the history of calls of handlers.\<close>

record ingest_state =
  ig_events :: "(ident, stored_event) jsmap"
  ig_rejections :: "rejection_row list"
  ig_replays :: "replay_row list"
  ig_handlers :: "(string, string) jsmap"
  ig_alerts :: signature_alerts
  ig_calls :: "ident list"

definition provider_name :: "webhook_provider \<Rightarrow> string" where
  "provider_name p = (case p of Stripe \<Rightarrow> ''stripe'' | Paypal \<Rightarrow> ''paypal'' | Paystack \<Rightarrow> ''paystack'' | Telegram \<Rightarrow> ''telegram'')"

definition handlerKey :: "webhook_provider \<Rightarrow> string \<Rightarrow> string" where
  "handlerKey p eventType = provider_name p @ '':'' @ eventType"

definition registerWebhookHandler :: "webhook_provider \<Rightarrow> string \<Rightarrow> string \<Rightarrow> ingest_state \<Rightarrow> ingest_state" where
  "registerWebhookHandler p eventType h s = s\<lparr>ig_handlers := js_set (handlerKey p eventType) h (ig_handlers s)\<rparr>"

definition getWebhookHandler :: "webhook_provider \<Rightarrow> string \<Rightarrow> ingest_state \<Rightarrow> string option" where
  "getWebhookHandler p eventType s = js_get (ig_handlers s) (handlerKey p eventType)"

text \<open>The registrations at the start of the server.\<close>

definition registerWebhookHandlers :: "ingest_state \<Rightarrow> ingest_state" where
  "registerWebhookHandlers s =
     registerWebhookHandler Telegram ''edited_message'' ''handleTelegramMessage''
       (registerWebhookHandler Telegram ''message'' ''handleTelegramMessage''
         (registerWebhookHandler Paystack ''charge.success'' ''handlePaystackChargeSuccess'' s))"

definition find_event :: "webhook_provider \<Rightarrow> string \<Rightarrow> ingest_state \<Rightarrow> (ident \<times> stored_event) option" where
  "find_event p eventId s = List.find (\<lambda>(_, e). se_provider e = p \<and> se_eventId e = eventId) (ig_events s)"

definition put_event :: "ident \<Rightarrow> (stored_event \<Rightarrow> stored_event) \<Rightarrow> ingest_state \<Rightarrow> ingest_state" where
  "put_event i f s = (case js_get (ig_events s) i of None \<Rightarrow> s | Some e \<Rightarrow> s\<lparr>ig_events := js_set i (f e) (ig_events s)\<rparr>)"

definition signal_alerts :: "ingest_env \<Rightarrow> millis \<Rightarrow> webhook_provider \<Rightarrow> signature_signal list \<Rightarrow> ingest_state \<Rightarrow> ingest_state" where
  "signal_alerts env now p sigs s =
     s\<lparr>ig_alerts := fold (\<lambda>sig a. case sig of Signature_failure \<Rightarrow> recordFailure (iv_alerts env) now p a
                                           | Signature_success \<Rightarrow> recordSuccess p a) sigs (ig_alerts s)\<rparr>"

section \<open>Ingestion\<close>

text \<open>
  What the insert does: it stores the row under a new id and answers it; it fails; its answer is lost,
  although the row is stored; it answers no row.
\<close>

datatype insert_result = Insert_stores ident | Insert_fails string | Insert_unanswered ident string | Insert_empty

datatype ingest_outcome =
    Ingest_rejected int string
  | Ingest_malformed string
  | Ingest_duplicate string
  | Ingest_accepted string ident
  | Ingest_not_stored string

definition auditRejection :: "bool \<Rightarrow> webhook_provider \<Rightarrow> string \<Rightarrow> int \<Rightarrow> webhook_delivery_request \<Rightarrow> ingest_state \<Rightarrow> ingest_state" where
  "auditRejection lands p reason status rq s =
     (if lands then s\<lparr>ig_rejections := ig_rejections s @
        [\<lparr>rj_provider = p, rj_reason = reason, rj_httpStatus = status, rj_ip = dq_ip rq, rj_bytes = length (dq_body rq)\<rparr>]\<rparr> else s)"

definition new_event :: "millis \<Rightarrow> webhook_provider \<Rightarrow> string \<Rightarrow> string \<Rightarrow> json option \<Rightarrow> stored_event" where
  "new_event now p eventId eventType event =
     \<lparr>se_provider = p, se_eventId = eventId, se_eventType = eventType, se_eventData = event, se_status = Event_pending, se_attempts = 0,
      se_processed = False, se_processedAt = None, se_lastError = None, se_nextAttemptAt = None, se_createdAt = now\<rparr>"

definition store_event :: "insert_result \<Rightarrow> millis \<Rightarrow> webhook_provider \<Rightarrow> string \<Rightarrow> string \<Rightarrow> json option \<Rightarrow> ingest_state \<Rightarrow> ingest_outcome \<times> ingest_state" where
  "store_event ins now p eventId eventType event s =
     (let stored = (\<lambda>i. s\<lparr>ig_events := js_set i (new_event now p eventId eventType event) (ig_events s)\<rparr>);
          taken = find_event p eventId s \<noteq> None
      in case ins of
           Insert_fails e \<Rightarrow> (Ingest_not_stored e, s)
         | Insert_empty \<Rightarrow> (if taken then (Ingest_duplicate eventId, s) else (Ingest_not_stored ''insert returned no row'', s))
         | Insert_unanswered i e \<Rightarrow> (Ingest_not_stored e, if taken then s else stored i)
         | Insert_stores i \<Rightarrow> (if taken then (Ingest_duplicate eventId, s) else (Ingest_accepted eventId i, stored i)))"

text \<open>The outcome, or the exception of the verification; an accepted event is handed to the processing.\<close>

definition ingestWebhook ::
    "ingest_env \<Rightarrow> bool \<Rightarrow> insert_result \<Rightarrow> millis \<Rightarrow> webhook_provider \<Rightarrow> webhook_delivery_request \<Rightarrow> ingest_state \<Rightarrow>
     (string + ingest_outcome) \<times> ingest_state" where
  "ingestWebhook env audited ins now p rq s =
     (let (v, sigs) = verify_delivery env p rq; s1 = signal_alerts env now p sigs s
      in case v of
           Inl e \<Rightarrow> (Inl e, s1)
         | Inr vf \<Rightarrow>
             if \<not> vf_valid vf
             then (let reason = (case vf_error vf of None \<Rightarrow> ''signature_verification_failed'' | Some e \<Rightarrow> e)
                   in (Inr (Ingest_rejected (rejectionStatus p) reason), auditRejection audited p reason (rejectionStatus p) rq s1))
             else
               (case extractEventId env p (vf_event vf) of
                  None \<Rightarrow> (Inr (Ingest_malformed ''missing_event_id''), auditRejection audited p ''missing_event_id'' 400 rq s1)
                | Some eventId \<Rightarrow>
                    map_prod Inr id (store_event ins now p eventId (extractEventType env p (vf_event vf)) (vf_event vf) s1)))"

text \<open>The status a provider is answered with, and what Telegram is answered with.\<close>

definition ingest_status :: "string + ingest_outcome \<Rightarrow> int" where
  "ingest_status r =
     (case r of
        Inl _ \<Rightarrow> 503
      | Inr (Ingest_rejected status _) \<Rightarrow> status
      | Inr (Ingest_malformed _) \<Rightarrow> 400
      | Inr (Ingest_duplicate _) \<Rightarrow> 200
      | Inr (Ingest_accepted _ _) \<Rightarrow> 202
      | Inr (Ingest_not_stored _) \<Rightarrow> 503)"

definition telegram_status :: "string + ingest_outcome \<Rightarrow> int" where
  "telegram_status r =
     (case r of
        Inl _ \<Rightarrow> 503
      | Inr (Ingest_rejected status _) \<Rightarrow> status
      | Inr (Ingest_not_stored _) \<Rightarrow> 503
      | Inr _ \<Rightarrow> 200)"

section \<open>Processing\<close>

definition backoffMs :: "int \<Rightarrow> int" where
  "backoffMs attempts = min (2 ^ nat attempts * 1000) (15 * 60 * 1000)"

definition markProcessed :: "bool \<Rightarrow> millis \<Rightarrow> ident \<Rightarrow> int \<Rightarrow> ingest_state \<Rightarrow> ingest_state" where
  "markProcessed lands now i attempts s =
     (if lands then put_event i (\<lambda>e. e\<lparr>se_status := Event_processed, se_processed := True, se_processedAt := Some now, se_attempts := attempts,
        se_lastError := None, se_nextAttemptAt := None\<rparr>) s else s)"

text \<open>Up to the call of the handler: a result, or the attempt that is now running.\<close>

definition begin_processing :: "bool \<Rightarrow> millis \<Rightarrow> bool \<Rightarrow> ident \<Rightarrow> ingest_state \<Rightarrow> (process_status + int) \<times> ingest_state" where
  "begin_processing lands now force i s =
     (case js_get (ig_events s) i of
        None \<Rightarrow> (Inl Proc_not_found, s)
      | Some e \<Rightarrow>
          if se_status e = Event_processed \<and> \<not> force then (Inl Proc_skipped, s)
          else
            (let attempts = se_attempts e + 1
             in if getWebhookHandler (se_provider e) (se_eventType e) s = None
                then (Inl Proc_processed, markProcessed lands now i attempts s)
                else
                  (let s1 = (if lands then put_event i (\<lambda>e. e\<lparr>se_status := Event_processing\<rparr>) s else s)
                   in (Inr attempts, s1\<lparr>ig_calls := ig_calls s1 @ [i]\<rparr>))))"

text \<open>After the handler has returned, or thrown.\<close>

definition finish_processing :: "ingest_env \<Rightarrow> bool \<Rightarrow> millis \<Rightarrow> ident \<Rightarrow> int \<Rightarrow> string option \<Rightarrow> ingest_state \<Rightarrow> process_status \<times> ingest_state" where
  "finish_processing env lands now i attempts thrown s =
     (case thrown of
        None \<Rightarrow> (Proc_processed, markProcessed lands now i attempts s)
      | Some message \<Rightarrow>
          (let exhausted = (iv_maxAttempts env \<le> attempts);
               s1 = (if lands then put_event i (\<lambda>e. e\<lparr>se_status := (if exhausted then Event_dead_letter else Event_failed), se_attempts := attempts,
                      se_lastError := Some message, se_nextAttemptAt := (if exhausted then None else Some (now + backoffMs attempts))\<rparr>) s else s)
           in (if exhausted then Proc_dead_letter else Proc_failed, s1)))"

text \<open>An attempt that nothing interrupts, with what the handler does.\<close>

definition processStoredEvent ::
    "ingest_env \<Rightarrow> bool \<Rightarrow> millis \<Rightarrow> bool \<Rightarrow> (ident \<Rightarrow> string option) \<Rightarrow> ident \<Rightarrow> ingest_state \<Rightarrow> process_status \<times> ingest_state" where
  "processStoredEvent env lands now force handler i s =
     (case begin_processing lands now force i s of
        (Inl r, s1) \<Rightarrow> (r, s1)
      | (Inr attempts, s1) \<Rightarrow> finish_processing env lands now i attempts (handler i) s1)"

text \<open>The events that are due: the oldest first.\<close>

definition due_events :: "millis \<Rightarrow> nat \<Rightarrow> ingest_state \<Rightarrow> ident list" where
  "due_events now limit s =
     take limit (map fst (sort_key (\<lambda>(_, e). se_createdAt e)
       (filter (\<lambda>(_, e). se_status e \<in> {Event_pending, Event_failed} \<and>
          (case se_nextAttemptAt e of None \<Rightarrow> True | Some x \<Rightarrow> x \<le> now)) (ig_events s))))"

fun process_due ::
    "ingest_env \<Rightarrow> bool \<Rightarrow> millis \<Rightarrow> (ident \<Rightarrow> string option) \<Rightarrow> ident list \<Rightarrow> ingest_state \<Rightarrow> nat \<times> ingest_state" where
  "process_due env lands now handler [] s = (0, s)"
| "process_due env lands now handler (i # is) s =
     (let (r, s1) = processStoredEvent env lands now False handler i s; (n, s2) = process_due env lands now handler is s1
      in (if r = Proc_processed then n + 1 else n, s2))"

definition retryDueWebhookEvents ::
    "ingest_env \<Rightarrow> string option \<Rightarrow> bool \<Rightarrow> millis \<Rightarrow> (ident \<Rightarrow> string option) \<Rightarrow> nat \<Rightarrow> ingest_state \<Rightarrow> nat \<times> ingest_state" where
  "retryDueWebhookEvents env dbError lands now handler limit s =
     (if dbError \<noteq> None then (0, s) else process_due env lands now handler (due_events now limit s) s)"

section \<open>Replays by an operator\<close>

record replay_request =
  rr_recordId :: "ident option"
  rr_provider :: "webhook_provider option"
  rr_eventId :: "string option"
  rr_by :: "string option"
  rr_reason :: "string option"

definition replayWebhookEvent ::
    "ingest_env \<Rightarrow> bool \<Rightarrow> bool \<Rightarrow> millis \<Rightarrow> (ident \<Rightarrow> string option) \<Rightarrow> replay_request \<Rightarrow> ingest_state \<Rightarrow>
     (process_status \<times> ident option) \<times> ingest_state" where
  "replayWebhookEvent env lands audited now handler rq s =
     (let target = (case given_text (rr_recordId rq) of
            Some i \<Rightarrow> Some i
          | None \<Rightarrow>
              (case (rr_provider rq, given_text (rr_eventId rq)) of
                 (Some p, Some eventId) \<Rightarrow> map_option fst (find_event p eventId s)
               | _ \<Rightarrow> None))
      in case target of
           None \<Rightarrow> ((Proc_not_found, None), s)
         | Some i \<Rightarrow>
             (let (r, s1) = processStoredEvent env lands now True handler i s
              in ((r, Some i),
                  if audited \<and> r \<noteq> Proc_not_found
                  then s1\<lparr>ig_replays := ig_replays s1 @ [\<lparr>ry_eventId = i, ry_by = rr_by rq, ry_reason = rr_reason rq, ry_outcome = r,
                         ry_error = (case r of Proc_processed \<Rightarrow> None | _ \<Rightarrow> handler i)\<rparr>]\<rparr>
                  else s1)))"

end
