(* ===== verification/WebhookIngestProps.thy ===== *)
theory WebhookIngestProps
  imports WebhookIngest
begin

text \<open>
  What ingestion promises: a delivery that is acknowledged is in the table, once, and stays there; rounds of
  retries bring every waiting event to an end.  And where events are lost or handled twice all the same.
\<close>

section \<open>The table under the operations\<close>

lemma put_event_get [simp]:
  "js_get (ig_events (put_event i f s)) k = (if k = i then map_option f (js_get (ig_events s) i) else js_get (ig_events s) k)"
  by (auto simp: put_event_def split: option.split)

lemma put_event_handlers [simp]: "ig_handlers (put_event i f s) = ig_handlers s"
  by (simp add: put_event_def split: option.split)

lemma put_event_wf [simp]: "js_wf (ig_events s) \<Longrightarrow> js_wf (ig_events (put_event i f s))"
  by (simp add: put_event_def split: option.split)

lemma getWebhookHandler_put [simp]: "getWebhookHandler p t (put_event i f s) = getWebhookHandler p t s"
  by (simp add: getWebhookHandler_def)

text \<open>The identity of an event, which no operation changes.\<close>

definition event_identity :: "stored_event \<Rightarrow> webhook_provider \<times> string \<times> string \<times> json option" where
  "event_identity e = (se_provider e, se_eventId e, se_eventType e, se_eventData e)"

definition identities_kept :: "ingest_state \<Rightarrow> ingest_state \<Rightarrow> bool" where
  "identities_kept s s' \<longleftrightarrow> (\<forall>k. map_option event_identity (js_get (ig_events s') k) = map_option event_identity (js_get (ig_events s) k)) \<and>
     (js_wf (ig_events s) \<longrightarrow> js_wf (ig_events s'))"

lemma identities_kept_refl [simp]: "identities_kept s s"
  by (simp add: identities_kept_def)

lemma identities_kept_trans: "identities_kept s s' \<Longrightarrow> identities_kept s' s'' \<Longrightarrow> identities_kept s s''"
  by (simp add: identities_kept_def)

lemma identities_kept_cong: "ig_events s' = ig_events s \<Longrightarrow> identities_kept s s'"
  by (simp add: identities_kept_def)

lemma identities_kept_put: "(\<And>e. event_identity (f e) = event_identity e) \<Longrightarrow> identities_kept s (put_event i f s)"
  by (auto simp: identities_kept_def option.map_comp comp_def)

lemma markProcessed_kept: "identities_kept s (markProcessed lands now i n s)"
  by (simp add: markProcessed_def identities_kept_put event_identity_def)

lemma begin_processing_kept: "identities_kept s (snd (begin_processing lands now force i s))"
proof (cases "js_get (ig_events s) i")
  case (Some e)
  have put: "identities_kept s (put_event i (\<lambda>e. e\<lparr>se_status := Event_processing\<rparr>) s)" by (rule identities_kept_put) (simp add: event_identity_def)
  have call: "identities_kept s (s'\<lparr>ig_calls := c\<rparr>)" if "identities_kept s s'" for s' c
    using that identities_kept_cong [of "s'\<lparr>ig_calls := c\<rparr>" s'] identities_kept_trans by auto
  show ?thesis using Some put by (simp add: begin_processing_def Let_def markProcessed_kept call)
qed (simp add: begin_processing_def)

lemma finish_processing_kept: "identities_kept s (snd (finish_processing env lands now i n r s))"
proof (cases r)
  case None
  then show ?thesis by (simp add: finish_processing_def markProcessed_kept)
next
  case (Some m)
  then show ?thesis by (cases lands) (simp_all add: finish_processing_def Let_def identities_kept_put event_identity_def)
qed

lemma processStoredEvent_kept: "identities_kept s (snd (processStoredEvent env lands now force h i s))"
proof (cases "begin_processing lands now force i s")
  case (Pair r s1)
  then have k: "identities_kept s s1" using begin_processing_kept [of s lands now force i] by simp
  show ?thesis using Pair k identities_kept_trans [OF k finish_processing_kept] by (cases r) (simp_all add: processStoredEvent_def)
qed

lemma process_due_step:
  "snd (process_due env lands now h (i # is) s) = snd (process_due env lands now h is (snd (processStoredEvent env lands now False h i s)))"
  by (simp add: Let_def split: prod.split)

lemma process_due_kept: "identities_kept s (snd (process_due env lands now h is s))"
proof (induction "is" arbitrary: s)
  case (Cons i "is")
  show ?case unfolding process_due_step by (rule identities_kept_trans [OF processStoredEvent_kept Cons.IH])
qed simp

lemma retry_kept: "identities_kept s (snd (retryDueWebhookEvents env dbe lands now h limit s))"
  by (simp add: retryDueWebhookEvents_def process_due_kept)

lemma replay_kept: "identities_kept s (snd (replayWebhookEvent env lands audited now h rq s))"
proof -
  have a: "identities_kept s (s1\<lparr>ig_replays := r\<rparr>)" if "identities_kept s s1" for s1 r
    by (rule identities_kept_trans [OF that]) (simp add: identities_kept_cong)
  have "identities_kept s s1" if "processStoredEvent env lands now True h i s = (r, s1)" for i r s1
    using processStoredEvent_kept [of s env lands now True h i] that by simp
  then show ?thesis unfolding replayWebhookEvent_def by (auto simp: Let_def intro!: a split: option.split prod.split)
qed

section \<open>Acknowledged events are stored\<close>

definition fresh_insert :: "insert_result \<Rightarrow> ingest_state \<Rightarrow> bool" where
  "fresh_insert ins s \<longleftrightarrow> (case ins of Insert_stores i \<Rightarrow> js_get (ig_events s) i = None | Insert_unanswered i _ \<Rightarrow> js_get (ig_events s) i = None | _ \<Rightarrow> True)"

text \<open>Deliveries, and the processing of events, begun and ended in any order, retried and replayed.\<close>

inductive ingest_step :: "ingest_env \<Rightarrow> ingest_state \<Rightarrow> ingest_state \<Rightarrow> bool" for env where
  Step_deliver: "fresh_insert ins s \<Longrightarrow> ingest_step env s (snd (ingestWebhook env audited ins now p rq s))"
| Step_begin: "ingest_step env s (snd (begin_processing lands now force i s))"
| Step_finish: "ingest_step env s (snd (finish_processing env lands now i n r s))"
| Step_retry: "ingest_step env s (snd (retryDueWebhookEvents env dbe lands now h limit s))"
| Step_replay: "ingest_step env s (snd (replayWebhookEvent env lands audited now h request s))"

definition events_unique :: "ingest_state \<Rightarrow> bool" where
  "events_unique s \<longleftrightarrow> js_wf (ig_events s) \<and>
     (\<forall>i j e f. js_get (ig_events s) i = Some e \<and> js_get (ig_events s) j = Some f \<and> se_provider e = se_provider f \<and> se_eventId e = se_eventId f \<longrightarrow> i = j)"

definition event_stored :: "webhook_provider \<Rightarrow> string \<Rightarrow> ingest_state \<Rightarrow> bool" where
  "event_stored p eventId s \<longleftrightarrow> (\<exists>i e. js_get (ig_events s) i = Some e \<and> se_provider e = p \<and> se_eventId e = eventId)"

lemma kept_identity:
  assumes "identities_kept s s'" "js_get (ig_events s') i = Some e'"
  obtains e where "js_get (ig_events s) i = Some e" "se_provider e = se_provider e'" "se_eventId e = se_eventId e'"
proof -
  have "map_option event_identity (js_get (ig_events s) i) = Some (event_identity e')"
    using assms by (metis identities_kept_def option.simps(9))
  then show ?thesis using that by (auto simp: event_identity_def)
qed

lemma kept_identity_forward:
  assumes "identities_kept s s'" "js_get (ig_events s) i = Some e"
  obtains e' where "js_get (ig_events s') i = Some e'" "se_provider e' = se_provider e" "se_eventId e' = se_eventId e"
proof -
  have "map_option event_identity (js_get (ig_events s') i) = Some (event_identity e)"
    using assms by (metis identities_kept_def option.simps(9))
  then show ?thesis using that by (auto simp: event_identity_def)
qed

lemma events_unique_kept:
  assumes k: "identities_kept s s'" and u: "events_unique s"
  shows "events_unique s'"
  unfolding events_unique_def
proof (intro conjI allI impI; (elim conjE)?)
  show "js_wf (ig_events s')" using k u by (simp add: identities_kept_def events_unique_def)
next
  fix i j e f
  assume a: "js_get (ig_events s') i = Some e" "js_get (ig_events s') j = Some f" "se_provider e = se_provider f" "se_eventId e = se_eventId f"
  obtain e' where e: "js_get (ig_events s) i = Some e'" "se_provider e' = se_provider e" "se_eventId e' = se_eventId e" by (rule kept_identity [OF k a(1)])
  obtain f' where f: "js_get (ig_events s) j = Some f'" "se_provider f' = se_provider f" "se_eventId f' = se_eventId f" by (rule kept_identity [OF k a(2)])
  have "se_provider e' = se_provider f'" "se_eventId e' = se_eventId f'" using a e f by simp_all
  then show "i = j" using u e(1) f(1) unfolding events_unique_def by blast
qed

lemma event_stored_kept: "identities_kept s s' \<Longrightarrow> event_stored p x s \<Longrightarrow> event_stored p x s'"
  unfolding event_stored_def by (auto elim!: kept_identity_forward)

lemma find_event_stored: "js_wf (ig_events s) \<Longrightarrow> find_event p x s \<noteq> None \<longleftrightarrow> event_stored p x s"
proof -
  assume wf: "js_wf (ig_events s)"
  have "find_event p x s \<noteq> None \<longleftrightarrow> (\<exists>(i, e)\<in>set (ig_events s). se_provider e = p \<and> se_eventId e = x)"
    by (auto simp: find_event_def find_None_iff)
  also have "\<dots> \<longleftrightarrow> event_stored p x s"
    using wf by (auto simp: event_stored_def js_get_def js_wf_def)
  finally show ?thesis .
qed

lemma store_event_cases:
  assumes "js_wf (ig_events s)" "fresh_insert ins s"
  shows "(snd (store_event ins now p x t d s) = s \<or>
      (\<exists>i. snd (store_event ins now p x t d s) = s\<lparr>ig_events := js_set i (new_event now p x t d) (ig_events s)\<rparr> \<and>
        js_get (ig_events s) i = None \<and> \<not> event_stored p x s)) \<and>
    (fst (store_event ins now p x t d s) = Ingest_duplicate x \<or> (\<exists>i. fst (store_event ins now p x t d s) = Ingest_accepted x i) \<longrightarrow>
       event_stored p x (snd (store_event ins now p x t d s)))"
  using assms find_event_stored [OF assms(1), of p x]
  by (cases ins) (auto simp: store_event_def Let_def fresh_insert_def event_stored_def new_event_def)

lemma store_event_answers:
  "(\<exists>i. fst (store_event ins now p x t d s) = Ingest_accepted x i) \<or> fst (store_event ins now p x t d s) = Ingest_duplicate x \<or>
   (\<exists>e. fst (store_event ins now p x t d s) = Ingest_not_stored e)"
  by (cases ins) (simp_all add: store_event_def Let_def)

lemma stored_new_event:
  assumes "events_unique s" "js_get (ig_events s) i = None" "\<not> event_stored p x s" "ig_events s' = js_set i (new_event now p x t d) (ig_events s)"
  shows "events_unique s'" "event_stored q y s \<Longrightarrow> event_stored q y s'"
proof -
  have o: "\<not> (se_provider e = p \<and> se_eventId e = x)" if "js_get (ig_events s) k = Some e" for k e
    using assms(3) that by (auto simp: event_stored_def)
  have n: "se_provider (new_event now p x t d) = p \<and> se_eventId (new_event now p x t d) = x" by (simp add: new_event_def)
  show "events_unique s'"
    unfolding events_unique_def
  proof (intro conjI allI impI; (elim conjE)?)
    show "js_wf (ig_events s')" using assms(1,4) by (simp add: events_unique_def)
  next
    fix j k e f
    assume a: "js_get (ig_events s') j = Some e" "js_get (ig_events s') k = Some f" "se_provider e = se_provider f" "se_eventId e = se_eventId f"
    show "j = k"
    proof (cases "j = i \<or> k = i")
      case True
      then show ?thesis using a o [of j e] o [of k f] n assms(4) by (auto split: if_splits)
    next
      case False
      then have "js_get (ig_events s) j = Some e" "js_get (ig_events s) k = Some f" using a assms(4) by auto
      then show ?thesis using assms(1) a(3,4) unfolding events_unique_def by blast
    qed
  qed
  show "event_stored q y s'" if e: "event_stored q y s"
  proof -
    obtain k f where k: "js_get (ig_events s) k = Some f" "se_provider f = q" "se_eventId f = y" using e by (auto simp: event_stored_def)
    then have "k \<noteq> i" using assms(2) by auto
    then have "js_get (ig_events s') k = Some f" using k assms(4) by simp
    then show ?thesis using k unfolding event_stored_def by blast
  qed
qed

lemma ingest_effect:
  fixes env audited now p rq
  assumes "events_unique s" "fresh_insert ins s"
  defines "s' \<equiv> snd (ingestWebhook env audited ins now p rq s)"
  shows "events_unique s' \<and> (event_stored q y s \<longrightarrow> event_stored q y s') \<and>
     (ingest_status (fst (ingestWebhook env audited ins now p rq s)) \<in> {200, 202} \<longrightarrow>
       (\<exists>vf x. fst (verify_delivery env p rq) = Inr vf \<and> vf_valid vf \<and> extractEventId env p (vf_event vf) = Some x \<and> event_stored p x s'))"
proof -
  obtain v sigs where v: "verify_delivery env p rq = (v, sigs)" by fastforce
  define s1 where "s1 = signal_alerts env now p sigs s"
  have s1: "ig_events s1 = ig_events s" by (simp add: s1_def signal_alerts_def)
  then have k1: "identities_kept s s1" by (rule identities_kept_cong)
  have u1: "events_unique s1" by (rule events_unique_kept [OF k1 assms(1)])
  have f1: "fresh_insert ins s1" using assms(2) s1 by (simp add: fresh_insert_def split: insert_result.splits)
  have st: "event_stored q y s1 = event_stored q y s" using s1 by (simp add: event_stored_def)
  consider (kept) "identities_kept s s'" "ingest_status (fst (ingestWebhook env audited ins now p rq s)) \<notin> {200, 202}"
    | (store) vf x t where "v = Inr vf" "vf_valid vf" "extractEventId env p (vf_event vf) = Some x"
       "ingestWebhook env audited ins now p rq s = map_prod Inr id (store_event ins now p x t (vf_event vf) s1)"
  proof (cases v)
    case (Inl e)
    then show ?thesis using that(1) k1 by (simp add: ingestWebhook_def v s'_def s1_def [symmetric] ingest_status_def)
  next
    case (Inr vf)
    have r: "rejectionStatus p \<notin> {200, 202}" by (cases p) (simp_all add: rejectionStatus_def)
    have a: "identities_kept s (auditRejection audited p m st rq s1)" for m st
      by (rule identities_kept_cong) (simp add: auditRejection_def s1)
    show ?thesis
    proof (cases "vf_valid vf")
      case False
      then show ?thesis using that(1) Inr r a by (simp add: ingestWebhook_def v s'_def s1_def [symmetric] ingest_status_def Let_def)
    next
      case True
      show ?thesis
      proof (cases "extractEventId env p (vf_event vf)")
        case None
        then show ?thesis using that(1) Inr True a by (simp add: ingestWebhook_def v s'_def s1_def [symmetric] ingest_status_def)
      next
        case (Some x)
        then show ?thesis using that(2) Inr True by (simp add: ingestWebhook_def v s1_def [symmetric])
      qed
    qed
  qed
  then show ?thesis
  proof cases
    case kept
    then show ?thesis using events_unique_kept [OF kept(1) assms(1)] event_stored_kept [OF kept(1)] by auto
  next
    case (store vf x t)
    define o1 where "o1 = store_event ins now p x t (vf_event vf) s1"
    have wf: "js_wf (ig_events s1)" using u1 by (simp add: events_unique_def)
    note c = store_event_cases [OF wf f1, of now p x t "vf_event vf", folded o1_def]
    have s': "s' = snd o1" and r: "fst (ingestWebhook env audited ins now p rq s) = Inr (fst o1)" using store(4) by (simp_all add: s'_def o1_def)
    have "events_unique s' \<and> (event_stored q y s \<longrightarrow> event_stored q y s')"
    proof (cases "snd o1 = s1")
      case True
      then show ?thesis using u1 st by (simp add: s')
    next
      case False
      then obtain i where i: "snd o1 = s1\<lparr>ig_events := js_set i (new_event now p x t (vf_event vf)) (ig_events s1)\<rparr>"
        "js_get (ig_events s1) i = None" "\<not> event_stored p x s1" using c by blast
      have e: "ig_events s' = js_set i (new_event now p x t (vf_event vf)) (ig_events s1)" using i(1) by (simp add: s')
      show ?thesis using stored_new_event [OF u1 i(2,3) e] st by blast
    qed
    moreover have "event_stored p x s'" if "ingest_status (Inr (fst o1)) \<in> {200, 202}"
    proof -
      have "fst o1 = Ingest_duplicate x \<or> (\<exists>i. fst o1 = Ingest_accepted x i)"
        using that store_event_answers [of ins now p x t "vf_event vf" s1] by (auto simp: ingest_status_def o1_def)
      then show ?thesis using c by (simp add: s')
    qed
    ultimately show ?thesis using store(1-3) r v by auto
  qed
qed

lemma ingest_step_keeps: "ingest_step env s s' \<Longrightarrow> events_unique s \<Longrightarrow> events_unique s' \<and> (event_stored q y s \<longrightarrow> event_stored q y s')"
proof (induction rule: ingest_step.induct)
  case (Step_deliver ins s audited now p rq)
  then show ?case using ingest_effect by blast
next
  case (Step_begin s lands now force i)
  then show ?case using events_unique_kept event_stored_kept begin_processing_kept by blast
next
  case (Step_finish s lands now i n r)
  then show ?case using events_unique_kept event_stored_kept finish_processing_kept by blast
next
  case (Step_retry s dbe lands now h limit)
  then show ?case using events_unique_kept event_stored_kept retry_kept by blast
next
  case (Step_replay s lands audited now h request)
  then show ?case using events_unique_kept event_stored_kept replay_kept by blast
qed

lemma ingest_steps_keep:
  "(ingest_step env)\<^sup>*\<^sup>* s s' \<Longrightarrow> events_unique s \<Longrightarrow> events_unique s' \<and> (event_stored q y s \<longrightarrow> event_stored q y s')"
  by (induction rule: rtranclp_induct) (auto dest: ingest_step_keeps)

text \<open>
  C33: acknowledged is stored.  When the router answers a delivery with 200 or 202, the delivery was verified
  and carries an event id, and from then on the table holds exactly one event with this provider and id, in
  every history of further deliveries, processing in any order, retries and replays.
\<close>

theorem acknowledged_is_stored:
  assumes "ig_events s0 = []" and "(ingest_step env)\<^sup>*\<^sup>* s0 s" and "fresh_insert ins s"
    and "ingestWebhook env audited ins now p rq s = (r, s1)" and "ingest_status r \<in> {200, 202}"
    and "(ingest_step env)\<^sup>*\<^sup>* s1 s2"
  shows "\<exists>vf x. fst (verify_delivery env p rq) = Inr vf \<and> vf_valid vf \<and> extractEventId env p (vf_event vf) = Some x \<and>
     (\<exists>!i. \<exists>e. js_get (ig_events s2) i = Some e \<and> se_provider e = p \<and> se_eventId e = x)"
proof -
  have "events_unique s0" using assms(1) by (simp add: events_unique_def)
  then have u: "events_unique s" using ingest_steps_keep [OF assms(2)] by blast
  note e = ingest_effect [OF u assms(3), of env audited now p rq]
  have u1: "events_unique s1" using e assms(4) by simp
  obtain vf x where vf: "fst (verify_delivery env p rq) = Inr vf" "vf_valid vf" "extractEventId env p (vf_event vf) = Some x" "event_stored p x s1"
  proof -
    have "\<exists>vf x. fst (verify_delivery env p rq) = Inr vf \<and> vf_valid vf \<and> extractEventId env p (vf_event vf) = Some x \<and> event_stored p x s1"
      using e [of p "[]"] assms(4,5) by auto
    then show ?thesis using that by blast
  qed
  have u2: "events_unique s2" "event_stored p x s2" using ingest_steps_keep [OF assms(6) u1] vf(4) by blast+
  then obtain i e where i: "js_get (ig_events s2) i = Some e" "se_provider e = p" "se_eventId e = x" by (auto simp: event_stored_def)
  have "\<exists>!i. \<exists>e. js_get (ig_events s2) i = Some e \<and> se_provider e = p \<and> se_eventId e = x"
  proof (rule ex1I [of _ i])
    show "\<exists>e. js_get (ig_events s2) i = Some e \<and> se_provider e = p \<and> se_eventId e = x" using i by blast
  next
    fix j
    assume "\<exists>e. js_get (ig_events s2) j = Some e \<and> se_provider e = p \<and> se_eventId e = x"
    then obtain f where f: "js_get (ig_events s2) j = Some f" "se_provider f = p" "se_eventId f = x" by blast
    then have "se_provider f = se_provider e" "se_eventId f = se_eventId e" using i by simp_all
    then show "j = i" using u2(1) i(1) f(1) unfolding events_unique_def by blast
  qed
  then show ?thesis using vf by blast
qed


section \<open>Rounds of retries\<close>

text \<open>What an attempt that is not interrupted makes of its event.\<close>

definition attempted :: "ingest_env \<Rightarrow> millis \<Rightarrow> bool \<Rightarrow> string option \<Rightarrow> stored_event \<Rightarrow> stored_event" where
  "attempted env now handled thrown e =
     (case (if handled then thrown else None) of
        None \<Rightarrow> e\<lparr>se_status := Event_processed, se_processed := True, se_processedAt := Some now, se_attempts := se_attempts e + 1,
          se_lastError := None, se_nextAttemptAt := None\<rparr>
      | Some m \<Rightarrow> e\<lparr>se_status := (if iv_maxAttempts env \<le> se_attempts e + 1 then Event_dead_letter else Event_failed),
          se_attempts := se_attempts e + 1, se_lastError := Some m,
          se_nextAttemptAt := (if iv_maxAttempts env \<le> se_attempts e + 1 then None else Some (now + backoffMs (se_attempts e + 1)))\<rparr>)"

definition waiting :: "stored_event \<Rightarrow> bool" where
  "waiting e \<longleftrightarrow> se_status e \<in> {Event_pending, Event_failed}"

definition handled :: "ingest_state \<Rightarrow> stored_event \<Rightarrow> bool" where
  "handled s e \<longleftrightarrow> getWebhookHandler (se_provider e) (se_eventType e) s \<noteq> None"

lemma handled_cong: "ig_handlers s' = ig_handlers s \<Longrightarrow> handled s' e = handled s e"
  by (simp add: handled_def getWebhookHandler_def)

lemma processed_row:
  fixes env now h
  assumes "js_get (ig_events s) i = Some e" "se_status e \<noteq> Event_processed"
  defines "s' \<equiv> snd (processStoredEvent env True now False h i s)"
  shows "js_get (ig_events s') i = Some (attempted env now (handled s e) (h i) e)" "k \<noteq> i \<Longrightarrow> js_get (ig_events s') k = js_get (ig_events s) k"
    "ig_handlers s' = ig_handlers s"
  using assms(1,2) unfolding s'_def
  by (cases "h i"; cases "getWebhookHandler (se_provider e) (se_eventType e) s";
      simp add: processStoredEvent_def begin_processing_def finish_processing_def markProcessed_def attempted_def handled_def Let_def)+

lemma due_processed:
  fixes env now h
  assumes "distinct is" "\<forall>i\<in>set is. \<exists>e. js_get (ig_events s) i = Some e \<and> waiting e"
  defines "s' \<equiv> snd (process_due env True now h is s)"
  shows "ig_handlers s' = ig_handlers s \<and> (\<forall>k. js_get (ig_events s') k =
     (if k \<in> set is then map_option (\<lambda>e. attempted env now (handled s e) (h k) e) (js_get (ig_events s) k) else js_get (ig_events s) k))"
  using assms(1,2) unfolding s'_def
proof (induction "is" arbitrary: s)
  case (Cons i "is")
  obtain e where e: "js_get (ig_events s) i = Some e" "waiting e" using Cons.prems by auto
  then have np: "se_status e \<noteq> Event_processed" by (auto simp: waiting_def)
  define s1 where "s1 = snd (processStoredEvent env True now False h i s)"
  note row = processed_row [where env = env and now = now and h = h, OF e(1) np, folded s1_def]
  have w: "\<forall>j\<in>set is. \<exists>e. js_get (ig_events s1) j = Some e \<and> waiting e"
    using Cons.prems row(2) by (metis distinct.simps(2) list.set_intros(2))
  have d: "distinct is" "i \<notin> set is" using Cons.prems by auto
  define t where "t = snd (process_due env True now h is s1)"
  have ih: "ig_handlers t = ig_handlers s1" "\<And>k. js_get (ig_events t) k =
      (if k \<in> set is then map_option (\<lambda>e. attempted env now (handled s e) (h k) e) (js_get (ig_events s1) k) else js_get (ig_events s1) k)"
    using Cons.IH [OF d(1) w] by (simp_all add: t_def handled_cong [OF row(3)])
  have "js_get (ig_events t) k = (if k \<in> set (i # is) then map_option (\<lambda>e. attempted env now (handled s e) (h k) e) (js_get (ig_events s) k)
      else js_get (ig_events s) k)" for k
  proof (cases "k = i")
    case True
    then show ?thesis using ih(2) [of i] d(2) row(1) e(1) by simp
  next
    case False
    then show ?thesis using ih(2) [of k] row(2) [OF False] by simp
  qed
  then show ?case using ih(1) row(3) unfolding process_due_step s1_def [symmetric] t_def [symmetric] by simp
qed simp

definition is_due :: "millis \<Rightarrow> stored_event \<Rightarrow> bool" where
  "is_due now e \<longleftrightarrow> waiting e \<and> (case se_nextAttemptAt e of None \<Rightarrow> True | Some x \<Rightarrow> x \<le> now)"

lemma due_events_exact:
  assumes "js_wf (ig_events s)" "length (filter (\<lambda>(_, e). waiting e) (ig_events s)) \<le> limit"
  shows "distinct (due_events now limit s)" "set (due_events now limit s) = {i. \<exists>e. js_get (ig_events s) i = Some e \<and> is_due now e}"
proof -
  let ?d = "filter (\<lambda>(_, e). is_due now e) (ig_events s)"
  have d: "due_events now limit s = take limit (map fst (sort_key (\<lambda>(_, e). se_createdAt e) ?d))"
    by (simp add: due_events_def is_due_def waiting_def case_prod_beta)
  have "length ?d \<le> length (filter (\<lambda>(_, e). waiting e) (ig_events s))"
  proof -
    have "?d = filter (\<lambda>(_, e). is_due now e) (filter (\<lambda>(_, e). waiting e) (ig_events s))"
      by (auto simp: is_due_def intro!: filter_cong)
    then show ?thesis by (metis length_filter_le)
  qed
  then have l: "length ?d \<le> limit" using assms(2) by simp
  then have t: "due_events now limit s = map fst (sort_key (\<lambda>(_, e). se_createdAt e) ?d)" by (simp add: d)
  have "distinct (map fst (ig_events s))" using assms(1) by (simp add: js_wf_def)
  then have "distinct (map fst ?d)" by (rule distinct_map_filter)
  then show "distinct (due_events now limit s)" unfolding t
    by (metis (no_types, lifting) distinct_map mset_eq_imp_distinct_iff mset_map mset_sort set_sort)
  have "set (due_events now limit s) = fst ` set ?d" by (simp add: t)
  then show "set (due_events now limit s) = {i. \<exists>e. js_get (ig_events s) i = Some e \<and> is_due now e}"
    using assms(1) by (force simp: js_get_def js_wf_def)
qed

text \<open>How many attempts an event may still need.\<close>

definition attempts_left :: "ingest_env \<Rightarrow> stored_event \<Rightarrow> nat" where
  "attempts_left env e = (if waiting e then nat (max 1 (iv_maxAttempts env - se_attempts e)) else 0)"

lemma attempted_progress:
  "waiting e \<Longrightarrow> attempts_left env (attempted env now b r e) < attempts_left env e"
  "waiting (attempted env now b r e) \<Longrightarrow> is_due (now + 900000) (attempted env now b r e)"
  by (auto simp: attempted_def attempts_left_def waiting_def is_due_def backoffMs_def split: option.splits if_splits)


definition waiting_count :: "ingest_state \<Rightarrow> nat" where
  "waiting_count s = length (filter (\<lambda>(_, e). waiting e) (ig_events s))"

lemma waiting_count_set: "js_wf (ig_events s) \<Longrightarrow> waiting_count s = card {i. \<exists>e. js_get (ig_events s) i = Some e \<and> waiting e}"
proof -
  assume wf: "js_wf (ig_events s)"
  let ?f = "filter (\<lambda>(_, e). waiting e) (ig_events s)"
  have "distinct (map fst ?f)" using wf by (simp add: js_wf_def distinct_map_filter)
  then have "card (set (map fst ?f)) = length ?f" using distinct_card by fastforce
  moreover have "set (map fst ?f) = {i. \<exists>e. js_get (ig_events s) i = Some e \<and> waiting e}"
    using wf by (force simp: js_get_def js_wf_def)
  ultimately show ?thesis by (simp add: waiting_count_def)
qed

text \<open>A sweep at a time when everything that waits is due.\<close>

definition sweep_ready :: "ingest_env \<Rightarrow> nat \<Rightarrow> millis \<Rightarrow> nat \<Rightarrow> ingest_state \<Rightarrow> bool" where
  "sweep_ready env limit now n s \<longleftrightarrow> js_wf (ig_events s) \<and> waiting_count s \<le> limit \<and>
     (\<forall>i e. js_get (ig_events s) i = Some e \<longrightarrow> attempts_left env e \<le> n \<and> (waiting e \<longrightarrow> is_due now e))"

lemma sweep_progress:
  fixes h
  assumes "sweep_ready env limit now (Suc n) s" "now + 900000 \<le> later"
  defines "s' \<equiv> snd (retryDueWebhookEvents env None True now h limit s)"
  shows "sweep_ready env limit later n s'"
proof -
  let ?is = "due_events now limit s"
  have wf: "js_wf (ig_events s)" and wc: "waiting_count s \<le> limit" using assms(1) by (auto simp: sweep_ready_def)
  note d = due_events_exact [OF wf wc [unfolded waiting_count_def], of now]
  have w: "\<forall>i\<in>set ?is. \<exists>e. js_get (ig_events s) i = Some e \<and> waiting e" using d(2) by (auto simp: is_due_def)
  have s': "s' = snd (process_due env True now h ?is s)" by (simp add: s'_def retryDueWebhookEvents_def)
  have row: "js_get (ig_events s') k = (if k \<in> set ?is then map_option (\<lambda>e. attempted env now (handled s e) (h k) e) (js_get (ig_events s) k)
      else js_get (ig_events s) k)" for k
    using due_processed [OF d(1) w, of env now h] by (simp add: s')
  have wf': "js_wf (ig_events s')" using process_due_kept [of s env True now h ?is] wf by (simp add: s' identities_kept_def)
  have each: "attempts_left env e' \<le> n \<and> (waiting e' \<longrightarrow> is_due later e' \<and> (\<exists>e. js_get (ig_events s) k = Some e \<and> waiting e))"
    if e': "js_get (ig_events s') k = Some e'" for k e'
  proof (cases "k \<in> set ?is")
    case True
    then obtain e where e: "js_get (ig_events s) k = Some e" "waiting e" "e' = attempted env now (handled s e) (h k) e"
      using e' row [of k] w by auto
    have "attempts_left env e \<le> Suc n" using assms(1) e(1) by (simp add: sweep_ready_def)
    then have "attempts_left env e' \<le> n" using attempted_progress(1) [OF e(2), of env now "handled s e" "h k"] e(3) by simp
    moreover have "is_due later e'" if "waiting e'"
      using attempted_progress(2) [of env now "handled s e" "h k" e] that e(3) assms(2) by (auto simp: is_due_def split: option.splits)
    ultimately show ?thesis using e by blast
  next
    case False
    then have e: "js_get (ig_events s) k = Some e'" using e' row [of k] by simp
    then have "\<not> is_due now e'" using False d(2) by blast
    then have "\<not> waiting e'" using assms(1) e by (auto simp: sweep_ready_def)
    then show ?thesis by (simp add: attempts_left_def)
  qed
  have "{i. \<exists>e. js_get (ig_events s') i = Some e \<and> waiting e} \<subseteq> {i. \<exists>e. js_get (ig_events s) i = Some e \<and> waiting e}" using each by blast
  moreover have "finite {i. \<exists>e. js_get (ig_events s) i = Some e \<and> waiting e}"
    by (rule finite_subset [of _ "set (js_keys (ig_events s))"]) (auto dest: js_get_in_keys)
  ultimately have "card {i. \<exists>e. js_get (ig_events s') i = Some e \<and> waiting e} \<le> card {i. \<exists>e. js_get (ig_events s) i = Some e \<and> waiting e}"
    by (intro card_mono)
  then have "waiting_count s' \<le> waiting_count s" by (simp only: waiting_count_set [OF wf] waiting_count_set [OF wf'])
  then show ?thesis using wf' wc each by (auto simp: sweep_ready_def)
qed

text \<open>Sweeps at the given times, each with what the handlers do in it.\<close>

fun sweeps :: "ingest_env \<Rightarrow> nat \<Rightarrow> (millis \<times> (ident \<Rightarrow> string option)) list \<Rightarrow> ingest_state \<Rightarrow> ingest_state" where
  "sweeps env limit [] s = s"
| "sweeps env limit ((now, h) # rounds) s = sweeps env limit rounds (snd (retryDueWebhookEvents env None True now h limit s))"

fun spaced :: "millis \<Rightarrow> millis list \<Rightarrow> bool" where
  "spaced now [] \<longleftrightarrow> True"
| "spaced now (t # ts) \<longleftrightarrow> now \<le> t \<and> spaced (t + 900000) ts"

lemma sweep_ready_later: "sweep_ready env limit now n s \<Longrightarrow> now \<le> t \<Longrightarrow> sweep_ready env limit t n s"
  by (fastforce simp: sweep_ready_def is_due_def split: option.splits)



section \<open>Events that are lost, or handled twice\<close>

lemma process_due_others: "k \<notin> set is \<Longrightarrow> js_get (ig_events (snd (process_due env lands now h is s))) k = js_get (ig_events s) k"
proof (induction "is" arbitrary: s)
  case (Cons i "is")
  have b: "js_get (ig_events (snd (begin_processing lands now False i s))) k = js_get (ig_events s) k"
    using Cons.prems by (auto simp: begin_processing_def markProcessed_def Let_def split: option.split)
  have f: "js_get (ig_events (snd (finish_processing env lands now i n r t))) k = js_get (ig_events t) k" for n r t
    using Cons.prems by (auto simp: finish_processing_def markProcessed_def Let_def split: option.split)
  have "js_get (ig_events (snd (processStoredEvent env lands now False h i s))) k = js_get (ig_events s) k"
    using b f by (cases "begin_processing lands now False i s") (simp add: processStoredEvent_def split: sum.split)
  then show ?case using Cons.IH Cons.prems unfolding process_due_step by simp
qed simp

text \<open>
  An event whose attempt is interrupted, by a crash or because its end could not be written, has the status
  processing, which no sweep looks for: it stays as it is for ever, although its delivery was acknowledged and
  a repeated one is answered as a duplicate.
\<close>

theorem interrupted_event_stays:
  assumes "js_wf (ig_events s)" "js_get (ig_events s) i = Some e" "se_status e = Event_processing"
  shows "js_get (ig_events (sweeps env limit rounds s)) i = Some e"
  using assms
proof (induction env limit rounds s rule: sweeps.induct)
  case (2 env limit now h rounds s)
  have "i \<notin> set (due_events now limit s)"
  proof
    assume "i \<in> set (due_events now limit s)"
    then obtain f where "(i, f) \<in> set (ig_events s)" "se_status f \<in> {Event_pending, Event_failed}"
      unfolding due_events_def by (auto dest!: in_set_takeD)
    then show False using 2(2-4) by (auto simp: js_get_def js_wf_def)
  qed
  then have "js_get (ig_events (snd (retryDueWebhookEvents env None True now h limit s))) i = Some e"
    using 2(3) by (simp add: retryDueWebhookEvents_def process_due_others)
  moreover have "js_wf (ig_events (snd (retryDueWebhookEvents env None True now h limit s)))"
    using retry_kept [of s env None True now h limit] 2(2) by (simp add: identities_kept_def)
  ultimately show ?case using 2(1,4) by simp
qed simp

text \<open>
  An event is handled while it is being handled: only processed ones are skipped, so the sweep that has read a
  pending event runs the handler beside the attempt that the delivery has started.
\<close>

theorem running_event_runs_again:
  fixes now
  assumes "js_get (ig_events s) i = Some e" "se_status e \<noteq> Event_processed" "handled s e"
  defines "s' \<equiv> snd (begin_processing True now False i s)"
  shows "begin_processing True later False i s' = (Inr (se_attempts e + 1), s'\<lparr>ig_calls := ig_calls s @ [i, i]\<rparr>)"
proof -
  have s': "js_get (ig_events s') i = Some (e\<lparr>se_status := Event_processing\<rparr>)" "ig_calls s' = ig_calls s @ [i]" "ig_handlers s' = ig_handlers s"
    using assms(1-3) by (auto simp: s'_def begin_processing_def handled_def Let_def put_event_def)
  have same: "put_event i (\<lambda>e. e\<lparr>se_status := Event_processing\<rparr>) s' = s'"
  proof -
    have "js_set i (e\<lparr>se_status := Event_processing\<rparr>) m = m" if "js_get m i = Some (e\<lparr>se_status := Event_processing\<rparr>)" for m :: "(ident, stored_event) jsmap"
      using that by (induction m) (auto simp: js_get_def js_set_def split: if_splits)
    then show ?thesis using s'(1) by (simp add: put_event_def)
  qed
  have "getWebhookHandler (se_provider e) (se_eventType e) s' \<noteq> None"
    using assms(3) s'(3) by (simp add: handled_def getWebhookHandler_def)
  then show ?thesis using s'(1,2) same by (auto simp: begin_processing_def Let_def)
qed

text \<open>A replay that fails makes a processed event a failed one, which the sweep runs again.\<close>

theorem failed_replay_unsettles:
  assumes "js_get (ig_events s) i = Some e" "se_status e = Event_processed" "handled s e" "h i = Some m" "se_attempts e + 1 < iv_maxAttempts env"
  shows "\<exists>e'. js_get (ig_events (snd (processStoredEvent env True now True h i s))) i = Some e' \<and> se_status e' = Event_failed \<and> se_processed e' = se_processed e"
  using assms by (auto simp: processStoredEvent_def begin_processing_def finish_processing_def handled_def Let_def)

text \<open>
  The event id of Paystack is the reference of the transaction: every further event of the same transaction is
  acknowledged as a duplicate and dropped, whatever its type and data.
\<close>

theorem later_event_of_reference_dropped:
  assumes "js_wf (ig_events s)" "event_stored p x s"
  shows "store_event (Insert_stores i) now p x t d s = (Ingest_duplicate x, s)"
  using find_event_stored [OF assms(1), of p x] assms(2) by (simp add: store_event_def)

text \<open>
  Outside of production a missing secret of Paystack or Telegram is meant to skip the check; the delivery is
  then valid without an event, so that it has no id and is refused.
\<close>

theorem unchecked_delivery_refused:
  assumes "\<not> iv_production env" "p = Paystack \<and> given_text (iv_paystackSecret env) = None \<or> p = Telegram \<and> given_text (iv_telegramSecret env) = None"
  shows "fst (ingestWebhook env audited ins now p rq s) = Inr (Ingest_malformed ''missing_event_id'')"
  using assms
  by (auto simp: ingestWebhook_def verify_delivery_def verifyPaystackWebhook_def verifyTelegramWebhook_def verified_def extractEventId_def
      id_text_def Let_def)

text \<open>A delivery of Paystack is accepted as verified exactly when its signature denotes the bytes of the hash and its body is JSON.\<close>

theorem paystack_accepts_iff:
  assumes "given_text (iv_paystackSecret env) = Some secret" "given_text signature = Some sig"
  shows "vf_valid (fst (verifyPaystackWebhook env body signature)) \<longleftrightarrow>
     hex_decode sig = hex_decode (iv_hmac512 env secret body) \<and> json_parse (iv_read env) body \<noteq> None"
  using assms by (auto simp: verifyPaystackWebhook_def Let_def verified_def unverified_def split: option.split)

section \<open>Witnesses\<close>

definition wit_ingest :: ingest_env where
  "wit_ingest = \<lparr>iv_production = True, iv_stripeSecret = Some ''s'', iv_paystackSecret = None, iv_telegramSecret = None, iv_paypalWebhookId = None,
     iv_paypalClientId = None, iv_paypalClientSecret = None, iv_maxAttempts = 2, iv_alerts = \<lparr>al_threshold = 5, al_cooldownMs = 10\<rparr>,
     iv_constructEvent = \<lambda>_ _ _. Inr (JObj [(''id'', JStr ''e''), (''type'', JStr ''t'')]), iv_hmac512 = \<lambda>_ _. [], iv_read = \<lambda>_. None,
     iv_number = \<lambda>_. [], iv_syntaxError = \<lambda>_. [], iv_paypalToken = Paypal_refuses, iv_paypalVerify = \<lambda>_. Paypal_refuses\<rparr>"

definition wit_inbox :: ingest_state where
  "wit_inbox = \<lparr>ig_events = [], ig_rejections = [], ig_replays = [], ig_handlers = [(''stripe:t'', ''h'')],
     ig_alerts = \<lparr>sa_failures = [], sa_alerts = []\<rparr>, ig_calls = []\<rparr>"

definition wit_delivery :: webhook_delivery_request where
  "wit_delivery = \<lparr>dq_body = ''b'', dq_header = (\<lambda>_. Some ''x''), dq_ip = None\<rparr>"

lemma wit_ingested: "ingestWebhook wit_ingest True (Insert_stores ''i'') 1 Stripe wit_delivery wit_inbox =
    (Inr (Ingest_accepted ''e'' ''i''),
     wit_inbox\<lparr>ig_events := [(''i'', new_event 1 Stripe ''e'' ''t'' (Some (JObj [(''id'', JStr ''e''), (''type'', JStr ''t'')])))]\<rparr>)"
  by (simp add: ingestWebhook_def verify_delivery_def verifyStripeWebhook_def wit_ingest_def wit_delivery_def wit_inbox_def given_text_def verified_def
      extractEventId_def extractEventType_def id_text_def type_text_def column_text_def signal_alerts_def recordSuccess_def store_event_def
      find_event_def js_get_def js_set_def Let_def)

theorem acknowledged_is_stored_witness:
  "\<exists>!i. \<exists>e. js_get (ig_events (snd (retryDueWebhookEvents wit_ingest None True 2 (\<lambda>_. None) 50
     (snd (ingestWebhook wit_ingest True (Insert_stores ''i'') 1 Stripe wit_delivery wit_inbox))))) i = Some e \<and> se_provider e = Stripe \<and> se_eventId e = ''e''"
proof -
  let ?d = "ingestWebhook wit_ingest True (Insert_stores ''i'') 1 Stripe wit_delivery wit_inbox"
  have d: "?d = (fst ?d, snd ?d)" by simp
  have "ingest_status (fst ?d) \<in> {200, 202}" by (simp add: wit_ingested ingest_status_def)
  moreover have "(ingest_step wit_ingest)\<^sup>*\<^sup>* (snd ?d) (snd (retryDueWebhookEvents wit_ingest None True 2 (\<lambda>_. None) 50 (snd ?d)))"
    by (rule r_into_rtranclp) (rule Step_retry)
  moreover have "fresh_insert (Insert_stores ''i'') wit_inbox" "ig_events wit_inbox = []" by (simp_all add: fresh_insert_def wit_inbox_def)
  ultimately obtain vf x where v: "fst (verify_delivery wit_ingest Stripe wit_delivery) = Inr vf" "extractEventId wit_ingest Stripe (vf_event vf) = Some x"
    "\<exists>!i. \<exists>e. js_get (ig_events (snd (retryDueWebhookEvents wit_ingest None True 2 (\<lambda>_. None) 50 (snd ?d)))) i = Some e \<and> se_provider e = Stripe \<and> se_eventId e = x"
    using acknowledged_is_stored [OF _ rtranclp.rtrancl_refl _ d] by blast
  have "x = ''e''" using v(1,2)
    by (auto simp: verify_delivery_def verifyStripeWebhook_def wit_ingest_def wit_delivery_def given_text_def verified_def extractEventId_def id_text_def
        column_text_def)
  then show ?thesis using v(3) by simp
qed


end
