(* ===== verification/Spec2Isabelle.thy ===== *)
theory Spec2Isabelle
  imports PaymentState GatewayProps V3Gateway AuditProps ChannelProps LedgerProps SdkClientProps SdkProvider LeaseProps
    ChainLogProps RpcBreaker Indexer SettlementProps SsrfProps MerkleProps OutboxProps IdempotencyProps
    SubscriptionMathProps Simulation RenewalQueueProps OfflineQueueProps V2ListProps
    AdmissionProps UnitEconomics WebhookProps WebhookIngestProps
begin

text \<open>
  SYNCRO is a subscription manager with a payment side: agents call providers through gateways
  that charge per request, money moves off chain through payment channels, and an audit log
  records what happened.  This development models the part of the TypeScript code that decides
  who is served, who is charged and what is recorded.

  \<^bold>\<open>Layout.\<close>  \<open>Prelude\<close> holds what all theories share: time stamps (\<open>millis\<close>, an integer),
  amounts (\<open>amount\<close>, rational numbers), JavaScript's \<open>Map\<close> (\<open>jsmap\<close>, entries in insertion
  order), strings, hexadecimal text, and the rendering of integers.

  \<^item> \<open>PaymentState\<close>: \<open>backend/src/types/payment-state.ts\<close>, the states of a payment, the table of
    transitions and the classification helpers.
  \<^item> \<open>SpendCap\<close>, \<open>Meter\<close>, \<open>Challenge\<close>, \<open>Replay\<close>: the services of \<open>backend/src/services/v3\<close>.
    \<open>SpendCap\<close> is the cache of spending caps with the amount consumed since the last sync.
    \<open>Meter\<close> is the tracker of reservations.  \<open>Challenge\<close> is the HTTP 402 challenge and the
    verification of channel state proofs with its nonce store and channel state store; \<open>Replay\<close>
    proves, over histories of verifications, that nonces and sequence numbers are used once.
  \<^item> \<open>Gateway\<close>, \<open>GatewayProps\<close>: \<open>gateway-lifecycle.ts\<close> and \<open>routes/v3/gateway.ts\<close>, the seven
    middlewares of a paid request in the order of the router: identity, meter, price, balance and
    challenge, proof, cap, proxy and commit.  The state is the record of all stores they
    share; a middleware returns either the answer that ends the request or the next context.
  \<^item> \<open>Json\<close>: JSON values as the code builds them, the canonicalizers used before hashing,
    and \<open>JSON.stringify\<close> restricted to them.
  \<^item> \<open>ScopeEnforcer\<close>, \<open>ProviderStore\<close>, \<open>Receipts\<close>, \<open>V3Gateway\<close>: \<open>backend/src/v3\<close>.  The grants of
    agents with a cache that is trusted up to a soft expiry and used up to a hard one when the
    registry is down; providers, routes and their patterns, as the regular expression the code
    builds; signed receipts; and the service that registers routes and processes paid calls.
  \<^item> \<open>AuditChain\<close>, \<open>AuditService\<close>, \<open>AuditProps\<close>: \<open>backend/src/services/audit-chain.ts\<close> and
    \<open>audit-service.ts\<close>.  The hash of an entry and the walk that verifies a run of rows; the
    event builders, appending with retries, queries; what the two promise together.
  \<^item> \<open>ProofVerifier\<close>: \<open>payment-proof-verifier.ts\<close>, proofs bound to a request, accepted once.
  \<^item> \<open>PaymentChannel\<close>, \<open>ChannelOps\<close>, \<open>ChannelProps\<close>: \<open>payment-channel-service.ts\<close> and
    \<open>channel-state.ts\<close>.  The handlers over a database interface; the state machine of a channel as
    an inductive relation \<open>row_change\<close>, the refinement of every handler to it, and the
    invariants of histories of handler calls.
  \<^item> \<open>GiftCardLedger\<close>, \<open>LedgerProps\<close>: \<open>gift-card-ledger-service.ts\<close> and
    \<open>gift-card-ledger-verifier.ts\<close>.  Balanced transactions of postings, and the job that checks the
    sums and the balances; the invariants of histories of ledger operations, and what the verifier
    reports on the ledgers the service writes.
  \<^item> \<open>Leases\<close>, \<open>LeaseProps\<close>: \<open>channel-signer-lease-service.ts\<close> with its database functions, and
    \<open>renewal-lock-service.ts\<close>: who may sign the states of a channel and with which numbers, who may
    renew a subscription.
  \<^item> \<open>RpcBreaker\<close>, \<open>ChainClient\<close>, \<open>ChainClientProps\<close>: the way to the ledger.
    \<open>shared/src/platform/rpc-client.ts\<close>, the circuit breaker; and \<open>chain-submission-client.ts\<close>, which
    numbers transactions, raises fees, asks for the fate of a transaction after a timeout and
    remembers what it has submitted.
  \<^item> \<open>Memo\<close>, \<open>ChainLog\<close>, \<open>ChainLogProps\<close>: \<open>memo.ts\<close> and \<open>blockchain-service.ts\<close>.  Every event is a row
    of a log and a call of the contract; what the row says of the call.
  \<^item> \<open>Indexer\<close>: \<open>blockchain/indexer.ts\<close>, the cursor over the ledger's events.
  \<^item> \<open>Settlement\<close>, \<open>SettlementProps\<close>: \<open>settlement-batcher.ts\<close> and \<open>channel-settlement-job.ts\<close>.  The
    queue of settlements, the batches and the job that closes channels, over \<open>ChainLog\<close> and
    \<open>PaymentChannel\<close>: bounds, the order of a batch, and that what is old enough drains.
  \<^item> \<open>Ssrf\<close>, \<open>SsrfProps\<close>: \<open>utils/ssrf-protection.ts\<close>, which addresses the backend refuses to call:
    addresses as 32-bit words, the ranges as masks, and the check of every address a name resolves to.
  \<^item> \<open>Merkle\<close>, \<open>MerkleProps\<close>: \<open>shared/src/logic/crypto/merkle.ts\<close>, trees, proofs and their check.
  \<^item> \<open>Outbox\<close>, \<open>OutboxProps\<close>: \<open>lib/event-bus.ts\<close> and \<open>lib/outbox-publisher.ts\<close>, the table of domain
    events and the publisher that hands them to subscribers; that it drains and loses nothing.
  \<^item> \<open>Idempotency\<close>, \<open>IdempotencyProps\<close>: \<open>services/idempotency.ts\<close> and \<open>middleware/idempotency.ts\<close>.
    Answers stored under a key and replayed, over histories of requests and clean-ups; and the edit
    distance that finds similar subscriptions, against its specification by edits.
  \<^item> \<open>Calendar\<close>, \<open>SubscriptionMath\<close>, \<open>SubscriptionMathProps\<close>, \<open>BillingCycle\<close>, \<open>Simulation\<close>: \<open>Date\<close> in UTC
    (years, months and days of an instant, and that they determine it);
    \<open>shared/src/logic/subscription-math.ts\<close>, whose header states the invariants that are proved here;
    \<open>utils/billing-cycle.ts\<close> over the additions of \<open>date-fns\<close>, and \<open>simulation-service.ts\<close>, which
    projects renewals by advancing dates.
  \<^item> \<open>RedisLock\<close>, \<open>Renewal\<close>, \<open>RenewalProps\<close>: \<open>lib/redis-lock.ts\<close>, the lock of a renewal cycle, and
    \<open>renewal-executor.ts\<close>, which checks approval and billing window, pays and moves the billing
    date; histories of renewals with their retries.  \<open>RenewalQueue\<close>, \<open>RenewalQueueProps\<close>:
    \<open>renewal-execution-orchestrator.ts\<close> and \<open>renewal-dead-letter-service.ts\<close>, renewals under an
    idempotency key and the lock; that a success is replayed and every failure counted.
  \<^item> \<open>OfflineQueue\<close>, \<open>OfflineQueueProps\<close>: \<open>client/lib/sync\<close> and \<open>client/hooks/use-offline-queue.ts\<close>, the
    changes a client makes offline and their replay; histories of them as an inductive relation.
  \<^item> \<open>V2List\<close>, \<open>V2ListProps\<close>: \<open>backend/src/http/v2\<close> and \<open>routes/v2/catalog.ts\<close>, signed cursors and
    the pages of a list; that they cover a list that changes while it is read.
  \<^item> \<open>AdmissionCache\<close>, \<open>AdmissionCacheProps\<close>, \<open>Admission\<close>, \<open>AdmissionProps\<close>: \<open>services/admission-cache.ts\<close>, whose
    entries live in Redis and in the memory of each process, and that a revoked one is not served;
    \<open>services/admission-service.ts\<close> with its middleware, the checks of a request and the decision.
  \<^item> \<open>UnitEconomics\<close>: \<open>services/v3/unit-economics-service.ts\<close>, the cost of a settled call and the size of a batch.
  \<^item> \<open>Webhooks\<close>, \<open>WebhookProps\<close>: \<open>services/webhook-service.ts\<close> and \<open>webhook-dead-letter-service.ts\<close>, deliveries,
    their retries and replays; who may touch which rows, over histories of a user's operations.
  \<^item> \<open>WebhookIngest\<close>, \<open>WebhookIngestProps\<close>: \<open>services/webhook-ingestion.ts\<close> with the verification of the
    providers: what is acknowledged is stored once, under any interleaving of attempts, and sweeps
    bring every waiting event to an end.
  \<^item> \<open>JsonParse\<close>: \<open>JSON.parse\<close> as a parser, and that it reads what \<open>JSON.stringify\<close> prints.
  \<^item> \<open>JsonText\<close>: \<open>JSON.stringify\<close> is injective, so a signed text determines what was signed.
  \<^item> \<open>SdkClient\<close>, \<open>SdkClientProps\<close>, \<open>SdkPay\<close>, \<open>SdkProvider\<close>: the other side, \<open>sdk/src\<close>.  The
    client of the gateway with its errors, retries and idempotency keys; receipts and the wrapper
    of \<open>fetch\<close> that pays; route prices and the middleware of a provider.

  \<^bold>\<open>Interfaces.\<close>  Where a component relies on another through a contract the contract is a
  locale, interpreted on the code's model where the provider is defined: the tracker of
  reservations (\<open>Meter\<close>), the channel state store (\<open>Replay\<close>), the agent registry
  (\<open>ScopeEnforcer\<close>), the set of seen nonces (\<open>ProofVerifier\<close>), exclusive leases (\<open>Leases\<close>, interpreted
  by the signer lease and by the renewal lock, and by \<open>RedisLock\<close>).  What is not code of the repository is an argument: hash
  functions, signatures, the database, the provider's answer, the clock.  What the code relies on from
  it is a named predicate (\<open>channel_db_ok\<close>, \<open>ledger_db_ok\<close>, \<open>insert_ok\<close>, \<open>columns_ok\<close>), and every theorem
  with such a hypothesis has a witness on a concrete instance (\<open>table_db\<close>, \<open>plain_columns\<close>).

  \<^bold>\<open>Asynchrony.\<close>  A handler runs without interruption between two awaits.  Handlers whose awaits only
  surround calls that cannot affect them are one function; where another request can interfere the
  handler is split there: the cap check and the commit (\<open>Gateway\<close>), the read of the chain's tip
  and the insert (\<open>AuditService\<close>, whose attempts carry what other processes did), the
  select and the update of a renewal (\<open>renewal_read\<close>, \<open>send_update\<close>).

  \<^bold>\<open>Bounds.\<close>  No function needs fuel: loops run over lists, and retries (of the audit service, the
  SDK, the RPC client, the submission of a transaction) are a recursion on the attempts that are
  left.  Three loops may run forever and return
  an option: those that wait for a confirmation (\<open>wait_loop\<close>) and that index batches (\<open>indexRange\<close>) return when the clock advances and when a batch holds a ledger.  The loop of a projection (\<open>projection_loop\<close>) returns
  for the billing cycles the code knows and is proved to run forever for any other.

  \<^bold>\<open>Numbers.\<close>  Amounts are rational numbers, so rounding of floating point values and \<open>NaN\<close> are not
  modelled, except where the code reaches it through a missing field (\<open>undef_less\<close> in
  \<open>Challenge\<close>).  Time stamps are integers in milliseconds.

  \<^bold>\<open>Not modelled.\<close>  Express wiring, validation schemas, logging, metrics, key loading and environment
  variables; the services of subscriptions, reminders, notifications, mail, analytics and chat bots,
  which mostly query tables and call third parties; the rotation of agent wallets, the history of a
  channel for operators and the archives; the web client except its offline queue; generated code
  (the types of the database, the paths of the API); the contracts, which are in another language.
\<close>

end
